(* ===== verification/Prelude.thy ===== *)
theory Prelude
  imports Main
begin

text \<open>
  Shared ground of the development: the errors the SyMon packages return, results as sums,
  operations as functions from a state to a result and the next state (so that every early
  \<open>return err\<close> of the Go code is a branch of the model), Go maps as partial functions, and the
  facts on lists and maps the components use.
\<close>

section \<open>Collections of rewrite rules\<close>

named_theorems go_defs \<open>definitions that model the Go standard library\<close>
named_theorems act_simps \<open>unfolding of the state and error plumbing\<close>
named_theorems store_defs \<open>definitions of the store's statements\<close>
named_theorems store_frame \<open>what a store operation leaves alone\<close>

section \<open>Errors\<close>

text \<open>
  The sentinel errors of internal/store, the unique violation PostgreSQL reports with code 23505,
  and any other failure of a database call. An error made from a text is kept as its format and
  the arguments put into it (\<open>ErrText\<close>). \<open>ErrWrap\<close> is \<open>fmt.Errorf\<close> with \<open>%w\<close>, and \<open>ErrInvalidOf e\<close>
  is \<open>ErrInvalid\<close> wrapped with the text of \<open>e\<close>. \<open>ErrStatus c e\<close> is a gRPC status with code \<open>c\<close> and the text of \<open>e\<close>.
\<close>

datatype grpc_code = OK | Canceled | Unknown | InvalidArgument | DeadlineExceeded | NotFound | AlreadyExists | PermissionDenied |
  ResourceExhausted | FailedPrecondition | Unimplemented | Internal | Unavailable | Unauthenticated

datatype error =
    ErrNotFound
  | ErrInvalid
  | ErrRuleExists
  | ErrChannelExists
  | ErrHostExists
  | ErrUserExists
  | ErrTaskBusy
  | ErrBadLogin
  | ErrBadSession
  | ErrBadToken
  | ErrClusterTaken
  | ErrUnique
  | ErrDB string
  | ErrText string "string list"
  | ErrWrap string "string list" error
  | ErrInvalidOf error
  | ErrStatus grpc_code error

text \<open>\<open>errors.Is\<close> looks through what an error wraps.\<close>

fun errors_Is :: "error \<Rightarrow> error \<Rightarrow> bool" where
  "errors_Is (ErrWrap f args e) t = (ErrWrap f args e = t \<or> errors_Is e t)"
| "errors_Is (ErrInvalidOf e) t = (ErrInvalidOf e = t \<or> ErrInvalid = t)"
| "errors_Is e t = (e = t)"

type_synonym 'a result = "error + 'a"

section \<open>Operations with state and errors\<close>

text \<open>
  An operation takes the state and returns a result with the next state. The state is returned
  with an error too: what an operation did before it failed stays done, unless a transaction
  takes it back.
\<close>

type_synonym ('a, 's) act = "'s \<Rightarrow> 'a result \<times> 's"

definition ret :: "'a \<Rightarrow> ('a, 's) act" where
  "ret a s = (Inr a, s)"

definition fail :: "error \<Rightarrow> ('a, 's) act" where
  "fail e s = (Inl e, s)"

definition bindE :: "('a, 's) act \<Rightarrow> ('a \<Rightarrow> ('b, 's) act) \<Rightarrow> ('b, 's) act" where
  "bindE m k s = (case m s of (Inl e, s') \<Rightarrow> (Inl e, s') | (Inr a, s') \<Rightarrow> k a s')"

definition get_state :: "('s, 's) act" where
  "get_state s = (Inr s, s)"

definition modify :: "('s \<Rightarrow> 's) \<Rightarrow> (unit, 's) act" where
  "modify f s = (Inr (), f s)"

text \<open>A \<open>for\<close> loop whose body may return early with an error.\<close>

fun for_each :: "('x \<Rightarrow> (unit, 's) act) \<Rightarrow> 'x list \<Rightarrow> (unit, 's) act" where
  "for_each f [] s = (Inr (), s)"
| "for_each f (x # xs) s = bindE (f x) (\<lambda>_. for_each f xs) s"

text \<open>A step that does not touch the state.\<close>

definition of_result :: "'a result \<Rightarrow> ('a, 's) act" where
  "of_result r s = (r, s)"

lemma ret_apply [simp]: "ret a s = (Inr a, s)"
  by (simp add: ret_def)

lemma fail_apply [simp]: "fail e s = (Inl e, s)"
  by (simp add: fail_def)

lemma get_state_apply [simp]: "get_state s = (Inr s, s)"
  by (simp add: get_state_def)

lemma modify_apply [simp]: "modify f s = (Inr (), f s)"
  by (simp add: modify_def)

lemma bindE_ret [simp]: "bindE (ret a) k = k a"
  by (simp add: bindE_def fun_eq_iff)

lemma bindE_fail [simp]: "bindE (fail e) k = fail e"
  by (simp add: bindE_def fun_eq_iff)

lemma bindE_Inr: "m s = (Inr a, s') \<Longrightarrow> bindE m k s = k a s'"
  by (simp add: bindE_def)

lemma bindE_Inl: "m s = (Inl e, s') \<Longrightarrow> bindE m k s = (Inl e, s')"
  by (simp add: bindE_def)

lemma bindE_assoc: "bindE (bindE m k) l = bindE m (\<lambda>a. bindE (k a) l)"
  by (auto simp: bindE_def fun_eq_iff split: prod.splits sum.splits)

lemma bindE_get [simp]: "bindE get_state k s = k s s"
  by (simp add: bindE_def)

lemma bindE_modify [simp]: "bindE (modify f) k s = k () (f s)"
  by (simp add: bindE_def)

text \<open>The two ways a sequence of two operations can end.\<close>

lemma bindE_cases:
  assumes "bindE m k s = (r, s')"
  obtains (err) e where "m s = (Inl e, s')" and "r = Inl e"
    | (ok) a s1 where "m s = (Inr a, s1)" and "k a s1 = (r, s')"
  using assms by (auto simp: bindE_def split: prod.splits sum.splits)

lemma bindE_InrE:
  assumes "bindE m k s = (Inr b, s')"
  obtains a s1 where "m s = (Inr a, s1)" and "k a s1 = (Inr b, s')"
  using assms by (auto simp: bindE_def split: prod.splits sum.splits)

text \<open>A property of the state that both parts keep is kept by the sequence, and by a loop.\<close>

definition keeps :: "('s \<Rightarrow> bool) \<Rightarrow> ('a, 's) act \<Rightarrow> bool" where
  "keeps P m \<longleftrightarrow> (\<forall>s. P s \<longrightarrow> P (snd (m s)))"

lemma keepsI: "(\<And>s. P s \<Longrightarrow> P (snd (m s))) \<Longrightarrow> keeps P m"
  by (simp add: keeps_def)

lemma keepsD: "keeps P m \<Longrightarrow> P s \<Longrightarrow> m s = (r, s') \<Longrightarrow> P s'"
  by (metis keeps_def snd_conv)

lemma keeps_ret [simp, intro]: "keeps P (ret a)"
  by (simp add: keeps_def)

lemma keeps_fail [simp, intro]: "keeps P (fail e)"
  by (simp add: keeps_def)

lemma keeps_get [simp, intro]: "keeps P get_state"
  by (simp add: keeps_def)

lemma keeps_modify: "(\<And>s. P s \<Longrightarrow> P (f s)) \<Longrightarrow> keeps P (modify f)"
  by (simp add: keeps_def)

lemma keeps_bindE [intro]:
  assumes "keeps P m" and "\<And>a. keeps P (k a)"
  shows "keeps P (bindE m k)"
  using assms by (auto simp: keeps_def bindE_def split: prod.splits sum.splits)

lemma keeps_of_result [intro]: "keeps P (of_result r)"
  by (simp add: keeps_def of_result_def)

lemma keeps_result_bind: "(\<And>a. r = Inr a \<Longrightarrow> keeps P (k a)) \<Longrightarrow> keeps P (bindE (of_result r) k)"
  by (cases r) (auto simp: keeps_def of_result_def bindE_def)

lemma keeps_for_each [intro]:
  assumes "\<And>x. keeps P (f x)"
  shows "keeps P (for_each f xs)"
proof (rule keepsI)
  fix s assume "P s"
  then show "P (snd (for_each f xs s))"
  proof (induction xs arbitrary: s)
    case (Cons x xs)
    then show ?case
      using assms [of x] by (auto simp: keeps_def bindE_def split: prod.splits sum.splits)
  qed simp
qed

section \<open>Go maps\<close>

text \<open>
  A Go map is a partial function. \<open>delete(m, k)\<close> and a loop that deletes the keys of which a
  condition holds are written out; ranging over a Go map has no order, and these loops do not
  depend on one.
\<close>

definition map_delete :: "'k \<Rightarrow> ('k \<rightharpoonup> 'v) \<Rightarrow> ('k \<rightharpoonup> 'v)" where
  "map_delete k m = m(k := None)"

definition map_delete_if :: "('k \<Rightarrow> bool) \<Rightarrow> ('k \<rightharpoonup> 'v) \<Rightarrow> ('k \<rightharpoonup> 'v)" where
  "map_delete_if P m = (\<lambda>k. if P k then None else m k)"

text \<open>Reading a missing key of a Go map gives the zero value.\<close>

definition map_get :: "'v \<Rightarrow> ('k \<rightharpoonup> 'v) \<Rightarrow> 'k \<Rightarrow> 'v" where
  "map_get zero m k = (case m k of None \<Rightarrow> zero | Some v \<Rightarrow> v)"

lemma map_delete_apply [simp]: "map_delete k m j = (if j = k then None else m j)"
  by (simp add: map_delete_def)

lemma map_delete_if_apply [simp]: "map_delete_if P m j = (if P j then None else m j)"
  by (simp add: map_delete_if_def)

lemma map_get_upd [simp]: "map_get z (m(k \<mapsto> v)) j = (if j = k then v else map_get z m j)"
  by (simp add: map_get_def)

lemma map_get_empty [simp]: "map_get z Map.empty k = z"
  by (simp add: map_get_def)

section \<open>Lists as tables\<close>

text \<open>
  \<open>UPDATE t SET f WHERE P\<close> on a table kept as a list of rows, and the first row that satisfies a
  condition, which is what \<open>QueryRow\<close> scans.
\<close>

definition update_where :: "('r \<Rightarrow> bool) \<Rightarrow> ('r \<Rightarrow> 'r) \<Rightarrow> 'r list \<Rightarrow> 'r list" where
  "update_where P f = map (\<lambda>r. if P r then f r else r)"

definition delete_where :: "('r \<Rightarrow> bool) \<Rightarrow> 'r list \<Rightarrow> 'r list" where
  "delete_where P = filter (\<lambda>r. \<not> P r)"

definition rows_affected :: "('r \<Rightarrow> bool) \<Rightarrow> 'r list \<Rightarrow> int" where
  "rows_affected P rs = int (length (filter P rs))"

lemma update_where_Nil [simp]: "update_where P f [] = []"
  by (simp add: update_where_def)

lemma update_where_Cons [simp]:
  "update_where P f (r # rs) = (if P r then f r else r) # update_where P f rs"
  by (simp add: update_where_def)

lemma update_where_append [simp]:
  "update_where P f (rs @ rs') = update_where P f rs @ update_where P f rs'"
  by (simp add: update_where_def)

lemma length_update_where [simp]: "length (update_where P f rs) = length rs"
  by (simp add: update_where_def)

lemma set_update_where: "set (update_where P f rs) = {if P r then f r else r | r. r \<in> set rs}"
  by (auto simp: update_where_def)

lemma update_where_none: "\<not> (\<exists>r \<in> set rs. P r) \<Longrightarrow> update_where P f rs = rs"
  by (induction rs) auto

lemma map_update_where:
  "(\<And>r. P r \<Longrightarrow> g (f r) = g r) \<Longrightarrow> map g (update_where P f rs) = map g rs"
  by (induction rs) auto

lemma delete_where_Nil [simp]: "delete_where P [] = []"
  by (simp add: delete_where_def)

lemma delete_where_Cons [simp]:
  "delete_where P (r # rs) = (if P r then delete_where P rs else r # delete_where P rs)"
  by (simp add: delete_where_def)

lemma set_delete_where [simp]: "set (delete_where P rs) = {r \<in> set rs. \<not> P r}"
  by (simp add: delete_where_def)

lemma rows_affected_zero: "rows_affected P rs = 0 \<longleftrightarrow> \<not> (\<exists>r \<in> set rs. P r)"
  by (auto simp: rows_affected_def filter_empty_conv)

lemma rows_affected_nonneg [simp]: "0 \<le> rows_affected P rs"
  by (simp add: rows_affected_def)

lemma find_SomeD: "find P xs = Some x \<Longrightarrow> x \<in> set xs \<and> P x"
  by (induction xs) (auto split: if_splits)

lemma find_NoneD: "find P xs = None \<Longrightarrow> x \<in> set xs \<Longrightarrow> \<not> P x"
  by (simp add: find_None_iff)

lemma find_append: "find P (xs @ ys) = (case find P xs of None \<Rightarrow> find P ys | Some x \<Rightarrow> Some x)"
  by (induction xs) auto

lemma find_update_where:
  assumes "\<And>r. r \<in> set rs \<Longrightarrow> Q r \<Longrightarrow> P (f r) = P r"
  shows "find P (update_where Q f rs) = map_option (\<lambda>r. if Q r then f r else r) (find P rs)"
  using assms by (induction rs) auto

lemma filter_singleD: "filter P xs = [x] \<Longrightarrow> x \<in> set xs \<and> P x"
proof -
  assume "filter P xs = [x]"
  then have "x \<in> set (filter P xs)" by simp
  then show ?thesis by simp
qed

lemma distinct_map_eq: "distinct (map g rs) \<Longrightarrow> r \<in> set rs \<Longrightarrow> r' \<in> set rs \<Longrightarrow> g r = g r' \<Longrightarrow> r = r'"
  by (simp add: distinct_map inj_on_def)

lemma distinct_map_find:
  assumes "distinct (map g rs)" and "r \<in> set rs"
  shows "find (\<lambda>x. g x = g r) rs = Some r"
proof -
  obtain r' where r': "find (\<lambda>x. g x = g r) rs = Some r'"
    using assms(2) by (cases "find (\<lambda>x. g x = g r) rs") (auto simp: find_None_iff)
  then have "r' \<in> set rs" and "g r' = g r"
    by (auto dest: find_SomeD)
  with assms have "r' = r" by (metis distinct_map_eq)
  with r' show ?thesis by simp
qed

lemma distinct_replace:
  assumes "distinct (map g rs)" and "distinct (map h rs)" and "\<forall>r \<in> set rs. h r = v \<longrightarrow> g r = i" and "\<And>r. h (f r) = v"
  shows "distinct (map h (update_where (\<lambda>r. g r = i) f rs))"
  using assms(1-3)
proof (induction rs)
  case (Cons a rs)
  show ?case
  proof (cases "g a = i")
    case True
    with Cons.prems(1) have none: "\<forall>r \<in> set rs. g r \<noteq> i" by (simp add: image_iff) metis
    then have "update_where (\<lambda>r. g r = i) f rs = rs" by (intro update_where_none) auto
    moreover have "v \<notin> h ` set rs" using Cons.prems(3) none by auto
    ultimately show ?thesis using True Cons.prems(2) by (simp add: assms(4))
  next
    case False
    then have "h a \<noteq> v" using Cons.prems(3) by auto
    then have "h a \<notin> h ` set (update_where (\<lambda>r. g r = i) f rs)"
      using Cons.prems(2) by (auto simp: set_update_where assms(4) split: if_splits)
    with False Cons show ?thesis by simp
  qed
qed simp

lemma image_rest: "x \<in> f ` A \<Longrightarrow> x \<notin> f ` {a \<in> A. P a} \<Longrightarrow> x \<in> f ` {a \<in> A. \<not> P a}"
  by blast

end
