(* ===== verification/GoNumbers.thy ===== *)
theory GoNumbers
  imports Complex_Main Prelude
begin

text \<open>
  Go's numbers as SyMon uses them: the wrap-around of int64, float64 with round to nearest even,
  infinities and NaN (the sign of zero is not kept), durations as int64 nanoseconds and times as
  nanoseconds since Go's zero time, 1 January of year 1, 00:00 UTC.
\<close>

section \<open>int64\<close>

definition wrap64 :: "int \<Rightarrow> int" where
  "wrap64 x = (x + 2 ^ 63) mod 2 ^ 64 - 2 ^ 63"

text \<open>A conversion to int32.\<close>

definition wrap32 :: "int \<Rightarrow> int" where
  "wrap32 x = (x + 2 ^ 31) mod 2 ^ 32 - 2 ^ 31"

definition int64 :: "int \<Rightarrow> bool" where
  "int64 x \<longleftrightarrow> - (2 ^ 63) \<le> x \<and> x < 2 ^ 63"

lemma wrap64_range: "int64 (wrap64 x)"
  by (simp add: wrap64_def int64_def)

lemma wrap64_id: "int64 x \<Longrightarrow> wrap64 x = x"
  by (simp add: wrap64_def int64_def)

text \<open>Go's integer division truncates towards zero.\<close>

definition tquot :: "int \<Rightarrow> int \<Rightarrow> int" where
  "tquot a b = sgn a * sgn b * (\<bar>a\<bar> div \<bar>b\<bar>)"

definition trem :: "int \<Rightarrow> int \<Rightarrow> int" where
  "trem a b = a - tquot a b * b"

lemma tquot_nonneg: "0 \<le> a \<Longrightarrow> 0 < b \<Longrightarrow> tquot a b = a div b"
  by (cases "a = 0") (simp_all add: tquot_def)

lemma trem_nonneg: "0 \<le> a \<Longrightarrow> 0 < b \<Longrightarrow> trem a b = a mod b"
  by (simp add: trem_def tquot_nonneg minus_div_mult_eq_mod)

section \<open>float64\<close>

datatype float64 = NaN | PInf | NInf | Fin rat

function bitlen :: "int \<Rightarrow> int" where
  "bitlen n = (if n \<le> 0 then 0 else bitlen (n div 2) + 1)"
  by pat_completeness auto
termination
  by (relation "measure nat") auto

declare bitlen.simps [simp del]

definition pow2 :: "int \<Rightarrow> rat" where
  "pow2 e = (if 0 \<le> e then 2 ^ nat e else 1 / 2 ^ nat (- e))"

text \<open>The exponent of the leading bit of a positive rational.\<close>

definition ilog2 :: "rat \<Rightarrow> int" where
  "ilog2 x = (let (p, q) = quotient_of x; e = bitlen p - bitlen q
    in if pow2 e \<le> x then e else e - 1)"

definition round_half_even :: "rat \<Rightarrow> int" where
  "round_half_even x = (let f = \<lfloor>x\<rfloor>; d = x - of_int f
    in if d < 1 / 2 then f else if 1 / 2 < d then f + 1 else if even f then f else f + 1)"

text \<open>The float64 nearest to a rational, with 53 bits and gradual underflow.\<close>

definition rnd :: "rat \<Rightarrow> float64" where
  "rnd x = (if x = 0 then Fin 0 else
     let u = pow2 (max (ilog2 \<bar>x\<bar> - 52) (- 1074)); r = of_int (round_half_even (x / u)) * u
     in if 2 ^ 1024 \<le> r then PInf else if r \<le> - (2 ^ 1024) then NInf else Fin r)"

fun f_neg :: "float64 \<Rightarrow> float64" where
  "f_neg NaN = NaN"
| "f_neg PInf = NInf"
| "f_neg NInf = PInf"
| "f_neg (Fin x) = Fin (- x)"

fun f_add :: "float64 \<Rightarrow> float64 \<Rightarrow> float64" where
  "f_add (Fin x) (Fin y) = rnd (x + y)"
| "f_add NaN _ = NaN"
| "f_add _ NaN = NaN"
| "f_add PInf NInf = NaN"
| "f_add NInf PInf = NaN"
| "f_add PInf _ = PInf"
| "f_add _ PInf = PInf"
| "f_add NInf _ = NInf"
| "f_add _ NInf = NInf"

definition f_sub :: "float64 \<Rightarrow> float64 \<Rightarrow> float64" where
  "f_sub x y = f_add x (f_neg y)"

text \<open>The sign of a product or quotient with an infinity; 0 stands for an undefined one.\<close>

fun f_sgn :: "float64 \<Rightarrow> int" where
  "f_sgn NaN = 0"
| "f_sgn PInf = 1"
| "f_sgn NInf = - 1"
| "f_sgn (Fin x) = (if x > 0 then 1 else if x < 0 then - 1 else 0)"

definition f_inf :: "int \<Rightarrow> float64" where
  "f_inf s = (if s > 0 then PInf else if s < 0 then NInf else NaN)"

fun f_mul :: "float64 \<Rightarrow> float64 \<Rightarrow> float64" where
  "f_mul (Fin x) (Fin y) = rnd (x * y)"
| "f_mul NaN _ = NaN"
| "f_mul _ NaN = NaN"
| "f_mul x y = f_inf (f_sgn x * f_sgn y)"

fun f_div :: "float64 \<Rightarrow> float64 \<Rightarrow> float64" where
  "f_div (Fin x) (Fin y) = (if y = 0 then f_inf (f_sgn (Fin x)) else rnd (x / y))"
| "f_div NaN _ = NaN"
| "f_div _ NaN = NaN"
| "f_div (Fin x) _ = Fin 0"
| "f_div x (Fin y) = f_inf (f_sgn x * (if y < 0 then - 1 else 1))"
| "f_div _ _ = NaN"

text \<open>Comparisons: every one with a NaN is false.\<close>

fun f_lt :: "float64 \<Rightarrow> float64 \<Rightarrow> bool" where
  "f_lt (Fin x) (Fin y) = (x < y)"
| "f_lt NaN _ = False"
| "f_lt _ NaN = False"
| "f_lt x y = (x \<noteq> y \<and> (x = NInf \<or> y = PInf))"

fun f_eq :: "float64 \<Rightarrow> float64 \<Rightarrow> bool" where
  "f_eq NaN _ = False"
| "f_eq x y = (x = y)"

definition f_le :: "float64 \<Rightarrow> float64 \<Rightarrow> bool" where
  "f_le x y \<longleftrightarrow> f_lt x y \<or> f_eq x y"

text \<open>Go's built-in \<open>max\<close> and \<open>min\<close> of two floats.\<close>

definition f_max :: "float64 \<Rightarrow> float64 \<Rightarrow> float64" where
  "f_max x y = (if x = NaN \<or> y = NaN then NaN else if f_lt x y then y else x)"

definition f_min :: "float64 \<Rightarrow> float64 \<Rightarrow> float64" where
  "f_min x y = (if x = NaN \<or> y = NaN then NaN else if f_lt y x then y else x)"

text \<open>The conversions \<open>float64(n)\<close> and \<open>int(x)\<close>. A float outside the range of int64 converts to
  the value amd64 gives.\<close>

definition f_of_int :: "int \<Rightarrow> float64" where
  "f_of_int n = rnd (of_int n)"

fun f_to_int :: "float64 \<Rightarrow> int" where
  "f_to_int (Fin x) = (let t = (if x < 0 then - \<lfloor>- x\<rfloor> else \<lfloor>x\<rfloor>) in if int64 t then t else - (2 ^ 63))"
| "f_to_int _ = - (2 ^ 63)"

subsection \<open>Rounding keeps signs and is exact on zero\<close>

lemma rnd_zero [simp]: "rnd 0 = Fin 0"
  by (simp add: rnd_def)

lemma pow2_pos [simp]: "0 < pow2 e"
  by (simp add: pow2_def)

lemma round_half_even_nonneg: "0 \<le> x \<Longrightarrow> 0 \<le> round_half_even x"
  by (auto simp: round_half_even_def Let_def)

lemma round_half_even_near: "\<bar>of_int (round_half_even x) - x\<bar> \<le> 1 / 2"
proof -
  define f where "f = \<lfloor>x\<rfloor>"
  have lo: "of_int f \<le> x" and hi: "x < of_int f + 1"
    using floor_correct [of x] by (simp_all add: f_def)
  show ?thesis
    unfolding round_half_even_def Let_def abs_le_iff f_def [symmetric] using lo hi by auto
qed

lemma round_half_even_of_int [simp]: "round_half_even (of_int n) = n"
  by (simp add: round_half_even_def)

lemma rnd_nonneg:
  assumes "0 \<le> x"
  shows "rnd x = PInf \<or> (\<exists>y. rnd x = Fin y \<and> 0 \<le> y)"
proof (cases "x = 0")
  case False
  define u where "u = pow2 (max (ilog2 \<bar>x\<bar> - 52) (- 1074))"
  define r where "r = of_int (round_half_even (x / u)) * u"
  have "0 < u" by (simp add: u_def)
  with assms have "0 \<le> round_half_even (x / u)"
    by (simp add: round_half_even_nonneg)
  with \<open>0 < u\<close> have "0 \<le> r" by (simp add: r_def)
  with False show ?thesis
    by (simp add: rnd_def Let_def u_def [symmetric] r_def [symmetric])
qed simp

lemma rnd_not_NaN [simp]: "rnd x \<noteq> NaN"
  by (simp add: rnd_def Let_def)

lemma f_lt_irrefl [simp]: "\<not> f_lt x x"
  by (cases x) auto

lemma f_lt_asym: "f_lt x y \<Longrightarrow> \<not> f_lt y x"
  by (cases x; cases y) auto

lemma f_lt_trans: "f_lt x y \<Longrightarrow> f_lt y z \<Longrightarrow> f_lt x z"
  by (cases x; cases y; cases z) auto

lemma f_lt_linear: "x \<noteq> NaN \<Longrightarrow> y \<noteq> NaN \<Longrightarrow> f_lt x y \<or> f_eq x y \<or> f_lt y x"
  by (cases x; cases y) auto

section \<open>Durations and times\<close>

type_synonym duration = int
type_synonym time = int

definition Second :: duration where
  "Second = 10 ^ 9"

definition Minute :: duration where
  "Minute = 60 * Second"

definition Hour :: duration where
  "Hour = 60 * Minute"

definition zero_time :: time where
  "zero_time = 0"

lemmas duration_consts [go_defs] = Second_def Minute_def Hour_def

text \<open>\<open>time.Duration(n) * time.Second\<close> is an int64 product.\<close>

definition dur_mul :: "int \<Rightarrow> duration \<Rightarrow> duration" where
  "dur_mul n d = wrap64 (n * d)"

text \<open>\<open>t.Sub(u)\<close> saturates at the ends of int64.\<close>

definition time_sub :: "time \<Rightarrow> time \<Rightarrow> duration" where
  "time_sub t u = (if t - u < - (2 ^ 63) then - (2 ^ 63) else if 2 ^ 63 \<le> t - u then 2 ^ 63 - 1 else t - u)"

definition time_after :: "time \<Rightarrow> time \<Rightarrow> bool" where
  "time_after t u \<longleftrightarrow> u < t"

text \<open>\<open>time.Unix(s, 0)\<close> and \<open>t.Unix()\<close>: seconds since 1970, which is 62135596800 seconds after the
  zero time.\<close>

definition unix_epoch :: int where
  "unix_epoch = 62135596800"

definition time_Unix :: "int \<Rightarrow> time" where
  "time_Unix s = wrap64 (s + unix_epoch) * Second"

definition time_toUnix :: "time \<Rightarrow> int" where
  "time_toUnix t = t div Second - unix_epoch"

definition dur_Seconds :: "duration \<Rightarrow> float64" where
  "dur_Seconds d = f_add (f_of_int (tquot d Second)) (f_div (f_of_int (trem d Second)) (Fin 1000000000))"

definition dur_Hours :: "duration \<Rightarrow> float64" where
  "dur_Hours d = f_add (f_of_int (tquot d Hour)) (f_div (f_of_int (trem d Hour)) (Fin 3600000000000))"

lemma time_sub_exact: "int64 (t - u) \<Longrightarrow> time_sub t u = t - u"
  by (simp add: time_sub_def int64_def)

lemma time_sub_mono: "t \<le> t' \<Longrightarrow> time_sub t u \<le> time_sub t' u"
  by (simp add: time_sub_def)

lemma time_sub_int64: "int64 (time_sub t u)"
  by (simp add: time_sub_def int64_def)

lemma time_sub_nonneg_iff: "0 \<le> time_sub t u \<longleftrightarrow> u \<le> t"
  by (simp add: time_sub_def)

lemma time_roundtrip:
  assumes "int64 (s + unix_epoch)"
  shows "time_toUnix (time_Unix s) = s"
  using assms by (simp add: time_toUnix_def time_Unix_def wrap64_id Second_def)

end
