(* ===== verification/GoStrings.thy ===== *)
theory GoStrings
  imports GoNumbers
begin

text \<open>
  The parts of Go's strings, strconv, fmt and time packages that SyMon uses, on strings as lists
  of bytes. White space is what \<open>unicode.IsSpace\<close> accepts, in its UTF-8 encodings.
\<close>

section \<open>Prefixes, suffixes, trimming\<close>

definition HasPrefix :: "string \<Rightarrow> string \<Rightarrow> bool" where
  "HasPrefix s p \<longleftrightarrow> take (length p) s = p"

definition HasSuffix :: "string \<Rightarrow> string \<Rightarrow> bool" where
  "HasSuffix s p \<longleftrightarrow> HasPrefix (rev s) (rev p)"

text \<open>\<open>strings.CutPrefix\<close> and \<open>strings.CutSuffix\<close>, with None for a false second result.\<close>

definition CutPrefix :: "string \<Rightarrow> string \<Rightarrow> string option" where
  "CutPrefix s p = (if HasPrefix s p then Some (drop (length p) s) else None)"

definition CutSuffix :: "string \<Rightarrow> string \<Rightarrow> string option" where
  "CutSuffix s p = (if HasSuffix s p then Some (take (length s - length p) s) else None)"

text \<open>\<open>strings.Index\<close>, with None for -1, and \<open>strings.Cut\<close>.\<close>

fun Index :: "string \<Rightarrow> string \<Rightarrow> nat option" where
  "Index [] p = (if p = [] then Some 0 else None)"
| "Index (c # s) p = (if HasPrefix (c # s) p then Some 0 else map_option Suc (Index s p))"

definition Cut :: "string \<Rightarrow> string \<Rightarrow> (string \<times> string) option" where
  "Cut s p = map_option (\<lambda>i. (take i s, drop (i + length p) s)) (Index s p)"

definition spaces :: "string list" where
  "spaces = [[CHR 0x09], [CHR 0x0A], [CHR 0x0B], [CHR 0x0C], [CHR 0x0D], [CHR 0x20],
     [CHR 0xC2, CHR 0x85], [CHR 0xC2, CHR 0xA0], [CHR 0xE1, CHR 0x9A, CHR 0x80],
     [CHR 0xE2, CHR 0x80, CHR 0x80], [CHR 0xE2, CHR 0x80, CHR 0x81], [CHR 0xE2, CHR 0x80, CHR 0x82],
     [CHR 0xE2, CHR 0x80, CHR 0x83], [CHR 0xE2, CHR 0x80, CHR 0x84], [CHR 0xE2, CHR 0x80, CHR 0x85],
     [CHR 0xE2, CHR 0x80, CHR 0x86], [CHR 0xE2, CHR 0x80, CHR 0x87], [CHR 0xE2, CHR 0x80, CHR 0x88],
     [CHR 0xE2, CHR 0x80, CHR 0x89], [CHR 0xE2, CHR 0x80, CHR 0x8A], [CHR 0xE2, CHR 0x80, CHR 0xA8],
     [CHR 0xE2, CHR 0x80, CHR 0xA9], [CHR 0xE2, CHR 0x80, CHR 0xAF], [CHR 0xE2, CHR 0x81, CHR 0x9F],
     [CHR 0xE3, CHR 0x80, CHR 0x80]]"

text \<open>Dropping white space at the front, given its encodings as a list.\<close>

function trim_front :: "string list \<Rightarrow> string \<Rightarrow> string" where
  "trim_front ws s = (case find (\<lambda>w. w \<noteq> [] \<and> HasPrefix s w) ws of
     None \<Rightarrow> s
   | Some w \<Rightarrow> trim_front ws (drop (length w) s))"
  by pat_completeness auto
termination
proof (relation "measure (\<lambda>(ws, s). length s)", simp)
  fix ws s w
  assume "find (\<lambda>w. w \<noteq> [] \<and> HasPrefix s w) ws = Some w"
  then have "w \<noteq> []" and "HasPrefix s w"
    by (auto dest: find_SomeD)
  then have "0 < length w" and "length w \<le> length s"
    by (simp, metis HasPrefix_def length_take min.cobounded1)
  then have "length s - length w < length s"
    by linarith
  then show "((ws, drop (length w) s), ws, s) \<in> measure (\<lambda>(ws, s). length s)"
    by simp
qed

declare trim_front.simps [simp del]

definition TrimSpace :: "string \<Rightarrow> string" where
  "TrimSpace s = rev (trim_front (map rev spaces) (rev (trim_front spaces s)))"

text \<open>\<open>strings.TrimSuffix\<close> and \<open>strings.TrimRight(s, "/")\<close>.\<close>

definition TrimSuffix :: "string \<Rightarrow> string \<Rightarrow> string" where
  "TrimSuffix s p = (case CutSuffix s p of None \<Rightarrow> s | Some r \<Rightarrow> r)"

definition TrimRight :: "string \<Rightarrow> char \<Rightarrow> string" where
  "TrimRight s c = rev (dropWhile (\<lambda>d. d = c) (rev s))"

section \<open>Case\<close>

definition ascii_lower :: "char \<Rightarrow> char" where
  "ascii_lower c = (if 65 \<le> (of_char c :: nat) \<and> (of_char c :: nat) \<le> 90 then char_of ((of_char c :: nat) + 32) else c)"

definition ascii_upper :: "char \<Rightarrow> char" where
  "ascii_upper c = (if 97 \<le> (of_char c :: nat) \<and> (of_char c :: nat) \<le> 122 then char_of ((of_char c :: nat) - 32) else c)"

definition ToLower :: "string \<Rightarrow> string" where
  "ToLower s = map ascii_lower s"

text \<open>
  Letters outside ASCII keep their bytes, except the two whose upper case is an ASCII letter: the
  long s and the dotless i. That is what decides whether an upper-cased text equals an ASCII word.
\<close>

fun ToUpper :: "string \<Rightarrow> string" where
  "ToUpper [] = []"
| "ToUpper [c] = [ascii_upper c]"
| "ToUpper (c # d # s) =
     (if c = CHR 0xC5 \<and> d = CHR 0xBF then CHR ''S'' # ToUpper s
      else if c = CHR 0xC4 \<and> d = CHR 0xB1 then CHR ''I'' # ToUpper s
      else ascii_upper c # ToUpper (d # s))"

section \<open>Numbers as text\<close>

definition digit :: "int \<Rightarrow> char" where
  "digit n = char_of (48 + n)"

text \<open>The decimal digits of a number that is not negative.\<close>

function decimal :: "int \<Rightarrow> string" where
  "decimal n = (if n < 10 then [digit n] else decimal (n div 10) @ [digit (n mod 10)])"
  by pat_completeness auto
termination
  by (relation "measure nat") auto

declare decimal.simps [simp del]

text \<open>\<open>strconv.Itoa\<close> and \<open>strconv.FormatInt(n, 10)\<close>.\<close>

definition Itoa :: "int \<Rightarrow> string" where
  "Itoa n = (if n < 0 then CHR ''-'' # decimal (- n) else decimal n)"

text \<open>
  \<open>strconv.ParseInt(s, 10, 64)\<close> and \<open>strconv.Atoi\<close>: the value and whether there was no error. The value of something that
  is no number is 0; one that is out of range comes back as the nearest int64.
\<close>

definition digit_value :: "char \<Rightarrow> int" where
  "digit_value c = of_char c - 48"

definition is_digit :: "char \<Rightarrow> bool" where
  "is_digit c \<longleftrightarrow> c \<in> set ''0123456789''"

definition digits_value :: "string \<Rightarrow> int" where
  "digits_value = foldl (\<lambda>n c. 10 * n + digit_value c) 0"

definition ParseInt :: "string \<Rightarrow> int \<times> bool" where
  "ParseInt s =
     (let (negative, ds) = (case s of [] \<Rightarrow> (False, [])
            | c # cs \<Rightarrow> if c = CHR ''-'' then (True, cs) else if c = CHR ''+'' then (False, cs) else (False, s))
      in if ds = [] \<or> \<not> list_all is_digit ds then (0, False)
         else let v = (if negative then - digits_value ds else digits_value ds) in
           if v < - (2 ^ 63) then (- (2 ^ 63), False) else if v \<ge> 2 ^ 63 then (2 ^ 63 - 1, False) else (v, True))"

text \<open>A number with leading zeros up to a width, as the time package prints it.\<close>

definition pad :: "nat \<Rightarrow> int \<Rightarrow> string" where
  "pad w n = replicate (w - length (decimal n)) CHR ''0'' @ decimal n"

text \<open>\<open>fmt.Sprintf("%.<k>f", x)\<close>: the exact value, rounded half to even at the last digit.\<close>

fun show_fixed :: "nat \<Rightarrow> float64 \<Rightarrow> string" where
  "show_fixed k NaN = ''NaN''"
| "show_fixed k PInf = ''+Inf''"
| "show_fixed k NInf = ''-Inf''"
| "show_fixed k (Fin x) =
     (let n = round_half_even (\<bar>x\<bar> * 10 ^ k)
      in (if x < 0 then ''-'' else '''') @ decimal (n div 10 ^ k) @
         (if k = 0 then '''' else ''.'' @ pad k (n mod 10 ^ k)))"

text \<open>\<open>strings.Join\<close>.\<close>

fun Join :: "string list \<Rightarrow> string \<Rightarrow> string" where
  "Join [] sep = []"
| "Join [s] sep = s"
| "Join (s # t # ss) sep = s @ sep @ Join (t # ss) sep"

text \<open>\<open>strings.NewReplacer\<close>: at each place of the text the first pair whose old text starts
  there replaces it, and the search goes on behind it. The old texts are not empty.\<close>

function Replace :: "(string \<times> string) list \<Rightarrow> string \<Rightarrow> string" where
  "Replace ps [] = []"
| "Replace ps (c # s) =
     (case find (\<lambda>p. fst p \<noteq> [] \<and> HasPrefix (c # s) (fst p)) ps of
        Some p \<Rightarrow> snd p @ Replace ps (drop (length (fst p)) (c # s))
      | None \<Rightarrow> c # Replace ps s)"
  by pat_completeness auto
termination
proof (relation "measure (\<lambda>(ps, s). length s)", simp, simp)
  fix ps :: "(string \<times> string) list" and c s p
  assume "find (\<lambda>p. fst p \<noteq> [] \<and> HasPrefix (c # s) (fst p)) ps = Some p"
  then have "fst p \<noteq> []"
    by (auto dest: find_SomeD)
  then show "((ps, drop (length (fst p)) (c # s)), ps, c # s) \<in> measure (\<lambda>(ps, s). length s)"
    by (cases "fst p") auto
qed

section \<open>Dates\<close>

text \<open>Year, month and day of a number of days since 1 January of year 1.\<close>

definition civil :: "int \<Rightarrow> int \<times> int \<times> int" where
  "civil days =
     (let z = days + 306; era = z div 146097; doe = z mod 146097;
          yoe = (doe - doe div 1460 + doe div 36524 - doe div 146096) div 365;
          doy = doe - (365 * yoe + yoe div 4 - yoe div 100);
          mp = (5 * doy + 2) div 153;
          d = doy - (153 * mp + 2) div 5 + 1;
          m = (if mp < 10 then mp + 3 else mp - 9);
          y = yoe + era * 400 + (if m \<le> 2 then 1 else 0)
      in (y, m, d))"

definition months :: "string list" where
  "months = [''Jan'', ''Feb'', ''Mar'', ''Apr'', ''May'', ''Jun'', ''Jul'', ''Aug'', ''Sep'', ''Oct'', ''Nov'', ''Dec'']"

definition weekdays :: "string list" where
  "weekdays = [''Mon'', ''Tue'', ''Wed'', ''Thu'', ''Fri'', ''Sat'', ''Sun'']"

definition show_year :: "int \<Rightarrow> string" where
  "show_year y = (if y < 0 then ''-'' @ pad 4 (- y) else pad 4 y)"

definition show_clock :: "time \<Rightarrow> string" where
  "show_clock t = (let s = (t div Second) mod 86400
     in pad 2 (s div 3600) @ '':'' @ pad 2 (s div 60 mod 60) @ '':'' @ pad 2 (s mod 60))"

text \<open>\<open>t.UTC().Format(time.RFC1123)\<close>.\<close>

definition fmt_RFC1123 :: "time \<Rightarrow> string" where
  "fmt_RFC1123 t =
     (let days = t div (86400 * Second); (y, m, d) = civil days
      in weekdays ! nat (days mod 7) @ '', '' @ pad 2 d @ '' '' @ months ! nat (m - 1) @ '' '' @
         show_year y @ '' '' @ show_clock t @ '' UTC'')"

text \<open>\<open>t.UTC().String()\<close>: the fraction of the second has no trailing zeros.\<close>

definition show_fraction :: "time \<Rightarrow> string" where
  "show_fraction t = (let n = t mod Second
     in if n = 0 then '''' else ''.'' @ rev (dropWhile (\<lambda>c. c = CHR ''0'') (rev (pad 9 n))))"

definition fmt_String :: "time \<Rightarrow> string" where
  "fmt_String t =
     (let (y, m, d) = civil (t div (86400 * Second))
      in show_year y @ ''-'' @ pad 2 m @ ''-'' @ pad 2 d @ '' '' @ show_clock t @ show_fraction t @ '' +0000 UTC'')"

text \<open>\<open>t.UTC().Format("Jan 2 2006 15:04 MST")\<close>.\<close>

definition fmt_minute :: "time \<Rightarrow> string" where
  "fmt_minute t =
     (let (y, m, d) = civil (t div (86400 * Second))
      in months ! nat (m - 1) @ '' '' @ decimal d @ '' '' @ show_year y @ '' '' @ take 5 (show_clock t) @ '' UTC'')"

section \<open>Facts\<close>

lemma HasPrefix_iff: "HasPrefix s p \<longleftrightarrow> (\<exists>r. s = p @ r)"
proof
  assume "HasPrefix s p"
  then have "s = p @ drop (length p) s"
    by (metis HasPrefix_def append_take_drop_id)
  then show "\<exists>r. s = p @ r" ..
qed (auto simp: HasPrefix_def)

lemma CutPrefix_Some: "CutPrefix s p = Some r \<longleftrightarrow> s = p @ r"
  by (auto simp: CutPrefix_def HasPrefix_iff)

lemma HasSuffix_iff: "HasSuffix s p \<longleftrightarrow> (\<exists>r. s = r @ p)"
proof -
  have "(\<exists>r. rev s = rev p @ r) \<longleftrightarrow> (\<exists>r. s = r @ p)"
    by (metis rev_append rev_rev_ident)
  then show ?thesis by (simp add: HasSuffix_def HasPrefix_iff)
qed

lemma CutSuffix_Some: "CutSuffix s p = Some r \<longleftrightarrow> s = r @ p"
  by (auto simp: CutSuffix_def HasSuffix_iff)

lemma Index_Some:
  assumes "Index s p = Some i"
  shows "HasPrefix (drop i s) p" and "i + length p \<le> length s"
proof -
  have "HasPrefix (drop i s) p \<and> i + length p \<le> length s"
    using assms
  proof (induction s p arbitrary: i rule: Index.induct)
    case (2 c s p)
    then show ?case
      by (auto split: if_splits simp: HasPrefix_iff) (metis length_Cons length_append le_add1)
  qed (auto split: if_splits simp: HasPrefix_def)
  then show "HasPrefix (drop i s) p" and "i + length p \<le> length s" by auto
qed

lemma Index_None: "Index s [c] = None \<longleftrightarrow> c \<notin> set s"
  by (induction s) (auto simp: HasPrefix_def)

lemma trim_front_suffix: "\<exists>r. s = r @ trim_front ws s"
proof (induction ws s rule: trim_front.induct)
  case (1 ws s)
  show ?case
  proof (cases "find (\<lambda>w. w \<noteq> [] \<and> HasPrefix s w) ws")
    case None
    then show ?thesis by (simp add: trim_front.simps [of ws s])
  next
    case (Some w)
    then obtain r where "drop (length w) s = r @ trim_front ws (drop (length w) s)"
      using "1" by blast
    moreover have "trim_front ws s = trim_front ws (drop (length w) s)"
      using Some by (simp add: trim_front.simps [of ws s])
    ultimately have "s = (take (length w) s @ r) @ trim_front ws s"
      by (metis append_assoc append_take_drop_id)
    then show ?thesis ..
  qed
qed

lemma trim_front_stops: "find (\<lambda>w. w \<noteq> [] \<and> HasPrefix (trim_front ws s) w) ws = None"
proof (induction ws s rule: trim_front.induct)
  case (1 ws s)
  show ?case
  proof (cases "find (\<lambda>w. w \<noteq> [] \<and> HasPrefix s w) ws")
    case None
    then show ?thesis by (simp add: trim_front.simps [of ws s])
  next
    case (Some w)
    then show ?thesis using "1" by (simp add: trim_front.simps [of ws s])
  qed
qed

lemma trim_front_id: "find (\<lambda>w. w \<noteq> [] \<and> HasPrefix s w) ws = None \<Longrightarrow> trim_front ws s = s"
  by (simp add: trim_front.simps [of ws s])

lemma trim_front_length: "length (trim_front ws s) \<le> length s"
  using trim_front_suffix [of s ws] by (metis le_add2 length_append)

lemma decimal_not_Nil [simp]: "decimal n \<noteq> []"
  by (subst decimal.simps) simp

text \<open>The class \<open>[A-Za-z0-9]\<close> of a regular expression.\<close>

definition letter_digit :: "char \<Rightarrow> bool" where
  "letter_digit c \<longleftrightarrow> c \<in> set ''ABCDEFGHIJKLMNOPQRSTUVWXYZabcdefghijklmnopqrstuvwxyz0123456789''"

end
