(* ===== verification/Alerts.thy ===== *)
theory Alerts
  imports GoStrings
begin

text \<open>
  Alert rules: internal/alerts/alert.go and rules.go, with the metric names of
  internal/monitor/monitor.go and the severities of internal/alertstatus/status.go. A rule is the
  record \<open>AlertConfig\<close>. \<open>Validate\<close> and the checks it calls trim fields of the rule as they go, so
  they are operations on the rule as state. \<open>net/url.Parse\<close> is a parameter that returns the scheme
  and the host of a URL, or None for an error.
\<close>

section \<open>Metric names and severities\<close>

definition MEMORY :: string where "MEMORY = ''memory''"
definition SWAP :: string where "SWAP = ''swap''"
definition PROC_USAGE :: string where "PROC_USAGE = ''procUsage''"
definition DISKS :: string where "DISKS = ''disks''"
definition SERVICES :: string where "SERVICES = ''services''"
definition PING :: string where "PING = ''ping''"
definition DISK_FORECAST :: string where "DISK_FORECAST = ''disk_forecast''"
definition ENDPOINT :: string where "ENDPOINT = ''endpoint''"
definition CERTIFICATE :: string where "CERTIFICATE = ''certificate''"
definition KUBE_NODE :: string where "KUBE_NODE = ''kube_node''"
definition KUBE_WORKLOAD :: string where "KUBE_WORKLOAD = ''kube_workload''"
definition KUBE_PENDING :: string where "KUBE_PENDING = ''kube_pending''"
definition KUBE_RESTARTS :: string where "KUBE_RESTARTS = ''kube_restarts''"

lemmas metric_names = MEMORY_def SWAP_def PROC_USAGE_def DISKS_def SERVICES_def PING_def
  DISK_FORECAST_def ENDPOINT_def CERTIFICATE_def KUBE_NODE_def KUBE_WORKLOAD_def KUBE_PENDING_def
  KUBE_RESTARTS_def

text \<open>The names are different and not empty, so proofs need not look at their letters.\<close>

lemma metric_distinct:
  "distinct [[], MEMORY, SWAP, PROC_USAGE, DISKS, SERVICES, PING, DISK_FORECAST, ENDPOINT, CERTIFICATE,
     KUBE_NODE, KUBE_WORKLOAD, KUBE_PENDING, KUBE_RESTARTS]"
  by (simp add: metric_names)

lemma metric_distinct_rev:
  "distinct [KUBE_RESTARTS, KUBE_PENDING, KUBE_WORKLOAD, KUBE_NODE, CERTIFICATE, ENDPOINT, DISK_FORECAST, PING,
     SERVICES, DISKS, PROC_USAGE, SWAP, MEMORY, []]"
  by (simp add: metric_names)

lemmas metric_neq [simp] = metric_distinct [simplified] metric_distinct_rev [simplified]

definition IsKube :: "string \<Rightarrow> bool" where
  "IsKube metric \<longleftrightarrow> metric \<in> set [KUBE_NODE, KUBE_WORKLOAD, KUBE_PENDING, KUBE_RESTARTS]"

datatype StatusType = Normal | Warning | Critical

fun status_int :: "StatusType \<Rightarrow> int" where
  "status_int Normal = 0"
| "status_int Warning = 1"
| "status_int Critical = 2"

lemma status_int_inj [simp]: "status_int a = status_int b \<longleftrightarrow> a = b"
  by (cases a; cases b) auto

section \<open>Rules\<close>

record AlertConfig =
  rule_Name :: string
  rule_Description :: string
  rule_MetricName :: string
  rule_IsCustom :: bool
  rule_Op :: string
  rule_Template :: string
  rule_WarnThreshold :: int
  rule_CriticalThreshold :: int
  rule_TriggerIntveral :: int
  rule_Servers :: "string list"
  rule_Endpoint :: string
  rule_ExpectedHTTPCode :: int
  rule_Method :: string
  rule_CustomCACert :: string
  rule_POSTContentType :: string
  rule_POSTBody :: string
  rule_Disk :: string
  rule_Service :: string
  rule_Cluster :: string
  rule_Namespace :: string
  rule_Channels :: "string list"
  rule_Email :: bool
  rule_Pagerduty :: bool
  rule_Slack :: bool
  rule_SlackChannel :: string
  rule_CertWarnDays :: "int option"
  rule_CertCriticalDays :: "int option"

text \<open>A rule literal with nothing set has Go's zero values.\<close>

definition zero_rule :: AlertConfig where
  "zero_rule = \<lparr>rule_Name = [], rule_Description = [], rule_MetricName = [], rule_IsCustom = False,
     rule_Op = [], rule_Template = [], rule_WarnThreshold = 0, rule_CriticalThreshold = 0,
     rule_TriggerIntveral = 0, rule_Servers = [], rule_Endpoint = [], rule_ExpectedHTTPCode = 0,
     rule_Method = [], rule_CustomCACert = [], rule_POSTContentType = [], rule_POSTBody = [],
     rule_Disk = [], rule_Service = [], rule_Cluster = [], rule_Namespace = [], rule_Channels = [],
     rule_Email = False, rule_Pagerduty = False, rule_Slack = False, rule_SlackChannel = [],
     rule_CertWarnDays = None, rule_CertCriticalDays = None\<rparr>"

definition AllHosts :: string where
  "AllHosts = ''*''"

definition defaultCertWarnDays :: int where
  "defaultCertWarnDays = 14"

definition defaultCertCriticalDays :: int where
  "defaultCertCriticalDays = 3"

definition CertDays :: "AlertConfig \<Rightarrow> int \<times> int" where
  "CertDays rule =
     (if rule_MetricName rule \<noteq> ENDPOINT \<or> \<not> HasPrefix (ToLower (rule_Endpoint rule)) ''https://''
      then (0, 0)
      else (case rule_CertWarnDays rule of None \<Rightarrow> defaultCertWarnDays | Some d \<Rightarrow> d,
            case rule_CertCriticalDays rule of None \<Rightarrow> defaultCertCriticalDays | Some d \<Rightarrow> d))"

section \<open>Validation\<close>

type_synonym rule_check = "(unit, AlertConfig) act"
type_synonym url_parse = "string \<Rightarrow> (string \<times> string) option"

definition thresholdOps :: "string list" where
  "thresholdOps = [''>'', ''<'', ''>='', ''<='', ''=='', ''!='']"

definition err_text :: "string \<Rightarrow> error" where
  "err_text t = ErrText t []"

text \<open>The channel names are trimmed in place, one after the other, up to the first mistake.\<close>

fun check_channel_names :: "string set \<Rightarrow> string list \<Rightarrow> unit result \<times> string list" where
  "check_channel_names seen [] = (Inr (), [])"
| "check_channel_names seen (name # rest) =
     (let name' = TrimSpace name in
      if name' = [] then (Inl (err_text ''a channel name in Channels is empty''), name' # rest)
      else if name' \<in> seen then (Inl (ErrText ''the channel %q is in Channels twice'' [name']), name' # rest)
      else let (e, rest') = check_channel_names (insert name' seen) rest in (e, name' # rest'))"

definition checkChannels :: rule_check where
  "checkChannels rule =
     (let (e, names) = check_channel_names {} (rule_Channels rule)
      in (e, rule\<lparr>rule_Channels := names\<rparr>))"

definition checkServers :: rule_check where
  \<open>checkServers rule =
     (if rule_Servers rule = [] then (Inl (ErrText ''a rule needs Servers, host names or "%s" for all hosts'' [AllHosts]), rule)
      else if \<exists>server \<in> set (rule_Servers rule). TrimSpace server = []
        then (Inl (err_text ''a host name in Servers is empty''), rule)
      else (Inr (), rule))\<close>

definition checkCluster :: rule_check where
  "checkCluster rule =
     (let rule' = rule\<lparr>rule_Cluster := TrimSpace (rule_Cluster rule), rule_Namespace := TrimSpace (rule_Namespace rule)\<rparr>
      in if rule_Cluster rule' = []
         then (Inl (err_text ''a kubernetes rule needs Cluster, the name its agent reports the cluster as''), rule')
         else (Inr (), rule'))"

definition checkOp :: rule_check where
  "checkOp rule =
     (if rule_Op rule \<notin> set thresholdOps then (Inl (ErrText ''unknown Op %q, it can be >, <, >=, <=, == or !='' [rule_Op rule]), rule)
      else (Inr (), rule))"

definition negative_days :: "int option \<Rightarrow> bool" where
  "negative_days days = (case days of None \<Rightarrow> False | Some d \<Rightarrow> d < 0)"

definition checkEndpoint :: "url_parse \<Rightarrow> rule_check" where
  "checkEndpoint parse rule =
     (if (case parse (rule_Endpoint rule) of None \<Rightarrow> True
          | Some (scheme, host) \<Rightarrow> (scheme \<noteq> ''http'' \<and> scheme \<noteq> ''https'') \<or> host = [])
        then (Inl (err_text ''an endpoint rule needs Endpoint, an http:// or https:// URL''), rule)
      else if ToUpper (TrimSpace (rule_Method rule)) \<notin> set [[], ''GET'', ''HEAD'', ''POST'']
        then (Inl (ErrText ''unknown Method %q, it can be GET, HEAD or POST'' [rule_Method rule]), rule)
      else if rule_ExpectedHTTPCode rule \<noteq> 0 \<and> (rule_ExpectedHTTPCode rule < 100 \<or> 599 < rule_ExpectedHTTPCode rule)
        then (Inl (err_text ''ExpectedHTTPCode has to be an HTTP status code, like 200''), rule)
      else if negative_days (rule_CertWarnDays rule) \<or> negative_days (rule_CertCriticalDays rule)
        then (Inl (err_text ''CertWarnDays and CertCriticalDays cannot be negative, 0 switches them off''), rule)
      else let (warn, critical) = CertDays rule in
        if warn > 0 \<and> critical > warn then (Inl (err_text ''CertCriticalDays has to be at most CertWarnDays''), rule)
        else (Inr (), rule))"

text \<open>\<open>firstError\<close> gets its arguments evaluated, so both checks run before it picks.\<close>

fun firstError :: "unit result list \<Rightarrow> unit result" where
  "firstError [] = Inr ()"
| "firstError (Inl e # errs) = Inl e"
| "firstError (Inr _ # errs) = firstError errs"

definition both_checks :: "rule_check \<Rightarrow> rule_check \<Rightarrow> rule_check" where
  "both_checks c1 c2 rule =
     (let (e1, rule1) = c1 rule; (e2, rule2) = c2 rule1 in (firstError [e1, e2], rule2))"

definition validate_metric :: "url_parse \<Rightarrow> rule_check" where
  \<open>validate_metric parse rule =
     (let m = rule_MetricName rule in
      if m \<in> set [PROC_USAGE, MEMORY, SWAP] then both_checks checkServers checkOp rule
      else if m \<in> set [DISKS, DISK_FORECAST] then
        (if TrimSpace (rule_Disk rule) = [] then (Inl (err_text ''a disk rule needs Disk, the device like /dev/sda1''), rule)
         else both_checks checkServers checkOp rule)
      else if m = SERVICES then
        (if TrimSpace (rule_Service rule) = [] then (Inl (err_text ''a service rule needs Service, a name from the agent's service list''), rule)
         else if rule_Op rule \<noteq> ''active'' \<and> rule_Op rule \<noteq> ''inactive''
           then (Inl (err_text ''a service rule needs Op "inactive" (alert when it stops) or "active" (alert when it runs)''), rule)
         else checkServers rule)
      else if m = PING then checkServers rule
      else if m = ENDPOINT then checkEndpoint parse rule
      else if m \<in> set [KUBE_NODE, KUBE_WORKLOAD, KUBE_PENDING] then checkCluster rule
      else if m = KUBE_RESTARTS then both_checks checkCluster checkOp rule
      else if m = [] then (Inl (err_text ''a rule needs MetricName''), rule)
      else (Inl (ErrText ''unknown MetricName %q, it can be procUsage, memory, swap, disks, disk_forecast, services, ping, endpoint, kube_node, kube_workload, kube_pending, kube_restarts, or a custom metric's name with IsCustom'' [m]), rule))\<close>

text \<open>The checks behind the channel names, for custom metrics and for the others.\<close>

definition validate_rest :: "url_parse \<Rightarrow> rule_check" where
  "validate_rest parse rule =
     (if rule_IsCustom rule then
        (if TrimSpace (rule_MetricName rule) = []
         then (Inl (err_text ''a custom metric rule needs MetricName, the custom metric's name''), rule)
         else both_checks checkServers checkOp rule)
      else validate_metric parse rule)"

definition Validate :: "url_parse \<Rightarrow> rule_check" where
  "Validate parse rule0 =
     (let rule = rule0\<lparr>rule_Name := TrimSpace (rule_Name rule0)\<rparr> in
      if rule_Name rule = [] then (Inl (err_text ''a rule needs a Name''), rule)
      else if length (rule_Name rule) > 100 then (Inl (err_text ''a Name can be at most 100 characters''), rule)
      else if rule_TriggerIntveral rule < 0 then (Inl (err_text ''TriggerIntveral cannot be negative''), rule)
      else bindE checkChannels (\<lambda>_. validate_rest parse) rule)"

text \<open>
  The loop of \<open>ParseRules\<close> that validates every rule and refuses a name that came before. Rules are
  numbered from 1 in the errors.
\<close>

fun parse_rules_from :: "url_parse \<Rightarrow> nat \<Rightarrow> string set \<Rightarrow> AlertConfig list \<Rightarrow> AlertConfig list result" where
  "parse_rules_from parse i names [] = Inr []"
| "parse_rules_from parse i names (rule # rules) =
     (case Validate parse rule of
        (Inl e, rule') \<Rightarrow> Inl (ErrWrap ''rule %d %q: %w'' [Itoa (int i + 1), rule_Name rule'] e)
      | (Inr _, rule') \<Rightarrow>
          if rule_Name rule' \<in> names
          then Inl (ErrText ''rule %d: there is already a rule named %q'' [Itoa (int i + 1), rule_Name rule'])
          else (case parse_rules_from parse (Suc i) (insert (rule_Name rule') names) rules of
                  Inl e \<Rightarrow> Inl e
                | Inr rest \<Rightarrow> Inr (rule' # rest)))"

text \<open>\<open>strictjson.Unmarshal\<close> into a list of rules and \<open>os.ReadFile\<close> are the parameters \<open>decode\<close> and
  \<open>read_file\<close>.\<close>

definition ParseRules :: "url_parse \<Rightarrow> (string \<Rightarrow> AlertConfig list result) \<Rightarrow> string \<Rightarrow> AlertConfig list result" where
  "ParseRules parse decode data =
     (case decode data of Inl e \<Rightarrow> Inl e | Inr rules \<Rightarrow> parse_rules_from parse 0 {} rules)"

definition LoadRules ::
  "url_parse \<Rightarrow> (string \<Rightarrow> AlertConfig list result) \<Rightarrow> (string \<Rightarrow> string result) \<Rightarrow> string \<Rightarrow> AlertConfig list result" where
  "LoadRules parse decode read_file path =
     (case read_file path of Inl e \<Rightarrow> Inl e
      | Inr data \<Rightarrow> (case ParseRules parse decode data of
            Inl e \<Rightarrow> Inl (ErrWrap ''%s: %w'' [path] e) | Inr rules \<Rightarrow> Inr rules))"

section \<open>What a valid rule is\<close>

text \<open>
  The contract of \<open>Validate\<close>, stated without its order of checks: the names are trimmed and not
  empty, and each metric has what it needs.
\<close>

definition trimmed :: "string \<Rightarrow> bool" where
  "trimmed s \<longleftrightarrow> TrimSpace s = s"

definition valid_servers :: "AlertConfig \<Rightarrow> bool" where
  "valid_servers r \<longleftrightarrow> rule_Servers r \<noteq> [] \<and> (\<forall>s \<in> set (rule_Servers r). TrimSpace s \<noteq> [])"

definition valid_op :: "AlertConfig \<Rightarrow> bool" where
  "valid_op r \<longleftrightarrow> rule_Op r \<in> set thresholdOps"

definition valid_cluster :: "AlertConfig \<Rightarrow> bool" where
  "valid_cluster r \<longleftrightarrow> rule_Cluster r \<noteq> [] \<and> trimmed (rule_Cluster r) \<and> trimmed (rule_Namespace r)"

definition valid_endpoint :: "url_parse \<Rightarrow> AlertConfig \<Rightarrow> bool" where
  "valid_endpoint parse r \<longleftrightarrow>
     (\<exists>scheme host. parse (rule_Endpoint r) = Some (scheme, host) \<and> scheme \<in> {''http'', ''https''} \<and> host \<noteq> []) \<and>
     ToUpper (TrimSpace (rule_Method r)) \<in> {[], ''GET'', ''HEAD'', ''POST''} \<and>
     (rule_ExpectedHTTPCode r = 0 \<or> 100 \<le> rule_ExpectedHTTPCode r \<and> rule_ExpectedHTTPCode r \<le> 599) \<and>
     (\<forall>d. rule_CertWarnDays r = Some d \<longrightarrow> 0 \<le> d) \<and> (\<forall>d. rule_CertCriticalDays r = Some d \<longrightarrow> 0 \<le> d) \<and>
     (fst (CertDays r) = 0 \<or> snd (CertDays r) \<le> fst (CertDays r))"

definition valid_metric :: "url_parse \<Rightarrow> AlertConfig \<Rightarrow> bool" where
  "valid_metric parse r \<longleftrightarrow>
     (if rule_IsCustom r then TrimSpace (rule_MetricName r) \<noteq> [] \<and> valid_servers r \<and> valid_op r
      else rule_MetricName r \<in> {PROC_USAGE, MEMORY, SWAP} \<and> valid_servers r \<and> valid_op r
         \<or> rule_MetricName r \<in> {DISKS, DISK_FORECAST} \<and> TrimSpace (rule_Disk r) \<noteq> [] \<and> valid_servers r \<and> valid_op r
         \<or> rule_MetricName r = SERVICES \<and> TrimSpace (rule_Service r) \<noteq> [] \<and> rule_Op r \<in> {''active'', ''inactive''} \<and> valid_servers r
         \<or> rule_MetricName r = PING \<and> valid_servers r
         \<or> rule_MetricName r = ENDPOINT \<and> valid_endpoint parse r
         \<or> rule_MetricName r \<in> {KUBE_NODE, KUBE_WORKLOAD, KUBE_PENDING} \<and> valid_cluster r
         \<or> rule_MetricName r = KUBE_RESTARTS \<and> valid_cluster r \<and> valid_op r)"

definition valid_rule :: "url_parse \<Rightarrow> AlertConfig \<Rightarrow> bool" where
  "valid_rule parse r \<longleftrightarrow>
     rule_Name r \<noteq> [] \<and> trimmed (rule_Name r) \<and> length (rule_Name r) \<le> 100 \<and> 0 \<le> rule_TriggerIntveral r \<and>
     (\<forall>c \<in> set (rule_Channels r). c \<noteq> [] \<and> trimmed c) \<and> distinct (rule_Channels r) \<and> valid_metric parse r"

section \<open>Validation meets its contract\<close>

lemma TrimSpace_idem [simp]: "TrimSpace (TrimSpace s) = TrimSpace s"
proof -
  define t where "t = trim_front spaces s"
  define v where "v = trim_front (map rev spaces) (rev t)"
  have u: "TrimSpace s = rev v" by (simp add: TrimSpace_def t_def v_def)
  obtain r where "rev t = r @ v"
    using trim_front_suffix [of "rev t" "map rev spaces"] by (auto simp: v_def)
  then have t: "t = rev v @ rev r"
    by (metis rev_append rev_rev_ident)
  have "find (\<lambda>w. w \<noteq> [] \<and> HasPrefix (rev v) w) spaces = None"
    using trim_front_stops [of spaces s] by (auto simp: t_def [symmetric] t find_None_iff HasPrefix_iff)
  then have "trim_front spaces (rev v) = rev v"
    by (rule trim_front_id)
  moreover have "trim_front (map rev spaces) v = v"
    using trim_front_stops [of "map rev spaces" "rev t"] by (intro trim_front_id) (simp add: v_def)
  ultimately have "TrimSpace (rev v) = rev v"
    by (simp add: TrimSpace_def)
  then show ?thesis
    by (simp only: u)
qed

lemma trimmed_TrimSpace [simp]: "trimmed (TrimSpace s)"
  by (simp add: trimmed_def)

lemma TrimSpace_Nil [simp]: "TrimSpace [] = []"
proof -
  have "trim_front ws [] = []" for ws
    by (rule trim_front_id) (simp add: find_None_iff HasPrefix_def)
  then show ?thesis by (simp add: TrimSpace_def)
qed

lemma check_channel_names_ok:
  "check_channel_names seen cs = (Inr (), cs') \<Longrightarrow>
     distinct cs' \<and> (\<forall>c \<in> set cs'. c \<noteq> [] \<and> trimmed c \<and> c \<notin> seen)"
proof (induction cs arbitrary: seen cs')
  case (Cons c cs)
  let ?c = "TrimSpace c"
  obtain e rest where rest: "check_channel_names (insert ?c seen) cs = (e, rest)" by fastforce
  have ok: "?c \<noteq> []" "?c \<notin> seen" "e = Inr ()" "cs' = ?c # rest"
    using Cons.prems rest by (simp_all add: Let_def split: if_splits)
  have "distinct rest \<and> (\<forall>d \<in> set rest. d \<noteq> [] \<and> trimmed d \<and> d \<notin> insert ?c seen)"
    using rest ok(3) by (intro Cons.IH) simp
  with ok show ?case by auto
qed simp

lemma check_channel_names_complete:
  "distinct cs \<Longrightarrow> \<forall>c \<in> set cs. c \<noteq> [] \<and> trimmed c \<and> c \<notin> seen \<Longrightarrow>
     check_channel_names seen cs = (Inr (), cs)"
proof (induction cs arbitrary: seen)
  case (Cons c cs)
  then have "check_channel_names (insert c seen) cs = (Inr (), cs)"
    by (intro Cons.IH) auto
  with Cons.prems show ?case by (simp add: trimmed_def)
qed simp

lemma both_checks_Inr:
  "both_checks c1 c2 r = (Inr (), r') \<longleftrightarrow> (\<exists>r1. c1 r = (Inr (), r1) \<and> c2 r1 = (Inr (), r'))"
proof (cases "c1 r")
  case (Pair e1 r1)
  then show ?thesis
    by (cases e1; cases "fst (c2 r1)") (auto simp: both_checks_def split: prod.splits)
qed

lemma negative_days_iff: "negative_days o' \<longleftrightarrow> \<not> (\<forall>d. o' = Some d \<longrightarrow> 0 \<le> d)"
  by (auto simp: negative_days_def split: option.splits)

lemma CertDays_nonneg:
  "\<not> negative_days (rule_CertWarnDays r) \<Longrightarrow> \<not> negative_days (rule_CertCriticalDays r) \<Longrightarrow>
     0 \<le> fst (CertDays r) \<and> 0 \<le> snd (CertDays r)"
  by (auto simp: CertDays_def negative_days_def defaultCertWarnDays_def defaultCertCriticalDays_def split: option.splits)

lemma checkServers_Inr: "checkServers r = (Inr (), r') \<longleftrightarrow> r' = r \<and> valid_servers r"
  by (auto simp: checkServers_def valid_servers_def)

lemma checkOp_Inr: "checkOp r = (Inr (), r') \<longleftrightarrow> r' = r \<and> valid_op r"
  by (auto simp: checkOp_def valid_op_def)

lemma checkEndpoint_Inr: "checkEndpoint parse r = (Inr (), r') \<longleftrightarrow> r' = r \<and> valid_endpoint parse r"
proof (cases "parse (rule_Endpoint r)")
  case None
  then show ?thesis by (simp add: checkEndpoint_def valid_endpoint_def)
next
  case (Some sh)
  obtain scheme host where sh: "sh = (scheme, host)" by (cases sh)
  obtain warn critical where cd: "CertDays r = (warn, critical)" by (cases "CertDays r")
  define web where "web \<longleftrightarrow> (scheme = ''http'' \<or> scheme = ''https'') \<and> host \<noteq> []"
  define verb where "verb \<longleftrightarrow> ToUpper (TrimSpace (rule_Method r)) \<in> set [[], ''GET'', ''HEAD'', ''POST'']"
  define neg where "neg \<longleftrightarrow> negative_days (rule_CertWarnDays r) \<or> negative_days (rule_CertCriticalDays r)"
  have days: "neg \<or> (\<not> (0 < warn \<and> warn < critical)) = (warn = 0 \<or> critical \<le> warn)"
    using CertDays_nonneg [of r] by (auto simp: cd neg_def)
  have spec: "valid_endpoint parse r \<longleftrightarrow> web \<and> verb \<and>
      (rule_ExpectedHTTPCode r = 0 \<or> 100 \<le> rule_ExpectedHTTPCode r \<and> rule_ExpectedHTTPCode r \<le> 599) \<and>
      \<not> neg \<and> (warn = 0 \<or> critical \<le> warn)"
    by (simp add: valid_endpoint_def Some sh cd web_def verb_def neg_def negative_days_iff)
  have web': "((scheme \<noteq> ''http'' \<and> scheme \<noteq> ''https'') \<or> host = []) = (\<not> web)"
    by (simp add: web_def)
  show ?thesis
    unfolding checkEndpoint_def Some sh cd option.case prod.case web' verb_def [symmetric] neg_def [symmetric] Let_def spec
    using days by auto
qed

lemma checkCluster_Inr:
  "checkCluster r = (Inr (), r') \<longleftrightarrow>
     r' = r\<lparr>rule_Cluster := TrimSpace (rule_Cluster r), rule_Namespace := TrimSpace (rule_Namespace r)\<rparr> \<and> valid_cluster r'"
  by (auto simp: checkCluster_def valid_cluster_def Let_def)

lemmas check_Inr = both_checks_Inr checkServers_Inr checkOp_Inr checkEndpoint_Inr checkCluster_Inr

lemma validate_metric_sound:
  assumes "validate_metric parse r = (Inr (), r')" and "\<not> rule_IsCustom r"
  shows "valid_metric parse r'"
    and "rule_Name r' = rule_Name r" and "rule_Channels r' = rule_Channels r"
    and "rule_TriggerIntveral r' = rule_TriggerIntveral r" and "rule_MetricName r' = rule_MetricName r"
  using assms unfolding validate_metric_def valid_metric_def Let_def
  by (auto simp: check_Inr split: if_splits)

lemma check_ok:
  "valid_servers r \<Longrightarrow> checkServers r = (Inr (), r)"
  "valid_op r \<Longrightarrow> checkOp r = (Inr (), r)"
  "valid_cluster r \<Longrightarrow> checkCluster r = (Inr (), r)"
  "valid_endpoint parse r \<Longrightarrow> checkEndpoint parse r = (Inr (), r)"
  "c1 r = (Inr (), r) \<Longrightarrow> c2 r = (Inr (), r) \<Longrightarrow> both_checks c1 c2 r = (Inr (), r)"
  by (simp_all add: checkServers_Inr checkOp_Inr checkEndpoint_Inr both_checks_def)
    (simp add: checkCluster_def valid_cluster_def trimmed_def)

lemma validate_metric_complete:
  assumes "valid_metric parse r" and "\<not> rule_IsCustom r"
  shows "validate_metric parse r = (Inr (), r)"
proof -
  from assms consider
      "rule_MetricName r \<in> {PROC_USAGE, MEMORY, SWAP}" "valid_servers r" "valid_op r"
    | "rule_MetricName r \<in> {DISKS, DISK_FORECAST}" "TrimSpace (rule_Disk r) \<noteq> []" "valid_servers r" "valid_op r"
    | "rule_MetricName r = SERVICES" "TrimSpace (rule_Service r) \<noteq> []" "rule_Op r \<in> {''active'', ''inactive''}" "valid_servers r"
    | "rule_MetricName r = PING" "valid_servers r"
    | "rule_MetricName r = ENDPOINT" "valid_endpoint parse r"
    | "rule_MetricName r \<in> {KUBE_NODE, KUBE_WORKLOAD, KUBE_PENDING}" "valid_cluster r"
    | "rule_MetricName r = KUBE_RESTARTS" "valid_cluster r" "valid_op r"
    unfolding valid_metric_def by auto
  then show ?thesis
    unfolding validate_metric_def Let_def by cases (auto simp: check_ok)
qed

lemma checkChannels_ok:
  assumes "checkChannels r = (Inr (), r')"
  obtains cs where "r' = r\<lparr>rule_Channels := cs\<rparr>" "distinct cs" "\<forall>c \<in> set cs. c \<noteq> [] \<and> trimmed c"
proof -
  obtain e cs where cs: "check_channel_names {} (rule_Channels r) = (e, cs)" by fastforce
  with assms have "e = Inr ()" and r': "r' = r\<lparr>rule_Channels := cs\<rparr>"
    by (simp_all add: checkChannels_def)
  with cs check_channel_names_ok [of "{}" "rule_Channels r" cs] show thesis
    using that by blast
qed

lemma checkChannels_id:
  assumes "\<forall>c \<in> set (rule_Channels r). c \<noteq> [] \<and> trimmed c" and "distinct (rule_Channels r)"
  shows "checkChannels r = (Inr (), r)"
proof -
  have "check_channel_names {} (rule_Channels r) = (Inr (), rule_Channels r)"
    using assms by (intro check_channel_names_complete) auto
  then show ?thesis by (simp add: checkChannels_def)
qed

lemma validate_rest_sound:
  assumes "validate_rest parse r = (Inr (), r')"
  shows "valid_metric parse r' \<and> rule_Name r' = rule_Name r \<and> rule_Channels r' = rule_Channels r \<and>
    rule_TriggerIntveral r' = rule_TriggerIntveral r"
proof (cases "rule_IsCustom r")
  case True
  with assms show ?thesis
    by (auto simp: validate_rest_def check_Inr valid_metric_def split: if_splits)
next
  case False
  with assms show ?thesis
    by (auto simp: validate_rest_def dest: validate_metric_sound)
qed

lemma validate_rest_complete: "valid_metric parse r \<Longrightarrow> validate_rest parse r = (Inr (), r)"
  by (cases "rule_IsCustom r")
    (simp_all add: validate_rest_def validate_metric_complete, simp add: valid_metric_def check_ok)

lemma Validate_sound:
  assumes "Validate parse r = (Inr (), r')"
  shows "valid_rule parse r'"
proof -
  let ?r = "r\<lparr>rule_Name := TrimSpace (rule_Name r)\<rparr>"
  from assms have name: "TrimSpace (rule_Name r) \<noteq> []" "length (TrimSpace (rule_Name r)) \<le> 100" "0 \<le> rule_TriggerIntveral r"
    and rest: "bindE checkChannels (\<lambda>_. validate_rest parse) ?r = (Inr (), r')"
    unfolding Validate_def Let_def by (simp_all add: not_less split: if_splits)
  from rest obtain r1 where r1: "checkChannels ?r = (Inr (), r1)" and r': "validate_rest parse r1 = (Inr (), r')"
    by (elim bindE_InrE) simp
  from r1 obtain cs where "r1 = ?r\<lparr>rule_Channels := cs\<rparr>" "distinct cs" "\<forall>c \<in> set cs. c \<noteq> [] \<and> trimmed c"
    by (rule checkChannels_ok)
  with name validate_rest_sound [OF r'] show ?thesis
    by (simp add: valid_rule_def)
qed

lemma Validate_id:
  assumes "valid_rule parse r"
  shows "Validate parse r = (Inr (), r)"
proof -
  have "r\<lparr>rule_Name := TrimSpace (rule_Name r)\<rparr> = r"
    using assms by (simp add: valid_rule_def trimmed_def)
  moreover have "bindE checkChannels (\<lambda>_. validate_rest parse) r = (Inr (), r)"
    using assms by (simp add: bindE_def checkChannels_id validate_rest_complete valid_rule_def)
  ultimately show ?thesis
    using assms by (simp add: Validate_def Let_def valid_rule_def)
qed

lemma parse_rules_from_sound:
  "parse_rules_from parse i names rules = Inr out \<Longrightarrow>
     length out = length rules \<and> (\<forall>r \<in> set out. valid_rule parse r) \<and> distinct (map rule_Name out) \<and>
     set (map rule_Name out) \<inter> names = {}"
proof (induction rules arbitrary: i names out)
  case (Cons r rules)
  from Cons.prems obtain r' rest where v: "Validate parse r = (Inr (), r')" and new: "rule_Name r' \<notin> names"
    and rest: "parse_rules_from parse (Suc i) (insert (rule_Name r') names) rules = Inr rest" and out: "out = r' # rest"
    by (auto split: prod.splits sum.splits if_splits)
  from Cons.IH [OF rest] Validate_sound [OF v] new show ?case by (auto simp: out)
qed simp

lemma parse_rules_from_id:
  "(\<forall>r \<in> set rules. valid_rule parse r) \<Longrightarrow> distinct (map rule_Name rules) \<Longrightarrow>
     set (map rule_Name rules) \<inter> names = {} \<Longrightarrow> parse_rules_from parse i names rules = Inr rules"
  by (induction rules arbitrary: i names) (simp_all add: Validate_id)

section \<open>Properties\<close>

text \<open>C38. \<open>Validate\<close> accepts exactly the rules that have what their metric needs: it succeeds and changes
  nothing if and only if the rule meets the contract \<open>valid_rule\<close>, whatever it accepts after trimming
  the rule's names meets the contract, and validating it again accepts it as it is.\<close>

theorem Validate_contract:
  "(Validate parse r = (Inr (), r) \<longleftrightarrow> valid_rule parse r) \<and>
   (fst (Validate parse r) = Inr () \<longrightarrow>
      valid_rule parse (snd (Validate parse r)) \<and>
      Validate parse (snd (Validate parse r)) = (Inr (), snd (Validate parse r)))"
proof -
  have "valid_rule parse (snd (Validate parse r))" if "fst (Validate parse r) = Inr ()"
    using that by (intro Validate_sound [of parse r]) (simp add: prod_eq_iff)
  then show ?thesis
    by (auto intro: Validate_sound Validate_id)
qed

definition example_rule :: AlertConfig where
  "example_rule = zero_rule\<lparr>rule_Name := '' CPU '', rule_MetricName := PROC_USAGE, rule_Op := ''>'',
     rule_WarnThreshold := 80, rule_CriticalThreshold := 90, rule_Servers := [AllHosts], rule_Channels := ['' ops '']\<rparr>"

theorem Validate_contract_witness:
  "valid_rule (\<lambda>_. None) (snd (Validate (\<lambda>_. None) example_rule))"
proof -
  have "fst (Validate (\<lambda>_. None) example_rule) = Inr ()" by code_simp
  with Validate_contract [of "\<lambda>_. None" example_rule] show ?thesis by blast
qed

text \<open>A rules file is loaded whole or not at all: what \<open>ParseRules\<close> returns is a list as long as the
  decoded one, of valid rules with different names, and a list that already has these properties is
  returned unchanged.\<close>

theorem ParseRules_contract:
  assumes "decode data = Inr rules"
  shows "(ParseRules parse decode data = Inr out \<longrightarrow>
       length out = length rules \<and> (\<forall>r \<in> set out. valid_rule parse r) \<and> distinct (map rule_Name out)) \<and>
     ((\<forall>r \<in> set rules. valid_rule parse r) \<and> distinct (map rule_Name rules) \<longrightarrow>
       ParseRules parse decode data = Inr rules)"
  using assms by (auto simp: ParseRules_def dest: parse_rules_from_sound intro: parse_rules_from_id)

theorem ParseRules_contract_witness:
  "\<exists>out. ParseRules (\<lambda>_. None) (\<lambda>_. Inr [example_rule, example_rule\<lparr>rule_Name := ''CPU 2''\<rparr>]) [] = Inr out \<and>
     length out = 2 \<and> distinct (map rule_Name out)"
proof -
  define rs where "rs = [example_rule, example_rule\<lparr>rule_Name := ''CPU 2''\<rparr>]"
  define out where "out = map (snd \<circ> Validate (\<lambda>_. None)) rs"
  have "parse_rules_from (\<lambda>_. None) 0 {} rs = Inr out"
    unfolding out_def rs_def by code_simp
  then have ok: "ParseRules (\<lambda>_. None) (\<lambda>_. Inr rs) [] = Inr out"
    by (simp add: ParseRules_def)
  have "(\<lambda>_ :: string. Inr rs :: AlertConfig list result) [] = Inr rs" by simp
  from ParseRules_contract [OF this, where parse = "\<lambda>_. None" and out = out] ok
  have "length out = length rs" and "distinct (map rule_Name out)" by blast+
  moreover have "length rs = 2" by (simp add: rs_def)
  ultimately show ?thesis using ok unfolding rs_def by (intro exI [of _ out] conjI) simp_all
qed

end
