(* ===== verification/Kube.thy ===== *)
theory Kube
  imports GoStrings "HOL-Library.Multiset" "HOL-Library.Char_ord" "HOL-Library.List_Lexorder"
begin

text \<open>
  A Kubernetes cluster as the reader sees it: internal/kube/types.go (the state that is sent to
  the collector), objects.go (how API objects become that state) and restarts.go (which container
  restarts happened between two states). \<open>strconv.ParseFloat\<close> is a parameter of \<open>quantity\<close>.
\<close>

section \<open>The state of a cluster\<close>

record Node =
  node_Name :: string
  node_Ready :: bool
  node_ReadyChanged :: int
  node_Roles :: "string list"
  node_KubeletVersion :: string
  node_Unschedulable :: bool
  node_Pressure :: "string list"
  node_CPUCores :: float64
  node_MemoryBytes :: float64

record Workload =
  wl_Namespace :: string
  wl_Kind :: string
  wl_Name :: string
  wl_Desired :: int
  wl_Ready :: int
  wl_Available :: int

definition Key :: "Workload \<Rightarrow> string" where
  "Key w = wl_Namespace w @ ''/'' @ wl_Kind w @ ''/'' @ wl_Name w"

definition Missing :: "Workload \<Rightarrow> int" where
  "Missing w = max (wrap64 (wl_Desired w - wl_Available w)) 0"

record PodContainer =
  pc_Name :: string
  pc_ID :: string
  pc_Image :: string
  pc_Ready :: bool
  pc_Restarts :: int
  pc_State :: string
  pc_Reason :: string
  pc_LastReason :: string
  pc_LastFinished :: int

record Pod =
  pod_Namespace :: string
  pod_Name :: string
  pod_UID :: string
  pod_Node :: string
  pod_Workload :: string
  pod_Phase :: string
  pod_Ready :: bool
  pod_Reason :: string
  pod_Created :: int
  pod_Containers :: "PodContainer list"

definition WorkloadKey :: "Pod \<Rightarrow> string" where
  "WorkloadKey p = pod_Namespace p @ ''/'' @ pod_Workload p"

definition pod_Restarts :: "Pod \<Rightarrow> int" where
  "pod_Restarts p = foldl (\<lambda>total c. wrap64 (total + pc_Restarts c)) 0 (pod_Containers p)"

record Event =
  ev_Namespace :: string
  ev_Kind :: string
  ev_Name :: string
  ev_Reason :: string
  ev_Message :: string
  ev_Count :: int
  ev_LastSeen :: int

record ClusterState =
  cs_Cluster :: string
  cs_Time :: int
  cs_Error :: string
  cs_Nodes :: "Node list"
  cs_Workloads :: "Workload list"
  cs_Pods :: "Pod list"
  cs_Events :: "Event list"

definition zero_state :: ClusterState where
  "zero_state = \<lparr>cs_Cluster = [], cs_Time = 0, cs_Error = [], cs_Nodes = [], cs_Workloads = [], cs_Pods = [], cs_Events = []\<rparr>"

definition ReportInterval :: duration where
  "ReportInterval = 30 * Second"

definition StaleAfter :: duration where
  "StaleAfter = 3 * ReportInterval"

section \<open>Counts\<close>

record Counts =
  ct_Nodes :: int
  ct_NodesReady :: int
  ct_Pods :: int
  ct_PodsRunning :: int
  ct_PodsPending :: int
  ct_PodsNotReady :: int
  ct_PodsFailed :: int
  ct_Workloads :: int
  ct_WorkloadsReady :: int

definition count_node :: "Counts \<Rightarrow> Node \<Rightarrow> Counts" where
  "count_node c n = (if node_Ready n then c\<lparr>ct_NodesReady := ct_NodesReady c + 1\<rparr> else c)"

definition count_pod :: "Counts \<Rightarrow> Pod \<Rightarrow> Counts" where
  "count_pod c p =
     (if pod_Phase p = ''Running'' then
        (let c' = c\<lparr>ct_PodsRunning := ct_PodsRunning c + 1\<rparr>
         in if \<not> pod_Ready p then c'\<lparr>ct_PodsNotReady := ct_PodsNotReady c' + 1\<rparr> else c')
      else if pod_Phase p = ''Pending'' then c\<lparr>ct_PodsPending := ct_PodsPending c + 1\<rparr>
      else if pod_Phase p = ''Failed'' then c\<lparr>ct_PodsFailed := ct_PodsFailed c + 1\<rparr>
      else c)"

definition count_workload :: "Counts \<Rightarrow> Workload \<Rightarrow> Counts" where
  "count_workload c w = (if Missing w = 0 then c\<lparr>ct_WorkloadsReady := ct_WorkloadsReady c + 1\<rparr> else c)"

definition state_Counts :: "ClusterState \<Rightarrow> Counts" where
  "state_Counts s =
     (let c0 = \<lparr>ct_Nodes = int (length (cs_Nodes s)), ct_NodesReady = 0, ct_Pods = int (length (cs_Pods s)),
                ct_PodsRunning = 0, ct_PodsPending = 0, ct_PodsNotReady = 0, ct_PodsFailed = 0,
                ct_Workloads = int (length (cs_Workloads s)), ct_WorkloadsReady = 0\<rparr>
      in foldl count_workload (foldl count_pod (foldl count_node c0 (cs_Nodes s)) (cs_Pods s)) (cs_Workloads s))"

section \<open>Restarts between two states\<close>

record Restart =
  rs_Namespace :: string
  rs_Workload :: string
  rs_Pod :: string
  rs_Container :: string
  rs_Count :: int
  rs_Reason :: string

definition container_key :: "string \<Rightarrow> PodContainer \<Rightarrow> string" where
  "container_key uid c = uid @ ''/'' @ pc_Name c"

text \<open>The restart counts of the earlier state, by pod and container; a later entry overwrites.\<close>

definition before_map :: "Pod list \<Rightarrow> string \<rightharpoonup> int" where
  "before_map pods =
     foldl (\<lambda>m pod. foldl (\<lambda>m c. m(container_key (pod_UID pod) c \<mapsto> pc_Restarts c)) m (pod_Containers pod)) Map.empty pods"

definition restart_of :: "(string \<rightharpoonup> int) \<Rightarrow> Pod \<Rightarrow> PodContainer \<Rightarrow> Restart list" where
  "restart_of before pod c =
     (let count = (case before (container_key (pod_UID pod) c) of
            Some old \<Rightarrow> if old \<le> pc_Restarts c then wrap64 (pc_Restarts c - old) else pc_Restarts c
          | None \<Rightarrow> pc_Restarts c)
      in if count \<le> 0 then []
         else [\<lparr>rs_Namespace = pod_Namespace pod, rs_Workload = pod_Workload pod, rs_Pod = pod_Name pod,
                rs_Container = pc_Name c, rs_Count = count, rs_Reason = pc_LastReason c\<rparr>])"

definition Restarts :: "ClusterState \<Rightarrow> ClusterState \<Rightarrow> Restart list" where
  "Restarts prev next =
     (if cs_Time prev = 0 then []
      else let before = before_map (cs_Pods prev); known = pod_UID ` set (cs_Pods prev)
        in concat (map (\<lambda>pod. if pod_UID pod \<notin> known \<and> pod_Created pod \<le> cs_Time prev then []
                              else concat (map (restart_of before pod) (pod_Containers pod)))
                  (cs_Pods next)))"

section \<open>API objects\<close>

record ownerReference =
  own_Kind :: string
  own_Name :: string
  own_Controller :: bool

record objectMeta =
  meta_Name :: string
  meta_Namespace :: string
  meta_UID :: string
  meta_CreationTimestamp :: time
  meta_Labels :: "(string \<times> string) list"
  meta_OwnerReferences :: "ownerReference list"

record condition =
  cond_Type :: string
  cond_Status :: string
  cond_Reason :: string
  cond_LastTransitionTime :: time

definition findCondition :: "condition list \<Rightarrow> string \<Rightarrow> condition option" where
  "findCondition conditions kind = find (\<lambda>c. cond_Type c = kind) conditions"

text \<open>\<open>unix\<close> is 0 for a time the API left out.\<close>

definition unix :: "time \<Rightarrow> int" where
  "unix t = (if t = zero_time then 0 else time_toUnix t)"

definition quantity_suffixes :: "(string \<times> rat) list" where
  "quantity_suffixes = [(''Ki'', 2 ^ 10), (''Mi'', 2 ^ 20), (''Gi'', 2 ^ 30), (''Ti'', 2 ^ 40),
     (''k'', 10 ^ 3), (''M'', 10 ^ 6), (''G'', 10 ^ 9), (''T'', 10 ^ 12)]"

definition quantity :: "(string \<Rightarrow> float64 option) \<Rightarrow> string \<Rightarrow> float64" where
  "quantity ParseFloat q =
     (case CutSuffix q ''m'' of
        Some number \<Rightarrow> (case ParseFloat number of None \<Rightarrow> Fin 0 | Some value \<Rightarrow> f_div value (Fin 1000))
      | None \<Rightarrow>
          (case find (\<lambda>s. CutSuffix q (fst s) \<noteq> None) quantity_suffixes of
             Some (suffix, factor) \<Rightarrow>
               (case ParseFloat (the (CutSuffix q suffix)) of None \<Rightarrow> Fin 0 | Some value \<Rightarrow> f_mul value (Fin factor))
           | None \<Rightarrow> (case ParseFloat q of None \<Rightarrow> Fin 0 | Some value \<Rightarrow> value)))"

record apiNode =
  an_Metadata :: objectMeta
  an_Unschedulable :: bool
  an_Conditions :: "condition list"
  an_Allocatable :: "(string \<times> string) list"
  an_KubeletVersion :: string

definition roleLabel :: string where
  "roleLabel = ''node-role.kubernetes.io/''"

definition label_role :: "string \<times> string \<Rightarrow> string list" where
  "label_role l = (case CutPrefix (fst l) roleLabel of Some role \<Rightarrow> if role \<noteq> [] then [role] else [] | None \<Rightarrow> [])"

definition map_string :: "(string \<times> string) list \<Rightarrow> string \<Rightarrow> string" where
  "map_string m k = map_get [] (map_of m) k"

definition node_of :: "(string \<Rightarrow> float64 option) \<Rightarrow> apiNode \<Rightarrow> Node" where
  "node_of ParseFloat n =
     (let ready = findCondition (an_Conditions n) ''Ready'' in
      \<lparr>node_Name = meta_Name (an_Metadata n),
       node_Ready = (case ready of None \<Rightarrow> False | Some c \<Rightarrow> cond_Status c = ''True''),
       node_ReadyChanged = (case ready of None \<Rightarrow> 0 | Some c \<Rightarrow> unix (cond_LastTransitionTime c)),
       node_Roles = sort (concat (map label_role (meta_Labels (an_Metadata n)))),
       node_KubeletVersion = an_KubeletVersion n,
       node_Unschedulable = an_Unschedulable n,
       node_Pressure = map cond_Type (filter (\<lambda>c. HasSuffix (cond_Type c) ''Pressure'' \<and> cond_Status c = ''True'') (an_Conditions n)),
       node_CPUCores = quantity ParseFloat (map_string (an_Allocatable n) ''cpu''),
       node_MemoryBytes = quantity ParseFloat (map_string (an_Allocatable n) ''memory'')\<rparr>)"

record apiReplicated =
  ar_Metadata :: objectMeta
  ar_Replicas :: "int option"
  ar_ReadyReplicas :: int
  ar_AvailableReplicas :: int

definition replicated_workload :: "apiReplicated \<Rightarrow> string \<Rightarrow> Workload" where
  "replicated_workload r kind =
     \<lparr>wl_Namespace = meta_Namespace (ar_Metadata r), wl_Kind = kind, wl_Name = meta_Name (ar_Metadata r),
      wl_Desired = (case ar_Replicas r of None \<Rightarrow> 1 | Some n \<Rightarrow> n), wl_Ready = ar_ReadyReplicas r,
      wl_Available = ar_AvailableReplicas r\<rparr>"

record apiDaemonSet =
  ad_Metadata :: objectMeta
  ad_DesiredNumberScheduled :: int
  ad_NumberReady :: int
  ad_NumberAvailable :: int

definition daemonset_workload :: "apiDaemonSet \<Rightarrow> Workload" where
  "daemonset_workload d =
     \<lparr>wl_Namespace = meta_Namespace (ad_Metadata d), wl_Kind = ''daemonset'', wl_Name = meta_Name (ad_Metadata d),
      wl_Desired = ad_DesiredNumberScheduled d, wl_Ready = ad_NumberReady d, wl_Available = ad_NumberAvailable d\<rparr>"

text \<open>\<open>Waiting\<close> is a reason, \<open>Terminated\<close> a reason with a time; None where the API has no such state.\<close>

record containerState =
  st_Waiting :: "string option"
  st_Running :: bool
  st_Terminated :: "(string \<times> time) option"

record containerStatus =
  cst_Name :: string
  cst_Image :: string
  cst_ContainerID :: string
  cst_Ready :: bool
  cst_RestartCount :: int
  cst_State :: containerState
  cst_LastState :: containerState

record apiPod =
  ap_Metadata :: objectMeta
  ap_NodeName :: string
  ap_Phase :: string
  ap_Reason :: string
  ap_Conditions :: "condition list"
  ap_InitContainerStatuses :: "containerStatus list"
  ap_ContainerStatuses :: "containerStatus list"

definition container_state :: "containerState \<Rightarrow> string \<times> string" where
  "container_state st =
     (if st_Running st then (''running'', [])
      else case st_Waiting st of Some reason \<Rightarrow> (''waiting'', reason)
      | None \<Rightarrow> (case st_Terminated st of Some (reason, _) \<Rightarrow> (''terminated'', reason) | None \<Rightarrow> ([], [])))"

definition container_of :: "containerStatus \<Rightarrow> PodContainer" where
  "container_of s =
     \<lparr>pc_Name = cst_Name s,
      pc_ID = (case Cut (cst_ContainerID s) ''://'' of Some (_, bare) \<Rightarrow> bare | None \<Rightarrow> []),
      pc_Image = cst_Image s, pc_Ready = cst_Ready s, pc_Restarts = cst_RestartCount s,
      pc_State = fst (container_state (cst_State s)), pc_Reason = snd (container_state (cst_State s)),
      pc_LastReason = (case st_Terminated (cst_LastState s) of Some (reason, _) \<Rightarrow> reason | None \<Rightarrow> []),
      pc_LastFinished = (case st_Terminated (cst_LastState s) of Some (_, fin) \<Rightarrow> unix fin | None \<Rightarrow> 0)\<rparr>"

definition startingReasons :: "string list" where
  "startingReasons = [''ContainerCreating'', ''PodInitializing'']"

definition waiting_problem :: "containerStatus \<Rightarrow> string option" where
  "waiting_problem s = (case st_Waiting (cst_State s) of
     Some reason \<Rightarrow> if reason \<noteq> [] \<and> reason \<notin> set startingReasons then Some reason else None
   | None \<Rightarrow> None)"

definition ended_problem :: "containerStatus \<Rightarrow> string option" where
  "ended_problem s = (case st_Terminated (cst_State s) of
     Some (reason, _) \<Rightarrow> if reason \<noteq> [] \<and> reason \<noteq> ''Completed'' then Some reason else None
   | None \<Rightarrow> None)"

text \<open>The first result a loop over statuses returns.\<close>

fun first_problem :: "(containerStatus \<Rightarrow> string option) \<Rightarrow> containerStatus list \<Rightarrow> string option" where
  "first_problem f [] = None"
| "first_problem f (s # ss) = (case f s of None \<Rightarrow> first_problem f ss | Some reason \<Rightarrow> Some reason)"

definition pod_reason :: "apiPod \<Rightarrow> string" where
  "pod_reason p =
     (if ap_Phase p = ''Succeeded'' then []
      else if ap_Phase p = ''Failed'' \<and> ap_Reason p \<noteq> [] then ap_Reason p
      else case (case findCondition (ap_Conditions p) ''PodScheduled'' of
                   Some c \<Rightarrow> if cond_Status c = ''False'' \<and> cond_Reason c \<noteq> [] then Some (cond_Reason c) else None
                 | None \<Rightarrow> None) of
        Some reason \<Rightarrow> reason
      | None \<Rightarrow> (case first_problem waiting_problem (ap_InitContainerStatuses p) of
          Some reason \<Rightarrow> ''Init:'' @ reason
        | None \<Rightarrow> (case first_problem waiting_problem (ap_ContainerStatuses p) of
            Some reason \<Rightarrow> reason
          | None \<Rightarrow> (case first_problem ended_problem (ap_ContainerStatuses p) of
              Some reason \<Rightarrow> reason
            | None \<Rightarrow> []))))"

definition podWorkload :: "objectMeta \<Rightarrow> string" where
  "podWorkload meta =
     (case find own_Controller (meta_OwnerReferences meta) of
        None \<Rightarrow> ''pod/'' @ meta_Name meta
      | Some owner \<Rightarrow>
          let hash = map_string (meta_Labels meta) ''pod-template-hash'' in
          if own_Kind owner = ''ReplicaSet'' \<and> hash \<noteq> [] \<and> CutSuffix (own_Name owner) (''-'' @ hash) \<noteq> None
            then ''deployment/'' @ the (CutSuffix (own_Name owner) (''-'' @ hash))
          else if own_Kind owner = ''Node'' then ''pod/'' @ meta_Name meta
          else ToLower (own_Kind owner) @ ''/'' @ own_Name owner)"

definition pod_of :: "apiPod \<Rightarrow> Pod" where
  "pod_of p =
     \<lparr>pod_Namespace = meta_Namespace (ap_Metadata p), pod_Name = meta_Name (ap_Metadata p),
      pod_UID = meta_UID (ap_Metadata p), pod_Node = ap_NodeName p, pod_Workload = podWorkload (ap_Metadata p),
      pod_Phase = ap_Phase p,
      pod_Ready = (case findCondition (ap_Conditions p) ''Ready'' of Some c \<Rightarrow> cond_Status c = ''True'' | None \<Rightarrow> False),
      pod_Reason = pod_reason p, pod_Created = unix (meta_CreationTimestamp (ap_Metadata p)),
      pod_Containers = map container_of (ap_ContainerStatuses p)\<rparr>"

record apiEvent =
  ae_Metadata :: objectMeta
  ae_ObjectKind :: string
  ae_ObjectName :: string
  ae_ObjectNamespace :: string
  ae_Reason :: string
  ae_Message :: string
  ae_Count :: int
  ae_LastTimestamp :: time
  ae_EventTime :: time
  ae_Series :: "(int \<times> time) option"

definition eventWindow :: duration where
  "eventWindow = Hour"

definition maxEvents :: nat where
  "maxEvents = 50"

definition ellipsis :: string where
  "ellipsis = [CHR 0xE2, CHR 0x80, CHR 0xA6]"

text \<open>When an event was last seen, and how often.\<close>

definition event_last :: "apiEvent \<Rightarrow> time \<times> int" where
  "event_last e =
     (let last = (if time_after (ae_EventTime e) (ae_LastTimestamp e) then ae_EventTime e else ae_LastTimestamp e)
      in case ae_Series e of
           None \<Rightarrow> (last, ae_Count e)
         | Some (seen, observed) \<Rightarrow> (if time_after observed last then observed else last, max (ae_Count e) seen))"

definition event_of :: "apiEvent \<Rightarrow> Event" where
  "event_of e =
     (let (last, seen) = event_last e in
      \<lparr>ev_Namespace = (if ae_ObjectNamespace e = [] then meta_Namespace (ae_Metadata e) else ae_ObjectNamespace e),
       ev_Kind = ae_ObjectKind e, ev_Name = ae_ObjectName e, ev_Reason = ae_Reason e,
       ev_Message = (if length (ae_Message e) > 300 then take 300 (ae_Message e) @ ellipsis else ae_Message e),
       ev_Count = max seen 1, ev_LastSeen = time_toUnix last\<rparr>)"

definition warningEvents :: "apiEvent list \<Rightarrow> time \<Rightarrow> Event list" where
  "warningEvents events now =
     take maxEvents (sort_key (\<lambda>e. - ev_LastSeen e)
       (map event_of (filter (\<lambda>e. \<not> time_sub now (fst (event_last e)) > eventWindow) events)))"

section \<open>Facts on counts\<close>

lemma foldl_count_node:
  "foldl count_node c ns = c\<lparr>ct_NodesReady := ct_NodesReady c + int (length (filter node_Ready ns))\<rparr>"
  by (induction ns arbitrary: c) (auto simp: count_node_def)

lemma foldl_count_workload:
  "foldl count_workload c ws = c\<lparr>ct_WorkloadsReady := ct_WorkloadsReady c + int (length (filter (\<lambda>w. Missing w = 0) ws))\<rparr>"
  by (induction ws arbitrary: c) (auto simp: count_workload_def)

lemma foldl_count_pod:
  "foldl count_pod c ps = c\<lparr>ct_PodsRunning := ct_PodsRunning c + int (length (filter (\<lambda>p. pod_Phase p = ''Running'') ps)),
     ct_PodsNotReady := ct_PodsNotReady c + int (length (filter (\<lambda>p. pod_Phase p = ''Running'' \<and> \<not> pod_Ready p) ps)),
     ct_PodsPending := ct_PodsPending c + int (length (filter (\<lambda>p. pod_Phase p = ''Pending'') ps)),
     ct_PodsFailed := ct_PodsFailed c + int (length (filter (\<lambda>p. pod_Phase p = ''Failed'') ps))\<rparr>"
proof (induction ps arbitrary: c)
  case (Cons p ps)
  show ?case by (simp add: Cons.IH count_pod_def [of c p] Let_def)
qed simp

lemma length_filter_mono: "(\<And>x. P x \<Longrightarrow> Q x) \<Longrightarrow> length (filter P xs) \<le> length (filter Q xs)"
  by (induction xs) auto

lemma length_filter_disjoint:
  assumes "\<And>x. P x \<Longrightarrow> \<not> Q x" "\<And>x. P x \<Longrightarrow> \<not> R x" "\<And>x. Q x \<Longrightarrow> \<not> R x"
  shows "length (filter P xs) + length (filter Q xs) + length (filter R xs) \<le> length xs"
  using assms by (induction xs) auto

section \<open>Facts on restarts\<close>

definition restart_pairs :: "Pod list \<Rightarrow> (string \<times> int) list" where
  "restart_pairs pods = concat (map (\<lambda>pod. map (\<lambda>c. (container_key (pod_UID pod) c, pc_Restarts c)) (pod_Containers pod)) pods)"

lemma foldl_upd: "foldl (\<lambda>m c. m(f c \<mapsto> g c)) m cs = m ++ map_of (rev (map (\<lambda>c. (f c, g c)) cs))"
  by (induction cs rule: rev_induct) (auto simp: map_add_def fun_eq_iff split: option.splits)

lemma before_map_eq: "before_map pods = map_of (rev (restart_pairs pods))"
proof -
  have "foldl (\<lambda>m pod. foldl (\<lambda>m c. m(container_key (pod_UID pod) c \<mapsto> pc_Restarts c)) m (pod_Containers pod)) m pods
      = m ++ map_of (rev (restart_pairs pods))" for m
    by (induction pods arbitrary: m) (auto simp: restart_pairs_def foldl_upd)
  then show ?thesis by (simp add: before_map_def)
qed

lemma map_of_unique_value:
  assumes "(k, v) \<in> set kvs" and "\<And>w. (k, w) \<in> set kvs \<Longrightarrow> w = v"
  shows "map_of kvs k = Some v"
proof -
  from assms(1) obtain w where "map_of kvs k = Some w"
    by (metis weak_map_of_SomeI)
  with assms(2) show ?thesis by (metis map_of_SomeD)
qed

lemma key_split:
  assumes "CHR ''/'' \<notin> set u" "CHR ''/'' \<notin> set u'" "u @ ''/'' @ n = u' @ ''/'' @ n'"
  shows "u = u' \<and> n = n'"
  using assms
proof (induction u arbitrary: u')
  case Nil
  then show ?case by (cases u') auto
next
  case (Cons a u)
  then show ?case by (cases u') auto
qed

text \<open>
  \<open>shows_restarts st uid ns pn cn n\<close>: in the state \<open>st\<close> one pod, with that UID, namespace and name,
  has one container of that name, and it restarted \<open>n\<close> times so far. UIDs hold no slash.
\<close>

definition shows_restarts :: "ClusterState \<Rightarrow> string \<Rightarrow> string \<Rightarrow> string \<Rightarrow> string \<Rightarrow> int \<Rightarrow> bool" where
  "shows_restarts st uid ns pn cn n \<longleftrightarrow> cs_Time st \<noteq> 0 \<and> (\<forall>q \<in> set (cs_Pods st). CHR ''/'' \<notin> set (pod_UID q)) \<and>
     (\<exists>p c. filter (\<lambda>q. pod_UID q = uid) (cs_Pods st) = [p] \<and>
            filter (\<lambda>q. pod_Namespace q = ns \<and> pod_Name q = pn) (cs_Pods st) = [p] \<and>
            filter (\<lambda>d. pc_Name d = cn) (pod_Containers p) = [c] \<and> pc_Restarts c = n)"

definition restarts_of :: "string \<Rightarrow> string \<Rightarrow> string \<Rightarrow> Restart list \<Rightarrow> int" where
  "restarts_of ns pn cn rs =
     sum_list (map rs_Count (filter (\<lambda>r. rs_Namespace r = ns \<and> rs_Pod r = pn \<and> rs_Container r = cn) rs))"

fun restarts_between :: "ClusterState list \<Rightarrow> Restart list" where
  "restarts_between (a # b # rest) = Restarts a b @ restarts_between (b # rest)"
| "restarts_between _ = []"

lemma restarts_of_append [simp]: "restarts_of ns pn cn (a @ b) = restarts_of ns pn cn a + restarts_of ns pn cn b"
  by (simp add: restarts_of_def)

lemma restarts_of_Nil [simp]: "restarts_of ns pn cn [] = 0"
  by (simp add: restarts_of_def)

lemma restarts_of_concat: "restarts_of ns pn cn (concat xss) = sum_list (map (restarts_of ns pn cn) xss)"
  by (induction xss) auto

lemma sum_list_filter_zero:
  assumes "\<And>x. x \<in> set xs \<Longrightarrow> \<not> P x \<Longrightarrow> f x = (0 :: int)"
  shows "sum_list (map f xs) = sum_list (map f (filter P xs))"
  using assms by (induction xs) auto

lemma sum_list_0': "(\<And>x. x \<in> set xs \<Longrightarrow> f x = (0 :: int)) \<Longrightarrow> sum_list (map f xs) = 0"
  by (induction xs) auto

lemma restart_of_other:
  "\<not> (pod_Namespace pod = ns \<and> pod_Name pod = pn \<and> pc_Name c = cn) \<Longrightarrow> restarts_of ns pn cn (restart_of b pod c) = 0"
  by (auto simp: restart_of_def restarts_of_def Let_def)

lemma before_map_shows:
  assumes "shows_restarts st uid ns pn cn n"
  shows "before_map (cs_Pods st) (uid @ ''/'' @ cn) = Some n"
proof -
  from assms obtain p c where p: "filter (\<lambda>q. pod_UID q = uid) (cs_Pods st) = [p]"
    and c: "filter (\<lambda>d. pc_Name d = cn) (pod_Containers p) = [c]" "pc_Restarts c = n"
    and slash: "\<forall>q \<in> set (cs_Pods st). CHR ''/'' \<notin> set (pod_UID q)"
    by (auto simp: shows_restarts_def)
  have pin: "p \<in> set (cs_Pods st)" "pod_UID p = uid" and cin: "c \<in> set (pod_Containers p)" "pc_Name c = cn"
    using filter_singleD [OF p] filter_singleD [OF c(1)] by simp_all
  have only: "w = n" if w: "(uid @ ''/'' @ cn, w) \<in> set (restart_pairs (cs_Pods st))" for w
  proof -
    from w obtain q d where q: "q \<in> set (cs_Pods st)" "d \<in> set (pod_Containers q)"
      and eq: "uid @ ''/'' @ cn = pod_UID q @ ''/'' @ pc_Name d" "w = pc_Restarts d"
      by (auto simp: restart_pairs_def container_key_def)
    have "uid = pod_UID q \<and> cn = pc_Name d"
      using key_split [OF _ _ eq(1)] slash q(1) pin by blast
    then have "q \<in> set (filter (\<lambda>q. pod_UID q = uid) (cs_Pods st))" and nm: "pc_Name d = cn"
      using q(1) by auto
    then have "q = p" by (simp add: p)
    then have "d \<in> set (filter (\<lambda>d. pc_Name d = cn) (pod_Containers p))"
      using q(2) nm by simp
    then show "w = n" using c eq(2) by simp
  qed
  have "(container_key (pod_UID p) c, pc_Restarts c) \<in> set (restart_pairs (cs_Pods st))"
    unfolding restart_pairs_def using pin(1) cin(1) by auto
  then have "(uid @ ''/'' @ cn, n) \<in> set (restart_pairs (cs_Pods st))"
    by (simp add: container_key_def pin(2) cin(2) c(2))
  then show ?thesis
    unfolding before_map_eq by (intro map_of_unique_value) (simp_all only: set_rev only)
qed

lemma restarts_step:
  assumes prev: "shows_restarts prev uid ns pn cn n" and next': "shows_restarts nxt uid ns pn cn m"
    and le: "0 \<le> n" "n \<le> m" "m < 2 ^ 63"
  shows "restarts_of ns pn cn (Restarts prev nxt) = m - n"
proof -
  let ?b = "before_map (cs_Pods prev)"
  from next' obtain p c where p: "filter (\<lambda>q. pod_UID q = uid) (cs_Pods nxt) = [p]"
      "filter (\<lambda>q. pod_Namespace q = ns \<and> pod_Name q = pn) (cs_Pods nxt) = [p]"
    and c: "filter (\<lambda>d. pc_Name d = cn) (pod_Containers p) = [c]" "pc_Restarts c = m"
    by (auto simp: shows_restarts_def)
  have pn: "pod_Namespace p = ns" "pod_Name p = pn" "pod_UID p = uid" and cn: "pc_Name c = cn"
    using filter_singleD [OF p(1)] filter_singleD [OF p(2)] filter_singleD [OF c(1)] by simp_all
  have known: "uid \<in> pod_UID ` set (cs_Pods prev)" and t: "cs_Time prev \<noteq> 0"
    using prev by (auto simp: shows_restarts_def dest!: filter_singleD)
  define g where "g pod = (if pod_UID pod \<notin> pod_UID ` set (cs_Pods prev) \<and> pod_Created pod \<le> cs_Time prev then []
      else concat (map (restart_of ?b pod) (pod_Containers pod)))" for pod
  have other: "restarts_of ns pn cn (g q) = 0" if "\<not> (pod_Namespace q = ns \<and> pod_Name q = pn)" for q
  proof -
    have "sum_list (map (\<lambda>d. restarts_of ns pn cn (restart_of ?b q d)) (pod_Containers q)) = 0"
      using that by (intro sum_list_0') (auto simp: restart_of_other)
    then show ?thesis by (simp add: g_def restarts_of_concat comp_def)
  qed
  have "restarts_of ns pn cn (Restarts prev nxt) = sum_list (map (\<lambda>q. restarts_of ns pn cn (g q)) (cs_Pods nxt))"
    using t by (simp add: Restarts_def Let_def restarts_of_concat g_def [symmetric] comp_def)
  also have "\<dots> = sum_list (map (\<lambda>q. restarts_of ns pn cn (g q)) [p])"
    using other by (subst sum_list_filter_zero [where P = "\<lambda>q. pod_Namespace q = ns \<and> pod_Name q = pn"]) (auto simp: p)
  also have "\<dots> = sum_list (map (\<lambda>d. restarts_of ns pn cn (restart_of ?b p d)) (pod_Containers p))"
    using known pn by (simp add: g_def restarts_of_concat comp_def)
  also have "\<dots> = sum_list (map (\<lambda>d. restarts_of ns pn cn (restart_of ?b p d)) [c])"
    by (subst sum_list_filter_zero [where P = "\<lambda>d. pc_Name d = cn"]) (auto simp: c(1) restart_of_other)
  also have "\<dots> = m - n"
  proof -
    have "?b (container_key (pod_UID p) c) = Some n"
      using before_map_shows [OF prev] by (simp add: container_key_def pn cn)
    then show ?thesis
      using le c(2) pn cn by (auto simp: restart_of_def restarts_of_def Let_def wrap64_id int64_def)
  qed
  finally show ?thesis .
qed

lemma Restarts_mem:
  assumes "r \<in> set (Restarts prev nxt)"
  obtains pod c where "pod \<in> set (cs_Pods nxt)" "c \<in> set (pod_Containers pod)"
    "r \<in> set (restart_of (before_map (cs_Pods prev)) pod c)"
    "pod_UID pod \<in> pod_UID ` set (cs_Pods prev) \<or> cs_Time prev < pod_Created pod" "cs_Time prev \<noteq> 0"
  using assms by (auto simp: Restarts_def Let_def not_le split: if_splits)

section \<open>Properties\<close>

text \<open>No restart is lost and none is counted twice: over any sequence of cluster states in which a
  pod keeps its UID and a container's restart count does not fall, the restarts \<open>Restarts\<close> finds
  between neighbouring states add up to the difference of the last and the first count.\<close>

theorem restarts_telescope:
  assumes "list_all2 (\<lambda>st n. shows_restarts st uid ns pn cn n) sts counts"
    and "sorted counts" and "counts \<noteq> []" and "0 \<le> hd counts" and "last counts < 2 ^ 63"
  shows "restarts_of ns pn cn (restarts_between sts) = last counts - hd counts"
  using assms
proof (induction sts arbitrary: counts rule: restarts_between.induct)
  case (1 a b rest)
  from "1.prems"(1) obtain n m ns' where counts: "counts = n # m # ns'"
    and a: "shows_restarts a uid ns pn cn n" and b: "shows_restarts b uid ns pn cn m"
    and rest: "list_all2 (\<lambda>st n. shows_restarts st uid ns pn cn n) (b # rest) (m # ns')"
    by (auto simp: list_all2_Cons1)
  have le: "n \<le> m" "m \<le> last (m # ns')" "sorted (m # ns')"
    using "1.prems"(2) by (simp_all add: counts)
  have "restarts_of ns pn cn (Restarts a b) = m - n"
    using "1.prems"(4,5) le by (intro restarts_step [OF a b]) (auto simp: counts)
  moreover have "restarts_of ns pn cn (restarts_between (b # rest)) = last (m # ns') - m"
    using "1.IH" [OF rest] "1.prems"(4,5) le by (simp add: counts)
  ultimately show ?case by (simp add: counts)
next
  case "2_1"
  then show ?case by simp
next
  case "2_2"
  then show ?case by (auto simp: list_all2_Cons1)
qed

definition example_container :: "int \<Rightarrow> PodContainer" where
  "example_container n = \<lparr>pc_Name = ''web'', pc_ID = [], pc_Image = [], pc_Ready = True, pc_Restarts = n,
     pc_State = ''running'', pc_Reason = [], pc_LastReason = ''OOMKilled'', pc_LastFinished = 0\<rparr>"

definition example_state :: "int \<Rightarrow> int \<Rightarrow> ClusterState" where
  "example_state t n = zero_state\<lparr>cs_Time := t, cs_Pods := [\<lparr>pod_Namespace = ''media'', pod_Name = ''web-1'',
     pod_UID = ''u1'', pod_Node = ''n1'', pod_Workload = ''deployment/web'', pod_Phase = ''Running'', pod_Ready = True,
     pod_Reason = [], pod_Created = 1, pod_Containers = [example_container n]\<rparr>]\<rparr>"

lemma example_shows: "0 < t \<Longrightarrow> shows_restarts (example_state t n) ''u1'' ''media'' ''web-1'' ''web'' n"
  by (simp add: shows_restarts_def example_state_def example_container_def)

theorem restarts_telescope_witness:
  "restarts_of ''media'' ''web-1'' ''web'' (restarts_between [example_state 10 2, example_state 40 5, example_state 70 9]) = 7"
  using restarts_telescope [of "''u1''" "''media''" "''web-1''" "''web''"
      "[example_state 10 2, example_state 40 5, example_state 70 9]" "[2, 5, 9]"]
  by (simp add: example_shows)

text \<open>Every restart that is found is a positive count of a container of the newer state, in a pod
  the older state already had or that was made after it, and a first state has none.\<close>

theorem Restarts_sound:
  assumes "r \<in> set (Restarts prev nxt)"
  shows "0 < rs_Count r \<and> cs_Time prev \<noteq> 0 \<and>
    (\<exists>pod \<in> set (cs_Pods nxt). \<exists>c \<in> set (pod_Containers pod).
       rs_Container r = pc_Name c \<and> rs_Workload r = pod_Workload pod \<and> rs_Reason r = pc_LastReason c \<and>
       (pod_UID pod \<in> pod_UID ` set (cs_Pods prev) \<or> cs_Time prev < pod_Created pod))"
proof -
  from assms obtain pod c where pc: "pod \<in> set (cs_Pods nxt)" "c \<in> set (pod_Containers pod)"
    and r: "r \<in> set (restart_of (before_map (cs_Pods prev)) pod c)"
    and seen: "pod_UID pod \<in> pod_UID ` set (cs_Pods prev) \<or> cs_Time prev < pod_Created pod" and t: "cs_Time prev \<noteq> 0"
    by (rule Restarts_mem)
  from r have "0 < rs_Count r \<and> rs_Container r = pc_Name c \<and> rs_Workload r = pod_Workload pod \<and> rs_Reason r = pc_LastReason c"
    by (simp add: restart_of_def Let_def split: if_splits option.splits)
  with pc seen t show ?thesis by blast
qed

theorem Restarts_sound_witness:
  "\<exists>r. r \<in> set (Restarts (example_state 10 2) (example_state 40 5)) \<and> 0 < rs_Count r"
proof -
  have eq: "Restarts (example_state 10 2) (example_state 40 5) =
      [\<lparr>rs_Namespace = ''media'', rs_Workload = ''deployment/web'', rs_Pod = ''web-1'', rs_Container = ''web'',
        rs_Count = 3, rs_Reason = ''OOMKilled''\<rparr>]"
    by (simp add: Restarts_def example_state_def example_container_def zero_state_def before_map_def container_key_def
        restart_of_def wrap64_def)
  have "hd (Restarts (example_state 10 2) (example_state 40 5)) \<in> set (Restarts (example_state 10 2) (example_state 40 5))"
    by (simp add: eq)
  from Restarts_sound [OF this] this show ?thesis by blast
qed

text \<open>The counts of a state are consistent: no more nodes are ready, pods running, pending or failed,
  and workloads ready than there are, and running pods that are not ready are among the running ones.\<close>

theorem state_Counts_bounds:
  "ct_Nodes (state_Counts s) = int (length (cs_Nodes s)) \<and> ct_NodesReady (state_Counts s) \<le> ct_Nodes (state_Counts s) \<and>
   ct_PodsRunning (state_Counts s) + ct_PodsPending (state_Counts s) + ct_PodsFailed (state_Counts s) \<le> ct_Pods (state_Counts s) \<and>
   ct_PodsNotReady (state_Counts s) \<le> ct_PodsRunning (state_Counts s) \<and>
   ct_WorkloadsReady (state_Counts s) \<le> ct_Workloads (state_Counts s) \<and>
   ct_WorkloadsReady (state_Counts s) = int (length (filter (\<lambda>w. Missing w = 0) (cs_Workloads s)))"
proof -
  have "length (filter (\<lambda>p. pod_Phase p = ''Running'') (cs_Pods s)) + length (filter (\<lambda>p. pod_Phase p = ''Pending'') (cs_Pods s)) +
      length (filter (\<lambda>p. pod_Phase p = ''Failed'') (cs_Pods s)) \<le> length (cs_Pods s)"
    by (rule length_filter_disjoint) auto
  moreover have "length (filter (\<lambda>p. pod_Phase p = ''Running'' \<and> \<not> pod_Ready p) (cs_Pods s))
      \<le> length (filter (\<lambda>p. pod_Phase p = ''Running'') (cs_Pods s))"
    by (rule length_filter_mono) simp
  ultimately show ?thesis
    by (simp add: state_Counts_def Let_def foldl_count_node foldl_count_pod foldl_count_workload)
qed

text \<open>\<open>warningEvents\<close> keeps exactly the events of the last hour, newest first, and only the oldest of
  them fall out when there are more than 50.\<close>

theorem warningEvents_newest:
  "\<exists>rest. mset (warningEvents events now @ rest) =
       mset (map event_of (filter (\<lambda>e. time_sub now (fst (event_last e)) \<le> Hour) events)) \<and>
     sorted_wrt (\<lambda>a b. ev_LastSeen b \<le> ev_LastSeen a) (warningEvents events now @ rest) \<and>
     length (warningEvents events now) \<le> 50 \<and> (rest = [] \<or> length (warningEvents events now) = 50)"
proof -
  define recent where "recent = map event_of (filter (\<lambda>e. time_sub now (fst (event_last e)) \<le> Hour) events)"
  define all where "all = sort_key (\<lambda>e. - ev_LastSeen e) recent"
  have out: "warningEvents events now = take 50 all"
    by (simp add: warningEvents_def all_def recent_def maxEvents_def eventWindow_def not_less)
  have "sorted (map (\<lambda>e. - ev_LastSeen e) all)"
    by (simp add: all_def)
  then have "sorted_wrt (\<lambda>a b. ev_LastSeen b \<le> ev_LastSeen a) all"
    by (simp add: sorted_wrt_map)
  moreover have "mset all = mset recent"
    by (simp add: all_def)
  moreover have "length (take 50 all) \<le> 50 \<and> (drop 50 all = [] \<or> length (take 50 all) = 50)"
    by auto
  ultimately show ?thesis
    unfolding out recent_def [symmetric] by (intro exI [of _ "drop 50 all"]) (simp only: append_take_drop_id simp_thms)
qed

end
