(* ===== verification/GoUTF8.thy ===== *)
theory GoUTF8
  imports GoStrings
begin

text \<open>
  Go's unicode/utf8 on byte strings: decoding with its table of first bytes and accepted second
  bytes, rune counts, \<open>strings.ToValidUTF8\<close>, and which strings are valid UTF-8.
\<close>

definition byte_of :: "char \<Rightarrow> int" where
  "byte_of c = of_char c"

text \<open>Size, and the range of the second byte, by the first byte; None for a byte that starts nothing.\<close>

definition lead :: "char \<Rightarrow> (nat \<times> int \<times> int) option" where
  "lead c = (let b = byte_of c in
     if b < 0x80 then Some (1, 0, 0)
     else if b < 0xC2 then None
     else if b < 0xE0 then Some (2, 0x80, 0xBF)
     else if b = 0xE0 then Some (3, 0xA0, 0xBF)
     else if b = 0xED then Some (3, 0x80, 0x9F)
     else if b < 0xF0 then Some (3, 0x80, 0xBF)
     else if b = 0xF0 then Some (4, 0x90, 0xBF)
     else if b < 0xF4 then Some (4, 0x80, 0xBF)
     else if b = 0xF4 then Some (4, 0x80, 0x8F)
     else None)"

definition continues :: "char \<Rightarrow> bool" where
  "continues c \<longleftrightarrow> 0x80 \<le> byte_of c \<and> byte_of c \<le> 0xBF"

definition RuneStart :: "char \<Rightarrow> bool" where
  "RuneStart c \<longleftrightarrow> \<not> continues c"

definition in_range :: "int \<Rightarrow> int \<Rightarrow> char \<Rightarrow> bool" where
  "in_range lo hi c \<longleftrightarrow> lo \<le> byte_of c \<and> byte_of c \<le> hi"

text \<open>The encoding of one character.\<close>

definition is_char :: "string \<Rightarrow> bool" where
  "is_char s = (case s of
     [] \<Rightarrow> False
   | c # cs \<Rightarrow> (case lead c of
       None \<Rightarrow> False
     | Some (sz, lo, hi) \<Rightarrow> length s = sz \<and> (cs = [] \<or> in_range lo hi (hd cs)) \<and> list_all continues cs))"

text \<open>\<open>utf8.DecodeRune\<close>: the rune and its width. A broken encoding is U+FFFD of width 1.\<close>

definition rune_value :: "string \<Rightarrow> int" where
  "rune_value s = (case map byte_of s of
     [a] \<Rightarrow> a
   | [a, b] \<Rightarrow> (a mod 32) * 64 + b mod 64
   | [a, b, c] \<Rightarrow> (a mod 16) * 4096 + (b mod 64) * 64 + c mod 64
   | [a, b, c, d] \<Rightarrow> (a mod 8) * 262144 + (b mod 64) * 4096 + (c mod 64) * 64 + d mod 64
   | _ \<Rightarrow> 0)"

definition lead_size :: "char \<Rightarrow> nat" where
  "lead_size c = (case lead c of None \<Rightarrow> 1 | Some (sz, _) \<Rightarrow> sz)"

definition RuneError :: int where
  "RuneError = 0xFFFD"

fun DecodeRune :: "string \<Rightarrow> int \<times> nat" where
  "DecodeRune [] = (RuneError, 0)"
| "DecodeRune (c # cs) =
     (let s = take (lead_size c) (c # cs) in if is_char s then (rune_value s, length s) else (RuneError, 1))"

definition FullRune :: "string \<Rightarrow> bool" where
  "FullRune p = (case p of
     [] \<Rightarrow> False
   | c # cs \<Rightarrow>
       if lead_size c \<le> length p then True
       else (case lead c of
          None \<Rightarrow> True
        | Some (sz, lo, hi) \<Rightarrow>
            cs \<noteq> [] \<and> \<not> in_range lo hi (hd cs) \<or> (case tl cs of [] \<Rightarrow> False | d # _ \<Rightarrow> \<not> continues d)))"

text \<open>The runes of a string, with the bytes each came from.\<close>

lemma lead_size_pos: "0 < lead_size c"
  by (simp add: lead_size_def lead_def Let_def split: option.splits if_splits)

lemma DecodeRune_size: "s \<noteq> [] \<Longrightarrow> 0 < snd (DecodeRune s) \<and> snd (DecodeRune s) \<le> length s"
  by (cases s) (auto simp: Let_def lead_size_pos)

function runes :: "string \<Rightarrow> (int \<times> string) list" where
  "runes s = (if s = [] then [] else
     (fst (DecodeRune s), take (snd (DecodeRune s)) s) # runes (drop (snd (DecodeRune s)) s))"
  by pat_completeness auto
termination
proof (relation "measure length")
  fix s :: string assume "s \<noteq> []"
  then show "(drop (snd (DecodeRune s)) s, s) \<in> measure length"
    using DecodeRune_size [of s] by simp
qed simp

declare runes.simps [simp del]

definition RuneCount :: "string \<Rightarrow> nat" where
  "RuneCount s = length (runes s)"

definition IsControl :: "int \<Rightarrow> bool" where
  "IsControl r \<longleftrightarrow> r < 0x20 \<or> 0x7F \<le> r \<and> r < 0xA0"

definition contains_control :: "string \<Rightarrow> bool" where
  "contains_control s \<longleftrightarrow> list_ex (\<lambda>r. IsControl (fst r)) (runes s)"

text \<open>The encoding of U+FFFD, which a broken encoding turns into when a rune slice becomes a string.\<close>

definition replacement :: string where
  "replacement = [CHR 0xEF, CHR 0xBF, CHR 0xBD]"

definition rune_bytes :: "int \<times> string \<Rightarrow> string" where
  "rune_bytes r = (if is_char (snd r) then snd r else replacement)"

text \<open>\<open>string([]rune(s)[:n])\<close> when \<open>s\<close> has more than \<open>n\<close> runes, else \<open>string([]rune(s))\<close>.\<close>

definition cut_runes :: "nat \<Rightarrow> string \<Rightarrow> string" where
  "cut_runes n s = concat (map rune_bytes (take n (runes s)))"

text \<open>\<open>strings.ToValidUTF8\<close> puts one replacement where a run of broken bytes was.\<close>

fun to_valid :: "bool \<Rightarrow> (int \<times> string) list \<Rightarrow> string" where
  "to_valid broken [] = []"
| "to_valid broken (r # rs) =
     (if is_char (snd r) then snd r @ to_valid False rs
      else (if broken then [] else replacement) @ to_valid True rs)"

definition ToValidUTF8 :: "string \<Rightarrow> string" where
  "ToValidUTF8 s = to_valid False (runes s)"

text \<open>A text column cannot hold a NUL character, so both sides drop them.\<close>

definition drop_nul :: "string \<Rightarrow> string" where
  "drop_nul s = filter (\<lambda>c. c \<noteq> CHR 0x00) s"

section \<open>Valid strings\<close>

inductive valid_utf8 :: "string \<Rightarrow> bool" where
  valid_Nil: "valid_utf8 []"
| valid_char: "is_char e \<Longrightarrow> valid_utf8 s \<Longrightarrow> valid_utf8 (e @ s)"

lemma is_char_not_Nil: "is_char e \<Longrightarrow> e \<noteq> []"
  by (auto simp: is_char_def)

lemma is_char_lead_size: "is_char (c # cs) \<Longrightarrow> lead_size c = Suc (length cs)"
  by (auto simp: is_char_def lead_size_def split: option.splits)

lemma DecodeRune_char:
  assumes "is_char e"
  shows "DecodeRune (e @ s) = (rune_value e, length e)"
proof -
  obtain c cs where e: "e = c # cs" using is_char_not_Nil [OF assms] by (cases e) auto
  have "take (lead_size c) (c # cs @ s) = c # cs"
    using is_char_lead_size [of c cs] assms by (simp add: e)
  with assms show ?thesis by (simp add: e)
qed

lemma runes_char: "is_char e \<Longrightarrow> runes (e @ s) = (rune_value e, e) # runes s"
  by (subst runes.simps) (auto simp: DecodeRune_char dest: is_char_not_Nil)

lemma runes_Nil [simp]: "runes [] = []"
  by (simp add: runes.simps)

lemma to_valid_valid: "valid_utf8 s \<Longrightarrow> to_valid b (runes s) = s"
  by (induction arbitrary: b rule: valid_utf8.induct) (simp_all add: runes_char)

lemma ToValidUTF8_valid: "valid_utf8 s \<Longrightarrow> ToValidUTF8 s = s"
  by (simp add: ToValidUTF8_def to_valid_valid)

lemma valid_utf8_append: "valid_utf8 a \<Longrightarrow> valid_utf8 b \<Longrightarrow> valid_utf8 (a @ b)"
  by (induction rule: valid_utf8.induct) (auto intro: valid_utf8.intros)

lemma drop_nul_append [simp]: "drop_nul (a @ b) = drop_nul a @ drop_nul b"
  by (simp add: drop_nul_def)

lemma drop_nul_no_nul [simp]: "CHR 0x00 \<notin> set (drop_nul s)"
  by (simp add: drop_nul_def)

lemma length_drop_nul: "length (drop_nul s) \<le> length s"
  by (simp add: drop_nul_def)

lemma runes_length: "length (runes s) \<le> length s"
proof (induction s rule: runes.induct)
  case (1 s)
  show ?case
  proof (cases "s = []")
    case False
    then have "length (runes (drop (snd (DecodeRune s)) s)) \<le> length s - snd (DecodeRune s)"
      using "1" by simp
    with False DecodeRune_size [of s] show ?thesis by (subst runes.simps) (simp, linarith)
  qed simp
qed

end
