(* ===== verification/Tasks.thy ===== *)
theory Tasks
  imports Alerts GoUTF8
begin

text \<open>
  A host's tasks file, internal/tasks/tasks.go: the commands an admin may start from the dashboard.
  \<open>Validate\<close> trims names and fills in the default timeout as it goes, so it is an operation on the
  task list. The file system enters \<open>Load\<close> as what opening, stating and reading the file gave, and
  the JSON decoder as a parameter.
\<close>

record Task =
  task_Name :: string
  task_Description :: string
  task_Command :: string
  task_TimeoutSeconds :: int

definition defaultTimeoutSeconds :: int where
  "defaultTimeoutSeconds = 300"

definition maxTimeoutSeconds :: int where
  "maxTimeoutSeconds = 24 * 60 * 60"

definition maxTasks :: nat where
  "maxTasks = 50"

definition maxNameLength :: nat where
  "maxNameLength = 64"

definition maxDescriptionLength :: nat where
  "maxDescriptionLength = 200"

definition maxCommandLength :: nat where
  "maxCommandLength = 4096"

definition maxFileSize :: nat where
  "maxFileSize = 1048576"

lemmas task_limits = defaultTimeoutSeconds_def maxTimeoutSeconds_def maxTasks_def maxNameLength_def
  maxDescriptionLength_def maxCommandLength_def maxFileSize_def

definition Timeout :: "Task \<Rightarrow> duration" where
  "Timeout task = dur_mul (task_TimeoutSeconds task) Second"

definition normalize_task :: "Task \<Rightarrow> Task" where
  "normalize_task task = task\<lparr>task_Name := TrimSpace (task_Name task),
     task_Description := TrimSpace (task_Description task),
     task_TimeoutSeconds := (if task_TimeoutSeconds task = 0 then defaultTimeoutSeconds else task_TimeoutSeconds task)\<rparr>"

definition validate_task :: "(unit, Task) act" where
  "validate_task task0 = (let task = normalize_task task0 in
     (if task_Name task = [] then Inl (err_text ''a task needs a Name'')
      else if RuneCount (task_Name task) > maxNameLength
        then Inl (ErrText ''a Name can be at most %d characters'' [Itoa (int maxNameLength)])
      else if contains_control (task_Name task) then Inl (err_text ''a Name is one line of text'')
      else if RuneCount (task_Description task) > maxDescriptionLength
        then Inl (ErrText ''a Description can be at most %d characters'' [Itoa (int maxDescriptionLength)])
      else if contains_control (task_Description task) then Inl (err_text ''a Description is one line of text'')
      else if TrimSpace (task_Command task) = [] then Inl (err_text ''a task needs a Command'')
      else if length (task_Command task) > maxCommandLength
        then Inl (ErrText ''a Command can be at most %d bytes, put longer ones in a script'' [Itoa (int maxCommandLength)])
      else if CHR 0x00 \<in> set (task_Command task) then Inl (err_text ''a Command cannot hold a NUL character'')
      else if task_TimeoutSeconds task < 0 \<or> task_TimeoutSeconds task > maxTimeoutSeconds
        then Inl (ErrText ''TimeoutSeconds goes from 1 to %d'' [Itoa maxTimeoutSeconds])
      else Inr (), task))"

fun validate_tasks_from :: "nat \<Rightarrow> string set \<Rightarrow> Task list \<Rightarrow> unit result \<times> Task list" where
  "validate_tasks_from i names [] = (Inr (), [])"
| "validate_tasks_from i names (task # tasks) =
     (case validate_task task of
        (Inl e, task') \<Rightarrow> (Inl (ErrWrap ''task %d %q: %w'' [Itoa (int i + 1), task_Name task'] e), task' # tasks)
      | (Inr _, task') \<Rightarrow>
          if task_Name task' \<in> names
          then (Inl (ErrText ''task %d: there is already a task named %q'' [Itoa (int i + 1), task_Name task']), task' # tasks)
          else (case validate_tasks_from (Suc i) (insert (task_Name task') names) tasks of (e, tasks') \<Rightarrow> (e, task' # tasks')))"

definition Validate_tasks :: "(unit, Task list) act" where
  "Validate_tasks tasks =
     (if length tasks > maxTasks then (Inl (ErrText ''a host can list at most %d tasks'' [Itoa (int maxTasks)]), tasks)
      else validate_tasks_from 0 {} tasks)"

definition Find :: "Task list \<Rightarrow> string \<Rightarrow> Task option" where
  "Find tasks name = find (\<lambda>task. task_Name task = name) tasks"

definition Parse_tasks :: "(string \<Rightarrow> Task list result) \<Rightarrow> string \<Rightarrow> Task list result" where
  "Parse_tasks decode data =
     (case decode data of
        Inl e \<Rightarrow> Inl e
      | Inr tasks \<Rightarrow> (case Validate_tasks tasks of (Inl e, _) \<Rightarrow> Inl e | (Inr _, tasks') \<Rightarrow> Inr tasks'))"

text \<open>What \<open>file.Stat\<close> says: a regular file or not, the permission bits, and the owner when known. 18 is
  octal 022, the bits that let group and others write.\<close>

record FileInfo =
  fi_Regular :: bool
  fi_Perm :: nat
  fi_Uid :: "int option"

definition checkOwner :: "int \<Rightarrow> FileInfo \<Rightarrow> unit result" where
  "checkOwner euid info =
     (if \<not> fi_Regular info then Inl (err_text ''not a regular file'')
      else if and (fi_Perm info) 18 \<noteq> 0 then Inl (err_text ''group or others can write to it, run chmod go-w on it'')
      else case fi_Uid info of
        Some uid \<Rightarrow> if uid \<noteq> 0 \<and> uid \<noteq> euid then Inl (err_text ''it has to belong to root or to the user the agent runs as'') else Inr ()
      | None \<Rightarrow> Inr ())"

text \<open>Opening a file fails because there is none, fails otherwise, or gives what \<open>Stat\<close> and reading
  it return. Reading is limited to one byte more than a tasks file may have.\<close>

datatype opened = NotExist | OpenError error | Opened "FileInfo result" "string result"

definition Load :: "(string \<Rightarrow> Task list result) \<Rightarrow> int \<Rightarrow> (string \<Rightarrow> opened) \<Rightarrow> string \<Rightarrow> Task list result" where
  "Load decode euid opener path =
     (if path = [] then Inr []
      else case opener path of
        NotExist \<Rightarrow> Inr []
      | OpenError e \<Rightarrow> Inl e
      | Opened stat content \<Rightarrow>
          (case stat of Inl e \<Rightarrow> Inl e
           | Inr info \<Rightarrow> (case checkOwner euid info of Inl e \<Rightarrow> Inl (ErrWrap ''%s: %w'' [path] e)
             | Inr _ \<Rightarrow> (case content of Inl e \<Rightarrow> Inl e
               | Inr bytes \<Rightarrow>
                   let data = take (maxFileSize + 1) bytes in
                   if length data > maxFileSize then Inl (ErrText ''%s: too big for a tasks file'' [path])
                   else (case Parse_tasks decode data of Inl e \<Rightarrow> Inl (ErrWrap ''%s: %w'' [path] e) | Inr tasks \<Rightarrow> Inr tasks)))))"

section \<open>What a valid task list is\<close>

definition valid_task :: "Task \<Rightarrow> bool" where
  "valid_task t \<longleftrightarrow> task_Name t \<noteq> [] \<and> trimmed (task_Name t) \<and> RuneCount (task_Name t) \<le> maxNameLength \<and>
     \<not> contains_control (task_Name t) \<and> trimmed (task_Description t) \<and>
     RuneCount (task_Description t) \<le> maxDescriptionLength \<and> \<not> contains_control (task_Description t) \<and>
     TrimSpace (task_Command t) \<noteq> [] \<and> length (task_Command t) \<le> maxCommandLength \<and>
     CHR 0x00 \<notin> set (task_Command t) \<and> 1 \<le> task_TimeoutSeconds t \<and> task_TimeoutSeconds t \<le> maxTimeoutSeconds"

definition valid_tasks :: "Task list \<Rightarrow> bool" where
  "valid_tasks ts \<longleftrightarrow> length ts \<le> maxTasks \<and> list_all valid_task ts \<and> distinct (map task_Name ts)"

lemma validate_task_sound: "validate_task t = (Inr (), t') \<Longrightarrow> valid_task t' \<and> t' = normalize_task t"
  by (auto simp: validate_task_def valid_task_def normalize_task_def Let_def defaultTimeoutSeconds_def
      maxTimeoutSeconds_def split: if_splits)

lemma validate_task_id:
  assumes "valid_task t"
  shows "validate_task t = (Inr (), t)"
proof -
  have "normalize_task t = t"
    using assms by (simp add: normalize_task_def valid_task_def trimmed_def)
  with assms show ?thesis
    by (simp add: validate_task_def valid_task_def Let_def)
qed

lemma validate_tasks_from_sound:
  "validate_tasks_from i names ts = (Inr (), ts') \<Longrightarrow>
     length ts' = length ts \<and> list_all valid_task ts' \<and> distinct (map task_Name ts') \<and>
     set (map task_Name ts') \<inter> names = {} \<and> map task_Command ts' = map task_Command ts"
proof (induction ts arbitrary: i names ts')
  case (Cons t ts)
  from Cons.prems obtain t' rest where v: "validate_task t = (Inr (), t')" and new: "task_Name t' \<notin> names"
    and rest: "validate_tasks_from (Suc i) (insert (task_Name t') names) ts = (Inr (), rest)" and ts': "ts' = t' # rest"
    by (auto split: prod.splits sum.splits if_splits)
  have "valid_task t'" using validate_task_sound [OF v] by blast
  moreover have "task_Command t' = task_Command t"
    using validate_task_sound [OF v] by (auto simp: normalize_task_def)
  ultimately show ?case using Cons.IH [OF rest] new by (auto simp: ts')
qed simp

lemma validate_tasks_from_id:
  "list_all valid_task ts \<Longrightarrow> distinct (map task_Name ts) \<Longrightarrow> set (map task_Name ts) \<inter> names = {} \<Longrightarrow>
     validate_tasks_from i names ts = (Inr (), ts)"
proof (induction ts arbitrary: i names)
  case (Cons t ts)
  then have "validate_tasks_from (Suc i) (insert (task_Name t) names) ts = (Inr (), ts)"
    by (intro Cons.IH) auto
  with Cons.prems show ?case by (simp add: validate_task_id)
qed simp

lemma Validate_tasks_sound: "Validate_tasks ts = (Inr (), ts') \<Longrightarrow> valid_tasks ts' \<and> map task_Command ts' = map task_Command ts"
  by (auto simp: Validate_tasks_def valid_tasks_def split: if_splits dest: validate_tasks_from_sound)

lemma Validate_tasks_id: "valid_tasks ts \<Longrightarrow> Validate_tasks ts = (Inr (), ts)"
  by (simp add: Validate_tasks_def valid_tasks_def validate_tasks_from_id)

lemma Find_Some: "Find ts n = Some t \<Longrightarrow> t \<in> set ts \<and> task_Name t = n"
  by (auto simp: Find_def dest: find_SomeD)

section \<open>Properties\<close>

text \<open>C37. Only a tasks file that nobody but root or the agent's user can write gives an agent tasks, and
  they are at most 50 valid ones with different names: whatever \<open>Load\<close> returns besides the empty list
  came from a regular file without write permission for group and others, owned by root or the
  agent's user where the owner is known, and not longer than the limit, and has the commands of the
  file exactly as they are written there.\<close>

theorem Load_trusted:
  assumes "Load decode euid opener path = Inr tasks" and "tasks \<noteq> []"
  shows "\<exists>info bytes decoded. opener path = Opened (Inr info) (Inr bytes) \<and> fi_Regular info \<and> and (fi_Perm info) 18 = 0 \<and>
     (\<forall>uid. fi_Uid info = Some uid \<longrightarrow> uid = 0 \<or> uid = euid) \<and> length bytes \<le> maxFileSize \<and>
     decode bytes = Inr decoded \<and> map task_Command tasks = map task_Command decoded \<and> valid_tasks tasks"
proof -
  from assms obtain info bytes where o: "opener path = Opened (Inr info) (Inr bytes)"
    and owner: "checkOwner euid info = Inr ()" and len: "\<not> length (take (maxFileSize + 1) bytes) > maxFileSize"
    and parse: "Parse_tasks decode (take (maxFileSize + 1) bytes) = Inr tasks"
    by (simp add: Load_def Let_def split: if_splits opened.splits sum.splits)
  from len have short: "length bytes \<le> maxFileSize" by simp
  then have "take (maxFileSize + 1) bytes = bytes" by simp
  with parse obtain decoded where d: "decode bytes = Inr decoded" and v: "Validate_tasks decoded = (Inr (), tasks)"
    by (auto simp: Parse_tasks_def split: sum.splits prod.splits)
  have "fi_Regular info \<and> and (fi_Perm info) 18 = 0 \<and> (\<forall>uid. fi_Uid info = Some uid \<longrightarrow> uid = 0 \<or> uid = euid)"
    using owner by (simp add: checkOwner_def split: if_splits option.splits)
  with o short d Validate_tasks_sound [OF v] show ?thesis by blast
qed

definition example_task :: Task where
  "example_task = \<lparr>task_Name = ''restart web'', task_Description = ''restarts the web server'',
     task_Command = ''systemctl restart nginx'', task_TimeoutSeconds = 30\<rparr>"

definition example_opener :: "string \<Rightarrow> opened" where
  "example_opener path = Opened (Inr \<lparr>fi_Regular = True, fi_Perm = 420, fi_Uid = Some 0\<rparr>) (Inr ''tasks'')"

lemma example_task_valid: "valid_task example_task"
proof -
  have "RuneCount ''restart web'' = 11" "RuneCount ''restarts the web server'' = 23" by code_simp+
  moreover have "\<not> contains_control ''restart web''" "\<not> contains_control ''restarts the web server''"
    and "TrimSpace ''restart web'' = ''restart web''" "TrimSpace ''restarts the web server'' = ''restarts the web server''"
    and "TrimSpace ''systemctl restart nginx'' \<noteq> []" by code_simp+
  ultimately show ?thesis
    by (simp add: valid_task_def example_task_def trimmed_def task_limits)
qed

theorem Load_trusted_witness:
  "Load (\<lambda>_. Inr [example_task]) 1000 example_opener ''/etc/symon/tasks.json'' = Inr [example_task] \<and> valid_tasks [example_task]"
proof -
  have "Load (\<lambda>_. Inr [example_task]) 1000 example_opener ''/etc/symon/tasks.json'' = Inr [example_task]"
    by (simp add: Load_def example_opener_def checkOwner_def Parse_tasks_def task_limits Validate_tasks_id valid_tasks_def
        example_task_valid)
  with Load_trusted [OF this] show ?thesis by blast
qed

text \<open>\<open>Validate\<close> accepts a list of tasks as it is exactly when it is valid, and what it accepts after
  trimming is valid and accepted again as it is.\<close>

theorem Validate_tasks_contract:
  "(Validate_tasks ts = (Inr (), ts) \<longleftrightarrow> valid_tasks ts) \<and>
   (fst (Validate_tasks ts) = Inr () \<longrightarrow>
      valid_tasks (snd (Validate_tasks ts)) \<and>
      Validate_tasks (snd (Validate_tasks ts)) = (Inr (), snd (Validate_tasks ts)))"
proof -
  have "valid_tasks (snd (Validate_tasks ts))" if "fst (Validate_tasks ts) = Inr ()"
    using that Validate_tasks_sound [of ts "snd (Validate_tasks ts)"] by (simp add: prod_eq_iff)
  then show ?thesis
    using Validate_tasks_sound Validate_tasks_id by blast
qed

theorem Validate_tasks_contract_witness:
  "valid_tasks (snd (Validate_tasks [example_task\<lparr>task_Name := '' a '', task_TimeoutSeconds := 0\<rparr>, example_task]))"
proof -
  let ?a = "example_task\<lparr>task_Name := '' a '', task_TimeoutSeconds := 0\<rparr>"
  have "RuneCount ''a'' = 1" "\<not> contains_control ''a''" "TrimSpace '' a '' = ''a''" by code_simp+
  then have "validate_task ?a = (Inr (), normalize_task ?a)" and "task_Name (normalize_task ?a) = ''a''"
    using example_task_valid by (simp_all add: validate_task_def normalize_task_def valid_task_def task_limits Let_def example_task_def trimmed_def)
  then have "fst (Validate_tasks [?a, example_task]) = Inr ()"
    by (simp add: Validate_tasks_def task_limits validate_task_id example_task_valid) (simp add: example_task_def)
  with Validate_tasks_contract show ?thesis by blast
qed

end
