(* ===== verification/Snapshot.thy ===== *)
theory Snapshot
  imports GoStrings
begin

text \<open>
  What an agent measures and sends: the types of internal/monitor (types.go, monitor.go, custom_metric.go) and how they are made from what systats
  reports. A uint64 is an int kept below 2^64; a float32 is only copied. Of the structs of systats, which is not part of the repository, the
  records here have the fields types.go reads, with the types it needs; a sample of a disk or a container can have more of them.
\<close>

section \<open>Unsigned numbers\<close>

definition uint64 :: "int \<Rightarrow> bool" where
  "uint64 n \<longleftrightarrow> 0 \<le> n \<and> n < 2 ^ 64"

definition wrapu64 :: "int \<Rightarrow> int" where
  "wrapu64 n = n mod 2 ^ 64"

text \<open>\<open>math.Round\<close>: halves go away from zero.\<close>

fun f_round :: "float64 \<Rightarrow> float64" where
  "f_round (Fin x) = Fin (of_int (if x < 0 then - \<lfloor>- x + 1 / 2\<rfloor> else \<lfloor>x + 1 / 2\<rfloor>))"
| "f_round x = x"

text \<open>\<open>uint64(x)\<close>. What a float out of range converts to is left to the implementation: \<open>odd_uint\<close>.\<close>

type_synonym odd_uint = "float64 \<Rightarrow> int"

definition f_to_uint :: "odd_uint \<Rightarrow> float64 \<Rightarrow> int" where
  "f_to_uint big x = (case x of Fin r \<Rightarrow> if 0 \<le> r \<and> r < 2 ^ 64 then \<lfloor>r\<rfloor> else wrapu64 (big x) | _ \<Rightarrow> wrapu64 (big x))"

definition toUint :: "odd_uint \<Rightarrow> float64 \<Rightarrow> int" where
  "toUint big v = (if f_le v (Fin 0) then 0 else f_to_uint big (f_round v))"

section \<open>The types that travel\<close>

record LoggedInUser =
  us_Username :: string
  us_RemoteHost :: string
  us_LoggedInTime :: time

record System =
  sy_HostName :: string
  sy_OS :: string
  sy_Kernel :: string
  sy_UpTime :: string
  sy_LastBootDate :: time
  sy_LoggedInUsers :: "LoggedInUser list"
  sy_Time :: int
  sy_TimeZone :: string
  sy_UpTimeSeconds :: float64

record CPU =
  cpu_LoadAvg :: int
  cpu_CoreAvg :: "int list"
  cpu_Model :: string
  cpu_NoOfCores :: int
  cpu_Freq :: string
  cpu_Cache :: string
  cpu_Time :: int
  cpu_Load1 :: float64
  cpu_Load5 :: float64
  cpu_Load15 :: float64
  cpu_PhysicalCores :: int
  cpu_Sockets :: int
  cpu_Limited :: bool
  cpu_AllocatedCores :: float64

record Memory =
  mem_PercentageUsed :: float64
  mem_Available :: int
  mem_Free :: int
  mem_Used :: int
  mem_Time :: int
  mem_Total :: int
  mem_Unit :: string
  mem_Limited :: bool

record Swap =
  sw_PercentageUsed :: float64
  sw_Free :: int
  sw_Used :: int
  sw_Time :: int
  sw_Total :: int
  sw_Unit :: string

record DiskUsage =
  du_Size :: int
  du_Used :: int
  du_Available :: int
  du_Usage :: string
  du_Unit :: string

record InodeUsage =
  iu_Inodes :: int
  iu_Available :: int
  iu_Used :: int
  iu_Usage :: string

record Disk =
  dk_FileSystem :: string
  dk_Type :: string
  dk_MountedOn :: string
  dk_Usage :: DiskUsage
  dk_Inodes :: InodeUsage
  dk_Time :: int

record NetworkUsage =
  nu_RxBytes :: int
  nu_TxBytes :: int
  nu_RxPackets :: int
  nu_TxPackets :: int
  nu_State :: string

record NetworkRates =
  nr_RxBytesPerSec :: float64
  nr_TxBytesPerSec :: float64
  nr_RxPacketsPerSec :: float64
  nr_TxPacketsPerSec :: float64

record Network =
  nw_Interface :: string
  nw_Ip :: string
  nw_Usage :: NetworkUsage
  nw_Time :: int
  nw_Ipv6 :: string
  nw_MacAddress :: string
  nw_Rates :: "NetworkRates option"

record ProcessIO =
  pio_ReadBytes :: int
  pio_WriteBytes :: int
  pio_ReadChars :: int
  pio_WriteChars :: int
  pio_Accessible :: bool

record Process =
  pr_Pid :: int
  pr_ExecPath :: string
  pr_User :: string
  pr_CPUUsage :: float64
  pr_MemUsage :: float64
  pr_Name :: string
  pr_State :: string
  pr_StateName :: string
  pr_Threads :: int
  pr_OpenFDs :: int
  pr_FDsAccessible :: bool
  pr_IO :: ProcessIO

record DiskIO =
  dio_Device :: string
  dio_ReadsPerSec :: float64
  dio_WritesPerSec :: float64
  dio_ReadBytesPerSec :: float64
  dio_WriteBytesPerSec :: float64
  dio_UtilPercent :: float64

record TCPStates =
  tcp_Established :: int
  tcp_SynSent :: int
  tcp_SynRecv :: int
  tcp_FinWait1 :: int
  tcp_FinWait2 :: int
  tcp_TimeWait :: int
  tcp_Close :: int
  tcp_CloseWait :: int
  tcp_LastAck :: int
  tcp_Listen :: int
  tcp_Closing :: int
  tcp_NewSynRecv :: int
  tcp_Unknown :: int
  tcp_Total :: int
  tcp_Time :: int

record PressureMetric =
  pm_Avg10 :: float64
  pm_Avg60 :: float64
  pm_Avg300 :: float64
  pm_Total :: int

record ResourcePressure =
  rp_Some :: PressureMetric
  rp_Full :: PressureMetric
  rp_FullAvailable :: bool

record Pressure =
  ps_CPU :: ResourcePressure
  ps_Memory :: ResourcePressure
  ps_IO :: ResourcePressure
  ps_Limited :: bool
  ps_Time :: int

record Temperature =
  te_Name :: string
  te_Label :: string
  te_Celsius :: float64
  te_High :: float64
  te_HighAvailable :: bool
  te_Critical :: float64
  te_CriticalAvailable :: bool

record ContainerCPU =
  cc_CoresUsed :: float64
  cc_PercentOfHost :: float64
  cc_PercentOfLimit :: float64
  cc_Limited :: bool
  cc_AllocatedCores :: float64
  cc_ThrottledSeconds :: float64

record ContainerMemory =
  cy_Used :: float64
  cy_Limit :: float64
  cy_Limited :: bool
  cy_PercentageUsed :: float64
  cy_OOMKills :: int

record ContainerNetwork =
  cn_RxBytes :: int
  cn_TxBytes :: int
  cn_SharesHostNetwork :: bool
  cn_Accessible :: bool

record ContainerBlockIO =
  cb_ReadBytes :: int
  cb_WriteBytes :: int

record ContainerPids =
  cp_Current :: int
  cp_Max :: int
  cp_Limited :: bool

record ContainerRates =
  cr_RxBytesPerSec :: "float64 option"
  cr_TxBytesPerSec :: "float64 option"
  cr_ReadBytesPerSec :: float64
  cr_WriteBytesPerSec :: float64
  cr_CPUThrottledSecPerSec :: float64

record Container =
  co_ID :: string
  co_ShortID :: string
  co_Name :: string
  co_Image :: string
  co_State :: string
  co_Runtime :: string
  co_ComposeProject :: string
  co_MetadataAvailable :: bool
  co_PodUID :: string
  co_Namespace :: string
  co_Pod :: string
  co_CPU :: ContainerCPU
  co_Memory :: ContainerMemory
  co_Network :: ContainerNetwork
  co_BlockIO :: ContainerBlockIO
  co_Pids :: ContainerPids
  co_Pressure :: "Pressure option"
  co_LayerSize :: "float64 option"
  co_Rates :: "ContainerRates option"
  co_Time :: int

record Processes =
  pp_CPU :: "Process list"
  pp_Memory :: "Process list"

record Service =
  sv_Name :: string
  sv_Running :: bool
  sv_Time :: string

record MonitorData =
  md_UnixTime :: string
  md_System :: System
  md_Memory :: Memory
  md_Swap :: Swap
  md_Disk :: "Disk list"
  md_ProcUsage :: CPU
  md_Networks :: "Network list"
  md_Processes :: Processes
  md_Services :: "Service list"
  md_ServerId :: string
  md_DiskIO :: "DiskIO list"
  md_TCPStates :: "TCPStates option"
  md_Pressure :: "Pressure option"
  md_Temperatures :: "Temperature list"
  md_Containers :: "Container list"
  md_AgentVersion :: string

record CustomMetric =
  cu_Name :: string
  cu_Unit :: string
  cu_Value :: string
  cu_ServerId :: string
  cu_Time :: string

end
