(* ===== verification/Database.thy ===== *)
theory Database
  imports Tasks Kube Snapshot
begin

text \<open>
  The database behind internal/store: one record per table of internal/store/migrations, a table
  being the list of its rows in the order they were inserted, and the calls pgx makes on it. Columns
  no modelled statement reads are left out. A jsonb column holds the value it encodes.

  A call to the database can fail in two ways: the statement did not run (\<open>Failed\<close>), or it ran and
  the answer was lost (\<open>Lost\<close>). \<open>db_net\<close> lists the outcomes of the calls to come; when it is used up,
  calls go through. So a theorem for every database is a theorem for every pattern of failures.
  Identity columns count up in \<open>db_seq\<close>, also when the insert is refused or taken back.
\<close>

section \<open>Tables\<close>

datatype outcome = Done | Failed string | Lost string

datatype json = JNull | JBool bool | JNum rat | JStr string | JArr "json list" | JObj "(string \<times> json) list"

datatype tbl = T_hosts | T_alerts | T_rules | T_channels | T_notifications | T_runs | T_users | T_tokens | T_clusters

record host_row =
  h_id :: int
  h_name :: string
  h_timezone :: string
  h_last_seen :: "time option"
  h_agent_version :: string
  h_agent_arch :: string
  h_update_version :: "string option"
  h_update_url :: "string option"
  h_update_requested_at :: "time option"
  h_update_error :: string
  h_tasks :: "Task list"

record alert_row =
  a_id :: int
  a_host_id :: "int option"
  a_rule :: string
  a_metric :: string
  a_target :: string
  a_severity :: int
  a_value :: "float64 option"
  a_started_at :: time
  a_updated_at :: time
  a_resolved_at :: "time option"

record rule_row =
  r_id :: int
  r_name :: string
  r_rule :: AlertConfig
  r_enabled :: bool
  r_updated_at :: time
  r_updated_by :: string

record setup_row =
  su_source :: string
  su_imported :: int

record check_row =
  ec_time :: time
  ec_name :: string
  ec_url :: string
  ec_method :: string
  ec_status_code :: "int option"
  ec_ok :: bool
  ec_latency_ms :: "float64 option"
  ec_error :: string
  ec_cert_expires_at :: "time option"

record host_metric_row =
  hm_time :: time
  hm_host_id :: int
  hm_cpu_pct :: "float64 option"
  hm_load1 :: "float64 option"
  hm_load5 :: "float64 option"
  hm_load15 :: "float64 option"
  hm_mem_used_pct :: "float64 option"
  hm_mem_used_mib :: "float64 option"
  hm_mem_available_mib :: "float64 option"
  hm_mem_total_mib :: "float64 option"
  hm_swap_used_pct :: "float64 option"
  hm_swap_used_mib :: "float64 option"
  hm_swap_total_mib :: "float64 option"
  hm_uptime_seconds :: "float64 option"
  hm_psi_cpu_some :: "float64 option"
  hm_psi_memory_some :: "float64 option"
  hm_psi_memory_full :: "float64 option"
  hm_psi_io_some :: "float64 option"
  hm_psi_io_full :: "float64 option"
  hm_tcp_established :: "float64 option"
  hm_tcp_time_wait :: "float64 option"
  hm_tcp_close_wait :: "float64 option"
  hm_tcp_listen :: "float64 option"
  hm_tcp_total :: "float64 option"

record core_row =
  cpm_time :: time
  cpm_host_id :: int
  cpm_core :: int
  cpm_pct :: "float64 option"

record disk_metric_row =
  dm_time :: time
  dm_host_id :: int
  dm_device :: string
  dm_mount :: string
  dm_fstype :: string
  dm_size_bytes :: "float64 option"
  dm_used_bytes :: "float64 option"
  dm_used_pct :: "float64 option"
  dm_inodes_used_pct :: "float64 option"

record disk_io_row =
  dio_time :: time
  dio_host_id :: int
  dio_device :: string
  dio_read_bps :: "float64 option"
  dio_write_bps :: "float64 option"
  dio_reads_ps :: "float64 option"
  dio_writes_ps :: "float64 option"
  dio_util_pct :: "float64 option"

record net_row =
  nm_time :: time
  nm_host_id :: int
  nm_iface :: string
  nm_state :: string
  nm_rx_bps :: "float64 option"
  nm_tx_bps :: "float64 option"
  nm_rx_pps :: "float64 option"
  nm_tx_pps :: "float64 option"
  nm_rx_bytes :: "float64 option"
  nm_tx_bytes :: "float64 option"

record temp_row =
  tm_time :: time
  tm_host_id :: int
  tm_sensor :: string
  tm_celsius :: "float64 option"

record container_row =
  ctm_time :: time
  ctm_host_id :: int
  ctm_container_id :: string
  ctm_name :: string
  ctm_cpu_cores :: "float64 option"
  ctm_cpu_pct :: "float64 option"
  ctm_mem_used :: "float64 option"
  ctm_mem_pct :: "float64 option"
  ctm_rx_bps :: "float64 option"
  ctm_tx_bps :: "float64 option"
  ctm_read_bps :: "float64 option"
  ctm_write_bps :: "float64 option"
  ctm_pids :: "float64 option"

record process_row =
  ps_time :: time
  ps_host_id :: int
  ps_processes :: Processes

record latest_row =
  hl_host_id :: int
  hl_time :: time
  hl_snapshot :: MonitorData

record custom_metric_row =
  cm_time :: time
  cm_host_id :: int
  cm_name :: string
  cm_unit :: string
  cm_value :: "float64 option"

record service_row =
  sv_time :: time
  sv_host_id :: int
  sv_name :: string
  sv_running :: bool

record channel_row =
  c_id :: int
  c_name :: string
  c_kind :: string
  c_settings :: json
  c_is_default :: bool
  c_skip_warnings :: bool
  c_enabled :: bool
  c_updated_at :: time
  c_updated_by :: string

record notification_row =
  n_id :: int
  n_alert_id :: int
  n_channel_id :: int
  n_event :: string
  n_severity :: int
  n_value :: float64
  n_subject :: string
  n_body :: string
  n_status :: string
  n_attempts :: int
  n_next_attempt_at :: time
  n_last_error :: string
  n_ref :: string
  n_created_at :: time
  n_sent_at :: "time option"

record run_row =
  t_id :: int
  t_host_id :: int
  t_task :: string
  t_command :: string
  t_timeout_seconds :: int
  t_status :: string
  t_requested_by :: string
  t_requested_at :: time
  t_started_at :: "time option"
  t_finished_at :: "time option"
  t_exit_code :: "int option"
  t_error :: string
  t_output :: string
  t_truncated :: bool

record user_row =
  u_id :: int
  u_name :: string
  u_password_hash :: string
  u_salt :: string
  u_iterations :: int
  u_role :: string
  u_created_at :: time
  u_last_login_at :: "time option"

record session_row =
  s_token_hash :: string
  s_user_id :: int
  s_expires_at :: time

record token_row =
  k_id :: int
  k_token_hash :: string
  k_host_name :: "string option"
  k_uses_left :: int
  k_expires_at :: time

record credential_row =
  cr_host_id :: int
  cr_secret_hash :: string

record cluster_row =
  kc_id :: int
  kc_name :: string
  kc_host_id :: "int option"
  kc_state :: ClusterState
  kc_error :: string
  kc_reported_at :: time

record restart_row =
  kr_time :: time
  kr_cluster_id :: int
  kr_restart :: Restart

record kube_metric_row =
  km_time :: time
  km_cluster_id :: int
  km_counts :: Counts
  km_restarts :: int

record tables =
  db_hosts :: "host_row list"
  db_alerts :: "alert_row list"
  db_rules :: "rule_row list"
  db_setup :: "setup_row list"
  db_checks :: "check_row list"
  db_host_metrics :: "host_metric_row list"
  db_disk_metrics :: "disk_metric_row list"
  db_disk_hourly :: "disk_metric_row list"
  db_cores :: "core_row list"
  db_disk_io :: "disk_io_row list"
  db_net_metrics :: "net_row list"
  db_temps :: "temp_row list"
  db_containers :: "container_row list"
  db_processes :: "process_row list"
  db_latest :: "latest_row list"
  db_custom_metrics :: "custom_metric_row list"
  db_services :: "service_row list"
  db_channels :: "channel_row list"
  db_notifications :: "notification_row list"
  db_runs :: "run_row list"
  db_users :: "user_row list"
  db_sessions :: "session_row list"
  db_tokens :: "token_row list"
  db_credentials :: "credential_row list"
  db_clusters :: "cluster_row list"
  db_restarts :: "restart_row list"
  db_kube_metrics :: "kube_metric_row list"

definition no_rows :: tables where
  "no_rows = \<lparr>db_hosts = [], db_alerts = [], db_rules = [], db_setup = [],
     db_checks = [], db_host_metrics = [], db_disk_metrics = [], db_disk_hourly = [],
     db_cores = [], db_disk_io = [], db_net_metrics = [], db_temps = [], db_containers = [], db_processes = [], db_latest = [], db_custom_metrics = [],
     db_services = [], db_channels = [], db_notifications = [], db_runs = [], db_users = [], db_sessions = [],
     db_tokens = [], db_credentials = [], db_clusters = [], db_restarts = [], db_kube_metrics = []\<rparr>"

record db =
  db_net :: "outcome list"
  db_seq :: "tbl \<Rightarrow> int"
  tabs :: tables

definition empty_db :: db where
  "empty_db = \<lparr>db_net = [], db_seq = (\<lambda>_. 0), tabs = no_rows\<rparr>"

section \<open>Calls and transactions\<close>

definition set_net :: "outcome list \<Rightarrow> db \<Rightarrow> db" where
  "set_net n s = s\<lparr>db_net := n\<rparr>"

definition dbcall :: "('a, db) act \<Rightarrow> ('a, db) act" where
  "dbcall f s = (case db_net s of
     [] \<Rightarrow> f s
   | Done # rest \<Rightarrow> f (set_net rest s)
   | Failed m # rest \<Rightarrow> (Inl (ErrDB m), set_net rest s)
   | Lost m # rest \<Rightarrow> (Inl (ErrDB m), snd (f (set_net rest s))))"

text \<open>
  A statement that only reads; one that changes the tables and reports something on them, like the
  number of rows it touched; and an INSERT into a table with an identity column, which gets the next
  number and can be refused by a constraint.
\<close>

definition query :: "(tables \<Rightarrow> 'a) \<Rightarrow> ('a, db) act" where
  "query f = dbcall (\<lambda>s. (Inr (f (tabs s)), s))"

definition exec :: "(tables \<Rightarrow> 'a \<times> tables) \<Rightarrow> ('a, db) act" where
  "exec f = dbcall (\<lambda>s. (Inr (fst (f (tabs s))), s\<lparr>tabs := snd (f (tabs s))\<rparr>))"

definition insert_into :: "tbl \<Rightarrow> (int \<Rightarrow> tables \<Rightarrow> 'a result \<times> tables) \<Rightarrow> ('a, db) act" where
  "insert_into t f = dbcall (\<lambda>s. let i = db_seq s t + 1; (r, tabs') = f i (tabs s)
     in (r, s\<lparr>db_seq := (db_seq s)(t := i), tabs := tabs'\<rparr>))"

text \<open>
  \<open>pool.Begin\<close>, the body, and \<open>tx.Commit\<close> when the body asks for it with \<open>Inr\<close>. The deferred
  \<open>tx.Rollback\<close> takes the tables back when the body returns early, and when the commit does not go
  through. A commit whose answer is lost has happened.
\<close>

definition in_tx :: "('a, db) act \<Rightarrow> ('a, db) act" where
  "in_tx body = bindE (query (\<lambda>_. ())) (\<lambda>_ s. case body s of
     (Inl e, s') \<Rightarrow> (Inl e, s'\<lparr>tabs := tabs s\<rparr>)
   | (Inr a, s') \<Rightarrow> (case db_net s' of
        [] \<Rightarrow> (Inr a, s')
      | Done # rest \<Rightarrow> (Inr a, set_net rest s')
      | Failed m # rest \<Rightarrow> (Inl (ErrDB m), set_net rest (s'\<lparr>tabs := tabs s\<rparr>))
      | Lost m # rest \<Rightarrow> (Inl (ErrDB m), set_net rest s')))"

text \<open>A timestamptz column keeps microseconds.\<close>

definition timestamptz :: "time \<Rightarrow> time" where
  "timestamptz t = t div 1000 * 1000"

text \<open>\<open>ORDER BY time DESC LIMIT 1\<close>. SQL leaves open which of several newest rows it is; here it is the
  first one inserted.\<close>

definition newest :: "('r \<Rightarrow> time) \<Rightarrow> 'r list \<Rightarrow> 'r option" where
  "newest tm rows = (case sort_key (\<lambda>r. - tm r) rows of [] \<Rightarrow> None | r # _ \<Rightarrow> Some r)"

section \<open>How a call can end\<close>

lemma net_record [simp]: "tabs (set_net n s) = tabs s" "db_seq (set_net n s) = db_seq s" "db_net (set_net n s) = n"
  by (simp_all add: set_net_def)

lemma dbcall_cases:
  assumes "dbcall f s = (r, s')"
  obtains (ok) n where "f (set_net n s) = (r, s')"
    | (failed) n m where "r = Inl (ErrDB m)" "s' = set_net n s"
    | (lost) n m where "r = Inl (ErrDB m)" "s' = snd (f (set_net n s))"
proof -
  have s: "set_net (db_net s) s = s" by (simp add: set_net_def)
  show thesis
  proof (cases "db_net s")
    case Nil
    with s have "set_net [] s = s" by simp
    moreover have "f s = (r, s')" using Nil assms by (simp add: dbcall_def)
    ultimately show thesis by (intro ok [of "[]"]) simp
  next
    case (Cons oc rest)
    with assms show thesis
      by (cases oc) (auto simp: dbcall_def intro: ok failed lost)
  qed
qed

lemma query_cases:
  assumes "query f s = (r, s')"
  obtains (ok) "r = Inr (f (tabs s))" "tabs s' = tabs s" "db_seq s' = db_seq s"
    | (err) m where "r = Inl (ErrDB m)" "tabs s' = tabs s" "db_seq s' = db_seq s"
  using assms unfolding query_def by (rule dbcall_cases) auto

lemma exec_cases:
  assumes "exec f s = (r, s')"
  obtains (ok) "r = Inr (fst (f (tabs s)))" "tabs s' = snd (f (tabs s))" "db_seq s' = db_seq s"
    | (err) m where "r = Inl (ErrDB m)" "tabs s' = tabs s \<or> tabs s' = snd (f (tabs s))" "db_seq s' = db_seq s"
  using assms unfolding exec_def by (rule dbcall_cases) auto

lemma insert_into_cases:
  assumes "insert_into t f s = (r, s')"
  obtains (ok) "r = fst (f (db_seq s t + 1) (tabs s))" "tabs s' = snd (f (db_seq s t + 1) (tabs s))"
      "db_seq s' = (db_seq s)(t := db_seq s t + 1)"
    | (failed) m where "r = Inl (ErrDB m)" "tabs s' = tabs s" "db_seq s' = db_seq s"
    | (lost) m where "r = Inl (ErrDB m)" "tabs s' = snd (f (db_seq s t + 1) (tabs s))"
      "db_seq s' = (db_seq s)(t := db_seq s t + 1)"
  using assms unfolding insert_into_def by (rule dbcall_cases) (auto simp: Let_def split: prod.splits)

text \<open>A transaction either ends with what its body did, or leaves the tables as they were.\<close>

lemma in_tx_cases:
  assumes "in_tx body s = (r, s')"
  obtains (begin_err) m where "r = Inl (ErrDB m)" "tabs s' = tabs s" "db_seq s' = db_seq s"
    | (body_err) e s1 s2 where "tabs s1 = tabs s" "db_seq s1 = db_seq s" "body s1 = (Inl e, s2)" "r = Inl e"
        "tabs s' = tabs s" "db_seq s' = db_seq s2"
    | (ok) a s1 s2 where "tabs s1 = tabs s" "db_seq s1 = db_seq s" "body s1 = (Inr a, s2)" "r = Inr a"
        "tabs s' = tabs s2" "db_seq s' = db_seq s2"
    | (commit_failed) a m s1 s2 where "tabs s1 = tabs s" "db_seq s1 = db_seq s" "body s1 = (Inr a, s2)" "r = Inl (ErrDB m)"
        "tabs s' = tabs s" "db_seq s' = db_seq s2"
    | (commit_lost) a m s1 s2 where "tabs s1 = tabs s" "db_seq s1 = db_seq s" "body s1 = (Inr a, s2)" "r = Inl (ErrDB m)"
        "tabs s' = tabs s2" "db_seq s' = db_seq s2"
proof -
  from assms show thesis
    unfolding in_tx_def
  proof (cases rule: bindE_cases)
    case (err e)
    then show thesis by (auto elim: query_cases intro: begin_err)
  next
    case (ok a s1)
    then have s1: "tabs s1 = tabs s" "db_seq s1 = db_seq s" by (auto elim: query_cases)
    obtain r2 s2 where b: "body s1 = (r2, s2)" by (cases "body s1")
    show thesis
    proof (cases r2)
      case (Inl e)
      with b ok(2) have "r = Inl e" "tabs s' = tabs s" "db_seq s' = db_seq s2" by (auto simp: s1)
      with b Inl s1 show thesis by (intro body_err [of s1 e s2]) auto
    next
      case (Inr a')
      note c = ok(2) [simplified b Inr prod.case sum.case]
      show thesis
      proof (cases "db_net s2")
        case Nil
        with c b Inr s1 show thesis by (intro that(3) [of s1 a' s2]) auto
      next
        case (Cons oc rest)
        show thesis
        proof (cases oc)
          case Done
          with Cons c b Inr s1 show thesis by (intro that(3) [of s1 a' s2]) auto
        next
          case (Failed m)
          with Cons c b Inr s1 show thesis by (intro commit_failed [of s1 a' s2]) auto
        next
          case (Lost m)
          with Cons c b Inr s1 show thesis by (intro commit_lost [of s1 a' s2]) auto
        qed
      qed
    qed
  qed
qed

section \<open>What calls keep\<close>

text \<open>Invariants are about the tables and the counters; which calls will fail does not matter to them.\<close>

definition tab_inv :: "(tables \<Rightarrow> (tbl \<Rightarrow> int) \<Rightarrow> bool) \<Rightarrow> db \<Rightarrow> bool" where
  "tab_inv I s \<longleftrightarrow> I (tabs s) (db_seq s)"

lemma keeps_query [intro]: "keeps (tab_inv I) (query f)"
proof (rule keepsI)
  fix s assume "tab_inv I s"
  then show "tab_inv I (snd (query f s))"
    by (cases rule: query_cases [OF surjective_pairing [of "query f s"]]) (auto simp: tab_inv_def)
qed

lemma keeps_exec:
  assumes "\<And>t q. I t q \<Longrightarrow> I (snd (f t)) q"
  shows "keeps (tab_inv I) (exec f)"
proof (rule keepsI)
  fix s assume "tab_inv I s"
  with assms show "tab_inv I (snd (exec f s))"
    by (cases rule: exec_cases [OF surjective_pairing [of "exec f s"]]) (auto simp: tab_inv_def)
qed

lemma keeps_insert_into:
  assumes "\<And>t q. I t q \<Longrightarrow> I (snd (f (q k + 1) t)) (q(k := q k + 1))"
  shows "keeps (tab_inv I) (insert_into k f)"
proof (rule keepsI)
  fix s assume "tab_inv I s"
  with assms show "tab_inv I (snd (insert_into k f s))"
    by (cases rule: insert_into_cases [OF surjective_pairing [of "insert_into k f s"]]) (auto simp: tab_inv_def)
qed

lemma keeps_dbcall:
  assumes "keeps (tab_inv I) f"
  shows "keeps (tab_inv I) (dbcall f)"
proof (rule keepsI)
  fix s assume I: "tab_inv I s"
  have net: "tab_inv I (set_net n s)" for n using I by (simp add: tab_inv_def)
  from surjective_pairing [of "dbcall f s"] show "tab_inv I (snd (dbcall f s))"
  proof (cases rule: dbcall_cases)
    case (ok n)
    with keepsD [OF assms net] show ?thesis by blast
  next
    case (lost n m)
    with keepsD [OF assms net surjective_pairing] show ?thesis by metis
  qed (metis net)
qed

text \<open>A rollback keeps the counters where they are, so an invariant has to survive counters moving on.\<close>

lemma keeps_in_tx:
  assumes body: "keeps (tab_inv I) m"
    and mono: "\<And>t q q'. I t q \<Longrightarrow> (\<And>k. q k \<le> q' k) \<Longrightarrow> I t q'"
    and seq: "\<And>s k. db_seq s k \<le> db_seq (snd (m s)) k"
  shows "keeps (tab_inv I) (in_tx m)"
proof (rule keepsI)
  fix s assume I: "tab_inv I s"
  have ok: "I (tabs s2) (db_seq s2)" if "m s1 = (r, s2)" "tabs s1 = tabs s" "db_seq s1 = db_seq s" for r s1 s2
    using keepsD [OF body _ that(1)] I that(2,3) by (simp add: tab_inv_def)
  have undone: "I (tabs s) (db_seq s2)" if "m s1 = (r, s2)" "db_seq s1 = db_seq s" for r s1 s2
    using I mono [of "tabs s" "db_seq s" "db_seq s2"] seq [of s1] that by (simp add: tab_inv_def)
  show "tab_inv I (snd (in_tx m s))"
    by (cases rule: in_tx_cases [OF surjective_pairing [of "in_tx m s"]])
      (use I ok undone in \<open>auto simp: tab_inv_def\<close>)
qed

section \<open>What the store hands out\<close>

text \<open>The structs of internal/store that its callers see: alerts, endpoint checks and clusters.\<close>

record Alert =
  al_ID :: int
  al_Host :: string
  al_Rule :: string
  al_Metric :: string
  al_Target :: string
  al_Severity :: int
  al_Value :: float64
  al_StartedAt :: time
  al_UpdatedAt :: time
  al_ResolvedAt :: "time option"

record AlertFilter =
  af_Host :: string
  af_Rule :: string
  af_OpenOnly :: bool
  af_From :: time
  af_To :: time

record EndpointCheck =
  ck_Time :: time
  ck_Name :: string
  ck_URL :: string
  ck_Method :: string
  ck_StatusCode :: int
  ck_OK :: bool
  ck_Latency :: duration
  ck_Error :: string
  ck_CertExpires :: time

record Cluster =
  cl_Name :: string
  cl_Host :: string
  cl_ReportedAt :: time
  cl_Error :: string
  cl_State :: ClusterState

definition Stale :: "Cluster \<Rightarrow> time \<Rightarrow> bool" where
  "Stale c now \<longleftrightarrow> time_sub now (time_Unix (cs_Time (cl_State c))) > StaleAfter"

end
