(* ===== verification/StoreHosts.thy ===== *)
theory StoreHosts
  imports Database
begin

text \<open>
  Registered hosts and their agents: internal/store/hosts.go, agents.go and enrollment.go. The clock of
  the database, random secrets and SHA-256 are arguments (\<open>now\<close>, \<open>secret\<close>, \<open>hash\<close>). Removing a host
  removes what refers to it, as the foreign keys of the schema say.
\<close>

section \<open>Hosts\<close>

record Host =
  ho_ID :: int
  ho_Name :: string
  ho_Timezone :: string
  ho_LastSeen :: time

definition new_host :: "int \<Rightarrow> string \<Rightarrow> string \<Rightarrow> host_row" where
  "new_host i name timezone = \<lparr>h_id = i, h_name = name, h_timezone = timezone, h_last_seen = None, h_agent_version = [],
     h_agent_arch = [], h_update_version = None, h_update_url = None, h_update_requested_at = None, h_update_error = [],
     h_tasks = []\<rparr>"

definition host_named :: "tables \<Rightarrow> string \<Rightarrow> host_row option" where
  "host_named t name = find (\<lambda>h. h_name h = name) (db_hosts t)"

text \<open>\<open>INSERT ... ON CONFLICT (name) DO NOTHING\<close>; the row count says whether there was a conflict.\<close>

definition AddHost :: "string \<Rightarrow> string \<Rightarrow> (unit, db) act" where
  "AddHost name timezone =
     bindE (insert_into T_hosts (\<lambda>i t. case host_named t name of
          Some _ \<Rightarrow> (Inr (0 :: int), t)
        | None \<Rightarrow> (Inr 1, t\<lparr>db_hosts := db_hosts t @ [new_host i name timezone]\<rparr>))) (\<lambda>n.
     if n = 0 then fail ErrHostExists else ret ())"

text \<open>\<open>ON DELETE CASCADE\<close> and \<open>ON DELETE SET NULL\<close> of the tables that refer to hosts and alerts.\<close>

definition delete_alerts :: "(alert_row \<Rightarrow> bool) \<Rightarrow> tables \<Rightarrow> tables" where
  "delete_alerts P t =
     (let gone = map a_id (filter P (db_alerts t)) in
      t\<lparr>db_alerts := delete_where P (db_alerts t),
        db_notifications := delete_where (\<lambda>n. n_alert_id n \<in> set gone) (db_notifications t)\<rparr>)"

definition delete_hosts :: "(host_row \<Rightarrow> bool) \<Rightarrow> tables \<Rightarrow> tables" where
  "delete_hosts P t =
     (let gone = map h_id (filter P (db_hosts t));
          t' = delete_alerts (\<lambda>a. \<exists>i \<in> set gone. a_host_id a = Some i) t
      in t'\<lparr>db_hosts := delete_where P (db_hosts t'),
        db_runs := delete_where (\<lambda>r. t_host_id r \<in> set gone) (db_runs t'),
        db_credentials := delete_where (\<lambda>c. cr_host_id c \<in> set gone) (db_credentials t'),
        db_latest := delete_where (\<lambda>l. hl_host_id l \<in> set gone) (db_latest t'),
        db_clusters := update_where (\<lambda>c. \<exists>i \<in> set gone. kc_host_id c = Some i) (\<lambda>c. c\<lparr>kc_host_id := None\<rparr>) (db_clusters t')\<rparr>)"

definition RemoveHost :: "string \<Rightarrow> (unit, db) act" where
  "RemoveHost name =
     bindE (exec (\<lambda>t. (rows_affected (\<lambda>h. h_name h = name) (db_hosts t), delete_hosts (\<lambda>h. h_name h = name) t))) (\<lambda>n.
     if n = 0 then fail ErrNotFound else ret ())"

text \<open>A timestamptz that is NULL leaves Go's zero time in place. Text is ordered by its bytes here.\<close>

definition time_or_zero :: "time option \<Rightarrow> time" where
  "time_or_zero t = (case t of None \<Rightarrow> zero_time | Some x \<Rightarrow> x)"

definition host_of_row :: "host_row \<Rightarrow> Host" where
  "host_of_row h = \<lparr>ho_ID = h_id h, ho_Name = h_name h, ho_Timezone = h_timezone h, ho_LastSeen = time_or_zero (h_last_seen h)\<rparr>"

definition Hosts :: "(Host list, db) act" where
  "Hosts = query (\<lambda>t. map host_of_row (sort_key h_name (db_hosts t)))"

definition hostID :: "string \<Rightarrow> (int, db) act" where
  "hostID name = bindE (query (\<lambda>t. host_named t name)) (\<lambda>h. case h of None \<Rightarrow> fail ErrNotFound | Some h \<Rightarrow> ret (h_id h))"

text \<open>\<open>greatest(last_seen, $2)\<close> ignores a NULL.\<close>

definition greatest :: "time option \<Rightarrow> time \<Rightarrow> time option" where
  "greatest old t = Some (case old of None \<Rightarrow> t | Some u \<Rightarrow> max u t)"

definition Heartbeat :: "string \<Rightarrow> time \<Rightarrow> (unit, db) act" where
  "Heartbeat name t =
     bindE (exec (\<lambda>tb. (rows_affected (\<lambda>h. h_name h = name) (db_hosts tb),
       tb\<lparr>db_hosts := update_where (\<lambda>h. h_name h = name) (\<lambda>h. h\<lparr>h_last_seen := greatest (h_last_seen h) (timestamptz t)\<rparr>) (db_hosts tb)\<rparr>))) (\<lambda>n.
     if n = 0 then fail ErrNotFound else ret ())"

definition LastSeen :: "string \<Rightarrow> (time, db) act" where
  "LastSeen name =
     bindE (query (\<lambda>t. host_named t name)) (\<lambda>h. case h of None \<Rightarrow> fail ErrNotFound | Some h \<Rightarrow> ret (time_or_zero (h_last_seen h)))"

section \<open>Agents\<close>

record AgentUpdate =
  au_Version :: string
  au_URL :: string
  au_RequestedAt :: time

text \<open>The SET expressions all see the row as it was.\<close>

definition check_in :: "time \<Rightarrow> string \<Rightarrow> string \<Rightarrow> string \<Rightarrow> host_row \<Rightarrow> host_row" where
  "check_in t agentVersion arch updateError h =
     (let installed = (h_update_version h = Some agentVersion) in
      h\<lparr>h_last_seen := greatest (h_last_seen h) (timestamptz t),
        h_agent_version := (if agentVersion = [] then h_agent_version h else agentVersion),
        h_agent_arch := (if arch = [] then h_agent_arch h else arch),
        h_update_error := (if installed then [] else updateError),
        h_update_url := (if installed then None else h_update_url h),
        h_update_requested_at := (if installed then None else h_update_requested_at h),
        h_update_version := (if installed then None else h_update_version h)\<rparr>)"

text \<open>Following a nil URL would be a panic; \<open>hosts_ok\<close> below rules it out.\<close>

definition nil_panic :: error where
  "nil_panic = ErrText ''runtime error: invalid memory address or nil pointer dereference'' []"

definition AgentCheckIn :: "string \<Rightarrow> time \<Rightarrow> string \<Rightarrow> string \<Rightarrow> string \<Rightarrow> (AgentUpdate option, db) act" where
  "AgentCheckIn host t agentVersion arch updateError =
     bindE (exec (\<lambda>tb. (map_option (check_in t agentVersion arch updateError) (host_named tb host),
       tb\<lparr>db_hosts := update_where (\<lambda>h. h_name h = host) (check_in t agentVersion arch updateError) (db_hosts tb)\<rparr>))) (\<lambda>row.
     case row of
       None \<Rightarrow> fail ErrNotFound
     | Some h \<Rightarrow> (case h_update_version h of
         None \<Rightarrow> ret None
       | Some version \<Rightarrow> (case h_update_url h of
           None \<Rightarrow> fail nil_panic
         | Some url \<Rightarrow> ret (Some \<lparr>au_Version = version, au_URL = url, au_RequestedAt = time_or_zero (h_update_requested_at h)\<rparr>))))"

definition RequestAgentUpdate :: "time \<Rightarrow> string list \<Rightarrow> string \<Rightarrow> string \<Rightarrow> (int, db) act" where
  "RequestAgentUpdate now hosts version url =
     (let asked = (\<lambda>h. h_name h \<in> set hosts \<and> h_agent_arch h \<noteq> [] \<and> h_agent_version h \<noteq> version) in
      exec (\<lambda>t. (rows_affected asked (db_hosts t),
        t\<lparr>db_hosts := update_where asked (\<lambda>h. h\<lparr>h_update_version := Some version, h_update_url := Some url,
          h_update_requested_at := Some (timestamptz now), h_update_error := []\<rparr>) (db_hosts t)\<rparr>)))"

section \<open>Enrollment\<close>

type_synonym hash = "string \<Rightarrow> string"

text \<open>\<open>newSecret\<close> fails or gives the token.\<close>

definition CreateEnrollmentToken ::
  "hash \<Rightarrow> string result \<Rightarrow> time \<Rightarrow> string \<Rightarrow> int \<Rightarrow> duration \<Rightarrow> (string \<times> time, db) act" where
  "CreateEnrollmentToken hash secret now hostName uses ttl =
     (if uses < 1 \<or> ttl \<le> 0 then fail (ErrWrap ''%w: uses must be at least 1 and ttl positive'' [] ErrInvalid)
      else case secret of Inl e \<Rightarrow> fail e
      | Inr token \<Rightarrow>
          bindE (insert_into T_tokens (\<lambda>i t.
            if \<exists>k \<in> set (db_tokens t). k_token_hash k = hash token then (Inl ErrUnique, t)
            else (Inr (), t\<lparr>db_tokens := db_tokens t @ [\<lparr>k_id = i, k_token_hash = hash token,
              k_host_name = (if hostName = [] then None else Some hostName), k_uses_left = uses,
              k_expires_at = timestamptz (now + ttl)\<rparr>]\<rparr>))) (\<lambda>_.
          ret (token, now + ttl)))"

definition usable_token :: "time \<Rightarrow> string \<Rightarrow> token_row \<Rightarrow> bool" where
  "usable_token now h k \<longleftrightarrow> k_token_hash k = h \<and> k_uses_left k > 0 \<and> k_expires_at k > now"

text \<open>The batch: the host's credential, new or replaced, and one use of the token.\<close>

definition take_token :: "int \<Rightarrow> string \<Rightarrow> int \<Rightarrow> tables \<Rightarrow> tables" where
  "take_token host secretHash token t =
     t\<lparr>db_credentials := (if \<exists>c \<in> set (db_credentials t). cr_host_id c = host
          then update_where (\<lambda>c. cr_host_id c = host) (\<lambda>c. c\<lparr>cr_secret_hash := secretHash\<rparr>) (db_credentials t)
          else db_credentials t @ [\<lparr>cr_host_id = host, cr_secret_hash = secretHash\<rparr>]),
       db_tokens := update_where (\<lambda>k. k_id k = token) (\<lambda>k. k\<lparr>k_uses_left := k_uses_left k - 1\<rparr>) (db_tokens t)\<rparr>"

definition Enroll_tx :: "hash \<Rightarrow> string \<Rightarrow> time \<Rightarrow> string \<Rightarrow> string \<Rightarrow> string \<Rightarrow> (string, db) act" where
  "Enroll_tx hash secret now token hostName timezone =
     bindE (query (\<lambda>t. find (usable_token now (hash token)) (db_tokens t))) (\<lambda>row.
     case row of
       None \<Rightarrow> fail ErrBadToken
     | Some k \<Rightarrow>
         if k_host_name k \<noteq> None \<and> k_host_name k \<noteq> Some hostName then fail ErrBadToken
         else bindE (insert_into T_hosts (\<lambda>i t. case host_named t hostName of
              Some h \<Rightarrow> (Inr (h_id h), t\<lparr>db_hosts := update_where (\<lambda>h. h_name h = hostName) (\<lambda>h. h\<lparr>h_timezone := timezone\<rparr>) (db_hosts t)\<rparr>)
            | None \<Rightarrow> (Inr i, t\<lparr>db_hosts := db_hosts t @ [new_host i hostName timezone]\<rparr>))) (\<lambda>hid.
         bindE (dbcall (\<lambda>s.
            if \<exists>c \<in> set (db_credentials (tabs s)). cr_secret_hash c = hash secret \<and> cr_host_id c \<noteq> hid then (Inl ErrUnique, s)
            else (Inr (), s\<lparr>tabs := take_token hid (hash secret) (k_id k) (tabs s)\<rparr>))) (\<lambda>_.
         ret secret)))"

definition Enroll :: "hash \<Rightarrow> string result \<Rightarrow> time \<Rightarrow> string \<Rightarrow> string \<Rightarrow> string \<Rightarrow> (string, db) act" where
  "Enroll hash secret now token hostName timezone =
     (if hostName = [] then fail (ErrWrap ''%w: host name is required'' [] ErrInvalid)
      else case secret of Inl e \<Rightarrow> fail e
      | Inr sec \<Rightarrow> in_tx (Enroll_tx hash sec now token hostName timezone))"

definition HostForCredential :: "hash \<Rightarrow> string \<Rightarrow> (string, db) act" where
  "HostForCredential hash secret =
     bindE (query (\<lambda>t. case find (\<lambda>c. cr_secret_hash c = hash secret) (db_credentials t) of
         None \<Rightarrow> None
       | Some c \<Rightarrow> map_option h_name (find (\<lambda>h. h_id h = cr_host_id c) (db_hosts t)))) (\<lambda>name.
     case name of None \<Rightarrow> fail ErrNotFound | Some n \<Rightarrow> ret n)"

definition PurgeEnrollmentTokens :: "time \<Rightarrow> (int, db) act" where
  "PurgeEnrollmentTokens now =
     (let gone = (\<lambda>k. k_uses_left k \<le> 0 \<or> k_expires_at k < now) in
      exec (\<lambda>t. (rows_affected gone (db_tokens t), t\<lparr>db_tokens := delete_where gone (db_tokens t)\<rparr>)))"

end
