(* ===== verification/StoreEndpoints.thy ===== *)
theory StoreEndpoints
  imports StoreHosts "HOL-Library.Product_Lexorder"
begin

text \<open>
  Endpoint checks and disk forecasts in the database: internal/store/endpoints.go (its lists and charts are in FleetApi) and
  forecast.go. The regression aggregates of PostgreSQL are arguments.
\<close>

section \<open>Endpoint checks\<close>

definition Millisecond :: duration where
  "Millisecond = 1000000"

definition SaveEndpointCheck :: "EndpointCheck \<Rightarrow> (unit, db) act" where
  "SaveEndpointCheck check =
     (let answered = (ck_StatusCode check \<noteq> 0) in
      exec (\<lambda>t. ((), t\<lparr>db_checks := db_checks t @ [\<lparr>ec_time = timestamptz (ck_Time check), ec_name = ck_Name check,
        ec_url = ck_URL check, ec_method = ck_Method check, ec_status_code = (if answered then Some (ck_StatusCode check) else None),
        ec_ok = ck_OK check,
        ec_latency_ms = (if answered then Some (f_div (f_of_int (ck_Latency check)) (f_of_int Millisecond)) else None),
        ec_error = ck_Error check,
        ec_cert_expires_at = (if ck_CertExpires check = zero_time then None else Some (timestamptz (ck_CertExpires check)))\<rparr>]\<rparr>)))"

definition check_of_row :: "check_row \<Rightarrow> EndpointCheck" where
  "check_of_row c = \<lparr>ck_Time = ec_time c, ck_Name = ec_name c, ck_URL = ec_url c, ck_Method = ec_method c,
     ck_StatusCode = (case ec_status_code c of None \<Rightarrow> 0 | Some code \<Rightarrow> code), ck_OK = ec_ok c,
     ck_Latency = (case ec_latency_ms c of None \<Rightarrow> 0 | Some ms \<Rightarrow> f_to_int (f_mul ms (f_of_int Millisecond))),
     ck_Error = ec_error c, ck_CertExpires = time_or_zero (ec_cert_expires_at c)\<rparr>"

definition LatestEndpointCheck :: "string \<Rightarrow> (EndpointCheck, db) act" where
  "LatestEndpointCheck name =
     bindE (query (\<lambda>t. newest ec_time (filter (\<lambda>c. ec_name c = name) (db_checks t)))) (\<lambda>c.
     case c of None \<Rightarrow> fail ErrNotFound | Some c \<Rightarrow> ret (check_of_row c))"

definition LatestCertificate :: "string \<Rightarrow> (time \<times> time, db) act" where
  "LatestCertificate name =
     bindE (query (\<lambda>t. newest ec_time (filter (\<lambda>c. ec_name c = name \<and> ec_cert_expires_at c \<noteq> None) (db_checks t)))) (\<lambda>c.
     case c of None \<Rightarrow> fail ErrNotFound | Some c \<Rightarrow> ret (time_or_zero (ec_cert_expires_at c), ec_time c))"

section \<open>Forecasts\<close>

definition forecastWindow :: duration where
  "forecastWindow = 7 * 24 * Hour"

definition forecastMinSamples :: int where
  "forecastMinSamples = 24"

definition forecastMinR2 :: float64 where
  "forecastMinR2 = rnd (3 / 5)"

definition forecastHorizonDays :: int where
  "forecastHorizonDays = 365"

definition NoForecastCollecting :: string where "NoForecastCollecting = ''collecting''"
definition NoForecastNotGrowing :: string where "NoForecastNotGrowing = ''not_growing''"
definition NoForecastNotSteady :: string where "NoForecastNotSteady = ''not_steady''"
definition NoForecastOverAYear :: string where "NoForecastOverAYear = ''over_a_year''"

lemmas no_forecast_defs = NoForecastCollecting_def NoForecastNotGrowing_def NoForecastNotSteady_def NoForecastOverAYear_def

record DiskForecast =
  df_Host :: string
  df_Device :: string
  df_Mount :: string
  df_UsedPct :: float64
  df_PctPerDay :: float64
  df_BytesPerDay :: float64
  df_DaysToFull :: "float64 option"
  df_NoForecast :: string
  df_Samples :: int

definition forecastDays :: "float64 \<Rightarrow> float64 \<Rightarrow> float64 \<Rightarrow> float64 \<Rightarrow> int \<Rightarrow> float64 \<times> string" where
  "forecastDays usedPct usedBytes bytesPerDay r2 samples =
     (if samples < forecastMinSamples then (Fin 0, NoForecastCollecting)
      else if f_le bytesPerDay (Fin 0) \<or> f_le usedPct (Fin 0) then (Fin 0, NoForecastNotGrowing)
      else if f_lt r2 forecastMinR2 then (Fin 0, NoForecastNotSteady)
      else
        let left = f_max (f_div (f_mul usedBytes (f_sub (Fin 100) usedPct)) usedPct) (Fin 0);
            days = f_div left bytesPerDay
        in if f_lt (f_of_int forecastHorizonDays) days then (Fin 0, NoForecastOverAYear) else (days, []))"

definition valueOrZero :: "float64 option \<Rightarrow> float64" where
  "valueOrZero v = (case v of None \<Rightarrow> Fin 0 | Some x \<Rightarrow> x)"

text \<open>What the query returns for one disk: host, device, mount, the last percent and bytes, slope, r2 and the
  number of samples.\<close>

type_synonym disk_fit = "string \<times> string \<times> string \<times> float64 option \<times> float64 option \<times> float64 option \<times> float64 option \<times> int"

definition forecast_of_fit :: "disk_fit \<Rightarrow> DiskForecast" where
  "forecast_of_fit fit =
     (let (host, device, mount, usedPct, usedBytes, slope, r2, samples) = fit;
          pct = valueOrZero usedPct; used = valueOrZero usedBytes; perDay = valueOrZero slope;
          (days, noForecast) = forecastDays pct used perDay (valueOrZero r2) samples
      in \<lparr>df_Host = host, df_Device = device, df_Mount = mount, df_UsedPct = pct,
          df_PctPerDay = (if f_lt (Fin 0) used then f_div (f_mul perDay pct) used else Fin 0), df_BytesPerDay = perDay,
          df_DaysToFull = (if noForecast = [] then Some days else None), df_NoForecast = noForecast, df_Samples = samples\<rparr>)"

text \<open>\<open>regr\<close> gives slope and r2 of pairs of bytes and days since the start of the window.\<close>

type_synonym regression = "(float64 option \<times> rat) list \<Rightarrow> float64 option \<times> float64 option"

definition days_since :: "time \<Rightarrow> time \<Rightarrow> rat" where
  "days_since start t = of_int (t - start) / of_int (24 * Hour)"

definition fit_group :: "regression \<Rightarrow> time \<Rightarrow> string \<Rightarrow> disk_metric_row list \<Rightarrow> disk_fit" where
  "fit_group regr start host rows =
     (let r = (case newest dm_time rows of None \<Rightarrow> hd rows | Some r \<Rightarrow> r);
          (slope, r2) = regr (map (\<lambda>d. (dm_used_bytes d, days_since start (dm_time d))) rows)
      in (host, dm_device r, dm_mount r, dm_used_pct r, dm_used_bytes r, slope, r2,
          int (length (filter (\<lambda>d. dm_used_bytes d \<noteq> None) rows))))"

definition disk_group :: "tables \<Rightarrow> disk_metric_row \<Rightarrow> (string \<times> string \<times> string) option" where
  "disk_group t d = (case find (\<lambda>h. h_id h = dm_host_id d) (db_hosts t) of
     None \<Rightarrow> None | Some h \<Rightarrow> Some (h_name h, dm_device d, dm_mount d))"

definition queryForecasts :: "regression \<Rightarrow> time \<Rightarrow> (disk_metric_row \<Rightarrow> bool) \<Rightarrow> (DiskForecast list, db) act" where
  "queryForecasts regr now keep =
     (let start = timestamptz (now - forecastWindow) in
      query (\<lambda>t.
        let rows = filter (\<lambda>d. start \<le> dm_time d \<and> keep d \<and> disk_group t d \<noteq> None) (db_disk_hourly t);
            groups = sort_key (\<lambda>g. (fst g, snd (snd g))) (remdups (map (\<lambda>d. the (disk_group t d)) rows))
        in map (\<lambda>g. forecast_of_fit (fit_group regr start (fst g) (filter (\<lambda>d. disk_group t d = Some g) rows))) groups))"

definition DiskForecasts :: "regression \<Rightarrow> time \<Rightarrow> string \<Rightarrow> (DiskForecast list, db) act" where
  "DiskForecasts regr now host = bindE (hostID host) (\<lambda>hid. queryForecasts regr now (\<lambda>d. dm_host_id d = hid))"

fun soonest_from :: "(string \<rightharpoonup> float64) \<Rightarrow> DiskForecast list \<Rightarrow> (string \<rightharpoonup> float64)" where
  "soonest_from m [] = m"
| "soonest_from m (f # fs) = soonest_from (case df_DaysToFull f of
     None \<Rightarrow> m
   | Some d \<Rightarrow> (case m (df_Host f) of
       None \<Rightarrow> m(df_Host f \<mapsto> d)
     | Some days \<Rightarrow> if f_lt d days then m(df_Host f \<mapsto> d) else m)) fs"

definition SoonestDiskFull :: "regression \<Rightarrow> time \<Rightarrow> (string \<rightharpoonup> float64, db) act" where
  "SoonestDiskFull regr now = bindE (queryForecasts regr now (\<lambda>_. True)) (\<lambda>fs. ret (soonest_from Map.empty fs))"

text \<open>The forecasts with enough samples; the least of their days, at most the horizon.\<close>

fun days_left :: "DiskForecast list \<Rightarrow> bool \<times> float64 \<Rightarrow> bool \<times> float64" where
  "days_left [] acc = acc"
| "days_left (f # fs) (found, days) =
     (if df_Samples f < forecastMinSamples then days_left fs (found, days)
      else days_left fs (True, case df_DaysToFull f of None \<Rightarrow> days | Some d \<Rightarrow> f_min days d))"

definition DaysUntilFull :: "regression \<Rightarrow> time \<Rightarrow> string \<Rightarrow> string \<Rightarrow> (float64, db) act" where
  "DaysUntilFull regr now host device =
     bindE (hostID host) (\<lambda>hid.
     bindE (queryForecasts regr now (\<lambda>d. dm_host_id d = hid \<and> dm_device d = device)) (\<lambda>fs.
     case days_left fs (False, f_of_int forecastHorizonDays) of (found, days) \<Rightarrow>
       if \<not> found then fail ErrNotFound else ret days))"

end
