(* ===== verification/StoreAlerts.thy ===== *)
theory StoreAlerts
  imports StoreHosts
begin

text \<open>
  Alerts in the database: internal/store/alerts.go and \<open>PurgeResolvedAlerts\<close> of store.go. \<open>alerts_ok\<close> is
  what the schema and the statements keep: ids are unique and belong to the counter, an alert's host
  exists, and there is at most one open alert for a host, rule, metric and target.
\<close>

section \<open>Values\<close>

text \<open>A row without a value reads as no data, like no row at all.\<close>

definition newest_value :: "(time \<times> float64 option) list \<Rightarrow> (float64 \<times> time) result" where
  "newest_value rows = (case newest fst rows of
     None \<Rightarrow> Inl ErrNotFound
   | Some (t, None) \<Rightarrow> Inl ErrNotFound
   | Some (t, Some v) \<Rightarrow> Inr (v, t))"

definition value_rows :: "tables \<Rightarrow> int \<Rightarrow> string \<Rightarrow> string \<Rightarrow> bool \<Rightarrow> (time \<times> float64 option) list option" where
  "value_rows t host metric target isCustom =
     (let hm = filter (\<lambda>r. hm_host_id r = host) (db_host_metrics t) in
      if isCustom then Some (map (\<lambda>r. (cm_time r, cm_value r)) (filter (\<lambda>r. cm_host_id r = host \<and> cm_name r = metric) (db_custom_metrics t)))
      else if metric = PROC_USAGE then Some (map (\<lambda>r. (hm_time r, hm_cpu_pct r)) hm)
      else if metric = MEMORY then Some (map (\<lambda>r. (hm_time r, hm_mem_used_pct r)) hm)
      else if metric = SWAP then Some (map (\<lambda>r. (hm_time r, hm_swap_used_pct r)) hm)
      else if metric = DISKS then
        Some (map (\<lambda>r. (dm_time r, dm_used_pct r)) (filter (\<lambda>r. dm_host_id r = host \<and> dm_device r = target) (db_disk_metrics t)))
      else if metric = SERVICES then
        Some (map (\<lambda>r. (sv_time r, Some (if sv_running r then Fin 1 else Fin 0)))
          (filter (\<lambda>r. sv_host_id r = host \<and> sv_name r = target) (db_services t)))
      else None)"

text \<open>Which statement it is does not depend on the rows, so an unknown metric is refused without a query.\<close>

definition LatestValue :: "string \<Rightarrow> string \<Rightarrow> string \<Rightarrow> bool \<Rightarrow> (float64 \<times> time, db) act" where
  "LatestValue host metric target isCustom =
     bindE (hostID host) (\<lambda>hid.
     if value_rows no_rows hid metric target isCustom = None
     then fail (ErrWrap ''%w: metric %q cannot be alerted on'' [metric] ErrInvalid)
     else bindE (query (\<lambda>t. newest_value (the (value_rows t hid metric target isCustom)))) (\<lambda>r.
       case r of Inl e \<Rightarrow> fail e | Inr v \<Rightarrow> ret v))"

section \<open>Alerts\<close>

text \<open>\<open>coalesce(h.name, '')\<close> of the join with hosts.\<close>

definition host_name :: "tables \<Rightarrow> int option \<Rightarrow> string" where
  "host_name t hid = (case hid of None \<Rightarrow> []
     | Some i \<Rightarrow> (case find (\<lambda>h. h_id h = i) (db_hosts t) of None \<Rightarrow> [] | Some h \<Rightarrow> h_name h))"

definition alert_of_row :: "tables \<Rightarrow> alert_row \<Rightarrow> Alert" where
  "alert_of_row t a = \<lparr>al_ID = a_id a, al_Host = host_name t (a_host_id a), al_Rule = a_rule a, al_Metric = a_metric a,
     al_Target = a_target a, al_Severity = a_severity a, al_Value = (case a_value a of None \<Rightarrow> Fin 0 | Some v \<Rightarrow> v),
     al_StartedAt = a_started_at a, al_UpdatedAt = a_updated_at a, al_ResolvedAt = a_resolved_at a\<rparr>"

definition is_open :: "alert_row \<Rightarrow> bool" where
  "is_open a \<longleftrightarrow> a_resolved_at a = None"

definition open_for :: "tables \<Rightarrow> string \<times> string \<times> string \<times> string \<Rightarrow> alert_row \<Rightarrow> bool" where
  "open_for t k a \<longleftrightarrow> (host_name t (a_host_id a), a_rule a, a_metric a, a_target a) = k \<and> is_open a"

definition OpenAlert :: "string \<Rightarrow> string \<Rightarrow> string \<Rightarrow> string \<Rightarrow> (Alert option, db) act" where
  "OpenAlert host rule metric target =
     query (\<lambda>t. map_option (alert_of_row t) (find (open_for t (host, rule, metric, target)) (db_alerts t)))"

text \<open>The index alerts_one_open, in which NULLs are not distinct, and the foreign key to hosts.\<close>

definition index_key :: "alert_row \<Rightarrow> int option \<times> string \<times> string \<times> string" where
  "index_key a = (a_host_id a, a_rule a, a_metric a, a_target a)"

definition insert_alert :: "alert_row \<Rightarrow> tables \<Rightarrow> int result \<times> tables" where
  "insert_alert a t =
     (if \<exists>b \<in> set (db_alerts t). is_open b \<and> index_key b = index_key a then (Inl ErrUnique, t)
      else if a_host_id a \<noteq> None \<and> the (a_host_id a) \<notin> set (map h_id (db_hosts t)) then (Inl (ErrDB ''foreign key''), t)
      else (Inr (a_id a), t\<lparr>db_alerts := db_alerts t @ [a]\<rparr>))"

definition CreateAlert :: "Alert \<Rightarrow> (int, db) act" where
  "CreateAlert alert =
     bindE (if al_Host alert = [] then ret None else bindE (hostID (al_Host alert)) (\<lambda>i. ret (Some i))) (\<lambda>hid.
     insert_into T_alerts (\<lambda>i. insert_alert \<lparr>a_id = i, a_host_id = hid, a_rule = al_Rule alert, a_metric = al_Metric alert,
       a_target = al_Target alert, a_severity = al_Severity alert, a_value = Some (al_Value alert),
       a_started_at = timestamptz (al_StartedAt alert), a_updated_at = timestamptz (al_StartedAt alert), a_resolved_at = None\<rparr>))"

definition UpdateAlert :: "int \<Rightarrow> int \<Rightarrow> float64 \<Rightarrow> time \<Rightarrow> (unit, db) act" where
  "UpdateAlert i severity value moment =
     exec (\<lambda>t. ((), t\<lparr>db_alerts := update_where (\<lambda>a. a_id a = i)
       (\<lambda>a. a\<lparr>a_severity := severity, a_value := Some value, a_updated_at := timestamptz moment\<rparr>) (db_alerts t)\<rparr>))"

definition ResolveAlert :: "int \<Rightarrow> float64 \<Rightarrow> time \<Rightarrow> (unit, db) act" where
  "ResolveAlert i value moment =
     exec (\<lambda>t. ((), t\<lparr>db_alerts := update_where (\<lambda>a. a_id a = i)
       (\<lambda>a. a\<lparr>a_value := Some value, a_updated_at := timestamptz moment, a_resolved_at := Some (timestamptz moment)\<rparr>) (db_alerts t)\<rparr>))"

definition filter_alert :: "tables \<Rightarrow> AlertFilter \<Rightarrow> alert_row \<Rightarrow> bool" where
  "filter_alert t f a \<longleftrightarrow>
     (af_Host f = [] \<or> a_host_id a \<noteq> None \<and> host_name t (a_host_id a) = af_Host f) \<and>
     (af_Rule f = [] \<or> a_rule a = af_Rule f) \<and>
     (af_OpenOnly f \<longrightarrow> is_open a) \<and>
     (af_From f = zero_time \<or> timestamptz (af_From f) \<le> a_started_at a) \<and>
     (af_To f = zero_time \<or> a_started_at a < timestamptz (af_To f))"

definition Alerts :: "AlertFilter \<Rightarrow> (Alert list, db) act" where
  "Alerts f = query (\<lambda>t. map (alert_of_row t) (sort_key (\<lambda>a. - a_started_at a) (filter (filter_alert t f) (db_alerts t))))"

definition PurgeResolvedAlerts :: "time \<Rightarrow> duration \<Rightarrow> (int, db) act" where
  "PurgeResolvedAlerts now retentionHour =
     (let gone = (\<lambda>a. case a_resolved_at a of None \<Rightarrow> False | Some r \<Rightarrow> r < timestamptz (now - retentionHour)) in
      exec (\<lambda>t. (rows_affected gone (db_alerts t), delete_alerts gone t)))"

section \<open>Invariants\<close>

definition hosts_ok :: "tables \<Rightarrow> (tbl \<Rightarrow> int) \<Rightarrow> bool" where
  "hosts_ok t q \<longleftrightarrow> distinct (map h_id (db_hosts t)) \<and> distinct (map h_name (db_hosts t)) \<and>
     (\<forall>h \<in> set (db_hosts t). h_id h \<le> q T_hosts \<and> h_name h \<noteq> [] \<and> (h_update_version h \<noteq> None \<longrightarrow> h_update_url h \<noteq> None))"

definition alerts_ok :: "tables \<Rightarrow> (tbl \<Rightarrow> int) \<Rightarrow> bool" where
  "alerts_ok t q \<longleftrightarrow> distinct (map a_id (db_alerts t)) \<and> (\<forall>a \<in> set (db_alerts t). a_id a \<le> q T_alerts) \<and>
     distinct (map index_key (filter is_open (db_alerts t))) \<and>
     (\<forall>a \<in> set (db_alerts t). \<forall>i. a_host_id a = Some i \<longrightarrow> i \<in> set (map h_id (db_hosts t)))"

definition alert_inv :: "tables \<Rightarrow> (tbl \<Rightarrow> int) \<Rightarrow> bool" where
  "alert_inv t q \<longleftrightarrow> hosts_ok t q \<and> alerts_ok t q"

text \<open>The view the evaluator has of the store.\<close>

definition open_alerts :: "tables \<Rightarrow> string \<times> string \<times> string \<times> string \<Rightarrow> (int \<times> int) option" where
  "open_alerts t k = map_option (\<lambda>a. (a_id a, a_severity a)) (find (open_for t k) (db_alerts t))"

section \<open>Lookups under the invariant\<close>

lemma host_name_inj:
  assumes "hosts_ok t q" and "\<forall>i. x = Some i \<longrightarrow> i \<in> set (map h_id (db_hosts t))"
    and "\<forall>i. y = Some i \<longrightarrow> i \<in> set (map h_id (db_hosts t))" and "host_name t x = host_name t y"
  shows "x = y"
proof -
  have found: "\<exists>h \<in> set (db_hosts t). find (\<lambda>h. h_id h = i) (db_hosts t) = Some h \<and> h_id h = i"
    if "i \<in> set (map h_id (db_hosts t))" for i
  proof -
    from that obtain h where h: "h \<in> set (db_hosts t)" "h_id h = i" by auto
    have "distinct (map h_id (db_hosts t))" using assms(1) by (simp add: hosts_ok_def)
    from distinct_map_find [OF this h(1)] h show ?thesis by auto
  qed
  have named: "host_name t z \<noteq> [] \<longleftrightarrow> z \<noteq> None" if "\<forall>i. z = Some i \<longrightarrow> i \<in> set (map h_id (db_hosts t))" for z
    using assms(1) that found by (cases z) (fastforce simp: host_name_def hosts_ok_def)+
  show ?thesis
  proof (cases x)
    case None
    with assms(4) named [OF assms(3)] show ?thesis by (cases y) (auto simp: host_name_def)
  next
    case (Some i)
    with assms(4) named [OF assms(2)] named [OF assms(3)] obtain j where j: "y = Some j" by (cases y) auto
    from found [of i] found [of j] assms(2,3) Some j obtain h g
      where hg: "h \<in> set (db_hosts t)" "find (\<lambda>h. h_id h = i) (db_hosts t) = Some h" "h_id h = i"
        "g \<in> set (db_hosts t)" "find (\<lambda>h. h_id h = j) (db_hosts t) = Some g" "h_id g = j" by auto
    with assms(4) Some j have "h_name h = h_name g" by (simp add: host_name_def)
    with assms(1) hg have "h = g" by (intro distinct_map_eq [of h_name]) (auto simp: hosts_ok_def)
    with hg Some j show ?thesis by simp
  qed
qed

lemma open_for_unique:
  assumes "alert_inv t q" and "a \<in> set (db_alerts t)" and "b \<in> set (db_alerts t)" and "open_for t k a" and "open_for t k b"
  shows "a = b"
proof -
  have hosts: "hosts_ok t q" and fk: "\<forall>a \<in> set (db_alerts t). \<forall>i. a_host_id a = Some i \<longrightarrow> i \<in> set (map h_id (db_hosts t))"
    and dist: "distinct (map index_key (filter is_open (db_alerts t)))"
    using assms(1) by (simp_all add: alert_inv_def alerts_ok_def)
  have "host_name t (a_host_id a) = host_name t (a_host_id b)"
    using assms(4,5) by (auto simp: open_for_def)
  then have "a_host_id a = a_host_id b"
    using fk assms(2,3) by (intro host_name_inj [OF hosts]) blast+
  then have "index_key a = index_key b"
    using assms(4,5) by (auto simp: index_key_def open_for_def)
  moreover have "a \<in> set (filter is_open (db_alerts t))" "b \<in> set (filter is_open (db_alerts t))"
    using assms by (auto simp: open_for_def)
  ultimately show ?thesis using dist by (meson distinct_map_eq)
qed

lemma open_alerts_Some:
  assumes "alert_inv t q" and "a \<in> set (db_alerts t)" and "open_for t k a"
  shows "find (open_for t k) (db_alerts t) = Some a"
proof (cases "find (open_for t k) (db_alerts t)")
  case None
  with assms show ?thesis by (auto dest: find_NoneD)
next
  case (Some b)
  then have "b \<in> set (db_alerts t)" "open_for t k b" by (auto dest: find_SomeD)
  with assms Some show ?thesis by (metis open_for_unique)
qed

lemma host_name_cong: "db_hosts t' = db_hosts t \<Longrightarrow> host_name t' = host_name t"
  by (rule ext) (simp add: host_name_def cong: option.case_cong)

lemma open_for_cong: "db_hosts t' = db_hosts t \<Longrightarrow> open_for t' = open_for t"
  using host_name_cong [of t' t] by (simp add: open_for_def fun_eq_iff)

lemma open_alerts_cong: "db_hosts t' = db_hosts t \<Longrightarrow> db_alerts t' = db_alerts t \<Longrightarrow> open_alerts t' = open_alerts t"
  by (rule ext) (simp add: open_alerts_def open_for_cong [of t' t])

lemma alert_inv_cong: "db_hosts t' = db_hosts t \<Longrightarrow> db_alerts t' = db_alerts t \<Longrightarrow> alert_inv t' q = alert_inv t q"
  by (simp add: alert_inv_def hosts_ok_def alerts_ok_def)

text \<open>Changing one alert by its id, without touching what it is about and without opening it again.\<close>

definition keeps_key :: "(alert_row \<Rightarrow> alert_row) \<Rightarrow> bool" where
  "keeps_key f \<longleftrightarrow> (\<forall>a. index_key (f a) = index_key a \<and> a_id (f a) = a_id a \<and> (is_open (f a) \<longrightarrow> is_open a))"

lemma update_distinct_open:
  assumes "keeps_key f" and "distinct (map index_key (filter is_open rs))"
  shows "distinct (map index_key (filter is_open (update_where P f rs)))"
    and "index_key ` set (filter is_open (update_where P f rs)) \<subseteq> index_key ` set (filter is_open rs)"
proof -
  show sub: "index_key ` set (filter is_open (update_where P f rs)) \<subseteq> index_key ` set (filter is_open rs)" for rs
  proof
    fix x assume "x \<in> index_key ` set (filter is_open (update_where P f rs))"
    then obtain b where b: "b \<in> set rs" "is_open (if P b then f b else b)" "x = index_key (if P b then f b else b)"
      by (auto simp: set_update_where)
    with assms(1) have "is_open b" "x = index_key b" by (auto simp: keeps_key_def split: if_splits)
    with b(1) show "x \<in> index_key ` set (filter is_open rs)" by auto
  qed
  show "distinct (map index_key (filter is_open (update_where P f rs)))"
    using assms(2)
  proof (induction rs)
    case (Cons a rs)
    then show ?case using sub [of rs] assms(1) by (auto simp: keeps_key_def image_iff split: if_splits)
  qed simp
qed

lemma alert_inv_update:
  assumes "alert_inv t q" and f: "keeps_key f"
  shows "alert_inv (t\<lparr>db_alerts := update_where P f (db_alerts t)\<rparr>) q"
proof -
  have "map a_id (update_where P f (db_alerts t)) = map a_id (db_alerts t)"
    using f by (intro map_update_where) (simp add: keeps_key_def)
  moreover have "a_host_id (f a) = a_host_id a \<and> a_id (f a) = a_id a" for a
    using f by (auto simp: keeps_key_def index_key_def)
  ultimately show ?thesis
    using assms update_distinct_open [OF f, of "db_alerts t" P]
    by (auto simp: alert_inv_def hosts_ok_def alerts_ok_def set_update_where)
qed

lemma open_alerts_update:
  assumes inv: "alert_inv t q" and k: "find (open_for t k) (db_alerts t) = Some a" and f: "keeps_key f"
    and t': "t' = t\<lparr>db_alerts := update_where (\<lambda>b. a_id b = a_id a) f (db_alerts t)\<rparr>"
  shows "open_alerts t' = (open_alerts t)(k := (if is_open (f a) then Some (a_id a, a_severity (f a)) else None))"
proof (rule ext)
  fix k'
  have a: "a \<in> set (db_alerts t)" "open_for t k a" using k by (auto dest: find_SomeD)
  have inv': "alert_inv t' q" unfolding t' by (rule alert_inv_update [OF inv f])
  have of: "open_for t' = open_for t" by (rule open_for_cong) (simp add: t')
  have dist: "distinct (map a_id (db_alerts t))" using inv by (simp add: alert_inv_def alerts_ok_def)
  have only: "b = a" if "b \<in> set (db_alerts t)" "a_id b = a_id a" for b
    using distinct_map_eq [OF dist that(1) a(1)] that(2) by simp
  have mem: "b' \<in> set (db_alerts t') \<longleftrightarrow> b' = f a \<or> b' \<in> set (db_alerts t) \<and> a_id b' \<noteq> a_id a" for b'
  proof -
    have "b' \<in> set (db_alerts t') \<longleftrightarrow> (\<exists>b \<in> set (db_alerts t). b' = (if a_id b = a_id a then f b else b))"
      by (auto simp: t' set_update_where)
    also have "\<dots> \<longleftrightarrow> b' = f a \<or> b' \<in> set (db_alerts t) \<and> a_id b' \<noteq> a_id a"
      using a(1) only by metis
    finally show ?thesis .
  qed
  have fa: "open_for t k' (f a) \<longleftrightarrow> k' = k \<and> is_open (f a)"
    using f a(2) by (auto simp: open_for_def keeps_key_def index_key_def)
  have id: "a_id (f a) = a_id a" using f by (simp add: keeps_key_def)
  show "open_alerts t' k' = ((open_alerts t)(k := (if is_open (f a) then Some (a_id a, a_severity (f a)) else None))) k'"
  proof (cases "k' = k")
    case True
    show ?thesis
    proof (cases "is_open (f a)")
      case True
      with \<open>k' = k\<close> have "find (open_for t' k') (db_alerts t') = Some (f a)"
        using fa mem by (intro open_alerts_Some [OF inv']) (auto simp: of)
      with True \<open>k' = k\<close> id show ?thesis by (simp add: open_alerts_def)
    next
      case False
      have "\<not> open_for t k b" if "b \<in> set (db_alerts t')" for b
        using that False fa \<open>k' = k\<close> open_for_unique [OF inv _ a(1) _ a(2)] by (auto simp: mem)
      then have "find (open_for t' k') (db_alerts t') = None"
        using \<open>k' = k\<close> by (auto simp: find_None_iff of)
      with False \<open>k' = k\<close> show ?thesis by (simp add: open_alerts_def)
    qed
  next
    case other: False
    show ?thesis
    proof (cases "find (open_for t k') (db_alerts t)")
      case None
      then have "find (open_for t' k') (db_alerts t') = None"
        using other fa by (auto simp: find_None_iff of mem)
      with None other show ?thesis by (simp add: open_alerts_def)
    next
      case (Some b)
      then have b: "b \<in> set (db_alerts t)" "open_for t k' b" by (auto dest: find_SomeD)
      with other a(2) have "b \<noteq> a" by (auto simp: open_for_def)
      with b only have "b \<in> set (db_alerts t')" by (auto simp: mem)
      then have "find (open_for t' k') (db_alerts t') = Some b"
        using b by (intro open_alerts_Some [OF inv']) (simp_all add: of)
      with Some other show ?thesis by (simp add: open_alerts_def)
    qed
  qed
qed

text \<open>A new alert for a host that is known by its name, or for none.\<close>

lemma alert_inv_insert:
  assumes inv: "alert_inv t q" and ins: "insert_alert a t = (Inr i, t')" and id: "a_id a = q T_alerts + 1" and "is_open a"
  shows "alert_inv t' (q(T_alerts := q T_alerts + 1)) \<and> open_alerts t (host_name t (a_host_id a), a_rule a, a_metric a, a_target a) = None \<and>
    open_alerts t' = (open_alerts t)((host_name t (a_host_id a), a_rule a, a_metric a, a_target a) \<mapsto> (i, a_severity a))"
proof -
  let ?k = "(host_name t (a_host_id a), a_rule a, a_metric a, a_target a)"
  from ins have t': "t' = t\<lparr>db_alerts := db_alerts t @ [a]\<rparr>" and i: "i = a_id a"
    and none: "\<forall>b \<in> set (db_alerts t). is_open b \<longrightarrow> index_key b \<noteq> index_key a"
    and fk: "\<forall>j. a_host_id a = Some j \<longrightarrow> j \<in> set (map h_id (db_hosts t))"
    by (auto simp: insert_alert_def split: if_splits)
  have hosts: "hosts_ok t q" using inv by (simp add: alert_inv_def)
  have closed: "\<not> open_for t ?k b" if b: "b \<in> set (db_alerts t)" for b
  proof
    assume ob: "open_for t ?k b"
    have "\<forall>j. a_host_id b = Some j \<longrightarrow> j \<in> set (map h_id (db_hosts t))"
      using inv b by (auto simp: alert_inv_def alerts_ok_def)
    moreover have "host_name t (a_host_id b) = host_name t (a_host_id a)" using ob by (simp add: open_for_def)
    ultimately have "a_host_id b = a_host_id a" by (intro host_name_inj [OF hosts _ fk])
    with ob none b show False by (auto simp: open_for_def index_key_def)
  qed
  have of: "open_for t' = open_for t" by (rule open_for_cong) (simp add: t')
  have "open_alerts t' k = ((open_alerts t)(?k \<mapsto> (i, a_severity a))) k" for k
  proof -
    have rows: "db_alerts t' = db_alerts t @ [a]" by (simp add: t')
    have oa: "open_for t k' a \<longleftrightarrow> k' = ?k" for k' using \<open>is_open a\<close> by (auto simp: open_for_def)
    have none: "find (open_for t ?k) (db_alerts t) = None" using closed by (auto simp: find_None_iff)
    show ?thesis
      by (cases "k = ?k") (simp_all add: open_alerts_def of rows find_append oa none i split: option.split)
  qed
  moreover have "open_alerts t ?k = None"
    using closed by (auto simp: open_alerts_def find_None_iff)
  moreover have "alert_inv t' (q(T_alerts := q T_alerts + 1))"
    using inv id fk none \<open>is_open a\<close>
    by (fastforce simp: alert_inv_def hosts_ok_def alerts_ok_def t')
  ultimately show ?thesis by blast
qed

section \<open>The statements under the invariant\<close>

lemma hostID_step:
  assumes "hostID name s = (r, s')"
  shows "tabs s' = tabs s \<and> db_seq s' = db_seq s \<and>
    (\<forall>i. r = Inr i \<longrightarrow> (\<exists>h \<in> set (db_hosts (tabs s)). h_id h = i \<and> h_name h = name))"
  using assms unfolding hostID_def
proof (cases rule: bindE_cases)
  case (err e)
  then show ?thesis by (auto elim: query_cases)
next
  case (ok h s1)
  from ok(1) have "h = host_named (tabs s) name" "tabs s1 = tabs s" "db_seq s1 = db_seq s" by (auto elim: query_cases)
  with ok(2) show ?thesis by (auto simp: host_named_def split: option.splits dest: find_SomeD)
qed

lemma OpenAlert_step:
  assumes "OpenAlert h r m tgt s = (found, s')"
  shows "tabs s' = tabs s \<and> db_seq s' = db_seq s \<and> (\<forall>a. found = Inr a \<longrightarrow>
    map_option (\<lambda>a. (al_ID a, al_Severity a)) a = open_alerts (tabs s) (h, r, m, tgt) \<and> (\<forall>b. a = Some b \<longrightarrow> al_Target b = tgt))"
  using assms unfolding OpenAlert_def
  by (auto elim!: query_cases simp: open_alerts_def alert_of_row_def option.map_comp comp_def open_for_def dest!: find_SomeD)

lemma host_name_of:
  assumes "hosts_ok t q" and "h \<in> set (db_hosts t)"
  shows "host_name t (Some (h_id h)) = h_name h"
  using assms distinct_map_find [of h_id "db_hosts t" h] by (simp add: host_name_def hosts_ok_def)

lemma alert_inv_seq: "alert_inv t q \<Longrightarrow> (\<And>k. q k \<le> q' k) \<Longrightarrow> alert_inv t q'"
  unfolding alert_inv_def hosts_ok_def alerts_ok_def by (meson order_trans)

lemma CreateAlert_step:
  assumes inv: "tab_inv alert_inv s" and run: "CreateAlert alert s = (made, s')"
  defines "k \<equiv> (al_Host alert, al_Rule alert, al_Metric alert, al_Target alert)"
  shows "tab_inv alert_inv s' \<and> (open_alerts (tabs s') = open_alerts (tabs s) \<and> (\<exists>e. made = Inl e) \<or>
    open_alerts (tabs s) k = None \<and> (\<exists>i. open_alerts (tabs s') = (open_alerts (tabs s))(k \<mapsto> (i, al_Severity alert)) \<and> (\<forall>j. made = Inr j \<longrightarrow> j = i)))"
proof -
  have inv': "alert_inv (tabs s) (db_seq s)" using inv by (simp add: tab_inv_def)
  have hosts: "hosts_ok (tabs s) (db_seq s)" using inv' by (simp add: alert_inv_def)
  let ?row = "\<lambda>hid i. \<lparr>a_id = i, a_host_id = hid, a_rule = al_Rule alert, a_metric = al_Metric alert,
       a_target = al_Target alert, a_severity = al_Severity alert, a_value = Some (al_Value alert),
       a_started_at = timestamptz (al_StartedAt alert), a_updated_at = timestamptz (al_StartedAt alert), a_resolved_at = None\<rparr>"
  let ?host = "if al_Host alert = [] then ret None else bindE (hostID (al_Host alert)) (\<lambda>i. ret (Some i))"
  from run have "bindE ?host (\<lambda>hid. insert_into T_alerts (\<lambda>i. insert_alert (?row hid i))) s = (made, s')"
    by (simp only: CreateAlert_def)
  then show ?thesis
  proof (cases rule: bindE_cases)
    case (err e)
    then have "tabs s' = tabs s" "db_seq s' = db_seq s"
      by (auto split: if_splits elim!: bindE_cases dest!: hostID_step)
    with inv err(2) show ?thesis by (auto simp: tab_inv_def)
  next
    case (ok hid s1)
    then have s1: "tabs s1 = tabs s" "db_seq s1 = db_seq s" and name: "host_name (tabs s) hid = al_Host alert"
      using host_name_of [OF hosts]
      by (auto split: if_splits elim!: bindE_cases dest!: hostID_step simp: host_name_def)
    let ?i = "db_seq s T_alerts + 1" and ?a = "?row hid (db_seq s T_alerts + 1)"
    obtain x t' where ins: "insert_alert ?a (tabs s) = (x, t')" by (cases "insert_alert ?a (tabs s)")
    have seq: "alert_inv (tabs s) ((db_seq s)(T_alerts := ?i))"
      by (rule alert_inv_seq [OF inv']) simp
    have res: "alert_inv t' ((db_seq s)(T_alerts := ?i)) \<and> (x = Inr ?i \<and> open_alerts (tabs s) k = None \<and>
        open_alerts t' = (open_alerts (tabs s))(k \<mapsto> (?i, al_Severity alert)) \<or> t' = tabs s \<and> (\<exists>e. x = Inl e))"
    proof (cases x)
      case (Inl e)
      with ins seq show ?thesis by (auto simp: insert_alert_def split: if_splits)
    next
      case (Inr j)
      with ins have "j = ?i" by (auto simp: insert_alert_def split: if_splits)
      moreover have "alert_inv t' ((db_seq s)(T_alerts := ?i)) \<and> open_alerts (tabs s) k = None \<and>
          open_alerts t' = (open_alerts (tabs s))(k \<mapsto> (j, al_Severity alert))"
        using alert_inv_insert [OF inv' ins [unfolded Inr]] by (simp add: is_open_def name k_def)
      ultimately show ?thesis using Inr by simp
    qed
    from ok(2) show ?thesis
    proof (cases rule: insert_into_cases)
      case ok
      with res ins show ?thesis by (auto simp: s1 tab_inv_def)
    next
      case (failed m)
      with inv' show ?thesis by (auto simp: s1 tab_inv_def)
    next
      case (lost m)
      with res ins show ?thesis by (auto simp: s1 tab_inv_def)
    qed
  qed
qed

lemma update_by_id_step:
  assumes inv: "tab_inv alert_inv s" and k: "open_alerts (tabs s) k = Some (i, sev)" and f: "keeps_key f"
    and run: "exec (\<lambda>t. ((), t\<lparr>db_alerts := update_where (\<lambda>a. a_id a = i) f (db_alerts t)\<rparr>)) s = (y, s')"
    and sev': "\<And>a. is_open a \<Longrightarrow> (if is_open (f a) then Some (i, a_severity (f a)) else None) = x"
  shows "tab_inv alert_inv s' \<and> (open_alerts (tabs s') = open_alerts (tabs s) \<and> (\<exists>e. y = Inl e) \<or> open_alerts (tabs s') = (open_alerts (tabs s))(k := x))"
proof -
  have inv': "alert_inv (tabs s) (db_seq s)" using inv by (simp add: tab_inv_def)
  from k obtain a where a: "find (open_for (tabs s) k) (db_alerts (tabs s)) = Some a" and i: "i = a_id a"
    by (auto simp: open_alerts_def)
  have "is_open a" using a by (auto simp: open_for_def dest: find_SomeD)
  let ?t = "(tabs s)\<lparr>db_alerts := update_where (\<lambda>b. a_id b = i) f (db_alerts (tabs s))\<rparr>"
  have new: "open_alerts ?t = (open_alerts (tabs s))(k := x)"
    using open_alerts_update [OF inv' a f refl] sev' [OF \<open>is_open a\<close>] unfolding i by (simp only:)
  have "alert_inv ?t (db_seq s)" by (rule alert_inv_update [OF inv' f])
  with new inv' run show ?thesis by (auto simp: tab_inv_def elim!: exec_cases)
qed

lemma UpdateAlert_step:
  assumes "tab_inv alert_inv s" and "open_alerts (tabs s) k = Some (i, sev)" and "UpdateAlert i sev' v t s = (y, s')"
  shows "tab_inv alert_inv s' \<and> (open_alerts (tabs s') = open_alerts (tabs s) \<and> (\<exists>e. y = Inl e) \<or> open_alerts (tabs s') = (open_alerts (tabs s))(k \<mapsto> (i, sev')))"
  using assms(3) unfolding UpdateAlert_def
  by (intro update_by_id_step [OF assms(1,2)]) (auto simp: keeps_key_def index_key_def is_open_def)

lemma ResolveAlert_step:
  assumes "tab_inv alert_inv s" and "open_alerts (tabs s) k = Some (i, sev)" and "ResolveAlert i v t s = (y, s')"
  shows "tab_inv alert_inv s' \<and> (open_alerts (tabs s') = open_alerts (tabs s) \<and> (\<exists>e. y = Inl e) \<or> open_alerts (tabs s') = (open_alerts (tabs s))(k := None))"
  using assms(3) unfolding ResolveAlert_def
  by (intro update_by_id_step [OF assms(1,2)]) (auto simp: keeps_key_def index_key_def is_open_def)

end
