(* ===== verification/StoreKube.thy ===== *)
theory StoreKube
  imports StoreAlerts
begin

text \<open>
  Kubernetes clusters in the database: internal/store/kube.go; its charts are in FleetApi. A report is saved in one
  transaction with its counts and the restarts since the state before it.
\<close>

record KubeRestart =
  ks_Time :: time
  ks_Restart :: Restart

section \<open>Saving a report\<close>

text \<open>The batch of \<open>saveClusterMetrics\<close>: a row for each restart and one with the counts. \<open>total\<close> is an int.\<close>

definition total_restarts :: "Restart list \<Rightarrow> int" where
  "total_restarts restarts = foldl (\<lambda>total r. wrap64 (total + rs_Count r)) 0 restarts"

definition saveClusterMetrics :: "int \<Rightarrow> ClusterState \<Rightarrow> Restart list \<Rightarrow> (unit, db) act" where
  "saveClusterMetrics clusterID state restarts =
     (let t = time_Unix (cs_Time state) in
      exec (\<lambda>tb. ((), tb\<lparr>db_restarts := db_restarts tb @ map (\<lambda>r. \<lparr>kr_time = t, kr_cluster_id = clusterID, kr_restart = r\<rparr>) restarts,
        db_kube_metrics := db_kube_metrics tb @ [\<lparr>km_time = t, km_cluster_id = clusterID, km_counts = state_Counts state,
          km_restarts = total_restarts restarts\<rparr>]\<rparr>)))"

definition cluster_named :: "tables \<Rightarrow> string \<Rightarrow> cluster_row option" where
  "cluster_named t name = find (\<lambda>c. kc_name c = name) (db_clusters t)"

definition insert_cluster :: "int \<Rightarrow> ClusterState \<Rightarrow> (int option, db) act" where
  "insert_cluster hid state =
     (let saved = (if cs_Error state \<noteq> [] then zero_state\<lparr>cs_Cluster := cs_Cluster state\<rparr> else state) in
      insert_into T_clusters (\<lambda>i t. case cluster_named t (cs_Cluster state) of
          Some _ \<Rightarrow> (Inr None, t)
        | None \<Rightarrow> (Inr (Some i), t\<lparr>db_clusters := db_clusters t @ [\<lparr>kc_id = i, kc_name = cs_Cluster state, kc_host_id = Some hid,
            kc_state = saved, kc_error = cs_Error state, kc_reported_at = time_Unix (cs_Time state)\<rparr>]\<rparr>)))"

definition update_cluster :: "int \<Rightarrow> (cluster_row \<Rightarrow> cluster_row) \<Rightarrow> (unit, db) act" where
  "update_cluster i f = exec (\<lambda>t. ((), t\<lparr>db_clusters := update_where (\<lambda>c. kc_id c = i) f (db_clusters t)\<rparr>))"

definition report_tx :: "int \<Rightarrow> ClusterState \<Rightarrow> (unit, db) act" where
  "report_tx hid state =
     bindE (query (\<lambda>t. cluster_named t (cs_Cluster state))) (\<lambda>row.
     case row of
       None \<Rightarrow>
         bindE (insert_cluster hid state) (\<lambda>made.
         case made of None \<Rightarrow> fail ErrClusterTaken
         | Some i \<Rightarrow> if cs_Error state = [] then saveClusterMetrics i state [] else ret ())
     | Some c \<Rightarrow>
         if kc_host_id c \<noteq> None \<and> kc_host_id c \<noteq> Some hid then fail ErrClusterTaken
         else if cs_Error state \<noteq> [] then
           update_cluster (kc_id c) (\<lambda>c. c\<lparr>kc_host_id := Some hid, kc_error := cs_Error state, kc_reported_at := time_Unix (cs_Time state)\<rparr>)
         else if cs_Time state \<le> cs_Time (kc_state c) then ret ()
         else bindE (update_cluster (kc_id c) (\<lambda>c. c\<lparr>kc_host_id := Some hid, kc_state := state, kc_error := [], kc_reported_at := time_Unix (cs_Time state)\<rparr>)) (\<lambda>_.
           saveClusterMetrics (kc_id c) state (Restarts (kc_state c) state)))"

definition SaveClusterReport :: "string \<Rightarrow> ClusterState \<Rightarrow> (unit, db) act" where
  "SaveClusterReport host state =
     (if TrimSpace (cs_Cluster state) = [] \<or> length (cs_Cluster state) > 100
      then fail (ErrWrap ''%w: a cluster needs a name of up to 100 characters'' [] ErrInvalid)
      else bindE (hostID host) (\<lambda>hid. in_tx (report_tx hid state)))"

section \<open>Reading\<close>

definition cluster_of_row :: "tables \<Rightarrow> cluster_row \<Rightarrow> Cluster" where
  "cluster_of_row t c = \<lparr>cl_Name = kc_name c, cl_Host = host_name t (kc_host_id c), cl_ReportedAt = kc_reported_at c,
     cl_Error = kc_error c, cl_State = kc_state c\<rparr>"

definition Clusters :: "(Cluster list, db) act" where
  "Clusters = query (\<lambda>t. map (cluster_of_row t) (sort_key kc_name (db_clusters t)))"

definition Cluster_read :: "string \<Rightarrow> (Cluster, db) act" where
  "Cluster_read name = bindE (query (\<lambda>t. map_option (cluster_of_row t) (cluster_named t name))) (\<lambda>c.
     case c of None \<Rightarrow> fail ErrNotFound | Some c \<Rightarrow> ret c)"

definition RemoveCluster :: "string \<Rightarrow> (unit, db) act" where
  "RemoveCluster name =
     bindE (exec (\<lambda>t. (rows_affected (\<lambda>c. kc_name c = name) (db_clusters t),
       t\<lparr>db_clusters := delete_where (\<lambda>c. kc_name c = name) (db_clusters t)\<rparr>))) (\<lambda>n.
     if n = 0 then fail ErrNotFound else ret ())"

definition restarts_in :: "tables \<Rightarrow> string \<Rightarrow> time \<Rightarrow> restart_row list" where
  "restarts_in t cluster since = (case cluster_named t cluster of
     None \<Rightarrow> []
   | Some c \<Rightarrow> filter (\<lambda>r. kr_cluster_id r = kc_id c \<and> timestamptz since \<le> kr_time r) (db_restarts t))"

definition RecentRestarts :: "string \<Rightarrow> time \<Rightarrow> nat \<Rightarrow> (KubeRestart list, db) act" where
  "RecentRestarts cluster since limit =
     query (\<lambda>t. map (\<lambda>r. \<lparr>ks_Time = kr_time r, ks_Restart = kr_restart r\<rparr>)
       (take limit (sort_key (\<lambda>r. - kr_time r) (restarts_in t cluster since))))"

definition restart_target :: "Restart \<Rightarrow> string" where
  "restart_target r = rs_Namespace r @ ''/'' @ rs_Workload r"

definition RestartsSince :: "string \<Rightarrow> time \<Rightarrow> (string \<rightharpoonup> int, db) act" where
  "RestartsSince cluster since =
     query (\<lambda>t. let rows = map kr_restart (restarts_in t cluster since) in
       (\<lambda>key. if key \<in> set (map restart_target rows)
          then Some (sum_list (map rs_Count (filter (\<lambda>r. restart_target r = key) rows))) else None))"

end
