(* ===== verification/AlertText.thy ===== *)
theory AlertText
  imports Database
begin

text \<open>
  What the collector compares and writes about an alert: collector/alerts.go (\<open>getAlertType\<close>,
  \<open>ruleHosts\<close>, the texts of host, endpoint and certificate alerts), the texts of collector/kube.go,
  and \<open>expectedCode\<close> of collector/endpoints.go. A text function returns the subject and the body.
\<close>

section \<open>Thresholds\<close>

definition expectedCode :: "AlertConfig \<Rightarrow> int" where
  "expectedCode rule = (if rule_ExpectedHTTPCode rule = 0 then 200 else rule_ExpectedHTTPCode rule)"

text \<open>A comparison with both thresholds, the critical one first.\<close>

definition two_levels :: "(float64 \<Rightarrow> float64 \<Rightarrow> bool) \<Rightarrow> AlertConfig \<Rightarrow> float64 \<Rightarrow> StatusType" where
  "two_levels cmp alert val =
     (if cmp val (f_of_int (rule_CriticalThreshold alert)) then Critical
      else if cmp val (f_of_int (rule_WarnThreshold alert)) then Warning
      else Normal)"

definition getAlertType :: "AlertConfig \<Rightarrow> float64 \<Rightarrow> StatusType" where
  "getAlertType alert val =
     (let op = rule_Op alert in
      if op = ''=='' then two_levels f_eq alert val
      else if op = ''!='' then two_levels (\<lambda>x y. \<not> f_eq x y) alert val
      else if op = ''>'' then two_levels (\<lambda>x y. f_lt y x) alert val
      else if op = ''<'' then two_levels f_lt alert val
      else if op = ''>='' then two_levels (\<lambda>x y. f_le y x) alert val
      else if op = ''<='' then two_levels f_le alert val
      else if op = ''inactive'' then (if f_eq val (Fin 0) then Critical else Normal)
      else if op = ''active'' then (if f_eq val (Fin 1) then Critical else Normal)
      else Normal)"

text \<open>Ping rules have no thresholds, an endpoint is critical while it answers with another code, and a
  node, workload or pending rule while its value is above 0.\<close>

definition ruleStatus :: "AlertConfig \<Rightarrow> float64 \<Rightarrow> StatusType" where
  "ruleStatus rule value =
     (if rule_MetricName rule = ENDPOINT then (if f_to_int value \<noteq> expectedCode rule then Critical else Normal)
      else if rule_MetricName rule = PING then
        (if f_lt (f_of_int (rule_TriggerIntveral rule)) value then Critical else Normal)
      else if rule_MetricName rule \<in> set [KUBE_NODE, KUBE_WORKLOAD, KUBE_PENDING] then
        (if f_lt (Fin 0) value then Critical else Normal)
      else getAlertType rule value)"

definition triggerInterval :: "AlertConfig \<Rightarrow> duration" where
  "triggerInterval rule = dur_mul (rule_TriggerIntveral rule) Second"

text \<open>The hosts a rule checks.\<close>

definition ruleHosts :: "AlertConfig \<Rightarrow> string list \<Rightarrow> string list" where
  "ruleHosts rule hosts =
     (if rule_MetricName rule = ENDPOINT \<or> IsKube (rule_MetricName rule) then [[]]
      else if AllHosts \<in> set (rule_Servers rule) then hosts
      else rule_Servers rule)"

text \<open>The disk, service or URL a rule watches, and the alert on an HTTPS endpoint's certificate.\<close>

definition ruleTarget :: "AlertConfig \<Rightarrow> string" where
  "ruleTarget rule =
     (if rule_MetricName rule \<in> set [DISKS, DISK_FORECAST] then rule_Disk rule
      else if rule_MetricName rule = SERVICES then rule_Service rule
      else if rule_MetricName rule \<in> set [ENDPOINT, CERTIFICATE] then rule_Endpoint rule
      else [])"

definition certificateRule :: "AlertConfig \<Rightarrow> AlertConfig option" where
  "certificateRule rule =
     (let (warn, critical) = CertDays rule in
      if warn = 0 \<and> critical = 0 then None
      else Some (rule\<lparr>rule_MetricName := CERTIFICATE, rule_Op := ''<'', rule_WarnThreshold := warn,
        rule_CriticalThreshold := critical, rule_TriggerIntveral := 0\<rparr>))"

section \<open>Texts\<close>

definition blank :: "string \<Rightarrow> bool" where
  "blank s \<longleftrightarrow> TrimSpace s = []"

definition endpointText :: "AlertConfig \<Rightarrow> int \<Rightarrow> string \<Rightarrow> bool \<Rightarrow> time \<Rightarrow> string \<times> string" where
  "endpointText rule actualHTTPCode errMsg resolved t =
     (if resolved then
        (''[Resolved] '' @ rule_Endpoint rule @ '' is answering again'',
         rule_Endpoint rule @ '' answered with '' @ Itoa actualHTTPCode @ '' at '' @ fmt_RFC1123 t @ ''.'')
      else
        let subject = ''[Critical] endpoint check failed on '' @ rule_Endpoint rule;
            body = Replace [(''{subject}'', subject), (''{endpoint}'', rule_Endpoint rule),
              (''{metricName}'', rule_MetricName rule), (''{expected}'', Itoa (expectedCode rule)),
              (''{actual}'', Itoa actualHTTPCode), (''{timestamp}'', fmt_String t), (''{error}'', errMsg),
              (''{triggerInterval}'', Itoa (rule_TriggerIntveral rule))] (rule_Template rule)
        in (subject,
            if blank body then
              rule_Endpoint rule @ '' should answer with '' @ Itoa (expectedCode rule) @ '' and answered with '' @
              Itoa actualHTTPCode @ (if errMsg \<noteq> [] then '': '' @ errMsg else [])
            else body))"

definition certificateText :: "AlertConfig \<Rightarrow> float64 \<Rightarrow> StatusType \<Rightarrow> time \<Rightarrow> string \<times> string" where
  "certificateText rule days status t =
     (let expires = t + f_to_int (f_mul (f_mul days (Fin 24)) (f_of_int Hour)) in
      (case status of
         Critical \<Rightarrow> ''[Critical] certificate expiring for '' @ rule_Endpoint rule
       | Warning \<Rightarrow> ''[Warning] certificate expiring for '' @ rule_Endpoint rule
       | Normal \<Rightarrow> ''[Resolved] certificate renewed for '' @ rule_Endpoint rule,
       if status = Normal then
         rule_Endpoint rule @ '' has a certificate valid for '' @ Itoa (f_to_int days) @ '' more days''
       else if f_lt days (Fin 0) then rule_Endpoint rule @ '' has a certificate that expired on '' @ fmt_minute expires
       else rule_Endpoint rule @ '' has a certificate that expires on '' @ fmt_minute expires))"

definition alertText :: "AlertConfig \<Rightarrow> string \<Rightarrow> StatusType \<Rightarrow> float64 \<Rightarrow> time \<Rightarrow> string \<times> string" where
  "alertText rule host status value t =
     (if status = Normal then
        (''[Resolved] '' @ rule_Name rule @ '' on '' @ host,
         if rule_MetricName rule = PING then host @ '' is reporting again at '' @ fmt_RFC1123 t @ ''.''
         else rule_Name rule @ '' on '' @ host @ '' is back to normal at '' @ fmt_RFC1123 t @ '', with '' @
           show_fixed 2 value @ ''.'')
      else
        let subject = (if status = Critical then ''[Critical] '' else ''[Warning] '') @ rule_Name rule @ '' triggered on '' @ host;
            expected = Itoa (if status = Critical then rule_CriticalThreshold rule else rule_WarnThreshold rule);
            body = Replace [(''{subject}'', subject), (''{serverName}'', host), (''{metricName}'', rule_MetricName rule),
              (''{op}'', rule_Op rule), (''{expected}'', expected), (''{timestamp}'', fmt_String t),
              (''{desc}'', rule_Description rule), (''{value}'', show_fixed 2 value),
              (''{triggerInterval}'', Itoa (rule_TriggerIntveral rule))] (rule_Template rule)
        in (subject,
            if blank body then subject @ '': '' @ show_fixed 2 value @
              (if expected \<noteq> [] then '' '' @ rule_Op rule @ '' '' @ expected else [])
            else body))"

definition plural :: "int \<Rightarrow> string \<Rightarrow> string" where
  "plural n word = (if n = 1 then ''1 '' @ word else Itoa n @ '' '' @ word @ ''s'')"

definition kubeProblem :: "string \<Rightarrow> string \<Rightarrow> float64 \<Rightarrow> string" where
  "kubeProblem metric target value =
     (let n = f_to_int value in
      if metric = KUBE_NODE then ''node '' @ target @ '' is not ready''
      else if metric = KUBE_WORKLOAD then target @ '' is missing '' @ plural n ''replica''
      else if metric = KUBE_PENDING then plural n ''pod'' @ '' of '' @ target @ '' stuck pending''
      else target @ '' restarted '' @ plural n ''time'' @ '' in the last hour'')"

definition kubeFine :: "string \<Rightarrow> string \<Rightarrow> string" where
  "kubeFine metric target =
     (if metric = KUBE_NODE then ''node '' @ target @ '' is ready again''
      else if metric = KUBE_WORKLOAD then target @ '' has all its replicas again''
      else if metric = KUBE_PENDING then target @ '' has no pods pending''
      else target @ '' stopped restarting'')"

definition kubeText :: "AlertConfig \<Rightarrow> string \<Rightarrow> string \<Rightarrow> StatusType \<Rightarrow> float64 \<Rightarrow> time \<Rightarrow> string \<times> string" where
  "kubeText rule target reason status value t =
     (if status = Normal then
        let fine = kubeFine (rule_MetricName rule) target in
        (''[Resolved] '' @ rule_Name rule @ '': '' @ fine @ '' in '' @ rule_Cluster rule,
         fine @ '' in '' @ rule_Cluster rule @ '' at '' @ fmt_RFC1123 t @ ''.'')
      else
        let problem = kubeProblem (rule_MetricName rule) target value;
            subject = (if status = Warning then ''[Warning] '' else ''[Critical] '') @ rule_Name rule @ '': '' @ problem @
              '' in '' @ rule_Cluster rule;
            body = Replace [(''{subject}'', subject), (''{cluster}'', rule_Cluster rule), (''{target}'', target),
              (''{metricName}'', rule_MetricName rule), (''{value}'', show_fixed 0 value), (''{reason}'', reason),
              (''{timestamp}'', fmt_String t), (''{desc}'', rule_Description rule),
              (''{triggerInterval}'', Itoa (rule_TriggerIntveral rule))] (rule_Template rule)
        in (subject,
            if \<not> blank body then body
            else if reason = [] then problem @ '' in '' @ rule_Cluster rule @ ''.''
            else if rule_MetricName rule = KUBE_NODE
              then problem @ '' in '' @ rule_Cluster rule @ ''. It reports '' @ reason @ ''.''
            else problem @ '' in '' @ rule_Cluster rule @ ''. The pods say '' @ reason @ ''.''))"

definition kubeGoneText :: "AlertConfig \<Rightarrow> string \<Rightarrow> time \<Rightarrow> string \<times> string" where
  "kubeGoneText rule target t =
     (let what = (if rule_MetricName rule = KUBE_NODE then ''node '' @ target else target) in
      (''[Resolved] '' @ rule_Name rule @ '': '' @ what @ '' is gone from '' @ rule_Cluster rule,
       what @ '' was removed from '' @ rule_Cluster rule @ '' by '' @ fmt_RFC1123 t @ ''.''))"

section \<open>Properties\<close>

lemma two_levels_mono:
  assumes "\<And>c. cmp x c \<Longrightarrow> cmp y c"
  shows "status_int (two_levels cmp r x) \<le> status_int (two_levels cmp r y)"
  using assms by (simp add: two_levels_def)

lemma f_lt_le_trans: "f_lt c x \<Longrightarrow> f_le x y \<Longrightarrow> f_lt c y"
  by (cases c; cases x; cases y) (auto simp: f_le_def)

lemma f_le_trans: "f_le x y \<Longrightarrow> f_le y z \<Longrightarrow> f_le x z"
  by (cases x; cases y; cases z) (auto simp: f_le_def)

lemma f_le_lt_trans: "f_le x y \<Longrightarrow> f_lt y c \<Longrightarrow> f_lt x c"
  by (cases c; cases x; cases y) (auto simp: f_le_def)

text \<open>Severity follows the value: with \<open>>\<close> or \<open>>=\<close> a greater value never gives a milder status, and with \<open><\<close> or
  \<open><=\<close> a smaller one never does, whichever way around the two thresholds are.\<close>

theorem severity_follows_value:
  assumes "f_le x y"
  shows "(rule_Op r = ''>'' \<or> rule_Op r = ''>='' \<longrightarrow> status_int (getAlertType r x) \<le> status_int (getAlertType r y)) \<and>
    (rule_Op r = ''<'' \<or> rule_Op r = ''<='' \<longrightarrow> status_int (getAlertType r y) \<le> status_int (getAlertType r x))"
  using assms
  by (auto simp: getAlertType_def intro!: two_levels_mono elim: f_lt_le_trans f_le_trans f_le_lt_trans)

theorem severity_follows_value_witness:
  "status_int (getAlertType (zero_rule\<lparr>rule_Op := ''>'', rule_WarnThreshold := 80, rule_CriticalThreshold := 90\<rparr>) (Fin 85)) \<le>
   status_int (getAlertType (zero_rule\<lparr>rule_Op := ''>'', rule_WarnThreshold := 80, rule_CriticalThreshold := 90\<rparr>) (Fin 95))"
  using severity_follows_value [of "Fin 85" "Fin 95" "zero_rule\<lparr>rule_Op := ''>'', rule_WarnThreshold := 80, rule_CriticalThreshold := 90\<rparr>"]
  by (simp add: f_le_def zero_rule_def)

text \<open>The trigger interval is the rule's number of seconds exactly as long as that fits an int64 of nanoseconds. From
  9223372037 seconds on it wraps to another interval; at that number it is negative, so that the rule triggers at once.\<close>

theorem triggerInterval_exact:
  assumes "0 \<le> rule_TriggerIntveral rule" and "rule_TriggerIntveral rule < 2 ^ 63"
  shows "triggerInterval rule = rule_TriggerIntveral rule * Second \<longleftrightarrow> rule_TriggerIntveral rule \<le> 9223372036"
proof -
  have "wrap64 (n * 1000000000) = n * 1000000000 \<longleftrightarrow> int64 (n * 1000000000)" for n
    using wrap64_id wrap64_range by metis
  moreover have "int64 (n * 1000000000) \<longleftrightarrow> n \<le> 9223372036" if "0 \<le> n" for n
    using that unfolding int64_def by (simp, linarith)
  ultimately show ?thesis
    using assms by (simp add: triggerInterval_def dur_mul_def Second_def)
qed

theorem triggerInterval_exact_witness:
  "triggerInterval (zero_rule\<lparr>rule_TriggerIntveral := 9223372037\<rparr>) \<noteq> 9223372037 * Second \<and>
   triggerInterval (zero_rule\<lparr>rule_TriggerIntveral := 9223372037\<rparr>) < 0"
  using triggerInterval_exact [of "zero_rule\<lparr>rule_TriggerIntveral := 9223372037\<rparr>"]
  by (simp add: triggerInterval_def dur_mul_def wrap64_def Second_def zero_rule_def)

end
