(* ===== verification/Channels.thy ===== *)
theory Channels
  imports Database
begin

text \<open>
  Notification channels: internal/notify. Settings are the JSON value they encode. \<open>net/url.Parse\<close>,
  \<open>net/mail.ParseAddress\<close>, the HTTP client and the SMTP delivery are arguments. encoding/json matches a
  key to a field without looking at case, in a map it keeps the key as it is; both are written out,
  for ASCII letters.
\<close>

section \<open>Kinds, events and severities\<close>

definition Email :: string where "Email = ''email''"
definition Slack :: string where "Slack = ''slack''"
definition PagerDuty :: string where "PagerDuty = ''pagerduty''"
definition Webhook :: string where "Webhook = ''webhook''"

definition Kinds :: "string list" where
  "Kinds = [Email, Slack, PagerDuty, Webhook]"

lemma kinds_distinct: "distinct Kinds"
  by (simp add: Kinds_def Email_def Slack_def PagerDuty_def Webhook_def)

lemmas kind_neq [simp] = kinds_distinct [unfolded Kinds_def, simplified]

definition Opened_event :: string where "Opened_event = ''opened''"
definition Changed_event :: string where "Changed_event = ''changed''"
definition Resolved_event :: string where "Resolved_event = ''resolved''"
definition Test_event :: string where "Test_event = ''test''"

lemmas event_defs = Opened_event_def Changed_event_def Resolved_event_def Test_event_def

lemma event_neq [simp]:
  "Opened_event \<noteq> Changed_event" "Opened_event \<noteq> Resolved_event" "Changed_event \<noteq> Resolved_event"
  "Changed_event \<noteq> Opened_event" "Resolved_event \<noteq> Opened_event" "Resolved_event \<noteq> Changed_event"
  "Test_event \<noteq> Opened_event" "Test_event \<noteq> Changed_event" "Test_event \<noteq> Resolved_event"
  by (simp_all add: event_defs)

definition SeverityResolved :: int where "SeverityResolved = 0"
definition SeverityWarning :: int where "SeverityWarning = 1"
definition SeverityCritical :: int where "SeverityCritical = 2"

definition severityName :: "int \<Rightarrow> string \<Rightarrow> string" where
  "severityName severity event =
     (if event = Test_event then ''test''
      else if severity \<ge> SeverityCritical then ''critical''
      else if severity = SeverityWarning then ''warning''
      else ''resolved'')"

record Message =
  m_Event :: string
  m_Severity :: int
  m_Subject :: string
  m_Body :: string
  m_Host :: string
  m_Rule :: string
  m_Metric :: string
  m_Target :: string
  m_Value :: float64
  m_AlertID :: int
  m_StartedAt :: time
  m_At :: time
  m_Link :: string

section \<open>Decoding settings\<close>

text \<open>The keys of an object are taken one after the other; an unknown one or a value of another type is an
  error, and null leaves a field as it is.\<close>

type_synonym 'r setter = "string \<Rightarrow> json \<Rightarrow> 'r \<Rightarrow> 'r result"

definition fold_name :: "string \<Rightarrow> string" where
  "fold_name key = ToLower key"

definition type_error :: "'r result" where
  "type_error = Inl (ErrText ''json: cannot unmarshal into field'' [])"

fun decode_fields :: "'r setter \<Rightarrow> (string \<times> json) list \<Rightarrow> 'r \<Rightarrow> 'r result" where
  "decode_fields set_field [] r = Inr r"
| "decode_fields set_field ((key, v) # rest) r =
     (case set_field (fold_name key) v r of Inl e \<Rightarrow> Inl e | Inr r' \<Rightarrow> decode_fields set_field rest r')"

definition decode_struct :: "'r setter \<Rightarrow> 'r \<Rightarrow> json \<Rightarrow> 'r result" where
  "decode_struct set_field zero j = (case j of
     JObj members \<Rightarrow> decode_fields set_field members zero
   | JNull \<Rightarrow> Inr zero
   | _ \<Rightarrow> type_error)"

definition put_string :: "(string \<Rightarrow> 'r \<Rightarrow> 'r) \<Rightarrow> json \<Rightarrow> 'r \<Rightarrow> 'r result" where
  "put_string f v r = (case v of JStr s \<Rightarrow> Inr (f s r) | JNull \<Rightarrow> Inr r | _ \<Rightarrow> type_error)"

definition put_int :: "(int \<Rightarrow> 'r \<Rightarrow> 'r) \<Rightarrow> json \<Rightarrow> 'r \<Rightarrow> 'r result" where
  "put_int f v r = (case v of
     JNum q \<Rightarrow> if of_int \<lfloor>q\<rfloor> = q \<and> int64 \<lfloor>q\<rfloor> then Inr (f \<lfloor>q\<rfloor> r) else type_error
   | JNull \<Rightarrow> Inr r | _ \<Rightarrow> type_error)"

fun json_strings :: "json list \<Rightarrow> string list result" where
  "json_strings [] = Inr []"
| "json_strings (JStr s # rest) = (case json_strings rest of Inl e \<Rightarrow> Inl e | Inr ss \<Rightarrow> Inr (s # ss))"
| "json_strings (JNull # rest) = (case json_strings rest of Inl e \<Rightarrow> Inl e | Inr ss \<Rightarrow> Inr ([] # ss))"
| "json_strings (_ # rest) = type_error"

definition put_strings :: "(string list \<Rightarrow> 'r \<Rightarrow> 'r) \<Rightarrow> json \<Rightarrow> 'r \<Rightarrow> 'r result" where
  "put_strings f v r = (case v of
     JArr vs \<Rightarrow> (case json_strings vs of Inl e \<Rightarrow> Inl e | Inr ss \<Rightarrow> Inr (f ss r))
   | JNull \<Rightarrow> Inr (f [] r) | _ \<Rightarrow> type_error)"

definition unknown_field :: "string \<Rightarrow> 'r result" where
  "unknown_field key = Inl (ErrText ''json: unknown field %q'' [key])"

section \<open>Senders\<close>

record emailSender =
  em_Host :: string
  em_Port :: int
  em_User :: string
  em_Password :: string
  em_From :: string
  em_To :: "string list"

definition email_setter :: "emailSender setter" where
  "email_setter key v r =
     (if key = ''host'' then put_string (\<lambda>s r. r\<lparr>em_Host := s\<rparr>) v r
      else if key = ''port'' then put_int (\<lambda>n r. r\<lparr>em_Port := n\<rparr>) v r
      else if key = ''user'' then put_string (\<lambda>s r. r\<lparr>em_User := s\<rparr>) v r
      else if key = ''password'' then put_string (\<lambda>s r. r\<lparr>em_Password := s\<rparr>) v r
      else if key = ''from'' then put_string (\<lambda>s r. r\<lparr>em_From := s\<rparr>) v r
      else if key = ''to'' then put_strings (\<lambda>ss r. r\<lparr>em_To := ss\<rparr>) v r
      else unknown_field key)"

definition zero_email :: emailSender where
  "zero_email = \<lparr>em_Host = [], em_Port = 0, em_User = [], em_Password = [], em_From = [], em_To = []\<rparr>"

type_synonym address_parse = "string \<Rightarrow> unit result"

fun check_addresses :: "address_parse \<Rightarrow> string list \<Rightarrow> unit result" where
  "check_addresses parse [] = Inr ()"
| "check_addresses parse (to # rest) =
     (case parse to of Inl e \<Rightarrow> Inl (ErrWrap ''the address %q: %w'' [to] e) | Inr _ \<Rightarrow> check_addresses parse rest)"

definition validate_email :: "address_parse \<Rightarrow> (unit, emailSender) act" where
  "validate_email parse e0 =
     (let e = e0\<lparr>em_Host := TrimSpace (em_Host e0), em_Port := (if em_Port e0 = 0 then 587 else em_Port e0)\<rparr> in
      (if em_Host e = [] then Inl (err_text ''an email channel needs the SMTP server's host'')
       else if em_Port e < 1 \<or> em_Port e > 65535 then Inl (err_text ''the SMTP port goes from 1 to 65535'')
       else if em_User e \<noteq> [] \<and> em_Password e = [] then Inl (err_text ''a user needs a password'')
       else if em_To e = [] then Inl (err_text ''an email channel needs at least one address to send to'')
       else (case parse (em_From e) of Inl err \<Rightarrow> Inl (ErrWrap ''the from address %q: %w'' [em_From e] err)
             | Inr _ \<Rightarrow> check_addresses parse (em_To e)), e))"

record slackSender =
  sl_Token :: string
  sl_Channel :: string

definition slack_setter :: "slackSender setter" where
  "slack_setter key v r =
     (if key = ''token'' then put_string (\<lambda>s r. r\<lparr>sl_Token := s\<rparr>) v r
      else if key = ''channel'' then put_string (\<lambda>s r. r\<lparr>sl_Channel := s\<rparr>) v r
      else unknown_field key)"

definition validate_slack :: "(unit, slackSender) act" where
  "validate_slack s0 =
     (let s = s0\<lparr>sl_Channel := TrimSpace (sl_Channel s0)\<rparr> in
      (if sl_Token s = [] then Inl (err_text ''a Slack channel needs a bot token, which starts with xoxb-'')
       else if sl_Channel s = [] then Inl (err_text ''a Slack channel needs the channel to post to, like #ops'')
       else Inr (), s))"

record pagerDutySender =
  pd_RoutingKey :: string

definition pagerduty_setter :: "pagerDutySender setter" where
  "pagerduty_setter key v r =
     (if key = ''routingkey'' then put_string (\<lambda>s r. r\<lparr>pd_RoutingKey := s\<rparr>) v r else unknown_field key)"

definition validate_pagerduty :: "(unit, pagerDutySender) act" where
  "validate_pagerduty p0 =
     (let p = p0\<lparr>pd_RoutingKey := TrimSpace (pd_RoutingKey p0)\<rparr> in
      (if pd_RoutingKey p = [] then Inl (err_text ''a PagerDuty channel needs the integration key of an Events API v2 integration'')
       else Inr (), p))"

record webhookSender =
  wh_URL :: string
  wh_HeaderName :: string
  wh_HeaderValue :: string

definition webhook_setter :: "webhookSender setter" where
  "webhook_setter key v r =
     (if key = ''url'' then put_string (\<lambda>s r. r\<lparr>wh_URL := s\<rparr>) v r
      else if key = ''headername'' then put_string (\<lambda>s r. r\<lparr>wh_HeaderName := s\<rparr>) v r
      else if key = ''headervalue'' then put_string (\<lambda>s r. r\<lparr>wh_HeaderValue := s\<rparr>) v r
      else unknown_field key)"

definition char_in :: "char \<Rightarrow> char \<Rightarrow> char \<Rightarrow> bool" where
  "char_in lo hi c \<longleftrightarrow> lo \<le> c \<and> c \<le> hi"

definition header_char :: "char \<Rightarrow> bool" where
  "header_char c \<longleftrightarrow> c = CHR ''-'' \<or> char_in (CHR ''0'') (CHR ''9'') c \<or> char_in (CHR ''a'') (CHR ''z'') c \<or> char_in (CHR ''A'') (CHR ''Z'') c"

definition validHeaderName :: "string \<Rightarrow> bool" where
  "validHeaderName name = list_all header_char name"

definition validate_webhook :: "url_parse \<Rightarrow> (unit, webhookSender) act" where
  "validate_webhook parse w0 =
     (let w = w0\<lparr>wh_URL := TrimSpace (wh_URL w0), wh_HeaderName := TrimSpace (wh_HeaderName w0)\<rparr> in
      (if wh_URL w = [] then Inl (err_text ''a webhook needs a URL'')
       else if (case parse (wh_URL w) of None \<Rightarrow> True
          | Some (scheme, host) \<Rightarrow> (scheme \<noteq> ''http'' \<and> scheme \<noteq> ''https'') \<or> host = [])
         then Inl (err_text ''a webhook URL starts with http:// or https://'')
       else if wh_HeaderName w = [] \<and> wh_HeaderValue w \<noteq> [] then Inl (err_text ''a header value needs a header name'')
       else if wh_HeaderName w \<noteq> [] \<and> \<not> validHeaderName (wh_HeaderName w)
         then Inl (err_text ''the header name can only use letters, digits and dashes'')
       else if CHR 0x0D \<in> set (wh_HeaderValue w) \<or> CHR 0x0A \<in> set (wh_HeaderValue w)
         then Inl (err_text ''the header value is one line'')
       else Inr (), w))"

datatype Sender = EmailSender emailSender | SlackSender slackSender | PagerDutySender pagerDutySender | WebhookSender webhookSender

definition checked_sender :: "('r \<Rightarrow> Sender) \<Rightarrow> (unit, 'r) act \<Rightarrow> 'r result \<Rightarrow> Sender result" where
  "checked_sender con validate decoded = (case decoded of
     Inl e \<Rightarrow> Inl e
   | Inr r \<Rightarrow> (case validate r of (Inl e, _) \<Rightarrow> Inl e | (Inr _, r') \<Rightarrow> Inr (con r')))"

definition Parse_channel :: "address_parse \<Rightarrow> url_parse \<Rightarrow> string \<Rightarrow> json \<Rightarrow> Sender result" where
  "Parse_channel address url kind settings =
     (if kind = Email then checked_sender EmailSender (validate_email address) (decode_struct email_setter zero_email settings)
      else if kind = Slack then checked_sender SlackSender validate_slack (decode_struct slack_setter \<lparr>sl_Token = [], sl_Channel = []\<rparr> settings)
      else if kind = PagerDuty then checked_sender PagerDutySender validate_pagerduty (decode_struct pagerduty_setter \<lparr>pd_RoutingKey = []\<rparr> settings)
      else if kind = Webhook then checked_sender WebhookSender (validate_webhook url)
        (decode_struct webhook_setter \<lparr>wh_URL = [], wh_HeaderName = [], wh_HeaderValue = []\<rparr> settings)
      else Inl (ErrText ''unknown kind of channel %q, it is one of %s'' [kind, Join Kinds '', '']))"

section \<open>Secrets\<close>

definition secrets :: "string \<Rightarrow> string list" where
  "secrets kind =
     (if kind = Email then [''password'']
      else if kind = Slack then [''token'']
      else if kind = PagerDuty then [''routingKey'']
      else if kind = Webhook then [''url'', ''headerValue'']
      else [])"

text \<open>\<open>json.Unmarshal\<close> into a Go map: null makes it the nil map, which can be read and not written.\<close>

datatype gomap = NilMap | GoMap "string \<rightharpoonup> json"

definition map_of_json :: "json \<Rightarrow> gomap result" where
  "map_of_json j = (case j of JObj members \<Rightarrow> Inr (GoMap (map_of (rev members))) | JNull \<Rightarrow> Inr NilMap | _ \<Rightarrow> type_error)"

fun gomap_get :: "gomap \<Rightarrow> string \<Rightarrow> json option" where
  "gomap_get NilMap key = None"
| "gomap_get (GoMap m) key = m key"

definition nil_map_panic :: error where
  "nil_map_panic = ErrText ''panic: assignment to entry in nil map'' []"

fun gomap_set :: "gomap \<Rightarrow> string \<Rightarrow> json \<Rightarrow> gomap result" where
  "gomap_set NilMap key v = Inl nil_map_panic"
| "gomap_set (GoMap m) key v = Inr (GoMap (m(key \<mapsto> v)))"

definition is_secret_set :: "gomap \<Rightarrow> string \<Rightarrow> bool" where
  "is_secret_set m name = (case gomap_get m name of Some (JStr s) \<Rightarrow> s \<noteq> [] | _ \<Rightarrow> False)"

fun redact_from :: "string list \<Rightarrow> gomap \<Rightarrow> (gomap \<times> string list) result" where
  "redact_from [] m = Inr (m, [])"
| "redact_from (name # names) m =
     (if is_secret_set m name then
        (case gomap_set m name (JStr []) of
           Inl e \<Rightarrow> Inl e
         | Inr m' \<Rightarrow> (case redact_from names m' of Inl e \<Rightarrow> Inl e | Inr (m'', names') \<Rightarrow> Inr (m'', name # names')))
      else redact_from names m)"

text \<open>The settings with the secrets blanked, as the map that is marshalled, and which secrets were set.\<close>

definition Redact :: "string \<Rightarrow> json \<Rightarrow> (gomap \<times> string list) result" where
  "Redact kind settings = (case map_of_json settings of Inl e \<Rightarrow> Inl e | Inr m \<Rightarrow> redact_from (secrets kind) m)"

definition left_empty :: "gomap \<Rightarrow> string \<Rightarrow> bool" where
  "left_empty m name = (case gomap_get m name of Some (JStr s) \<Rightarrow> s = [] | _ \<Rightarrow> True)"

fun keep_from :: "string list \<Rightarrow> gomap \<Rightarrow> gomap \<Rightarrow> gomap result" where
  "keep_from [] old m = Inr m"
| "keep_from (name # names) old m =
     (case gomap_get old name of
        Some v \<Rightarrow>
          if left_empty m name \<and> v \<noteq> JNull
          then (case gomap_set m name v of Inl e \<Rightarrow> Inl e | Inr m' \<Rightarrow> keep_from names old m')
          else keep_from names old m
      | None \<Rightarrow> keep_from names old m)"

definition KeepSecrets :: "string \<Rightarrow> json \<Rightarrow> json \<Rightarrow> gomap result" where
  "KeepSecrets kind current nxt = (case map_of_json current of
     Inl e \<Rightarrow> Inl e
   | Inr old \<Rightarrow> (case map_of_json nxt of Inl e \<Rightarrow> Inl e | Inr m \<Rightarrow> keep_from (secrets kind) old m))"

section \<open>Texts\<close>

definition hostOf :: "string \<Rightarrow> string" where
  "hostOf url =
     (let rest = (case Index url ''://'' of None \<Rightarrow> url | Some i \<Rightarrow> drop (i + 3) url)
      in takeWhile (\<lambda>c. c \<notin> set ''/?#'') rest)"

function Fields :: "string \<Rightarrow> string \<Rightarrow> string list" where
  "Fields acc s = (case s of
     [] \<Rightarrow> (if acc = [] then [] else [acc])
   | c # cs \<Rightarrow> (case find (\<lambda>w. w \<noteq> [] \<and> HasPrefix s w) spaces of
        Some w \<Rightarrow> (if acc = [] then [] else [acc]) @ Fields [] (drop (length w) s)
      | None \<Rightarrow> Fields (acc @ [c]) cs))"
  by pat_completeness auto
termination
  by (relation "measure (\<lambda>(acc, s). length s)") (auto dest!: find_SomeD intro!: diff_less)

declare Fields.simps [simp del]

text \<open>\<open>shorten\<close> puts a text on one line and cuts it, \<open>cut\<close> only cuts.\<close>

definition cut :: "string \<Rightarrow> nat \<Rightarrow> string" where
  "cut text n = (if RuneCount text \<le> n then text else cut_runes (n - 1) text @ ellipsis)"

definition shorten :: "string \<Rightarrow> nat \<Rightarrow> string" where
  "shorten text n = cut (Join (Fields [] text) '' '') n"

definition fmt_RFC3339 :: "time \<Rightarrow> string" where
  "fmt_RFC3339 t =
     (let (y, m, d) = civil (t div (86400 * Second))
      in show_year y @ ''-'' @ pad 2 m @ ''-'' @ pad 2 d @ ''T'' @ show_clock t @ ''Z'')"

definition timeText :: "time \<Rightarrow> string" where
  "timeText t = (if t = zero_time then [] else fmt_RFC3339 t)"

section \<open>Sending\<close>

text \<open>
  What goes out: a POST with its target, body and headers, or an email. \<open>http\<close> answers a POST with an
  error or the status code, the status line and the body; \<open>smtp\<close> stands for composing and delivering
  an email. A number that JSON has no form for cannot be marshalled.
\<close>

type_synonym http = "string \<Rightarrow> json \<Rightarrow> (string \<times> string) list \<Rightarrow> (error + int \<times> string \<times> string)"

fun json_float :: "float64 \<Rightarrow> json result" where
  "json_float (Fin x) = Inr (JNum x)"
| "json_float v = Inl (ErrText ''json: unsupported value: %s'' [show_fixed 0 v])"

definition postJSON :: "http \<Rightarrow> string \<Rightarrow> json result \<Rightarrow> (string \<times> string) list \<Rightarrow> string result" where
  "postJSON http target body header = (case body of
     Inl e \<Rightarrow> Inl e
   | Inr data \<Rightarrow> (case http target data header of
       Inl e \<Rightarrow> Inl (ErrWrap ''Post to %s: %w'' [hostOf target] e)
     | Inr (code, stat, answer) \<Rightarrow>
         if code < 200 \<or> code > 299
         then Inl (ErrText ''%s answered %s: %s'' [hostOf target, stat, shorten (take 65536 answer) 200])
         else Inr (take 65536 answer)))"

definition webhook_body :: "Message \<Rightarrow> json result" where
  "webhook_body msg = (case json_float (m_Value msg) of Inl e \<Rightarrow> Inl e
   | Inr v \<Rightarrow> Inr (JObj [(''event'', JStr (m_Event msg)), (''severity'', JStr (severityName (m_Severity msg) (m_Event msg))),
       (''subject'', JStr (m_Subject msg)), (''message'', JStr (m_Body msg)), (''host'', JStr (m_Host msg)),
       (''rule'', JStr (m_Rule msg)), (''metric'', JStr (m_Metric msg)), (''target'', JStr (m_Target msg)), (''value'', v),
       (''alertId'', JNum (of_int (m_AlertID msg))), (''startedAt'', JStr (timeText (m_StartedAt msg))),
       (''at'', JStr (timeText (m_At msg))), (''link'', JStr (m_Link msg))]))"

definition webhook_Send :: "http \<Rightarrow> (string \<Rightarrow> string) \<Rightarrow> webhookSender \<Rightarrow> Message \<Rightarrow> string result" where
  "webhook_Send http canonical w msg =
     (case postJSON http (wh_URL w) (webhook_body msg)
        (if wh_HeaderName w \<noteq> [] then [(canonical (wh_HeaderName w), wh_HeaderValue w)] else []) of
      Inl e \<Rightarrow> Inl e | Inr _ \<Rightarrow> Inr [])"

definition pagerDutyEvents :: string where
  "pagerDutyEvents = ''https://events.pagerduty.com/v2/enqueue''"

definition pagerduty_source :: "Message \<Rightarrow> string" where
  "pagerduty_source msg =
     (if m_Host msg \<noteq> [] then m_Host msg else if m_Target msg \<noteq> [] then m_Target msg else ''SyMon'')"

definition pagerduty_trigger :: "string \<Rightarrow> string \<Rightarrow> Message \<Rightarrow> json result" where
  "pagerduty_trigger key dedupKey msg = (case json_float (m_Value msg) of Inl e \<Rightarrow> Inl e
   | Inr v \<Rightarrow>
      let name = severityName (m_Severity msg) (m_Event msg); severity = (if name = ''test'' then ''info'' else name) in
      Inr (JObj ([(''routing_key'', JStr key), (''event_action'', JStr ''trigger''), (''dedup_key'', JStr dedupKey),
        (''payload'', JObj [(''summary'', JStr (shorten (m_Subject msg) 1024)), (''source'', JStr (pagerduty_source msg)),
          (''severity'', JStr severity), (''component'', JStr (m_Metric msg)), (''class'', JStr (m_Rule msg)),
          (''custom_details'', JObj [(''message'', JStr (m_Body msg)), (''value'', v)])]),
        (''client'', JStr ''SyMon'')] @
        (if m_Link msg \<noteq> [] then [(''client_url'', JStr (m_Link msg)),
           (''links'', JArr [JObj [(''href'', JStr (m_Link msg)), (''text'', JStr ''Open in SyMon'')]])] else []))))"

definition pagerduty_resolve :: "string \<Rightarrow> string \<Rightarrow> json" where
  "pagerduty_resolve key dedupKey =
     JObj [(''routing_key'', JStr key), (''event_action'', JStr ''resolve''), (''dedup_key'', JStr dedupKey)]"

text \<open>\<open>now\<close> is the clock in nanoseconds since 1970, for the key of a test.\<close>

definition pagerduty_Send :: "http \<Rightarrow> int \<Rightarrow> pagerDutySender \<Rightarrow> Message \<Rightarrow> string result" where
  "pagerduty_Send http nanos p msg =
     (let key = pd_RoutingKey p;
          dedupKey = (if m_Event msg = Test_event then ''symon-test-'' @ Itoa nanos else ''symon-alert-'' @ Itoa (m_AlertID msg));
          resolved = (case postJSON http pagerDutyEvents (Inr (pagerduty_resolve key dedupKey)) [] of Inl e \<Rightarrow> Inl e | Inr _ \<Rightarrow> Inr [])
      in if m_Event msg = Resolved_event then resolved
         else (case postJSON http pagerDutyEvents (pagerduty_trigger key dedupKey msg) [] of
             Inl e \<Rightarrow> Inl e
           | Inr _ \<Rightarrow> if m_Event msg = Test_event then resolved else Inr []))"

definition slackAPI :: string where
  "slackAPI = ''https://slack.com/api/''"

definition slackColors :: "string \<Rightarrow> string" where
  "slackColors name =
     (if name = ''critical'' then ''#d1242f'' else if name = ''warning'' then ''#d4a72c''
      else if name = ''resolved'' then ''#1a7f37'' else if name = ''test'' then ''#8c959f'' else [])"

definition slackPayload :: "Message \<Rightarrow> (string \<times> json) list" where
  "slackPayload msg =
     (let text = (if m_Link msg \<noteq> [] then m_Body msg @ [CHR 0x0A] @ m_Link msg else m_Body msg);
          plain = (\<lambda>s. JObj [(''type'', JStr ''plain_text''), (''text'', JStr s)])
      in [(''text'', JStr (shorten (m_Subject msg) 150)),
          (''attachments'', JArr [JObj [(''color'', JStr (slackColors (severityName (m_Severity msg) (m_Event msg)))),
             (''blocks'', JArr [JObj [(''type'', JStr ''header''), (''text'', plain (shorten (m_Subject msg) 150))],
                               JObj [(''type'', JStr ''section''), (''text'', plain (cut text 3000))]])]])])"

text \<open>Slack's answer decoded: ok, error, channel and time stamp, or None when it is not JSON.\<close>

definition slack_Send ::
  "http \<Rightarrow> (string \<Rightarrow> (bool \<times> string \<times> string \<times> string) option) \<Rightarrow> slackSender \<Rightarrow> Message \<Rightarrow> string \<Rightarrow> string result" where
  "slack_Send http reply s msg ref =
     (let (op, extra) = (case Cut ref '' '' of
          Some (channel, ts) \<Rightarrow> if m_Event msg \<noteq> Test_event then (''chat.update'', [(''channel'', JStr channel), (''ts'', JStr ts)])
            else (''chat.postMessage'', [(''channel'', JStr (sl_Channel s))])
        | None \<Rightarrow> (''chat.postMessage'', [(''channel'', JStr (sl_Channel s))]))
      in case postJSON http (slackAPI @ op) (Inr (JObj (slackPayload msg @ extra))) [(''Authorization'', ''Bearer '' @ sl_Token s)] of
         Inl e \<Rightarrow> Inl e
       | Inr answer \<Rightarrow> (case reply answer of
           None \<Rightarrow> Inl (err_text ''the Slack API answered something that is not JSON'')
         | Some (ok, err, channel, ts) \<Rightarrow>
             if \<not> ok then Inl (ErrText ''the Slack API said %s'' [err]) else Inr (channel @ '' '' @ ts)))"

record network =
  nw_http :: http
  nw_canonical :: "string \<Rightarrow> string"
  nw_slack_reply :: "string \<Rightarrow> (bool \<times> string \<times> string \<times> string) option"
  nw_smtp :: "emailSender \<Rightarrow> Message \<Rightarrow> unit result"
  nw_nanos :: int

fun Send :: "network \<Rightarrow> Sender \<Rightarrow> Message \<Rightarrow> string \<Rightarrow> string result" where
  "Send nw (EmailSender e) msg ref = (case nw_smtp nw e msg of Inl err \<Rightarrow> Inl err | Inr _ \<Rightarrow> Inr [])"
| "Send nw (SlackSender s) msg ref = slack_Send (nw_http nw) (nw_slack_reply nw) s msg ref"
| "Send nw (PagerDutySender p) msg ref = pagerduty_Send (nw_http nw) (nw_nanos nw) p msg"
| "Send nw (WebhookSender w) msg ref = webhook_Send (nw_http nw) (nw_canonical nw) w msg"

section \<open>Properties\<close>

lemma kind_neq_sym [simp]: "Slack \<noteq> Email" "PagerDuty \<noteq> Email" "Webhook \<noteq> Email" "PagerDuty \<noteq> Slack" "Webhook \<noteq> Slack" "Webhook \<noteq> PagerDuty"
  using kind_neq by (simp_all add: eq_commute)

lemma gomap_set_get: "gomap_set m k v = Inr m' \<Longrightarrow> gomap_get m' j = (if j = k then Some v else gomap_get m j)"
  by (cases m) auto

lemma is_secret_set_not_nil: "is_secret_set m name \<Longrightarrow> gomap_set m name v \<noteq> Inl e"
  by (cases m) (auto simp: is_secret_set_def)

lemma redact_from_spec:
  assumes "distinct names"
  shows "\<exists>m'. redact_from names m = Inr (m', filter (is_secret_set m) names) \<and>
    (\<forall>k. gomap_get m' k = (if k \<in> set names \<and> is_secret_set m k then Some (JStr []) else gomap_get m k))"
  using assms
proof (induction names arbitrary: m)
  case (Cons name names)
  show ?case
  proof (cases "is_secret_set m name")
    case True
    obtain m1 where m1: "gomap_set m name (JStr []) = Inr m1" using is_secret_set_not_nil [OF True] by (metis sum.exhaust)
    note get = gomap_set_get [OF m1]
    have same: "is_secret_set m1 k = is_secret_set m k" if "k \<noteq> name" for k using that by (simp add: is_secret_set_def get)
    obtain m' where m': "redact_from names m1 = Inr (m', filter (is_secret_set m1) names)"
      and g: "\<forall>k. gomap_get m' k = (if k \<in> set names \<and> is_secret_set m1 k then Some (JStr []) else gomap_get m1 k)"
      using Cons.IH [of m1] Cons.prems by auto
    have "filter (is_secret_set m1) names = filter (is_secret_set m) names"
      using Cons.prems same by (intro filter_cong refl) (metis distinct.simps(2))
    moreover have "gomap_get m' k = (if k \<in> set (name # names) \<and> is_secret_set m k then Some (JStr []) else gomap_get m k)" for k
      using g same [of k] True Cons.prems get [of k] by (cases "k = name") auto
    ultimately show ?thesis using m1 m' True by simp
  next
    case False
    from Cons.IH [of m] Cons.prems obtain m' where m': "redact_from names m = Inr (m', filter (is_secret_set m) names)"
      and g: "\<forall>k. gomap_get m' k = (if k \<in> set names \<and> is_secret_set m k then Some (JStr []) else gomap_get m k)" by auto
    have "gomap_get m' k = (if k \<in> set (name # names) \<and> is_secret_set m k then Some (JStr []) else gomap_get m k)" for k
      using g False by (cases "k = name") simp_all
    with m' False show ?thesis by (intro exI [of _ m']) simp
  qed
qed simp

lemma redact_from_nil: "redact_from names m = Inr (m', set_names) \<Longrightarrow> m' = NilMap \<longleftrightarrow> m = NilMap"
proof (induction names arbitrary: m m' set_names)
  case (Cons name names)
  then show ?case by (cases m) (auto split: if_splits sum.splits prod.splits simp: is_secret_set_def)
qed auto

lemma distinct_secrets: "distinct (secrets kind)"
  by (simp add: secrets_def)


definition example_settings :: json where
  "example_settings = JObj [(''host'', JStr ''mail''), (''user'', JStr ''ops''), (''password'', JStr ''hunter2'')]"


definition kept :: "gomap \<Rightarrow> gomap \<Rightarrow> string \<Rightarrow> bool" where
  "kept old m k \<longleftrightarrow> left_empty m k \<and> (\<exists>v. gomap_get old k = Some v \<and> v \<noteq> JNull)"

lemma keep_from_spec:
  assumes "distinct names" and "m \<noteq> NilMap \<or> (\<forall>k \<in> set names. \<not> kept old m k)"
  shows "\<exists>m'. keep_from names old m = Inr m' \<and> (m' = NilMap \<longleftrightarrow> m = NilMap) \<and>
    (\<forall>k. gomap_get m' k = (if k \<in> set names \<and> kept old m k then gomap_get old k else gomap_get m k))"
  using assms
proof (induction names arbitrary: m)
  case (Cons name names)
  show ?case
  proof (cases "kept old m name")
    case True
    then obtain v where v: "gomap_get old name = Some v" "v \<noteq> JNull" "left_empty m name" by (auto simp: kept_def)
    obtain f where f: "m = GoMap f" using True Cons.prems(2) by (cases m) auto
    let ?m1 = "GoMap (f(name \<mapsto> v))"
    have same: "kept old ?m1 k = kept old m k" if "k \<noteq> name" for k using that by (simp add: kept_def left_empty_def f)
    obtain m' where m': "keep_from names old ?m1 = Inr m'" "m' \<noteq> NilMap"
      and g: "\<forall>k. gomap_get m' k = (if k \<in> set names \<and> kept old ?m1 k then gomap_get old k else gomap_get ?m1 k)"
      using Cons.IH [of ?m1] Cons.prems(1) by auto
    have "gomap_get m' k = (if k \<in> set (name # names) \<and> kept old m k then gomap_get old k else gomap_get m k)" for k
    proof (cases "k = name")
      case True
      with g Cons.prems(1) \<open>kept old m name\<close> v(1) show ?thesis by simp
    next
      case False
      with g same [OF False] show ?thesis by (simp add: f)
    qed
    with m' v f show ?thesis by simp
  next
    case False
    then have step: "keep_from (name # names) old m = keep_from names old m" by (auto simp: kept_def split: option.split)
    have "m \<noteq> NilMap \<or> (\<forall>k \<in> set names. \<not> kept old m k)" using Cons.prems(2) by auto
    with Cons.IH [of m] Cons.prems(1) obtain m' where m': "keep_from names old m = Inr m'" "m' = NilMap \<longleftrightarrow> m = NilMap"
      and g: "\<forall>k. gomap_get m' k = (if k \<in> set names \<and> kept old m k then gomap_get old k else gomap_get m k)" by auto
    have "gomap_get m' k = (if k \<in> set (name # names) \<and> kept old m k then gomap_get old k else gomap_get m k)" for k
      using g False by (cases "k = name") simp_all
    with m' step show ?thesis by (intro exI [of _ m']) simp
  qed
qed simp

lemma gomap_eqI: "(m = NilMap \<longleftrightarrow> m' = NilMap) \<Longrightarrow> (\<And>k. gomap_get m k = gomap_get m' k) \<Longrightarrow> m = m'"
  by (cases m; cases m') (auto simp: fun_eq_iff)

text \<open>Saving settings as they were shown changes nothing: when the redacted settings come back unedited, \<open>KeepSecrets\<close>
  gives exactly the settings that were redacted.\<close>

theorem KeepSecrets_Redact:
  assumes "Redact kind current = Inr (shown, names)" and "map_of_json back_again = Inr shown"
  shows "KeepSecrets kind current back_again = map_of_json current"
proof -
  from assms(1) obtain m where m: "map_of_json current = Inr m" and r: "redact_from (secrets kind) m = Inr (shown, names)"
    by (cases "map_of_json current") (auto simp: Redact_def)
  have g: "gomap_get shown k = (if k \<in> set (secrets kind) \<and> is_secret_set m k then Some (JStr []) else gomap_get m k)" for k
    using redact_from_spec [OF distinct_secrets, of kind m] r by auto
  have nil: "shown = NilMap \<longleftrightarrow> m = NilMap"
    using r redact_from_nil by metis
  have "shown \<noteq> NilMap \<or> (\<forall>k \<in> set (secrets kind). \<not> kept m shown k)" using nil by (auto simp: kept_def)
  from keep_from_spec [OF distinct_secrets this] obtain m' where m': "keep_from (secrets kind) m shown = Inr m'" "m' = NilMap \<longleftrightarrow> shown = NilMap"
    and g': "\<And>k. gomap_get m' k = (if k \<in> set (secrets kind) \<and> kept m shown k then gomap_get m k else gomap_get shown k)" by blast
  have "gomap_get m' k = gomap_get m k" for k
  proof (cases "k \<in> set (secrets kind) \<and> is_secret_set m k")
    case True
    then have "kept m shown k" using g [of k] by (auto simp: kept_def left_empty_def is_secret_set_def split: option.splits json.splits)
    with True g' show ?thesis by simp
  next
    case False
    with g [of k] g' [of k] show ?thesis by (simp split: if_splits)
  qed
  with m'(2) nil have "m' = m" by (intro gomap_eqI) auto
  with m m'(1) assms(2) show ?thesis by (simp add: KeepSecrets_def)
qed

theorem KeepSecrets_Redact_witness:
  "KeepSecrets Email example_settings (JObj [(''host'', JStr ''mail''), (''user'', JStr ''ops''), (''password'', JStr [])]) = map_of_json example_settings"
proof -
  let ?shown = "GoMap [''host'' \<mapsto> JStr ''mail'', ''user'' \<mapsto> JStr ''ops'', ''password'' \<mapsto> JStr []]"
  have "Redact Email example_settings = Inr (?shown, [''password''])"
    by (simp add: Redact_def example_settings_def map_of_json_def secrets_def is_secret_set_def fun_eq_iff)
  moreover have "map_of_json (JObj [(''host'', JStr ''mail''), (''user'', JStr ''ops''), (''password'', JStr [])]) = Inr ?shown"
    by (simp add: map_of_json_def fun_eq_iff)
  ultimately show ?thesis by (rule KeepSecrets_Redact)
qed

text \<open>Saving the settings null over a channel with a secret is not an error but a panic: \<open>json.Unmarshal\<close> of null makes the
  map nil, and \<open>KeepSecrets\<close> writes the old secret into it.\<close>

theorem KeepSecrets_null_panics:
  assumes "map_of_json current = Inr m" and "\<exists>name \<in> set (secrets kind). is_secret_set m name"
  shows "KeepSecrets kind current JNull = Inl nil_map_panic"
proof -
  have "keep_from names m NilMap = Inl nil_map_panic" if "\<exists>name \<in> set names. is_secret_set m name" for names
    using that
  proof (induction names)
    case (Cons name names)
    show ?case
    proof (cases "gomap_get m name = None \<or> gomap_get m name = Some JNull")
      case True
      then have "\<not> is_secret_set m name" by (auto simp: is_secret_set_def)
      with Cons True show ?thesis by (auto split: option.split)
    next
      case False
      then obtain v where "gomap_get m name = Some v" "v \<noteq> JNull" by auto
      then show ?thesis by (simp add: left_empty_def)
    qed
  qed simp
  with assms show ?thesis by (simp add: KeepSecrets_def map_of_json_def)
qed

theorem KeepSecrets_null_panics_witness: "KeepSecrets Email example_settings JNull = Inl nil_map_panic"
proof -
  obtain m where m: "map_of_json example_settings = Inr m" by (simp add: map_of_json_def example_settings_def)
  then have "gomap_get m ''password'' = Some (JStr ''hunter2'')" by (auto simp: map_of_json_def example_settings_def)
  then have "\<exists>name \<in> set (secrets Email). is_secret_set m name" by (simp add: secrets_def is_secret_set_def)
  from KeepSecrets_null_panics [OF m this] show ?thesis .
qed

text \<open>A secret is only hidden under the exact spelling of its name. \<open>Parse\<close> takes a field whatever the case of its letters,
  as encoding/json does, so the settings of a Slack channel with \<open>Token\<close> work, and are shown with the token in them.\<close>

theorem Redact_misses_other_case:
  assumes "token \<noteq> []"
  shows "Parse_channel address url Slack (JObj [(''Token'', JStr token), (''channel'', JStr ''#ops'')]) =
      Inr (SlackSender \<lparr>sl_Token = token, sl_Channel = ''#ops''\<rparr>) \<and>
    (\<exists>m'. Redact Slack (JObj [(''Token'', JStr token), (''channel'', JStr ''#ops'')]) = Inr (m', []) \<and> gomap_get m' ''Token'' = Some (JStr token))"
proof
  have "fold_name ''Token'' = ''token''" "fold_name ''channel'' = ''channel''" "TrimSpace ''#ops'' = ''#ops''" by code_simp+
  then show "Parse_channel address url Slack (JObj [(''Token'', JStr token), (''channel'', JStr ''#ops'')]) =
      Inr (SlackSender \<lparr>sl_Token = token, sl_Channel = ''#ops''\<rparr>)"
    using assms by (simp add: Parse_channel_def checked_sender_def decode_struct_def slack_setter_def put_string_def validate_slack_def)
  show "\<exists>m'. Redact Slack (JObj [(''Token'', JStr token), (''channel'', JStr ''#ops'')]) = Inr (m', []) \<and> gomap_get m' ''Token'' = Some (JStr token)"
    by (simp add: Redact_def map_of_json_def secrets_def is_secret_set_def)
qed

theorem Redact_misses_other_case_witness:
  "\<exists>m'. Redact Slack (JObj [(''Token'', JStr ''xoxb-1''), (''channel'', JStr ''#ops'')]) = Inr (m', []) \<and> gomap_get m' ''Token'' = Some (JStr ''xoxb-1'')"
  using Redact_misses_other_case [of "''xoxb-1''"] by blast

section \<open>Parse\<close>

text \<open>What a sender that passed the checks of its kind looks like.\<close>

fun sender_ok :: "address_parse \<Rightarrow> url_parse \<Rightarrow> Sender \<Rightarrow> bool" where
  "sender_ok address url (EmailSender e) \<longleftrightarrow> em_Host e \<noteq> [] \<and> 1 \<le> em_Port e \<and> em_Port e \<le> 65535 \<and> (em_User e \<noteq> [] \<longrightarrow> em_Password e \<noteq> []) \<and>
     em_To e \<noteq> [] \<and> (\<forall>a \<in> set (em_From e # em_To e). address a = Inr ())"
| "sender_ok address url (SlackSender s) \<longleftrightarrow> sl_Token s \<noteq> [] \<and> sl_Channel s \<noteq> []"
| "sender_ok address url (PagerDutySender p) \<longleftrightarrow> pd_RoutingKey p \<noteq> []"
| "sender_ok address url (WebhookSender w) \<longleftrightarrow>
     (\<exists>scheme host. url (wh_URL w) = Some (scheme, host) \<and> scheme \<in> {''http'', ''https''} \<and> host \<noteq> []) \<and>
     validHeaderName (wh_HeaderName w) \<and> (wh_HeaderValue w \<noteq> [] \<longrightarrow> wh_HeaderName w \<noteq> []) \<and>
     CHR 0x0D \<notin> set (wh_HeaderValue w) \<and> CHR 0x0A \<notin> set (wh_HeaderValue w)"

lemma check_addresses_ok: "check_addresses address tos = Inr () \<longleftrightarrow> (\<forall>a \<in> set tos. address a = Inr ())"
  by (induction tos) (auto split: sum.split)

lemma checked_sender_Inr:
  assumes "checked_sender con validate decoded = Inr s"
  obtains r r' where "decoded = Inr r" "validate r = (Inr (), r')" "s = con r'"
  using assms by (auto simp: checked_sender_def split: sum.splits prod.splits)

lemma validate_email_ok: "validate_email address e0 = (Inr (), e) \<Longrightarrow> sender_ok address url (EmailSender e)"
  by (auto simp: validate_email_def Let_def check_addresses_ok split: if_splits sum.splits)

lemma validate_slack_ok: "validate_slack s0 = (Inr (), s) \<Longrightarrow> sender_ok address url (SlackSender s)"
  by (auto simp: validate_slack_def Let_def split: if_splits)

lemma validate_pagerduty_ok: "validate_pagerduty p0 = (Inr (), p) \<Longrightarrow> sender_ok address url (PagerDutySender p)"
  by (auto simp: validate_pagerduty_def Let_def split: if_splits)

lemma validate_webhook_ok: "validate_webhook url w0 = (Inr (), w) \<Longrightarrow> sender_ok address url (WebhookSender w)"
  by (auto simp: validate_webhook_def Let_def validHeaderName_def split: if_splits option.splits prod.splits)

text \<open>C40. Whatever settings \<open>Parse\<close> accepts give a sender of the asked kind that can be used: an email channel has a server, a
  port from 1 to 65535, addresses that parse and a password with its user; a webhook goes to http or https and its
  header cannot break out of its line.\<close>

theorem Parse_channel_sound:
  assumes "Parse_channel address url kind settings = Inr sender"
  shows "kind \<in> set Kinds \<and> sender_ok address url sender \<and>
    (case sender of EmailSender _ \<Rightarrow> kind = Email | SlackSender _ \<Rightarrow> kind = Slack | PagerDutySender _ \<Rightarrow> kind = PagerDuty | WebhookSender _ \<Rightarrow> kind = Webhook)"
proof -
  consider (email) "kind = Email" | (slack) "kind = Slack" | (pagerduty) "kind = PagerDuty" | (webhook) "kind = Webhook"
    using assms by (auto simp: Parse_channel_def split: if_splits)
  then show ?thesis
  proof cases
    case email
    with assms obtain e where "sender = EmailSender e" "sender_ok address url sender"
      by (auto simp: Parse_channel_def elim!: checked_sender_Inr dest: validate_email_ok)
    with email show ?thesis by (simp add: Kinds_def)
  next
    case slack
    with assms have "checked_sender SlackSender validate_slack (decode_struct slack_setter \<lparr>sl_Token = [], sl_Channel = []\<rparr> settings) = Inr sender"
      by (simp add: Parse_channel_def kind_neq_sym)
    then obtain e where "sender = SlackSender e" "sender_ok address url sender" by (rule checked_sender_Inr) (blast dest: validate_slack_ok)
    with slack show ?thesis by (simp add: Kinds_def)
  next
    case pagerduty
    with assms have "checked_sender PagerDutySender validate_pagerduty (decode_struct pagerduty_setter \<lparr>pd_RoutingKey = []\<rparr> settings) = Inr sender"
      by (simp add: Parse_channel_def kind_neq_sym)
    then obtain e where "sender = PagerDutySender e" "sender_ok address url sender" by (rule checked_sender_Inr) (blast dest: validate_pagerduty_ok)
    with pagerduty show ?thesis by (simp add: Kinds_def)
  next
    case webhook
    with assms have "checked_sender WebhookSender (validate_webhook url)
        (decode_struct webhook_setter \<lparr>wh_URL = [], wh_HeaderName = [], wh_HeaderValue = []\<rparr> settings) = Inr sender"
      by (simp add: Parse_channel_def kind_neq_sym)
    then obtain e where "sender = WebhookSender e" "sender_ok address url sender" by (rule checked_sender_Inr) (blast dest: validate_webhook_ok)
    with webhook show ?thesis by (simp add: Kinds_def)
  qed
qed

definition example_hook :: json where
  "example_hook = JObj [(''url'', JStr '' https://hook/x ''), (''headerName'', JStr ''X-Key''), (''headerValue'', JStr ''k'')]"

theorem Parse_channel_sound_witness:
  "sender_ok (\<lambda>_. Inr ()) (\<lambda>u. Some (''https'', ''hook'')) (WebhookSender \<lparr>wh_URL = ''https://hook/x'', wh_HeaderName = ''X-Key'', wh_HeaderValue = ''k''\<rparr>)"
proof -
  have "Parse_channel (\<lambda>_. Inr ()) (\<lambda>u. Some (''https'', ''hook'')) Webhook example_hook =
      Inr (WebhookSender \<lparr>wh_URL = ''https://hook/x'', wh_HeaderName = ''X-Key'', wh_HeaderValue = ''k''\<rparr>)" by code_simp
  from Parse_channel_sound [OF this] show ?thesis by blast
qed

text \<open>A value that is not a number silences two kinds of channel: whatever the network answers, a webhook and a PagerDuty
  channel cannot send an event about NaN or an infinite value, because JSON has no form for it. Only a resolution
  gets through to PagerDuty, which does not carry the value.\<close>

theorem nonfinite_value_not_sent:
  assumes "\<And>x. m_Value msg \<noteq> Fin x" and "m_Event msg \<noteq> Resolved_event"
  shows "(\<exists>e. Send nw (WebhookSender w) msg ref = Inl e) \<and> (\<exists>e. Send nw (PagerDutySender p) msg ref = Inl e)"
proof
  have "\<exists>e. json_float (m_Value msg) = Inl e" using assms(1) by (cases "m_Value msg") auto
  then obtain e where e: "json_float (m_Value msg) = Inl e" ..
  then show "\<exists>e. Send nw (WebhookSender w) msg ref = Inl e" by (simp add: webhook_Send_def webhook_body_def postJSON_def)
  from e show "\<exists>e. Send nw (PagerDutySender p) msg ref = Inl e"
    using assms(2) by (simp add: pagerduty_Send_def pagerduty_trigger_def postJSON_def Let_def)
qed

definition example_inf :: Message where
  "example_inf = \<lparr>m_Event = Opened_event, m_Severity = 2, m_Subject = [], m_Body = [], m_Host = [], m_Rule = [], m_Metric = [], m_Target = [],
     m_Value = PInf, m_AlertID = 1, m_StartedAt = 0, m_At = 0, m_Link = []\<rparr>"

theorem nonfinite_value_not_sent_witness:
  "\<exists>e. Send \<lparr>nw_http = (\<lambda>_ _ _. Inr (200, [], [])), nw_canonical = (\<lambda>s. s), nw_slack_reply = (\<lambda>_. None), nw_smtp = (\<lambda>_ _. Inr ()), nw_nanos = 0\<rparr>
     (WebhookSender \<lparr>wh_URL = ''https://hook'', wh_HeaderName = [], wh_HeaderValue = []\<rparr>) example_inf [] = Inl e"
proof -
  have "\<And>x. m_Value example_inf \<noteq> Fin x" "m_Event example_inf \<noteq> Resolved_event" by (simp_all add: example_inf_def)
  from nonfinite_value_not_sent [OF this] show ?thesis by blast
qed

end
