(* ===== verification/Evaluator.thy ===== *)
theory Evaluator
  imports AlertText Channels
begin

text \<open>
  The alert evaluator: collector/evaluator.go and the cluster part of collector/kube.go. The store is
  the Go interface \<open>alertStore\<close>, a record of operations on whatever is behind it ('s), and \<open>notify\<close> is
  a function on that state, so the evaluator is proved for every store that keeps the laws of the
  locale \<open>alert_store\<close>. \<open>e.now()\<close> is the argument \<open>now\<close> of one evaluation.
\<close>

section \<open>Interface and state\<close>

record 's alertStore =
  st_LatestValue :: "string \<Rightarrow> string \<Rightarrow> string \<Rightarrow> bool \<Rightarrow> (float64 \<times> time, 's) act"
  st_LastSeen :: "string \<Rightarrow> (time, 's) act"
  st_DaysUntilFull :: "string \<Rightarrow> string \<Rightarrow> (float64, 's) act"
  st_LatestEndpointCheck :: "string \<Rightarrow> (EndpointCheck, 's) act"
  st_LatestCertificate :: "string \<Rightarrow> (time \<times> time, 's) act"
  st_Cluster :: "string \<Rightarrow> (Cluster, 's) act"
  st_RestartsSince :: "string \<Rightarrow> time \<Rightarrow> (string \<rightharpoonup> int, 's) act"
  st_Alerts :: "AlertFilter \<Rightarrow> (Alert list, 's) act"
  st_OpenAlert :: "string \<Rightarrow> string \<Rightarrow> string \<Rightarrow> string \<Rightarrow> (Alert option, 's) act"
  st_CreateAlert :: "Alert \<Rightarrow> (int, 's) act"
  st_UpdateAlert :: "int \<Rightarrow> int \<Rightarrow> float64 \<Rightarrow> time \<Rightarrow> (unit, 's) act"
  st_ResolveAlert :: "int \<Rightarrow> float64 \<Rightarrow> time \<Rightarrow> (unit, 's) act"

record pendingStatus =
  pe_status :: StatusType
  pe_since :: time

text \<open>An alert event, written for people.\<close>

record notice =
  no_alertID :: int
  no_rule :: AlertConfig
  no_host :: string
  no_target :: string
  no_event :: string
  no_severity :: int
  no_value :: float64
  no_subject :: string
  no_body :: string
  no_at :: time

record 's evaluator =
  ev_store :: 's
  pending :: "string \<rightharpoonup> pendingStatus"
  checked :: "string \<rightharpoonup> time"
  checkErrors :: "string \<rightharpoonup> string"
  reasons :: "string \<rightharpoonup> string"

definition newEvaluator :: "'s \<Rightarrow> 's evaluator" where
  "newEvaluator st = \<lparr>ev_store = st, pending = Map.empty, checked = Map.empty, checkErrors = Map.empty, reasons = Map.empty\<rparr>"

text \<open>A call of the store, and passing a notice on.\<close>

definition on_store :: "('a, 's) act \<Rightarrow> ('a, 's evaluator) act" where
  "on_store m e = (case m (ev_store e) of (r, s) \<Rightarrow> (r, e\<lparr>ev_store := s\<rparr>))"

type_synonym 's notifier = "notice \<Rightarrow> 's \<Rightarrow> 's"

definition tell :: "'s notifier \<Rightarrow> notice \<Rightarrow> (unit, 's evaluator) act" where
  "tell notify n e = (Inr (), e\<lparr>ev_store := notify n (ev_store e)\<rparr>)"

section \<open>Checking one value\<close>

definition alertKey :: "string \<Rightarrow> AlertConfig \<Rightarrow> string \<Rightarrow> string" where
  "alertKey host rule target = host @ ''|'' @ rule_Name rule @ ''|'' @ rule_MetricName rule @ ''|'' @ target"

definition message ::
  "'s evaluator \<Rightarrow> AlertConfig \<Rightarrow> string \<Rightarrow> string \<Rightarrow> int \<Rightarrow> string \<Rightarrow> StatusType \<Rightarrow> float64 \<Rightarrow> time \<Rightarrow> notice" where
  "message e rule host target aid event status value t =
     (let (subject, body) =
        (if IsKube (rule_MetricName rule) then
           kubeText rule target (map_get [] (reasons e) (rule_Name rule @ ''|'' @ target)) status value t
         else if rule_MetricName rule = ENDPOINT then
           endpointText rule (f_to_int value) (map_get [] (checkErrors e) (rule_Name rule)) (status = Normal) t
         else if rule_MetricName rule = CERTIFICATE then certificateText rule value status t
         else alertText rule host status value t)
      in \<lparr>no_alertID = aid, no_rule = rule, no_host = host, no_target = target, no_event = event,
          no_severity = status_int status, no_value = value, no_subject = subject, no_body = body, no_at = t\<rparr>)"

definition send ::
  "'s notifier \<Rightarrow> AlertConfig \<Rightarrow> string \<Rightarrow> string \<Rightarrow> int \<Rightarrow> string \<Rightarrow> StatusType \<Rightarrow> float64 \<Rightarrow> time \<Rightarrow> (unit, 's evaluator) act" where
  "send notify rule host target aid event status value t e =
     tell notify (message e rule host target aid event status value t) e"

definition set_pending :: "string \<Rightarrow> pendingStatus \<Rightarrow> (unit, 's evaluator) act" where
  "set_pending key p = modify (\<lambda>e. e\<lparr>pending := (pending e)(key \<mapsto> p)\<rparr>)"

definition delete_pending :: "string \<Rightarrow> (unit, 's evaluator) act" where
  "delete_pending key = modify (\<lambda>e. e\<lparr>pending := map_delete key (pending e)\<rparr>)"

definition updateOpen ::
  "'s alertStore \<Rightarrow> 's notifier \<Rightarrow> AlertConfig \<Rightarrow> string \<Rightarrow> string \<Rightarrow> Alert \<Rightarrow> StatusType \<Rightarrow> float64 \<Rightarrow> time \<Rightarrow>
     (unit, 's evaluator) act" where
  "updateOpen st notify rule host key opn status value t e =
     (if status = Normal then
        (case pending e key of
           None \<Rightarrow> set_pending key \<lparr>pe_status = Normal, pe_since = t\<rparr> e
         | Some p \<Rightarrow>
             if pe_status p \<noteq> Normal then set_pending key \<lparr>pe_status = Normal, pe_since = t\<rparr> e
             else if time_sub t (pe_since p) < triggerInterval rule then (Inr (), e)
             else bindE (on_store (st_ResolveAlert st (al_ID opn) value t)) (\<lambda>_.
                  bindE (delete_pending key) (\<lambda>_.
                  send notify rule host (al_Target opn) (al_ID opn) Resolved_event status value t)) e)
      else
        bindE (delete_pending key) (\<lambda>_.
          if status_int status = al_Severity opn then ret ()
          else bindE (on_store (st_UpdateAlert st (al_ID opn) (status_int status) value t)) (\<lambda>_.
               send notify rule host (al_Target opn) (al_ID opn) Changed_event status value t)) e)"

text \<open>The alert \<open>CreateAlert\<close> is given; the fields the code leaves out are zero.\<close>

definition new_alert :: "AlertConfig \<Rightarrow> string \<Rightarrow> string \<Rightarrow> StatusType \<Rightarrow> float64 \<Rightarrow> time \<Rightarrow> Alert" where
  "new_alert rule host target status value t =
     \<lparr>al_ID = 0, al_Host = host, al_Rule = rule_Name rule, al_Metric = rule_MetricName rule, al_Target = target,
      al_Severity = status_int status, al_Value = value, al_StartedAt = t, al_UpdatedAt = zero_time, al_ResolvedAt = None\<rparr>"

definition openIfBreached ::
  "'s alertStore \<Rightarrow> 's notifier \<Rightarrow> AlertConfig \<Rightarrow> string \<Rightarrow> string \<Rightarrow> string \<Rightarrow> StatusType \<Rightarrow> float64 \<Rightarrow> time \<Rightarrow>
     (unit, 's evaluator) act" where
  "openIfBreached st notify rule host target key status value t e =
     (if status = Normal then delete_pending key e
      else case pending e key of
        None \<Rightarrow> set_pending key \<lparr>pe_status = status, pe_since = t\<rparr> e
      | Some p \<Rightarrow>
          if pe_status p = Normal then set_pending key \<lparr>pe_status = status, pe_since = t\<rparr> e
          else if time_sub t (pe_since p) < triggerInterval rule then (Inr (), e)
          else bindE (on_store (st_CreateAlert st (new_alert rule host target status value t))) (\<lambda>aid.
               bindE (delete_pending key) (\<lambda>_.
               send notify rule host target aid Opened_event status value t)) e)"

definition already_checked :: "'s evaluator \<Rightarrow> string \<Rightarrow> time \<Rightarrow> bool" where
  "already_checked e key t = (case checked e key of None \<Rightarrow> False | Some seen \<Rightarrow> \<not> time_after t seen)"

definition mark_checked :: "string \<Rightarrow> time \<Rightarrow> (unit, 's evaluator) act" where
  "mark_checked key t = modify (\<lambda>e. e\<lparr>checked := (checked e)(key \<mapsto> t)\<rparr>)"

definition check ::
  "'s alertStore \<Rightarrow> 's notifier \<Rightarrow> AlertConfig \<Rightarrow> string \<Rightarrow> string \<Rightarrow> float64 \<Rightarrow> time \<Rightarrow> (unit, 's evaluator) act" where
  "check st notify rule host target value t e =
     (let key = alertKey host rule target; status = ruleStatus rule value in
      if already_checked e key t then (Inr (), e)
      else bindE (mark_checked key t) (\<lambda>_.
           bindE (on_store (st_OpenAlert st host (rule_Name rule) (rule_MetricName rule) target)) (\<lambda>found.
           case found of
             Some opn \<Rightarrow> updateOpen st notify rule host key opn status value t
           | None \<Rightarrow> openIfBreached st notify rule host target key status value t)) e)"

section \<open>The value a rule checks\<close>

definition latest ::
  "'s alertStore \<Rightarrow> time \<Rightarrow> AlertConfig \<Rightarrow> string \<Rightarrow> string \<Rightarrow> (float64 \<times> time, 's evaluator) act" where
  "latest st now rule host target =
     (if rule_MetricName rule = ENDPOINT then
        bindE (on_store (st_LatestEndpointCheck st (rule_Name rule))) (\<lambda>ck.
        bindE (modify (\<lambda>e. e\<lparr>checkErrors := (checkErrors e)(rule_Name rule \<mapsto> ck_Error ck)\<rparr>)) (\<lambda>_.
        ret (f_of_int (ck_StatusCode ck), ck_Time ck)))
      else if rule_MetricName rule = CERTIFICATE then
        bindE (on_store (st_LatestCertificate st (rule_Name rule))) (\<lambda>(expires, seen).
        ret (f_div (dur_Hours (time_sub expires seen)) (Fin 24), seen))
      else if rule_MetricName rule = DISK_FORECAST then
        bindE (on_store (st_DaysUntilFull st host target)) (\<lambda>days. ret (days, now))
      else if rule_MetricName rule \<noteq> PING then
        on_store (st_LatestValue st host (rule_MetricName rule) target (rule_IsCustom rule))
      else
        bindE (on_store (st_LastSeen st host)) (\<lambda>lastSeen.
          if lastSeen = zero_time then fail ErrNotFound
          else ret (dur_Seconds (time_sub now lastSeen), now)))"

section \<open>Clusters\<close>

record kubeTarget =
  kt_target :: string
  kt_value :: float64
  kt_reason :: string

definition first_nonempty :: "string list \<Rightarrow> string" where
  "first_nonempty ss = (case find (\<lambda>s. s \<noteq> []) ss of None \<Rightarrow> [] | Some s \<Rightarrow> s)"

definition podReason :: "Pod list \<Rightarrow> bool \<Rightarrow> string" where
  "podReason pods lastRun =
     first_nonempty (map pod_Reason pods @
       (if lastRun then concat (map (\<lambda>p. map pc_LastReason (pod_Containers p)) pods) else []))"

text \<open>The keys in the order \<open>add\<close> first saw them, and the pods of each key in the order of the state.\<close>

definition inNamespace :: "AlertConfig \<Rightarrow> string \<Rightarrow> bool" where
  "inNamespace rule namespace \<longleftrightarrow> rule_Namespace rule = [] \<or> rule_Namespace rule = namespace"

definition add_key :: "string list \<Rightarrow> string \<Rightarrow> string list" where
  "add_key keys key = (if key \<in> set keys then keys else keys @ [key])"

definition target_keys :: "AlertConfig \<Rightarrow> ClusterState \<Rightarrow> string list" where
  "target_keys rule state =
     (let keys = foldl add_key [] (map Key (filter (\<lambda>w. inNamespace rule (wl_Namespace w)) (cs_Workloads state)))
      in if rule_MetricName rule = KUBE_WORKLOAD then keys
         else foldl add_key keys (map WorkloadKey (filter (\<lambda>p. inNamespace rule (pod_Namespace p)) (cs_Pods state))))"

definition pods_of_key :: "ClusterState \<Rightarrow> string list \<Rightarrow> string \<Rightarrow> Pod list" where
  "pods_of_key state keys key = (if key \<in> set keys then filter (\<lambda>p. WorkloadKey p = key) (cs_Pods state) else [])"

definition kubeTargets :: "AlertConfig \<Rightarrow> ClusterState \<Rightarrow> (string \<rightharpoonup> int) \<Rightarrow> kubeTarget list" where
  "kubeTargets rule state restarts =
     (if rule_MetricName rule = KUBE_NODE then
        map (\<lambda>n. \<lparr>kt_target = node_Name n, kt_value = (if node_Ready n then Fin 0 else Fin 1),
          kt_reason = Join (node_Pressure n) '', ''\<rparr>) (cs_Nodes state)
      else let keys = target_keys rule state; pods = pods_of_key state keys in
        if rule_MetricName rule = KUBE_WORKLOAD then
          map (\<lambda>w. \<lparr>kt_target = Key w, kt_value = f_of_int (Missing w), kt_reason = podReason (pods (Key w)) False\<rparr>)
            (filter (\<lambda>w. inNamespace rule (wl_Namespace w)) (cs_Workloads state))
        else if rule_MetricName rule = KUBE_PENDING then
          map (\<lambda>key. let waiting = filter (\<lambda>p. pod_Phase p = ''Pending'') (pods key) in
            \<lparr>kt_target = key, kt_value = f_of_int (int (length waiting)), kt_reason = podReason waiting False\<rparr>) keys
        else if rule_MetricName rule = KUBE_RESTARTS then
          map (\<lambda>key. \<lparr>kt_target = key, kt_value = f_of_int (map_get 0 restarts key), kt_reason = podReason (pods key) True\<rparr>) keys
        else [])"

definition gone_key :: "string \<Rightarrow> string set \<Rightarrow> string \<Rightarrow> bool" where
  "gone_key prefix present key =
     (case CutPrefix key prefix of None \<Rightarrow> False | Some target \<Rightarrow> target \<notin> present)"

definition forget_gone :: "AlertConfig \<Rightarrow> string set \<Rightarrow> 's evaluator \<Rightarrow> 's evaluator" where
  "forget_gone rule present e =
     (let prefix = alertKey [] rule [] in
      e\<lparr>pending := map_delete_if (gone_key prefix present) (pending e),
        checked := map_delete_if (gone_key prefix present) (checked e),
        reasons := map_delete_if (gone_key (rule_Name rule @ ''|'') present) (reasons e)\<rparr>)"

definition resolve_gone_alert ::
  "'s alertStore \<Rightarrow> 's notifier \<Rightarrow> AlertConfig \<Rightarrow> string set \<Rightarrow> time \<Rightarrow> Alert \<Rightarrow> (unit, 's evaluator) act" where
  "resolve_gone_alert st notify rule present t a =
     (if al_Metric a \<noteq> rule_MetricName rule \<or> al_Target a \<in> present then ret ()
      else bindE (on_store (st_ResolveAlert st (al_ID a) (Fin 0) t)) (\<lambda>_ e.
        let n = message e rule [] (al_Target a) (al_ID a) Resolved_event Normal (Fin 0) t;
            (subject, body) = kubeGoneText rule (al_Target a) t
        in tell notify (n\<lparr>no_subject := subject, no_body := body\<rparr>) e))"

definition resolveGone ::
  "'s alertStore \<Rightarrow> 's notifier \<Rightarrow> AlertConfig \<Rightarrow> kubeTarget list \<Rightarrow> time \<Rightarrow> (unit, 's evaluator) act" where
  "resolveGone st notify rule targets t =
     (let present = set (map kt_target targets) in
      bindE (on_store (st_Alerts st \<lparr>af_Host = [], af_Rule = rule_Name rule, af_OpenOnly = True, af_From = zero_time, af_To = zero_time\<rparr>)) (\<lambda>opn.
      bindE (for_each (resolve_gone_alert st notify rule present t) opn) (\<lambda>_.
      modify (forget_gone rule present))))"

definition check_target :: "'s alertStore \<Rightarrow> 's notifier \<Rightarrow> AlertConfig \<Rightarrow> time \<Rightarrow> kubeTarget \<Rightarrow> (unit, 's evaluator) act" where
  "check_target st notify rule t kt =
     bindE (modify (\<lambda>e. e\<lparr>reasons := (reasons e)(rule_Name rule @ ''|'' @ kt_target kt \<mapsto> kt_reason kt)\<rparr>)) (\<lambda>_.
     check st notify rule [] (kt_target kt) (kt_value kt) t)"

text \<open>\<open>errors.Is(err, store.ErrNotFound)\<close> ends an evaluation without an error.\<close>

definition or_no_data :: "('a, 's) act \<Rightarrow> ('a \<Rightarrow> (unit, 's) act) \<Rightarrow> (unit, 's) act" where
  "or_no_data m k s = (case m s of
     (Inl err, s') \<Rightarrow> if errors_Is err ErrNotFound then (Inr (), s') else (Inl err, s')
   | (Inr a, s') \<Rightarrow> k a s')"

definition evaluateCluster :: "'s alertStore \<Rightarrow> 's notifier \<Rightarrow> time \<Rightarrow> AlertConfig \<Rightarrow> (unit, 's evaluator) act" where
  "evaluateCluster st notify now rule =
     or_no_data (on_store (st_Cluster st (rule_Cluster rule))) (\<lambda>cluster.
       if Stale cluster now then ret ()
       else let t = time_Unix (cs_Time (cl_State cluster)) in
         bindE (if rule_MetricName rule = KUBE_RESTARTS
                then on_store (st_RestartsSince st (rule_Cluster rule) (t - Hour)) else ret Map.empty) (\<lambda>restarts.
         let targets = kubeTargets rule (cl_State cluster) restarts in
         bindE (for_each (check_target st notify rule t) targets) (\<lambda>_.
         resolveGone st notify rule targets t)))"

definition evaluate :: "'s alertStore \<Rightarrow> 's notifier \<Rightarrow> time \<Rightarrow> AlertConfig \<Rightarrow> string \<Rightarrow> (unit, 's evaluator) act" where
  "evaluate st notify now rule host =
     (if IsKube (rule_MetricName rule) then evaluateCluster st notify now rule
      else let target = ruleTarget rule in
        or_no_data (latest st now rule host target) (\<lambda>(value, t). check st notify rule host target value t))"

section \<open>One round of the alert checker\<close>

text \<open>The loop body of \<open>handleAlerts\<close>: every enabled rule on each of its hosts, then its certificate. An
  error is logged and the loop goes on; the log is not modelled.\<close>

definition logged :: "('a, 's) act \<Rightarrow> 's \<Rightarrow> 's" where
  "logged m s = snd (m s)"

text \<open>\<open>clock rule host\<close> is the time at which the rule is evaluated on the host; the store and the notifier see that time too.\<close>

definition evaluate_rule ::
  "(time \<Rightarrow> 's alertStore) \<Rightarrow> (time \<Rightarrow> 's notifier) \<Rightarrow> (AlertConfig \<Rightarrow> string \<Rightarrow> time) \<Rightarrow> string list \<Rightarrow> AlertConfig \<Rightarrow>
     's evaluator \<Rightarrow> 's evaluator" where
  "evaluate_rule st notify clock names rule e =
     (let eval = (\<lambda>r host. logged (evaluate (st (clock r host)) (notify (clock r host)) (clock r host) r host));
          e1 = fold (eval rule) (ruleHosts rule names) e
      in case certificateRule rule of None \<Rightarrow> e1 | Some certificate \<Rightarrow> eval certificate [] e1)"

definition handleAlerts_round ::
  "(time \<Rightarrow> 's alertStore) \<Rightarrow> (AlertConfig list, 's) act \<Rightarrow> (string list, 's) act \<Rightarrow> (time \<Rightarrow> 's notifier) \<Rightarrow>
     (AlertConfig \<Rightarrow> string \<Rightarrow> time) \<Rightarrow> 's evaluator \<Rightarrow> 's evaluator" where
  "handleAlerts_round st enabledRules hostNames notify clock e =
     (case on_store enabledRules e of
        (Inl _, e1) \<Rightarrow> e1
      | (Inr rules, e1) \<Rightarrow> (case on_store hostNames e1 of
          (Inl _, e2) \<Rightarrow> e2
        | (Inr names, e2) \<Rightarrow> fold (evaluate_rule st notify clock names) rules e2))"

section \<open>Properties\<close>

lemma pipe_split:
  assumes "a @ CHR ''|'' # b = a' @ CHR ''|'' # b'" and "CHR ''|'' \<notin> set a" and "CHR ''|'' \<notin> set a'"
  shows "a = a' \<and> b = b'"
proof -
  have "takeWhile (\<lambda>c. c \<noteq> CHR ''|'') (x @ CHR ''|'' # y) = x" if "CHR ''|'' \<notin> set x" for x y
    using that by (induction x) auto
  then have "a = a'" using assms by metis
  with assms(1) show ?thesis by simp
qed

text \<open>The evaluator keeps its state apart by host, rule, metric and target, as long as hosts, rule names and metric names
  have no \<open>|\<close> in them: then different ones never share a key.\<close>

theorem alertKey_inj:
  assumes "alertKey host rule target = alertKey host' rule' target'"
    and "CHR ''|'' \<notin> set host" and "CHR ''|'' \<notin> set host'" and "CHR ''|'' \<notin> set (rule_Name rule)" and "CHR ''|'' \<notin> set (rule_Name rule')"
    and "CHR ''|'' \<notin> set (rule_MetricName rule)" and "CHR ''|'' \<notin> set (rule_MetricName rule')"
  shows "host = host' \<and> rule_Name rule = rule_Name rule' \<and> rule_MetricName rule = rule_MetricName rule' \<and> target = target'"
proof -
  from assms(1) have eq: "host @ CHR ''|'' # rule_Name rule @ CHR ''|'' # rule_MetricName rule @ CHR ''|'' # target =
      host' @ CHR ''|'' # rule_Name rule' @ CHR ''|'' # rule_MetricName rule' @ CHR ''|'' # target'"
    by (simp add: alertKey_def)
  from pipe_split [OF eq assms(2,3)] have h: "host = host'"
    and eq2: "rule_Name rule @ CHR ''|'' # rule_MetricName rule @ CHR ''|'' # target = rule_Name rule' @ CHR ''|'' # rule_MetricName rule' @ CHR ''|'' # target'"
    by auto
  from pipe_split [OF eq2 assms(4,5)] have n: "rule_Name rule = rule_Name rule'"
    and eq3: "rule_MetricName rule @ CHR ''|'' # target = rule_MetricName rule' @ CHR ''|'' # target'" by auto
  from pipe_split [OF eq3 assms(6,7)] h n show ?thesis by simp
qed

theorem alertKey_inj_witness:
  "alertKey ''web'' (zero_rule\<lparr>rule_Name := ''cpu'', rule_MetricName := MEMORY\<rparr>) [] \<noteq> alertKey ''db'' (zero_rule\<lparr>rule_Name := ''cpu'', rule_MetricName := MEMORY\<rparr>) []"
proof
  assume "alertKey ''web'' (zero_rule\<lparr>rule_Name := ''cpu'', rule_MetricName := MEMORY\<rparr>) [] = alertKey ''db'' (zero_rule\<lparr>rule_Name := ''cpu'', rule_MetricName := MEMORY\<rparr>) []"
  from alertKey_inj [OF this] show False by (simp add: zero_rule_def MEMORY_def)
qed

text \<open>A rule name with a \<open>|\<close> breaks this. When a cluster rule is evaluated, \<open>resolveGone\<close> forgets what the evaluator keeps
  about every key that begins like the rule's own keys. A second rule named like the first one's name, a \<open>|\<close> and its
  metric has such keys for all its targets, so each evaluation of the first rule throws away the second one's pending
  status and newest sample.\<close>

theorem forget_gone_crosses_rules:
  assumes "rule_Name other = rule_Name rule @ ''|'' @ rule_MetricName rule" and "rule_MetricName other @ ''|'' @ target \<notin> present"
  shows "pending (forget_gone rule present e) (alertKey [] other target) = None \<and>
    checked (forget_gone rule present e) (alertKey [] other target) = None"
proof -
  have "CutPrefix (alertKey [] other target) (alertKey [] rule []) = Some (rule_MetricName other @ ''|'' @ target)"
    using assms(1) by (simp add: CutPrefix_Some alertKey_def)
  with assms(2) show ?thesis by (simp add: forget_gone_def Let_def gone_key_def)
qed

definition pipe_rule :: AlertConfig where
  "pipe_rule = zero_rule\<lparr>rule_Name := ''nodes|kube_node'', rule_MetricName := KUBE_NODE, rule_Cluster := ''home''\<rparr>"

theorem forget_gone_crosses_rules_witness:
  "fst (Validate (\<lambda>_. None) pipe_rule) = Inr () \<and>
   pending (forget_gone (pipe_rule\<lparr>rule_Name := ''nodes''\<rparr>) {''n1''}
     ((newEvaluator ())\<lparr>pending := [alertKey [] pipe_rule ''n1'' \<mapsto> \<lparr>pe_status = Critical, pe_since = 5\<rparr>]\<rparr>)) (alertKey [] pipe_rule ''n1'') = None"
proof -
  have "rule_Name pipe_rule = rule_Name (pipe_rule\<lparr>rule_Name := ''nodes''\<rparr>) @ ''|'' @ rule_MetricName (pipe_rule\<lparr>rule_Name := ''nodes''\<rparr>)"
    "rule_MetricName pipe_rule @ ''|'' @ ''n1'' \<notin> {''n1''}" by code_simp+
  from forget_gone_crosses_rules [OF this] have "pending (forget_gone (pipe_rule\<lparr>rule_Name := ''nodes''\<rparr>) {''n1''} e) (alertKey [] pipe_rule ''n1'') = None"
    for e :: "unit evaluator" by blast
  moreover have "fst (Validate (\<lambda>_. None) pipe_rule) = Inr ()" by code_simp
  ultimately show ?thesis by blast
qed

text \<open>A custom metric named like one of SyMon's own is never looked at. \<open>Validate\<close> accepts a rule with \<open>IsCustom\<close> for any
  metric name, but for the names of the ping, forecast, endpoint, certificate and cluster metrics \<open>evaluate\<close> does the
  same whatever \<open>LatestValue\<close>, the only way to a custom metric, would return.\<close>

theorem custom_metric_shadowed:
  assumes "rule_MetricName rule \<in> {PING, DISK_FORECAST, ENDPOINT, CERTIFICATE, KUBE_NODE, KUBE_WORKLOAD, KUBE_PENDING, KUBE_RESTARTS}"
  shows "evaluate (st\<lparr>st_LatestValue := other\<rparr>) notify now rule host = evaluate st notify now rule host"
proof -
  let ?st = "st\<lparr>st_LatestValue := other\<rparr>"
  have upd: "updateOpen ?st notify = updateOpen st notify"
    by (intro ext) (simp add: updateOpen_def split: option.split)
  have opn: "openIfBreached ?st notify = openIfBreached st notify"
    by (intro ext) (simp add: openIfBreached_def split: option.split)
  have chk: "check ?st notify = check st notify"
    by (intro ext) (simp add: check_def upd opn Let_def cong: if_cong option.case_cong)
  have gone: "resolveGone ?st notify = resolveGone st notify"
    by (simp add: resolveGone_def resolve_gone_alert_def [abs_def] fun_eq_iff cong: if_cong)
  have "latest ?st now rule host target = latest st now rule host target" if "\<not> IsKube (rule_MetricName rule)" for target
    using assms that by (auto simp: latest_def IsKube_def)
  with chk gone show ?thesis
    by (simp add: evaluate_def evaluateCluster_def check_target_def [abs_def] cong: if_cong)
qed

definition no_store :: "unit alertStore" where
  "no_store = \<lparr>st_LatestValue = \<lambda>_ _ _ _. fail ErrNotFound, st_LastSeen = \<lambda>_. ret 5, st_DaysUntilFull = \<lambda>_ _. fail ErrNotFound,
     st_LatestEndpointCheck = \<lambda>_. fail ErrNotFound, st_LatestCertificate = \<lambda>_. fail ErrNotFound, st_Cluster = \<lambda>_. fail ErrNotFound,
     st_RestartsSince = \<lambda>_ _. ret Map.empty, st_Alerts = \<lambda>_. ret [], st_OpenAlert = \<lambda>_ _ _ _. ret None,
     st_CreateAlert = \<lambda>_. ret 1, st_UpdateAlert = \<lambda>_ _ _ _. ret (), st_ResolveAlert = \<lambda>_ _ _. ret ()\<rparr>"

definition custom_ping_rule :: AlertConfig where
  "custom_ping_rule = zero_rule\<lparr>rule_Name := ''c'', rule_MetricName := PING, rule_IsCustom := True, rule_Op := ''>'', rule_Servers := [''web'']\<rparr>"

theorem custom_metric_shadowed_witness:
  "fst (Validate (\<lambda>_. None) custom_ping_rule) = Inr () \<and>
   evaluate (no_store\<lparr>st_LatestValue := \<lambda>_ _ _ _. ret (Fin 95, 7)\<rparr>) (\<lambda>_ s. s) 9 custom_ping_rule ''web'' =
   evaluate no_store (\<lambda>_ s. s) 9 custom_ping_rule ''web''"
proof
  show "fst (Validate (\<lambda>_. None) custom_ping_rule) = Inr ()" by code_simp
qed (rule custom_metric_shadowed, simp add: custom_ping_rule_def zero_rule_def)

end
