(* ===== verification/AlertMachine.thy ===== *)
theory AlertMachine
  imports Evaluator
begin

text \<open>
  What the evaluator promises about one alert. \<open>watch_step\<close> is the abstract machine of a rule on one
  target: the severity of its open alert and the status change that has not lasted long enough yet.
  The locale \<open>alert_store\<close> has the laws of the store the evaluator relies on, failing calls included,
  and \<open>check\<close> is shown to implement the machine over every such store.
\<close>

section \<open>The abstract machine\<close>

record watch =
  w_open :: "int option"
  w_pending :: "pendingStatus option"

definition breached :: "StatusType \<Rightarrow> bool" where
  "breached status \<longleftrightarrow> status \<noteq> Normal"

text \<open>A sample with a status at a time; the next state and the event people are told about.\<close>

fun watch_step :: "duration \<Rightarrow> StatusType \<Rightarrow> time \<Rightarrow> watch \<Rightarrow> watch \<times> string option" where
  "watch_step T status t w =
     (case (w_open w, w_pending w) of
        (None, p) \<Rightarrow>
          if status = Normal then (w\<lparr>w_pending := None\<rparr>, None)
          else if p = None \<or> \<not> breached (pe_status (the p)) then (w\<lparr>w_pending := Some \<lparr>pe_status = status, pe_since = t\<rparr>\<rparr>, None)
          else if time_sub t (pe_since (the p)) < T then (w, None)
          else (\<lparr>w_open = Some (status_int status), w_pending = None\<rparr>, Some Opened_event)
      | (Some sev, p) \<Rightarrow>
          if status = Normal then
            (if p = None \<or> breached (pe_status (the p)) then (w\<lparr>w_pending := Some \<lparr>pe_status = Normal, pe_since = t\<rparr>\<rparr>, None)
             else if time_sub t (pe_since (the p)) < T then (w, None)
             else (\<lparr>w_open = None, w_pending = None\<rparr>, Some Resolved_event))
          else if status_int status = sev then (w\<lparr>w_pending := None\<rparr>, None)
          else (\<lparr>w_open = Some (status_int status), w_pending = None\<rparr>, Some Changed_event))"

declare watch_step.simps [simp del]

section \<open>The laws of the store\<close>

type_synonym akey = "string \<times> string \<times> string \<times> string"

definition key_of :: "Alert \<Rightarrow> akey" where
  "key_of a = (al_Host a, al_Rule a, al_Metric a, al_Target a)"

definition rule_key :: "string \<Rightarrow> AlertConfig \<Rightarrow> string \<Rightarrow> akey" where
  "rule_key host rule target = (host, rule_Name rule, rule_MetricName rule, target)"

text \<open>The machine's state as the store (seen through \<open>opens\<close>, a map from host, rule, metric and target to
  the open alert's id and severity) and the evaluator have it.\<close>

definition watch_of :: "('s \<Rightarrow> akey \<Rightarrow> (int \<times> int) option) \<Rightarrow> string \<Rightarrow> AlertConfig \<Rightarrow> string \<Rightarrow> 's evaluator \<Rightarrow> watch" where
  "watch_of opens host rule target e =
     \<lparr>w_open = map_option snd (opens (ev_store e) (rule_key host rule target)), w_pending = pending e (alertKey host rule target)\<rparr>"

text \<open>What a check leaves alone: the other alerts, and what is kept about other keys.\<close>

definition only_touches :: "('s \<Rightarrow> akey \<Rightarrow> (int \<times> int) option) \<Rightarrow> akey \<Rightarrow> string \<Rightarrow> 's evaluator \<Rightarrow> 's evaluator \<Rightarrow> bool" where
  "only_touches opens k key e e' \<longleftrightarrow> checkErrors e' = checkErrors e \<and> reasons e' = reasons e \<and>
     (\<forall>k'. k' \<noteq> k \<longrightarrow> opens (ev_store e') k' = opens (ev_store e) k') \<and>
     (\<forall>key'. key' \<noteq> key \<longrightarrow> pending e' key' = pending e key' \<and> checked e' key' = checked e key')"

text \<open>A step that ended with an error may have changed the alert, the pending status, both or neither.\<close>

definition stepped :: "duration \<Rightarrow> StatusType \<Rightarrow> time \<Rightarrow> unit result \<Rightarrow> watch \<Rightarrow> watch \<Rightarrow> bool" where
  "stepped T status t r w w' \<longleftrightarrow> (let w1 = fst (watch_step T status t w) in
     (r = Inr () \<longrightarrow> w' = w1) \<and> w_open w' \<in> {w_open w, w_open w1} \<and> w_pending w' \<in> {w_pending w, w_pending w1})"

text \<open>
  \<open>opens\<close> is the view of the store as a map from host, rule, metric and target to the open alert's id and
  severity. A call that ends with an error may or may not have had its effect.
\<close>

locale alert_store =
  fixes st :: "time \<Rightarrow> 's alertStore"
    and notify :: "time \<Rightarrow> 's notifier"
    and inv :: "'s \<Rightarrow> bool"
    and opens :: "'s \<Rightarrow> akey \<Rightarrow> (int \<times> int) option"
  assumes OpenAlert_law: "inv s \<Longrightarrow> st_OpenAlert (st now) h r m tgt s = (found, s') \<Longrightarrow>
      inv s' \<and> opens s' = opens s \<and> (\<forall>a. found = Inr a \<longrightarrow>
        map_option (\<lambda>a. (al_ID a, al_Severity a)) a = opens s (h, r, m, tgt) \<and> (\<forall>b. a = Some b \<longrightarrow> al_Target b = tgt))"
    and CreateAlert_law: "inv s \<Longrightarrow> st_CreateAlert (st now) a s = (made, s') \<Longrightarrow>
      inv s' \<and> (opens s' = opens s \<and> (\<exists>e. made = Inl e) \<or>
        opens s (key_of a) = None \<and> (\<exists>i. opens s' = (opens s)(key_of a \<mapsto> (i, al_Severity a)) \<and> (\<forall>j. made = Inr j \<longrightarrow> j = i)))"
    and UpdateAlert_law: "inv s \<Longrightarrow> opens s k = Some (i, sev) \<Longrightarrow> st_UpdateAlert (st now) i sev' v t s = (y, s') \<Longrightarrow>
      inv s' \<and> (opens s' = opens s \<and> (\<exists>e. y = Inl e) \<or> opens s' = (opens s)(k \<mapsto> (i, sev')))"
    and ResolveAlert_law: "inv s \<Longrightarrow> opens s k = Some (i, sev) \<Longrightarrow> st_ResolveAlert (st now) i v t s = (y, s') \<Longrightarrow>
      inv s' \<and> (opens s' = opens s \<and> (\<exists>e. y = Inl e) \<or> opens s' = (opens s)(k := None))"
    and notify_law: "inv s \<Longrightarrow> inv (notify now n s) \<and> opens (notify now n s) = opens s"
begin

lemma send_step:
  assumes "inv (ev_store e)" and "send (notify now) rule host target i ev status v t e = (r, e')"
  shows "r = Inr () \<and> (\<exists>s. e' = e\<lparr>ev_store := s\<rparr> \<and> inv s \<and> opens s = opens (ev_store e))"
  using assms notify_law by (auto simp: send_def tell_def)

lemma on_store_step:
  assumes "on_store m e = (x, e')"
  obtains s where "m (ev_store e) = (x, s)" and "e' = e\<lparr>ev_store := s\<rparr>"
  using assms by (auto simp: on_store_def split: prod.splits)

lemma openIfBreached_step:
  assumes inv: "inv (ev_store e)" and closed: "opens (ev_store e) (rule_key host rule target) = None"
    and run: "openIfBreached (st now) (notify now) rule host target (alertKey host rule target) status v t e = (r, e')"
  shows "inv (ev_store e') \<and> checked e' = checked e \<and> only_touches opens (rule_key host rule target) (alertKey host rule target) e e' \<and>
    stepped (triggerInterval rule) status t r (watch_of opens host rule target e) (watch_of opens host rule target e')"
proof -
  let ?key = "alertKey host rule target" and ?k = "rule_key host rule target" and ?T = "triggerInterval rule"
  let ?a = "new_alert rule host target status v t"
  have k: "key_of ?a = ?k" "al_Severity ?a = status_int status"
    by (simp_all add: key_of_def new_alert_def rule_key_def)
  consider (normal) "status = Normal" | (first) "status \<noteq> Normal" "pending e ?key = None"
    | (other) p where "status \<noteq> Normal" "pending e ?key = Some p" "pe_status p = Normal"
    | (early) p where "status \<noteq> Normal" "pending e ?key = Some p" "pe_status p \<noteq> Normal" "time_sub t (pe_since p) < ?T"
    | (due) p where "status \<noteq> Normal" "pending e ?key = Some p" "pe_status p \<noteq> Normal" "\<not> time_sub t (pe_since p) < ?T"
    by (cases "pending e ?key") auto
  then show ?thesis
  proof cases
    case due
    have w1: "fst (watch_step ?T status t (watch_of opens host rule target e)) = \<lparr>w_open = Some (status_int status), w_pending = None\<rparr>"
      using due closed by (simp add: watch_step.simps watch_of_def breached_def)
    from run due have "bindE (on_store (st_CreateAlert (st now) ?a)) (\<lambda>aid. bindE (delete_pending ?key) (\<lambda>_.
        send (notify now) rule host target aid Opened_event status v t)) e = (r, e')"
      by (simp add: openIfBreached_def)
    then show ?thesis
    proof (cases rule: bindE_cases)
      case (err x)
      then obtain s where s: "st_CreateAlert (st now) ?a (ev_store e) = (Inl x, s)" "e' = e\<lparr>ev_store := s\<rparr>"
        by (auto elim: on_store_step)
      show ?thesis
        using CreateAlert_law [OF inv s(1)] err(2) w1 s(2)
        by (auto simp: only_touches_def stepped_def watch_of_def k fun_upd_def Let_def)
    next
      case (ok i e1)
      then obtain s where s: "st_CreateAlert (st now) ?a (ev_store e) = (Inr i, s)" "e1 = e\<lparr>ev_store := s\<rparr>"
        by (auto elim: on_store_step)
      have law: "inv s" "opens (ev_store e) ?k = None" "opens s = (opens (ev_store e))(?k \<mapsto> (i, status_int status))"
        using CreateAlert_law [OF inv s(1)] by (auto simp: k)
      let ?e2 = "e1\<lparr>pending := map_delete ?key (pending e1)\<rparr>"
      from ok(2) have sent: "send (notify now) rule host target i Opened_event status v t ?e2 = (r, e')"
        by (simp add: delete_pending_def)
      have "inv (ev_store ?e2)" using law(1) by (simp add: s(2))
      from send_step [OF this sent] obtain s3 where s3: "r = Inr ()" "e' = ?e2\<lparr>ev_store := s3\<rparr>" "inv s3"
        "opens s3 = (opens (ev_store e))(?k \<mapsto> (i, status_int status))"
        using law by (auto simp: s(2))
      show ?thesis
        using w1 s3 by (auto simp: only_touches_def stepped_def watch_of_def s(2) Let_def)
    qed
  qed (use run closed inv in \<open>auto simp: openIfBreached_def set_pending_def delete_pending_def watch_step.simps watch_of_def
      only_touches_def stepped_def breached_def Let_def\<close>)
qed

lemma updateOpen_step:
  assumes inv: "inv (ev_store e)" and found: "opens (ev_store e) (rule_key host rule target) = Some (al_ID opn, al_Severity opn)"
    and run: "updateOpen (st now) (notify now) rule host (alertKey host rule target) opn status v t e = (r, e')"
  shows "inv (ev_store e') \<and> checked e' = checked e \<and> only_touches opens (rule_key host rule target) (alertKey host rule target) e e' \<and>
    stepped (triggerInterval rule) status t r (watch_of opens host rule target e) (watch_of opens host rule target e')"
proof -
  let ?key = "alertKey host rule target" and ?k = "rule_key host rule target" and ?T = "triggerInterval rule"
  consider (same) "status \<noteq> Normal" "status_int status = al_Severity opn"
    | (change) "status \<noteq> Normal" "status_int status \<noteq> al_Severity opn"
    | (first) "status = Normal" "pending e ?key = None"
    | (other) p where "status = Normal" "pending e ?key = Some p" "pe_status p \<noteq> Normal"
    | (early) p where "status = Normal" "pending e ?key = Some p" "pe_status p = Normal" "time_sub t (pe_since p) < ?T"
    | (due) p where "status = Normal" "pending e ?key = Some p" "pe_status p = Normal" "\<not> time_sub t (pe_since p) < ?T"
    by (cases "pending e ?key") auto
  then show ?thesis
  proof cases
    case change
    let ?e1 = "e\<lparr>pending := map_delete ?key (pending e)\<rparr>"
    have w1: "fst (watch_step ?T status t (watch_of opens host rule target e)) = \<lparr>w_open = Some (status_int status), w_pending = None\<rparr>"
      using change found by (simp add: watch_step.simps watch_of_def)
    from run change have "bindE (on_store (st_UpdateAlert (st now) (al_ID opn) (status_int status) v t))
        (\<lambda>_. send (notify now) rule host (al_Target opn) (al_ID opn) Changed_event status v t) ?e1 = (r, e')"
      by (simp add: updateOpen_def delete_pending_def)
    then show ?thesis
    proof (cases rule: bindE_cases)
      case (err x)
      then obtain s where s: "st_UpdateAlert (st now) (al_ID opn) (status_int status) v t (ev_store e) = (Inl x, s)" "e' = ?e1\<lparr>ev_store := s\<rparr>"
        by (auto elim: on_store_step)
      show ?thesis
        using UpdateAlert_law [OF inv found s(1)] err(2) w1 s(2)
        by (auto simp: only_touches_def stepped_def watch_of_def Let_def)
    next
      case (ok u e2)
      then obtain s where s: "st_UpdateAlert (st now) (al_ID opn) (status_int status) v t (ev_store e) = (Inr (), s)" "e2 = ?e1\<lparr>ev_store := s\<rparr>"
        by (auto elim: on_store_step)
      have law: "inv s" "opens s = (opens (ev_store e))(?k \<mapsto> (al_ID opn, status_int status))"
        using UpdateAlert_law [OF inv found s(1)] by auto
      have "inv (ev_store e2)" using law(1) by (simp add: s(2))
      from send_step [OF this ok(2)] obtain s3 where s3: "r = Inr ()" "e' = e2\<lparr>ev_store := s3\<rparr>" "inv s3"
        "opens s3 = (opens (ev_store e))(?k \<mapsto> (al_ID opn, status_int status))"
        using law by (auto simp: s(2))
      show ?thesis
        using w1 s3 by (auto simp: only_touches_def stepped_def watch_of_def s(2) Let_def)
    qed
  next
    case due
    have w1: "fst (watch_step ?T status t (watch_of opens host rule target e)) = \<lparr>w_open = None, w_pending = None\<rparr>"
      using due found by (simp add: watch_step.simps watch_of_def breached_def)
    from run due have "bindE (on_store (st_ResolveAlert (st now) (al_ID opn) v t)) (\<lambda>_. bindE (delete_pending ?key) (\<lambda>_.
        send (notify now) rule host (al_Target opn) (al_ID opn) Resolved_event status v t)) e = (r, e')"
      by (simp add: updateOpen_def)
    then show ?thesis
    proof (cases rule: bindE_cases)
      case (err x)
      then obtain s where s: "st_ResolveAlert (st now) (al_ID opn) v t (ev_store e) = (Inl x, s)" "e' = e\<lparr>ev_store := s\<rparr>"
        by (auto elim: on_store_step)
      show ?thesis
        using ResolveAlert_law [OF inv found s(1)] err(2) w1 s(2)
        by (auto simp: only_touches_def stepped_def watch_of_def Let_def)
    next
      case (ok u e1)
      then obtain s where s: "st_ResolveAlert (st now) (al_ID opn) v t (ev_store e) = (Inr (), s)" "e1 = e\<lparr>ev_store := s\<rparr>"
        by (auto elim: on_store_step)
      have law: "inv s" "opens s = (opens (ev_store e))(?k := None)"
        using ResolveAlert_law [OF inv found s(1)] by auto
      let ?e2 = "e1\<lparr>pending := map_delete ?key (pending e1)\<rparr>"
      from ok(2) have sent: "send (notify now) rule host (al_Target opn) (al_ID opn) Resolved_event status v t ?e2 = (r, e')"
        by (simp add: delete_pending_def)
      have "inv (ev_store ?e2)" using law(1) by (simp add: s(2))
      from send_step [OF this sent] obtain s3 where s3: "r = Inr ()" "e' = ?e2\<lparr>ev_store := s3\<rparr>" "inv s3"
        "opens s3 = (opens (ev_store e))(?k := None)"
        using law by (auto simp: s(2))
      show ?thesis
        using w1 s3 by (auto simp: only_touches_def stepped_def watch_of_def s(2) Let_def)
    qed
  qed (use run found inv in \<open>auto simp: updateOpen_def set_pending_def delete_pending_def watch_step.simps watch_of_def
      only_touches_def stepped_def breached_def Let_def\<close>)
qed

text \<open>A check of a sample that was seen before does nothing; any other is a step of the machine.\<close>

lemma check_step:
  assumes inv: "inv (ev_store e)" and fresh: "\<not> already_checked e (alertKey host rule target) t"
    and run: "check (st now) (notify now) rule host target v t e = (r, e')"
  shows "inv (ev_store e') \<and> checked e' (alertKey host rule target) = Some t \<and>
    only_touches opens (rule_key host rule target) (alertKey host rule target) e e' \<and>
    stepped (triggerInterval rule) (ruleStatus rule v) t r (watch_of opens host rule target e) (watch_of opens host rule target e')"
proof -
  let ?key = "alertKey host rule target" and ?k = "rule_key host rule target"
  let ?e1 = "e\<lparr>checked := (checked e)(?key \<mapsto> t)\<rparr>"
  from run fresh have "bindE (on_store (st_OpenAlert (st now) host (rule_Name rule) (rule_MetricName rule) target)) (\<lambda>found.
      case found of Some opn \<Rightarrow> updateOpen (st now) (notify now) rule host ?key opn (ruleStatus rule v) v t
      | None \<Rightarrow> openIfBreached (st now) (notify now) rule host target ?key (ruleStatus rule v) v t) ?e1 = (r, e')"
    by (simp add: check_def mark_checked_def Let_def)
  then show ?thesis
  proof (cases rule: bindE_cases)
    case (err x)
    then obtain s where s: "st_OpenAlert (st now) host (rule_Name rule) (rule_MetricName rule) target (ev_store e) = (Inl x, s)" "e' = ?e1\<lparr>ev_store := s\<rparr>"
      by (auto elim: on_store_step)
    show ?thesis
      using OpenAlert_law [OF inv s(1)] err(2) s(2)
      by (auto simp: only_touches_def stepped_def watch_of_def Let_def)
  next
    case (ok found e2)
    then obtain s where s: "st_OpenAlert (st now) host (rule_Name rule) (rule_MetricName rule) target (ev_store e) = (Inr found, s)" "e2 = ?e1\<lparr>ev_store := s\<rparr>"
      by (auto elim: on_store_step)
    have law: "inv s" "opens s = opens (ev_store e)" "map_option (\<lambda>a. (al_ID a, al_Severity a)) found = opens (ev_store e) ?k"
      using OpenAlert_law [OF inv s(1)] by (auto simp: rule_key_def)
    have inv2: "inv (ev_store e2)" using law by (simp add: s(2))
    have "inv (ev_store e') \<and> checked e' = checked e2 \<and> only_touches opens ?k ?key e2 e' \<and>
        stepped (triggerInterval rule) (ruleStatus rule v) t r (watch_of opens host rule target e2) (watch_of opens host rule target e')"
    proof (cases found)
      case None
      with law ok(2) show ?thesis by (intro openIfBreached_step [OF inv2]) (simp_all add: s(2))
    next
      case (Some opn)
      with law ok(2) show ?thesis by (intro updateOpen_step [OF inv2]) (simp_all add: s(2))
    qed
    moreover have "watch_of opens host rule target e2 = watch_of opens host rule target e"
      by (simp add: watch_of_def s(2) law)
    ultimately show ?thesis
      by (simp add: only_touches_def s(2) law)
  qed
qed

end

section \<open>Histories\<close>

text \<open>
  The samples of one rule on one target that were checked, oldest first, each with its status, its time
  and whether its check went through, over any store. Between two samples anything may happen to the store and to the
  evaluator, also a restart, as long as it does not write a pending status for this key.
\<close>

inductive history :: "AlertConfig \<Rightarrow> string \<Rightarrow> string \<Rightarrow> (StatusType \<times> time \<times> bool) list \<Rightarrow> 's evaluator \<Rightarrow> bool"
  for rule host target where
  start: "pending e (alertKey host rule target) = None \<Longrightarrow> history rule host target [] e"
| sample: "history rule host target hs e \<Longrightarrow> \<not> already_checked e (alertKey host rule target) t \<Longrightarrow>
     check st notify rule host target v t e = (r, e') \<Longrightarrow>
     history rule host target (hs @ [(ruleStatus rule v, t, r = Inr ())]) e'"
| other: "history rule host target hs e \<Longrightarrow>
     pending e' (alertKey host rule target) \<in> {pending e (alertKey host rule target), None} \<Longrightarrow>
     history rule host target hs e'"

text \<open>How a check changes the pending status, whatever the store does.\<close>

definition pending_moves :: "StatusType \<Rightarrow> time \<Rightarrow> unit result \<Rightarrow> pendingStatus option \<Rightarrow> pendingStatus option \<Rightarrow> bool" where
  "pending_moves status t r p p' \<longleftrightarrow> p' \<in> {p, None, Some \<lparr>pe_status = status, pe_since = t\<rparr>} \<and>
     (r = Inr () \<longrightarrow> (\<forall>q. p' = Some q \<longrightarrow> breached (pe_status q) = breached status))"

lemma on_store_pending: "on_store m e = (x, e1) \<Longrightarrow> pending e1 = pending e"
  by (auto simp: on_store_def split: prod.splits)

lemma send_pending: "send notify rule host target i ev status v t e = (x, e1) \<Longrightarrow> pending e1 = pending e \<and> x = Inr ()"
  by (auto simp: send_def tell_def)

lemma after_store_pending:
  assumes "bindE (on_store m) (\<lambda>a. bindE (delete_pending key) (\<lambda>_. send notify rule host target (f a) ev status v t)) e = (r, e')"
  shows "pending_moves status' t' r (pending e key) (pending e' key)"
  using assms
proof (cases rule: bindE_cases)
  case (err x)
  then show ?thesis by (auto simp: pending_moves_def dest: on_store_pending)
next
  case (ok a e1)
  then have "pending e' key = None"
    by (auto simp: delete_pending_def dest!: send_pending)
  then show ?thesis by (simp add: pending_moves_def)
qed

lemma openIfBreached_pending:
  assumes "openIfBreached st notify rule host target key status v t e = (r, e')"
  shows "pending_moves status t r (pending e key) (pending e' key)"
proof (cases "status \<noteq> Normal \<and> (\<exists>p. pending e key = Some p \<and> pe_status p \<noteq> Normal \<and> \<not> time_sub t (pe_since p) < triggerInterval rule)")
  case True
  with assms have "bindE (on_store (st_CreateAlert st (new_alert rule host target status v t)))
      (\<lambda>aid. bindE (delete_pending key) (\<lambda>_. send notify rule host target aid Opened_event status v t)) e = (r, e')"
    by (auto simp: openIfBreached_def)
  then show ?thesis by (rule after_store_pending)
next
  case False
  with assms show ?thesis
    by (auto simp: openIfBreached_def set_pending_def delete_pending_def pending_moves_def breached_def split: option.splits if_splits)
qed

lemma updateOpen_pending:
  assumes "updateOpen st notify rule host key opn status v t e = (r, e')"
  shows "pending_moves status t r (pending e key) (pending e' key)"
proof (cases "status = Normal")
  case normal: True
  show ?thesis
  proof (cases "\<exists>p. pending e key = Some p \<and> pe_status p = Normal \<and> \<not> time_sub t (pe_since p) < triggerInterval rule")
    case True
    with assms normal have "bindE (on_store (st_ResolveAlert st (al_ID opn) v t))
        (\<lambda>_. bindE (delete_pending key) (\<lambda>_. send notify rule host (al_Target opn) (al_ID opn) Resolved_event status v t)) e = (r, e')"
      by (auto simp: updateOpen_def)
    then show ?thesis by (rule after_store_pending)
  next
    case False
    with assms normal show ?thesis
      by (auto simp: updateOpen_def set_pending_def pending_moves_def breached_def split: option.splits if_splits)
  qed
next
  case False
  with assms have "pending e' key = None"
    by (auto simp: updateOpen_def delete_pending_def split: if_splits dest!: on_store_pending send_pending elim!: bindE_cases)
  then show ?thesis by (simp add: pending_moves_def)
qed

lemma check_pending:
  assumes "\<not> already_checked e (alertKey host rule target) t" and "check st notify rule host target v t e = (r, e')"
  shows "pending_moves (ruleStatus rule v) t r (pending e (alertKey host rule target)) (pending e' (alertKey host rule target))"
proof -
  let ?key = "alertKey host rule target" and ?status = "ruleStatus rule v"
  let ?e1 = "e\<lparr>checked := (checked e)(?key \<mapsto> t)\<rparr>"
  from assms have "bindE (on_store (st_OpenAlert st host (rule_Name rule) (rule_MetricName rule) target)) (\<lambda>found.
      case found of Some opn \<Rightarrow> updateOpen st notify rule host ?key opn ?status v t
      | None \<Rightarrow> openIfBreached st notify rule host target ?key ?status v t) ?e1 = (r, e')"
    by (simp add: check_def mark_checked_def Let_def)
  then show ?thesis
  proof (cases rule: bindE_cases)
    case (err x)
    then show ?thesis by (auto simp: pending_moves_def dest: on_store_pending)
  next
    case (ok found e2)
    have same: "pending e2 = pending e" using on_store_pending [OF ok(1)] by simp
    from ok(2) show ?thesis
      unfolding same [symmetric] by (auto split: option.splits intro: openIfBreached_pending updateOpen_pending)
  qed
qed

text \<open>A pending status stands for a run of samples: it began with the sample at its time, and every sample
  since whose check went through was on the same side.\<close>

lemma history_pending:
  assumes "history rule host target hs e" and "pending e (alertKey host rule target) = Some p"
  shows "\<exists>hs1 ok0 hs2. hs = hs1 @ (pe_status p, pe_since p, ok0) # hs2 \<and>
     (\<forall>(s, t, ok) \<in> set hs2. ok \<longrightarrow> breached s = breached (pe_status p))"
  using assms
proof (induction arbitrary: p rule: history.induct)
  case (sample hs e t st notify v r e')
  from check_pending [OF sample.hyps(2,3)]
  have moves: "pending e (alertKey host rule target) = Some p \<or> p = \<lparr>pe_status = ruleStatus rule v, pe_since = t\<rparr>"
    and side: "r = Inr () \<longrightarrow> breached (pe_status p) = breached (ruleStatus rule v)"
    using sample.prems by (auto simp: pending_moves_def)
  from moves show ?case
  proof
    assume "pending e (alertKey host rule target) = Some p"
    from sample.IH [OF this] obtain hs1 ok0 hs2 where "hs = hs1 @ (pe_status p, pe_since p, ok0) # hs2"
      "\<forall>(s, t, ok) \<in> set hs2. ok \<longrightarrow> breached s = breached (pe_status p)" by blast
    with side show ?thesis
      by (intro exI [of _ hs1] exI [of _ ok0] exI [of _ "hs2 @ [(ruleStatus rule v, t, r = Inr ())]"]) auto
  next
    assume "p = \<lparr>pe_status = ruleStatus rule v, pe_since = t\<rparr>"
    then show ?thesis by (intro exI [of _ hs] exI [of _ "r = Inr ()"] exI [of _ "[]"]) simp
  qed
qed auto

context alert_store
begin

text \<open>An alert opens only at a breached sample, after a breached sample at least the trigger interval
  before, with every sample checked in between breached too. It resolves only the same way around.\<close>

lemma check_opens_safely:
  assumes hist: "history rule host target hs e" and inv: "inv (ev_store e)"
    and fresh: "\<not> already_checked e (alertKey host rule target) t"
    and run: "check (st now) (notify now) rule host target v t e = (r, e')"
    and "opens (ev_store e) (rule_key host rule target) = None" and "opens (ev_store e') (rule_key host rule target) \<noteq> None"
  shows "breached (ruleStatus rule v) \<and> (\<exists>hs1 s0 t0 ok0 hs2. hs = hs1 @ (s0, t0, ok0) # hs2 \<and> breached s0 \<and>
     triggerInterval rule \<le> time_sub t t0 \<and> (\<forall>(s, t, ok) \<in> set hs2. ok \<longrightarrow> breached s))"
proof -
  let ?w = "watch_of opens host rule target e"
  let ?w' = "watch_of opens host rule target e'"
  have "w_open ?w' \<in> {w_open ?w, w_open (fst (watch_step (triggerInterval rule) (ruleStatus rule v) t ?w))}"
    using check_step [OF inv fresh run] by (simp only: stepped_def Let_def)
  moreover have ends: "w_open ?w = map_option snd (opens (ev_store e) (rule_key host rule target))"
    "w_open ?w' = map_option snd (opens (ev_store e') (rule_key host rule target))"
    by (simp_all add: watch_of_def)
  ultimately have "w_open (fst (watch_step (triggerInterval rule) (ruleStatus rule v) t ?w)) \<noteq> None" and "w_open ?w = None"
    using assms(5,6) by (metis insertE singletonD option.map_disc_iff)+
  then obtain p where p: "pending e (alertKey host rule target) = Some p" "breached (pe_status p)" "breached (ruleStatus rule v)"
    "\<not> time_sub t (pe_since p) < triggerInterval rule"
    by (auto simp: watch_step.simps breached_def watch_of_def split: if_splits)
  with history_pending [OF hist p(1)] show ?thesis by (auto simp: not_less) blast
qed

lemma check_resolves_safely:
  assumes hist: "history rule host target hs e" and inv: "inv (ev_store e)"
    and fresh: "\<not> already_checked e (alertKey host rule target) t"
    and run: "check (st now) (notify now) rule host target v t e = (r, e')"
    and "opens (ev_store e) (rule_key host rule target) \<noteq> None" and "opens (ev_store e') (rule_key host rule target) = None"
  shows "\<not> breached (ruleStatus rule v) \<and> (\<exists>hs1 s0 t0 ok0 hs2. hs = hs1 @ (s0, t0, ok0) # hs2 \<and> \<not> breached s0 \<and>
     triggerInterval rule \<le> time_sub t t0 \<and> (\<forall>(s, t, ok) \<in> set hs2. ok \<longrightarrow> \<not> breached s))"
proof -
  let ?w = "watch_of opens host rule target e"
  let ?w' = "watch_of opens host rule target e'"
  have "w_open ?w' \<in> {w_open ?w, w_open (fst (watch_step (triggerInterval rule) (ruleStatus rule v) t ?w))}"
    using check_step [OF inv fresh run] by (simp only: stepped_def Let_def)
  moreover have ends: "w_open ?w = map_option snd (opens (ev_store e) (rule_key host rule target))"
    "w_open ?w' = map_option snd (opens (ev_store e') (rule_key host rule target))"
    by (simp_all add: watch_of_def)
  ultimately have "w_open (fst (watch_step (triggerInterval rule) (ruleStatus rule v) t ?w)) = None" and "w_open ?w \<noteq> None"
    using assms(5,6) by (metis insertE singletonD option.map_disc_iff)+
  then obtain p where p: "pending e (alertKey host rule target) = Some p" "\<not> breached (pe_status p)" "\<not> breached (ruleStatus rule v)"
    "\<not> time_sub t (pe_since p) < triggerInterval rule"
    by (auto simp: watch_step.simps breached_def watch_of_def split: if_splits)
  with history_pending [OF hist p(1)] show ?thesis by (auto simp: not_less) blast
qed

end

section \<open>Runs over a store that answers\<close>

text \<open>
  The checks of one rule on one target, one after the other, as the checker's rounds make them, each with the
  time it ran at, and the machine fed with the same samples.
\<close>

definition run_checks ::
  "(time \<Rightarrow> 's alertStore) \<Rightarrow> (time \<Rightarrow> 's notifier) \<Rightarrow> AlertConfig \<Rightarrow> string \<Rightarrow> string \<Rightarrow> (time \<times> float64 \<times> time) list \<Rightarrow>
     's evaluator \<Rightarrow> 's evaluator" where
  "run_checks st notify rule host target samples =
     fold (\<lambda>(now, v, t). logged (check (st now) (notify now) rule host target v t)) samples"

definition watch_run :: "duration \<Rightarrow> (StatusType \<times> time) list \<Rightarrow> watch \<Rightarrow> watch" where
  "watch_run T samples = fold (\<lambda>(s, t) w. fst (watch_step T s t w)) samples"

text \<open>The samples are new and come in the order of their times.\<close>

definition new_samples :: "'s evaluator \<Rightarrow> string \<Rightarrow> (time \<times> float64 \<times> time) list \<Rightarrow> bool" where
  "new_samples e key samples \<longleftrightarrow> sorted_wrt (<) (map (snd \<circ> snd) samples) \<and>
     (\<forall>t \<in> set (map (snd \<circ> snd) samples). \<not> already_checked e key t)"

text \<open>\<open>healthy\<close> says that calls to come will be answered, \<open>known\<close> that a host is registered.\<close>

locale reliable_alert_store = alert_store st notify inv opens
  for st :: "time \<Rightarrow> 's alertStore" and notify inv opens +
  fixes healthy :: "'s \<Rightarrow> bool" and known :: "'s \<Rightarrow> string \<Rightarrow> bool"
  assumes OpenAlert_answers: "inv s \<Longrightarrow> healthy s \<Longrightarrow> \<exists>a s'. st_OpenAlert (st now) h r m tgt s = (Inr a, s') \<and> healthy s' \<and> known s' = known s"
    and CreateAlert_answers: "inv s \<Longrightarrow> healthy s \<Longrightarrow> opens s (key_of a) = None \<Longrightarrow> known s (al_Host a) \<Longrightarrow>
      \<exists>i s'. st_CreateAlert (st now) a s = (Inr i, s') \<and> healthy s' \<and> known s' = known s"
    and UpdateAlert_answers: "inv s \<Longrightarrow> healthy s \<Longrightarrow> \<exists>s'. st_UpdateAlert (st now) i sev v t s = (Inr (), s') \<and> healthy s' \<and> known s' = known s"
    and ResolveAlert_answers: "inv s \<Longrightarrow> healthy s \<Longrightarrow> \<exists>s'. st_ResolveAlert (st now) i v t s = (Inr (), s') \<and> healthy s' \<and> known s' = known s"
    and notify_answers: "inv s \<Longrightarrow> healthy s \<Longrightarrow> healthy (notify now n s) \<and> known (notify now n s) = known s"
begin

definition fine :: "string \<Rightarrow> 's \<Rightarrow> bool" where
  "fine host s \<longleftrightarrow> inv s \<and> healthy s \<and> known s host"

lemma send_answers:
  assumes "fine host (ev_store e)"
  shows "\<exists>e'. send (notify now) rule host' target i ev status v t e = (Inr (), e') \<and> fine host (ev_store e')"
  using assms notify_answers notify_law by (simp add: send_def tell_def fine_def)

lemma openIfBreached_answers:
  assumes fine: "fine host (ev_store e)" and closed: "opens (ev_store e) (rule_key host rule target) = None"
  shows "\<exists>e'. openIfBreached (st now) (notify now) rule host target key status v t e = (Inr (), e') \<and> fine host (ev_store e')"
proof (cases "status \<noteq> Normal \<and> (\<exists>p. pending e key = Some p \<and> pe_status p \<noteq> Normal \<and> \<not> time_sub t (pe_since p) < triggerInterval rule)")
  case True
  let ?a = "new_alert rule host target status v t"
  have "key_of ?a = rule_key host rule target" "al_Host ?a = host"
    by (simp_all add: key_of_def new_alert_def rule_key_def)
  with closed fine obtain i s where s: "st_CreateAlert (st now) ?a (ev_store e) = (Inr i, s)" "healthy s" "known s = known (ev_store e)"
    using CreateAlert_answers [of "ev_store e" ?a now] by (auto simp: fine_def)
  have "inv s" using CreateAlert_law [OF _ s(1)] fine by (simp add: fine_def)
  let ?e2 = "e\<lparr>ev_store := s, pending := map_delete key (pending e)\<rparr>"
  have "fine host (ev_store ?e2)" using s \<open>inv s\<close> fine by (simp add: fine_def)
  from send_answers [OF this] obtain e' where "send (notify now) rule host target i Opened_event status v t ?e2 = (Inr (), e')" "fine host (ev_store e')"
    by blast
  moreover have "openIfBreached (st now) (notify now) rule host target key status v t e =
      send (notify now) rule host target i Opened_event status v t ?e2"
    using True s(1) by (auto simp: openIfBreached_def bindE_def on_store_def delete_pending_def)
  ultimately show ?thesis by simp
next
  case False
  with fine show ?thesis
    by (auto simp: openIfBreached_def set_pending_def delete_pending_def split: option.splits)
qed

lemma updateOpen_answers:
  assumes fine: "fine host (ev_store e)" and found: "opens (ev_store e) k = Some (al_ID opn, al_Severity opn)"
  shows "\<exists>e'. updateOpen (st now) (notify now) rule host key opn status v t e = (Inr (), e') \<and> fine host (ev_store e')"
proof -
  obtain s where s: "st_ResolveAlert (st now) (al_ID opn) v t (ev_store e) = (Inr (), s)" "healthy s" "known s = known (ev_store e)"
    using ResolveAlert_answers [of "ev_store e" now "al_ID opn" v t] fine by (auto simp: fine_def)
  have "inv s" using ResolveAlert_law [OF _ found s(1)] fine by (simp add: fine_def)
  let ?e2 = "e\<lparr>ev_store := s, pending := map_delete key (pending e)\<rparr>"
  have "fine host (ev_store ?e2)" using s \<open>inv s\<close> fine by (simp add: fine_def)
  from send_answers [OF this] obtain e2 where e2: "send (notify now) rule host (al_Target opn) (al_ID opn) Resolved_event status v t ?e2 = (Inr (), e2)"
    "fine host (ev_store e2)" by blast
  obtain u where u: "st_UpdateAlert (st now) (al_ID opn) (status_int status) v t (ev_store e) = (Inr (), u)" "healthy u" "known u = known (ev_store e)"
    using UpdateAlert_answers [of "ev_store e" now "al_ID opn" "status_int status" v t] fine by (auto simp: fine_def)
  have "inv u" using UpdateAlert_law [OF _ found u(1)] fine by (simp add: fine_def)
  let ?e1 = "e\<lparr>pending := map_delete key (pending e)\<rparr>" and ?e3 = "e\<lparr>pending := map_delete key (pending e), ev_store := u\<rparr>"
  have "fine host (ev_store ?e3)" using u \<open>inv u\<close> fine by (simp add: fine_def)
  from send_answers [OF this] obtain e3 where e3: "send (notify now) rule host (al_Target opn) (al_ID opn) Changed_event status v t ?e3 = (Inr (), e3)"
    "fine host (ev_store e3)" by blast
  have on: "on_store (st_ResolveAlert (st now) (al_ID opn) v t) e = (Inr (), e\<lparr>ev_store := s\<rparr>)"
    "on_store (st_UpdateAlert (st now) (al_ID opn) (status_int status) v t) ?e1 = (Inr (), ?e3)"
    using s(1) u(1) by (simp_all add: on_store_def)
  show ?thesis
    using fine e2 e3 on
    by (cases "pending e key") (auto simp: updateOpen_def set_pending_def delete_pending_def bindE_Inr)
qed

lemma check_answers:
  assumes fine: "fine host (ev_store e)"
  shows "\<exists>e'. check (st now) (notify now) rule host target v t e = (Inr (), e') \<and> fine host (ev_store e')"
proof (cases "already_checked e (alertKey host rule target) t")
  case False
  let ?key = "alertKey host rule target"
  obtain a s where s: "st_OpenAlert (st now) host (rule_Name rule) (rule_MetricName rule) target (ev_store e) = (Inr a, s)" "healthy s" "known s = known (ev_store e)"
    using OpenAlert_answers [of "ev_store e" now host "rule_Name rule" "rule_MetricName rule" target] fine by (auto simp: fine_def)
  have law: "inv s" "opens s = opens (ev_store e)" "map_option (\<lambda>a. (al_ID a, al_Severity a)) a = opens (ev_store e) (rule_key host rule target)"
    using OpenAlert_law [OF _ s(1)] fine by (auto simp: fine_def rule_key_def)
  let ?e2 = "e\<lparr>checked := (checked e)(?key \<mapsto> t), ev_store := s\<rparr>"
  have "fine host (ev_store ?e2)" using s law fine by (simp add: fine_def)
  moreover have "check (st now) (notify now) rule host target v t e = (case a of
       Some opn \<Rightarrow> updateOpen (st now) (notify now) rule host ?key opn (ruleStatus rule v) v t ?e2
     | None \<Rightarrow> openIfBreached (st now) (notify now) rule host target ?key (ruleStatus rule v) v t ?e2)"
    using False s(1) by (simp add: check_def mark_checked_def Let_def bindE_def on_store_def split: option.splits)
  ultimately show ?thesis
    using law openIfBreached_answers [of host ?e2 rule target] updateOpen_answers [of host ?e2 "rule_key host rule target"]
    by (auto split: option.splits)
qed (use fine in \<open>simp add: check_def\<close>)

text \<open>Over a run of new samples the evaluator and the machine stay in step.\<close>

lemma run_checks_refines:
  assumes "fine host (ev_store e)" and "new_samples e (alertKey host rule target) samples"
  shows "watch_of opens host rule target (run_checks st notify rule host target samples e) =
      watch_run (triggerInterval rule) (map (\<lambda>(now, v, t). (ruleStatus rule v, t)) samples) (watch_of opens host rule target e) \<and>
    fine host (ev_store (run_checks st notify rule host target samples e))"
  using assms
proof (induction samples arbitrary: e)
  case Nil
  then show ?case by (simp add: run_checks_def watch_run_def)
next
  case (Cons vt samples)
  obtain now v t where vt: "vt = (now, v, t)" by (cases vt)
  let ?key = "alertKey host rule target"
  from check_answers [OF Cons.prems(1)] obtain e1 where e1: "check (st now) (notify now) rule host target v t e = (Inr (), e1)" "fine host (ev_store e1)"
    by blast
  have fresh: "\<not> already_checked e ?key t" using Cons.prems(2) by (simp add: new_samples_def vt)
  have step: "checked e1 ?key = Some t"
    "watch_of opens host rule target e1 = fst (watch_step (triggerInterval rule) (ruleStatus rule v) t (watch_of opens host rule target e))"
    using check_step [OF _ fresh e1(1)] Cons.prems(1) by (simp_all add: fine_def stepped_def Let_def)
  have "new_samples e1 ?key samples"
    using Cons.prems(2) by (auto simp: new_samples_def vt already_checked_def step(1) time_after_def)
  from Cons.IH [OF e1(2) this] show ?case
    by (simp add: run_checks_def watch_run_def vt logged_def e1(1) step(2))
qed

end

section \<open>The machine alone\<close>

lemma watch_run_Cons [simp]: "watch_run T ((s, t) # ss) w = watch_run T ss (fst (watch_step T s t w))"
  by (simp add: watch_run_def)

lemma watch_run_append: "watch_run T (xs @ ys) w = watch_run T ys (watch_run T xs w)"
  by (simp add: watch_run_def)

lemma watch_run_Nil [simp]: "watch_run T [] w = w"
  by (simp add: watch_run_def)

lemma time_sub_antimono: "u \<le> u' \<Longrightarrow> time_sub t u' \<le> time_sub t u"
  by (simp add: time_sub_def)

text \<open>Waiting since a time at the latest: the alert is already as wanted, or a pending status of the right
  side is not younger than that.\<close>

definition waiting :: "bool \<Rightarrow> time \<Rightarrow> watch \<Rightarrow> bool" where
  "waiting up t0 w \<longleftrightarrow> (w_open w \<noteq> None) = up \<or>
     (\<exists>p. w_pending w = Some p \<and> breached (pe_status p) = up \<and> pe_since p \<le> t0)"

lemma watch_step_waiting:
  assumes "breached s = up" and "waiting up t0 w"
  shows "waiting up t0 (fst (watch_step T s t w))"
  using assms by (cases "w_open w") (auto simp: watch_step.simps waiting_def breached_def)

lemma watch_step_first:
  assumes "breached s = up" and "\<forall>p. w_pending w = Some p \<longrightarrow> pe_since p \<le> t"
  shows "waiting up t (fst (watch_step T s t w))"
  using assms by (cases "w_open w"; cases "w_pending w") (auto simp: watch_step.simps waiting_def breached_def)

lemma watch_step_due:
  assumes "breached s = up" and "waiting up t0 w" and "T \<le> time_sub t t0"
  shows "(w_open (fst (watch_step T s t w)) \<noteq> None) = up"
proof -
  have "T \<le> time_sub t (pe_since p)" if "pe_since p \<le> t0" for p :: pendingStatus
    using assms(3) time_sub_antimono [OF that, of t] by simp
  with assms(1,2) show ?thesis
    by (cases "w_open w") (auto simp: watch_step.simps waiting_def breached_def not_less [symmetric])
qed

lemma watch_run_waiting:
  "\<forall>(s, t) \<in> set ss. breached s = up \<Longrightarrow> waiting up t0 w \<Longrightarrow> waiting up t0 (watch_run T ss w)"
  by (induction ss arbitrary: w) (auto simp: watch_step_waiting)

lemma watch_run_settles:
  assumes "\<forall>(s, t) \<in> set ((s0, t0) # ss @ [(s1, t1)]). breached s = up"
    and "\<forall>p. w_pending w = Some p \<longrightarrow> pe_since p \<le> t0" and "T \<le> time_sub t1 t0"
  shows "(w_open (watch_run T ((s0, t0) # ss @ [(s1, t1)]) w) \<noteq> None) = up"
proof -
  have "waiting up t0 (watch_run T ss (fst (watch_step T s0 t0 w)))"
    using assms by (intro watch_run_waiting watch_step_first) auto
  from watch_step_due [OF _ this assms(3)] assms(1) show ?thesis
    by (simp add: watch_run_append)
qed

text \<open>One sample alone never opens an alert, whatever the interval.\<close>

lemma watch_step_from_rest:
  assumes "w_open w = None" and "w_pending w = None"
  shows "w_open (fst (watch_step T s t w)) = None"
  using assms by (simp add: watch_step.simps)

context reliable_alert_store
begin

text \<open>Samples on one side for at least the trigger interval, two of them at least, settle the alert: it is
  open after breached ones and resolved after normal ones.\<close>

lemma run_checks_settles:
  assumes "fine host (ev_store e)" and "new_samples e (alertKey host rule target) ((n0, v0, t0) # samples @ [(n1, v1, t1)])"
    and "\<forall>(now, v, t) \<in> set ((n0, v0, t0) # samples @ [(n1, v1, t1)]). breached (ruleStatus rule v) = up"
    and "\<forall>p. pending e (alertKey host rule target) = Some p \<longrightarrow> pe_since p \<le> t0"
    and "triggerInterval rule \<le> time_sub t1 t0"
  shows "(opens (ev_store (run_checks st notify rule host target ((n0, v0, t0) # samples @ [(n1, v1, t1)]) e)) (rule_key host rule target) \<noteq> None) = up"
proof -
  let ?ss = "map (\<lambda>(now, v, t). (ruleStatus rule v, t)) samples"
  have "(w_open (watch_run (triggerInterval rule) ((ruleStatus rule v0, t0) # ?ss @ [(ruleStatus rule v1, t1)])
      (watch_of opens host rule target e)) \<noteq> None) = up"
    using assms(3,4) by (intro watch_run_settles) (auto simp: assms(5) watch_of_def)
  moreover have "w_open (watch_of opens host rule target (run_checks st notify rule host target ((n0, v0, t0) # samples @ [(n1, v1, t1)]) e)) =
      w_open (watch_run (triggerInterval rule) ((ruleStatus rule v0, t0) # ?ss @ [(ruleStatus rule v1, t1)]) (watch_of opens host rule target e))"
    using run_checks_refines [OF assms(1,2)] by simp
  moreover have "w_open (watch_of opens host rule target x) \<noteq> None \<longleftrightarrow> opens (ev_store x) (rule_key host rule target) \<noteq> None" for x
    by (simp add: watch_of_def)
  ultimately show ?thesis by metis
qed

end

end
