(* ===== verification/TaskRuns.thy ===== *)
theory TaskRuns
  imports StoreHosts
begin

text \<open>
  Task runs in the database: internal/store/tasks.go. The clock of the database is the argument \<open>now\<close>;
  within a transaction it stands still. PostgreSQL's \<open>length\<close> and \<open>left\<close> count characters; what reaches
  a run's output is valid UTF-8, the only text protobuf lets through.
\<close>

section \<open>States and limits\<close>

definition TaskQueued :: string where "TaskQueued = ''queued''"
definition TaskRunning :: string where "TaskRunning = ''running''"
definition TaskSucceeded :: string where "TaskSucceeded = ''succeeded''"
definition TaskFailed :: string where "TaskFailed = ''failed''"
definition TaskTimedOut :: string where "TaskTimedOut = ''timed_out''"
definition TaskExpired :: string where "TaskExpired = ''expired''"
definition TaskLost :: string where "TaskLost = ''lost''"

lemmas task_status_defs = TaskQueued_def TaskRunning_def TaskSucceeded_def TaskFailed_def TaskTimedOut_def TaskExpired_def TaskLost_def

lemma task_status_neq [simp]:
  "TaskQueued \<noteq> TaskRunning" "TaskRunning \<noteq> TaskQueued" "TaskSucceeded \<noteq> TaskQueued" "TaskSucceeded \<noteq> TaskRunning"
  "TaskFailed \<noteq> TaskQueued" "TaskFailed \<noteq> TaskRunning" "TaskTimedOut \<noteq> TaskQueued" "TaskTimedOut \<noteq> TaskRunning"
  "TaskExpired \<noteq> TaskQueued" "TaskExpired \<noteq> TaskRunning" "TaskLost \<noteq> TaskQueued" "TaskLost \<noteq> TaskRunning"
  by (simp_all add: task_status_defs)

definition taskPickupWindow :: duration where
  "taskPickupWindow = 2 * Minute"

definition taskLostAfter :: duration where
  "taskLostAfter = Minute"

definition TaskOutputLimit :: int where
  "TaskOutputLimit = 262144"

definition defaultTaskRuns :: int where
  "defaultTaskRuns = 50"

definition maxTaskRuns :: int where
  "maxTaskRuns = 200"

definition cleanText :: "string \<Rightarrow> string" where
  "cleanText text = drop_nul text"

definition maxTaskError :: nat where
  "maxTaskError = 500"

record TaskRun =
  tr_ID :: int
  tr_Host :: string
  tr_Task :: string
  tr_Command :: string
  tr_Status :: string
  tr_RequestedBy :: string
  tr_RequestedAt :: time
  tr_StartedAt :: time
  tr_FinishedAt :: time
  tr_ExitCode :: int
  tr_Error :: string
  tr_Output :: string
  tr_Truncated :: bool

definition zero_run :: TaskRun where
  "zero_run = \<lparr>tr_ID = 0, tr_Host = [], tr_Task = [], tr_Command = [], tr_Status = [], tr_RequestedBy = [], tr_RequestedAt = zero_time,
     tr_StartedAt = zero_time, tr_FinishedAt = zero_time, tr_ExitCode = 0, tr_Error = [], tr_Output = [], tr_Truncated = False\<rparr>"

section \<open>Operations\<close>

text \<open>The jsonb column holds the list itself; a nil list is stored as the empty one.\<close>

definition SaveHostTasks :: "string \<Rightarrow> Task list \<Rightarrow> (unit, db) act" where
  "SaveHostTasks host list =
     exec (\<lambda>t. ((), t\<lparr>db_hosts := update_where (\<lambda>h. h_name h = host \<and> h_tasks h \<noteq> list) (\<lambda>h. h\<lparr>h_tasks := list\<rparr>) (db_hosts t)\<rparr>))"

definition HostTasks :: "string \<Rightarrow> (Task list, db) act" where
  "HostTasks host = bindE (query (\<lambda>t. map_option h_tasks (host_named t host))) (\<lambda>list.
     case list of None \<Rightarrow> fail ErrNotFound | Some l \<Rightarrow> ret l)"

text \<open>The partial unique index task_runs_one_active.\<close>

definition is_active :: "run_row \<Rightarrow> bool" where
  "is_active r \<longleftrightarrow> t_status r = TaskQueued \<or> t_status r = TaskRunning"

definition int32 :: "int \<Rightarrow> bool" where
  "int32 n \<longleftrightarrow> - (2 ^ 31) \<le> n \<and> n < 2 ^ 31"

definition new_run :: "time \<Rightarrow> int \<Rightarrow> int \<Rightarrow> Task \<Rightarrow> string \<Rightarrow> run_row" where
  "new_run now i hid task by = \<lparr>t_id = i, t_host_id = hid, t_task = task_Name task, t_command = task_Command task,
     t_timeout_seconds = task_TimeoutSeconds task, t_status = TaskQueued, t_requested_by = by, t_requested_at = timestamptz now,
     t_started_at = None, t_finished_at = None, t_exit_code = None, t_error = [], t_output = [], t_truncated = False\<rparr>"

text \<open>\<open>INSERT ... SELECT\<close>: one row for every task of that name the host lists. Two of them, or one beside a run
  that is still active, violate the index. A timeout that is no integer of PostgreSQL's is an error.\<close>

definition insert_run :: "time \<Rightarrow> string \<Rightarrow> string \<Rightarrow> string \<Rightarrow> int \<Rightarrow> tables \<Rightarrow> (run_row option) result \<times> tables" where
  "insert_run now host task by i t = (case host_named t host of
     None \<Rightarrow> (Inr None, t)
   | Some h \<Rightarrow> (case filter (\<lambda>x. task_Name x = task) (h_tasks h) of
       [] \<Rightarrow> (Inr None, t)
     | x # others \<Rightarrow>
         if \<not> list_all (\<lambda>x. int32 (task_TimeoutSeconds x)) (x # others) then (Inl (ErrDB ''integer out of range''), t)
         else if others \<noteq> [] \<or> (\<exists>r \<in> set (db_runs t). is_active r \<and> t_host_id r = h_id h) then (Inl ErrUnique, t)
         else let r = new_run now i (h_id h) x by in (Inr (Some r), t\<lparr>db_runs := db_runs t @ [r]\<rparr>)))"

definition RequestTaskRun :: "time \<Rightarrow> string \<Rightarrow> string \<Rightarrow> string \<Rightarrow> (TaskRun, db) act" where
  "RequestTaskRun now host task by s = (case insert_into T_runs (insert_run now host task by) s of
     (Inr None, s') \<Rightarrow> (Inl ErrNotFound, s')
   | (Inl e, s') \<Rightarrow> (Inl (if e = ErrUnique then ErrTaskBusy else e), s')
   | (Inr (Some r), s') \<Rightarrow> (Inr (zero_run\<lparr>tr_ID := t_id r, tr_Host := host, tr_Task := task, tr_Command := t_command r,
        tr_Status := TaskQueued, tr_RequestedBy := by, tr_RequestedAt := t_requested_at r\<rparr>), s'))"

definition of_host :: "tables \<Rightarrow> string \<Rightarrow> run_row \<Rightarrow> bool" where
  "of_host t host r = (case host_named t host of None \<Rightarrow> False | Some h \<Rightarrow> t_host_id r = h_id h)"

definition end_run :: "time \<Rightarrow> string \<Rightarrow> string \<Rightarrow> run_row \<Rightarrow> run_row" where
  "end_run now stat why r = r\<lparr>t_status := stat, t_finished_at := Some (timestamptz now), t_error := why\<rparr>"

definition lose_runs :: "time \<Rightarrow> string \<Rightarrow> tables \<Rightarrow> tables" where
  "lose_runs now host t = t\<lparr>db_runs := update_where (\<lambda>r. t_status r = TaskRunning \<and> of_host t host r)
     (end_run now TaskLost ''the agent stopped before the task finished'') (db_runs t)\<rparr>"

definition waiting_run :: "time \<Rightarrow> tables \<Rightarrow> string \<Rightarrow> run_row \<Rightarrow> bool" where
  "waiting_run now t host r \<longleftrightarrow> t_status r = TaskQueued \<and> of_host t host r \<and> t_requested_at r > timestamptz now - taskPickupWindow"

definition start_run :: "time \<Rightarrow> run_row \<Rightarrow> run_row" where
  "start_run now r = r\<lparr>t_status := TaskRunning, t_started_at := Some (timestamptz now)\<rparr>"

definition start_runs :: "time \<Rightarrow> string \<Rightarrow> tables \<Rightarrow> tables" where
  "start_runs now host t = t\<lparr>db_runs := update_where (waiting_run now t host) (start_run now) (db_runs t)\<rparr>"

definition claim_tx :: "time \<Rightarrow> string \<Rightarrow> (TaskRun option, db) act" where
  "claim_tx now host =
     bindE (exec (\<lambda>t. ((), lose_runs now host t))) (\<lambda>_.
     bindE (exec (\<lambda>t. (find (waiting_run now t host) (db_runs t), start_runs now host t))) (\<lambda>row.
     ret (map_option (\<lambda>r. zero_run\<lparr>tr_ID := t_id r, tr_Host := host, tr_Task := t_task r, tr_Command := t_command r,
       tr_Status := TaskRunning\<rparr>) row)))"

definition ClaimTaskRun :: "time \<Rightarrow> string \<Rightarrow> (TaskRun option, db) act" where
  "ClaimTaskRun now host = in_tx (claim_tx now host)"

text \<open>PostgreSQL's \<open>left(text, greatest(n, 0))\<close>.\<close>

fun take_int :: "int \<Rightarrow> 'a list \<Rightarrow> 'a list" where
  "take_int n [] = []"
| "take_int n (x # xs) = (if n \<le> 0 then [] else x # take_int (n - 1) xs)"

definition text_left :: "int \<Rightarrow> string \<Rightarrow> string" where
  "text_left n s = concat (map rune_bytes (take_int n (runes s)))"

lemma take_int_take: "take_int n xs = take (nat n) xs"
proof (induction xs arbitrary: n)
  case (Cons x xs)
  show ?case
  proof (cases "n \<le> 0")
    case False
    then have "nat n = Suc (nat (n - 1))" by simp
    with False Cons show ?thesis by simp
  qed simp
qed simp

lemma text_left_cut: "text_left n s = cut_runes (nat n) s"
  by (simp add: text_left_def cut_runes_def take_int_take)

definition text_length :: "string \<Rightarrow> int" where
  "text_length s = int (RuneCount s)"

definition add_output :: "string \<Rightarrow> bool \<Rightarrow> run_row \<Rightarrow> run_row" where
  "add_output output truncated r =
     r\<lparr>t_output := t_output r @ text_left (TaskOutputLimit - text_length (t_output r)) output,
       t_truncated := t_truncated r \<or> truncated \<or> text_length (t_output r) + text_length output > TaskOutputLimit\<rparr>"

definition going :: "tables \<Rightarrow> string \<Rightarrow> int \<Rightarrow> run_row \<Rightarrow> bool" where
  "going t host i r \<longleftrightarrow> t_id r = i \<and> t_status r = TaskRunning \<and> of_host t host r"

definition update_going :: "string \<Rightarrow> int \<Rightarrow> (run_row \<Rightarrow> run_row) \<Rightarrow> (unit, db) act" where
  "update_going host i f =
     bindE (exec (\<lambda>t. (rows_affected (going t host i) (db_runs t), t\<lparr>db_runs := update_where (going t host i) f (db_runs t)\<rparr>))) (\<lambda>n.
     if n = 0 then fail ErrNotFound else ret ())"

definition AppendTaskOutput :: "string \<Rightarrow> int \<Rightarrow> string \<Rightarrow> bool \<Rightarrow> (unit, db) act" where
  "AppendTaskOutput host i output truncated = update_going host i (add_output (cleanText output) truncated)"

record TaskResult =
  re_Output :: string
  re_Truncated :: bool
  re_ExitCode :: int
  re_TimedOut :: bool
  re_Error :: string

definition status_of_result :: "TaskResult \<Rightarrow> string" where
  "status_of_result r =
     (if re_TimedOut r then TaskTimedOut else if re_Error r \<noteq> [] \<or> re_ExitCode r \<noteq> 0 then TaskFailed else TaskSucceeded)"

definition finish_run :: "time \<Rightarrow> TaskResult \<Rightarrow> run_row \<Rightarrow> run_row" where
  "finish_run now result r =
     (end_run now (status_of_result result) (cut_runes maxTaskError (cleanText (re_Error result)))
       (add_output (cleanText (re_Output result)) (re_Truncated result) r))\<lparr>t_exit_code := Some (re_ExitCode result)\<rparr>"

definition FinishTaskRun :: "time \<Rightarrow> string \<Rightarrow> int \<Rightarrow> TaskResult \<Rightarrow> (unit, db) act" where
  "FinishTaskRun now host i result = update_going host i (finish_run now result)"

definition scan_run :: "tables \<Rightarrow> run_row \<Rightarrow> TaskRun option" where
  "scan_run t r = map_option (\<lambda>h. \<lparr>tr_ID = t_id r, tr_Host = h_name h, tr_Task = t_task r, tr_Command = t_command r, tr_Status = t_status r,
     tr_RequestedBy = t_requested_by r, tr_RequestedAt = t_requested_at r, tr_StartedAt = time_or_zero (t_started_at r),
     tr_FinishedAt = time_or_zero (t_finished_at r), tr_ExitCode = (case t_exit_code r of None \<Rightarrow> 0 | Some c \<Rightarrow> c), tr_Error = t_error r,
     tr_Output = [], tr_Truncated = t_truncated r\<rparr>) (find (\<lambda>h. h_id h = t_host_id r) (db_hosts t))"

definition TaskRuns :: "string \<Rightarrow> int \<Rightarrow> (TaskRun list, db) act" where
  "TaskRuns host limit =
     bindE (hostID host) (\<lambda>_.
     let n = nat (min (if limit \<le> 0 then defaultTaskRuns else limit) maxTaskRuns) in
     query (\<lambda>t. take n (List.map_filter (scan_run t) (filter (of_host t host) (sort_key (\<lambda>r. - t_id r) (db_runs t))))))"

definition TaskRun_read :: "int \<Rightarrow> (TaskRun, db) act" where
  "TaskRun_read i =
     bindE (query (\<lambda>t. case find (\<lambda>r. t_id r = i) (db_runs t) of None \<Rightarrow> None
       | Some r \<Rightarrow> map_option (\<lambda>x. x\<lparr>tr_Output := t_output r\<rparr>) (scan_run t r))) (\<lambda>run.
     case run of None \<Rightarrow> fail ErrNotFound | Some x \<Rightarrow> ret x)"

definition overdue :: "time \<Rightarrow> run_row \<Rightarrow> bool" where
  "overdue now r \<longleftrightarrow> t_status r = TaskQueued \<and> t_requested_at r \<le> timestamptz now - taskPickupWindow"

definition silent :: "time \<Rightarrow> run_row \<Rightarrow> bool" where
  "silent now r \<longleftrightarrow> t_status r = TaskRunning \<and> (case t_started_at r of None \<Rightarrow> False
     | Some st \<Rightarrow> st + (t_timeout_seconds r * Second + taskLostAfter) < timestamptz now)"

text \<open>\<open>now\<close> and \<open>later\<close> are the times of the two statements.\<close>

definition SweepTaskRuns :: "time \<Rightarrow> time \<Rightarrow> (int, db) act" where
  "SweepTaskRuns now later =
     bindE (exec (\<lambda>t. (rows_affected (overdue now) (db_runs t),
       t\<lparr>db_runs := update_where (overdue now) (end_run now TaskExpired ''the agent did not pick the task up'') (db_runs t)\<rparr>))) (\<lambda>expired.
     bindE (exec (\<lambda>t. (rows_affected (silent later) (db_runs t),
       t\<lparr>db_runs := update_where (silent later) (end_run later TaskLost ''the agent stopped reporting'') (db_runs t)\<rparr>))) (\<lambda>lost.
     ret (expired + lost)))"

definition PurgeTaskRuns :: "time \<Rightarrow> duration \<Rightarrow> (int, db) act" where
  "PurgeTaskRuns now keep =
     (let old = (\<lambda>r. t_requested_at r < timestamptz (now - keep) \<and> \<not> is_active r) in
      exec (\<lambda>t. (rows_affected old (db_runs t), t\<lparr>db_runs := delete_where old (db_runs t)\<rparr>)))"

end
