(* ===== verification/Notifications.thy ===== *)
theory Notifications
  imports StoreAlerts Evaluator TaskRuns
begin

text \<open>
  Telling people about alerts: internal/store/notifications.go, the queue in the database, and
  collector/notify.go, which fills it (\<open>queueNotice\<close>) and empties it (\<open>deliverDue\<close>). The two interfaces
  of collector/notify.go are records of operations. The network is the record of Channels.thy, and the
  text of an error (\<open>err.Error()\<close>) and \<open>url.PathEscape\<close> are arguments.
\<close>

section \<open>Channels and notifications in the database\<close>

definition NotificationPending :: string where "NotificationPending = ''pending''"
definition NotificationSent :: string where "NotificationSent = ''sent''"
definition NotificationFailed :: string where "NotificationFailed = ''failed''"

lemma notification_status_neq [simp]:
  "NotificationSent \<noteq> NotificationPending" "NotificationFailed \<noteq> NotificationPending"
  "NotificationPending \<noteq> NotificationSent" "NotificationPending \<noteq> NotificationFailed"
  by (simp_all add: NotificationPending_def NotificationSent_def NotificationFailed_def)

record Channel =
  ch_ID :: int
  ch_Name :: string
  ch_Kind :: string
  ch_Settings :: json
  ch_IsDefault :: bool
  ch_SkipWarnings :: bool
  ch_Enabled :: bool
  ch_UpdatedAt :: time
  ch_UpdatedBy :: string
  ch_LastStatus :: string
  ch_LastAt :: time
  ch_LastError :: string

record Notification =
  nf_ID :: int
  nf_AlertID :: int
  nf_ChannelID :: int
  nf_Event :: string
  nf_Severity :: int
  nf_Value :: float64
  nf_Subject :: string
  nf_Body :: string
  nf_Status :: string
  nf_Attempts :: int
  nf_LastError :: string
  nf_CreatedAt :: time
  nf_SentAt :: time
  nf_ChannelName :: string
  nf_ChannelKind :: string
  nf_ChannelOn :: bool
  nf_Settings :: json
  nf_Host :: string
  nf_Rule :: string
  nf_Metric :: string
  nf_Target :: string
  nf_StartedAt :: time
  nf_PreviousRef :: string

definition channel_of_row :: "channel_row \<Rightarrow> Channel" where
  "channel_of_row c = \<lparr>ch_ID = c_id c, ch_Name = c_name c, ch_Kind = c_kind c, ch_Settings = c_settings c,
     ch_IsDefault = c_is_default c, ch_SkipWarnings = c_skip_warnings c, ch_Enabled = c_enabled c,
     ch_UpdatedAt = c_updated_at c, ch_UpdatedBy = c_updated_by c, ch_LastStatus = [], ch_LastAt = zero_time, ch_LastError = []\<rparr>"

text \<open>The lateral join: the newest notification of the channel.\<close>

definition last_notification :: "tables \<Rightarrow> int \<Rightarrow> notification_row option" where
  "last_notification t channel = newest n_id (filter (\<lambda>n. n_channel_id n = channel) (db_notifications t))"

definition channel_with_last :: "tables \<Rightarrow> channel_row \<Rightarrow> Channel" where
  "channel_with_last t c = (case last_notification t (c_id c) of
     None \<Rightarrow> channel_of_row c
   | Some n \<Rightarrow> (channel_of_row c)\<lparr>ch_LastStatus := n_status n,
       ch_LastAt := (case n_sent_at n of None \<Rightarrow> n_created_at n | Some s \<Rightarrow> s), ch_LastError := n_last_error n\<rparr>)"

definition Channels :: "(Channel list, db) act" where
  "Channels = query (\<lambda>t. map (channel_with_last t) (sort_key c_name (db_channels t)))"

definition Channel :: "int \<Rightarrow> (Channel, db) act" where
  "Channel i = bindE (query (\<lambda>t. find (\<lambda>c. c_id c = i) (db_channels t))) (\<lambda>c.
     case c of None \<Rightarrow> fail ErrNotFound | Some c \<Rightarrow> ret (channel_of_row c))"

text \<open>\<open>isUniqueViolation\<close>: the error becomes another one, anything else stays.\<close>

definition on_unique :: "error \<Rightarrow> ('a, 's) act \<Rightarrow> ('a, 's) act" where
  "on_unique e' m s = (case m s of (Inl e, s') \<Rightarrow> (Inl (if e = ErrUnique then e' else e), s') | r \<Rightarrow> r)"

definition CreateChannel :: "time \<Rightarrow> Channel \<Rightarrow> string \<Rightarrow> (int, db) act" where
  "CreateChannel now channel who = on_unique ErrChannelExists (insert_into T_channels (\<lambda>i t.
     if \<exists>c \<in> set (db_channels t). c_name c = ch_Name channel then (Inl ErrUnique, t)
     else (Inr i, t\<lparr>db_channels := db_channels t @ [\<lparr>c_id = i, c_name = ch_Name channel, c_kind = ch_Kind channel,
       c_settings = ch_Settings channel, c_is_default = ch_IsDefault channel, c_skip_warnings = ch_SkipWarnings channel,
       c_enabled = ch_Enabled channel, c_updated_at = timestamptz now, c_updated_by = who\<rparr>]\<rparr>)))"

definition UpdateChannel :: "time \<Rightarrow> Channel \<Rightarrow> string \<Rightarrow> (unit, db) act" where
  "UpdateChannel now channel who =
     bindE (exec (\<lambda>t. (rows_affected (\<lambda>c. c_id c = ch_ID channel) (db_channels t),
       t\<lparr>db_channels := update_where (\<lambda>c. c_id c = ch_ID channel) (\<lambda>c. c\<lparr>c_settings := ch_Settings channel,
         c_is_default := ch_IsDefault channel, c_skip_warnings := ch_SkipWarnings channel, c_enabled := ch_Enabled channel,
         c_updated_at := timestamptz now, c_updated_by := who\<rparr>) (db_channels t)\<rparr>))) (\<lambda>n.
     if n = 0 then fail ErrNotFound else ret ())"

definition DeleteChannel :: "int \<Rightarrow> (unit, db) act" where
  "DeleteChannel i =
     bindE (exec (\<lambda>t. (rows_affected (\<lambda>c. c_id c = i) (db_channels t),
       t\<lparr>db_channels := delete_where (\<lambda>c. c_id c = i) (db_channels t),
         db_notifications := delete_where (\<lambda>n. n_channel_id n = i) (db_notifications t)\<rparr>))) (\<lambda>n.
     if n = 0 then fail ErrNotFound else ret ())"

definition new_notification :: "time \<Rightarrow> Notification \<Rightarrow> int \<Rightarrow> int \<Rightarrow> notification_row" where
  "new_notification now n i channelID = \<lparr>n_id = i, n_alert_id = nf_AlertID n, n_channel_id = channelID, n_event = nf_Event n,
     n_severity = nf_Severity n, n_value = nf_Value n, n_subject = cleanText (nf_Subject n), n_body = cleanText (nf_Body n),
     n_status = NotificationPending, n_attempts = 0, n_next_attempt_at = timestamptz now, n_last_error = [], n_ref = [],
     n_created_at = timestamptz now, n_sent_at = None\<rparr>"

text \<open>A batch is one implicit transaction: all rows or none. Row \<open>j\<close> of it gets the next number but \<open>j\<close>.\<close>

fun number_rows :: "(int \<Rightarrow> int \<Rightarrow> 'r) \<Rightarrow> int \<Rightarrow> int list \<Rightarrow> 'r list" where
  "number_rows f i [] = []"
| "number_rows f i (x # xs) = f i x # number_rows f (i + 1) xs"

definition queue_batch :: "time \<Rightarrow> Notification \<Rightarrow> int list \<Rightarrow> (unit, db) act" where
  "queue_batch now n channelIDs s =
     (let t = tabs s; q = db_seq s; q' = q(T_notifications := q T_notifications + int (length channelIDs)) in
      if nf_AlertID n \<notin> set (map a_id (db_alerts t)) \<or> \<not> set channelIDs \<subseteq> set (map c_id (db_channels t))
      then (Inl (ErrDB ''foreign key''), s\<lparr>db_seq := q'\<rparr>)
      else (Inr (), s\<lparr>db_seq := q', tabs := t\<lparr>db_notifications := db_notifications t @
             number_rows (new_notification now n) (q T_notifications + 1) channelIDs\<rparr>\<rparr>))"

definition QueueNotifications :: "time \<Rightarrow> Notification \<Rightarrow> int list \<Rightarrow> (unit, db) act" where
  "QueueNotifications now n channelIDs = (if channelIDs = [] then ret () else dbcall (queue_batch now n channelIDs))"

definition NotifiedChannels :: "int \<Rightarrow> (int list, db) act" where
  "NotifiedChannels alertID = query (\<lambda>t. sort (remdups (map n_channel_id (filter (\<lambda>n. n_alert_id n = alertID) (db_notifications t)))))"

text \<open>The joined columns. A row whose channel or alert is gone would drop out of the join; the foreign keys
  do not let that happen.\<close>

definition scan_notification :: "tables \<Rightarrow> notification_row \<Rightarrow> Notification option" where
  "scan_notification t n =
     (case (find (\<lambda>c. c_id c = n_channel_id n) (db_channels t), find (\<lambda>a. a_id a = n_alert_id n) (db_alerts t)) of
        (Some c, Some a) \<Rightarrow> Some \<lparr>nf_ID = n_id n, nf_AlertID = n_alert_id n, nf_ChannelID = n_channel_id n, nf_Event = n_event n,
          nf_Severity = n_severity n, nf_Value = n_value n, nf_Subject = n_subject n, nf_Body = n_body n, nf_Status = n_status n,
          nf_Attempts = n_attempts n, nf_LastError = n_last_error n, nf_CreatedAt = n_created_at n,
          nf_SentAt = time_or_zero (n_sent_at n), nf_ChannelName = c_name c, nf_ChannelKind = c_kind c, nf_ChannelOn = c_enabled c,
          nf_Settings = JNull, nf_Host = host_name t (a_host_id a), nf_Rule = a_rule a, nf_Metric = a_metric a,
          nf_Target = a_target a, nf_StartedAt = a_started_at a, nf_PreviousRef = []\<rparr>
      | _ \<Rightarrow> None)"

text \<open>An earlier notification about the same alert for the same channel.\<close>

definition earlier :: "notification_row \<Rightarrow> notification_row \<Rightarrow> bool" where
  "earlier p n \<longleftrightarrow> n_alert_id p = n_alert_id n \<and> n_channel_id p = n_channel_id n \<and> n_id p < n_id n"

definition previous_ref :: "tables \<Rightarrow> notification_row \<Rightarrow> string" where
  "previous_ref t n = (case newest n_id (filter (\<lambda>p. earlier p n \<and> n_ref p \<noteq> []) (db_notifications t)) of
     None \<Rightarrow> [] | Some p \<Rightarrow> n_ref p)"

definition is_due :: "time \<Rightarrow> tables \<Rightarrow> notification_row \<Rightarrow> bool" where
  "is_due now t n \<longleftrightarrow> n_status n = NotificationPending \<and> n_next_attempt_at n \<le> now \<and>
     \<not> (\<exists>p \<in> set (db_notifications t). earlier p n \<and> n_status p = NotificationPending)"

definition due_notification :: "tables \<Rightarrow> notification_row \<Rightarrow> Notification list" where
  "due_notification t n = (case scan_notification t n of None \<Rightarrow> []
     | Some x \<Rightarrow> [x\<lparr>nf_Settings := (case find (\<lambda>c. c_id c = n_channel_id n) (db_channels t) of None \<Rightarrow> JNull | Some c \<Rightarrow> c_settings c),
         nf_PreviousRef := previous_ref t n\<rparr>])"

definition DueNotifications :: "time \<Rightarrow> nat \<Rightarrow> (Notification list, db) act" where
  "DueNotifications now limit =
     query (\<lambda>t. take limit (concat (map (due_notification t) (sort_key n_id (filter (is_due now t) (db_notifications t))))))"

definition shortError :: "string \<Rightarrow> string" where
  "shortError text = cut_runes maxTaskError (cleanText text)"

definition update_notification :: "int \<Rightarrow> (notification_row \<Rightarrow> notification_row) \<Rightarrow> (unit, db) act" where
  "update_notification i f =
     exec (\<lambda>t. ((), t\<lparr>db_notifications := update_where (\<lambda>n. n_id n = i) f (db_notifications t)\<rparr>))"

definition MarkSent :: "time \<Rightarrow> int \<Rightarrow> string \<Rightarrow> (unit, db) act" where
  "MarkSent now i ref = update_notification i (\<lambda>n. n\<lparr>n_status := NotificationSent, n_attempts := n_attempts n + 1,
     n_sent_at := Some (timestamptz now), n_ref := ref, n_last_error := []\<rparr>)"

definition MarkRetry :: "int \<Rightarrow> string \<Rightarrow> time \<Rightarrow> (unit, db) act" where
  "MarkRetry i reason nxt = update_notification i (\<lambda>n. n\<lparr>n_attempts := n_attempts n + 1,
     n_last_error := shortError reason, n_next_attempt_at := timestamptz nxt\<rparr>)"

definition MarkFailed :: "int \<Rightarrow> string \<Rightarrow> (unit, db) act" where
  "MarkFailed i reason = update_notification i (\<lambda>n. n\<lparr>n_status := NotificationFailed, n_attempts := n_attempts n + 1,
     n_last_error := shortError reason\<rparr>)"

definition RecentNotifications :: "int \<Rightarrow> (Notification list, db) act" where
  "RecentNotifications limit =
     query (\<lambda>t. take (nat (if limit \<le> 0 \<or> limit > 200 then 50 else limit))
       (List.map_filter (scan_notification t) (sort_key (\<lambda>n. - n_id n) (db_notifications t))))"

section \<open>Queueing\<close>

record 's noticeStore =
  ns_Channels :: "(Channel list, 's) act"
  ns_NotifiedChannels :: "int \<Rightarrow> (int list, 's) act"
  ns_QueueNotifications :: "Notification \<Rightarrow> int list \<Rightarrow> (unit, 's) act"

definition ruleWants :: "AlertConfig \<Rightarrow> Channel \<Rightarrow> bool" where
  "ruleWants rule channel =
     (if ch_Name channel \<in> set (rule_Channels rule) then True
      else if ch_Kind channel = Email \<and> rule_Email rule \<or> ch_Kind channel = Slack \<and> rule_Slack rule \<or>
        ch_Kind channel = PagerDuty \<and> rule_Pagerduty rule then True
      else rule_Channels rule = [] \<and> \<not> rule_Email rule \<and> \<not> rule_Slack rule \<and> \<not> rule_Pagerduty rule \<and> ch_IsDefault channel)"

fun pickChannels :: "AlertConfig \<Rightarrow> Channel list \<Rightarrow> string \<Rightarrow> int \<Rightarrow> int set \<Rightarrow> int list" where
  "pickChannels rule [] event severity told = []"
| "pickChannels rule (channel # channels) event severity told =
     (let rest = pickChannels rule channels event severity told in
      if \<not> ch_Enabled channel then rest
      else if event = Resolved_event then (if ch_ID channel \<in> told then ch_ID channel # rest else rest)
      else if \<not> ruleWants rule channel then rest
      else if ch_SkipWarnings channel \<and> severity < SeverityCritical then rest
      else ch_ID channel # rest)"

definition notification_of :: "notice \<Rightarrow> Notification" where
  "notification_of n = \<lparr>nf_ID = 0, nf_AlertID = no_alertID n, nf_ChannelID = 0, nf_Event = no_event n, nf_Severity = no_severity n,
     nf_Value = no_value n, nf_Subject = no_subject n, nf_Body = no_body n, nf_Status = [], nf_Attempts = 0, nf_LastError = [],
     nf_CreatedAt = zero_time, nf_SentAt = zero_time, nf_ChannelName = [], nf_ChannelKind = [], nf_ChannelOn = False,
     nf_Settings = JNull, nf_Host = [], nf_Rule = [], nf_Metric = [], nf_Target = [], nf_StartedAt = zero_time, nf_PreviousRef = []\<rparr>"

definition queueNotice :: "'s noticeStore \<Rightarrow> notice \<Rightarrow> (unit, 's) act" where
  "queueNotice st n =
     bindE (ns_Channels st) (\<lambda>channels.
     bindE (if no_event n = Resolved_event then ns_NotifiedChannels st (no_alertID n) else ret []) (\<lambda>told.
     ns_QueueNotifications st (notification_of n)
       (pickChannels (no_rule n) channels (no_event n) (no_severity n) (set told))))"

section \<open>Delivery\<close>

definition deliverBatch :: nat where
  "deliverBatch = 20"

definition retryWaits :: "duration list" where
  "retryWaits = [30 * Second, 2 * Minute, 10 * Minute, 30 * Minute, Hour]"

definition retryAfter :: "int \<Rightarrow> duration option" where
  "retryAfter failures =
     (if failures < 1 \<or> failures > int (length retryWaits) then None else Some (retryWaits ! nat (failures - 1)))"

record 's deliveryStore =
  ds_DueNotifications :: "nat \<Rightarrow> (Notification list, 's) act"
  ds_MarkSent :: "int \<Rightarrow> string \<Rightarrow> (unit, 's) act"
  ds_MarkRetry :: "int \<Rightarrow> string \<Rightarrow> time \<Rightarrow> (unit, 's) act"
  ds_MarkFailed :: "int \<Rightarrow> string \<Rightarrow> (unit, 's) act"

definition alertLink :: "(string \<Rightarrow> string) \<Rightarrow> string \<Rightarrow> string \<Rightarrow> string \<Rightarrow> string" where
  "alertLink path_escape dashboard host metric =
     (if dashboard = [] then []
      else if metric = ENDPOINT \<or> metric = CERTIFICATE then dashboard @ ''/endpoints''
      else if IsKube metric then dashboard @ ''/kubernetes''
      else if host \<noteq> [] then dashboard @ ''/hosts/'' @ path_escape host
      else dashboard @ ''/alerts'')"

definition message_of :: "(string \<Rightarrow> string) \<Rightarrow> Notification \<Rightarrow> string \<Rightarrow> time \<Rightarrow> Message" where
  "message_of path_escape n dashboard t = \<lparr>m_Event = nf_Event n, m_Severity = nf_Severity n, m_Subject = nf_Subject n,
     m_Body = nf_Body n, m_Host = nf_Host n, m_Rule = nf_Rule n, m_Metric = nf_Metric n, m_Target = nf_Target n,
     m_Value = nf_Value n, m_AlertID = nf_AlertID n, m_StartedAt = nf_StartedAt n, m_At = t,
     m_Link = alertLink path_escape dashboard (nf_Host n) (nf_Metric n)\<rparr>"

text \<open>What the outside world does in one delivery: the senders' settings checks and the network, the text
  of an error, and the two times \<open>now()\<close> gives, before the delivery and after it failed.\<close>

record world =
  wo_address :: address_parse
  wo_url :: url_parse
  wo_network :: network
  wo_escape :: "string \<Rightarrow> string"
  wo_Error :: "error \<Rightarrow> string"
  wo_now :: time
  wo_after :: time

text \<open>The ref, whether trying again can help, and the error.\<close>

definition deliverOne :: "world \<Rightarrow> Notification \<Rightarrow> string \<Rightarrow> time \<Rightarrow> bool \<times> string result" where
  "deliverOne w n dashboard t =
     (if \<not> nf_ChannelOn n then (False, Inl (err_text ''the channel is switched off''))
      else case Parse_channel (wo_address w) (wo_url w) (nf_ChannelKind n) (nf_Settings n) of
        Inl e \<Rightarrow> (False, Inl (ErrWrap ''the channel's settings are broken: %w'' [] e))
      | Inr sender \<Rightarrow> (True, Send (wo_network w) sender (message_of (wo_escape w) n dashboard t) (nf_PreviousRef n)))"

definition deliver_step :: "'s deliveryStore \<Rightarrow> string \<Rightarrow> world \<Rightarrow> Notification \<Rightarrow> (unit, 's) act" where
  "deliver_step st dashboard w n =
     (case deliverOne w n dashboard (wo_now w) of
        (_, Inr ref) \<Rightarrow> ds_MarkSent st (nf_ID n) ref
      | (retry, Inl err) \<Rightarrow>
          (case retryAfter (nf_Attempts n + 1) of
             Some wait \<Rightarrow>
               if retry then ds_MarkRetry st (nf_ID n) (wo_Error w err) (wo_after w + wait)
               else ds_MarkFailed st (nf_ID n) (wo_Error w err)
           | None \<Rightarrow> ds_MarkFailed st (nf_ID n) (wo_Error w err)))"

text \<open>One batch, one after the other; an error of the database is logged. \<open>ws\<close> is the world each delivery
  meets, in order.\<close>

fun deliver_all :: "'s deliveryStore \<Rightarrow> string \<Rightarrow> (nat \<Rightarrow> world) \<Rightarrow> nat \<Rightarrow> Notification list \<Rightarrow> 's \<Rightarrow> 's" where
  "deliver_all st dashboard ws i [] s = s"
| "deliver_all st dashboard ws i (n # ns) s = deliver_all st dashboard ws (Suc i) ns (snd (deliver_step st dashboard (ws i) n s))"

definition deliverDue :: "'s deliveryStore \<Rightarrow> string \<Rightarrow> (nat \<Rightarrow> world) \<Rightarrow> 's \<Rightarrow> 's" where
  "deliverDue st dashboard ws s =
     (case ds_DueNotifications st deliverBatch s of
        (Inl e, s') \<Rightarrow> s'
      | (Inr due, s') \<Rightarrow> deliver_all st dashboard ws 0 due s')"

section \<open>On the database\<close>

definition notice_store :: "time \<Rightarrow> db noticeStore" where
  "notice_store now = \<lparr>ns_Channels = Channels, ns_NotifiedChannels = NotifiedChannels,
     ns_QueueNotifications = QueueNotifications now\<rparr>"

text \<open>\<open>now\<close> is the database's time when it lists what is due, \<open>sent i\<close> its time when notification \<open>i\<close> is marked.\<close>

definition delivery_store :: "time \<Rightarrow> (int \<Rightarrow> time) \<Rightarrow> db deliveryStore" where
  "delivery_store now sent = \<lparr>ds_DueNotifications = DueNotifications now, ds_MarkSent = (\<lambda>i. MarkSent (sent i) i),
     ds_MarkRetry = MarkRetry, ds_MarkFailed = MarkFailed\<rparr>"

end
