(* ===== verification/AlertSystem.thy ===== *)
theory AlertSystem
  imports AlertMachine Notifications StoreKube StoreEndpoints
begin

text \<open>
  The evaluator on the database: the store behind \<open>alertStore\<close>, the notifier that queues notifications, and
  the interpretation that discharges the laws of \<open>alert_store\<close> and \<open>reliable_alert_store\<close> for them.
\<close>

section \<open>The evaluator's store and notifier\<close>

definition alert_db :: "regression \<Rightarrow> time \<Rightarrow> db alertStore" where
  "alert_db regr now = \<lparr>st_LatestValue = LatestValue, st_LastSeen = LastSeen, st_DaysUntilFull = DaysUntilFull regr now,
     st_LatestEndpointCheck = LatestEndpointCheck, st_LatestCertificate = LatestCertificate, st_Cluster = Cluster_read,
     st_RestartsSince = RestartsSince, st_Alerts = Alerts, st_OpenAlert = OpenAlert, st_CreateAlert = CreateAlert,
     st_UpdateAlert = UpdateAlert, st_ResolveAlert = ResolveAlert\<rparr>"

text \<open>An error of \<open>queueNotice\<close> is logged.\<close>

definition queue_notifier :: "time \<Rightarrow> db notifier" where
  "queue_notifier now n s = snd (queueNotice (notice_store now) n s)"

definition db_opens :: "db \<Rightarrow> akey \<Rightarrow> (int \<times> int) option" where
  "db_opens s = open_alerts (tabs s)"

definition alert_db_ok :: "db \<Rightarrow> bool" where
  "alert_db_ok = tab_inv alert_inv"

text \<open>The calls to come are answered; a host is registered, or it is none.\<close>

definition answers :: "db \<Rightarrow> bool" where
  "answers s \<longleftrightarrow> set (db_net s) \<subseteq> {Done}"

definition registered :: "db \<Rightarrow> string \<Rightarrow> bool" where
  "registered s host \<longleftrightarrow> host = [] \<or> host \<in> set (map h_name (db_hosts (tabs s)))"

section \<open>Queueing leaves hosts and alerts alone\<close>

lemma queue_batch_frame:
  "queue_batch now n cs s = (r, s') \<Longrightarrow>
     db_hosts (tabs s') = db_hosts (tabs s) \<and> db_alerts (tabs s') = db_alerts (tabs s) \<and> db_net s' = db_net s \<and>
     db_seq s' T_hosts = db_seq s T_hosts \<and> db_seq s' T_alerts = db_seq s T_alerts"
  by (auto simp: queue_batch_def Let_def split: if_splits)

definition same_alerts :: "db \<Rightarrow> db \<Rightarrow> bool" where
  "same_alerts s s' \<longleftrightarrow> db_hosts (tabs s') = db_hosts (tabs s) \<and> db_alerts (tabs s') = db_alerts (tabs s) \<and>
     db_seq s' T_hosts = db_seq s T_hosts \<and> db_seq s' T_alerts = db_seq s T_alerts \<and> (answers s \<longrightarrow> answers s')"

lemma same_alerts_refl [simp]: "same_alerts s s"
  by (simp add: same_alerts_def)

lemma same_alerts_trans: "same_alerts s1 s2 \<Longrightarrow> same_alerts s2 s3 \<Longrightarrow> same_alerts s1 s3"
  by (simp add: same_alerts_def)

lemma dbcall_same_alerts:
  assumes "\<And>s r s'. f s = (r, s') \<Longrightarrow> same_alerts s s'" and "dbcall f s = (r, s')"
  shows "same_alerts s s'"
proof -
  have net: "same_alerts s (set_net n s)" if "set (db_net s) \<subseteq> {Done} \<longrightarrow> set n \<subseteq> {Done}" for n
    using that by (simp add: same_alerts_def answers_def)
  have f: "same_alerts s (snd (f s))" for s using assms(1) [of s "fst (f s)" "snd (f s)"] by simp
  from assms(2) net f f [of "set_net (tl (db_net s)) s"] show ?thesis
    by (auto simp: dbcall_def split: list.splits outcome.splits intro: same_alerts_trans dest: assms(1))
qed

lemma query_same_alerts: "query f s = (r, s') \<Longrightarrow> same_alerts s s'"
  unfolding query_def by (erule dbcall_same_alerts [rotated]) auto

lemma queueNotice_same_alerts:
  assumes "queueNotice (notice_store now) n s = (r, s')"
  shows "same_alerts s s'"
proof -
  have q: "same_alerts s1 s2" if "QueueNotifications now m cs s1 = (x, s2)" for m cs s1 x s2
  proof (cases "cs = []")
    case False
    with that have "dbcall (queue_batch now m cs) s1 = (x, s2)" by (simp add: QueueNotifications_def)
    then show ?thesis
      by (rule dbcall_same_alerts [rotated]) (simp add: queue_batch_frame same_alerts_def answers_def)
  qed (use that in \<open>simp add: QueueNotifications_def\<close>)
  show ?thesis
    using assms unfolding queueNotice_def notice_store_def Channels_def NotifiedChannels_def
    by (auto elim!: bindE_cases split: if_splits dest!: query_same_alerts q intro: same_alerts_trans)
qed

lemma same_alerts_ok:
  assumes "same_alerts s s'"
  shows "alert_db_ok s \<Longrightarrow> alert_db_ok s'" and "db_opens s' = db_opens s" and "registered s' = registered s"
proof -
  show "db_opens s' = db_opens s" using assms by (auto simp: db_opens_def same_alerts_def intro: open_alerts_cong)
  show "registered s' = registered s" using assms by (auto simp: registered_def same_alerts_def fun_eq_iff)
  show "alert_db_ok s'" if "alert_db_ok s"
    using assms that by (simp add: same_alerts_def alert_db_ok_def tab_inv_def alert_inv_def hosts_ok_def alerts_ok_def)
qed

section \<open>The interpretation\<close>

lemma dbcall_answers:
  assumes "answers s"
  shows "\<exists>n. dbcall f s = f (set_net n s) \<and> answers (set_net n s)"
proof (cases "db_net s")
  case Nil
  have "set_net [] s = s" using Nil by (simp add: set_net_def)
  with Nil assms show ?thesis by (intro exI [of _ "[]"]) (simp only: dbcall_def list.case simp_thms)
next
  case (Cons oc rest)
  with assms show ?thesis by (intro exI [of _ rest]) (auto simp: dbcall_def answers_def)
qed

lemma query_answers: "answers s \<Longrightarrow> \<exists>s'. query f s = (Inr (f (tabs s)), s') \<and> answers s' \<and> tabs s' = tabs s \<and> db_seq s' = db_seq s"
  using dbcall_answers [of s "\<lambda>s. (Inr (f (tabs s)), s)"] by (auto simp: query_def)

lemma exec_answers: "answers s \<Longrightarrow> \<exists>s'. exec f s = (Inr (fst (f (tabs s))), s') \<and> answers s' \<and> tabs s' = snd (f (tabs s)) \<and> db_seq s' = db_seq s"
  using dbcall_answers [of s "\<lambda>s. (Inr (fst (f (tabs s))), s\<lparr>tabs := snd (f (tabs s))\<rparr>)"] by (auto simp: exec_def answers_def)

lemma insert_into_answers:
  assumes "answers s"
  shows "\<exists>s'. insert_into k f s = (fst (f (db_seq s k + 1) (tabs s)), s') \<and> answers s' \<and> tabs s' = snd (f (db_seq s k + 1) (tabs s))"
proof -
  let ?f = "\<lambda>s. let i = db_seq s k + 1; (r, tabs') = f i (tabs s) in (r, s\<lparr>db_seq := (db_seq s)(k := i), tabs := tabs'\<rparr>)"
  obtain n where n: "dbcall ?f s = ?f (set_net n s)" "answers (set_net n s)"
    using dbcall_answers [OF assms, of ?f] by blast
  obtain r t where "f (db_seq s k + 1) (tabs s) = (r, t)" by (cases "f (db_seq s k + 1) (tabs s)")
  with n show ?thesis by (simp add: insert_into_def Let_def answers_def)
qed

lemma hostID_answers:
  assumes "answers s" and "host \<in> set (map h_name (db_hosts (tabs s)))"
  shows "\<exists>i s'. hostID host s = (Inr i, s') \<and> answers s' \<and> tabs s' = tabs s \<and> i \<in> set (map h_id (db_hosts (tabs s))) \<and>
    (\<exists>h \<in> set (db_hosts (tabs s)). h_id h = i \<and> h_name h = host)"
proof -
  obtain s1 where s1: "query (\<lambda>t. host_named t host) s = (Inr (host_named (tabs s) host), s1)" "answers s1" "tabs s1 = tabs s"
    using query_answers [OF assms(1)] by blast
  obtain h where h: "host_named (tabs s) host = Some h"
    using assms(2) by (cases "host_named (tabs s) host") (auto simp: host_named_def find_None_iff)
  then have "h \<in> set (db_hosts (tabs s))" "h_name h = host" by (auto simp: host_named_def dest: find_SomeD)
  with s1 h show ?thesis by (intro exI [of _ "h_id h"] exI [of _ s1]) (auto simp: hostID_def bindE_def)
qed

lemma CreateAlert_answers:
  assumes ok: "alert_db_ok s" and ans: "answers s" and none: "db_opens s (key_of a) = None" and reg: "registered s (al_Host a)"
  shows "\<exists>i s'. CreateAlert a s = (Inr i, s') \<and> answers s' \<and> db_hosts (tabs s') = db_hosts (tabs s)"
proof -
  have inv: "alert_inv (tabs s) (db_seq s)" using ok by (simp add: alert_db_ok_def tab_inv_def)
  have hosts: "hosts_ok (tabs s) (db_seq s)" using inv by (simp add: alert_inv_def)
  let ?host = "if al_Host a = [] then ret None else bindE (hostID (al_Host a)) (\<lambda>i. ret (Some i))"
  have "\<exists>hid s1. ?host s = (Inr hid, s1) \<and> answers s1 \<and> tabs s1 = tabs s \<and> host_name (tabs s) hid = al_Host a \<and>
      (\<forall>i. hid = Some i \<longrightarrow> i \<in> set (map h_id (db_hosts (tabs s))))"
  proof (cases "al_Host a = []")
    case False
    with reg have "al_Host a \<in> set (map h_name (db_hosts (tabs s)))" by (simp add: registered_def)
    from hostID_answers [OF ans this] obtain h s1 where h: "h \<in> set (db_hosts (tabs s))" "h_name h = al_Host a"
      and s1: "hostID (al_Host a) s = (Inr (h_id h), s1)" "answers s1" "tabs s1 = tabs s" by blast
    with host_name_of [OF hosts h(1)] False show ?thesis
      by (intro exI [of _ "Some (h_id h)"] exI [of _ s1]) (auto simp: bindE_def)
  qed (use ans in \<open>auto simp: host_name_def\<close>)
  then obtain hid s1 where s1: "?host s = (Inr hid, s1)" "answers s1" "tabs s1 = tabs s"
    and hid: "host_name (tabs s) hid = al_Host a" "\<forall>i. hid = Some i \<longrightarrow> i \<in> set (map h_id (db_hosts (tabs s)))" by blast
  let ?row = "\<lambda>i. \<lparr>a_id = i, a_host_id = hid, a_rule = al_Rule a, a_metric = al_Metric a, a_target = al_Target a,
     a_severity = al_Severity a, a_value = Some (al_Value a), a_started_at = timestamptz (al_StartedAt a),
     a_updated_at = timestamptz (al_StartedAt a), a_resolved_at = None\<rparr>"
  let ?i = "db_seq s1 T_alerts + 1"
  have "\<not> (\<exists>b \<in> set (db_alerts (tabs s)). is_open b \<and> index_key b = index_key (?row ?i))"
    using none hid(1) by (auto simp: db_opens_def open_alerts_def find_None_iff open_for_def index_key_def key_of_def)
  then have ins: "insert_alert (?row ?i) (tabs s) = (Inr ?i, (tabs s)\<lparr>db_alerts := db_alerts (tabs s) @ [?row ?i]\<rparr>)"
    using hid(2) by (cases hid) (auto simp: insert_alert_def)
  obtain s2 where "insert_into T_alerts (\<lambda>i. insert_alert (?row i)) s1 = (Inr ?i, s2)" "answers s2"
    "tabs s2 = (tabs s)\<lparr>db_alerts := db_alerts (tabs s) @ [?row ?i]\<rparr>"
    using insert_into_answers [OF s1(2), of T_alerts "\<lambda>i. insert_alert (?row i)"] ins by (auto simp: s1(3))
  with s1 show ?thesis unfolding CreateAlert_def by (intro exI [of _ ?i] exI [of _ s2]) (simp add: bindE_Inr)
qed

lemma registered_cong: "db_hosts (tabs s') = db_hosts (tabs s) \<Longrightarrow> registered s' = registered s"
  by (simp add: registered_def fun_eq_iff)

lemma exec_registered:
  assumes "answers s" and "\<And>t. db_hosts (snd (f t)) = db_hosts t \<and> fst (f t) = ()"
  shows "\<exists>s'. exec f s = (Inr (), s') \<and> answers s' \<and> registered s' = registered s"
proof -
  obtain s' where "exec f s = (Inr (fst (f (tabs s))), s')" "answers s'" "tabs s' = snd (f (tabs s))"
    using exec_answers [OF assms(1)] by blast
  with assms(2) [of "tabs s"] show ?thesis by (auto intro: registered_cong)
qed

interpretation rdb: reliable_alert_store "alert_db regr" queue_notifier alert_db_ok db_opens answers registered
  for regr
proof (unfold_locales, goal_cases)
  case (1 s now h r m tgt found s')
  then show ?case using OpenAlert_step [of h r m tgt s found s']
    by (auto simp: alert_db_def alert_db_ok_def tab_inv_def db_opens_def)
next
  case (2 s now a made s')
  then show ?case using CreateAlert_step [of s a made s']
    by (simp add: alert_db_def alert_db_ok_def db_opens_def key_of_def)
next
  case (3 s k i sev now sev' v t y s')
  then show ?case using UpdateAlert_step [of s k i sev sev' v t y s']
    by (simp add: alert_db_def alert_db_ok_def db_opens_def)
next
  case (4 s k i sev now v t y s')
  then show ?case using ResolveAlert_step [of s k i sev v t y s']
    by (simp add: alert_db_def alert_db_ok_def db_opens_def)
next
  case (5 s now n)
  then show ?case using same_alerts_ok [OF queueNotice_same_alerts [of now n s "fst (queueNotice (notice_store now) n s)" "queue_notifier now n s"]]
    by (simp add: queue_notifier_def)
next
  case (6 s now h r m tgt)
  obtain s' where s': "OpenAlert h r m tgt s = (Inr (map_option (alert_of_row (tabs s)) (find (open_for (tabs s) (h, r, m, tgt)) (db_alerts (tabs s)))), s')"
    "answers s'" "tabs s' = tabs s"
    using query_answers [OF 6(2)] unfolding OpenAlert_def by blast
  then have "registered s' = registered s" by (intro registered_cong) simp
  with s' show ?case by (simp add: alert_db_def)
next
  case (7 s a now)
  obtain i s' where s': "CreateAlert a s = (Inr i, s')" "answers s'" "db_hosts (tabs s') = db_hosts (tabs s)"
    using CreateAlert_answers [OF 7] by blast
  then have "registered s' = registered s" by (intro registered_cong)
  with s' show ?case by (simp add: alert_db_def)
next
  case (8 s now i sev v t)
  from 8(2) show ?case unfolding alert_db_def UpdateAlert_def by (simp, intro exec_registered) simp_all
next
  case (9 s now i v t)
  from 9(2) show ?case unfolding alert_db_def ResolveAlert_def by (simp, intro exec_registered) simp_all
next
  case (10 s now n)
  have "same_alerts s (queue_notifier now n s)"
    by (rule queueNotice_same_alerts [of now n s "fst (queueNotice (notice_store now) n s)"]) (simp add: queue_notifier_def)
  with 10 same_alerts_ok(3) [OF this] show ?case by (simp add: same_alerts_def)
qed

section \<open>Properties\<close>

definition example_service_rule :: AlertConfig where
  "example_service_rule = zero_rule\<lparr>rule_Name := ''nginx'', rule_MetricName := SERVICES, rule_Op := ''inactive'', rule_Service := ''nginx'',
     rule_Servers := [AllHosts], rule_TriggerIntveral := 60\<rparr>"

definition example_db :: db where
  "example_db = \<lparr>db_net = [], db_seq = (\<lambda>_. 5), tabs = no_rows\<lparr>db_hosts := [new_host 1 ''web'' ''UTC'']\<rparr>\<rparr>"

definition example_check :: "float64 \<Rightarrow> time \<Rightarrow> (unit, db evaluator) act" where
  "example_check v t = check (alert_db (\<lambda>_. (None, None)) 0) (queue_notifier 0) example_service_rule ''web'' ''nginx'' v t"

text \<open>The service stops, is still stopped 100 seconds later, runs again, and still runs 100 seconds later.\<close>

definition example_e1 :: "db evaluator" where
  "example_e1 = snd (example_check (Fin 0) (1000 * Second) (newEvaluator example_db))"

definition example_e2 :: "db evaluator" where
  "example_e2 = snd (example_check (Fin 0) (1100 * Second) example_e1)"

definition example_e3 :: "db evaluator" where
  "example_e3 = snd (example_check (Fin 1) (1200 * Second) example_e2)"

lemma example_runs:
  "example_check (Fin 0) (1000 * Second) (newEvaluator example_db) = (Inr (), example_e1)"
  "example_check (Fin 0) (1100 * Second) example_e1 = (Inr (), example_e2)"
  "example_check (Fin 1) (1200 * Second) example_e2 = (Inr (), example_e3)"
proof -
  have "fst (example_check (Fin 0) (1000 * Second) (newEvaluator example_db)) = Inr ()" by code_simp
  moreover have "fst (example_check (Fin 0) (1100 * Second) example_e1) = Inr ()" by code_simp
  moreover have "fst (example_check (Fin 1) (1200 * Second) example_e2) = Inr ()" by code_simp
  ultimately show "example_check (Fin 0) (1000 * Second) (newEvaluator example_db) = (Inr (), example_e1)"
    "example_check (Fin 0) (1100 * Second) example_e1 = (Inr (), example_e2)"
    "example_check (Fin 1) (1200 * Second) example_e2 = (Inr (), example_e3)"
    by (simp_all add: example_e1_def example_e2_def example_e3_def prod_eq_iff)
qed

lemma example_statuses: "ruleStatus example_service_rule (Fin 0) = Critical" "ruleStatus example_service_rule (Fin 1) = Normal"
  by code_simp+

lemma example_fresh:
  "\<not> already_checked (newEvaluator example_db) (alertKey ''web'' example_service_rule ''nginx'') (1000 * Second)"
  "\<not> already_checked example_e1 (alertKey ''web'' example_service_rule ''nginx'') (1100 * Second)"
  "\<not> already_checked example_e2 (alertKey ''web'' example_service_rule ''nginx'') (1200 * Second)"
  "\<not> already_checked example_e3 (alertKey ''web'' example_service_rule ''nginx'') (1300 * Second)"
  by code_simp+

lemma example_ok: "alert_db_ok (ev_store (newEvaluator example_db))" "alert_db_ok (ev_store example_e1)"
   "alert_db_ok (ev_store example_e2)" "alert_db_ok (ev_store example_e3)"
proof -
  note step = rdb.check_step [of _ "''web''" example_service_rule "''nginx''" _ "\<lambda>_. (None, None)"]
  show "alert_db_ok (ev_store (newEvaluator example_db))"
    by (simp add: alert_db_ok_def tab_inv_def alert_inv_def hosts_ok_def alerts_ok_def newEvaluator_def example_db_def no_rows_def new_host_def)
  from step [OF this example_fresh(1) example_runs(1) [unfolded example_check_def]] show e1: "alert_db_ok (ev_store example_e1)" by blast
  from step [OF this example_fresh(2) example_runs(2) [unfolded example_check_def]] show e2: "alert_db_ok (ev_store example_e2)" by blast
  from step [OF this example_fresh(3) example_runs(3) [unfolded example_check_def]] show e3: "alert_db_ok (ev_store example_e3)" by blast
qed

lemma example_history:
  "history example_service_rule ''web'' ''nginx'' [(Critical, 1000 * Second, True)] example_e1"
  "history example_service_rule ''web'' ''nginx''
     [(Critical, 1000 * Second, True), (Critical, 1100 * Second, True), (Normal, 1200 * Second, True)] example_e3"
proof -
  let ?h = "history example_service_rule ''web'' ''nginx''"
  note sample = history.sample [of example_service_rule "''web''" "''nginx''"]
  have "?h [] (newEvaluator example_db)" by (rule history.start) (simp add: newEvaluator_def)
  from sample [OF this example_fresh(1) example_runs(1) [unfolded example_check_def]]
  show h1: "?h [(Critical, 1000 * Second, True)] example_e1" by (simp add: example_statuses)
  from sample [OF this example_fresh(2) example_runs(2) [unfolded example_check_def]]
  have h2: "?h [(Critical, 1000 * Second, True), (Critical, 1100 * Second, True)] example_e2" by (simp add: example_statuses)
  from sample [OF this example_fresh(3) example_runs(3) [unfolded example_check_def]]
  show "?h [(Critical, 1000 * Second, True), (Critical, 1100 * Second, True), (Normal, 1200 * Second, True)] example_e3"
    by (simp add: example_statuses)
qed





text \<open>C23. \<open>check\<close> implements the machine \<open>watch_step\<close>: from a consistent database a check of a new sample leaves the
  database consistent, changes no other alert and no other key of the evaluator, and when it returns without an
  error the alert and the pending status are exactly the machine's next state. When it returns an error, each of
  the two is either as before or as the machine says.\<close>

theorem check_implements_machine:
  assumes "alert_db_ok (ev_store e)" and "\<not> already_checked e (alertKey host rule target) t"
    and "check (alert_db regr now) (queue_notifier now) rule host target v t e = (r, e')"
  shows "alert_db_ok (ev_store e') \<and> checked e' (alertKey host rule target) = Some t \<and>
    only_touches db_opens (rule_key host rule target) (alertKey host rule target) e e' \<and>
    stepped (triggerInterval rule) (ruleStatus rule v) t r (watch_of db_opens host rule target e) (watch_of db_opens host rule target e')"
  using assms by (rule rdb.check_step)

theorem check_implements_machine_witness:
  "stepped (triggerInterval example_service_rule) Critical (1100 * Second) (Inr ()) (watch_of db_opens ''web'' example_service_rule ''nginx'' example_e1)
     (watch_of db_opens ''web'' example_service_rule ''nginx'' example_e2)"
  using check_implements_machine [OF example_ok(2) example_fresh(2) example_runs(2) [unfolded example_check_def]]
  by (simp add: example_statuses)

text \<open>C24. Over a run of new samples with a database that answers, the open alert and the pending status are at the end what
  the machine makes of the samples.\<close>

theorem run_follows_machine:
  assumes "alert_db_ok (ev_store e)" and "answers (ev_store e)" and "registered (ev_store e) host"
    and "new_samples e (alertKey host rule target) samples"
  shows "watch_of db_opens host rule target (run_checks (alert_db regr) queue_notifier rule host target samples e) =
      watch_run (triggerInterval rule) (map (\<lambda>(now, v, t). (ruleStatus rule v, t)) samples) (watch_of db_opens host rule target e)"
  using rdb.run_checks_refines [of host e rule target samples regr] assms by (simp add: rdb.fine_def)

lemma example_registered: "answers (ev_store (newEvaluator example_db))" "registered (ev_store (newEvaluator example_db)) ''web''"
  by code_simp+

theorem run_follows_machine_witness:
  "w_open (watch_of db_opens ''web'' example_service_rule ''nginx''
     (run_checks (alert_db (\<lambda>_. (None, None))) queue_notifier example_service_rule ''web'' ''nginx''
       [(0, Fin 0, 1000 * Second), (0, Fin 0, 1100 * Second), (0, Fin 1, 1200 * Second)] (newEvaluator example_db))) = Some 2"
proof -
  let ?ss = "[(0, Fin 0, 1000 * Second), (0, Fin 0, 1100 * Second), (0, Fin 1, 1200 * Second)]"
  have "new_samples (newEvaluator example_db) (alertKey ''web'' example_service_rule ''nginx'') ?ss"
    by (simp add: new_samples_def already_checked_def newEvaluator_def Second_def)
  note run = run_follows_machine [OF example_ok(1) example_registered this, of "\<lambda>_. (None, None)"]
  have T: "triggerInterval example_service_rule = 60000000000" by code_simp
  have "db_opens (ev_store (newEvaluator example_db)) (rule_key ''web'' example_service_rule ''nginx'') = None" by code_simp
  then have "watch_of db_opens ''web'' example_service_rule ''nginx'' (newEvaluator example_db) = \<lparr>w_open = None, w_pending = None\<rparr>"
    by (simp add: watch_of_def newEvaluator_def)
  with run T show ?thesis
    by (simp add: example_statuses watch_run_def watch_step.simps breached_def time_sub_def Second_def)
qed



end
