(* ===== verification/Delivery.thy ===== *)
theory Delivery
  imports Notifications
begin

text \<open>
  What the notification queue of Notifications.thy promises. \<open>mail_inv\<close> is the invariant of the queue, and
  \<open>mail_step\<close> are the things that happen to it: events are queued, batches are delivered, channels and alerts
  come and go, and the database starts or stops failing.
\<close>

section \<open>The invariant\<close>

definition row_ok :: "notification_row \<Rightarrow> bool" where
  "row_ok n \<longleftrightarrow> n_status n \<in> {NotificationPending, NotificationSent, NotificationFailed} \<and> 0 \<le> n_attempts n \<and>
     n_attempts n \<le> (if n_status n = NotificationPending then 5 else 6)"

definition in_order :: "notification_row list \<Rightarrow> bool" where
  "in_order ns \<longleftrightarrow> (\<forall>p \<in> set ns. \<forall>n \<in> set ns. earlier p n \<and> n_status p = NotificationPending \<longrightarrow>
     n_status n = NotificationPending \<and> n_attempts n = 0)"

definition queue_inv :: "notification_row list \<Rightarrow> int \<Rightarrow> bool" where
  "queue_inv ns q \<longleftrightarrow> distinct (map n_id ns) \<and> (\<forall>n \<in> set ns. n_id n \<le> q \<and> row_ok n) \<and> in_order ns"

definition mail_inv :: "tables \<Rightarrow> (tbl \<Rightarrow> int) \<Rightarrow> bool" where
  "mail_inv t q = queue_inv (db_notifications t) (q T_notifications)"

abbreviation mail_ok :: "db \<Rightarrow> bool" where
  "mail_ok \<equiv> tab_inv mail_inv"

lemma in_orderD:
  assumes "in_order ns" and "p \<in> set ns" and "n \<in> set ns" and "earlier p n" and "n_status p = NotificationPending"
  shows "n_status n = NotificationPending \<and> n_attempts n = 0"
  using assms unfolding in_order_def by blast

lemma queue_inv_in_order: "queue_inv ns q \<Longrightarrow> in_order ns"
  by (simp add: queue_inv_def)

lemma mail_inv_same:
  assumes "mail_inv t q" and "db_notifications t' = db_notifications t" and "q' T_notifications = q T_notifications"
  shows "mail_inv t' q'"
  using assms by (simp add: mail_inv_def)

lemma queue_inv_subset:
  assumes "queue_inv ns q"
  shows "queue_inv (filter P ns) q"
  using assms by (auto simp: queue_inv_def in_order_def distinct_map_filter)

lemma mail_inv_delete:
  assumes "mail_inv t q" and "db_notifications t' = delete_where P (db_notifications t)"
  shows "mail_inv t' q"
  using assms queue_inv_subset [of "db_notifications t" _ "\<lambda>n. \<not> P n"] by (simp add: mail_inv_def delete_where_def)

section \<open>Queueing\<close>

lemma number_rows_ids:
  assumes "\<And>i x. n_id (f i x) = i"
  shows "map n_id (number_rows f i xs) = map (\<lambda>j. i + int j) [0..<length xs]"
proof (induction xs arbitrary: i)
  case (Cons x xs)
  have upt: "[0..<Suc (length xs)] = 0 # map Suc [0..<length xs]" by (simp only: map_Suc_upt upt_conv_Cons [OF zero_less_Suc])
  have "map (\<lambda>j. i + int j) [0..<length (x # xs)] = i # map (\<lambda>j. i + 1 + int j) [0..<length xs]"
    unfolding length_Cons upt by simp
  with Cons.IH [of "i + 1"] assms show ?case by simp
qed simp

lemma number_rows_set:
  assumes "r \<in> set (number_rows f i xs)"
  obtains j x where "r = f j x" "i \<le> j" "j < i + int (length xs)" "x \<in> set xs"
proof -
  have "\<exists>j x. r = f j x \<and> i \<le> j \<and> j < i + int (length xs) \<and> x \<in> set xs" using assms
  proof (induction xs arbitrary: i)
    case (Cons y xs)
    show ?case
    proof (cases "r = f i y")
      case True
      then show ?thesis by (intro exI [of _ i] exI [of _ y]) simp
    next
      case False
      with Cons.prems have "r \<in> set (number_rows f (i + 1) xs)" by simp
      from Cons.IH [OF this] obtain j x where "r = f j x \<and> i + 1 \<le> j \<and> j < i + 1 + int (length xs) \<and> x \<in> set xs" by blast
      then show ?thesis by (intro exI [of _ j] exI [of _ x]) auto
    qed
  qed simp
  with that show thesis by blast
qed

lemma queue_inv_append:
  assumes "queue_inv ns q"
  shows "queue_inv (ns @ number_rows (new_notification now n) (q + 1) ids) (q + int (length ids))"
proof -
  let ?new = "number_rows (new_notification now n) (q + 1) ids"
  have ids: "map n_id ?new = map (\<lambda>j. q + 1 + int j) [0..<length ids]"
    by (rule number_rows_ids) (simp add: new_notification_def)
  have new: "q < n_id r \<and> n_id r \<le> q + int (length ids) \<and> n_status r = NotificationPending \<and> n_attempts r = 0" if "r \<in> set ?new" for r
    using that by (rule number_rows_set) (simp add: new_notification_def)
  have old: "n_id r \<le> q" "row_ok r" if "r \<in> set ns" for r using that assms by (auto simp: queue_inv_def)
  have "distinct (map n_id ?new)" unfolding ids by (simp add: distinct_map inj_on_def)
  moreover have "set (map n_id ns) \<inter> set (map n_id ?new) = {}" using new old by force
  ultimately have "distinct (map n_id (ns @ ?new))" using assms by (simp add: queue_inv_def)
  moreover have "n_id r \<le> q + int (length ids) \<and> row_ok r" if "r \<in> set (ns @ ?new)" for r
    using that new [of r] old [of r] by (auto simp: row_ok_def)
  moreover have "in_order (ns @ ?new)"
    unfolding in_order_def
  proof (intro ballI impI)
    fix p r assume pr: "p \<in> set (ns @ ?new)" "r \<in> set (ns @ ?new)" and e: "earlier p r \<and> n_status p = NotificationPending"
    show "n_status r = NotificationPending \<and> n_attempts r = 0"
    proof (cases "r \<in> set ?new")
      case True
      with new show ?thesis by blast
    next
      case False
      with pr have r: "r \<in> set ns" by simp
      moreover have "n_id p \<le> q" using old(1) [OF r] e unfolding earlier_def by linarith
      with pr(1) new [of p] have "p \<in> set ns" by (metis Un_iff linorder_not_le set_append)
      ultimately show ?thesis using in_orderD [OF queue_inv_in_order [OF assms]] e by blast
    qed
  qed
  ultimately show ?thesis by (simp add: queue_inv_def)
qed

lemma keeps_queue_batch: "keeps mail_ok (queue_batch now n ids)"
proof (rule keepsI)
  fix s assume "mail_ok s"
  then have inv: "queue_inv (db_notifications (tabs s)) (db_seq s T_notifications)" by (simp add: tab_inv_def mail_inv_def)
  then have "queue_inv (db_notifications (tabs s)) (db_seq s T_notifications + int (length ids))"
    by (auto simp: queue_inv_def)
  with queue_inv_append [OF inv, of now n ids] show "mail_ok (snd (queue_batch now n ids s))"
    by (simp add: tab_inv_def mail_inv_def queue_batch_def Let_def)
qed

lemma keeps_queueNotice: "keeps mail_ok (queueNotice (notice_store now) n)"
  unfolding queueNotice_def notice_store_def
  by (auto simp: Channels_def NotifiedChannels_def QueueNotifications_def intro!: keeps_bindE keeps_dbcall keeps_queue_batch)

section \<open>Delivering\<close>

text \<open>What one attempt does to the row: it is sent, tried again later, or given up on.\<close>

definition attempted :: "notification_row \<Rightarrow> notification_row \<Rightarrow> bool" where
  "attempted n n' \<longleftrightarrow> n_id n' = n_id n \<and> n_alert_id n' = n_alert_id n \<and> n_channel_id n' = n_channel_id n \<and>
     n_attempts n' = n_attempts n + 1 \<and>
     (n_status n' = NotificationSent \<or> n_status n' = NotificationFailed \<or>
      n_status n' = n_status n \<and> n_attempts n' \<le> 5)"

text \<open>A notification read as due is still due as long as nothing has changed its row.\<close>

definition still_due :: "notification_row list \<Rightarrow> Notification \<Rightarrow> bool" where
  "still_due ns x \<longleftrightarrow> (\<forall>n \<in> set ns. n_id n = nf_ID x \<longrightarrow> n_attempts n = nf_Attempts x \<and> n_status n = NotificationPending \<and>
     \<not> (\<exists>p \<in> set ns. earlier p n \<and> n_status p = NotificationPending))"

lemma update_member:
  assumes "n' \<in> set (update_where (\<lambda>n. n_id n = i) f ns)" and "\<And>n. n \<in> set ns \<Longrightarrow> n_id n = i \<Longrightarrow> attempted n (f n)"
  obtains n where "n \<in> set ns" "n_id n' = n_id n" "n_alert_id n' = n_alert_id n" "n_channel_id n' = n_channel_id n"
    "n' = n \<and> n_id n \<noteq> i \<or> n' = f n \<and> n_id n = i"
  using assms by (auto simp: set_update_where attempted_def split: if_splits)

lemma attempt_keeps_queue:
  assumes inv: "queue_inv ns q" and due: "still_due ns x"
    and f: "\<And>n. n \<in> set ns \<Longrightarrow> n_id n = nf_ID x \<Longrightarrow> attempted n (f n)"
  shows "queue_inv (update_where (\<lambda>n. n_id n = nf_ID x) f ns) q"
proof -
  let ?ns = "update_where (\<lambda>n. n_id n = nf_ID x) f ns"
  have ids: "map n_id ?ns = map n_id ns"
    using f by (auto simp: update_where_def attempted_def)
  have rows: "n_id n' \<le> q \<and> row_ok n'" if "n' \<in> set ?ns" for n'
  proof -
    from that f obtain n where n: "n \<in> set ns" "n_id n' = n_id n" "n' = n \<and> n_id n \<noteq> nf_ID x \<or> n' = f n \<and> n_id n = nf_ID x"
      by (rule update_member)
    have "row_ok (f n)" if "n_id n = nf_ID x"
    proof -
      have "row_ok n" "n_status n = NotificationPending" using n(1) that inv due by (auto simp: queue_inv_def still_due_def)
      with f [OF n(1) that] show ?thesis by (auto simp: row_ok_def attempted_def)
    qed
    with n inv show ?thesis by (auto simp: queue_inv_def)
  qed
  have "in_order ?ns"
    unfolding in_order_def
  proof (intro ballI impI)
    fix p' n' assume in': "p' \<in> set ?ns" "n' \<in> set ?ns" and e: "earlier p' n' \<and> n_status p' = NotificationPending"
    from in'(1) f obtain p where p: "p \<in> set ns" "n_id p' = n_id p" "n_alert_id p' = n_alert_id p" "n_channel_id p' = n_channel_id p"
      "p' = p \<and> n_id p \<noteq> nf_ID x \<or> p' = f p \<and> n_id p = nf_ID x" by (rule update_member)
    from in'(2) f obtain n where n: "n \<in> set ns" "n_id n' = n_id n" "n_alert_id n' = n_alert_id n" "n_channel_id n' = n_channel_id n"
      "n' = n \<and> n_id n \<noteq> nf_ID x \<or> n' = f n \<and> n_id n = nf_ID x" by (rule update_member)
    have pn: "earlier p n" using e p n by (simp add: earlier_def)
    have pp: "n_status p = NotificationPending"
      using p(5) e due p(1) by (auto simp: still_due_def)
    have "n_id n \<noteq> nf_ID x" using due n(1) p(1) pn pp by (auto simp: still_due_def)
    with n(5) have "n' = n" by blast
    with in_orderD [OF queue_inv_in_order [OF inv] p(1) n(1) pn pp] show "n_status n' = NotificationPending \<and> n_attempts n' = 0"
      by simp
  qed
  with ids rows inv show ?thesis by (simp add: queue_inv_def)
qed

lemma attempt_keeps_due:
  assumes f: "\<And>n. n \<in> set ns \<Longrightarrow> n_id n = nf_ID x \<Longrightarrow> attempted n (f n)"
    and due: "still_due ns x" "still_due ns y" and xy: "nf_ID y \<noteq> nf_ID x"
  shows "still_due (update_where (\<lambda>n. n_id n = nf_ID x) f ns) y"
  unfolding still_due_def
proof (intro ballI impI)
  let ?ns = "update_where (\<lambda>n. n_id n = nf_ID x) f ns"
  fix n' assume n': "n' \<in> set ?ns" "n_id n' = nf_ID y"
  from n'(1) f obtain n where n: "n \<in> set ns" "n_id n' = n_id n" "n' = n \<and> n_id n \<noteq> nf_ID x \<or> n' = f n \<and> n_id n = nf_ID x"
    by (rule update_member)
  with n' xy have eq: "n' = n" by simp
  have "\<not> (earlier p' n \<and> n_status p' = NotificationPending)" if "p' \<in> set ?ns" for p'
  proof
    assume e: "earlier p' n \<and> n_status p' = NotificationPending"
    from that f obtain p where p: "p \<in> set ns" "n_id p' = n_id p" "n_alert_id p' = n_alert_id p" "n_channel_id p' = n_channel_id p"
      "p' = p \<and> n_id p \<noteq> nf_ID x \<or> p' = f p \<and> n_id p = nf_ID x" by (rule update_member)
    have "n_status p = NotificationPending" using p(1,5) e due(1) by (auto simp: still_due_def)
    moreover have "earlier p n" using e p by (simp add: earlier_def)
    ultimately show False using due(2) n'(2) n(1) p(1) eq by (auto simp: still_due_def)
  qed
  with due(2) n n'(2) eq show "n_attempts n' = nf_Attempts y \<and> n_status n' = NotificationPending \<and>
      \<not> (\<exists>p \<in> set ?ns. earlier p n' \<and> n_status p = NotificationPending)"
    by (auto simp: still_due_def)
qed

lemma retryAfter_Some: "retryAfter k = Some w \<Longrightarrow> 1 \<le> k \<and> k \<le> 5 \<and> w = retryWaits ! nat (k - 1)"
  by (auto simp: retryAfter_def retryWaits_def split: if_splits)

text \<open>Every attempt is one UPDATE of the row it is about.\<close>

definition marks :: "(int \<Rightarrow> time) \<Rightarrow> Notification \<Rightarrow> (notification_row \<Rightarrow> notification_row) set" where
  "marks sent x =
     {\<lambda>n. n\<lparr>n_status := NotificationSent, n_attempts := n_attempts n + 1, n_sent_at := Some (timestamptz (sent (nf_ID x))), n_ref := ref, n_last_error := []\<rparr> | ref. True} \<union>
     {\<lambda>n. n\<lparr>n_status := NotificationFailed, n_attempts := n_attempts n + 1, n_last_error := reason\<rparr> | reason. True} \<union>
     {\<lambda>n. n\<lparr>n_attempts := n_attempts n + 1, n_last_error := reason, n_next_attempt_at := timestamptz (later + wait)\<rparr> | reason later wait.
        retryAfter (nf_Attempts x + 1) = Some wait}"

lemma deliver_step_update:
  obtains (mark) f where "f \<in> marks sent x" "deliver_step (delivery_store now sent) dashboard w x = update_notification (nf_ID x) f"
proof -
  obtain retry res where d: "deliverOne w x dashboard (wo_now w) = (retry, res)" by (cases "deliverOne w x dashboard (wo_now w)")
  have failed: thesis if "deliver_step (delivery_store now sent) dashboard w x = MarkFailed (nf_ID x) reason" for reason
    using that by (intro mark) (auto simp: marks_def MarkFailed_def)
  show thesis
  proof (cases res)
    case (Inr ref)
    with d have "deliver_step (delivery_store now sent) dashboard w x = MarkSent (sent (nf_ID x)) (nf_ID x) ref"
      by (simp add: deliver_step_def delivery_store_def)
    then show thesis by (intro mark) (auto simp: marks_def MarkSent_def)
  next
    case (Inl err)
    show thesis
    proof (cases "retry \<and> retryAfter (nf_Attempts x + 1) \<noteq> None")
      case True
      then obtain wait where wait: "retryAfter (nf_Attempts x + 1) = Some wait" by blast
      with True d Inl have "deliver_step (delivery_store now sent) dashboard w x = MarkRetry (nf_ID x) (wo_Error w err) (wo_after w + wait)"
        by (simp add: deliver_step_def delivery_store_def)
      with wait show thesis by (intro mark) (auto simp: marks_def MarkRetry_def)
    next
      case False
      with d Inl have "deliver_step (delivery_store now sent) dashboard w x = MarkFailed (nf_ID x) (wo_Error w err)"
        by (auto simp: deliver_step_def delivery_store_def split: option.split)
      then show thesis by (rule failed)
    qed
  qed
qed

lemma marks_attempted:
  assumes "f \<in> marks sent x" and "n_attempts n = nf_Attempts x"
  shows "attempted n (f n)"
  using assms by (auto simp: marks_def attempted_def dest!: retryAfter_Some)

text \<open>How a round of deliveries changes a row. When the database answers, every row that was listed changes.\<close>

definition round_row :: "bool \<Rightarrow> (int \<Rightarrow> time) \<Rightarrow> Notification list \<Rightarrow> notification_row \<Rightarrow> notification_row \<Rightarrow> bool" where
  "round_row sure sent due n n' \<longleftrightarrow> n' = n \<and> (sure \<longrightarrow> n_id n \<notin> nf_ID ` set due) \<or> (\<exists>x \<in> set due. n_id n = nf_ID x \<and> n_attempts n = nf_Attempts x \<and> (\<exists>f \<in> marks sent x. n' = f n))"

lemma deliver_all_round:
  assumes "queue_inv (db_notifications (tabs s)) q" and "distinct (map nf_ID due)"
    and "\<And>x. x \<in> set due \<Longrightarrow> still_due (db_notifications (tabs s)) x"
    and "s' = deliver_all (delivery_store now sent) dashboard ws i due s"
  shows "queue_inv (db_notifications (tabs s')) q \<and> db_seq s' = db_seq s \<and> (db_net s = [] \<longrightarrow> db_net s' = []) \<and>
    tabs s' = (tabs s)\<lparr>db_notifications := db_notifications (tabs s')\<rparr> \<and>
    list_all2 (round_row (db_net s = []) sent due) (db_notifications (tabs s)) (db_notifications (tabs s'))"
  using assms
proof (induction due arbitrary: i s)
  case Nil
  then show ?case by (simp add: round_row_def list_all2_refl)
next
  case (Cons x due)
  let ?ns = "db_notifications (tabs s)"
  obtain f where f: "f \<in> marks sent x" "deliver_step (delivery_store now sent) dashboard (ws i) x = update_notification (nf_ID x) f"
    by (rule deliver_step_update)
  define s1 where "s1 = snd (deliver_step (delivery_store now sent) dashboard (ws i) x s)"
  let ?up = "update_where (\<lambda>n. n_id n = nf_ID x) f ?ns"
  have s1: "db_seq s1 = db_seq s" "tabs s1 = tabs s \<or> tabs s1 = (tabs s)\<lparr>db_notifications := ?up\<rparr>"
    unfolding s1_def f(2) update_notification_def
    by (cases rule: exec_cases [OF surjective_pairing]; auto)+
  have sure: "db_net s1 = [] \<and> tabs s1 = (tabs s)\<lparr>db_notifications := ?up\<rparr>" if "db_net s = []"
    using that unfolding s1_def f(2) update_notification_def by (simp add: exec_def dbcall_def)
  have due: "still_due ?ns x" using Cons.prems(3) by simp
  then have att: "attempted n (f n)" if "n \<in> set ?ns" "n_id n = nf_ID x" for n
    using that marks_attempted [OF f(1)] by (simp add: still_due_def)
  have inv1: "queue_inv (db_notifications (tabs s1)) q"
    using s1(2) Cons.prems(1) attempt_keeps_queue [OF Cons.prems(1) due att] by auto
  have due1: "still_due (db_notifications (tabs s1)) y" if "y \<in> set due" for y
  proof -
    have "nf_ID y \<noteq> nf_ID x" using Cons.prems(2) that by (metis distinct.simps(2) image_eqI list.set_map list.simps(9))
    then show ?thesis using s1(2) Cons.prems(3) [of y] that attempt_keeps_due [OF att due] by auto
  qed
  have IH: "queue_inv (db_notifications (tabs s')) q \<and> db_seq s' = db_seq s1 \<and> (db_net s1 = [] \<longrightarrow> db_net s' = []) \<and>
    tabs s' = (tabs s1)\<lparr>db_notifications := db_notifications (tabs s')\<rparr> \<and>
    list_all2 (round_row (db_net s1 = []) sent due) (db_notifications (tabs s1)) (db_notifications (tabs s'))"
    using Cons.prems(2,4) by (intro Cons.IH [OF inv1 _ due1]) (simp_all add: s1_def)
  let ?r = "round_row (db_net s = []) sent (x # due)"
  have up: "?r n n'" if "n \<in> set ?ns" "round_row (db_net s1 = []) sent due (if n_id n = nf_ID x then f n else n) n'" for n n'
  proof (cases "n_id n = nf_ID x")
    case True
    have "n' = f n"
      using that True att [OF that(1) True] Cons.prems(2) by (auto simp: round_row_def attempted_def)
    with True f(1) due that(1) show ?thesis by (auto simp: round_row_def still_due_def)
  next
    case False
    with that(2) sure show ?thesis by (auto simp: round_row_def)
  qed
  have "list_all2 ?r ?ns (db_notifications (tabs s'))"
  proof (cases "tabs s1 = (tabs s)\<lparr>db_notifications := ?up\<rparr>")
    case True
    with IH up show ?thesis by (auto simp: update_where_def list_all2_conv_all_nth)
  next
    case False
    with sure s1(2) have "db_net s \<noteq> []" "tabs s1 = tabs s" by auto
    with IH show ?thesis by (auto simp: round_row_def elim!: list_all2_mono)
  qed
  with IH s1 sure show ?case by auto
qed

lemma DueNotifications_due:
  assumes "queue_inv (db_notifications (tabs s)) q" and "DueNotifications now limit s = (Inr due, s')"
  shows "distinct (map nf_ID due) \<and> (\<forall>x \<in> set due. still_due (db_notifications (tabs s)) x \<and>
    (\<exists>n \<in> set (db_notifications (tabs s)). is_due now (tabs s) n \<and> nf_ID x = n_id n))"
proof -
  let ?t = "tabs s" and ?ns = "sort_key n_id (filter (is_due now (tabs s)) (db_notifications (tabs s)))"
  have due: "due = take limit (concat (map (due_notification ?t) ?ns))"
    using assms(2) unfolding DueNotifications_def by (cases rule: query_cases) auto
  have of_row: "x \<in> set (due_notification ?t n) \<Longrightarrow> nf_ID x = n_id n \<and> nf_Attempts x = n_attempts n" for x n
    by (auto simp: due_notification_def scan_notification_def split: option.splits prod.splits)
  have len: "length (due_notification ?t n) \<le> 1" for n by (simp add: due_notification_def split: option.split)
  have "distinct (map nf_ID (concat (map (due_notification ?t) ns)))" if "distinct (map n_id ns)" for ns
    using that
  proof (induction ns)
    case (Cons n ns)
    moreover have "distinct (map nf_ID (due_notification ?t n))" using len [of n] by (cases "due_notification ?t n") auto
    moreover have "nf_ID ` set (due_notification ?t n) \<inter> nf_ID ` (\<Union>m \<in> set ns. set (due_notification ?t m)) = {}"
      using Cons.prems of_row by (auto simp: image_iff)
    ultimately show ?case by (simp add: image_UN)
  qed simp
  moreover have ids: "distinct (map n_id (db_notifications ?t))" using assms(1) by (simp add: queue_inv_def)
  then have "distinct (map n_id ?ns)" by (auto simp: distinct_map inj_on_def)
  ultimately have "distinct (map nf_ID due)" unfolding due by (metis distinct_take take_map)
  moreover have "still_due (db_notifications ?t) x \<and> (\<exists>n \<in> set (db_notifications ?t). is_due now ?t n \<and> nf_ID x = n_id n)" if "x \<in> set due" for x
  proof -
    from that have "x \<in> set (concat (map (due_notification ?t) ?ns))" unfolding due by (rule in_set_takeD)
    then obtain n where n: "n \<in> set (db_notifications ?t)" "is_due now ?t n" "x \<in> set (due_notification ?t n)"
      by auto
    have "still_due (db_notifications ?t) x"
      unfolding still_due_def
    proof (intro ballI impI)
      fix n' assume "n' \<in> set (db_notifications ?t)" "n_id n' = nf_ID x"
      then have "n' = n" using distinct_map_eq [OF ids _ n(1)] of_row [OF n(3)] by simp
      with n(2) of_row [OF n(3)] show "n_attempts n' = nf_Attempts x \<and> n_status n' = NotificationPending \<and>
          \<not> (\<exists>p \<in> set (db_notifications ?t). earlier p n' \<and> n_status p = NotificationPending)"
        unfolding is_due_def by metis
    qed
    with n of_row [OF n(3)] show ?thesis by metis
  qed
  ultimately show ?thesis by blast
qed

definition listed :: "time \<Rightarrow> tables \<Rightarrow> Notification list" where
  "listed now t = take deliverBatch (concat (map (due_notification t) (sort_key n_id (filter (is_due now t) (db_notifications t)))))"

lemma deliverDue_listed:
  assumes "mail_ok s" and s': "s' = deliverDue (delivery_store now sent) dashboard ws s"
  obtains due where "mail_ok s'" "tabs s' = (tabs s)\<lparr>db_notifications := db_notifications (tabs s')\<rparr>"
    "list_all2 (round_row (db_net s = []) sent due) (db_notifications (tabs s)) (db_notifications (tabs s'))"
    "\<And>x n. x \<in> set due \<Longrightarrow> n \<in> set (db_notifications (tabs s)) \<Longrightarrow> n_id n = nf_ID x \<Longrightarrow> is_due now (tabs s) n"
    "db_net s = [] \<Longrightarrow> db_net s' = [] \<and> due = listed now (tabs s)"
proof -
  have inv: "queue_inv (db_notifications (tabs s)) (db_seq s T_notifications)" using assms by (simp add: tab_inv_def mail_inv_def)
  obtain r s1 where q: "DueNotifications now deliverBatch s = (r, s1)" by (cases "DueNotifications now deliverBatch s")
  then have s1: "tabs s1 = tabs s" "db_seq s1 = db_seq s" unfolding DueNotifications_def by (auto elim: query_cases)
  have sure: "s1 = s \<and> r = Inr (listed now (tabs s))" if "db_net s = []"
    using q that by (auto simp: DueNotifications_def query_def dbcall_def listed_def)
  show thesis
  proof (cases r)
    case (Inl e)
    with q have "s' = s1" by (simp add: s' deliverDue_def delivery_store_def)
    with s1 inv sure Inl show thesis by (intro that [of "[]"]) (auto simp: tab_inv_def mail_inv_def round_row_def list_all2_refl)
  next
    case (Inr due)
    then have s'1: "s' = deliver_all (delivery_store now sent) dashboard ws 0 due s1"
      using q by (simp add: s' deliverDue_def delivery_store_def)
    note D = DueNotifications_due [OF inv q [unfolded Inr]]
    have r: "queue_inv (db_notifications (tabs s')) (db_seq s T_notifications) \<and> db_seq s' = db_seq s1 \<and> (db_net s1 = [] \<longrightarrow> db_net s' = []) \<and>
      tabs s' = (tabs s1)\<lparr>db_notifications := db_notifications (tabs s')\<rparr> \<and>
      list_all2 (round_row (db_net s1 = []) sent due) (db_notifications (tabs s1)) (db_notifications (tabs s'))"
      using D inv by (intro deliver_all_round [OF _ _ _ s'1]) (simp_all add: s1)
    show thesis
    proof (rule that [of due])
      show "mail_ok s'" "tabs s' = (tabs s)\<lparr>db_notifications := db_notifications (tabs s')\<rparr>"
        using r s1 by (simp_all add: tab_inv_def mail_inv_def)
      show "list_all2 (round_row (db_net s = []) sent due) (db_notifications (tabs s)) (db_notifications (tabs s'))"
        using r s1 sure by (auto simp: round_row_def elim!: list_all2_mono)
      show "is_due now (tabs s) n" if "x \<in> set due" "n \<in> set (db_notifications (tabs s))" "n_id n = nf_ID x" for n x
      proof -
        from D that(1) obtain m where m: "m \<in> set (db_notifications (tabs s))" "is_due now (tabs s) m" "nf_ID x = n_id m" by blast
        moreover have "n = m" using inv distinct_map_eq [OF _ that(2) m(1), of n_id] that(3) m(3) by (simp add: queue_inv_def)
        ultimately show ?thesis by simp
      qed
      show "db_net s' = [] \<and> due = listed now (tabs s)" if "db_net s = []" using sure [OF that] Inr r that by simp
    qed
  qed
qed

lemma deliverDue_keeps: "mail_ok s \<Longrightarrow> mail_ok (deliverDue (delivery_store now sent) dashboard ws s)"
  by (erule deliverDue_listed [OF _ refl])

section \<open>Everything that happens to the queue\<close>

inductive mail_step :: "db \<Rightarrow> db \<Rightarrow> bool" where
  network: "mail_step s (set_net n s)"
| notice: "mail_step s (snd (queueNotice (notice_store now) n s))"
| deliver: "mail_step s (deliverDue (delivery_store now sent) dashboard ws s)"
| create_channel: "mail_step s (snd (CreateChannel now c who s))"
| update_channel: "mail_step s (snd (UpdateChannel now c who s))"
| delete_channel: "mail_step s (snd (DeleteChannel i s))"
| create_alert: "mail_step s (snd (CreateAlert a s))"
| update_alert: "mail_step s (snd (UpdateAlert i severity v moment s))"
| resolve_alert: "mail_step s (snd (ResolveAlert i v moment s))"
| purge_alerts: "mail_step s (snd (PurgeResolvedAlerts now retention s))"
| add_host: "mail_step s (snd (AddHost name timezone s))"
| remove_host: "mail_step s (snd (RemoveHost name s))"

lemma keeps_snd: "keeps P m \<Longrightarrow> P s \<Longrightarrow> P (snd (m s))"
  by (simp add: keeps_def)

lemma keeps_on_unique: "keeps P m \<Longrightarrow> keeps P (on_unique e m)"
  by (auto simp: keeps_def on_unique_def split: prod.splits sum.splits)

lemma delete_hosts_notifications:
  obtains Q where "db_notifications (delete_hosts P t) = delete_where Q (db_notifications t)"
  by (rule that) (simp add: delete_hosts_def delete_alerts_def Let_def)

lemma keeps_mail_ops:
  "keeps mail_ok (CreateChannel now c who)" "keeps mail_ok (UpdateChannel now c who)" "keeps mail_ok (DeleteChannel i)"
  "keeps mail_ok (CreateAlert a)" "keeps mail_ok (UpdateAlert i severity v moment)" "keeps mail_ok (ResolveAlert i v moment)"
  "keeps mail_ok (PurgeResolvedAlerts now retention)" "keeps mail_ok (AddHost name timezone)" "keeps mail_ok (RemoveHost name)"
proof -
  show "keeps mail_ok (CreateChannel now c who)"
    unfolding CreateChannel_def by (intro keeps_on_unique keeps_insert_into) (auto intro: mail_inv_same)
  show "keeps mail_ok (UpdateChannel now c who)"
    unfolding UpdateChannel_def by (intro keeps_bindE keeps_exec) (auto intro: mail_inv_same)
  show "keeps mail_ok (DeleteChannel i)"
    unfolding DeleteChannel_def by (intro keeps_bindE keeps_exec) (auto intro: mail_inv_delete)
  have "mail_inv (snd (insert_alert r t)) q'" if "mail_inv t q" "q' T_notifications = q T_notifications" for r t q q'
    using that by (auto simp: insert_alert_def intro: mail_inv_same)
  then show "keeps mail_ok (CreateAlert a)"
    unfolding CreateAlert_def hostID_def
    by (intro keeps_bindE keeps_insert_into) (auto intro!: keeps_bindE split: option.split)
  show "keeps mail_ok (UpdateAlert i severity v moment)" "keeps mail_ok (ResolveAlert i v moment)"
    unfolding UpdateAlert_def ResolveAlert_def by (intro keeps_exec, auto intro: mail_inv_same)+
  show "keeps mail_ok (PurgeResolvedAlerts now retention)"
    unfolding PurgeResolvedAlerts_def Let_def by (intro keeps_exec) (auto simp: delete_alerts_def Let_def intro: mail_inv_delete)
  show "keeps mail_ok (AddHost name timezone)"
    unfolding AddHost_def by (intro keeps_bindE keeps_insert_into) (auto intro: mail_inv_same split: option.split)
  have "mail_inv (delete_hosts P t) q" if "mail_inv t q" for P t q
    using that mail_inv_delete by (metis delete_hosts_notifications)
  then show "keeps mail_ok (RemoveHost name)"
    unfolding RemoveHost_def by (intro keeps_bindE keeps_exec) auto
qed

lemma mail_step_inv: "mail_step s s' \<Longrightarrow> mail_ok s \<Longrightarrow> mail_ok s'"
proof (induction rule: mail_step.induct)
  case (network s n)
  then show ?case by (simp add: tab_inv_def)
next
  case (deliver s now sent dashboard ws)
  then show ?case by (rule deliverDue_keeps)
qed (blast intro: keeps_snd keeps_queueNotice keeps_mail_ops)+

lemma mail_reachable_inv: "mail_step\<^sup>*\<^sup>* s s' \<Longrightarrow> mail_ok s \<Longrightarrow> mail_ok s'"
  by (induction rule: rtranclp_induct) (blast intro: mail_step_inv)+

section \<open>Progress\<close>

text \<open>The tries a queue has left.\<close>

definition row_left :: "notification_row \<Rightarrow> nat" where
  "row_left n = (if n_status n = NotificationPending then nat (6 - n_attempts n) else 0)"

definition tries_left :: "notification_row list \<Rightarrow> nat" where
  "tries_left ns = sum_list (map row_left ns)"

definition joined :: "tables \<Rightarrow> bool" where
  "joined t \<longleftrightarrow> (\<forall>n \<in> set (db_notifications t). n_channel_id n \<in> set (map c_id (db_channels t)) \<and> n_alert_id n \<in> set (map a_id (db_alerts t)))"

lemma sum_list_less:
  assumes "list_all2 (\<lambda>x y. f y \<le> (f x :: nat)) xs ys" and "i < length xs" and "f (ys ! i) < f (xs ! i)"
  shows "sum_list (map f ys) < sum_list (map f xs)"
  using assms
proof (induction arbitrary: i rule: list_all2_induct)
  case (Cons x xs y ys)
  have le: "sum_list (map f ys) \<le> sum_list (map f xs)"
    using Cons.hyps(2) by (induction rule: list_all2_induct) auto
  show ?case
  proof (cases i)
    case 0
    with Cons.prems le show ?thesis by simp
  next
    case (Suc j)
    with Cons.prems Cons.IH [of j] Cons.hyps(1) show ?thesis by simp
  qed
qed simp

lemma round_row_sure:
  assumes "round_row True sent due n n'" and "row_ok n" and "\<And>x. x \<in> set due \<Longrightarrow> n_id n = nf_ID x \<Longrightarrow> is_due now t n"
  shows "n' = n \<and> n_id n \<notin> nf_ID ` set due \<or> attempted n n' \<and> row_left n' < row_left n"
proof -
  from assms(1) consider "n' = n \<and> n_id n \<notin> nf_ID ` set due"
    | x f where "x \<in> set due" "n_id n = nf_ID x" "n_attempts n = nf_Attempts x" "f \<in> marks sent x" "n' = f n"
    unfolding round_row_def by blast
  then show ?thesis
  proof cases
    case 2
    have att: "attempted n n'" using marks_attempted [OF 2(4,3)] 2(5) by simp
    moreover have "n_status n = NotificationPending" using assms(3) [OF 2(1,2)] by (simp add: is_due_def)
    ultimately show ?thesis using assms(2) by (auto simp: row_left_def row_ok_def attempted_def)
  qed simp
qed

lemma joined_round:
  assumes "joined t" and "t' = t\<lparr>db_notifications := ns'\<rparr>" and "list_all2 (\<lambda>n n'. n' = n \<or> attempted n n') (db_notifications t) ns'"
  shows "joined t'"
  unfolding joined_def
proof
  fix n' assume "n' \<in> set (db_notifications t')"
  then have "n' \<in> set ns'" using assms(2) by simp
  then obtain i where i: "i < length ns'" "n' = ns' ! i" by (metis in_set_conv_nth)
  with assms(3) have "n' = db_notifications t ! i \<or> attempted (db_notifications t ! i) n'" "db_notifications t ! i \<in> set (db_notifications t)"
    by (auto simp: list_all2_conv_all_nth)
  with assms(1,2) show "n_channel_id n' \<in> set (map c_id (db_channels t')) \<and> n_alert_id n' \<in> set (map a_id (db_alerts t'))"
    by (auto simp: joined_def attempted_def)
qed

lemma listed_nonempty:
  assumes "n \<in> set (db_notifications t)" and "is_due now t n" and "joined t"
  shows "listed now t \<noteq> []"
proof -
  have "n_channel_id n \<in> c_id ` set (db_channels t)" "n_alert_id n \<in> a_id ` set (db_alerts t)"
    using assms(1,3) by (simp_all add: joined_def)
  then obtain c a where "c \<in> set (db_channels t)" "c_id c = n_channel_id n" "a \<in> set (db_alerts t)" "a_id a = n_alert_id n"
    by (metis imageE)
  then have "find (\<lambda>c. c_id c = n_channel_id n) (db_channels t) \<noteq> None" "find (\<lambda>a. a_id a = n_alert_id n) (db_alerts t) \<noteq> None"
    by (auto simp: find_None_iff)
  then have "due_notification t n \<noteq> []" by (auto simp: due_notification_def scan_notification_def)
  with assms(1,2) show ?thesis by (auto simp: listed_def deliverBatch_def)
qed

lemma listed_row:
  assumes "x \<in> set (listed now t)"
  obtains n where "n \<in> set (db_notifications t)" "is_due now t n" "nf_ID x = n_id n"
proof -
  from assms have "x \<in> set (concat (map (due_notification t) (sort_key n_id (filter (is_due now t) (db_notifications t)))))"
    unfolding listed_def by (rule in_set_takeD)
  then obtain n where "n \<in> set (db_notifications t)" "is_due now t n" "x \<in> set (due_notification t n)" by auto
  with that show thesis by (auto simp: due_notification_def scan_notification_def split: option.splits)
qed

section \<open>Properties\<close>

text \<open>An example: one alert, one webhook channel that does not answer, and two notices.\<close>

definition example_mail_db :: db where
  "example_mail_db = \<lparr>db_net = [], db_seq = (\<lambda>_. 5), tabs = no_rows\<lparr>
     db_alerts := [\<lparr>a_id = 1, a_host_id = None, a_rule = ''shop'', a_metric = ENDPOINT, a_target = ''https://shop'', a_severity = 2, a_value = None,
       a_started_at = 0, a_updated_at = 0, a_resolved_at = None\<rparr>],
     db_channels := [\<lparr>c_id = 3, c_name = ''hook'', c_kind = Webhook, c_settings = JObj [(''url'', JStr ''https://hook'')], c_is_default = True,
       c_skip_warnings = False, c_enabled = True, c_updated_at = 0, c_updated_by = []\<rparr>]\<rparr>\<rparr>"

definition example_notice :: "string \<Rightarrow> int \<Rightarrow> notice" where
  "example_notice event severity = \<lparr>no_alertID = 1, no_rule = zero_rule, no_host = [], no_target = [], no_event = event, no_severity = severity,
     no_value = Fin 1, no_subject = ''shop'', no_body = [], no_at = 0\<rparr>"

definition example_world :: "nat \<Rightarrow> world" where
  "example_world i = \<lparr>wo_address = (\<lambda>_. Inr ()), wo_url = (\<lambda>_. Some (''https'', ''hook'')),
     wo_network = \<lparr>nw_http = (\<lambda>_ _ _. Inl (err_text ''refused'')), nw_canonical = (\<lambda>s. s), nw_slack_reply = (\<lambda>_. None),
       nw_smtp = (\<lambda>_ _. Inr ()), nw_nanos = 0\<rparr>,
     wo_escape = (\<lambda>s. s), wo_Error = (\<lambda>_. ''refused''), wo_now = 0, wo_after = Second\<rparr>"

definition example_queued :: db where
  "example_queued = snd (queueNotice (notice_store 0) (example_notice Changed_event 2)
     (snd (queueNotice (notice_store 0) (example_notice Opened_event 1) example_mail_db)))"

definition example_tried :: db where
  "example_tried = deliverDue (delivery_store 0 (\<lambda>_. 0)) [] example_world example_queued"

lemma example_mail_run: "mail_step\<^sup>*\<^sup>* example_mail_db example_queued" "mail_step\<^sup>*\<^sup>* example_mail_db example_tried"
proof -
  have "mail_step example_mail_db (snd (queueNotice (notice_store 0) (example_notice Opened_event 1) example_mail_db))"
    by (rule mail_step.notice)
  then show "mail_step\<^sup>*\<^sup>* example_mail_db example_queued"
    unfolding example_queued_def by (meson mail_step.notice r_into_rtranclp rtranclp.rtrancl_into_rtrancl)
  then show "mail_step\<^sup>*\<^sup>* example_mail_db example_tried"
    unfolding example_tried_def by (meson mail_step.deliver rtranclp.rtrancl_into_rtrancl)
qed

lemma example_mail_empty: "db_notifications (tabs example_mail_db) = []"
  by (simp add: example_mail_db_def no_rows_def)

lemma example_mail_rows:
  "map (\<lambda>n. (n_id n, n_status n, n_attempts n, n_next_attempt_at n)) (db_notifications (tabs example_tried)) =
     [(6, NotificationPending, 1, 31 * Second), (7, NotificationPending, 0, 0)]"
  by code_simp

lemma example_mail_ok: "mail_ok example_queued"
proof -
  have "mail_ok example_mail_db" by (simp add: tab_inv_def mail_inv_def queue_inv_def in_order_def example_mail_empty)
  then show ?thesis by (rule mail_reachable_inv [OF example_mail_run(1)])
qed


text \<open>C3. The messages about one alert reach a channel in order. Whatever happened since the queue was empty (failed
  deliveries and database calls included), as long as a notification is still to be sent, no later one about the
  same alert for the same channel has been tried.\<close>

theorem notifications_in_order:
  assumes "mail_step\<^sup>*\<^sup>* s s'" and "db_notifications (tabs s) = []"
    and "p \<in> set (db_notifications (tabs s'))" and "n \<in> set (db_notifications (tabs s'))"
    and "n_alert_id p = n_alert_id n" and "n_channel_id p = n_channel_id n" and "n_id p < n_id n" and "n_status p = NotificationPending"
  shows "n_status n = NotificationPending \<and> n_attempts n = 0"
proof -
  have "mail_ok s" using assms(2) by (simp add: tab_inv_def mail_inv_def queue_inv_def in_order_def)
  then have "in_order (db_notifications (tabs s'))" using mail_reachable_inv [OF assms(1)] by (simp add: tab_inv_def mail_inv_def queue_inv_def)
  with assms show ?thesis by (intro in_orderD) (simp_all add: earlier_def)
qed

theorem notifications_in_order_witness:
  "n_status (db_notifications (tabs example_tried) ! 1) = NotificationPending \<and> n_attempts (db_notifications (tabs example_tried) ! 1) = 0"
proof -
  have len: "length (db_notifications (tabs example_tried)) = 2" using arg_cong [OF example_mail_rows, of length] by simp
  show ?thesis
    by (rule notifications_in_order [OF example_mail_run(2) example_mail_empty, of "db_notifications (tabs example_tried) ! 0"])
      (simp_all add: len, code_simp+)
qed

text \<open>A notification is tried at most six times: one first try and one after each of the five waits. One that is still to
  be sent has been tried at most five times.\<close>

theorem notification_attempts:
  assumes "mail_step\<^sup>*\<^sup>* s s'" and "db_notifications (tabs s) = []" and "n \<in> set (db_notifications (tabs s'))"
  shows "0 \<le> n_attempts n \<and> n_attempts n \<le> int (length retryWaits) + 1 \<and>
    (n_status n = NotificationPending \<longrightarrow> n_attempts n \<le> int (length retryWaits))"
proof -
  have "mail_ok s" using assms(2) by (simp add: tab_inv_def mail_inv_def queue_inv_def in_order_def)
  then have "row_ok n" using mail_reachable_inv [OF assms(1)] assms(3) by (simp add: tab_inv_def mail_inv_def queue_inv_def)
  then show ?thesis by (auto simp: row_ok_def retryWaits_def split: if_splits)
qed

theorem notification_attempts_witness:
  "n_attempts (hd (db_notifications (tabs example_tried))) \<le> 5 \<and> n_status (hd (db_notifications (tabs example_tried))) = NotificationPending"
proof -
  have "hd (db_notifications (tabs example_tried)) \<in> set (db_notifications (tabs example_tried))"
    using arg_cong [OF example_mail_rows, of length] by (intro hd_in_set) auto
  from notification_attempts [OF example_mail_run(2) example_mail_empty this]
  have "n_status (hd (db_notifications (tabs example_tried))) = NotificationPending \<Longrightarrow> n_attempts (hd (db_notifications (tabs example_tried))) \<le> 5"
    by (simp add: retryWaits_def)
  moreover have "n_status (hd (db_notifications (tabs example_tried))) = NotificationPending" by code_simp
  ultimately show ?thesis by simp
qed

text \<open>A delivery round only touches notifications that were due when it began, each at most once: the number of tries
  goes up by one and it is now sent, given up on, or due again after the wait that belongs to the number of tries. It
  adds and removes none.\<close>

theorem deliverDue_effect:
  assumes "mail_ok s"
  shows "list_all2 (\<lambda>n n'. n' = n \<or> is_due now (tabs s) n \<and> n_id n' = n_id n \<and> n_alert_id n' = n_alert_id n \<and> n_channel_id n' = n_channel_id n \<and>
      n_attempts n' = n_attempts n + 1 \<and>
      (n_status n' = NotificationSent \<or> n_status n' = NotificationFailed \<or>
       n_status n' = NotificationPending \<and> n_attempts n < int (length retryWaits) \<and>
         (\<exists>later. n_next_attempt_at n' = timestamptz (later + retryWaits ! nat (n_attempts n)))))
    (db_notifications (tabs s)) (db_notifications (tabs (deliverDue (delivery_store now sent) dashboard ws s)))"
proof -
  obtain due where all: "list_all2 (round_row (db_net s = []) sent due) (db_notifications (tabs s))
      (db_notifications (tabs (deliverDue (delivery_store now sent) dashboard ws s)))"
    and due: "\<And>x n. x \<in> set due \<Longrightarrow> n \<in> set (db_notifications (tabs s)) \<Longrightarrow> n_id n = nf_ID x \<Longrightarrow> is_due now (tabs s) n"
    using assms by (rule deliverDue_listed [OF _ refl]) blast
  show ?thesis
  proof (rule list_all2_all_nthI)
    show "length (db_notifications (tabs s)) = length (db_notifications (tabs (deliverDue (delivery_store now sent) dashboard ws s)))"
      using all by (rule list_all2_lengthD)
  next
    fix i assume i: "i < length (db_notifications (tabs s))"
    let ?n = "db_notifications (tabs s) ! i" and ?n' = "db_notifications (tabs (deliverDue (delivery_store now sent) dashboard ws s)) ! i"
    from all i have "round_row (db_net s = []) sent due ?n ?n'" by (rule list_all2_nthD)
    then consider "?n' = ?n" | x f where "x \<in> set due" "n_id ?n = nf_ID x" "n_attempts ?n = nf_Attempts x" "f \<in> marks sent x" "?n' = f ?n"
      unfolding round_row_def by blast
    then show "?n' = ?n \<or> is_due now (tabs s) ?n \<and> n_id ?n' = n_id ?n \<and> n_alert_id ?n' = n_alert_id ?n \<and> n_channel_id ?n' = n_channel_id ?n \<and>
      n_attempts ?n' = n_attempts ?n + 1 \<and>
      (n_status ?n' = NotificationSent \<or> n_status ?n' = NotificationFailed \<or>
       n_status ?n' = NotificationPending \<and> n_attempts ?n < int (length retryWaits) \<and>
         (\<exists>later. n_next_attempt_at ?n' = timestamptz (later + retryWaits ! nat (n_attempts ?n))))"
    proof cases
      case 2
      from due [OF 2(1) nth_mem [OF i] 2(2)] have "is_due now (tabs s) ?n" .
      moreover from this have "n_status ?n = NotificationPending" by (simp add: is_due_def)
      moreover have "attempted ?n ?n'" using marks_attempted [OF 2(4,3)] 2(5) by simp
      moreover have "n_status ?n' = NotificationSent \<or> n_status ?n' = NotificationFailed \<or> n_status ?n' = n_status ?n \<and>
          n_attempts ?n < 5 \<and> (\<exists>later. n_next_attempt_at ?n' = timestamptz (later + retryWaits ! nat (n_attempts ?n)))"
        using 2(4) unfolding 2(5) by (auto simp: marks_def 2(3) dest!: retryAfter_Some)
      ultimately show ?thesis by (auto simp: attempted_def retryWaits_def)
    qed simp
  qed
qed

theorem deliverDue_effect_witness:
  "is_due 0 (tabs example_queued) (db_notifications (tabs example_queued) ! 0) \<and>
   n_attempts (db_notifications (tabs example_tried) ! 0) = n_attempts (db_notifications (tabs example_queued) ! 0) + 1"
proof -
  have ne: "db_notifications (tabs example_tried) ! 0 \<noteq> db_notifications (tabs example_queued) ! 0"
    "0 < length (db_notifications (tabs example_queued))" by code_simp+
  from list_all2_nthD [OF deliverDue_effect [OF example_mail_ok, of 0 "\<lambda>_. 0" "[]" example_world, folded example_tried_def] ne(2)] ne(1)
  show ?thesis by blast
qed

text \<open>C26. Delivery does not get stuck: when the database answers, a round in which something is due leaves the queue with fewer
  tries to go, whatever the channels answer, so that after finitely many rounds without new notifications everything
  is sent or given up on.\<close>

theorem deliverDue_progress:
  assumes "mail_ok s" and "joined (tabs s)" and "db_net s = []" and "n \<in> set (db_notifications (tabs s))" and "is_due now (tabs s) n"
  shows "tries_left (db_notifications (tabs (deliverDue (delivery_store now sent) dashboard ws s))) < tries_left (db_notifications (tabs s)) \<and>
    joined (tabs (deliverDue (delivery_store now sent) dashboard ws s)) \<and> db_net (deliverDue (delivery_store now sent) dashboard ws s) = []"
proof -
  define s' where "s' = deliverDue (delivery_store now sent) dashboard ws s"
  let ?ns = "db_notifications (tabs s)" and ?ns' = "db_notifications (tabs s')"
  obtain due where tabs: "tabs s' = (tabs s)\<lparr>db_notifications := ?ns'\<rparr>"
    and all: "list_all2 (round_row (db_net s = []) sent due) ?ns ?ns'"
    and due: "\<And>x n. x \<in> set due \<Longrightarrow> n \<in> set ?ns \<Longrightarrow> n_id n = nf_ID x \<Longrightarrow> is_due now (tabs s) n"
    and net: "db_net s' = []" "due = listed now (tabs s)"
    using deliverDue_listed [OF assms(1) s'_def] assms(3) by metis
  have row: "?ns' ! i = ?ns ! i \<and> n_id (?ns ! i) \<notin> nf_ID ` set due \<or> attempted (?ns ! i) (?ns' ! i) \<and> row_left (?ns' ! i) < row_left (?ns ! i)"
    if "i < length ?ns" for i
    using that assms(1) due [OF _ nth_mem [OF that]] list_all2_nthD [OF all that] assms(3)
    by (intro round_row_sure [of sent _ _ _ now "tabs s"]) (simp_all add: tab_inv_def mail_inv_def queue_inv_def)
  have len: "length ?ns = length ?ns'" using all by (rule list_all2_lengthD)
  have fewer: "list_all2 (\<lambda>m m'. row_left m' \<le> row_left m) ?ns ?ns'"
  proof (rule list_all2_all_nthI [OF len])
    fix i assume "i < length ?ns"
    from row [OF this] show "row_left (?ns' ! i) \<le> row_left (?ns ! i)" by auto
  qed
  have "list_all2 (\<lambda>m m'. m' = m \<or> attempted m m') ?ns ?ns'"
    using row by (intro list_all2_all_nthI [OF len]) blast
  with assms(2) tabs have "joined (tabs s')" by (rule joined_round)
  moreover obtain x where x: "x \<in> set due" using hd_in_set [OF listed_nonempty [OF assms(4,5,2)]] net(2) by blast
  obtain m where m: "m \<in> set ?ns" "nf_ID x = n_id m" using listed_row [OF x [unfolded net(2)]] by blast
  then obtain i where i: "i < length ?ns" "?ns ! i = m" by (metis in_set_conv_nth)
  have "n_id (?ns ! i) \<in> nf_ID ` set due" using m(2) i(2) x by (metis imageI)
  with row [OF i(1)] have "row_left (?ns' ! i) < row_left (?ns ! i)" by blast
  from sum_list_less [OF fewer i(1) this] have "tries_left ?ns' < tries_left ?ns" by (simp add: tries_left_def)
  ultimately show ?thesis using net(1) by (simp add: s'_def)
qed

theorem deliverDue_progress_witness:
  "tries_left (db_notifications (tabs example_tried)) < tries_left (db_notifications (tabs example_queued))"
proof -
  have "joined (tabs example_queued)" "db_net example_queued = []" "is_due 0 (tabs example_queued) (db_notifications (tabs example_queued) ! 0)"
    "0 < length (db_notifications (tabs example_queued))" by code_simp+
  then show ?thesis
    using deliverDue_progress [OF example_mail_ok, of "db_notifications (tabs example_queued) ! 0" 0 "\<lambda>_. 0" "[]" example_world]
    by (simp add: example_tried_def)
qed

text \<open>Who hears about an event, as a condition on one channel.\<close>

definition hears :: "AlertConfig \<Rightarrow> string \<Rightarrow> int \<Rightarrow> int set \<Rightarrow> Channel \<Rightarrow> bool" where
  "hears rule event severity told c \<longleftrightarrow> ch_Enabled c \<and>
     (if event = Resolved_event then ch_ID c \<in> told else ruleWants rule c \<and> \<not> (ch_SkipWarnings c \<and> severity < SeverityCritical))"

lemma pickChannels_filter: "pickChannels rule channels event severity told = map ch_ID (filter (hears rule event severity told) channels)"
  by (induction channels) (auto simp: Let_def hears_def)

lemma channel_with_last_simps [simp]:
  "ch_ID (channel_with_last t c) = c_id c" "hears rule event severity told (channel_with_last t c) = hears rule event severity told (channel_of_row c)"
  by (cases "last_notification t (c_id c)"; simp add: channel_with_last_def channel_of_row_def hears_def ruleWants_def)+

lemma number_rows_channels: "map n_channel_id (number_rows (new_notification now n) i ids) = ids"
  by (induction ids arbitrary: i) (simp_all add: new_notification_def)

lemma QueueNotifications_ok:
  assumes "QueueNotifications now n ids s = (Inr (), s')"
  shows "\<exists>i. tabs s' = (tabs s)\<lparr>db_notifications := db_notifications (tabs s) @ number_rows (new_notification now n) i ids\<rparr>"
proof (cases "ids = []")
  case False
  then have "dbcall (queue_batch now n ids) s = (Inr (), s')" using assms by (simp add: QueueNotifications_def)
  then show ?thesis by (cases rule: dbcall_cases) (auto simp: queue_batch_def Let_def split: if_splits)
qed (use assms in \<open>auto simp: QueueNotifications_def\<close>)

lemma query_Inr:
  assumes "query f s = (Inr a, s')"
  shows "a = f (tabs s)" and "tabs s' = tabs s"
  using assms by (auto elim: query_cases)

lemma NotifiedChannels_Inr:
  assumes "NotifiedChannels i s = (Inr told, s')"
  shows "x \<in> set told \<longleftrightarrow> (\<exists>m \<in> set (db_notifications (tabs s)). n_alert_id m = i \<and> n_channel_id m = x)" and "tabs s' = tabs s"
  using query_Inr [OF assms [unfolded NotifiedChannels_def]] by auto

text \<open>Who hears about an alert: when \<open>queueNotice\<close> succeeds it has added one pending notification for every enabled channel
  that should get the event and touched nothing else. A resolution goes to the channels that have a notification about
  this alert; anything else to those the rule wants, warnings apart for channels that skip them.\<close>

theorem queueNotice_contract:
  assumes "queueNotice (notice_store now) n s = (Inr (), s')" and "distinct (map c_id (db_channels (tabs s)))"
  shows "\<exists>new. tabs s' = (tabs s)\<lparr>db_notifications := db_notifications (tabs s) @ new\<rparr> \<and>
    distinct (map n_channel_id new) \<and>
    (\<forall>r \<in> set new. n_status r = NotificationPending \<and> n_attempts r = 0 \<and> n_alert_id r = no_alertID n \<and> n_event r = no_event n) \<and>
    n_channel_id ` set new = {c_id c | c. c \<in> set (db_channels (tabs s)) \<and> c_enabled c \<and>
      (if no_event n = Resolved_event then \<exists>m \<in> set (db_notifications (tabs s)). n_alert_id m = no_alertID n \<and> n_channel_id m = c_id c
       else ruleWants (no_rule n) (channel_of_row c) \<and> \<not> (c_skip_warnings c \<and> no_severity n < SeverityCritical))}"
proof -
  let ?t = "tabs s"
  from assms(1) obtain channels told s1 s2 where ch: "Channels s = (Inr channels, s1)"
    and told: "(if no_event n = Resolved_event then NotifiedChannels (no_alertID n) else ret []) s1 = (Inr told, s2)"
    and q: "QueueNotifications now (notification_of n) (pickChannels (no_rule n) channels (no_event n) (no_severity n) (set told)) s2 = (Inr (), s')"
    unfolding queueNotice_def notice_store_def noticeStore.simps by (elim bindE_InrE)
  have channels: "channels = map (channel_with_last ?t) (sort_key c_name (db_channels ?t))" and s1: "tabs s1 = ?t"
    using query_Inr [OF ch [unfolded Channels_def]] by simp_all
  have s2: "tabs s2 = ?t" and told_set: "no_event n = Resolved_event \<Longrightarrow>
      x \<in> set told \<longleftrightarrow> (\<exists>m \<in> set (db_notifications ?t). n_alert_id m = no_alertID n \<and> n_channel_id m = x)" for x
    using told s1 by (auto simp: NotifiedChannels_Inr split: if_splits)
  let ?hears = "\<lambda>c. hears (no_rule n) (no_event n) (no_severity n) (set told) (channel_of_row c)"
  let ?ids = "map c_id (filter ?hears (sort_key c_name (db_channels ?t)))"
  have picked: "pickChannels (no_rule n) channels (no_event n) (no_severity n) (set told) = ?ids"
    unfolding pickChannels_filter channels by (simp add: filter_map comp_def)
  from QueueNotifications_ok [OF q [unfolded picked]] obtain i where
    tabs: "tabs s' = ?t\<lparr>db_notifications := db_notifications ?t @ number_rows (new_notification now (notification_of n)) i ?ids\<rparr>"
    unfolding s2 by blast
  let ?new = "number_rows (new_notification now (notification_of n)) i ?ids"
  have chans: "map n_channel_id ?new = ?ids" by (rule number_rows_channels)
  have "distinct ?ids" using assms(2) by (intro distinct_map_filter) (auto simp: distinct_map)
  moreover have "\<forall>r \<in> set ?new. n_status r = NotificationPending \<and> n_attempts r = 0 \<and> n_alert_id r = no_alertID n \<and> n_event r = no_event n"
  proof
    fix r assume "r \<in> set ?new"
    then show "n_status r = NotificationPending \<and> n_attempts r = 0 \<and> n_alert_id r = no_alertID n \<and> n_event r = no_event n"
      by (rule number_rows_set) (simp add: new_notification_def notification_of_def)
  qed
  moreover have "n_channel_id ` set ?new = {c_id c | c. c \<in> set (db_channels ?t) \<and> ?hears c}"
    unfolding list.set_map [symmetric] chans by auto
  moreover have "?hears c \<longleftrightarrow> c_enabled c \<and>
      (if no_event n = Resolved_event then \<exists>m \<in> set (db_notifications ?t). n_alert_id m = no_alertID n \<and> n_channel_id m = c_id c
       else ruleWants (no_rule n) (channel_of_row c) \<and> \<not> (c_skip_warnings c \<and> no_severity n < SeverityCritical))" for c
    by (simp add: hears_def channel_of_row_def told_set)
  ultimately show ?thesis using tabs chans by (intro exI [of _ ?new]) (simp only: simp_thms)
qed

theorem queueNotice_contract_witness:
  "\<exists>new. db_notifications (tabs (snd (queueNotice (notice_store 0) (example_notice Resolved_event 0) example_tried))) =
     db_notifications (tabs example_tried) @ new \<and> n_channel_id ` set new = {3}"
proof -
  have "fst (queueNotice (notice_store 0) (example_notice Resolved_event 0) example_tried) = Inr ()" "distinct (map c_id (db_channels (tabs example_tried)))"
    by code_simp+
  then obtain new where "tabs (snd (queueNotice (notice_store 0) (example_notice Resolved_event 0) example_tried)) =
      (tabs example_tried)\<lparr>db_notifications := db_notifications (tabs example_tried) @ new\<rparr>"
    and new: "n_channel_id ` set new = {c_id c | c. c \<in> set (db_channels (tabs example_tried)) \<and> c_enabled c \<and>
      (\<exists>m \<in> set (db_notifications (tabs example_tried)). n_alert_id m = 1 \<and> n_channel_id m = c_id c)}"
    using queueNotice_contract [of 0 "example_notice Resolved_event 0" example_tried] by (auto simp: example_notice_def prod_eq_iff)
  moreover have "map (\<lambda>c. (c_id c, c_enabled c)) (db_channels (tabs example_tried)) = [(3, True)]"
    "map (\<lambda>n. (n_alert_id n, n_channel_id n)) (db_notifications (tabs example_tried)) = [(1, 3), (1, 3)]" by code_simp+
  then have "n_channel_id ` set new = {3}" unfolding new by auto
  ultimately show ?thesis by simp
qed

end
