(* ===== verification/Api.thy ===== *)
theory Api
  imports TaskRuns
begin

text \<open>
  The collector's gRPC service for agents and the rules that guard it: internal/api/auth.go, the agent
  calls of internal/api/api.go and internal/api/tasks.go, and the shared key check of
  internal/transport. A call carries metadata and an authenticated host (\<open>agentHost(ctx)\<close>); requests and
  answers are the fields the handlers read and write. jwt verification is an argument.
\<close>

section \<open>Statuses\<close>

definition errNoData :: error where
  "errNoData = ErrStatus NotFound (err_text ''no data found'')"

definition ErrCanceled :: error where "ErrCanceled = ErrDB ''context canceled''"
definition ErrDeadline :: error where "ErrDeadline = ErrDB ''context deadline exceeded''"

definition toStatus :: "error \<Rightarrow> error" where
  "toStatus err =
     (if errors_Is err ErrNotFound then errNoData
      else if errors_Is err ErrHostExists \<or> errors_Is err ErrRuleExists \<or> errors_Is err ErrTaskBusy \<or> errors_Is err ErrChannelExists
        then ErrStatus AlreadyExists err
      else if errors_Is err ErrInvalid then ErrStatus InvalidArgument err
      else if errors_Is err ErrClusterTaken then ErrStatus FailedPrecondition err
      else if errors_Is err ErrBadLogin \<or> errors_Is err ErrBadSession then ErrStatus Unauthenticated err
      else if errors_Is err ErrCanceled then ErrStatus Canceled (err_text ''canceled'')
      else if errors_Is err ErrDeadline then ErrStatus DeadlineExceeded (err_text ''timed out'')
      else ErrStatus Internal (err_text ''internal error''))"

definition agentStatus :: "string \<Rightarrow> error \<Rightarrow> error" where
  "agentStatus host err =
     (if errors_Is err ErrNotFound
      then ErrStatus NotFound (ErrText ''agent %s is not registered, run the agent with -init'' [host]) else toStatus err)"

text \<open>\<open>status.Code\<close> of a result.\<close>

fun status_Code :: "'a result \<Rightarrow> grpc_code" where
  "status_Code (Inr _) = OK"
| "status_Code (Inl (ErrStatus c _)) = c"
| "status_Code (Inl _) = Unknown"

text \<open>A store call of a handler, with its error turned into a status.\<close>

definition map_err :: "(error \<Rightarrow> error) \<Rightarrow> ('a, 's) act \<Rightarrow> ('a, 's) act" where
  "map_err f m s = (case m s of (Inl e, s') \<Rightarrow> (Inl (f e), s') | (Inr a, s') \<Rightarrow> (Inr a, s'))"

section \<open>Who may call what\<close>

text \<open>The methods of the service that matter for the guard: enrolling, the calls of an agent, and all others by name.\<close>

datatype method_name = M_Enroll | M_HandlePing | M_HandleMonitorData | M_HandleCustomMonitorData | M_NextTask | M_ReportTask |
  M_ReportCluster | M_Other string

definition agentMethods :: "method_name \<Rightarrow> bool" where
  "agentMethods m \<longleftrightarrow> m \<in> {M_HandlePing, M_HandleMonitorData, M_HandleCustomMonitorData, M_NextTask, M_ReportTask, M_ReportCluster}"

text \<open>The metadata of a call, None when there is none: the values under agent-key and under jwt.\<close>

record metadata =
  md_agent_key :: "string list"
  md_jwt :: "string list"

text \<open>\<open>transport.AuthInterceptor\<close>; \<open>valid\<close> is \<open>auth.ValidToken\<close>.\<close>

definition transport_AuthInterceptor :: "(string \<Rightarrow> bool) \<Rightarrow> metadata option \<Rightarrow> ('a, 's) act \<Rightarrow> ('a, 's) act" where
  "transport_AuthInterceptor valid meta handler = (case meta of
     None \<Rightarrow> fail (ErrStatus Unauthenticated (err_text ''INTERNAL_SERVER_ERROR''))
   | Some md \<Rightarrow> (case md_jwt md of
       [token] \<Rightarrow> if \<not> valid token then fail (ErrStatus PermissionDenied (err_text ''invalid auth token'')) else handler
     | _ \<Rightarrow> fail (ErrStatus Unauthenticated (err_text ''token empty''))))"

text \<open>\<open>lookup\<close> is the store's \<open>HostForCredential\<close>. A handler gets the host an agent key stands for, if the call had one.\<close>

definition AuthInterceptor ::
  "(string \<Rightarrow> bool) \<Rightarrow> (string \<Rightarrow> (string, 's) act) \<Rightarrow> metadata option \<Rightarrow> method_name \<Rightarrow> (string option \<Rightarrow> ('a, 's) act) \<Rightarrow> ('a, 's) act" where
  "AuthInterceptor valid lookup meta m handler =
     (if m = M_Enroll then handler None
      else case (case meta of None \<Rightarrow> [] | Some md \<Rightarrow> md_agent_key md) of
        [] \<Rightarrow> transport_AuthInterceptor valid meta (handler None)
      | key # others \<Rightarrow>
          if others \<noteq> [] \<or> \<not> agentMethods m then fail (ErrStatus PermissionDenied (err_text ''agents may only send data''))
          else (\<lambda>s. case lookup key s of
             (Inl err, s') \<Rightarrow>
               (Inl (if errors_Is err ErrNotFound then ErrStatus Unauthenticated (err_text ''unknown agent key, enroll this host again'')
                     else toStatus err), s')
           | (Inr host, s') \<Rightarrow> handler (Some host) s'))"

text \<open>The host a call is about: the authenticated one, whatever the payload says.\<close>

definition call_host :: "string option \<Rightarrow> string \<Rightarrow> string" where
  "call_host authenticated name = (case authenticated of None \<Rightarrow> name | Some host \<Rightarrow> host)"

section \<open>Registering and pings\<close>

definition validHostName :: "string \<Rightarrow> bool" where
  "validHostName name = (case name of [] \<Rightarrow> False
     | c # cs \<Rightarrow> letter_digit c \<and> length cs \<le> 62 \<and> list_all (\<lambda>c. letter_digit c \<or> c \<in> set ''._-'') cs)"

definition api_Enroll :: "hash \<Rightarrow> string result \<Rightarrow> time \<Rightarrow> string \<Rightarrow> string \<Rightarrow> string \<Rightarrow> (string \<times> string, db) act" where
  "api_Enroll hash secret now token hostName timezone =
     (if \<not> validHostName hostName
      then fail (ErrStatus InvalidArgument (err_text ''host names may use letters, digits, dots, dashes and underscores, up to 63 characters''))
      else bindE (map_err (\<lambda>e. if errors_Is e ErrBadToken then ErrStatus PermissionDenied e else toStatus e)
             (Enroll hash secret now token hostName timezone)) (\<lambda>key. ret (hostName, key)))"

definition InitAgent :: "string \<Rightarrow> string \<Rightarrow> (string, db) act" where
  "InitAgent name timezone = bindE (map_err toStatus (AddHost name timezone)) (\<lambda>_. ret ''agent added'')"

definition unix_time :: "time \<Rightarrow> int" where
  "unix_time t = (if t = zero_time then 0 else time_toUnix t)"

definition UpWindow :: duration where
  "UpWindow = 61 * Second"

definition isUp :: "time \<Rightarrow> time \<Rightarrow> bool" where
  "isUp lastSeen now \<longleftrightarrow> lastSeen \<noteq> zero_time \<and> time_sub now lastSeen \<le> UpWindow"

text \<open>\<open>saveTasks\<close>: the timeout arrives as an int32. Errors are logged; nothing comes back.\<close>

definition saveTasks :: "string \<Rightarrow> Task list \<Rightarrow> (unit, db) act" where
  "saveTasks host sent s =
     (let list = (case Validate_tasks sent of (Inl _, _) \<Rightarrow> [] | (Inr _, l) \<Rightarrow> l)
      in (Inr (), snd (SaveHostTasks host list s)))"

record ServerInfo =
  si_ServerName :: string
  si_AgentVersion :: string
  si_Arch :: string
  si_UpdateError :: string
  si_Tasks :: "Task list"

text \<open>The update the agent is told about, with its time in seconds.\<close>

definition HandlePing :: "time \<Rightarrow> string option \<Rightarrow> ServerInfo \<Rightarrow> ((string \<times> string \<times> int) option, db) act" where
  "HandlePing now authenticated info =
     (let host = call_host authenticated (si_ServerName info) in
      bindE (map_err (agentStatus host) (AgentCheckIn host now (si_AgentVersion info) (si_Arch info) (si_UpdateError info))) (\<lambda>update.
      bindE (saveTasks host (si_Tasks info)) (\<lambda>_.
      ret (map_option (\<lambda>u. (au_Version u, au_URL u, unix_time (au_RequestedAt u))) update))))"

definition api_RequestAgentUpdate :: "time \<Rightarrow> string list \<Rightarrow> string \<Rightarrow> string \<Rightarrow> (int, db) act" where
  "api_RequestAgentUpdate now hosts version url =
     (if version = [] \<or> \<not> HasPrefix url ''http://'' \<and> \<not> HasPrefix url ''https://''
      then fail (ErrStatus InvalidArgument (err_text ''an update needs a version and the dashboard's address''))
      else map_err toStatus (RequestAgentUpdate now hosts version url))"

section \<open>Waking waiting agents\<close>

text \<open>A channel is a number; \<open>tw_closed\<close> are the ones that were closed. \<open>make\<close> gives the next number.\<close>

record taskWaiters =
  tw_waiting :: "string \<rightharpoonup> nat"
  tw_made :: nat
  tw_closed :: "nat set"

definition wait_for :: "string \<Rightarrow> taskWaiters \<Rightarrow> nat \<times> taskWaiters" where
  "wait_for host w = (case tw_waiting w host of
     Some woken \<Rightarrow> (woken, w)
   | None \<Rightarrow> (tw_made w, w\<lparr>tw_waiting := (tw_waiting w)(host \<mapsto> tw_made w), tw_made := Suc (tw_made w)\<rparr>))"

definition wake :: "string \<Rightarrow> taskWaiters \<Rightarrow> taskWaiters" where
  "wake host w = (case tw_waiting w host of
     None \<Rightarrow> w
   | Some woken \<Rightarrow> w\<lparr>tw_waiting := map_delete host (tw_waiting w), tw_closed := insert woken (tw_closed w)\<rparr>)"

record collector =
  co_db :: db
  co_tasks :: taskWaiters

definition on_db :: "('a, db) act \<Rightarrow> ('a, collector) act" where
  "on_db m c = (case m (co_db c) of (r, s) \<Rightarrow> (r, c\<lparr>co_db := s\<rparr>))"

section \<open>Task calls\<close>

record TaskAssignment =
  ta_Id :: int
  ta_Task :: string
  ta_Command :: string

definition no_assignment :: TaskAssignment where
  "no_assignment = \<lparr>ta_Id = 0, ta_Task = [], ta_Command = []\<rparr>"

definition assignment_of :: "TaskRun \<Rightarrow> TaskAssignment" where
  "assignment_of run = \<lparr>ta_Id = tr_ID run, ta_Task = tr_Task run, ta_Command = tr_Command run\<rparr>"

record TaskRunInfo =
  ti_Id :: int
  ti_Host :: string
  ti_Task :: string
  ti_Command :: string
  ti_Status :: string
  ti_RequestedBy :: string
  ti_RequestedAt :: int
  ti_StartedAt :: int
  ti_FinishedAt :: int
  ti_ExitCode :: int
  ti_Error :: string
  ti_Output :: string
  ti_Truncated :: bool

text \<open>The exit code came from an int32.\<close>

definition taskRunInfo :: "TaskRun \<Rightarrow> TaskRunInfo" where
  "taskRunInfo run = \<lparr>ti_Id = tr_ID run, ti_Host = tr_Host run, ti_Task = tr_Task run, ti_Command = tr_Command run, ti_Status = tr_Status run,
     ti_RequestedBy = tr_RequestedBy run, ti_RequestedAt = unix_time (tr_RequestedAt run), ti_StartedAt = unix_time (tr_StartedAt run),
     ti_FinishedAt = unix_time (tr_FinishedAt run), ti_ExitCode = tr_ExitCode run, ti_Error = tr_Error run, ti_Output = tr_Output run,
     ti_Truncated = tr_Truncated run\<rparr>"

text \<open>
  \<open>NextTask\<close> up to the point where it waits: the channel it would wait on, and the run if there is one. Other
  calls happen while it waits. What ends the wait is a value: the channel was closed, the time was up, or the
  agent went away.
\<close>

definition NextTask_begin :: "time \<Rightarrow> string option \<Rightarrow> string \<Rightarrow> (nat \<times> TaskRun option, collector) act" where
  "NextTask_begin now authenticated name c =
     (let host = call_host authenticated name; (woken, w) = wait_for host (co_tasks c)
      in bindE (map_err toStatus (on_db (ClaimTaskRun now host))) (\<lambda>run. ret (woken, run)) (c\<lparr>co_tasks := w\<rparr>))"

datatype waited = Woken | TimerFired | CallEnded error

definition NextTask_end :: "time \<Rightarrow> string option \<Rightarrow> string \<Rightarrow> TaskRun option \<Rightarrow> waited \<Rightarrow> (TaskAssignment, collector) act" where
  "NextTask_end now authenticated name run w = (case run of
     Some r \<Rightarrow> ret (assignment_of r)
   | None \<Rightarrow> (case w of
       TimerFired \<Rightarrow> ret no_assignment
     | CallEnded e \<Rightarrow> fail e
     | Woken \<Rightarrow>
         bindE (map_err toStatus (on_db (ClaimTaskRun now (call_host authenticated name)))) (\<lambda>run.
         ret (case run of None \<Rightarrow> no_assignment | Some r \<Rightarrow> assignment_of r))))"

text \<open>The whole call. \<open>meanwhile\<close> is what others do while it waits; \<open>now'\<close> is the time after the wait.\<close>

definition NextTask :: "time \<Rightarrow> time \<Rightarrow> (collector \<Rightarrow> collector) \<Rightarrow> waited \<Rightarrow> string option \<Rightarrow> string \<Rightarrow> (TaskAssignment, collector) act" where
  "NextTask now now' meanwhile w authenticated name =
     bindE (NextTask_begin now authenticated name) (\<lambda>(woken, run) c.
       NextTask_end now' authenticated name run w (if run = None then meanwhile c else c))"

record TaskProgress =
  tp_Id :: int
  tp_ServerName :: string
  tp_Output :: string
  tp_Truncated :: bool
  tp_Done :: bool
  tp_ExitCode :: int
  tp_TimedOut :: bool
  tp_Error :: string

definition result_of_progress :: "TaskProgress \<Rightarrow> TaskResult" where
  "result_of_progress p = \<lparr>re_Output = tp_Output p, re_Truncated = tp_Truncated p, re_ExitCode = tp_ExitCode p,
     re_TimedOut = tp_TimedOut p, re_Error = tp_Error p\<rparr>"

definition ReportTask :: "time \<Rightarrow> string option \<Rightarrow> TaskProgress \<Rightarrow> (unit, collector) act" where
  "ReportTask now authenticated p =
     (let host = call_host authenticated (tp_ServerName p) in
      map_err (\<lambda>e. if errors_Is e ErrNotFound then ErrStatus NotFound (err_text ''this run is not going any more'') else toStatus e)
        (on_db (if tp_Done p then FinishTaskRun now host (tp_Id p) (result_of_progress p)
                else AppendTaskOutput host (tp_Id p) (tp_Output p) (tp_Truncated p))))"

definition api_HostTasks :: "string \<Rightarrow> (Task list, collector) act" where
  "api_HostTasks host = map_err toStatus (on_db (HostTasks host))"

definition api_RequestTaskRun :: "time \<Rightarrow> string \<Rightarrow> string \<Rightarrow> string \<Rightarrow> (TaskRunInfo, collector) act" where
  "api_RequestTaskRun now host task by =
     (if host = [] \<or> task = [] \<or> by = [] then fail (ErrStatus InvalidArgument (err_text ''a run needs a host, a task and who asked''))
      else bindE (map_err (\<lambda>e. if errors_Is e ErrNotFound then ErrStatus NotFound (ErrText ''%s does not list a task named %q'' [host, task]) else toStatus e)
             (on_db (RequestTaskRun now host task by))) (\<lambda>run.
           bindE (modify (\<lambda>c. c\<lparr>co_tasks := wake host (co_tasks c)\<rparr>)) (\<lambda>_. ret (taskRunInfo run))))"

definition api_TaskRuns :: "string \<Rightarrow> int \<Rightarrow> (TaskRunInfo list, collector) act" where
  "api_TaskRuns host limit = bindE (map_err toStatus (on_db (TaskRuns host limit))) (\<lambda>runs. ret (map taskRunInfo runs))"

definition api_TaskRun :: "int \<Rightarrow> (TaskRunInfo, collector) act" where
  "api_TaskRun i = bindE (map_err toStatus (on_db (TaskRun_read i))) (\<lambda>run. ret (taskRunInfo run))"

end
