(* ===== verification/TableOrder.thy ===== *)
theory TableOrder
  imports Database
begin

text \<open>
  Statements about how the tables change over time. A relation between two moments that is reflexive,
  transitive and kept by a rollback holds over an operation as soon as it holds over each of its
  statements, whatever calls fail or lose their answer.
\<close>

locale table_order =
  fixes R :: "tables \<Rightarrow> (tbl \<Rightarrow> int) \<Rightarrow> tables \<Rightarrow> (tbl \<Rightarrow> int) \<Rightarrow> bool"
  assumes same: "R t q t q"
    and trans: "R t q t' q' \<Longrightarrow> R t' q' t'' q'' \<Longrightarrow> R t q t'' q''"
    and undone: "R t q t' q' \<Longrightarrow> R t q t q'"
begin

definition moves :: "('a, db) act \<Rightarrow> bool" where
  "moves m \<longleftrightarrow> (\<forall>s. R (tabs s) (db_seq s) (tabs (snd (m s))) (db_seq (snd (m s))))"

lemma movesI: "(\<And>s. R (tabs s) (db_seq s) (tabs (snd (m s))) (db_seq (snd (m s)))) \<Longrightarrow> moves m"
  by (simp add: moves_def)

lemma movesD: "moves m \<Longrightarrow> m s = (r, s') \<Longrightarrow> R (tabs s) (db_seq s) (tabs s') (db_seq s')"
  unfolding moves_def by (metis snd_conv)

lemma moves_ret [intro]: "moves (ret a)" and moves_fail [intro]: "moves (fail e)"
  by (simp_all add: moves_def same)

lemma moves_bindE [intro]:
  assumes "moves m" and "\<And>a. moves (k a)"
  shows "moves (bindE m k)"
proof (rule movesI)
  fix s :: db
  obtain r s1 where m: "m s = (r, s1)" by (cases "m s")
  note first = movesD [OF assms(1) m]
  show "R (tabs s) (db_seq s) (tabs (snd (bindE m k s))) (db_seq (snd (bindE m k s)))"
  proof (cases r)
    case (Inl e)
    with m first show ?thesis by (simp add: bindE_Inl)
  next
    case (Inr a)
    with m have "bindE m k s = k a s1" by (simp add: bindE_Inr)
    then show ?thesis using trans [OF first movesD [OF assms(2) surjective_pairing [of "k a s1"]]] by simp
  qed
qed

lemma moves_query [intro]: "moves (query f)"
proof (rule movesI)
  fix s :: db
  show "R (tabs s) (db_seq s) (tabs (snd (query f s))) (db_seq (snd (query f s)))"
    by (cases rule: query_cases [OF surjective_pairing [of "query f s"]]) (simp_all add: same)
qed

lemma moves_exec:
  assumes "\<And>t q. R t q (snd (f t)) q"
  shows "moves (exec f)"
proof (rule movesI)
  fix s :: db
  show "R (tabs s) (db_seq s) (tabs (snd (exec f s))) (db_seq (snd (exec f s)))"
    by (cases rule: exec_cases [OF surjective_pairing [of "exec f s"]]) (auto simp: same assms)
qed

lemma moves_insert_into:
  assumes "\<And>t q. R t q (snd (f (q k + 1) t)) (q(k := q k + 1))"
  shows "moves (insert_into k f)"
proof (rule movesI)
  fix s :: db
  show "R (tabs s) (db_seq s) (tabs (snd (insert_into k f s))) (db_seq (snd (insert_into k f s)))"
    by (cases rule: insert_into_cases [OF surjective_pairing [of "insert_into k f s"]]) (simp_all add: same assms)
qed

lemma moves_dbcall:
  assumes "moves f"
  shows "moves (dbcall f)"
proof (rule movesI)
  fix s :: db
  have net: "R (tabs s) (db_seq s) (tabs (snd (f (set_net n s)))) (db_seq (snd (f (set_net n s))))" for n
    using assms unfolding moves_def by (metis net_record(1,2))
  from surjective_pairing [of "dbcall f s"] show "R (tabs s) (db_seq s) (tabs (snd (dbcall f s))) (db_seq (snd (dbcall f s)))"
  proof (cases rule: dbcall_cases)
    case (ok n)
    with net [of n] show ?thesis by simp
  next
    case (failed n m)
    then show ?thesis by (simp add: same)
  next
    case (lost n m)
    with net [of n] show ?thesis by simp
  qed
qed

lemma moves_in_tx:
  assumes "moves m"
  shows "moves (in_tx m)"
proof (rule movesI)
  fix s :: db
  have body: "R (tabs s) (db_seq s) (tabs s2) (db_seq s2)" if "m s1 = (r, s2)" "tabs s1 = tabs s" "db_seq s1 = db_seq s" for r s1 s2
    using movesD [OF assms that(1)] that(2,3) by simp
  from surjective_pairing [of "in_tx m s"] show "R (tabs s) (db_seq s) (tabs (snd (in_tx m s))) (db_seq (snd (in_tx m s)))"
  proof (cases rule: in_tx_cases)
    case (begin_err m)
    then show ?thesis by (simp add: same)
  next
    case (body_err e s1 s2)
    with undone [OF body [OF body_err(3,1,2)]] show ?thesis by simp
  next
    case (ok a s1 s2)
    with body [OF ok(3,1,2)] show ?thesis by simp
  next
    case (commit_failed a m s1 s2)
    with undone [OF body [OF commit_failed(3,1,2)]] show ?thesis by simp
  next
    case (commit_lost a m s1 s2)
    with body [OF commit_lost(3,1,2)] show ?thesis by simp
  qed
qed

lemma moves_case_option [intro]: "moves n \<Longrightarrow> (\<And>x. moves (f x)) \<Longrightarrow> moves (case opt of None \<Rightarrow> n | Some x \<Rightarrow> f x)"
  by (cases opt) auto

lemma moves_if [intro]: "moves a \<Longrightarrow> moves b \<Longrightarrow> moves (if c then a else b)"
  by simp

end

text \<open>The first such relation: the counters of the identity columns never go back.\<close>

definition counters_grow :: "tables \<Rightarrow> (tbl \<Rightarrow> int) \<Rightarrow> tables \<Rightarrow> (tbl \<Rightarrow> int) \<Rightarrow> bool" where
  "counters_grow t q t' q' \<longleftrightarrow> (\<forall>k. q k \<le> q' k)"

interpretation counters: table_order counters_grow
  by unfold_locales (auto simp: counters_grow_def intro: order_trans)

lemma keeps_tx:
  assumes "keeps (tab_inv I) m" and "\<And>t q q'. I t q \<Longrightarrow> (\<And>k. q k \<le> q' k) \<Longrightarrow> I t q'" and "counters.moves m"
  shows "keeps (tab_inv I) (in_tx m)"
  using assms(1,2) by (rule keeps_in_tx) (use assms(3) in \<open>simp_all add: counters.moves_def counters_grow_def\<close>)

end
