(* ===== verification/TaskHistory.thy ===== *)
theory TaskHistory
  imports TaskRuns TableOrder
begin

text \<open>
  What happens to a task run over time: the invariant of the table of runs, what a run may become, and the
  contracts of asking for a run, picking one up and sweeping. \<open>task_step\<close> are the operations that touch
  runs, with every way a database call can fail.
\<close>

section \<open>Characters\<close>

lemma rune_bytes_char: "is_char (rune_bytes r)"
proof -
  have "is_char replacement" by code_simp
  then show ?thesis by (simp add: rune_bytes_def)
qed

lemma concat_chars:
  assumes "\<And>e. e \<in> set es \<Longrightarrow> is_char e"
  shows "valid_utf8 (concat es)" and "RuneCount (concat es) = length es"
proof -
  show "valid_utf8 (concat es)" using assms by (induction es) (auto intro: valid_utf8.intros)
  show "RuneCount (concat es) = length es" using assms by (induction es) (auto simp: RuneCount_def runes_char)
qed

lemma cut_runes_valid: "valid_utf8 (cut_runes n s)"
  unfolding cut_runes_def by (rule concat_chars) (auto simp: rune_bytes_char)

lemma RuneCount_cut: "RuneCount (cut_runes n s) = min n (RuneCount s)"
  unfolding cut_runes_def by (subst concat_chars(2)) (auto simp: rune_bytes_char RuneCount_def)

lemma RuneCount_append: "valid_utf8 a \<Longrightarrow> RuneCount (a @ b) = RuneCount a + RuneCount b"
  by (induction rule: valid_utf8.induct) (simp_all add: RuneCount_def runes_char)

section \<open>The invariant\<close>

definition finished_statuses :: "string list" where
  "finished_statuses = [TaskSucceeded, TaskFailed, TaskTimedOut, TaskExpired, TaskLost]"

definition run_ok :: "run_row \<Rightarrow> bool" where
  "run_ok r \<longleftrightarrow> valid_utf8 (t_output r) \<and> text_length (t_output r) \<le> TaskOutputLimit \<and>
     (t_status r = TaskQueued \<and> t_started_at r = None \<and> t_finished_at r = None \<and> t_output r = [] \<or>
      t_status r = TaskRunning \<and> t_started_at r \<noteq> None \<and> t_finished_at r = None \<or>
      t_status r \<in> set finished_statuses \<and> t_finished_at r \<noteq> None)"

definition runs_inv :: "run_row list \<Rightarrow> int \<Rightarrow> bool" where
  "runs_inv rs q \<longleftrightarrow> distinct (map t_id rs) \<and> (\<forall>r \<in> set rs. t_id r \<le> q \<and> run_ok r) \<and> distinct (map t_host_id (filter is_active rs))"

definition task_inv :: "tables \<Rightarrow> (tbl \<Rightarrow> int) \<Rightarrow> bool" where
  "task_inv t q = runs_inv (db_runs t) (q T_runs)"

abbreviation task_ok :: "db \<Rightarrow> bool" where
  "task_ok \<equiv> tab_inv task_inv"

lemma task_inv_same: "task_inv t q \<Longrightarrow> db_runs t' = db_runs t \<Longrightarrow> q' T_runs = q T_runs \<Longrightarrow> task_inv t' q'"
  by (simp add: task_inv_def)

lemma task_inv_mono: "task_inv t q \<Longrightarrow> (\<And>k. q k \<le> q' k) \<Longrightarrow> task_inv t q'"
  unfolding task_inv_def runs_inv_def by (meson order_trans)

lemma runs_inv_filter: "runs_inv rs q \<Longrightarrow> runs_inv (filter P rs) q"
proof -
  assume inv: "runs_inv rs q"
  have "filter is_active (filter P rs) = filter P (filter is_active rs)" by (simp add: conj_commute)
  with inv distinct_map_filter [of t_host_id "filter is_active rs" P] show ?thesis
    by (auto simp: runs_inv_def distinct_map_filter)
qed

lemma distinct_update_active:
  assumes "distinct (map t_host_id (filter is_active rs))" and "\<And>r. r \<in> set rs \<Longrightarrow> t_host_id (f r) = t_host_id r \<and> (is_active (f r) \<longrightarrow> is_active r)"
  shows "distinct (map t_host_id (filter is_active (map f rs)))"
proof -
  have "map t_host_id (filter is_active (map f rs)) = map t_host_id (filter (\<lambda>r. is_active (f r)) rs)"
    using assms(2) by (induction rs) auto
  also have "\<dots> = map t_host_id (filter (\<lambda>r. is_active (f r)) (filter is_active rs))"
    using assms(2) by (metis (mono_tags, lifting) filter_cong filter_filter)
  finally show ?thesis using distinct_map_filter [OF assms(1)] by metis
qed

lemma runs_inv_update:
  assumes "runs_inv rs q"
    and "\<And>r. r \<in> set rs \<Longrightarrow> P r \<Longrightarrow> run_ok r \<Longrightarrow> run_ok (f r) \<and> t_id (f r) = t_id r \<and> t_host_id (f r) = t_host_id r \<and> (is_active (f r) \<longrightarrow> is_active r)"
  shows "runs_inv (update_where P f rs) q"
proof -
  let ?g = "\<lambda>r. if P r then f r else r"
  have up: "update_where P f rs = map ?g rs" by (simp add: update_where_def)
  have g: "t_id (?g r) = t_id r \<and> t_host_id (?g r) = t_host_id r \<and> (is_active (?g r) \<longrightarrow> is_active r) \<and> run_ok (?g r)" if "r \<in> set rs" for r
    using that assms by (simp add: runs_inv_def)
  have "map t_id (map ?g rs) = map t_id rs" using g by simp
  moreover have "distinct (map t_host_id (filter is_active (map ?g rs)))"
    using assms(1) g by (intro distinct_update_active) (auto simp: runs_inv_def)
  ultimately show ?thesis using assms(1) g unfolding up runs_inv_def by (metis (no_types, lifting) image_iff list.set_map)
qed

lemma run_ok_end: "run_ok r \<Longrightarrow> stat \<in> set finished_statuses \<Longrightarrow> run_ok (end_run now stat why r)"
  by (auto simp: run_ok_def end_run_def)

lemma not_active_finished: "stat \<in> set finished_statuses \<Longrightarrow> \<not> is_active (end_run now stat why r)"
  by (auto simp: is_active_def end_run_def finished_statuses_def)

lemma run_ok_add:
  assumes "run_ok r" and "t_status r = TaskRunning"
  shows "run_ok (add_output out tr r)"
proof -
  have "valid_utf8 (t_output r)" "text_length (t_output r) \<le> TaskOutputLimit" using assms(1) by (simp_all add: run_ok_def)
  then have "valid_utf8 (t_output (add_output out tr r))" "text_length (t_output (add_output out tr r)) \<le> TaskOutputLimit"
    by (simp_all add: add_output_def valid_utf8_append text_left_cut cut_runes_valid text_length_def RuneCount_append RuneCount_cut)
  with assms show ?thesis by (auto simp: run_ok_def add_output_def finished_statuses_def)
qed

lemma status_of_result_finished: "status_of_result res \<in> set finished_statuses"
  by (simp add: status_of_result_def finished_statuses_def)

lemma runs_inv_insert:
  assumes "runs_inv rs q" and "\<not> (\<exists>r \<in> set rs. is_active r \<and> t_host_id r = hid)"
  shows "runs_inv (rs @ [new_run now (q + 1) hid task by]) (q + 1)"
proof -
  let ?r = "new_run now (q + 1) hid task by"
  have old: "t_id r \<le> q" if "r \<in> set rs" for r using that assms(1) by (simp add: runs_inv_def)
  have "run_ok ?r" by (simp add: run_ok_def new_run_def valid_utf8.intros text_length_def RuneCount_def TaskOutputLimit_def)
  moreover have "q + 1 \<notin> t_id ` set rs" using old by force
  moreover have "hid \<notin> t_host_id ` set (filter is_active rs)" using assms(2) by auto
  ultimately show ?thesis using assms(1) old
    by (auto simp: runs_inv_def new_run_def is_active_def order_trans [OF old])
qed

lemma insert_run_inv:
  assumes "task_inv t q"
  shows "task_inv (snd (insert_run now host task by (q T_runs + 1) t)) (q(T_runs := q T_runs + 1))"
proof -
  have idle: "task_inv t (q(T_runs := q T_runs + 1))" by (rule task_inv_mono [OF assms]) simp
  have add: "task_inv (t\<lparr>db_runs := db_runs t @ [new_run now (q T_runs + 1) hid x by]\<rparr>) (q(T_runs := q T_runs + 1))"
    if "\<not> (\<exists>r \<in> set (db_runs t). is_active r \<and> t_host_id r = hid)" for hid x
    using runs_inv_insert [OF _ that] assms by (simp add: task_inv_def)
  show ?thesis
    using idle add by (auto simp: insert_run_def Let_def split: option.split list.split)
qed

section \<open>What a run may become\<close>

text \<open>A run that was asked for stays the run that was asked for, its output only grows, and once it has ended it
  never changes again.\<close>

definition run_path :: "string \<Rightarrow> string \<Rightarrow> bool" where
  "run_path a b \<longleftrightarrow> a = b \<or> a = TaskQueued \<or> a = TaskRunning \<and> b \<in> {TaskSucceeded, TaskFailed, TaskTimedOut, TaskLost}"

definition follows :: "run_row \<Rightarrow> run_row \<Rightarrow> bool" where
  "follows r r' \<longleftrightarrow> t_id r' = t_id r \<and> t_host_id r' = t_host_id r \<and> t_task r' = t_task r \<and> t_command r' = t_command r \<and>
     t_timeout_seconds r' = t_timeout_seconds r \<and> t_requested_by r' = t_requested_by r \<and> t_requested_at r' = t_requested_at r \<and>
     (\<exists>more_output. t_output r' = t_output r @ more_output) \<and> run_path (t_status r) (t_status r') \<and> (\<not> is_active r \<longrightarrow> r' = r)"

lemma follows_refl: "follows r r"
  by (simp add: follows_def run_path_def)

lemma follows_trans:
  assumes "follows a b" and "follows b c"
  shows "follows a c"
proof -
  have "run_path (t_status a) (t_status c)"
    using assms by (auto simp: follows_def run_path_def is_active_def)
  with assms show ?thesis by (auto simp: follows_def is_active_def)
qed

definition task_order :: "tables \<Rightarrow> (tbl \<Rightarrow> int) \<Rightarrow> tables \<Rightarrow> (tbl \<Rightarrow> int) \<Rightarrow> bool" where
  "task_order t q t' q' \<longleftrightarrow> q T_runs \<le> q' T_runs \<and> (\<forall>r' \<in> set (db_runs t'). (\<exists>r \<in> set (db_runs t). follows r r') \<or> q T_runs < t_id r')"

lemma task_order_trans:
  assumes "task_order t q t' q'" and "task_order t' q' t'' q''"
  shows "task_order t q t'' q''"
  unfolding task_order_def
proof (intro conjI ballI)
  show "q T_runs \<le> q'' T_runs" using assms by (simp add: task_order_def)
  fix r'' assume "r'' \<in> set (db_runs t'')"
  with assms(2) consider r' where "r' \<in> set (db_runs t')" "follows r' r''" | "q' T_runs < t_id r''"
    unfolding task_order_def by blast
  then show "(\<exists>r \<in> set (db_runs t). follows r r'') \<or> q T_runs < t_id r''"
  proof cases
    case 1
    then have "t_id r'' = t_id r'" by (simp add: follows_def)
    with assms(1) 1 show ?thesis unfolding task_order_def by (metis follows_trans)
  next
    case 2
    with assms(1) show ?thesis unfolding task_order_def by linarith
  qed
qed

interpretation runs: table_order task_order
proof
  show "task_order t q t q" for t q by (auto simp: task_order_def intro: follows_refl)
  show "task_order t q t' q' \<Longrightarrow> task_order t' q' t'' q'' \<Longrightarrow> task_order t q t'' q''" for t q t' q' t'' q''
    by (rule task_order_trans)
  show "task_order t q t' q' \<Longrightarrow> task_order t q t q'" for t q t' q' by (auto simp: task_order_def intro: follows_refl)
qed

section \<open>Steps keep the invariant and the order\<close>

lemma active_not_finished [simp]: "TaskQueued \<notin> set finished_statuses" "TaskRunning \<notin> set finished_statuses"
  by (simp_all add: finished_statuses_def task_status_defs)

lemma active_update_follows:
  assumes "\<And>r. P r \<Longrightarrow> is_active r" and "\<And>r. P r \<Longrightarrow> follows r (f r)"
  shows "task_order t q (t\<lparr>db_runs := update_where P f (db_runs t)\<rparr>) q"
  using assms by (auto simp: task_order_def set_update_where intro: follows_refl)

lemma follows_end:
  assumes "t_status r = TaskQueued \<or> t_status r = TaskRunning \<and> stat \<in> {TaskSucceeded, TaskFailed, TaskTimedOut, TaskLost}"
  shows "follows r (end_run now stat why r)"
  using assms by (auto simp: follows_def end_run_def run_path_def is_active_def)

lemma follows_start: "t_status r = TaskQueued \<Longrightarrow> follows r (start_run now r)"
  by (simp add: follows_def start_run_def run_path_def is_active_def)

lemma follows_add: "t_status r = TaskRunning \<Longrightarrow> follows r (add_output out tr r)"
  by (simp add: follows_def add_output_def run_path_def is_active_def)

lemma follows_finish: "t_status r = TaskRunning \<Longrightarrow> follows r (finish_run now res r)"
  by (auto simp: follows_def finish_run_def end_run_def add_output_def run_path_def is_active_def status_of_result_def)

lemma run_ok_start: "run_ok r \<Longrightarrow> t_status r = TaskQueued \<Longrightarrow> run_ok (start_run now r)"
  by (auto simp: run_ok_def start_run_def)

lemma run_ok_finish: "run_ok r \<Longrightarrow> t_status r = TaskRunning \<Longrightarrow> run_ok (finish_run now res r)"
proof -
  assume "run_ok r" "t_status r = TaskRunning"
  from run_ok_end [OF run_ok_add [OF this] status_of_result_finished] show ?thesis by (simp add: finish_run_def run_ok_def)
qed

lemma update_going_keeps:
  assumes "\<And>r. t_status r = TaskRunning \<Longrightarrow> run_ok r \<Longrightarrow> run_ok (f r)" and "\<And>r. t_id (f r) = t_id r \<and> t_host_id (f r) = t_host_id r"
  shows "keeps task_ok (update_going host i f)"
  unfolding update_going_def
proof (intro keeps_bindE keeps_exec)
  fix t q assume "task_inv t q"
  then show "task_inv (snd (rows_affected (going t host i) (db_runs t), t\<lparr>db_runs := update_where (going t host i) f (db_runs t)\<rparr>)) q"
    using assms by (auto simp: task_inv_def going_def is_active_def intro!: runs_inv_update)
qed auto

lemma update_going_moves:
  assumes "\<And>r. t_status r = TaskRunning \<Longrightarrow> follows r (f r)"
  shows "runs.moves (update_going host i f)"
  unfolding update_going_def
  by (intro runs.moves_bindE runs.moves_exec)
    (use assms in \<open>auto simp: going_def is_active_def intro!: active_update_follows\<close>)

lemma lose_inv: "task_inv t q \<Longrightarrow> task_inv (lose_runs now host t) q"
  by (auto simp: task_inv_def lose_runs_def finished_statuses_def end_run_def is_active_def intro!: runs_inv_update dest: run_ok_end [of _ TaskLost])

lemma start_inv: "task_inv t q \<Longrightarrow> task_inv (start_runs now host t) q"
  by (auto simp: task_inv_def start_runs_def waiting_run_def is_active_def intro!: runs_inv_update run_ok_start) (simp_all add: start_run_def)

lemma lose_order: "task_order t q (lose_runs now host t) q"
  unfolding lose_runs_def by (rule active_update_follows) (auto simp: is_active_def intro: follows_end)

lemma start_order: "task_order t q (start_runs now host t) q"
  unfolding start_runs_def by (rule active_update_follows) (auto simp: is_active_def waiting_run_def intro: follows_start)

lemma claim_keeps: "keeps task_ok (claim_tx now host)"
  unfolding claim_tx_def by (intro keeps_bindE keeps_exec keeps_ret) (simp_all add: lose_inv start_inv)

lemma claim_moves: "runs.moves (claim_tx now host)"
  unfolding claim_tx_def by (intro runs.moves_bindE runs.moves_exec runs.moves_ret) (simp_all add: lose_order start_order)

lemma claim_counters: "counters.moves (claim_tx now host)"
  unfolding claim_tx_def by (intro counters.moves_bindE counters.moves_exec counters.moves_ret) (simp_all add: counters_grow_def)

section \<open>The operations\<close>

lemma keeps_task_ops:
  "keeps task_ok (SaveHostTasks host list)" "keeps task_ok (RequestTaskRun now host task by)" "keeps task_ok (ClaimTaskRun now host)"
  "keeps task_ok (AppendTaskOutput host i out tr)" "keeps task_ok (FinishTaskRun now host i res)" "keeps task_ok (SweepTaskRuns now later)"
  "keeps task_ok (PurgeTaskRuns now keep)" "keeps task_ok (AddHost name timezone)" "keeps task_ok (RemoveHost name)"
proof -
  show "keeps task_ok (SaveHostTasks host list)"
    unfolding SaveHostTasks_def by (intro keeps_exec) (auto intro: task_inv_same)
  have "keeps task_ok (insert_into T_runs (insert_run now host task by))" by (intro keeps_insert_into insert_run_inv)
  then show "keeps task_ok (RequestTaskRun now host task by)"
    by (auto simp: keeps_def RequestTaskRun_def split: prod.splits sum.splits option.splits)
  show "keeps task_ok (ClaimTaskRun now host)"
    unfolding ClaimTaskRun_def by (rule keeps_tx [OF claim_keeps task_inv_mono claim_counters])
  show "keeps task_ok (AppendTaskOutput host i out tr)"
    unfolding AppendTaskOutput_def by (rule update_going_keeps) (blast intro: run_ok_add, simp add: add_output_def)
  show "keeps task_ok (FinishTaskRun now host i res)"
    unfolding FinishTaskRun_def by (rule update_going_keeps) (blast intro: run_ok_finish, simp add: finish_run_def end_run_def add_output_def)
  show "keeps task_ok (SweepTaskRuns now later)"
    unfolding SweepTaskRuns_def
    by (intro keeps_bindE keeps_exec keeps_ret)
      (auto simp: task_inv_def intro!: runs_inv_update run_ok_end, auto simp: finished_statuses_def end_run_def is_active_def)
  show "keeps task_ok (PurgeTaskRuns now keep)"
    unfolding PurgeTaskRuns_def Let_def by (intro keeps_exec) (auto simp: task_inv_def delete_where_def intro: runs_inv_filter)
  show "keeps task_ok (AddHost name timezone)"
    unfolding AddHost_def by (intro keeps_bindE keeps_insert_into) (auto intro: task_inv_same split: option.split)
  have "task_inv (delete_hosts P t) q" if "task_inv t q" for P t q
    using that by (auto simp: task_inv_def delete_hosts_def delete_alerts_def delete_where_def Let_def intro: runs_inv_filter)
  then show "keeps task_ok (RemoveHost name)"
    unfolding RemoveHost_def by (intro keeps_bindE keeps_exec) auto
qed

lemma task_order_same: "db_runs t' = db_runs t \<Longrightarrow> q T_runs \<le> q' T_runs \<Longrightarrow> task_order t q t' q'"
  by (auto simp: task_order_def intro: follows_refl)

lemma task_order_delete: "db_runs t' = filter P (db_runs t) \<Longrightarrow> task_order t q t' q"
  by (auto simp: task_order_def intro: follows_refl)

lemma insert_run_order: "task_order t q (snd (insert_run now host task by (q T_runs + 1) t)) (q(T_runs := q T_runs + 1))"
proof -
  have "task_order t q (t\<lparr>db_runs := db_runs t @ [new_run now (q T_runs + 1) hid x by]\<rparr>) (q(T_runs := q T_runs + 1))" for hid x
    by (auto simp: task_order_def new_run_def intro: follows_refl)
  moreover have "task_order t q t (q(T_runs := q T_runs + 1))" by (rule task_order_same) simp_all
  ultimately show ?thesis by (auto simp: insert_run_def Let_def split: option.split list.split)
qed

lemma moves_task_ops:
  "runs.moves (SaveHostTasks host list)" "runs.moves (RequestTaskRun now host task by)" "runs.moves (ClaimTaskRun now host)"
  "runs.moves (AppendTaskOutput host i out tr)" "runs.moves (FinishTaskRun now host i res)" "runs.moves (SweepTaskRuns now later)"
  "runs.moves (PurgeTaskRuns now keep)" "runs.moves (AddHost name timezone)" "runs.moves (RemoveHost name)"
proof -
  show "runs.moves (SaveHostTasks host list)"
    unfolding SaveHostTasks_def by (intro runs.moves_exec task_order_same) auto
  have "runs.moves (insert_into T_runs (insert_run now host task by))" by (intro runs.moves_insert_into insert_run_order)
  then show "runs.moves (RequestTaskRun now host task by)"
    by (auto simp: runs.moves_def RequestTaskRun_def split: prod.splits sum.splits option.splits) (metis snd_conv)+
  show "runs.moves (ClaimTaskRun now host)" unfolding ClaimTaskRun_def by (rule runs.moves_in_tx [OF claim_moves])
  show "runs.moves (AppendTaskOutput host i out tr)"
    unfolding AppendTaskOutput_def by (rule update_going_moves) (rule follows_add)
  show "runs.moves (FinishTaskRun now host i res)"
    unfolding FinishTaskRun_def by (rule update_going_moves) (rule follows_finish)
  show "runs.moves (SweepTaskRuns now later)"
    unfolding SweepTaskRuns_def
    by (intro runs.moves_bindE runs.moves_exec runs.moves_ret)
      (auto intro!: active_update_follows follows_end simp: overdue_def silent_def is_active_def)
  show "runs.moves (PurgeTaskRuns now keep)"
    unfolding PurgeTaskRuns_def Let_def by (intro runs.moves_exec task_order_delete) (simp add: delete_where_def)
  show "runs.moves (AddHost name timezone)"
    unfolding AddHost_def by (intro runs.moves_bindE runs.moves_insert_into) (auto intro: task_order_same split: option.split)
  show "runs.moves (RemoveHost name)"
    unfolding RemoveHost_def
    by (intro runs.moves_bindE runs.moves_exec)
      (auto intro: task_order_delete simp: delete_hosts_def delete_alerts_def delete_where_def Let_def)
qed

inductive task_step :: "db \<Rightarrow> db \<Rightarrow> bool" where
  network: "task_step s (set_net n s)"
| save_tasks: "task_step s (snd (SaveHostTasks host list s))"
| request: "task_step s (snd (RequestTaskRun now host task by s))"
| claim: "task_step s (snd (ClaimTaskRun now host s))"
| append: "task_step s (snd (AppendTaskOutput host i out tr s))"
| finish: "task_step s (snd (FinishTaskRun now host i res s))"
| sweep: "task_step s (snd (SweepTaskRuns now later s))"
| purge: "task_step s (snd (PurgeTaskRuns now keep s))"
| add_host: "task_step s (snd (AddHost name timezone s))"
| remove_host: "task_step s (snd (RemoveHost name s))"

lemma task_step_both:
  assumes "task_step s s'"
  shows "(task_ok s \<longrightarrow> task_ok s') \<and> task_order (tabs s) (db_seq s) (tabs s') (db_seq s')"
  using assms
proof (induction rule: task_step.induct)
  case (network s n)
  then show ?case by (simp add: tab_inv_def runs.same)
qed (auto simp: runs.moves_def [THEN iffD1, rule_format] moves_task_ops keeps_task_ops [unfolded keeps_def, rule_format])

lemma task_steps_both:
  assumes "task_step\<^sup>*\<^sup>* s s'"
  shows "(task_ok s \<longrightarrow> task_ok s') \<and> task_order (tabs s) (db_seq s) (tabs s') (db_seq s')"
  using assms
proof (induction rule: rtranclp_induct)
  case base
  show ?case by (simp add: runs.same)
next
  case (step s1 s2)
  with task_step_both [OF step.hyps(2)] show ?case by (auto intro: runs.trans)
qed

section \<open>Properties\<close>

text \<open>An example: a run is asked for, picked up, prints and ends.\<close>

definition example_task :: Task where
  "example_task = \<lparr>task_Name = ''disk'', task_Description = [], task_Command = ''df -h'', task_TimeoutSeconds = 60\<rparr>"

definition example_task_db :: db where
  "example_task_db = \<lparr>db_net = [], db_seq = (\<lambda>_. 5), tabs = no_rows\<lparr>db_hosts := [(new_host 1 ''web'' ''UTC'')\<lparr>h_tasks := [example_task]\<rparr>]\<rparr>\<rparr>"

definition example_asked :: db where
  "example_asked = snd (RequestTaskRun (100 * Second) ''web'' ''disk'' ''ada'' example_task_db)"

definition example_started :: db where
  "example_started = snd (ClaimTaskRun (110 * Second) ''web'' example_asked)"

definition example_ended :: db where
  "example_ended = snd (FinishTaskRun (112 * Second) ''web'' 6
     \<lparr>re_Output = ''ok'', re_Truncated = False, re_ExitCode = 0, re_TimedOut = False, re_Error = []\<rparr> example_started)"

lemma example_task_runs:
  "map (\<lambda>r. (t_id r, t_status r, t_output r)) (db_runs (tabs example_asked)) = [(6, TaskQueued, [])]"
  "map (\<lambda>r. (t_id r, t_status r, t_output r)) (db_runs (tabs example_started)) = [(6, TaskRunning, [])]"
  "map (\<lambda>r. (t_id r, t_status r, t_output r)) (db_runs (tabs example_ended)) = [(6, TaskSucceeded, ''ok'')]"
  by code_simp+

lemma example_task_steps:
  "task_step\<^sup>*\<^sup>* example_task_db example_asked" "task_step\<^sup>*\<^sup>* example_asked example_started" "task_step\<^sup>*\<^sup>* example_started example_ended"
  unfolding example_asked_def example_started_def example_ended_def by (blast intro: task_step.intros)+

lemma example_no_runs: "db_runs (tabs example_task_db) = []"
  by (simp add: example_task_db_def no_rows_def)

lemma no_runs_ok: "db_runs (tabs s) = [] \<Longrightarrow> task_ok s"
  by (simp add: tab_inv_def task_inv_def runs_inv_def)

text \<open>C27. A host runs one task at a time, whatever happened since there were no runs: two different runs of a host are
  never both waiting or going. A run that is going has started and not finished, one that ended has finished, and no
  run keeps more than 262144 characters of output.\<close>

theorem task_runs_invariant:
  assumes "task_step\<^sup>*\<^sup>* s s'" and "db_runs (tabs s) = []"
  shows "(\<forall>r \<in> set (db_runs (tabs s')). \<forall>r' \<in> set (db_runs (tabs s')). is_active r \<and> is_active r' \<and> t_host_id r = t_host_id r' \<longrightarrow> r = r') \<and>
    (\<forall>r \<in> set (db_runs (tabs s')). text_length (t_output r) \<le> TaskOutputLimit \<and> (is_active r \<longleftrightarrow> t_finished_at r = None) \<and>
      (t_status r = TaskRunning \<longrightarrow> t_started_at r \<noteq> None))"
proof -
  let ?rs = "db_runs (tabs s')"
  have inv: "runs_inv ?rs (db_seq s' T_runs)"
    using task_steps_both [OF assms(1)] no_runs_ok [OF assms(2)] by (simp add: tab_inv_def task_inv_def)
  then have "distinct (map t_host_id (filter is_active ?rs))" by (simp add: runs_inv_def)
  then have "r = r'" if "r \<in> set ?rs" "r' \<in> set ?rs" "is_active r" "is_active r'" "t_host_id r = t_host_id r'" for r r'
    using that distinct_map_eq [of t_host_id "filter is_active ?rs" r r'] by simp
  moreover have "text_length (t_output r) \<le> TaskOutputLimit \<and> (is_active r \<longleftrightarrow> t_finished_at r = None) \<and> (t_status r = TaskRunning \<longrightarrow> t_started_at r \<noteq> None)"
    if "r \<in> set ?rs" for r
  proof -
    have "run_ok r" using inv that by (simp add: runs_inv_def)
    then show ?thesis by (auto simp: run_ok_def is_active_def)
  qed
  ultimately show ?thesis by blast
qed

theorem task_runs_invariant_witness:
  "is_active (hd (db_runs (tabs example_started))) \<longleftrightarrow> t_finished_at (hd (db_runs (tabs example_started))) = None"
proof -
  have "hd (db_runs (tabs example_started)) \<in> set (db_runs (tabs example_started))" using example_task_runs(2) by (intro hd_in_set) auto
  with task_runs_invariant [OF rtranclp_trans [OF example_task_steps(1,2)] example_no_runs] show ?thesis by blast
qed

text \<open>C28. A run stays what it was when it was asked for. Between any two moments the host, task, command, timeout and who
  asked do not change, the output only grows, a run that waits can go or expire, one that is going can only end as
  succeeded, failed, timed out or lost, and a run that has ended never changes again.\<close>

theorem task_run_history:
  assumes "task_step\<^sup>*\<^sup>* s s'" and "task_ok s" and "r \<in> set (db_runs (tabs s))" and "r' \<in> set (db_runs (tabs s'))" and "t_id r' = t_id r"
  shows "t_host_id r' = t_host_id r \<and> t_task r' = t_task r \<and> t_command r' = t_command r \<and> t_timeout_seconds r' = t_timeout_seconds r \<and>
    t_requested_by r' = t_requested_by r \<and> t_requested_at r' = t_requested_at r \<and> (\<exists>tail. t_output r' = t_output r @ tail) \<and>
    (t_status r = TaskRunning \<longrightarrow> t_status r' \<in> {TaskRunning, TaskSucceeded, TaskFailed, TaskTimedOut, TaskLost}) \<and>
    (\<not> is_active r \<longrightarrow> r' = r)"
proof -
  have inv: "runs_inv (db_runs (tabs s)) (db_seq s T_runs)" using assms(2) by (simp add: tab_inv_def task_inv_def)
  have "task_order (tabs s) (db_seq s) (tabs s') (db_seq s')" using task_steps_both [OF assms(1)] by blast
  moreover have "t_id r' \<le> db_seq s T_runs" using inv assms(3,5) by (simp add: runs_inv_def)
  ultimately obtain r0 where r0: "r0 \<in> set (db_runs (tabs s))" "follows r0 r'"
    using assms(4) unfolding task_order_def by (metis leD)
  have ids: "distinct (map t_id (db_runs (tabs s)))" using inv by (simp add: runs_inv_def)
  have "t_id r0 = t_id r" using r0(2) assms(5) by (simp add: follows_def)
  with distinct_map_eq [OF ids r0(1) assms(3)] have "r0 = r" .
  with r0(2) have "follows r r'" by simp
  then show ?thesis by (auto simp: follows_def run_path_def)
qed

theorem task_run_history_witness:
  "t_command (hd (db_runs (tabs example_ended))) = t_command (hd (db_runs (tabs example_asked)))"
proof -
  have ne: "db_runs (tabs example_asked) \<noteq> []" "db_runs (tabs example_ended) \<noteq> []" using example_task_runs by auto
  have "t_id (hd (db_runs (tabs example_ended))) = t_id (hd (db_runs (tabs example_asked)))" by code_simp
  moreover have "task_ok example_asked"
    using task_steps_both [OF example_task_steps(1)] no_runs_ok [OF example_no_runs] by blast
  ultimately show ?thesis
    using task_run_history [OF rtranclp_trans [OF example_task_steps(2,3)] _ hd_in_set [OF ne(1)] hd_in_set [OF ne(2)]] by blast
qed

text \<open>What \<open>ClaimTaskRun\<close> does when it hands out a run.\<close>

lemma ClaimTaskRun_effect:
  assumes "ClaimTaskRun now host s = (Inr (Some run), s')"
  shows "\<exists>r \<in> set (db_runs (tabs s)). \<exists>r' \<in> set (db_runs (tabs s')).
     t_status r = TaskQueued \<and> of_host (tabs s) host r \<and> timestamptz now - t_requested_at r < taskPickupWindow \<and>
     t_id r = tr_ID run \<and> t_task r = tr_Task run \<and> t_command r = tr_Command run \<and> r' = start_run now r \<and>
     (\<forall>x \<in> set (db_runs (tabs s)). t_status x = TaskRunning \<and> of_host (tabs s) host x \<longrightarrow>
        end_run now TaskLost ''the agent stopped before the task finished'' x \<in> set (db_runs (tabs s'))) \<and> db_hosts (tabs s') = db_hosts (tabs s)"
proof -
  let ?t1 = "lose_runs now host (tabs s)"
  obtain s1 s2 where tx: "tabs s1 = tabs s" "claim_tx now host s1 = (Inr (Some run), s2)" "tabs s' = tabs s2"
    using assms unfolding ClaimTaskRun_def by (cases rule: in_tx_cases) auto
  obtain r1 where row: "find (waiting_run now ?t1 host) (db_runs ?t1) = Some r1" and s2: "tabs s2 = start_runs now host ?t1"
    and r1: "run = zero_run\<lparr>tr_ID := t_id r1, tr_Host := host, tr_Task := t_task r1, tr_Command := t_command r1, tr_Status := TaskRunning\<rparr>"
    using tx(2) unfolding claim_tx_def
    by (elim bindE_InrE) (auto elim!: exec_cases simp: tx(1) dest: sym)
  from find_SomeD [OF row] have w: "r1 \<in> set (db_runs ?t1)" "waiting_run now ?t1 host r1" by auto
  have of1: "of_host ?t1 host = of_host (tabs s) host" by (simp add: fun_eq_iff of_host_def lose_runs_def host_named_def)
  have r1q: "t_status r1 = TaskQueued" using w(2) by (simp add: waiting_run_def)
  then have r1s: "r1 \<in> set (db_runs (tabs s))"
    using w(1) by (auto simp: lose_runs_def set_update_where end_run_def split: if_splits)
  have lost: "end_run now TaskLost ''the agent stopped before the task finished'' x \<in> set (db_runs (tabs s'))"
    if "x \<in> set (db_runs (tabs s))" "t_status x = TaskRunning" "of_host (tabs s) host x" for x
  proof -
    let ?x = "end_run now TaskLost ''the agent stopped before the task finished'' x"
    have "?x \<in> set (db_runs ?t1)" using that by (auto simp: lose_runs_def set_update_where)
    moreover have "\<not> waiting_run now ?t1 host ?x" by (simp add: waiting_run_def end_run_def)
    ultimately show ?thesis unfolding tx(3) s2 start_runs_def by (auto simp: set_update_where)
  qed
  have "start_run now r1 \<in> set (db_runs (tabs s'))"
    unfolding tx(3) s2 start_runs_def using w by (auto simp: set_update_where)
  moreover have "db_hosts (tabs s') = db_hosts (tabs s)" by (simp add: tx(3) s2 start_runs_def lose_runs_def)
  ultimately show ?thesis using r1s r1q w(2) r1 lost by (auto simp: waiting_run_def of1)
qed

text \<open>What an agent picks up: \<open>ClaimTaskRun\<close> hands out a run only when one of the host's runs was waiting, asked for less
  than two minutes before; the run is now going, with the command that was asked for, and whatever was marked as
  going on that host before is lost.\<close>

theorem ClaimTaskRun_contract:
  assumes "ClaimTaskRun now host s = (Inr (Some run), s')"
  shows "\<exists>r \<in> set (db_runs (tabs s)). \<exists>r' \<in> set (db_runs (tabs s')).
     t_status r = TaskQueued \<and> of_host (tabs s) host r \<and> timestamptz now - t_requested_at r < taskPickupWindow \<and>
     t_id r = tr_ID run \<and> t_task r = tr_Task run \<and> t_command r = tr_Command run \<and> r' = start_run now r \<and>
     (\<forall>x \<in> set (db_runs (tabs s)). t_status x = TaskRunning \<and> of_host (tabs s) host x \<longrightarrow>
        end_run now TaskLost ''the agent stopped before the task finished'' x \<in> set (db_runs (tabs s')))"
  using ClaimTaskRun_effect [OF assms] by blast

theorem ClaimTaskRun_contract_witness:
  "\<exists>r \<in> set (db_runs (tabs example_asked)). t_status r = TaskQueued \<and> 110 * Second - t_requested_at r < taskPickupWindow"
proof -
  have "fst (ClaimTaskRun (110 * Second) ''web'' example_asked) =
      Inr (Some (zero_run\<lparr>tr_ID := 6, tr_Host := ''web'', tr_Task := ''disk'', tr_Command := ''df -h'', tr_Status := TaskRunning\<rparr>))" by code_simp
  then have "ClaimTaskRun (110 * Second) ''web'' example_asked =
      (Inr (Some (zero_run\<lparr>tr_ID := 6, tr_Host := ''web'', tr_Task := ''disk'', tr_Command := ''df -h'', tr_Status := TaskRunning\<rparr>)), example_started)"
    by (simp add: example_started_def prod_eq_iff)
  from ClaimTaskRun_contract [OF this] show ?thesis by (auto simp: timestamptz_def Second_def)
qed

text \<open>Nothing waits or goes for ever: when a sweep succeeds, every run that is left waiting was asked for less than two
  minutes ago, and every run that is left going is within its timeout and one minute.\<close>

theorem SweepTaskRuns_ends:
  assumes "SweepTaskRuns now later s = (Inr n, s')" and "task_ok s" and "r \<in> set (db_runs (tabs s'))"
  shows "(t_status r = TaskQueued \<longrightarrow> timestamptz now - t_requested_at r < taskPickupWindow) \<and>
    (t_status r = TaskRunning \<longrightarrow> (\<exists>st. t_started_at r = Some st \<and> timestamptz later - st \<le> t_timeout_seconds r * Second + taskLostAfter))"
proof -
  have ok: "task_ok s'" using keepsD [OF keeps_task_ops(6) assms(2,1)] .
  let ?e = "end_run now TaskExpired ''the agent did not pick the task up''" and ?l = "end_run later TaskLost ''the agent stopped reporting''"
  have "db_runs (tabs s') = update_where (silent later) ?l (update_where (overdue now) ?e (db_runs (tabs s)))"
    using assms(1) unfolding SweepTaskRuns_def by (elim bindE_InrE) (auto elim!: exec_cases)
  then obtain r0 where r0: "r0 \<in> set (update_where (overdue now) ?e (db_runs (tabs s)))" "r = (if silent later r0 then ?l r0 else r0)"
    using assms(3) by (auto simp: set_update_where)
  show ?thesis
  proof (intro conjI impI)
    assume q: "t_status r = TaskQueued"
    have "r = r0" using q r0(2) by (auto simp: end_run_def split: if_splits)
    moreover from r0(1) obtain r1 where r1: "r0 = (if overdue now r1 then ?e r1 else r1)" by (auto simp: set_update_where)
    ultimately have "\<not> overdue now r" using q by (auto simp: end_run_def split: if_splits)
    with q show "timestamptz now - t_requested_at r < taskPickupWindow" by (simp add: overdue_def)
  next
    assume g: "t_status r = TaskRunning"
    then have "r = r0" "\<not> silent later r" using r0(2) by (auto simp: end_run_def split: if_splits)
    moreover have "run_ok r" using ok assms(3) by (simp add: tab_inv_def task_inv_def runs_inv_def)
    ultimately show "\<exists>st. t_started_at r = Some st \<and> timestamptz later - st \<le> t_timeout_seconds r * Second + taskLostAfter"
      using g by (auto simp: silent_def run_ok_def)
  qed
qed

definition example_swept :: db where
  "example_swept = snd (SweepTaskRuns (300 * Second) (300 * Second) example_asked)"

theorem SweepTaskRuns_ends_witness:
  "t_status (hd (db_runs (tabs example_swept))) \<noteq> TaskQueued"
proof -
  let ?r = "hd (db_runs (tabs example_swept))"
  have at: "map t_requested_at (db_runs (tabs example_swept)) = [100 * Second]" by code_simp
  then have r: "?r \<in> set (db_runs (tabs example_swept))" by (intro hd_in_set) auto
  have "fst (SweepTaskRuns (300 * Second) (300 * Second) example_asked) = Inr 1" by code_simp
  then have "SweepTaskRuns (300 * Second) (300 * Second) example_asked = (Inr 1, example_swept)"
    by (simp add: prod_eq_iff example_swept_def)
  moreover have "task_ok example_asked" using task_steps_both [OF example_task_steps(1)] no_runs_ok [OF example_no_runs] by blast
  ultimately have "t_status ?r = TaskQueued \<Longrightarrow> timestamptz (300 * Second) - t_requested_at ?r < taskPickupWindow"
    using SweepTaskRuns_ends r by blast
  moreover have "t_requested_at ?r = 100 * Second" using at by auto
  ultimately show ?thesis by (auto simp: timestamptz_def Second_def taskPickupWindow_def Minute_def)
qed

end
