(* ===== verification/AgentTasks.thy ===== *)
theory AgentTasks
  imports Api TaskHistory
begin

text \<open>
  The agent's side of tasks: agent/tasks.go. The collector behind \<open>taskClient\<close> is a record of calls on some
  state, so the agent is proved for every collector that keeps the law of the locale \<open>task_collector\<close>. The
  tasks file is read anew each time; what \<open>tasks.Load\<close> returns at that moment is an argument. A process is the list
  of what happens while it runs. \<open>tk_started\<close> records what was handed to /bin/sh.
\<close>

section \<open>Collecting output\<close>

definition taskOutputLimit :: int where
  "taskOutputLimit = 262144"

record taskOutput =
  to_pending :: string
  to_kept :: int
  to_dropped :: bool

definition no_output :: taskOutput where
  "no_output = \<lparr>to_pending = [], to_kept = 0, to_dropped = False\<rparr>"

definition Write :: "string \<Rightarrow> taskOutput \<Rightarrow> taskOutput" where
  "Write data o' =
     (let keep = min (int (length data)) (taskOutputLimit - to_kept o') in
      o'\<lparr>to_dropped := to_dropped o' \<or> keep < int (length data), to_pending := to_pending o' @ take_int keep data,
         to_kept := to_kept o' + keep\<rparr>)"

text \<open>\<open>wholeCharacters\<close>: from one byte back to four, the first byte that starts a character.\<close>

fun whole_from :: "nat list \<Rightarrow> string \<Rightarrow> nat" where
  "whole_from [] data = length data"
| "whole_from (n # more_back) data =
     (if n > length data then length data
      else let start = length data - n in
        if RuneStart (data ! start) then (if FullRune (drop start data) then length data else start)
        else whole_from more_back data)"

definition wholeCharacters :: "string \<Rightarrow> nat" where
  "wholeCharacters data = whole_from [1, 2, 3, 4] data"

definition take_output :: "bool \<Rightarrow> taskOutput \<Rightarrow> (string \<times> bool) \<times> taskOutput" where
  "take_output at_end o' =
     (let whole = (if at_end then length (to_pending o') else wholeCharacters (to_pending o'))
      in ((drop_nul (ToValidUTF8 (take whole (to_pending o'))), to_dropped o'), o'\<lparr>to_pending := drop whole (to_pending o')\<rparr>))"

section \<open>The runner\<close>

record 's taskClient =
  tc_NextTask :: "string \<Rightarrow> (TaskAssignment, 's) act"
  tc_ReportTask :: "TaskProgress \<Rightarrow> (unit, 's) act"

record 's taskRunner =
  tk_host :: string
  tk_collector :: 's
  tk_loadError :: "error option"
  tk_oldCollector :: bool
  tk_working :: bool
  tk_started :: "(TaskAssignment \<times> Task) list"

definition newTaskRunner :: "string \<Rightarrow> 's \<Rightarrow> 's taskRunner" where
  "newTaskRunner host c = \<lparr>tk_host = host, tk_collector = c, tk_loadError = None, tk_oldCollector = False, tk_working = False, tk_started = []\<rparr>"

definition on_collector :: "('a, 's) act \<Rightarrow> ('a, 's taskRunner) act" where
  "on_collector m r = (case m (tk_collector r) of (x, c) \<Rightarrow> (x, r\<lparr>tk_collector := c\<rparr>))"

text \<open>An error leaves the list nil.\<close>

definition load :: "Task list result \<Rightarrow> 's taskRunner \<Rightarrow> Task list \<times> 's taskRunner" where
  "load file r = (case file of
     Inl e \<Rightarrow> ([], r\<lparr>tk_loadError := Some e\<rparr>)
   | Inr list \<Rightarrow> (list, r\<lparr>tk_loadError := None\<rparr>))"

text \<open>\<open>list\<close>: what the ping tells the collector, with the timeout as an int32, which the limits of a tasks file keep exact.\<close>

definition list_tasks :: "Task list result \<Rightarrow> 's taskRunner \<Rightarrow> Task list \<times> 's taskRunner" where
  "list_tasks file r = (case load file r of (list, r') \<Rightarrow> (map (\<lambda>task. task\<lparr>task_TimeoutSeconds := wrap32 (task_TimeoutSeconds task)\<rparr>) list, r'))"

definition whenIdle :: "('s taskRunner \<Rightarrow> 's taskRunner) \<Rightarrow> 's taskRunner \<Rightarrow> 's taskRunner" where
  "whenIdle f r = (if tk_working r then r else f r)"

definition taskEnv :: "string list \<Rightarrow> string list" where
  "taskEnv environ = filter (\<lambda>entry. \<not> HasPrefix entry ''SYMON_'') environ"

text \<open>\<open>report\<close> with \<open>n + 1\<close> tries left. The last error comes back.\<close>

fun report_tries :: "nat \<Rightarrow> 's taskClient \<Rightarrow> TaskProgress \<Rightarrow> (unit, 's) act" where
  "report_tries n client progress s = (case tc_ReportTask client progress s of
     (Inr _, s') \<Rightarrow> (Inr (), s')
   | (Inl e, s') \<Rightarrow> (case n of
       0 \<Rightarrow> (Inl e, s')
     | Suc k \<Rightarrow> if status_Code (Inl e :: unit result) = NotFound then (Inl e, s') else report_tries k client progress s'))"

declare report_tries.simps [simp del]

definition taskEndTries :: nat where
  "taskEndTries = 5"

definition report :: "'s taskClient \<Rightarrow> TaskProgress \<Rightarrow> nat \<Rightarrow> (unit, 's taskRunner) act" where
  "report client progress tries = on_collector (report_tries (tries - 1) client progress)"

text \<open>How waiting for the process ended: the exit code of its state if there is one, the error of \<open>cmd.Wait\<close>, and
  whether the timeout of the task had passed.\<close>

datatype wait_error = ErrWaitDelay | ExitError int string | WaitError string

record ending =
  en_code :: "int option"
  en_err :: "wait_error option"
  en_deadline :: bool

datatype process_event = Printed string | Ticked | ProcessEnded ending

datatype process = StartFailed string | Started "process_event list"

definition end_progress :: "ending \<Rightarrow> TaskProgress \<Rightarrow> TaskProgress" where
  "end_progress e p0 =
     (let p = p0\<lparr>tp_Done := True, tp_ExitCode := (case en_code e of None \<Rightarrow> - 1 | Some c \<Rightarrow> c)\<rparr> in
      case en_err e of
        None \<Rightarrow> p
      | Some ErrWaitDelay \<Rightarrow> p
      | Some (ExitError c text) \<Rightarrow> if en_deadline e then p\<lparr>tp_TimedOut := True\<rparr> else if c \<ge> 0 then p else p\<lparr>tp_Error := text\<rparr>
      | Some (WaitError text) \<Rightarrow> if en_deadline e then p\<lparr>tp_TimedOut := True\<rparr> else p\<lparr>tp_Error := text\<rparr>)"

definition add_text :: "(string \<times> bool) \<Rightarrow> TaskProgress \<Rightarrow> TaskProgress" where
  "add_text t p = p\<lparr>tp_Output := tp_Output p @ fst t, tp_Truncated := snd t\<rparr>"

text \<open>The loop of \<open>run\<close>: None as long as the process has not ended.\<close>

fun run_loop :: "'s taskClient \<Rightarrow> process_event list \<Rightarrow> taskOutput \<Rightarrow> TaskProgress \<Rightarrow> bool \<Rightarrow> 's taskRunner \<Rightarrow> 's taskRunner option" where
  "run_loop client [] o' progress reporting r = None"
| "run_loop client (Printed data # events) o' progress reporting r = run_loop client events (Write data o') progress reporting r"
| "run_loop client (Ticked # events) o' progress reporting r =
     (let (t, o'') = take_output False o'; p = add_text t progress in
      if reporting \<and> tp_Output p \<noteq> [] then
        (case report client p 1 r of (res, r') \<Rightarrow>
           run_loop client events o'' (if status_Code res = OK then p\<lparr>tp_Output := []\<rparr> else p) (status_Code res \<noteq> NotFound) r')
      else run_loop client events o'' p reporting r)"
| "run_loop client (ProcessEnded e # events) o' progress reporting r =
     (let (t, _) = take_output True o'; p = end_progress e (add_text t progress) in
      Some (if reporting then snd (report client p taskEndTries r) else r))"

definition new_progress :: "TaskAssignment \<Rightarrow> string \<Rightarrow> TaskProgress" where
  "new_progress a host = \<lparr>tp_Id = ta_Id a, tp_ServerName = host, tp_Output = [], tp_Truncated = False, tp_Done = False, tp_ExitCode = 0,
     tp_TimedOut = False, tp_Error = []\<rparr>"

definition refused :: "Task list \<Rightarrow> TaskAssignment \<Rightarrow> string option" where
  "refused list a = (case Find list (ta_Task a) of
     None \<Rightarrow> Some ''this host's tasks file does not list the task any more''
   | Some task \<Rightarrow> if task_Command task \<noteq> ta_Command a then Some ''the task changed on the host, load the page again and check its command'' else None)"

text \<open>\<open>behave\<close> says how a command that is started behaves. The lock is held while \<open>run\<close> works.\<close>

definition run_task ::
  "'s taskClient \<Rightarrow> Task list result \<Rightarrow> (Task \<Rightarrow> process) \<Rightarrow> TaskAssignment \<Rightarrow> 's taskRunner \<Rightarrow> 's taskRunner option" where
  "run_task client file behave a r0 =
     (let (list, r) = load file (r0\<lparr>tk_working := True\<rparr>); progress = new_progress a (tk_host r) in
      map_option (\<lambda>r. r\<lparr>tk_working := False\<rparr>)
       (case refused list a of
          Some why \<Rightarrow> Some (snd (report client (progress\<lparr>tp_Error := why, tp_Done := True, tp_ExitCode := - 1\<rparr>) taskEndTries r))
        | None \<Rightarrow>
            let task = the (Find list (ta_Task a)) in
            (case behave task of
               StartFailed e \<Rightarrow>
                 Some (snd (report client (progress\<lparr>tp_Done := True, tp_ExitCode := - 1, tp_Error := ''cannot start the task: '' @ e\<rparr>) taskEndTries r))
             | Started events \<Rightarrow> run_loop client events no_output progress True (r\<lparr>tk_started := tk_started r @ [(a, task)]\<rparr>))))"

definition taskCheckEvery :: duration where "taskCheckEvery = 30 * Second"
definition taskRetryAfter :: duration where "taskRetryAfter = 15 * Second"
definition taskOldCollector :: duration where "taskOldCollector = 5 * Minute"

text \<open>One step: how long to wait before the next one, and the runner; None while a process goes on. The file is read before
  the collector is asked and again before a command runs.\<close>

definition step_tasks ::
  "'s taskClient \<Rightarrow> Task list result \<Rightarrow> Task list result \<Rightarrow> (Task \<Rightarrow> process) \<Rightarrow> 's taskRunner \<Rightarrow> (duration \<times> 's taskRunner) option" where
  "step_tasks client file file' behave r0 =
     (let (list, r) = load file r0 in
      if list = [] then Some (taskCheckEvery, r)
      else case on_collector (tc_NextTask client (tk_host r)) r of
        (Inr a, r') \<Rightarrow>
          if ta_Id a \<noteq> 0 then map_option (\<lambda>r. (0, r)) (run_task client file' behave a r') else Some (0, r')
      | (Inl e, r') \<Rightarrow>
          if status_Code (Inl e :: unit result) \<in> {Unimplemented, PermissionDenied} then Some (taskOldCollector, r'\<lparr>tk_oldCollector := True\<rparr>)
          else Some (taskRetryAfter, r'))"

section \<open>Whole characters\<close>

lemma lead_starts: "lead c \<noteq> None \<Longrightarrow> RuneStart c"
  by (auto simp: lead_def Let_def RuneStart_def continues_def split: if_splits)

lemma lead_size_le: "lead_size c \<le> 4"
  by (simp add: lead_size_def lead_def Let_def)

lemma is_charE:
  assumes "is_char e"
  obtains c cs sz lo hi where "e = c # cs" "lead c = Some (sz, lo, hi)" "length e = sz" "cs = [] \<or> in_range lo hi (hd cs)" "list_all continues cs"
  using assms by (auto simp: is_char_def split: list.splits option.splits)

text \<open>Going back over continuation bytes finds the byte that starts the last character.\<close>

lemma whole_from_back:
  assumes "list_all continues cs" and "RuneStart c"
  shows "\<lbrakk>map Suc [k..<4] = backs; k \<le> length cs; length cs < 4\<rbrakk> \<Longrightarrow>
    whole_from backs (v @ c # cs) = (if FullRune (c # cs) then length (v @ c # cs) else length v)"
proof (induction backs arbitrary: k)
  case Nil
  then show ?case by simp
next
  case (Cons n backs)
  have "k < 4" using Cons.prems by linarith
  then have upt: "[k..<4] = k # [Suc k..<4]" by (rule upt_conv_Cons)
  with Cons.prems(1) have n: "n = Suc k" "map Suc [Suc k..<4] = backs" by auto
  have start: "length (v @ c # cs) - Suc k = length v + (length cs - k)" using Cons.prems(2) by simp
  show ?case
  proof (cases "k = length cs")
    case True
    then show ?thesis using n assms(2) by (simp add: Let_def)
  next
    case False
    then have k: "k < length cs" using Cons.prems(2) by simp
    let ?d = "v @ c # cs"
    have "?d ! (length ?d - n) = cs ! (length cs - Suc k)"
    proof -
      have "length ?d - n = length v + Suc (length cs - Suc k)" using k by (simp add: n)
      then show ?thesis by (simp only: nth_append_length_plus nth_Cons_Suc)
    qed
    moreover have "continues (cs ! (length cs - Suc k))" using assms(1) k by (simp add: list_all_length)
    ultimately have "\<not> RuneStart (?d ! (length ?d - n))" by (simp add: RuneStart_def)
    then have "whole_from (n # backs) ?d = whole_from backs ?d" using n k by (simp add: Let_def)
    with Cons.IH [of "Suc k"] n(2) k Cons.prems(3) show ?thesis by simp
  qed
qed

lemma wholeCharacters_last:
  assumes "list_all continues cs" and "RuneStart c" and "length cs < 4"
  shows "wholeCharacters (v @ c # cs) = (if FullRune (c # cs) then length (v @ c # cs) else length v)"
proof -
  have "map Suc [0..<4] = [1, 2, 3, 4]" by (simp add: upt_rec)
  with whole_from_back [OF assms(1,2) this] assms(3) show ?thesis by (simp add: wholeCharacters_def)
qed

lemma FullRune_char: "is_char e \<Longrightarrow> FullRune e"
  by (auto simp: is_char_def FullRune_def lead_size_def split: list.splits option.splits)

lemma not_FullRune_prefix:
  assumes "is_char (c # cs @ rest)" and "rest \<noteq> []"
  shows "\<not> FullRune (c # cs)"
  using assms by (cases cs; cases "tl cs") (auto simp: is_char_def FullRune_def lead_size_def split: option.splits)

text \<open>A beginning of a valid text is whole characters and the beginning of one more.\<close>

lemma valid_prefix:
  assumes "valid_utf8 s" and "s = x @ y"
  shows "\<exists>v p. x = v @ p \<and> valid_utf8 v \<and> (p = [] \<or> (\<exists>q. q \<noteq> [] \<and> is_char (p @ q)))"
  using assms
proof (induction arbitrary: x rule: valid_utf8.induct)
  case valid_Nil
  then show ?case by (auto intro: valid_utf8.intros)
next
  case (valid_char e s)
  show ?case
  proof (cases "length e \<le> length x")
    case True
    with valid_char.prems obtain x' where x': "x = e @ x'" "s = x' @ y" by (auto simp: append_eq_append_conv2)
    from valid_char.IH [OF x'(2)] obtain v p where "x' = v @ p" "valid_utf8 v" "p = [] \<or> (\<exists>q. q \<noteq> [] \<and> is_char (p @ q))" by blast
    then show ?thesis using x'(1) valid_utf8.valid_char [OF valid_char.hyps(1)] by (intro exI [of _ "e @ v"] exI [of _ p]) auto
  next
    case False
    then obtain q where "e = x @ q" "q \<noteq> []" using valid_char.prems by (auto simp: append_eq_append_conv2)
    then show ?thesis using valid_char.hyps(1) by (intro exI [of _ "[]"] exI [of _ x]) (auto intro: valid_utf8.intros)
  qed
qed

lemma valid_last_char:
  assumes "valid_utf8 v" and "v \<noteq> []"
  shows "\<exists>u e. v = u @ e \<and> is_char e \<and> valid_utf8 u"
  using assms
proof (induction rule: valid_utf8.induct)
  case (valid_char e s)
  show ?case
  proof (cases "s = []")
    case True
    with valid_char.hyps(1) show ?thesis by (intro exI [of _ "[]"] exI [of _ e]) (auto intro: valid_utf8.intros)
  next
    case False
    with valid_char.IH obtain u e' where "s = u @ e'" "is_char e'" "valid_utf8 u" by blast
    then show ?thesis using valid_utf8.valid_char [OF valid_char.hyps(1)] by (intro exI [of _ "e @ u"] exI [of _ e']) auto
  qed
qed simp

lemma wholeCharacters_valid:
  assumes "valid_utf8 (x @ y)"
  shows "valid_utf8 (take (wholeCharacters x) x)"
proof -
  from valid_prefix [OF assms refl] obtain v p where x: "x = v @ p" and v: "valid_utf8 v" and p: "p = [] \<or> (\<exists>q. q \<noteq> [] \<and> is_char (p @ q))" by blast
  show ?thesis
  proof (cases "p = []")
    case True
    show ?thesis
    proof (cases "v = []")
      case True
      with x \<open>p = []\<close> show ?thesis by (simp add: valid_utf8.intros)
    next
      case False
      from valid_last_char [OF v False] obtain u e where e: "v = u @ e" "is_char e" by blast
      from e(2) obtain c cs where c: "e = c # cs" "list_all continues cs" "RuneStart c" "length cs < 4"
        by (rule is_charE) (metis lead_starts lead_size_le is_char_lead_size e(2) Suc_le_eq option.distinct(1))
      have "wholeCharacters x = length x"
        using wholeCharacters_last [OF c(2,3,4), of u] FullRune_char [OF e(2)] by (simp add: x e(1) c(1) True)
      with x True v show ?thesis by simp
    qed
  next
    case False
    with p obtain q where q: "q \<noteq> []" "is_char (p @ q)" by blast
    from False obtain c cs where pc: "p = c # cs" by (cases p) auto
    from q(2) have "list_all continues (cs @ q)" "RuneStart c" "length (cs @ q) < 4"
      unfolding pc by (auto elim!: is_charE intro: lead_starts) (metis lead_size_le is_char_lead_size q(2) pc append_Cons length_append Suc_le_eq)
    then have "list_all continues cs" "length cs < 4" "RuneStart c" by auto
    moreover have "\<not> FullRune (c # cs)" using not_FullRune_prefix q by (metis pc append_Cons)
    ultimately have "wholeCharacters x = length v" using wholeCharacters_last [of cs c v] by (simp add: x pc)
    with x v show ?thesis by simp
  qed
qed


lemma is_char_prefix_eq:
  assumes "is_char e" and "is_char e'" and "e @ s = e' @ s'"
  shows "e = e'"
proof -
  obtain c cs where e: "e = c # cs" using is_char_not_Nil [OF assms(1)] by (cases e) auto
  obtain c' cs' where e': "e' = c' # cs'" using is_char_not_Nil [OF assms(2)] by (cases e') auto
  have "c = c'" using assms(3) by (simp add: e e')
  then have "length e = length e'" using is_char_lead_size assms(1,2) by (simp add: e e') (metis Suc_inject)
  with assms(3) show ?thesis by simp
qed

lemma valid_char_cancel:
  assumes "is_char e" and "valid_utf8 (e @ s)"
  shows "valid_utf8 s"
  using assms(2)
proof (cases rule: valid_utf8.cases)
  case valid_Nil
  then show ?thesis by (simp add: valid_utf8.intros)
next
  case (valid_char e' s')
  with is_char_prefix_eq [OF assms(1) valid_char(2) valid_char(1)] show ?thesis by simp
qed

lemma valid_cancel: "valid_utf8 a \<Longrightarrow> valid_utf8 (a @ b) \<Longrightarrow> valid_utf8 b"
  by (induction rule: valid_utf8.induct) (auto dest: valid_char_cancel)

text \<open>NUL is a character of one byte, so leaving it out breaks no other.\<close>

lemma nul_not_in_char: "is_char e \<Longrightarrow> e = [CHR 0x00] \<or> CHR 0x00 \<notin> set e"
proof (elim is_charE)
  fix c cs sz lo hi
  assume e: "e = c # cs" "lead c = Some (sz, lo, hi)" "length e = sz" "list_all continues cs"
  have "\<not> continues (CHR 0x00)" by code_simp
  then have cs: "CHR 0x00 \<notin> set cs" using e(4) by (auto simp: list_all_iff)
  have "lead (CHR 0x00) = Some (1, 0, 0)" by code_simp
  then show ?thesis using e cs by (cases "c = CHR 0x00") auto
qed

lemma drop_nul_id: "CHR 0x00 \<notin> set s \<Longrightarrow> drop_nul s = s"
  by (induction s) (auto simp: drop_nul_def)

lemma drop_nul_valid: "valid_utf8 s \<Longrightarrow> valid_utf8 (drop_nul s)"
proof (induction rule: valid_utf8.induct)
  case valid_Nil
  show ?case by (simp add: drop_nul_def valid_utf8.intros)
next
  case (valid_char e s)
  from nul_not_in_char [OF valid_char.hyps(1)] show ?case
  proof
    assume "e = [CHR 0x00]"
    with valid_char.IH show ?thesis by (simp add: drop_nul_def)
  next
    assume "CHR 0x00 \<notin> set e"
    then have "drop_nul e = e" by (rule drop_nul_id)
    with valid_char show ?thesis by (simp add: valid_utf8.valid_char)
  qed
qed

section \<open>Output\<close>

lemma take_output_end:
  assumes "valid_utf8 (to_pending o')"
  shows "take_output True o' = ((drop_nul (to_pending o'), to_dropped o'), o'\<lparr>to_pending := []\<rparr>)"
  using assms by (simp add: take_output_def ToValidUTF8_valid)

lemma take_output_step:
  assumes "valid_utf8 (to_pending o' @ future)" and "take_output False o' = ((text, dropped), o'')"
  shows "text @ drop_nul (to_pending o'') = drop_nul (to_pending o')" and "valid_utf8 text"
    and "valid_utf8 (to_pending o'' @ future)" and "to_kept o'' = to_kept o'" and "to_dropped o'' = to_dropped o'" and "dropped = to_dropped o'"
proof -
  let ?p = "to_pending o'" and ?n = "wholeCharacters (to_pending o')"
  have v: "valid_utf8 (take ?n ?p)" by (rule wholeCharacters_valid [OF assms(1)])
  have t: "text = drop_nul (take ?n ?p)" "o'' = o'\<lparr>to_pending := drop ?n ?p\<rparr>" "dropped = to_dropped o'"
    using assms(2) v by (auto simp: take_output_def Let_def ToValidUTF8_valid)
  show "text @ drop_nul (to_pending o'') = drop_nul ?p" by (simp add: t flip: drop_nul_append)
  show "valid_utf8 text" by (simp add: t drop_nul_valid v)
  have "valid_utf8 (take ?n ?p @ (drop ?n ?p @ future))" using assms(1) by (simp flip: append_assoc)
  then show "valid_utf8 (to_pending o'' @ future)" using valid_cancel [OF v] by (simp add: t)
qed (use assms(2) in \<open>auto simp: take_output_def Let_def\<close>)

lemma Write_fits:
  assumes "to_kept o' + int (length data) \<le> taskOutputLimit"
  shows "Write data o' = o'\<lparr>to_pending := to_pending o' @ data, to_kept := to_kept o' + int (length data)\<rparr>"
  using assms by (simp add: Write_def Let_def take_int_take min_def)

end
