(* ===== verification/TaskSystem.thy ===== *)
theory TaskSystem
  imports AgentTasks
begin

text \<open>
  The agent's tasks and the collector's handlers put together: the collector seen through the agent's client
  interface, what an agent starts, and how what a command prints gets into the database.
\<close>

section \<open>The collector as the agent sees it\<close>

text \<open>
  The agent's client, on the collector's own handlers. The state is the number of the call and the collector;
  \<open>clock\<close> gives the time of each call, \<open>others\<close> is what happens at the collector before it, and
  \<open>meanwhile\<close> and \<open>waits\<close> say how the wait in \<open>NextTask\<close> goes.
\<close>

definition collector_client ::
  "(nat \<Rightarrow> time) \<Rightarrow> (nat \<Rightarrow> collector \<Rightarrow> collector) \<Rightarrow> (nat \<Rightarrow> collector \<Rightarrow> collector) \<Rightarrow> (nat \<Rightarrow> waited) \<Rightarrow> string \<Rightarrow> (nat \<times> collector) taskClient" where
  "collector_client clock others meanwhile waits host =
     \<lparr>tc_NextTask = (\<lambda>name (n, c). case NextTask (clock n) (clock (Suc n)) (meanwhile n) (waits n) (Some host) name (others n c) of
         (r, c') \<Rightarrow> (r, (Suc (Suc n), c'))),
      tc_ReportTask = (\<lambda>p (n, c). case ReportTask (clock n) (Some host) p (others n c) of (r, c') \<Rightarrow> (r, (Suc n, c')))\<rparr>"

definition run_rows :: "int \<Rightarrow> db \<Rightarrow> run_row list" where
  "run_rows i s = filter (\<lambda>r. t_id r = i) (db_runs (tabs s))"

text \<open>What others do leaves a run and its host alone.\<close>

definition leaves_run :: "int \<Rightarrow> string \<Rightarrow> (nat \<Rightarrow> collector \<Rightarrow> collector) \<Rightarrow> bool" where
  "leaves_run i host others \<longleftrightarrow> (\<forall>n c. run_rows i (co_db (others n c)) = run_rows i (co_db c) \<and>
     host_named (tabs (co_db (others n c))) host = host_named (tabs (co_db c)) host \<and> set (db_net (co_db (others n c))) \<subseteq> set (db_net (co_db c)))"

definition no_answer_lost :: "db \<Rightarrow> bool" where
  "no_answer_lost s \<longleftrightarrow> (\<forall>m. Lost m \<notin> set (db_net s))"

text \<open>The run is there, going, and \<open>r\<close> is its row; when a statement fails, it did not run.\<close>

definition on_row :: "int \<Rightarrow> string \<Rightarrow> run_row \<Rightarrow> db \<Rightarrow> bool" where
  "on_row i host r s \<longleftrightarrow> run_rows i s = [r] \<and> of_host (tabs s) host r \<and> no_answer_lost s"

lemma nothing [simp]: "drop_nul [] = []" "valid_utf8 []"
  by (simp_all add: drop_nul_def valid_utf8.intros)

lemma filter_update_where:
  assumes "filter P rs = [r]" and "\<And>x. Q x \<Longrightarrow> P x \<and> P (f x)"
  shows "filter P (update_where Q f rs) = [if Q r then f r else r]"
  using assms
proof (induction rs)
  case (Cons a rs)
  have none: "filter P (update_where Q f xs) = []" if "filter P xs = []" for xs
    using that Cons.prems(2) by (induction xs) (auto split: if_splits)
  show ?case using Cons none [of rs] by (cases "P a") (auto split: if_splits)
qed simp

lemma update_going_effect:
  assumes "on_row i host r s" and "t_status r = TaskRunning" and "\<And>x. t_id (f x) = t_id x" and "\<And>x. t_host_id (f x) = t_host_id x"
    and "update_going host i f s = (res, s')"
  shows "on_row i host (if res = Inr () then f r else r) s' \<and> (res = Inr () \<or> (\<exists>m. res = Inl (ErrDB m)) \<and> db_net s \<noteq> []) \<and>
    set (db_net s') \<subseteq> set (db_net s)"
proof -
  let ?u = "\<lambda>t. (rows_affected (going t host i) (db_runs t), t\<lparr>db_runs := update_where (going t host i) f (db_runs t)\<rparr>)"
  have row: "filter (\<lambda>r. t_id r = i) (db_runs (tabs s)) = [r]" and of: "of_host (tabs s) host r"
    using assms(1) by (auto simp: on_row_def run_rows_def)
  then have "r \<in> set (db_runs (tabs s))" "t_id r = i" by (auto dest: filter_singleD)
  with assms(2) of have g: "going (tabs s) host i r" "rows_affected (going (tabs s) host i) (db_runs (tabs s)) \<noteq> 0"
    by (auto simp: going_def rows_affected_zero)
  have upd: "filter (\<lambda>r. t_id r = i) (update_where (going (tabs s) host i) f (db_runs (tabs s))) = [f r]"
    using filter_update_where [OF row, of "going (tabs s) host i" f] g(1) by (auto simp: going_def assms(3))
  have of': "of_host (tabs s\<lparr>db_runs := x\<rparr>) host y = of_host (tabs s) host y" for x y by (simp add: of_host_def host_named_def)
  have off: "of_host (tabs s) host (f r)" using of by (simp add: of_host_def assms(4) split: option.splits)
  show ?thesis
  proof (cases "db_net s")
    case Nil
    then show ?thesis using assms(1,5) g(2) upd of' off
      by (auto simp: update_going_def exec_def dbcall_def bindE_def on_row_def run_rows_def no_answer_lost_def)
  next
    case (Cons oc rest)
    show ?thesis
    proof (cases oc)
      case Done
      then show ?thesis using Cons assms(1,5) g(2) upd of' off
        by (auto simp: update_going_def exec_def dbcall_def bindE_def on_row_def run_rows_def no_answer_lost_def set_net_def)
    next
      case (Failed m)
      then show ?thesis using Cons assms(1,5)
        by (auto simp: update_going_def exec_def dbcall_def bindE_def on_row_def run_rows_def no_answer_lost_def set_net_def)
    next
      case (Lost m)
      then show ?thesis using Cons assms(1) by (auto simp: on_row_def no_answer_lost_def)
    qed
  qed
qed


definition progress_update :: "time \<Rightarrow> TaskProgress \<Rightarrow> run_row \<Rightarrow> run_row" where
  "progress_update now p = (if tp_Done p then finish_run now (result_of_progress p) else add_output (cleanText (tp_Output p)) (tp_Truncated p))"

lemma progress_update_row [simp]: "t_id (progress_update now p r) = t_id r" "t_host_id (progress_update now p r) = t_host_id r"
  by (simp_all add: progress_update_def finish_run_def add_output_def end_run_def)

lemma toStatus_db: "\<exists>c e. toStatus (ErrDB m) = ErrStatus c e \<and> c \<notin> {NotFound, OK}"
  by (simp add: toStatus_def)

lemma ReportTask_effect:
  assumes "on_row (tp_Id p) host r (co_db c)" and "t_status r = TaskRunning" and "ReportTask now (Some host) p c = (res, c')"
  shows "on_row (tp_Id p) host (if res = Inr () then progress_update now p r else r) (co_db c') \<and>
    (res = Inr () \<or> status_Code res \<notin> {NotFound, OK} \<and> db_net (co_db c) \<noteq> []) \<and> set (db_net (co_db c')) \<subseteq> set (db_net (co_db c))"
proof -
  obtain res1 s1 where u: "update_going host (tp_Id p) (progress_update now p) (co_db c) = (res1, s1)"
    by (cases "update_going host (tp_Id p) (progress_update now p) (co_db c)")
  note e = update_going_effect [OF assms(1,2) progress_update_row(1,2) u]
  have "ReportTask now (Some host) p c =
      (case res1 of Inl e \<Rightarrow> (Inl (if errors_Is e ErrNotFound then ErrStatus NotFound (err_text ''this run is not going any more'') else toStatus e), c\<lparr>co_db := s1\<rparr>)
       | Inr a \<Rightarrow> (Inr a, c\<lparr>co_db := s1\<rparr>))"
    using u by (auto simp: ReportTask_def call_host_def map_err_def on_db_def progress_update_def FinishTaskRun_def AppendTaskOutput_def Let_def split: sum.splits if_splits)
  with assms(3) have "(res, c') = (case res1 of Inl e \<Rightarrow> (Inl (if errors_Is e ErrNotFound then ErrStatus NotFound (err_text ''this run is not going any more'') else toStatus e), c\<lparr>co_db := s1\<rparr>)
       | Inr a \<Rightarrow> (Inr a, c\<lparr>co_db := s1\<rparr>))" by simp
  with e show ?thesis using toStatus_db by (auto split: sum.splits) (metis status_Code.simps(2))+
qed

lemma leaves_on_row: "leaves_run i host others \<Longrightarrow> on_row i host r (co_db c) \<Longrightarrow> on_row i host r (co_db (others n c))"
  by (auto simp: leaves_run_def on_row_def no_answer_lost_def of_host_def)

lemma leaves_net: "leaves_run i host others \<Longrightarrow> set (db_net (co_db (others n c))) \<subseteq> set (db_net (co_db c))"
  by (simp add: leaves_run_def)

lemma client_report_effect:
  assumes "leaves_run (tp_Id p) host others" and "t_status r = TaskRunning" and "on_row (tp_Id p) host r (co_db (snd s))"
    and "tc_ReportTask (collector_client clock others meanwhile waits host) p s = (res, s')"
  shows "\<exists>now. on_row (tp_Id p) host (if res = Inr () then progress_update now p r else r) (co_db (snd s')) \<and>
    (res = Inr () \<or> status_Code res \<notin> {NotFound, OK} \<and> db_net (co_db (snd s)) \<noteq> []) \<and> set (db_net (co_db (snd s'))) \<subseteq> set (db_net (co_db (snd s)))"
proof -
  obtain n c where s: "s = (n, c)" by (cases s)
  obtain res1 c1 where r1: "ReportTask (clock n) (Some host) p (others n c) = (res1, c1)" by (cases "ReportTask (clock n) (Some host) p (others n c)")
  have out: "res = res1" "snd s' = c1" using assms(4) by (auto simp: s r1 collector_client_def)
  have "on_row (tp_Id p) host r (co_db (others n c))" using leaves_on_row [OF assms(1)] assms(3) by (simp add: s)
  from ReportTask_effect [OF this assms(2) r1] leaves_net [OF assms(1), of n c] show ?thesis unfolding out s snd_conv
    by (intro exI [of _ "clock n"]) (auto simp: subset_empty)
qed

lemma report_effect:
  assumes "leaves_run (tp_Id p) host others" and "t_status r = TaskRunning"
    and "report_tries k (collector_client clock others meanwhile waits host) p s = (res, s')" and "on_row (tp_Id p) host r (co_db (snd s))"
  shows "\<exists>now. on_row (tp_Id p) host (if res = Inr () then progress_update now p r else r) (co_db (snd s')) \<and>
    (res = Inr () \<or> status_Code res \<notin> {NotFound, OK} \<and> db_net (co_db (snd s)) \<noteq> []) \<and> set (db_net (co_db (snd s'))) \<subseteq> set (db_net (co_db (snd s)))"
  using assms(3,4)
proof (induction k arbitrary: s)
  case (0 s)
  obtain res1 s1 where c: "tc_ReportTask (collector_client clock others meanwhile waits host) p s = (res1, s1)"
    by (cases "tc_ReportTask (collector_client clock others meanwhile waits host) p s")
  have "res = res1" "s' = s1" using "0.prems"(1) c by (auto simp: report_tries.simps split: sum.splits)
  with client_report_effect [OF assms(1,2) "0.prems"(2) c] show ?case by simp
next
  case (Suc k s)
  obtain res1 s1 where c: "tc_ReportTask (collector_client clock others meanwhile waits host) p s = (res1, s1)"
    by (cases "tc_ReportTask (collector_client clock others meanwhile waits host) p s")
  note e = client_report_effect [OF assms(1,2) Suc.prems(2) c]
  show ?case
  proof (cases res1)
    case (Inr u)
    then have "res = res1" "s' = s1" using Suc.prems(1) c by (auto simp: report_tries.simps)
    with e show ?thesis by simp
  next
    case (Inl x)
    with e have x: "status_Code (Inl x :: unit result) \<noteq> NotFound" "on_row (tp_Id p) host r (co_db (snd s1))" "db_net (co_db (snd s)) \<noteq> []"
      "set (db_net (co_db (snd s1))) \<subseteq> set (db_net (co_db (snd s)))" by auto
    then have "report_tries k (collector_client clock others meanwhile waits host) p s1 = (res, s')"
      using Suc.prems(1) c Inl by (simp add: report_tries.simps [of "Suc k"])
    from Suc.IH [OF this x(2)] x(3,4) show ?thesis by blast
  qed
qed

section \<open>What a command printed\<close>

fun printed :: "process_event list \<Rightarrow> string" where
  "printed [] = []"
| "printed (Printed data # events) = data @ printed events"
| "printed (Ticked # events) = printed events"
| "printed (ProcessEnded e # events) = []"

fun process_ending :: "process_event list \<Rightarrow> ending option" where
  "process_ending [] = None"
| "process_ending (ProcessEnded e # events) = Some e"
| "process_ending (_ # events) = process_ending events"

text \<open>How the row of a run and what the agent holds make up what was printed so far.\<close>

definition in_step :: "run_row \<Rightarrow> TaskProgress \<Rightarrow> taskOutput \<Rightarrow> string \<Rightarrow> string \<Rightarrow> bool" where
  "in_step r p o' whole future \<longleftrightarrow>
     t_output r @ tp_Output p @ drop_nul (to_pending o' @ future) = drop_nul whole \<and> int (length whole) \<le> TaskOutputLimit \<and>
     valid_utf8 (t_output r) \<and> valid_utf8 (tp_Output p) \<and> valid_utf8 (to_pending o' @ future) \<and>
     \<not> to_dropped o' \<and> to_kept o' + int (length future) \<le> taskOutputLimit \<and> \<not> t_truncated r"

lemma text_left_all:
  assumes "valid_utf8 x" and "int (length x) \<le> n"
  shows "text_left n x = x"
proof -
  have "RuneCount x \<le> nat n" using assms(2) runes_length [of x] by (simp add: RuneCount_def)
  then have "take (nat n) (runes x) = runes x" by (simp add: RuneCount_def)
  moreover have "concat (map rune_bytes (runes x)) = x" using assms(1)
    by (induction rule: valid_utf8.induct) (simp_all add: runes_char rune_bytes_def)
  ultimately show ?thesis by (simp add: text_left_cut cut_runes_def)
qed

text \<open>A report that arrives moves the agent's output to the row, whole.\<close>

lemma add_output_fits:
  assumes "in_step r p o' whole future" and "x = tp_Output p"
  shows "add_output (cleanText x) False r = r\<lparr>t_output := t_output r @ x\<rparr>"
proof -
  have w: "t_output r @ x @ drop_nul (to_pending o' @ future) = drop_nul whole" "int (length whole) \<le> TaskOutputLimit"
    and v: "valid_utf8 x" "\<not> t_truncated r" using assms by (auto simp: in_step_def)
  have "CHR 0x00 \<notin> set (drop_nul whole)" by simp
  then have x: "cleanText x = x" using w(1) by (metis Un_iff cleanText_def drop_nul_id set_append)
  have "length (t_output r) + length x \<le> length (drop_nul whole)" using w(1) by (metis add.assoc le_add1 length_append)
  then have len: "int (length (t_output r)) + int (length x) \<le> TaskOutputLimit" using w(2) length_drop_nul [of whole] by linarith
  have rc: "text_length (t_output r) \<le> int (length (t_output r))" "text_length x \<le> int (length x)"
    by (simp_all add: text_length_def RuneCount_def runes_length)
  then have "text_left (TaskOutputLimit - text_length (t_output r)) x = x" using len by (intro text_left_all v) linarith
  with rc len v(2) show ?thesis by (simp add: add_output_def x)
qed


definition run_status :: "ending \<Rightarrow> string" where
  "run_status e = status_of_result (result_of_progress (end_progress e (new_progress no_assignment [])))"

definition run_exit :: "ending \<Rightarrow> int" where
  "run_exit e = (case en_code e of None \<Rightarrow> - 1 | Some c \<Rightarrow> c)"

text \<open>The state of a report that only adds output.\<close>

definition only_output :: "int \<Rightarrow> TaskProgress \<Rightarrow> bool" where
  "only_output i p \<longleftrightarrow> tp_Id p = i \<and> \<not> tp_Done p \<and> \<not> tp_TimedOut p \<and> tp_Error p = [] \<and> \<not> tp_Truncated p"

lemma end_progress_of:
  assumes "only_output i p"
  shows "tp_Id (end_progress e p) = i" "tp_Done (end_progress e p)" "tp_Output (end_progress e p) = tp_Output p"
    "tp_Truncated (end_progress e p) = False" "tp_ExitCode (end_progress e p) = run_exit e"
    "status_of_result (result_of_progress (end_progress e p)) = run_status e"
  using assms
  by (auto simp: only_output_def end_progress_def run_exit_def run_status_def status_of_result_def result_of_progress_def new_progress_def
    no_assignment_def Let_def split: option.splits wait_error.splits)

lemma add_text_of: "only_output i p \<Longrightarrow> only_output i (add_text (text, False) p)" "tp_Output (add_text (text, d) p) = tp_Output p @ text"
  by (simp_all add: only_output_def add_text_def)

definition run_ended :: "run_row \<Rightarrow> ending \<Rightarrow> string \<Rightarrow> bool" where
  "run_ended r e whole \<longleftrightarrow> t_status r = run_status e \<and> t_exit_code r = Some (run_exit e) \<and> t_output r = drop_nul whole \<and> \<not> t_truncated r"

lemma finish_step:
  assumes "only_output i p" and "in_step r p o' whole []" and "to_pending o' = []"
  shows "run_ended (progress_update now (end_progress e p) r) e whole"
proof -
  note p = end_progress_of [OF assms(1), of e]
  have "add_output (cleanText (tp_Output p)) False r = r\<lparr>t_output := t_output r @ tp_Output p\<rparr>"
    by (rule add_output_fits [OF assms(2) refl])
  moreover have "t_output r @ tp_Output p = drop_nul whole" "\<not> t_truncated r"
    using assms(2,3) by (auto simp: in_step_def drop_nul_def)
  ultimately show ?thesis using p
    by (auto simp: run_ended_def progress_update_def finish_run_def end_run_def result_of_progress_def)
qed

lemma in_step_take:
  assumes "in_step r p o' whole future" and "take_output False o' = ((text, dropped), o'')"
  shows "in_step r (add_text (text, dropped) p) o'' whole future" and "dropped = False"
proof -
  have v: "valid_utf8 (to_pending o' @ future)" using assms(1) by (simp add: in_step_def)
  note t = take_output_step [OF v assms(2)]
  show "dropped = False" using t(6) assms(1) by (simp add: in_step_def)
  have "drop_nul (to_pending o' @ future) = text @ drop_nul (to_pending o'' @ future)" by (simp flip: t(1))
  then show "in_step r (add_text (text, dropped) p) o'' whole future"
    using assms(1) t(2-5) by (auto simp: in_step_def add_text_of(2) simp del: drop_nul_append intro: valid_utf8_append)
qed

lemma in_step_report:
  assumes "in_step r p o' whole future"
  shows "in_step (r\<lparr>t_output := t_output r @ tp_Output p\<rparr>) (p\<lparr>tp_Output := []\<rparr>) o' whole future"
  using assms by (auto simp: in_step_def intro: valid_utf8_append valid_utf8.intros)

lemma run_loop_output:
  assumes "leaves_run i host others"
  shows "\<lbrakk>run_loop (collector_client clock others meanwhile waits host) events o' p True rn = Some rn';
    on_row i host r (co_db (snd (tk_collector rn))); t_status r = TaskRunning; in_step r p o' whole (printed events); only_output i p\<rbrakk>
   \<Longrightarrow> \<exists>r' e. process_ending events = Some e \<and> run_rows i (co_db (snd (tk_collector rn'))) = [r'] \<and>
      (run_ended r' e whole \<or> t_status r' = TaskRunning \<and> db_net (co_db (snd (tk_collector rn))) \<noteq> [] \<and> (\<exists>tail. t_output r' @ tail = drop_nul whole))"
proof (induction events arbitrary: o' p rn r)
  case Nil
  then show ?case by simp
next
  case (Cons ev events)
  let ?cl = "collector_client clock others meanwhile waits host"
  show ?case
  proof (cases ev)
    case (Printed data)
    have fits: "to_kept o' + int (length data) \<le> taskOutputLimit" using Cons.prems(4) by (simp add: in_step_def Printed)
    have "in_step r p (Write data o') whole (printed events)"
      using Cons.prems(4) by (simp add: in_step_def Printed Write_fits [OF fits])
    from Cons.IH [OF _ Cons.prems(2,3) this Cons.prems(5)] Cons.prems(1) show ?thesis by (simp add: Printed)
  next
    case Ticked
    obtain tx dropped o2 where t: "take_output False o' = ((tx, dropped), o2)" by (metis prod.collapse)
    let ?p = "add_text (tx, False) p"
    have st: "in_step r ?p o2 whole (printed events)" and d: "dropped = False"
      using in_step_take [OF _ t, of r p whole "printed events"] Cons.prems(4) by (simp_all add: Ticked)
    have oo: "only_output i ?p" by (rule add_text_of(1) [OF Cons.prems(5)])
    show ?thesis
    proof (cases "tp_Output ?p = []")
      case True
      with Cons.prems(1) t d have "run_loop ?cl events o2 ?p True rn = Some rn'" by (simp add: Ticked)
      from Cons.IH [OF this Cons.prems(2,3) st oo] show ?thesis by (simp add: Ticked)
    next
      case False
      obtain res c2 where rep: "report_tries 0 ?cl ?p (tk_collector rn) = (res, c2)" by (cases "report_tries 0 ?cl ?p (tk_collector rn)")
      have pi: "tp_Id ?p = i" "\<not> tp_Done ?p" "\<not> tp_Truncated ?p" using oo by (simp_all add: only_output_def)
      from report_effect [OF _ Cons.prems(3) rep] assms Cons.prems(2) pi(1) obtain now where
        e: "on_row i host (if res = Inr () then progress_update now ?p r else r) (co_db (snd c2))"
        "res = Inr () \<or> status_Code res \<notin> {NotFound, OK}" "set (db_net (co_db (snd c2))) \<subseteq> set (db_net (co_db (snd (tk_collector rn))))" by auto
      let ?p' = "if status_Code res = OK then ?p\<lparr>tp_Output := []\<rparr> else ?p" and ?r = "if res = Inr () then progress_update now ?p r else r"
      have "run_loop ?cl events o2 ?p' True (rn\<lparr>tk_collector := c2\<rparr>) = Some rn'"
        using Cons.prems(1) t d False rep e(2) by (auto simp: Ticked report_def on_collector_def)
      moreover have "progress_update now ?p r = r\<lparr>t_output := t_output r @ tp_Output ?p\<rparr>"
        using add_output_fits [OF st refl] pi by (simp add: progress_update_def)
      then have "in_step ?r ?p' o2 whole (printed events)" "t_status ?r = TaskRunning" "only_output i ?p'"
        using st in_step_report [OF st] e(2) Cons.prems(3) oo by (auto simp: only_output_def)
      moreover have "on_row i host ?r (co_db (snd (tk_collector (rn\<lparr>tk_collector := c2\<rparr>))))" using e(1) by simp
      ultimately have "\<exists>r' e. process_ending events = Some e \<and> run_rows i (co_db (snd (tk_collector rn'))) = [r'] \<and>
        (run_ended r' e whole \<or> t_status r' = TaskRunning \<and> db_net (co_db (snd c2)) \<noteq> [] \<and> (\<exists>tail. t_output r' @ tail = drop_nul whole))"
        using Cons.IH [of o2 ?p' "rn\<lparr>tk_collector := c2\<rparr>" ?r] by simp
      with e(3) show ?thesis by (auto simp: Ticked)
    qed
  next
    case (ProcessEnded e)
    have v: "valid_utf8 (to_pending o')" "to_dropped o' = False" using Cons.prems(4) by (simp_all add: in_step_def ProcessEnded)
    let ?p = "add_text (drop_nul (to_pending o'), False) p" and ?o = "o'\<lparr>to_pending := []\<rparr>"
    have t: "take_output True o' = ((drop_nul (to_pending o'), False), ?o)" using take_output_end [OF v(1)] v(2) by simp
    have st: "in_step r ?p ?o whole []"
      using Cons.prems(4) by (auto simp: in_step_def ProcessEnded add_text_of(2) intro: valid_utf8_append drop_nul_valid)
    have oo: "only_output i ?p" by (rule add_text_of(1) [OF Cons.prems(5)])
    note pe = end_progress_of [OF oo, of e]
    obtain res c2 where rep: "report_tries (taskEndTries - 1) ?cl (end_progress e ?p) (tk_collector rn) = (res, c2)"
      by (cases "report_tries (taskEndTries - 1) ?cl (end_progress e ?p) (tk_collector rn)")
    have rn': "rn' = rn\<lparr>tk_collector := c2\<rparr>" using Cons.prems(1) t rep by (simp add: ProcessEnded report_def on_collector_def)
    from report_effect [OF _ Cons.prems(3) rep] assms Cons.prems(2) pe(1) obtain now where
      eff: "on_row i host (if res = Inr () then progress_update now (end_progress e ?p) r else r) (co_db (snd c2))"
      "res = Inr () \<or> db_net (co_db (snd (tk_collector rn))) \<noteq> []" by auto
    show ?thesis
    proof (cases "res = Inr ()")
      case True
      with eff(1) finish_step [OF oo st] rn' show ?thesis by (auto simp: on_row_def ProcessEnded)
    next
      case False
      have "\<exists>tail. t_output r @ tail = drop_nul whole" using Cons.prems(4) by (auto simp: in_step_def)
      with False eff rn' Cons.prems(3) show ?thesis by (auto simp: on_row_def ProcessEnded)
    qed
  qed
qed


section \<open>What an agent starts\<close>

text \<open>
  The part of the contract of a collector that the agent relies on: an assignment with a number was handed out, in the sense
  of \<open>handed_out\<close>, in the state after the call.
\<close>

locale task_collector =
  fixes client :: "'s taskClient"
    and handed_out :: "'s \<Rightarrow> TaskAssignment \<Rightarrow> bool"
  assumes NextTask_hands_out: "tc_NextTask client name s = (Inr a, s') \<Longrightarrow> ta_Id a \<noteq> 0 \<Longrightarrow> handed_out s' a"
begin

lemma started_report: "tk_started (snd (report client p n r)) = tk_started r"
  by (simp add: report_def on_collector_def split: prod.splits)

lemma started_loop: "run_loop client events o' p reporting r = Some r' \<Longrightarrow> tk_started r' = tk_started r"
proof (induction events arbitrary: o' p reporting r)
  case (Cons ev events)
  show ?case
  proof (cases ev)
    case (Printed data)
    with Cons show ?thesis by simp
  next
    case Ticked
    obtain t o2 where t: "take_output False o' = (t, o2)" by (cases "take_output False o'")
    obtain res r2 where rep: "report client (add_text t p) 1 r = (res, r2)" by (cases "report client (add_text t p) 1 r")
    have "tk_started r2 = tk_started r" using started_report [of "add_text t p" 1 r] rep by simp
    moreover have "\<exists>p' b r1. run_loop client events o2 p' b r1 = Some r' \<and> (r1 = r \<or> r1 = r2)"
      using Cons.prems t rep by (auto simp: Ticked Let_def split: if_splits)
    ultimately show ?thesis using Cons.IH by metis
  next
    case (ProcessEnded e)
    with Cons.prems show ?thesis by (auto simp: Let_def started_report split: prod.splits if_splits)
  qed
qed simp

lemma started_run:
  assumes "run_task client file behave a r = Some r'"
  shows "tk_started r' = tk_started r \<or>
    (\<exists>tasks task. file = Inr tasks \<and> task \<in> set tasks \<and> task_Name task = ta_Task a \<and> task_Command task = ta_Command a \<and>
      tk_started r' = tk_started r @ [(a, task)])"
proof -
  obtain tl r1 where ld: "load file (r\<lparr>tk_working := True\<rparr>) = (tl, r1)" by (cases "load file (r\<lparr>tk_working := True\<rparr>)")
  have same: "tk_started r1 = tk_started r" and list: "tl = (case file of Inl _ \<Rightarrow> [] | Inr l \<Rightarrow> l)"
    using ld by (auto simp: load_def split: sum.splits)
  show ?thesis
  proof (cases "refused tl a")
    case (Some why)
    with assms show ?thesis by (auto simp: run_task_def started_report same ld)
  next
    case None
    then obtain task where f: "Find tl (ta_Task a) = Some task" "task_Command task = ta_Command a"
      by (auto simp: refused_def split: option.splits if_splits)
    have "task \<in> set tl" "task_Name task = ta_Task a" using Find_Some [OF f(1)] by auto
    moreover from this list obtain tasks where "file = Inr tasks" "tl = tasks" by (auto split: sum.splits)
    moreover have "tk_started r' = tk_started r \<or> tk_started r' = tk_started r @ [(a, task)]"
    proof (cases "behave task")
      case (StartFailed e)
      with assms None f show ?thesis by (auto simp: run_task_def Let_def started_report same ld)
    next
      case (Started events)
      with assms None f show ?thesis by (auto simp: run_task_def Let_def same ld dest!: started_loop)
    qed
    ultimately show ?thesis using f(2) by blast
  qed
qed

lemma started_step:
  assumes "step_tasks client file file' behave r = Some (d, r')" and "tc_NextTask client (tk_host r) (tk_collector r) = (res, s1)"
  shows "tk_started r' = tk_started r \<or>
    (\<exists>a tasks task. res = Inr a \<and> handed_out s1 a \<and> file' = Inr tasks \<and> task \<in> set tasks \<and> task_Name task = ta_Task a \<and>
      task_Command task = ta_Command a \<and> tk_started r' = tk_started r @ [(a, task)])"
proof -
  obtain tl r1 where ld: "load file r = (tl, r1)" by (cases "load file r")
  have same: "tk_started r1 = tk_started r" "tk_host r1 = tk_host r" "tk_collector r1 = tk_collector r"
    using ld by (auto simp: load_def split: sum.splits)
  show ?thesis
  proof (cases "tl = [] \<or> (\<forall>a. res = Inr a \<longrightarrow> ta_Id a = 0)")
    case True
    with assms same show ?thesis by (auto simp: step_tasks_def on_collector_def ld split: prod.splits sum.splits if_splits)
  next
    case False
    then obtain a where a: "res = Inr a" "ta_Id a \<noteq> 0" and ne: "tl \<noteq> []" by auto
    have "run_task client file' behave a (r1\<lparr>tk_collector := s1\<rparr>) = Some r'"
      using assms a ne same by (auto simp: step_tasks_def on_collector_def ld split: prod.splits)
    from started_run [OF this] NextTask_hands_out [of "tk_host r" "tk_collector r" a s1] assms(2) a same show ?thesis by auto
  qed
qed

end

text \<open>The row of a run that was handed out to a host.\<close>

definition claimed :: "string \<Rightarrow> nat \<times> collector \<Rightarrow> TaskAssignment \<Rightarrow> bool" where
  "claimed host s a \<longleftrightarrow> (let t = tabs (co_db (snd s)) in
     \<exists>row \<in> set (db_runs t). t_id row = ta_Id a \<and> t_status row = TaskRunning \<and> of_host t host row \<and> t_task row = ta_Task a \<and> t_command row = ta_Command a)"


lemma claimed_ClaimTaskRun:
  assumes "ClaimTaskRun now host (co_db c) = (Inr (Some run), s')"
  shows "claimed host (n, c\<lparr>co_db := s'\<rparr>) (assignment_of run)"
proof -
  obtain r where r: "start_run now r \<in> set (db_runs (tabs s'))" "of_host (tabs (co_db c)) host r"
    "t_id r = tr_ID run" "t_task r = tr_Task run" "t_command r = tr_Command run" "db_hosts (tabs s') = db_hosts (tabs (co_db c))"
    using ClaimTaskRun_effect [OF assms] by blast
  then have "of_host (tabs s') host (start_run now r)" by (simp add: of_host_def host_named_def start_run_def split: option.splits)
  with r show ?thesis by (auto simp: claimed_def Let_def assignment_of_def start_run_def intro!: bexI [of _ "start_run now r"])
qed

lemma NextTask_claimed:
  assumes "NextTask now now' meanwhile w (Some host) name c = (Inr a, c')" and "ta_Id a \<noteq> 0"
  shows "claimed host (n, c') a"
proof -
  obtain wk run c1 where b: "NextTask_begin now (Some host) name c = (Inr (wk, run), c1)"
    and e: "NextTask_end now' (Some host) name run w (if run = None then meanwhile c1 else c1) = (Inr a, c')"
    using assms(1) unfolding NextTask_def by (elim bindE_InrE) auto
  show ?thesis
  proof (cases run)
    case (Some rn)
    with e have a: "a = assignment_of rn" "c' = c1" by (simp_all add: NextTask_end_def)
    obtain w1 where w1: "snd (wait_for host (co_tasks c)) = w1" by blast
    obtain s1 where "ClaimTaskRun now host (co_db c) = (Inr (Some rn), s1)" "c1 = c\<lparr>co_tasks := w1, co_db := s1\<rparr>"
      using b Some w1 by (auto simp: NextTask_begin_def call_host_def map_err_def on_db_def bindE_def split: prod.splits sum.splits)
    with claimed_ClaimTaskRun [of now host "c\<lparr>co_tasks := w1\<rparr>" rn s1 n] a show ?thesis by simp
  next
    case None
    let ?c = "meanwhile c1"
    have none: "a \<noteq> no_assignment" using assms(2) by (auto simp: no_assignment_def)
    obtain res s1 where cl: "ClaimTaskRun now' host (co_db ?c) = (res, s1)" by (cases "ClaimTaskRun now' host (co_db ?c)")
    have woken: "w = Woken" using e None none by (cases w) (auto simp: NextTask_end_def)
    with e None none cl obtain rn where "res = Inr (Some rn)" "c' = ?c\<lparr>co_db := s1\<rparr>" "a = assignment_of rn"
      by (cases res) (auto simp: NextTask_end_def call_host_def map_err_def on_db_def bindE_def split: option.splits)
    with claimed_ClaimTaskRun cl show ?thesis by blast
  qed
qed

interpretation served: task_collector "collector_client clock others meanwhile waits host" "claimed host" for clock others meanwhile waits host
proof
  fix name s a s'
  assume "tc_NextTask (collector_client clock others meanwhile waits host) name s = (Inr a, s')" "ta_Id a \<noteq> 0"
  then show "claimed host s' a" by (cases s) (auto simp: collector_client_def split: prod.splits intro: NextTask_claimed)
qed


section \<open>Properties\<close>

text \<open>C4. The agent starts nothing by itself and nothing the collector makes up: in a step it starts at most one command, and then
  the collector has just marked as going a run of this host with that task and that command, and the host's own
  tasks file, read again at that moment, lists the task with that command.\<close>

theorem agent_runs_what_was_asked:
  assumes "step_tasks (collector_client clock others meanwhile waits host) file file' behave r = Some (d, r')"
    and "tk_collector r = (n, c)"
    and "NextTask (clock n) (clock (Suc n)) (meanwhile n) (waits n) (Some host) (tk_host r) (others n c) = (res, c1)"
  shows "tk_started r' = tk_started r \<or>
    (\<exists>a tasks task. res = Inr a \<and> file' = Inr tasks \<and> task \<in> set tasks \<and> tk_started r' = tk_started r @ [(a, task)] \<and>
      (\<exists>row \<in> set (db_runs (tabs (co_db c1))). t_id row = ta_Id a \<and> t_status row = TaskRunning \<and> of_host (tabs (co_db c1)) host row \<and>
         t_task row = task_Name task \<and> t_command row = task_Command task))"
proof -
  have "tc_NextTask (collector_client clock others meanwhile waits host) (tk_host r) (tk_collector r) = (res, (Suc (Suc n), c1))"
    using assms(2,3) by (simp add: collector_client_def)
  from served.started_step [OF assms(1) this] show ?thesis by (auto simp: claimed_def Let_def)
qed

definition example_process :: "Task \<Rightarrow> process" where
  "example_process task = Started [Printed [CHR 0xE2, CHR 0x82], Ticked, Printed [CHR 0xAC, CHR 0x00], Printed ''ok'',
     ProcessEnded \<lparr>en_code = Some 0, en_err = None, en_deadline = False\<rparr>]"

definition example_client :: "(nat \<times> collector) taskClient" where
  "example_client = collector_client (\<lambda>n. (110 + int n) * Second) (\<lambda>_ c. c) (\<lambda>_ c. c) (\<lambda>_. TimerFired) ''web''"

definition example_collector :: "db \<Rightarrow> nat \<times> collector" where
  "example_collector s = (0, \<lparr>co_db = s, co_tasks = \<lparr>tw_waiting = Map.empty, tw_made = 0, tw_closed = {}\<rparr>\<rparr>)"

lemma example_step:
  "map_option (\<lambda>(d, r). (map (task_Command \<circ> snd) (tk_started r), map (\<lambda>r. (t_id r, t_status r, t_output r)) (db_runs (tabs (co_db (snd (tk_collector r)))))))
     (step_tasks example_client (Inr [example_task]) (Inr [example_task]) example_process (newTaskRunner ''web'' (example_collector example_asked)))
   = Some ([''df -h''], [(6, TaskSucceeded, [CHR 0xE2, CHR 0x82, CHR 0xAC] @ ''ok'')])"
  by code_simp


theorem agent_runs_what_was_asked_witness:
  "\<exists>row \<in> set (db_runs (tabs example_started)). t_status row = TaskRunning \<and> t_command row = ''df -h''"
proof -
  let ?r = "newTaskRunner ''web'' (example_collector example_asked)" and ?c = "snd (example_collector example_asked)"
  obtain d r' where st: "step_tasks example_client (Inr [example_task]) (Inr [example_task]) example_process ?r = Some (d, r')"
    and new: "map (task_Command \<circ> snd) (tk_started r') = [''df -h'']" using example_step by auto
  obtain res c1 where nt: "NextTask ((110 + int 0) * Second) ((110 + int (Suc 0)) * Second) (\<lambda>c. c) TimerFired (Some ''web'') (tk_host ?r) ?c = (res, c1)"
    by (cases "NextTask ((110 + int 0) * Second) ((110 + int (Suc 0)) * Second) (\<lambda>c. c) TimerFired (Some ''web'') (tk_host ?r) ?c")
  have "tk_started ?r = []" by (simp add: newTaskRunner_def)
  moreover have "tk_collector ?r = (0, ?c)" by (simp add: newTaskRunner_def example_collector_def)
  ultimately obtain a task where "\<exists>row \<in> set (db_runs (tabs (co_db c1))). t_id row = ta_Id a \<and> t_status row = TaskRunning \<and> t_command row = task_Command task"
    and "tk_started r' = [(a, task)]"
    using agent_runs_what_was_asked [OF st [unfolded example_client_def] _ nt] new by auto
  moreover have "tabs (co_db c1) = tabs example_started"
  proof -
    have "co_db (snd (NextTask ((110 + int 0) * Second) ((110 + int (Suc 0)) * Second) (\<lambda>c. c) TimerFired (Some ''web'') (tk_host ?r) ?c)) = example_started"
    proof -
      have "\<exists>x. fst (ClaimTaskRun (110 * Second) ''web'' example_asked) = Inr (Some x)" by (rule exI, code_simp)
      then obtain x where "ClaimTaskRun (110 * Second) ''web'' example_asked = (Inr (Some x), example_started)"
        unfolding example_started_def by (metis prod.collapse)
      then show ?thesis
        by (simp add: NextTask_def NextTask_begin_def NextTask_end_def call_host_def map_err_def on_db_def bindE_def example_collector_def wait_for_def)
    qed
    with nt show ?thesis by simp
  qed
  ultimately show ?thesis using new by auto
qed



end
