(* ===== verification/TaskWaiting.thy ===== *)
theory TaskWaiting
  imports TaskHistory Api
begin

text \<open>
  Agents that wait in \<open>NextTask\<close> (internal/api/tasks.go): the channels of \<open>taskWaiters\<close>, and a run that is asked
  for while an agent waits.
\<close>

section \<open>Waking\<close>

datatype waiter_op = W_wait string | W_wake string

primrec waiter_do :: "waiter_op \<Rightarrow> taskWaiters \<Rightarrow> taskWaiters" where
  "waiter_do (W_wait host) w = snd (wait_for host w)"
| "waiter_do (W_wake host) w = wake host w"

definition waiters_ok :: "taskWaiters \<Rightarrow> bool" where
  "waiters_ok w \<longleftrightarrow> inj_on (tw_waiting w) (dom (tw_waiting w)) \<and>
     (\<forall>ch \<in> ran (tw_waiting w). ch < tw_made w \<and> ch \<notin> tw_closed w) \<and> (\<forall>ch \<in> tw_closed w. ch < tw_made w)"

lemma waiters_ok_wait: "waiters_ok w \<Longrightarrow> waiters_ok (snd (wait_for host w))"
  unfolding waiters_ok_def wait_for_def
  by (auto simp: inj_on_def dom_def ran_def less_Suc_eq split: option.splits)

lemma waiters_ok_wake: "waiters_ok w \<Longrightarrow> waiters_ok (wake host w)"
  unfolding waiters_ok_def wake_def
  by (auto simp: inj_on_def dom_def ran_def split: option.splits)

lemma waiters_ok_do: "waiters_ok w \<Longrightarrow> waiters_ok (waiter_do x w)"
  by (cases x) (simp_all add: waiters_ok_wait waiters_ok_wake)

lemma waiters_ok_fold: "waiters_ok w \<Longrightarrow> waiters_ok (fold waiter_do ops w)"
  by (induction ops arbitrary: w) (simp_all add: waiters_ok_do)

lemma closed_stays: "ch \<in> tw_closed w \<Longrightarrow> ch \<in> tw_closed (fold waiter_do ops w)"
proof (induction ops arbitrary: w)
  case (Cons x ops)
  have "ch \<in> tw_closed (waiter_do x w)" using Cons.prems by (cases x) (auto simp: wait_for_def wake_def split: option.splits)
  with Cons.IH show ?case by simp
qed simp

lemma woken_iff:
  assumes "waiters_ok w" and "tw_waiting w host = Some ch"
  shows "ch \<in> tw_closed (fold waiter_do ops w) \<longleftrightarrow> W_wake host \<in> set ops"
  using assms
proof (induction ops arbitrary: w)
  case Nil
  then show ?case by (auto simp: waiters_ok_def ran_def)
next
  case (Cons x ops)
  show ?case
  proof (cases "x = W_wake host")
    case True
    have "ch \<in> tw_closed (waiter_do x w)" using Cons.prems(2) by (simp add: True wake_def)
    with True show ?thesis using closed_stays by simp
  next
    case False
    have "tw_waiting (waiter_do x w) host = Some ch"
      using False Cons.prems(2) by (cases x) (auto simp: wait_for_def wake_def split: option.splits)
    with Cons.IH [OF waiters_ok_do [OF Cons.prems(1)]] False show ?thesis by auto
  qed
qed

lemma wait_for_waiting: "wait_for host w = (ch, w') \<Longrightarrow> tw_waiting w' host = Some ch"
  by (auto simp: wait_for_def split: option.splits)

section \<open>A run that is asked for\<close>

lemma RequestTaskRun_effect:
  assumes "RequestTaskRun now host task by s = (Inr run, s')"
  shows "\<exists>h x. host_named (tabs s) host = Some h \<and> x \<in> set (h_tasks h) \<and> task_Name x = task \<and>
    (\<forall>r \<in> set (db_runs (tabs s)). t_host_id r = h_id h \<longrightarrow> \<not> is_active r) \<and>
    tabs s' = tabs s\<lparr>db_runs := db_runs (tabs s) @ [new_run now (db_seq s T_runs + 1) (h_id h) x by]\<rparr> \<and>
    tr_ID run = db_seq s T_runs + 1 \<and> tr_Command run = task_Command x \<and> tr_Task run = task"
proof -
  obtain r where i: "insert_into T_runs (insert_run now host task by) s = (Inr (Some r), s')" and run: "tr_ID run = t_id r" "tr_Command run = t_command r" "tr_Task run = task"
    using assms by (auto simp: RequestTaskRun_def split: prod.splits sum.splits option.splits)
  from i have ins: "insert_run now host task by (db_seq s T_runs + 1) (tabs s) = (Inr (Some r), tabs s')"
    by (cases rule: insert_into_cases) (auto simp: prod_eq_iff)
  then obtain h x where h: "host_named (tabs s) host = Some h" "filter (\<lambda>x. task_Name x = task) (h_tasks h) = [x]"
    "\<not> (\<exists>r \<in> set (db_runs (tabs s)). is_active r \<and> t_host_id r = h_id h)" "r = new_run now (db_seq s T_runs + 1) (h_id h) x by"
    "tabs s' = tabs s\<lparr>db_runs := db_runs (tabs s) @ [r]\<rparr>"
    by (auto simp: insert_run_def Let_def split: option.splits list.splits if_splits)
  with filter_singleD [OF h(2)] run show ?thesis by (auto simp: new_run_def)
qed

lemma ClaimTaskRun_quiet:
  assumes "db_net s = []"
  shows "ClaimTaskRun now host s =
    (let t1 = lose_runs now host (tabs s) in
     (Inr (map_option (\<lambda>r. zero_run\<lparr>tr_ID := t_id r, tr_Host := host, tr_Task := t_task r, tr_Command := t_command r, tr_Status := TaskRunning\<rparr>)
        (find (waiting_run now t1 host) (db_runs t1))), s\<lparr>tabs := start_runs now host t1\<rparr>))"
  using assms by (simp add: ClaimTaskRun_def claim_tx_def in_tx_def query_def exec_def dbcall_def bindE_def Let_def)

lemma claim_new_run:
  assumes "host_named t host = Some h" and "\<forall>r \<in> set (db_runs t). t_host_id r = h_id h \<longrightarrow> \<not> is_active r"
    and "t' = t\<lparr>db_runs := db_runs t @ [new_run now i (h_id h) x by]\<rparr>" and "timestamptz now' - timestamptz now < taskPickupWindow"
  shows "find (waiting_run now' (lose_runs now' host t') host) (db_runs (lose_runs now' host t')) = Some (new_run now i (h_id h) x by)"
proof -
  let ?n = "new_run now i (h_id h) x by"
  have of: "of_host t' host r \<longleftrightarrow> t_host_id r = h_id h" for r using assms(1,3) by (simp add: of_host_def host_named_def)
  have runs: "db_runs t' = db_runs t @ [?n]" and q: "t_status ?n = TaskQueued" by (simp_all add: assms(3) new_run_def)
  have "update_where (\<lambda>r. t_status r = TaskRunning \<and> of_host t' host r) f (db_runs t') = db_runs t'" for f
    by (rule update_where_none) (use assms(2) in \<open>auto simp: of is_active_def runs q\<close>)
  then have "lose_runs now' host t' = t'" by (simp add: lose_runs_def)
  moreover have "find (waiting_run now' t' host) (db_runs t) = None"
    using assms(2) by (auto simp: find_None_iff waiting_run_def of is_active_def)
  moreover have "waiting_run now' t' host ?n" using assms(4) by (simp add: waiting_run_def of new_run_def)
  ultimately show ?thesis by (simp add: runs find_append)
qed

section \<open>Properties\<close>

text \<open>An agent that waits at the collector is woken exactly when a run is asked for on its host: the channel it waits on is
  closed after any sequence of waits and wakes if and only if one of them woke its host.\<close>

theorem waiter_woken_iff:
  assumes "fold waiter_do before \<lparr>tw_waiting = Map.empty, tw_made = 0, tw_closed = {}\<rparr> = w" and "wait_for host w = (woken, w')"
  shows "woken \<in> tw_closed (fold waiter_do after w') \<longleftrightarrow> W_wake host \<in> set after"
proof -
  have "waiters_ok w" using waiters_ok_fold [of "\<lparr>tw_waiting = Map.empty, tw_made = 0, tw_closed = {}\<rparr>" before] assms(1) by (simp add: waiters_ok_def)
  then have "waiters_ok w'" using waiters_ok_wait [of w host] assms(2) by simp
  moreover have "tw_waiting w' host = Some woken" by (rule wait_for_waiting [OF assms(2)])
  ultimately show ?thesis by (rule woken_iff)
qed

theorem waiter_woken_iff_witness:
  "0 \<in> tw_closed (fold waiter_do [W_wait ''db'', W_wake ''web''] (snd (wait_for ''web'' \<lparr>tw_waiting = Map.empty, tw_made = 0, tw_closed = {}\<rparr>)))"
  using waiter_woken_iff [of "[]" "\<lparr>tw_waiting = Map.empty, tw_made = 0, tw_closed = {}\<rparr>" "''web''" 0 _ "[W_wait ''db'', W_wake ''web'']"]
  by (simp add: wait_for_def)

text \<open>C29. A run is not missed. Whatever others do in between, if an agent found nothing to do and a run is then asked for on its host,
  the agent is woken, and if nobody was faster, the database answers and less than two minutes have passed, its call ends
  with that run: the same number, task and command that the one who asked was told.\<close>

theorem requested_run_is_handed_out:
  assumes "NextTask_begin now (Some host) name c = (Inr (woken, None), c1)" and "waiters_ok (co_tasks c)"
    and "co_tasks c2 = fold waiter_do ops (co_tasks c1)"
    and "api_RequestTaskRun asked host task by c2 = (Inr info, c3)" and "db_net (co_db c3) = []"
    and "timestamptz now' - timestamptz asked < taskPickupWindow"
  shows "woken \<in> tw_closed (co_tasks c3) \<and>
    (\<exists>c4. NextTask_end now' (Some host) name None Woken c3 = (Inr \<lparr>ta_Id = ti_Id info, ta_Task = ti_Task info, ta_Command = ti_Command info\<rparr>, c4)) \<and> ti_Task info = task"
proof -
  have w1: "wait_for host (co_tasks c) = (woken, co_tasks c1)"
    using assms(1) by (auto simp: NextTask_begin_def call_host_def bindE_def map_err_def on_db_def split: prod.splits sum.splits)
  obtain run s3 where r: "RequestTaskRun asked host task by (co_db c2) = (Inr run, s3)" and info: "info = taskRunInfo run"
    and c3: "c3 = c2\<lparr>co_db := s3, co_tasks := wake host (co_tasks c2)\<rparr>"
    using assms(4) by (auto simp: api_RequestTaskRun_def bindE_def map_err_def on_db_def split: prod.splits sum.splits if_splits)
  have "waiters_ok (co_tasks c1)" using waiters_ok_wait [OF assms(2), of host] w1 by simp
  moreover have "tw_waiting (co_tasks c1) host = Some woken" by (rule wait_for_waiting [OF w1])
  moreover have "co_tasks c3 = fold waiter_do (ops @ [W_wake host]) (co_tasks c1)" by (simp add: c3 assms(3))
  ultimately have "woken \<in> tw_closed (co_tasks c3)" using woken_iff [of "co_tasks c1" host woken "ops @ [W_wake host]"] by simp
  moreover obtain h x where e: "host_named (tabs (co_db c2)) host = Some h" "\<forall>r \<in> set (db_runs (tabs (co_db c2))). t_host_id r = h_id h \<longrightarrow> \<not> is_active r"
    "tabs s3 = tabs (co_db c2)\<lparr>db_runs := db_runs (tabs (co_db c2)) @ [new_run asked (db_seq (co_db c2) T_runs + 1) (h_id h) x by]\<rparr>"
    "tr_ID run = db_seq (co_db c2) T_runs + 1" "tr_Command run = task_Command x" "tr_Task run = task" "task_Name x = task"
    using RequestTaskRun_effect [OF r] by blast
  have "\<exists>s4. ClaimTaskRun now' host s3 = (Inr (Some (zero_run\<lparr>tr_ID := tr_ID run, tr_Host := host, tr_Task := task, tr_Command := tr_Command run, tr_Status := TaskRunning\<rparr>)), s4)"
    using assms(5) by (simp add: ClaimTaskRun_quiet c3 Let_def claim_new_run [OF e(1,2,3) assms(6)]) (simp add: new_run_def e)
  ultimately show ?thesis
    by (auto simp: NextTask_end_def call_host_def bindE_def map_err_def on_db_def c3 info taskRunInfo_def assignment_of_def e(6))
qed

definition example_waiting :: "(nat \<times> TaskRun option) result \<times> collector" where
  "example_waiting = NextTask_begin (90 * Second) (Some ''web'') ''web'' \<lparr>co_db = example_task_db, co_tasks = \<lparr>tw_waiting = Map.empty, tw_made = 0, tw_closed = {}\<rparr>\<rparr>"

definition example_request :: "TaskRunInfo result \<times> collector" where
  "example_request = api_RequestTaskRun (100 * Second) ''web'' ''disk'' ''ada'' (snd example_waiting)"

theorem requested_run_is_handed_out_witness:
  "\<exists>a c4. NextTask_end (120 * Second) (Some ''web'') ''web'' None Woken (snd example_request) = (Inr a, c4) \<and> ta_Task a = ''disk''"
proof -
  have "fst example_waiting = Inr (0, None)" by code_simp
  then have w: "NextTask_begin (90 * Second) (Some ''web'') ''web'' \<lparr>co_db = example_task_db, co_tasks = \<lparr>tw_waiting = Map.empty, tw_made = 0, tw_closed = {}\<rparr>\<rparr>
      = (Inr (0, None), snd example_waiting)" unfolding example_waiting_def by (metis prod.collapse)
  have "case fst example_request of Inl _ \<Rightarrow> False | Inr _ \<Rightarrow> True" by code_simp
  then obtain info where "fst example_request = Inr info" by (auto split: sum.splits)
  then have r: "api_RequestTaskRun (100 * Second) ''web'' ''disk'' ''ada'' (snd example_waiting) = (Inr info, snd example_request)"
    unfolding example_request_def by (metis prod.collapse)
  have net: "db_net (co_db (snd example_request)) = []" by code_simp
  show ?thesis
    using requested_run_is_handed_out [OF w _ _ r net, of "[]" "120 * Second"]
    by (force simp: waiters_ok_def timestamptz_def Second_def taskPickupWindow_def Minute_def)
qed

end
