(* ===== verification/Access.thy ===== *)
theory Access
  imports TaskHistory Api
begin

text \<open>
  Who may change what: the guard in front of the collector's handlers (internal/api/auth.go) and how far an
  agent key reaches. The relation \<open>only_host\<close> is an instance of \<open>table_order\<close>, so it holds over whole
  handlers because it holds over their statements, however the calls to the database end.
\<close>

section \<open>What a key may change\<close>

text \<open>Between two moments, nothing changed but what belongs to the host of that name. No host came, went or was renamed.\<close>

definition only_host :: "string \<Rightarrow> tables \<Rightarrow> (tbl \<Rightarrow> int) \<Rightarrow> tables \<Rightarrow> (tbl \<Rightarrow> int) \<Rightarrow> bool" where
  "only_host name t q t' q' \<longleftrightarrow> q' = q \<and> (\<exists>hs rs. t' = t\<lparr>db_hosts := hs, db_runs := rs\<rparr> \<and>
     map (\<lambda>h. (h_id h, h_name h)) hs = map (\<lambda>h. (h_id h, h_name h)) (db_hosts t) \<and>
     filter (\<lambda>h. h_name h \<noteq> name) hs = filter (\<lambda>h. h_name h \<noteq> name) (db_hosts t) \<and>
     filter (\<lambda>r. \<not> of_host t name r) rs = filter (\<lambda>r. \<not> of_host t name r) (db_runs t))"

lemma find_name_map:
  "map_option h_id (find (\<lambda>h. h_name h = name) hs) = map_option fst (find (\<lambda>p. snd p = name) (map (\<lambda>h. (h_id h, h_name h)) hs))"
  by (induction hs) auto

lemma of_host_ids: "of_host t name r \<longleftrightarrow> map_option h_id (host_named t name) = Some (t_host_id r)"
  by (auto simp: of_host_def split: option.splits)

lemma of_host_map:
  assumes "map (\<lambda>h. (h_id h, h_name h)) (db_hosts t') = map (\<lambda>h. (h_id h, h_name h)) (db_hosts t)"
  shows "of_host t' name = of_host t name"
  unfolding fun_eq_iff of_host_ids host_named_def find_name_map using assms by simp

interpretation of_one: table_order "only_host name" for name
proof
  show "only_host name t q t q" for t q by (auto simp: only_host_def intro!: exI [of _ "db_hosts t"] exI [of _ "db_runs t"])
  show "only_host name t q t'' q''" if "only_host name t q t' q'" "only_host name t' q' t'' q''" for t q t' q' t'' q''
  proof -
    from that(1) obtain hs rs where 1: "q' = q" "t' = t\<lparr>db_hosts := hs, db_runs := rs\<rparr>"
      "map (\<lambda>h. (h_id h, h_name h)) hs = map (\<lambda>h. (h_id h, h_name h)) (db_hosts t)"
      "filter (\<lambda>h. h_name h \<noteq> name) hs = filter (\<lambda>h. h_name h \<noteq> name) (db_hosts t)"
      "filter (\<lambda>r. \<not> of_host t name r) rs = filter (\<lambda>r. \<not> of_host t name r) (db_runs t)" by (auto simp: only_host_def)
    have "of_host t' name = of_host t name" by (rule of_host_map) (simp add: 1)
    with that(2) 1 show ?thesis unfolding only_host_def by auto
  qed
  show "only_host name t q t q'" if "only_host name t q t' q'" for t q t' q'
    using that by (auto simp: only_host_def intro!: exI [of _ "db_hosts t"] exI [of _ "db_runs t"])
qed

lemma only_runs: 
  assumes "\<And>r. P r \<Longrightarrow> of_host t name r \<and> of_host t name (f r)"
  shows "only_host name t q (t\<lparr>db_runs := update_where P f (db_runs t)\<rparr>) q"
proof -
  have "filter (\<lambda>r. \<not> of_host t name r) (update_where P f rs) = filter (\<lambda>r. \<not> of_host t name r) rs" for rs
    by (induction rs) (auto dest: assms)
  then show ?thesis by (auto simp: only_host_def intro!: exI [of _ "db_hosts t"])
qed

lemma only_hosts:
  assumes "\<And>h. P h \<Longrightarrow> h_name h = name \<and> h_id (f h) = h_id h \<and> h_name (f h) = name"
  shows "only_host name t q (t\<lparr>db_hosts := update_where P f (db_hosts t)\<rparr>) q"
proof -
  have "filter (\<lambda>h. h_name h \<noteq> name) (update_where P f hs) = filter (\<lambda>h. h_name h \<noteq> name) hs"
    "map (\<lambda>h. (h_id h, h_name h)) (update_where P f hs) = map (\<lambda>h. (h_id h, h_name h)) hs" for hs
    by (induction hs) (auto dest: assms)
  then show ?thesis by (auto simp: only_host_def intro!: exI [of _ "db_runs t"])
qed

lemma of_host_same: "t_host_id r' = t_host_id r \<Longrightarrow> of_host t name r' = of_host t name r"
  by (simp add: of_host_ids)

lemma one_update_going:
  assumes "\<And>r. t_host_id (f r) = t_host_id r"
  shows "of_one.moves name (update_going name i f)"
  unfolding update_going_def
  by (intro of_one.moves_bindE of_one.moves_exec)
    (use assms in \<open>auto simp: going_def intro!: only_runs intro: of_host_same [THEN iffD2]\<close>)

lemma one_claim: "of_one.moves name (ClaimTaskRun now name)"
  unfolding ClaimTaskRun_def claim_tx_def
  by (intro of_one.moves_in_tx of_one.moves_bindE of_one.moves_exec of_one.moves_ret)
    (auto simp: lose_runs_def start_runs_def waiting_run_def end_run_def start_run_def intro!: only_runs intro: of_host_same [THEN iffD2])

lemma one_ops:
  "of_one.moves name (AppendTaskOutput name i out tr)" "of_one.moves name (FinishTaskRun now name i res)"
  "of_one.moves name (SaveHostTasks name list)" "of_one.moves name (AgentCheckIn name t v arch err)"
proof -
  show "of_one.moves name (AppendTaskOutput name i out tr)" "of_one.moves name (FinishTaskRun now name i res)"
    unfolding AppendTaskOutput_def FinishTaskRun_def by (rule one_update_going, simp add: finish_run_def end_run_def add_output_def)+
  show "of_one.moves name (SaveHostTasks name list)"
    unfolding SaveHostTasks_def by (intro of_one.moves_exec) (auto intro!: only_hosts)
  show "of_one.moves name (AgentCheckIn name t v arch err)"
    unfolding AgentCheckIn_def
    by (intro of_one.moves_bindE of_one.moves_exec of_one.moves_case_option of_one.moves_ret of_one.moves_fail)
      (auto simp: check_in_def Let_def intro!: only_hosts)
qed


text \<open>The calls an agent makes for its tasks and its pings, without their answers, and with nobody else at work while the agent waits.\<close>

datatype agent_call = Ping ServerInfo | AskTask string waited | Report TaskProgress

definition method_of :: "agent_call \<Rightarrow> method_name" where
  "method_of call = (case call of Ping _ \<Rightarrow> M_HandlePing | AskTask _ _ \<Rightarrow> M_NextTask | Report _ \<Rightarrow> M_ReportTask)"

definition serve :: "time \<Rightarrow> time \<Rightarrow> agent_call \<Rightarrow> string option \<Rightarrow> (unit, collector) act" where
  "serve now now' call authenticated = (case call of
     Ping info \<Rightarrow> bindE (on_db (HandlePing now authenticated info)) (\<lambda>_. ret ())
   | AskTask name w \<Rightarrow> bindE (NextTask now now' (\<lambda>c. c) w authenticated name) (\<lambda>_. ret ())
   | Report p \<Rightarrow> ReportTask now authenticated p)"

definition confined :: "string \<Rightarrow> ('a, collector) act \<Rightarrow> bool" where
  "confined name m \<longleftrightarrow> (\<forall>c. only_host name (tabs (co_db c)) (db_seq (co_db c)) (tabs (co_db (snd (m c)))) (db_seq (co_db (snd (m c)))))"

lemma confined_on_db [intro]: "of_one.moves name m \<Longrightarrow> confined name (on_db m)"
  by (auto simp: confined_def on_db_def of_one.moves_def split: prod.splits) (metis snd_conv)

lemma confined_ret [intro]: "confined name (ret a)" and confined_fail [intro]: "confined name (fail e)"
  by (simp_all add: confined_def of_one.same)

lemma confined_map_err [intro]: "confined name m \<Longrightarrow> confined name (map_err f m)"
  by (auto simp: confined_def map_err_def split: prod.splits sum.splits) (metis snd_conv)+

lemma confined_bindE [intro]:
  assumes "confined name m" and "\<And>a. confined name (k a)"
  shows "confined name (bindE m k)"
  unfolding confined_def
proof
  fix c :: collector
  obtain r c1 where m: "m c = (r, c1)" by (cases "m c")
  have 1: "only_host name (tabs (co_db c)) (db_seq (co_db c)) (tabs (co_db c1)) (db_seq (co_db c1))"
    using assms(1) m unfolding confined_def by (metis snd_conv)
  show "only_host name (tabs (co_db c)) (db_seq (co_db c)) (tabs (co_db (snd (bindE m k c)))) (db_seq (co_db (snd (bindE m k c))))"
  proof (cases r)
    case (Inl e)
    with m 1 show ?thesis by (simp add: bindE_Inl)
  next
    case (Inr a)
    have "only_host name (tabs (co_db c1)) (db_seq (co_db c1)) (tabs (co_db (snd (k a c1)))) (db_seq (co_db (snd (k a c1))))"
      using assms(2) by (simp add: confined_def)
    with of_one.trans [OF 1] m Inr show ?thesis by (simp add: bindE_Inr)
  qed
qed

lemma of_one_map_err: "of_one.moves name m \<Longrightarrow> of_one.moves name (map_err f m)"
  by (auto simp: of_one.moves_def map_err_def split: prod.splits sum.splits) (metis snd_conv)+

lemma confined_ping: "confined name (on_db (HandlePing now (Some name) info))"
proof (rule confined_on_db)
  have "of_one.moves name (saveTasks name list)" for list
    using one_ops(3) by (auto simp: of_one.moves_def saveTasks_def Let_def)
  then show "of_one.moves name (HandlePing now (Some name) info)"
    unfolding HandlePing_def call_host_def Let_def option.case
    by (intro of_one.moves_bindE of_one_map_err one_ops of_one.moves_ret)
qed

lemma confined_ask: "confined name (NextTask now now' (\<lambda>c. c) w (Some name) payload)"
proof -
  have claim: "confined name (map_err toStatus (on_db (ClaimTaskRun t name)))" for t
    by (intro confined_map_err confined_on_db one_claim)
  have "confined name (NextTask_begin now (Some name) payload)" unfolding confined_def
  proof
    fix c :: collector
    let ?m = "bindE (map_err toStatus (on_db (ClaimTaskRun now name))) (\<lambda>run. ret (fst (wait_for name (co_tasks c)), run))"
    have "confined name ?m" by (intro confined_bindE claim confined_ret)
    from this [unfolded confined_def, rule_format, of "c\<lparr>co_tasks := snd (wait_for name (co_tasks c))\<rparr>"]
    show "only_host name (tabs (co_db c)) (db_seq (co_db c)) (tabs (co_db (snd (NextTask_begin now (Some name) payload c))))
        (db_seq (co_db (snd (NextTask_begin now (Some name) payload c))))"
      by (simp add: NextTask_begin_def call_host_def Let_def case_prod_beta)
  qed
  moreover have "confined name (NextTask_end now' (Some name) payload run w)" for run
    unfolding NextTask_end_def call_host_def
    by (cases run; cases w) (auto intro!: confined_bindE claim)
  ultimately show ?thesis unfolding NextTask_def by (auto intro!: confined_bindE)
qed

lemma confined_serve: "confined name (serve now now' call (Some name))"
proof (cases call)
  case (Report p)
  have "confined name (ReportTask now (Some name) p)"
    unfolding ReportTask_def call_host_def Let_def option.case
    by (intro confined_map_err confined_on_db of_one.moves_if one_ops)
  then show ?thesis by (simp add: serve_def Report)
qed (auto simp: serve_def intro!: confined_bindE confined_ping confined_ask)

text \<open>The host a key belongs to.\<close>

definition key_of_host :: "hash \<Rightarrow> string \<Rightarrow> string \<Rightarrow> tables \<Rightarrow> bool" where
  "key_of_host hash key name t \<longleftrightarrow> (\<exists>c \<in> set (db_credentials t). cr_secret_hash c = hash key \<and> (\<exists>h \<in> set (db_hosts t). h_id h = cr_host_id c \<and> h_name h = name))"

lemma HostForCredential_cases:
  assumes "HostForCredential hash key s = (res, s')"
  shows "tabs s' = tabs s" and "db_seq s' = db_seq s" and "res = Inr name \<Longrightarrow> key_of_host hash key name (tabs s)"
proof -
  let ?f = "\<lambda>t. case find (\<lambda>c. cr_secret_hash c = hash key) (db_credentials t) of None \<Rightarrow> None
       | Some c \<Rightarrow> map_option h_name (find (\<lambda>h. h_id h = cr_host_id c) (db_hosts t))"
  from assms have "tabs s' = tabs s \<and> db_seq s' = db_seq s \<and> (\<forall>n. res = Inr n \<longrightarrow> ?f (tabs s) = Some n)"
    unfolding HostForCredential_def
  proof (cases rule: bindE_cases)
    case (err e)
    then show ?thesis by (auto elim: query_cases)
  next
    case (ok a s1)
    have "tabs s1 = tabs s" "db_seq s1 = db_seq s" "a = ?f (tabs s)" using ok(1) by (auto elim: query_cases)
    moreover have "s' = s1" "\<forall>n. res = Inr n \<longrightarrow> a = Some n" using ok(2) by (auto split: option.splits)
    ultimately show ?thesis by simp
  qed
  then show "tabs s' = tabs s" "db_seq s' = db_seq s" "res = Inr name \<Longrightarrow> key_of_host hash key name (tabs s)"
    by (auto simp: key_of_host_def split: option.splits dest!: find_SomeD)
qed

lemma guard_cases:
  assumes "AuthInterceptor valid (\<lambda>key. on_db (HostForCredential hash key)) meta m handler c = (res, c')" and "m \<noteq> M_Enroll"
  shows "(\<exists>md key name c1. meta = Some md \<and> md_agent_key md = [key] \<and> agentMethods m \<and> key_of_host hash key name (tabs (co_db c)) \<and>
       tabs (co_db c1) = tabs (co_db c) \<and> (res, c') = handler (Some name) c1) \<or>
    (\<exists>md token. meta = Some md \<and> md_agent_key md = [] \<and> md_jwt md = [token] \<and> valid token \<and> (res, c') = handler None c) \<or>
    (\<exists>code e. res = Inl (ErrStatus code e) \<and> code \<noteq> OK \<and> tabs (co_db c') = tabs (co_db c))"
proof (cases "\<exists>md key others. meta = Some md \<and> md_agent_key md = key # others")
  case False
  then have keys: "(case meta of None \<Rightarrow> [] | Some md \<Rightarrow> md_agent_key md) = []" by (auto simp: neq_Nil_conv split: option.splits) (metis list.exhaust)
  have "transport_AuthInterceptor valid meta (handler None) c = (res, c')"
    using assms keys by (simp add: AuthInterceptor_def)
  then show ?thesis using keys
    by (auto simp: transport_AuthInterceptor_def split: option.splits list.splits if_splits)
next
  case True
  then obtain md key others where md: "meta = Some md" "md_agent_key md = key # others" by blast
  obtain r s1 where l: "HostForCredential hash key (co_db c) = (r, s1)" by (cases "HostForCredential hash key (co_db c)")
  note look = HostForCredential_cases [OF l]
  show ?thesis
  proof (cases "others \<noteq> [] \<or> \<not> agentMethods m")
    case True
    with assms md show ?thesis by (auto simp: AuthInterceptor_def)
  next
    case False
    show ?thesis
    proof (cases r)
      case (Inl e)
      have "\<exists>code e'. toStatus e = ErrStatus code e' \<and> code \<noteq> OK" by (simp add: toStatus_def errNoData_def)
      with Inl False assms md l look show ?thesis by (auto simp: AuthInterceptor_def on_db_def split: if_splits)
    next
      case (Inr name)
      with False assms md l have "(res, c') = handler (Some name) (c\<lparr>co_db := s1\<rparr>)" by (simp add: AuthInterceptor_def on_db_def)
      moreover have "tabs (co_db (c\<lparr>co_db := s1\<rparr>)) = tabs (co_db c)" by (simp add: look)
      ultimately show ?thesis using False md look(3) [OF Inr] by blast
    qed
  qed
qed


section \<open>Properties of the guard\<close>

text \<open>No call gets past the guard without a credential: apart from enrolling, whose token is the credential, a handler runs
  only for the one agent key of a host on one of the agents' methods, and then as that host, or for a valid shared key
  token on a call that carries no agent key. Every other call is refused with an error, and no table changes.\<close>

theorem AuthInterceptor_guards:
  assumes "AuthInterceptor valid (\<lambda>key. on_db (HostForCredential hash key)) meta m handler c = (res, c')" and "m \<noteq> M_Enroll"
  shows "(\<exists>md key name c1. meta = Some md \<and> md_agent_key md = [key] \<and> agentMethods m \<and> key_of_host hash key name (tabs (co_db c)) \<and>
       tabs (co_db c1) = tabs (co_db c) \<and> (res, c') = handler (Some name) c1) \<or>
    (\<exists>md token. meta = Some md \<and> md_agent_key md = [] \<and> md_jwt md = [token] \<and> valid token \<and> (res, c') = handler None c) \<or>
    (\<exists>code e. res = Inl (ErrStatus code e) \<and> code \<noteq> OK \<and> tabs (co_db c') = tabs (co_db c))"
  using guard_cases [OF assms] .

text \<open>An example: host web has the key k1.\<close>

definition example_access :: collector where
  "example_access = \<lparr>co_db = example_started\<lparr>tabs := (tabs example_started)\<lparr>db_credentials := [\<lparr>cr_host_id = 1, cr_secret_hash = ''k1''\<rparr>]\<rparr>\<rparr>,
     co_tasks = \<lparr>tw_waiting = Map.empty, tw_made = 0, tw_closed = {}\<rparr>\<rparr>"

definition example_metadata :: metadata where
  "example_metadata = \<lparr>md_agent_key = [''k1''], md_jwt = []\<rparr>"

theorem AuthInterceptor_guards_witness:
  "\<exists>code e. fst (AuthInterceptor (\<lambda>_. True) (\<lambda>key. on_db (HostForCredential (\<lambda>x. x) key)) (Some example_metadata) (M_Other ''Alerts'') (\<lambda>_. ret ()) example_access) =
     Inl (ErrStatus code e)"
  using AuthInterceptor_guards [of "\<lambda>_. True" "\<lambda>x. x" "Some example_metadata" "M_Other ''Alerts''" "\<lambda>_. ret ()" example_access, OF surjective_pairing]
  by (auto simp: example_metadata_def agentMethods_def)

text \<open>C16. A key that leaks gives power over one host only. Whatever a call with an agent key says in its payload, and whatever fails, a
  ping, a request for a task or a report changes nothing but the row of the host the key belongs to and that host's runs: all
  other hosts, their runs and every other table stay as they are.\<close>

theorem agent_key_confined:
  assumes "AuthInterceptor valid (\<lambda>key. on_db (HostForCredential hash key)) (Some md) (method_of call) (serve now now' call) c = (res, c')"
    and "md_agent_key md \<noteq> []"
  shows "tabs (co_db c') = tabs (co_db c) \<or>
    (\<exists>name key hs rs. md_agent_key md = [key] \<and> key_of_host hash key name (tabs (co_db c)) \<and> tabs (co_db c') = (tabs (co_db c))\<lparr>db_hosts := hs, db_runs := rs\<rparr> \<and>
       filter (\<lambda>h. h_name h \<noteq> name) hs = filter (\<lambda>h. h_name h \<noteq> name) (db_hosts (tabs (co_db c))) \<and>
       filter (\<lambda>r. \<not> of_host (tabs (co_db c)) name r) rs = filter (\<lambda>r. \<not> of_host (tabs (co_db c)) name r) (db_runs (tabs (co_db c))))"
proof -
  have "method_of call \<noteq> M_Enroll" by (simp add: method_of_def split: agent_call.splits)
  from guard_cases [OF assms(1) this] show ?thesis
  proof (elim disjE exE conjE)
    fix md' key name c1
    assume "Some md = Some md'" and k: "md_agent_key md' = [key]" "key_of_host hash key name (tabs (co_db c))" "tabs (co_db c1) = tabs (co_db c)"
      "(res, c') = serve now now' call (Some name) c1"
    have "only_host name (tabs (co_db c1)) (db_seq (co_db c1)) (tabs (co_db c')) (db_seq (co_db c'))"
      using confined_serve [of name now now' call] k(4) unfolding confined_def by (metis snd_conv)
    with k \<open>Some md = Some md'\<close> show ?thesis unfolding only_host_def by auto
  qed (use assms(2) in auto)
qed

theorem agent_key_confined_witness:
  "tabs (co_db (snd (AuthInterceptor (\<lambda>_. True) (\<lambda>key. on_db (HostForCredential (\<lambda>x. x) key)) (Some example_metadata) (method_of (AskTask ''db'' TimerFired))
      (serve 0 0 (AskTask ''db'' TimerFired)) example_access))) = tabs (co_db example_access) \<or>
    (\<exists>name. key_of_host (\<lambda>x. x) ''k1'' name (tabs (co_db example_access)))"
  using agent_key_confined [of "\<lambda>_. True" "\<lambda>x. x" example_metadata "AskTask ''db'' TimerFired" 0 0 example_access, OF surjective_pairing]
  by (auto simp: example_metadata_def)

end
