(* ===== verification/Enrollment.thy ===== *)
theory Enrollment
  imports TaskRuns TableOrder
begin

text \<open>
  What internal/store/hosts.go, agents.go and enrollment.go promise: the invariant of hosts, keys and enrollment tokens,
  what enrolling does to the tables, which keys work, and how often a token can be used.
\<close>

section \<open>What enrolling does\<close>

text \<open>The tables after a host enrolled with the token \<open>k\<close>: the host is registered, its credential is the new one and the token has
  one use less.\<close>

definition enrolled :: "string \<Rightarrow> token_row \<Rightarrow> string \<Rightarrow> string \<Rightarrow> tables \<Rightarrow> (tbl \<Rightarrow> int) \<Rightarrow> tables \<Rightarrow> (tbl \<Rightarrow> int) \<Rightarrow> bool" where
  "enrolled secretHash k hostName timezone t q t' q' \<longleftrightarrow>
     q' = q(T_hosts := q T_hosts + 1) \<and>
     (\<exists>hid hs. (case host_named t hostName of
          Some h \<Rightarrow> hid = h_id h \<and> hs = update_where (\<lambda>h. h_name h = hostName) (\<lambda>h. h\<lparr>h_timezone := timezone\<rparr>) (db_hosts t)
        | None \<Rightarrow> hid = q T_hosts + 1 \<and> hs = db_hosts t @ [new_host hid hostName timezone]) \<and>
        \<not> (\<exists>c \<in> set (db_credentials t). cr_secret_hash c = secretHash \<and> cr_host_id c \<noteq> hid) \<and>
        t' = take_token hid secretHash (k_id k) (t\<lparr>db_hosts := hs\<rparr>))"

definition token_for :: "time \<Rightarrow> string \<Rightarrow> string \<Rightarrow> token_row \<Rightarrow> bool" where
  "token_for now h hostName k \<longleftrightarrow> usable_token now h k \<and> (k_host_name k = None \<or> k_host_name k = Some hostName)"

lemma Enroll_tx_ok:
  assumes "Enroll_tx hash secret now token hostName timezone s = (Inr key, s')"
  shows "key = secret \<and> (\<exists>k \<in> set (db_tokens (tabs s)). token_for now (hash token) hostName k \<and>
     enrolled (hash secret) k hostName timezone (tabs s) (db_seq s) (tabs s') (db_seq s'))"
proof -
  let ?ins = "\<lambda>i t. case host_named t hostName of
      Some h \<Rightarrow> (Inr (h_id h) :: int result, t\<lparr>db_hosts := update_where (\<lambda>h. h_name h = hostName) (\<lambda>h. h\<lparr>h_timezone := timezone\<rparr>) (db_hosts t)\<rparr>)
    | None \<Rightarrow> (Inr i, t\<lparr>db_hosts := db_hosts t @ [new_host i hostName timezone]\<rparr>)"
  let ?call = "\<lambda>k hid s. if \<exists>c \<in> set (db_credentials (tabs s)). cr_secret_hash c = hash secret \<and> cr_host_id c \<noteq> hid then (Inl ErrUnique, s)
    else (Inr (), s\<lparr>tabs := take_token hid (hash secret) (k_id k) (tabs s)\<rparr>)"
  obtain row s1 where 1: "query (\<lambda>t. find (usable_token now (hash token)) (db_tokens t)) s = (Inr row, s1)"
    and rest: "(case row of None \<Rightarrow> fail ErrBadToken | Some k \<Rightarrow>
         if k_host_name k \<noteq> None \<and> k_host_name k \<noteq> Some hostName then fail ErrBadToken
         else bindE (insert_into T_hosts ?ins) (\<lambda>hid. bindE (dbcall (?call k hid)) (\<lambda>_. ret secret))) s1 = (Inr key, s')"
    using assms unfolding Enroll_tx_def by (rule bindE_InrE)
  from 1 have s1: "tabs s1 = tabs s" "db_seq s1 = db_seq s" "row = find (usable_token now (hash token)) (db_tokens (tabs s))"
    by (auto elim: query_cases)
  from rest obtain k where k: "row = Some k" "k_host_name k = None \<or> k_host_name k = Some hostName"
    by (cases row) (auto split: if_splits)
  have kin: "k \<in> set (db_tokens (tabs s))" "usable_token now (hash token) k" using s1(3) k(1) find_SomeD by metis+
  from rest k have "bindE (insert_into T_hosts ?ins) (\<lambda>hid. bindE (dbcall (?call k hid)) (\<lambda>_. ret secret)) s1 = (Inr key, s')"
    by (auto split: if_splits)
  then obtain hid s2 where 2: "insert_into T_hosts ?ins s1 = (Inr hid, s2)" and r3: "bindE (dbcall (?call k hid)) (\<lambda>_. ret secret) s2 = (Inr key, s')"
    by (rule bindE_InrE)
  from r3 obtain u s3 where 3: "dbcall (?call k hid) s2 = (Inr u, s3)" and key: "key = secret" "s' = s3" by (rule bindE_InrE) auto
  have s2: "db_seq s2 = (db_seq s)(T_hosts := db_seq s T_hosts + 1)"
    "case host_named (tabs s) hostName of
        Some h \<Rightarrow> hid = h_id h \<and> tabs s2 = tabs s\<lparr>db_hosts := update_where (\<lambda>h. h_name h = hostName) (\<lambda>h. h\<lparr>h_timezone := timezone\<rparr>) (db_hosts (tabs s))\<rparr>
      | None \<Rightarrow> hid = db_seq s T_hosts + 1 \<and> tabs s2 = tabs s\<lparr>db_hosts := db_hosts (tabs s) @ [new_host hid hostName timezone]\<rparr>"
    using 2 by (auto elim!: insert_into_cases simp: s1 split: option.splits)
  have s3: "tabs s3 = take_token hid (hash secret) (k_id k) (tabs s2)" "db_seq s3 = db_seq s2"
    "\<not> (\<exists>c \<in> set (db_credentials (tabs s2)). cr_secret_hash c = hash secret \<and> cr_host_id c \<noteq> hid)"
    using 3 by (auto elim!: dbcall_cases split: if_splits)
  have "enrolled (hash secret) k hostName timezone (tabs s) (db_seq s) (tabs s') (db_seq s')"
    unfolding enrolled_def using s2 s3 key
    by (intro conjI exI [of _ hid] exI [of _ "db_hosts (tabs s2)"]) (auto split: option.splits)
  with kin k(2) key show ?thesis unfolding token_for_def by blast
qed

lemma Enroll_tx_counters: "counters.moves (Enroll_tx hash secret now token hostName timezone)"
  unfolding Enroll_tx_def
  by (intro counters.moves_bindE counters.moves_case_option counters.moves_if counters.moves_insert_into counters.moves_dbcall
    counters.moves_query counters.moves_fail counters.moves_ret)
    (auto simp: counters_grow_def counters.moves_def)

text \<open>Enrolling happens whole or not at all, also when the answer of the commit is lost.\<close>

lemma Enroll_effect:
  assumes "Enroll hash secret now token hostName timezone s = (res, s')"
  shows "(\<exists>e. res = Inl e) \<and> tabs s' = tabs s \<and> (\<forall>k. db_seq s k \<le> db_seq s' k) \<or>
    (\<exists>sec k. secret = Inr sec \<and> (res = Inr sec \<or> (\<exists>m. res = Inl (ErrDB m))) \<and> k \<in> set (db_tokens (tabs s)) \<and> token_for now (hash token) hostName k \<and>
       hostName \<noteq> [] \<and> enrolled (hash sec) k hostName timezone (tabs s) (db_seq s) (tabs s') (db_seq s'))"
proof (cases "hostName = [] \<or> (\<exists>e. secret = Inl e)")
  case True
  with assms show ?thesis by (auto simp: Enroll_def split: sum.splits if_splits)
next
  case False
  then obtain sec where sec: "secret = Inr sec" "hostName \<noteq> []" by (cases secret) auto
  let ?body = "Enroll_tx hash sec now token hostName timezone"
  have seq: "\<forall>k. db_seq s1 k \<le> db_seq s2 k" if "?body s1 = (r, s2)" for r s1 s2
    using counters.movesD [OF Enroll_tx_counters that] by (simp add: counters_grow_def)
  have whole: "\<exists>k. k \<in> set (db_tokens (tabs s)) \<and> token_for now (hash token) hostName k \<and> a = sec \<and>
      enrolled (hash sec) k hostName timezone (tabs s) (db_seq s) (tabs s2) (db_seq s2)"
    if "?body s1 = (Inr a, s2)" "tabs s1 = tabs s" "db_seq s1 = db_seq s" for a s1 s2
    using Enroll_tx_ok [OF that(1)] that(2,3) by auto
  from assms sec have "in_tx ?body s = (res, s')" by (simp add: Enroll_def)
  then show ?thesis
  proof (cases rule: in_tx_cases)
    case (begin_err m)
    then show ?thesis by auto
  next
    case (body_err e s1 s2)
    then show ?thesis using seq [OF body_err(3)] by auto
  next
    case (ok a s1 s2)
    then show ?thesis using whole [OF ok(3,1,2)] sec by auto
  next
    case (commit_failed a m s1 s2)
    then show ?thesis using seq [OF commit_failed(3)] by auto
  next
    case (commit_lost a m s1 s2)
    then show ?thesis using whole [OF commit_lost(3,1,2)] sec by auto
  qed
qed


section \<open>The invariant\<close>

definition hosts_ok :: "host_row list \<Rightarrow> int \<Rightarrow> bool" where
  "hosts_ok hs q \<longleftrightarrow> distinct (map h_id hs) \<and> distinct (map h_name hs) \<and>
     (\<forall>h \<in> set hs. h_id h \<le> q \<and> (h_update_version h \<noteq> None \<longrightarrow> h_update_url h \<noteq> None))"

definition creds_ok :: "credential_row list \<Rightarrow> host_row list \<Rightarrow> bool" where
  "creds_ok cs hs \<longleftrightarrow> distinct (map cr_host_id cs) \<and> distinct (map cr_secret_hash cs) \<and> (\<forall>c \<in> set cs. cr_host_id c \<in> h_id ` set hs)"

definition tokens_ok :: "token_row list \<Rightarrow> int \<Rightarrow> bool" where
  "tokens_ok ks q \<longleftrightarrow> distinct (map k_id ks) \<and> distinct (map k_token_hash ks) \<and> (\<forall>k \<in> set ks. k_id k \<le> q \<and> 0 \<le> k_uses_left k)"

definition host_inv :: "tables \<Rightarrow> (tbl \<Rightarrow> int) \<Rightarrow> bool" where
  "host_inv t q \<longleftrightarrow> hosts_ok (db_hosts t) (q T_hosts) \<and> creds_ok (db_credentials t) (db_hosts t) \<and> tokens_ok (db_tokens t) (q T_tokens)"

lemma hosts_ok_mono: "hosts_ok hs q \<Longrightarrow> q \<le> q' \<Longrightarrow> hosts_ok hs q'" and tokens_ok_mono: "tokens_ok ks q \<Longrightarrow> q \<le> q' \<Longrightarrow> tokens_ok ks q'"
  by (force simp: hosts_ok_def tokens_ok_def)+

lemma host_inv_mono: "host_inv t q \<Longrightarrow> (\<And>k. q k \<le> q' k) \<Longrightarrow> host_inv t q'"
  by (auto simp: host_inv_def intro: hosts_ok_mono tokens_ok_mono)

lemma hosts_ok_update:
  assumes "hosts_ok hs q" and "\<And>h. h_id (f h) = h_id h" and "\<And>h. h_name (f h) = h_name h"
    and "\<And>h. (h_update_version h \<noteq> None \<longrightarrow> h_update_url h \<noteq> None) \<Longrightarrow> h_update_version (f h) \<noteq> None \<longrightarrow> h_update_url (f h) \<noteq> None"
  shows "hosts_ok (update_where P f hs) q"
proof -
  have m: "map h_id (update_where P f hs) = map h_id hs" "map h_name (update_where P f hs) = map h_name hs"
    by (simp_all add: map_update_where assms(2,3))
  show ?thesis using assms(1,2,4) unfolding hosts_ok_def m by (auto simp: set_update_where split: if_splits)
qed

lemma ids_update: "(\<And>h. h_id (f h) = h_id h) \<Longrightarrow> h_id ` set (update_where P f hs) = h_id ` set hs"
  by (metis map_update_where set_map)

lemma host_inv_update:
  assumes "host_inv t q" and "\<And>h. h_id (f h) = h_id h" and "\<And>h. h_name (f h) = h_name h"
    and "\<And>h. (h_update_version h \<noteq> None \<longrightarrow> h_update_url h \<noteq> None) \<Longrightarrow> h_update_version (f h) \<noteq> None \<longrightarrow> h_update_url (f h) \<noteq> None"
  shows "host_inv (t\<lparr>db_hosts := update_where P f (db_hosts t)\<rparr>) q"
  using assms(1) hosts_ok_update [OF _ assms(2,3,4), of "db_hosts t" "q T_hosts" P]
  by (simp add: host_inv_def creds_ok_def ids_update [OF assms(2)])

lemma hosts_ok_new:
  assumes "hosts_ok hs q" and "find (\<lambda>h. h_name h = name) hs = None"
  shows "hosts_ok (hs @ [new_host (q + 1) name timezone]) (q + 1)"
proof -
  have "name \<notin> h_name ` set hs" using assms(2) by (auto simp: find_None_iff)
  moreover have "q + 1 \<notin> h_id ` set hs" using assms(1) by (auto simp: hosts_ok_def)
  ultimately show ?thesis using assms(1) by (auto simp: hosts_ok_def new_host_def)
qed

lemma creds_ok_more: "creds_ok cs hs \<Longrightarrow> set hs \<subseteq> set hs' \<Longrightarrow> creds_ok cs hs'"
  unfolding creds_ok_def by (meson image_mono subset_iff)

lemma creds_ok_take:
  assumes "creds_ok cs hs" and "hid \<in> h_id ` set hs" and "\<not> (\<exists>c \<in> set cs. cr_secret_hash c = v \<and> cr_host_id c \<noteq> hid)"
  shows "creds_ok (if \<exists>c \<in> set cs. cr_host_id c = hid then update_where (\<lambda>c. cr_host_id c = hid) (\<lambda>c. c\<lparr>cr_secret_hash := v\<rparr>) cs
      else cs @ [\<lparr>cr_host_id = hid, cr_secret_hash = v\<rparr>]) hs"
proof -
  let ?u = "update_where (\<lambda>c. cr_host_id c = hid) (\<lambda>c. c\<lparr>cr_secret_hash := v\<rparr>)"
  have "map cr_host_id (?u cs) = map cr_host_id cs" by (simp add: map_update_where)
  moreover have "distinct (map cr_secret_hash (?u cs))" using assms(1,3) by (intro distinct_replace) (auto simp: creds_ok_def)
  moreover have "cr_host_id c \<in> h_id ` set hs" if "c \<in> set (?u cs)" for c
    using that assms(1,2) by (auto simp: creds_ok_def set_update_where split: if_splits)
  ultimately show ?thesis using assms by (auto simp: creds_ok_def)
qed

lemma tokens_ok_take:
  assumes "tokens_ok ks q" and "k \<in> set ks" and "0 < k_uses_left k"
  shows "tokens_ok (update_where (\<lambda>x. k_id x = k_id k) (\<lambda>x. x\<lparr>k_uses_left := k_uses_left x - 1\<rparr>) ks) q"
proof -
  have "x = k" if "x \<in> set ks" "k_id x = k_id k" for x using assms(1,2) that distinct_map_eq [of k_id ks x k] by (simp add: tokens_ok_def)
  with assms show ?thesis by (force simp: tokens_ok_def map_update_where set_update_where)
qed

lemma enrolled_inv:
  assumes "host_inv t q" and "enrolled v k hostName timezone t q t' q'" and "k \<in> set (db_tokens t)" and "0 < k_uses_left k"
  shows "host_inv t' q'"
proof -
  obtain hid hs where e: "case host_named t hostName of
          Some h \<Rightarrow> hid = h_id h \<and> hs = update_where (\<lambda>h. h_name h = hostName) (\<lambda>h. h\<lparr>h_timezone := timezone\<rparr>) (db_hosts t)
        | None \<Rightarrow> hid = q T_hosts + 1 \<and> hs = db_hosts t @ [new_host hid hostName timezone]"
      "\<not> (\<exists>c \<in> set (db_credentials t). cr_secret_hash c = v \<and> cr_host_id c \<noteq> hid)"
      "t' = take_token hid v (k_id k) (t\<lparr>db_hosts := hs\<rparr>)" "q' = q(T_hosts := q T_hosts + 1)"
    using assms(2) unfolding enrolled_def by blast
  have t: "hosts_ok (db_hosts t) (q T_hosts)" "creds_ok (db_credentials t) (db_hosts t)" "tokens_ok (db_tokens t) (q T_tokens)"
    using assms(1) by (simp_all add: host_inv_def)
  have hs: "hosts_ok hs (q T_hosts + 1) \<and> creds_ok (db_credentials t) hs \<and> hid \<in> h_id ` set hs"
  proof (cases "host_named t hostName")
    case None
    then have hs': "hs = db_hosts t @ [new_host (q T_hosts + 1) hostName timezone]" "hid = q T_hosts + 1" using e(1) by auto
    have "hosts_ok hs (q T_hosts + 1)" unfolding hs' by (rule hosts_ok_new [OF t(1)]) (use None in \<open>simp add: host_named_def\<close>)
    moreover have "creds_ok (db_credentials t) hs" by (rule creds_ok_more [OF t(2)]) (auto simp: hs')
    ultimately show ?thesis by (simp add: hs' new_host_def)
  next
    case (Some h)
    then have h: "h \<in> set (db_hosts t)" using find_SomeD [of _ "db_hosts t" h] by (simp add: host_named_def)
    have hs': "hs = update_where (\<lambda>h. h_name h = hostName) (\<lambda>h. h\<lparr>h_timezone := timezone\<rparr>) (db_hosts t)" "hid = h_id h" using e(1) Some by auto
    have "hosts_ok hs (q T_hosts)" unfolding hs' by (rule hosts_ok_update [OF t(1)]) auto
    then show ?thesis using h t(2) hosts_ok_mono by (auto simp: hs' creds_ok_def ids_update)
  qed
  then show ?thesis
    using creds_ok_take [OF _ _ e(2), of hs] tokens_ok_take [OF t(3) assms(3,4)] by (auto simp: host_inv_def e(3,4) take_token_def split: if_splits)
qed


lemma host_inv_same: "host_inv t q \<Longrightarrow> db_hosts t' = db_hosts t \<Longrightarrow> db_credentials t' = db_credentials t \<Longrightarrow> db_tokens t' = db_tokens t \<Longrightarrow> host_inv t' q"
  by (simp add: host_inv_def)

lemma host_inv_delete_hosts:
  assumes "host_inv t q"
  shows "host_inv (delete_hosts P t) q"
proof -
  have "cr_host_id c \<in> h_id ` {h \<in> set (db_hosts t). \<not> P h}"
    if "c \<in> set (db_credentials t)" "cr_host_id c \<notin> h_id ` {h \<in> set (db_hosts t). P h}" for c
    by (rule image_rest) (use assms that in \<open>auto simp: host_inv_def creds_ok_def\<close>)
  with assms show ?thesis
    by (auto simp: host_inv_def hosts_ok_def creds_ok_def delete_hosts_def delete_alerts_def delete_where_def Let_def distinct_map_filter)
qed

lemma keeps_host_ops:
  "keeps (tab_inv host_inv) (AddHost name timezone)" "keeps (tab_inv host_inv) (RemoveHost name)" "keeps (tab_inv host_inv) (Heartbeat name tm)"
  "keeps (tab_inv host_inv) (AgentCheckIn name tm v arch err)" "keeps (tab_inv host_inv) (RequestAgentUpdate now hosts version url)"
  "keeps (tab_inv host_inv) (SaveHostTasks name list)" "keeps (tab_inv host_inv) (CreateEnrollmentToken hash secret now name uses ttl)"
  "keeps (tab_inv host_inv) (Enroll hash secret now token name timezone)" "keeps (tab_inv host_inv) (PurgeEnrollmentTokens now)"
proof -
  have "host_inv (t\<lparr>db_hosts := db_hosts t @ [new_host (q T_hosts + 1) name timezone]\<rparr>) (q(T_hosts := q T_hosts + 1))"
    if "host_inv t q" "host_named t name = None" for t q
    using that hosts_ok_new [of "db_hosts t" "q T_hosts" name timezone] creds_ok_more [of "db_credentials t" "db_hosts t" "db_hosts t @ [new_host (q T_hosts + 1) name timezone]"]
    by (auto simp: host_inv_def host_named_def)
  moreover have "host_inv t (q(T_hosts := q T_hosts + 1))" if "host_inv t q" for t q using that by (rule host_inv_mono) simp
  ultimately show "keeps (tab_inv host_inv) (AddHost name timezone)"
    unfolding AddHost_def by (intro keeps_bindE keeps_insert_into) (auto split: option.splits)
  show "keeps (tab_inv host_inv) (RemoveHost name)"
    unfolding RemoveHost_def by (intro keeps_bindE keeps_exec) (auto intro: host_inv_delete_hosts)
  show "keeps (tab_inv host_inv) (Heartbeat name tm)"
    unfolding Heartbeat_def by (intro keeps_bindE keeps_exec) (auto intro!: host_inv_update)
  show "keeps (tab_inv host_inv) (AgentCheckIn name tm v arch err)"
    unfolding AgentCheckIn_def
    by (intro keeps_bindE keeps_exec) (auto simp: check_in_def Let_def split: option.split intro!: host_inv_update)
  show "keeps (tab_inv host_inv) (RequestAgentUpdate now hosts version url)"
    unfolding RequestAgentUpdate_def Let_def by (intro keeps_exec) (auto intro!: host_inv_update)
  show "keeps (tab_inv host_inv) (SaveHostTasks name list)"
    unfolding SaveHostTasks_def by (intro keeps_exec) (auto intro!: host_inv_update)
  show "keeps (tab_inv host_inv) (PurgeEnrollmentTokens now)"
    unfolding PurgeEnrollmentTokens_def Let_def
    by (intro keeps_exec) (auto simp: host_inv_def tokens_ok_def delete_where_def distinct_map_filter)
  show "keeps (tab_inv host_inv) (Enroll hash secret now token name timezone)"
  proof (rule keepsI)
    fix s assume inv: "tab_inv host_inv s"
    obtain res s' where e: "Enroll hash secret now token name timezone s = (res, s')" by (cases "Enroll hash secret now token name timezone s")
    from Enroll_effect [OF e] inv show "tab_inv host_inv (snd (Enroll hash secret now token name timezone s))"
      unfolding e tab_inv_def by (auto simp: token_for_def usable_token_def intro: host_inv_mono enrolled_inv)
  qed
  have new: "host_inv (t\<lparr>db_tokens := db_tokens t @ [\<lparr>k_id = q T_tokens + 1, k_token_hash = v, k_host_name = hn, k_uses_left = uses, k_expires_at = ex\<rparr>]\<rparr>)
      (q(T_tokens := q T_tokens + 1))"
    if "host_inv t q" "\<forall>k \<in> set (db_tokens t). k_token_hash k \<noteq> v" "1 \<le> uses" for t q v hn ex uses
    using that by (force simp: host_inv_def tokens_ok_def)
  have old: "host_inv t (q(T_tokens := q T_tokens + 1))" if "host_inv t q" for t q using that by (rule host_inv_mono) simp
  show "keeps (tab_inv host_inv) (CreateEnrollmentToken hash secret now name uses ttl)"
    unfolding CreateEnrollmentToken_def
    by (cases secret) (auto intro!: keeps_bindE keeps_insert_into, simp_all add: new old)
qed

inductive host_step :: "db \<Rightarrow> db \<Rightarrow> bool" where
  network: "host_step s (set_net n s)"
| add: "host_step s (snd (AddHost name timezone s))"
| remove: "host_step s (snd (RemoveHost name s))"
| heartbeat: "host_step s (snd (Heartbeat name tm s))"
| check_in: "host_step s (snd (AgentCheckIn name tm v arch err s))"
| ask_update: "host_step s (snd (RequestAgentUpdate now hosts version url s))"
| save_tasks: "host_step s (snd (SaveHostTasks name list s))"
| token: "host_step s (snd (CreateEnrollmentToken hash secret now name uses ttl s))"
| enroll: "host_step s (snd (Enroll hash secret now token name timezone s))"
| purge: "host_step s (snd (PurgeEnrollmentTokens now s))"

lemma host_step_inv: "host_step s s' \<Longrightarrow> tab_inv host_inv s \<Longrightarrow> tab_inv host_inv s'"
  by (induction rule: host_step.induct) (simp_all add: tab_inv_def [of _ "set_net n s" for n s] keeps_host_ops [unfolded keeps_def, rule_format], simp add: tab_inv_def)


lemma host_steps_inv: "host_step\<^sup>*\<^sup>* s s' \<Longrightarrow> tab_inv host_inv s \<Longrightarrow> tab_inv host_inv s'"
  by (induction rule: rtranclp_induct) (auto intro: host_step_inv)

lemma AgentCheckIn_no_panic:
  assumes "host_inv (tabs s) (db_seq s)"
  shows "fst (AgentCheckIn name tm v arch err s) \<noteq> Inl nil_panic"
proof
  assume "fst (AgentCheckIn name tm v arch err s) = Inl nil_panic"
  then obtain s' where p: "AgentCheckIn name tm v arch err s = (Inl nil_panic, s')" by (metis prod.collapse)
  then show False unfolding AgentCheckIn_def
  proof (cases rule: bindE_cases)
    case (err e)
    then show False by (auto elim!: exec_cases simp: nil_panic_def)
  next
    case (ok row s1)
    then have row: "row = map_option (check_in tm v arch err) (host_named (tabs s) name)" by (auto elim: exec_cases)
    from ok(2) obtain h where h: "row = Some h" "h_update_version h \<noteq> None" "h_update_url h = None"
      by (auto simp: nil_panic_def split: option.splits)
    then obtain h0 where "host_named (tabs s) name = Some h0" "h = check_in tm v arch err h0" using row by auto
    moreover then have "h0 \<in> set (db_hosts (tabs s))" using find_SomeD [of _ "db_hosts (tabs s)" h0] by (simp add: host_named_def)
    ultimately show False using assms h by (auto simp: host_inv_def hosts_ok_def check_in_def Let_def split: if_splits)
  qed
qed

section \<open>Keys\<close>

definition key_host :: "tables \<Rightarrow> string \<Rightarrow> string option" where
  "key_host t v = (case find (\<lambda>c. cr_secret_hash c = v) (db_credentials t) of None \<Rightarrow> None
     | Some c \<Rightarrow> map_option h_name (find (\<lambda>h. h_id h = cr_host_id c) (db_hosts t)))"

lemma HostForCredential_quiet:
  assumes "db_net s = []"
  shows "HostForCredential hash key s = (case key_host (tabs s) (hash key) of None \<Rightarrow> Inl ErrNotFound | Some n \<Rightarrow> Inr n, s)"
  using assms by (simp add: HostForCredential_def query_def dbcall_def bindE_def key_host_def split: option.splits)

lemma key_host_iff:
  assumes "host_inv t q"
  shows "key_host t v = Some name \<longleftrightarrow>
    (\<exists>c \<in> set (db_credentials t). cr_secret_hash c = v \<and> (\<exists>h \<in> set (db_hosts t). h_id h = cr_host_id c \<and> h_name h = name))"
    (is "_ \<longleftrightarrow> ?r")
proof
  assume "key_host t v = Some name"
  then show ?r by (auto simp: key_host_def split: option.splits dest!: find_SomeD)
next
  assume ?r
  then obtain c h where ch: "c \<in> set (db_credentials t)" "cr_secret_hash c = v" "h \<in> set (db_hosts t)" "h_id h = cr_host_id c" "h_name h = name" by blast
  have "find (\<lambda>x. cr_secret_hash x = v) (db_credentials t) = Some c"
    using distinct_map_find [of cr_secret_hash "db_credentials t" c] assms ch by (simp add: host_inv_def creds_ok_def)
  moreover have "find (\<lambda>x. h_id x = cr_host_id c) (db_hosts t) = Some h"
    using distinct_map_find [of h_id "db_hosts t" h] assms ch by (simp add: host_inv_def hosts_ok_def)
  ultimately show "key_host t v = Some name" using ch(5) by (simp add: key_host_def)
qed

text \<open>The keys after a host enrolled.\<close>

lemma enrolled_key_host:
  assumes "host_inv t q" and "enrolled v k hostName timezone t q t' q'" and "k \<in> set (db_tokens t)" and "0 < k_uses_left k"
  shows "key_host t' v = Some hostName" and "w \<noteq> v \<Longrightarrow> key_host t' w = (if key_host t w = Some hostName then None else key_host t w)"
proof -
  note inv' = enrolled_inv [OF assms]
  obtain hid hs where e: "case host_named t hostName of
          Some h \<Rightarrow> hid = h_id h \<and> hs = update_where (\<lambda>h. h_name h = hostName) (\<lambda>h. h\<lparr>h_timezone := timezone\<rparr>) (db_hosts t)
        | None \<Rightarrow> hid = q T_hosts + 1 \<and> hs = db_hosts t @ [new_host hid hostName timezone]"
      "\<not> (\<exists>c \<in> set (db_credentials t). cr_secret_hash c = v \<and> cr_host_id c \<noteq> hid)"
      "t' = take_token hid v (k_id k) (t\<lparr>db_hosts := hs\<rparr>)"
    using assms(2) unfolding enrolled_def by blast
  have t: "hosts_ok (db_hosts t) (q T_hosts)" "creds_ok (db_credentials t) (db_hosts t)" using assms(1) by (simp_all add: host_inv_def)
  have names: "(\<lambda>h. (h_id h, h_name h)) ` set hs = insert (hid, hostName) ((\<lambda>h. (h_id h, h_name h)) ` set (db_hosts t))"
  proof (cases "host_named t hostName")
    case None
    then show ?thesis using e(1) by (auto simp: new_host_def)
  next
    case (Some h)
    then have h: "h \<in> set (db_hosts t)" "h_name h = hostName" using find_SomeD [of _ "db_hosts t" h] by (auto simp: host_named_def)
    have "map (\<lambda>h. (h_id h, h_name h)) hs = map (\<lambda>h. (h_id h, h_name h)) (db_hosts t)" "hid = h_id h"
      using e(1) Some by (auto simp: map_update_where)
    moreover have "(h_id h, hostName) \<in> (\<lambda>h. (h_id h, h_name h)) ` set (db_hosts t)" using h by force
    ultimately show ?thesis by (metis insert_absorb set_map)
  qed
  have creds: "set (db_credentials t') = insert \<lparr>cr_host_id = hid, cr_secret_hash = v\<rparr> {c \<in> set (db_credentials t). cr_host_id c \<noteq> hid}"
  proof -
    have upd: "c\<lparr>cr_secret_hash := v\<rparr> = \<lparr>cr_host_id = cr_host_id c, cr_secret_hash = v\<rparr>" for c :: credential_row by (cases c) simp
    show ?thesis by (auto simp: e(3) take_token_def set_update_where upd)
  qed
  have hosts: "db_hosts t' = hs" by (simp add: e(3) take_token_def)
  have in_hs: "(\<exists>h \<in> set hs. h_id h = i \<and> h_name h = n) \<longleftrightarrow> (i, n) = (hid, hostName) \<or> (\<exists>h \<in> set (db_hosts t). h_id h = i \<and> h_name h = n)" for i n
  proof -
    have "(\<exists>h \<in> set hs. h_id h = i \<and> h_name h = n) \<longleftrightarrow> (i, n) \<in> (\<lambda>h. (h_id h, h_name h)) ` set hs" by force
    then show ?thesis unfolding names by force
  qed
  show "key_host t' v = Some hostName" unfolding key_host_iff [OF inv'] creds hosts in_hs by auto
  show "key_host t' w = (if key_host t w = Some hostName then None else key_host t w)" if "w \<noteq> v"
  proof -
    have host: "h_name h = hostName \<longleftrightarrow> h_id h = hid" if "h \<in> set (db_hosts t)" for h
    proof -
      have "(h_id h, h_name h) \<in> (\<lambda>h. (h_id h, h_name h)) ` set hs" "(hid, hostName) \<in> (\<lambda>h. (h_id h, h_name h)) ` set hs" unfolding names using that by force+
      then obtain x y where "x \<in> set hs" "h_id x = h_id h" "h_name x = h_name h" "y \<in> set hs" "h_id y = hid" "h_name y = hostName" by auto
      moreover have "distinct (map h_id hs)" "distinct (map h_name hs)" using inv' by (simp_all add: host_inv_def hosts_ok_def hosts)
      ultimately show ?thesis using distinct_map_eq [of h_id hs x y] distinct_map_eq [of h_name hs x y] by auto
    qed
    have "key_host t' w = Some n \<longleftrightarrow> key_host t w = Some n \<and> n \<noteq> hostName" for n
      unfolding key_host_iff [OF inv'] key_host_iff [OF assms(1)] creds hosts in_hs using \<open>w \<noteq> v\<close> by (auto simp: host) (metis host)
    then show ?thesis by (metis option.exhaust)
  qed
qed


lemma enrolled_old_key:
  assumes "host_inv t q" and "enrolled v k hostName timezone t q t' q'" and "key_host t v = Some name"
  shows "name = hostName"
proof -
  obtain c h where c: "c \<in> set (db_credentials t)" "cr_secret_hash c = v" "h \<in> set (db_hosts t)" "h_id h = cr_host_id c" "h_name h = name"
    using assms(3) key_host_iff [OF assms(1)] by auto
  have ok: "hosts_ok (db_hosts t) (q T_hosts)" using assms(1) by (simp add: host_inv_def)
  show ?thesis
  proof (cases "host_named t hostName")
    case None
    with assms(2) c have "h_id h = q T_hosts + 1" by (auto simp: enrolled_def)
    moreover have "h_id h \<le> q T_hosts" using ok c(3) by (auto simp: hosts_ok_def)
    ultimately show ?thesis by simp
  next
    case (Some h')
    with assms(2) c have "h_id h = h_id h'" by (auto simp: enrolled_def)
    moreover have "h' \<in> set (db_hosts t)" "h_name h' = hostName" using Some find_SomeD [of _ "db_hosts t" h'] by (auto simp: host_named_def)
    ultimately show ?thesis using ok c distinct_map_eq [of h_id "db_hosts t" h h'] by (auto simp: hosts_ok_def)
  qed
qed

section \<open>Uses of a token\<close>

definition tokens_still :: "tables \<Rightarrow> (tbl \<Rightarrow> int) \<Rightarrow> tables \<Rightarrow> (tbl \<Rightarrow> int) \<Rightarrow> bool" where
  "tokens_still t q t' q' \<longleftrightarrow> db_tokens t' = db_tokens t"

interpretation still: table_order tokens_still
  by unfold_locales (auto simp: tokens_still_def)

lemma still_ops:
  "still.moves (AddHost name timezone)" "still.moves (RemoveHost name)" "still.moves (Heartbeat name tm)"
  "still.moves (AgentCheckIn name tm v arch err)" "still.moves (RequestAgentUpdate now hosts version url)" "still.moves (SaveHostTasks name list)"
  unfolding AddHost_def RemoveHost_def Heartbeat_def AgentCheckIn_def RequestAgentUpdate_def SaveHostTasks_def Let_def
  by (intro still.moves_bindE still.moves_exec still.moves_insert_into still.moves_case_option still.moves_if still.moves_ret still.moves_fail,
    auto simp: tokens_still_def delete_hosts_def delete_alerts_def Let_def split: option.splits)+

definition uses_left :: "string \<Rightarrow> tables \<Rightarrow> int" where
  "uses_left h t = sum_list (map k_uses_left (filter (\<lambda>k. k_token_hash k = h) (db_tokens t)))"

lemma uses_left_take:
  assumes "tokens_ok (db_tokens t) q" and "k \<in> set (db_tokens t)" and "db_tokens t' = update_where (\<lambda>x. k_id x = k_id k) (\<lambda>x. x\<lparr>k_uses_left := k_uses_left x - 1\<rparr>) (db_tokens t)"
  shows "uses_left h t' = uses_left h t - (if k_token_hash k = h then 1 else 0)"
proof -
  let ?f = "\<lambda>x. x\<lparr>k_uses_left := k_uses_left x - 1\<rparr>"
  have "sum_list (map k_uses_left (filter (\<lambda>k. k_token_hash k = h) (update_where (\<lambda>x. k_id x = k_id k) ?f ks))) =
      sum_list (map k_uses_left (filter (\<lambda>k. k_token_hash k = h) ks)) - (if k_token_hash k = h then 1 else 0)"
    if "distinct (map k_id ks)" "k \<in> set ks" for ks
    using that
  proof (induction ks)
    case (Cons a ks)
    show ?case
    proof (cases "a = k")
      case True
      with Cons.prems(1) have "\<not> (\<exists>x \<in> set ks. k_id x = k_id k)" by (simp add: image_iff) metis
      then have "update_where (\<lambda>x. k_id x = k_id k) ?f ks = ks" by (rule update_where_none)
      with True show ?thesis by simp
    next
      case False
      with Cons.prems have "k \<in> set ks" "k_id a \<noteq> k_id k" by (auto simp: image_iff)
      with Cons show ?thesis by simp
    qed
  qed simp
  with assms show ?thesis by (simp add: uses_left_def tokens_ok_def)
qed

lemma filter_distinct_key: "distinct (map g rs) \<Longrightarrow> r \<in> set rs \<Longrightarrow> filter (\<lambda>x. g x = g r) rs = [r]"
proof (induction rs)
  case (Cons a rs)
  show ?case
  proof (cases "a = r")
    case True
    with Cons.prems(1) have "g x \<noteq> g r" if "x \<in> set rs" for x using that by (auto simp: image_iff)
    then have "filter (\<lambda>x. g x = g r) rs = []" by (simp add: filter_empty_conv)
    with True show ?thesis by simp
  next
    case False
    with Cons.prems have "r \<in> set rs" "g a \<noteq> g r" by auto
    with Cons show ?thesis by simp
  qed
qed simp

lemma uses_left_nonneg: "host_inv t q \<Longrightarrow> 0 \<le> uses_left h t"
  unfolding uses_left_def by (rule sum_list_nonneg) (auto simp: host_inv_def tokens_ok_def)

lemma uses_left_of:
  assumes "host_inv t q" and "k \<in> set (db_tokens t)"
  shows "uses_left (k_token_hash k) t = k_uses_left k"
proof -
  have "filter (\<lambda>x. k_token_hash x = k_token_hash k) (db_tokens t) = [k]"
    using assms unfolding host_inv_def tokens_ok_def by (metis filter_distinct_key)
  then show ?thesis by (simp add: uses_left_def)
qed


lemma enrolled_tokens:
  "enrolled v k hostName timezone t q t' q' \<Longrightarrow> db_tokens t' = update_where (\<lambda>x. k_id x = k_id k) (\<lambda>x. x\<lparr>k_uses_left := k_uses_left x - 1\<rparr>) (db_tokens t)"
  by (auto simp: enrolled_def take_token_def)

lemma uses_left_filter:
  assumes "host_inv t q" and "db_tokens t' = filter P (db_tokens t)"
  shows "uses_left h t' \<le> uses_left h t"
proof -
  have "sum_list (map k_uses_left (filter Q (filter P ks))) \<le> sum_list (map k_uses_left (filter Q ks))" if "\<forall>k \<in> set ks. 0 \<le> k_uses_left k" for ks Q
    using that by (induction ks) auto
  with assms show ?thesis by (simp add: uses_left_def host_inv_def tokens_ok_def)
qed

lemma CreateEnrollmentToken_tokens:
  assumes t'_def: "t' = tabs (snd (CreateEnrollmentToken hash secret now name uses ttl s))"
  shows "db_tokens t' = db_tokens (tabs s) \<or> (\<exists>k. db_tokens t' = db_tokens (tabs s) @ [k] \<and> \<not> (\<exists>x \<in> set (db_tokens (tabs s)). k_token_hash x = k_token_hash k))"
proof (cases "uses < 1 \<or> ttl \<le> 0 \<or> (\<exists>e. secret = Inl e)")
  case True
  then show ?thesis by (auto simp: t'_def CreateEnrollmentToken_def)
next
  case False
  then obtain tok where tok: "secret = Inr tok" by (cases secret) auto
  let ?f = "\<lambda>i t. if \<exists>k \<in> set (db_tokens t). k_token_hash k = hash tok then (Inl ErrUnique, t)
    else (Inr (), t\<lparr>db_tokens := db_tokens t @ [\<lparr>k_id = i, k_token_hash = hash tok, k_host_name = (if name = [] then None else Some name),
      k_uses_left = uses, k_expires_at = timestamptz (now + ttl)\<rparr>]\<rparr>)"
  obtain r s1 where i: "insert_into T_tokens ?f s = (r, s1)" by (cases "insert_into T_tokens ?f s")
  have "t' = tabs s1" unfolding t'_def CreateEnrollmentToken_def using False tok i by (auto simp: bindE_def split: sum.splits)
  with i show ?thesis by (cases rule: insert_into_cases) auto
qed

text \<open>A step that makes no token of this hash leaves it no more uses than it had.\<close>

lemma host_step_uses:
  assumes "host_step s s'" and "tab_inv host_inv s" and new: "\<forall>k' \<in> set (db_tokens (tabs s')). k_token_hash k' = h \<longrightarrow> (\<exists>k0 \<in> set (db_tokens (tabs s)). k_token_hash k0 = h)"
  shows "uses_left h (tabs s') \<le> uses_left h (tabs s)"
proof -
  have inv: "host_inv (tabs s) (db_seq s)" using assms(2) by (simp add: tab_inv_def)
  have still: "uses_left h (tabs (snd (m s))) \<le> uses_left h (tabs s)" if "still.moves m" for m :: "('a, db) act"
    using that by (auto simp: still.moves_def tokens_still_def uses_left_def)
  from assms(1) show ?thesis
  proof cases
    case (token hash secret now name uses ttl)
    from CreateEnrollmentToken_tokens [OF refl, of hash secret now name uses ttl s]
    have "db_tokens (tabs s') = db_tokens (tabs s) \<or> (\<exists>k. db_tokens (tabs s') = db_tokens (tabs s) @ [k] \<and> \<not> (\<exists>x \<in> set (db_tokens (tabs s)). k_token_hash x = k_token_hash k))"
      by (simp add: token)
    with new show ?thesis by (auto simp: uses_left_def)
  next
    case (enroll hash secret now token name timezone)
    obtain res where e: "Enroll hash secret now token name timezone s = (res, s')" using enroll by (metis prod.collapse)
    from Enroll_effect [OF e] inv show ?thesis
      by (auto simp: uses_left_take [OF _ _ enrolled_tokens] host_inv_def)
  next
    case (purge now)
    obtain n where "PurgeEnrollmentTokens now s = (n, s')" using purge by (metis prod.collapse)
    then have "db_tokens (tabs s') = db_tokens (tabs s) \<or> (\<exists>P. db_tokens (tabs s') = filter P (db_tokens (tabs s)))"
      unfolding PurgeEnrollmentTokens_def Let_def delete_where_def by (cases rule: exec_cases) auto
    then show ?thesis using uses_left_filter [OF inv] by (auto simp: uses_left_def)
  qed (simp_all add: still still_ops)
qed


text \<open>Histories in which hosts enrolled \<open>n\<close> times with the token of hash \<open>h\<close>, and no new token got that hash.\<close>

inductive uses_trace :: "string \<Rightarrow> nat \<Rightarrow> db \<Rightarrow> db \<Rightarrow> bool" for h where
  start: "uses_trace h 0 s s"
| other: "uses_trace h n s s1 \<Longrightarrow> host_step s1 s2 \<Longrightarrow>
    (\<forall>k' \<in> set (db_tokens (tabs s2)). k_token_hash k' = h \<longrightarrow> (\<exists>k0 \<in> set (db_tokens (tabs s1)). k_token_hash k0 = h)) \<Longrightarrow> uses_trace h n s s2"
| enroll: "uses_trace h n s s1 \<Longrightarrow> Enroll hash secret now token name timezone s1 = (Inr key, s2) \<Longrightarrow> hash token = h \<Longrightarrow> uses_trace h (Suc n) s s2"

lemma uses_trace_bound:
  assumes "uses_trace h n s s'" and "tab_inv host_inv s"
  shows "tab_inv host_inv s' \<and> int n + uses_left h (tabs s') \<le> uses_left h (tabs s)"
  using assms
proof induction
  case (other n s s1 s2)
  with host_step_uses [OF other.hyps(2)] host_step_inv [OF other.hyps(2)] show ?case by fastforce
next
  case (enroll n s s1 hash secret now token name timezone key s2)
  then have inv: "tab_inv host_inv s1" "host_inv (tabs s1) (db_seq s1)" and le: "int n + uses_left h (tabs s1) \<le> uses_left h (tabs s)" by (auto simp: tab_inv_def)
  from Enroll_effect [OF enroll.hyps(2)] obtain sec k where k: "k \<in> set (db_tokens (tabs s1))" "token_for now (hash token) name k"
    "enrolled (hash sec) k name timezone (tabs s1) (db_seq s1) (tabs s2) (db_seq s2)" by auto
  have "uses_left h (tabs s2) = uses_left h (tabs s1) - 1"
    using uses_left_take [OF _ k(1) enrolled_tokens [OF k(3)]] inv(2) k(2) enroll.hyps(3) by (auto simp: host_inv_def token_for_def usable_token_def)
  with le keepsD [OF keeps_host_ops(8) inv(1) enroll.hyps(2)] show ?case by simp
qed simp

section \<open>Properties\<close>

text \<open>What holds of the registered hosts however the operations are mixed and whatever fails: names, numbers and keys are
  unique, every key belongs to a host that is there, and no token has less than no uses. So a check-in of an agent never
  follows the nil address of an update.\<close>

theorem hosts_invariant:
  assumes "host_step\<^sup>*\<^sup>* s s'" and "db_hosts (tabs s) = []" and "db_credentials (tabs s) = []" and "db_tokens (tabs s) = []"
  shows "(\<forall>h \<in> set (db_hosts (tabs s')). \<forall>h' \<in> set (db_hosts (tabs s')). h_name h = h_name h' \<or> h_id h = h_id h' \<longrightarrow> h = h') \<and>
    (\<forall>c \<in> set (db_credentials (tabs s')). \<forall>c' \<in> set (db_credentials (tabs s')). cr_secret_hash c = cr_secret_hash c' \<or> cr_host_id c = cr_host_id c' \<longrightarrow> c = c') \<and>
    (\<forall>c \<in> set (db_credentials (tabs s')). \<exists>h \<in> set (db_hosts (tabs s')). h_id h = cr_host_id c) \<and>
    (\<forall>k \<in> set (db_tokens (tabs s')). 0 \<le> k_uses_left k) \<and>
    fst (AgentCheckIn name tm v arch err s') \<noteq> Inl nil_panic"
proof -
  have "tab_inv host_inv s" using assms(2-4) by (simp add: tab_inv_def host_inv_def hosts_ok_def creds_ok_def tokens_ok_def)
  from host_steps_inv [OF assms(1) this] have inv: "host_inv (tabs s') (db_seq s')" by (simp add: tab_inv_def)
  have h: "distinct (map h_id (db_hosts (tabs s')))" "distinct (map h_name (db_hosts (tabs s')))"
    and c: "distinct (map cr_host_id (db_credentials (tabs s')))" "distinct (map cr_secret_hash (db_credentials (tabs s')))"
    and rest: "\<forall>c \<in> set (db_credentials (tabs s')). cr_host_id c \<in> h_id ` set (db_hosts (tabs s'))" "\<forall>k \<in> set (db_tokens (tabs s')). 0 \<le> k_uses_left k"
    using inv by (simp_all add: host_inv_def hosts_ok_def creds_ok_def tokens_ok_def)
  have panic: "fst (AgentCheckIn name tm v arch err s') \<noteq> Inl nil_panic" using AgentCheckIn_no_panic [OF inv] .
  show ?thesis using distinct_map_eq [OF h(1)] distinct_map_eq [OF h(2)] distinct_map_eq [OF c(1)] distinct_map_eq [OF c(2)] rest panic
    by (auto simp: image_iff) metis
qed


text \<open>An example: a token for one host is made, and the host enrolls with it.\<close>

definition example_token_db :: db where
  "example_token_db = snd (CreateEnrollmentToken (\<lambda>x. ''h-'' @ x) (Inr ''tok'') 0 [] 1 Hour empty_db)"

definition example_enrolled_db :: db where
  "example_enrolled_db = snd (Enroll (\<lambda>x. ''h-'' @ x) (Inr ''sec'') Minute ''tok'' ''web'' ''UTC'' example_token_db)"

lemma example_host_steps: "host_step\<^sup>*\<^sup>* empty_db example_token_db" "host_step\<^sup>*\<^sup>* example_token_db example_enrolled_db"
  unfolding example_token_db_def example_enrolled_db_def by (blast intro: host_step.intros)+

lemma example_enroll: "Enroll (\<lambda>x. ''h-'' @ x) (Inr ''sec'') Minute ''tok'' ''web'' ''UTC'' example_token_db = (Inr ''sec'', example_enrolled_db)"
proof -
  have "fst (Enroll (\<lambda>x. ''h-'' @ x) (Inr ''sec'') Minute ''tok'' ''web'' ''UTC'' example_token_db) = Inr ''sec''" by code_simp
  then show ?thesis by (simp add: example_enrolled_db_def prod_eq_iff)
qed

lemma empty_host_inv: "tab_inv host_inv empty_db"
  by (simp add: tab_inv_def host_inv_def hosts_ok_def creds_ok_def tokens_ok_def empty_db_def no_rows_def)

theorem hosts_invariant_witness:
  "fst (AgentCheckIn ''web'' 0 ''1'' ''amd64'' [] example_enrolled_db) \<noteq> Inl nil_panic \<and> length (db_credentials (tabs example_enrolled_db)) = 1"
proof -
  have "length (db_credentials (tabs example_enrolled_db)) = 1" by code_simp
  moreover have "db_hosts (tabs empty_db) = []" "db_credentials (tabs empty_db) = []" "db_tokens (tabs empty_db) = []" by (simp_all add: empty_db_def no_rows_def)
  ultimately show ?thesis using hosts_invariant [OF rtranclp_trans [OF example_host_steps]] by blast
qed

text \<open>C30. Enrolling gives a key that works: the key a host got is the one the collector knows it by from then on, the host's earlier
  key stops working, and every other host's key keeps working. It takes a token that is neither used up nor
  expired and not bound to another host.\<close>

theorem enroll_roundtrip:
  assumes "Enroll hash secret now token host timezone s = (Inr key, s')" and "tab_inv host_inv s" and "db_net s' = []"
  shows "HostForCredential hash key s' = (Inr host, s') \<and>
    (\<forall>old name. HostForCredential hash old (set_net [] s) = (Inr name, set_net [] s) \<longrightarrow>
       fst (HostForCredential hash old s') = (if name = host \<and> hash old \<noteq> hash key then Inl ErrNotFound else Inr name)) \<and>
    (\<exists>k \<in> set (db_tokens (tabs s)). k_token_hash k = hash token \<and> 0 < k_uses_left k \<and> now < k_expires_at k \<and> (k_host_name k = None \<or> k_host_name k = Some host))"
proof -
  from Enroll_effect [OF assms(1)] obtain k where k: "k \<in> set (db_tokens (tabs s))" "token_for now (hash token) host k"
    "enrolled (hash key) k host timezone (tabs s) (db_seq s) (tabs s') (db_seq s')" by auto
  have inv: "host_inv (tabs s) (db_seq s)" using assms(2) by (simp add: tab_inv_def)
  have pos: "0 < k_uses_left k" using k(2) by (simp add: token_for_def usable_token_def)
  note keys = enrolled_key_host [OF inv k(3,1) pos]
  note inv' = enrolled_inv [OF inv k(3,1) pos]
  have "HostForCredential hash key s' = (Inr host, s')" by (simp add: HostForCredential_quiet [OF assms(3)] keys(1))
  moreover have "fst (HostForCredential hash old s') = (if name = host \<and> hash old \<noteq> hash key then Inl ErrNotFound else Inr name)"
    if "HostForCredential hash old (set_net [] s) = (Inr name, set_net [] s)" for old name
  proof -
    have old: "key_host (tabs s) (hash old) = Some name" using that by (simp add: HostForCredential_quiet split: option.splits)
    show ?thesis
    proof (cases "hash old = hash key")
      case True
      then have "name = host" using old enrolled_old_key [OF inv k(3)] by simp
      with True keys(1) show ?thesis by (simp add: HostForCredential_quiet [OF assms(3)])
    next
      case False
      then show ?thesis using keys(2) [OF False] old by (simp add: HostForCredential_quiet [OF assms(3)])
    qed
  qed
  ultimately show ?thesis using k by (auto simp: token_for_def usable_token_def)
qed


lemma example_token_inv: "tab_inv host_inv example_token_db"
  by (rule host_steps_inv [OF example_host_steps(1) empty_host_inv])

theorem enroll_roundtrip_witness:
  "HostForCredential (\<lambda>x. ''h-'' @ x) ''sec'' example_enrolled_db = (Inr ''web'', example_enrolled_db)"
proof -
  have "db_net example_enrolled_db = []" by code_simp
  from enroll_roundtrip [OF example_enroll example_token_inv this] show ?thesis by blast
qed

text \<open>C32. A token enrolls no more hosts than it was made for: in any history, with any failures in between, the number of
  successful enrollments with a token is at most the number of uses it had at the start.\<close>

theorem token_uses_bounded:
  assumes "uses_trace h n s s'" and "tab_inv host_inv s" and "k \<in> set (db_tokens (tabs s))" and "k_token_hash k = h"
  shows "int n \<le> k_uses_left k"
proof -
  have b: "tab_inv host_inv s'" "int n + uses_left h (tabs s') \<le> uses_left h (tabs s)" using uses_trace_bound [OF assms(1,2)] by auto
  then have "0 \<le> uses_left h (tabs s')" using uses_left_nonneg by (auto simp: tab_inv_def)
  with b(2) uses_left_of [OF _ assms(3)] assms(2,4) show ?thesis by (auto simp: tab_inv_def)
qed

theorem token_uses_bounded_witness:
  "1 \<le> k_uses_left (hd (db_tokens (tabs example_token_db)))"
proof -
  let ?k = "hd (db_tokens (tabs example_token_db))"
  have h: "map k_token_hash (db_tokens (tabs example_token_db)) = [''h-tok'']" by code_simp
  then have "?k \<in> set (db_tokens (tabs example_token_db))" "k_token_hash ?k = ''h-tok''" by (auto intro!: hd_in_set)
  moreover have "uses_trace ''h-tok'' (Suc 0) example_token_db example_enrolled_db"
    by (rule uses_trace.enroll [OF uses_trace.start example_enroll]) simp
  ultimately show ?thesis using token_uses_bounded [OF _ example_token_inv] by fastforce
qed

end
