(* ===== verification/Users.thy ===== *)
theory Users
  imports StoreHosts
begin

text \<open>
  Dashboard users and their sessions: internal/store/users.go. PBKDF2, SHA-256, random bytes and the clock are arguments
  (\<open>kdf\<close>, \<open>hash\<close>, \<open>salt\<close>, \<open>secret\<close>, \<open>now\<close>).
\<close>

section \<open>Passwords\<close>

definition passwordIterations :: int where
  "passwordIterations = 600000"

definition minPasswordLength :: nat where
  "minPasswordLength = 12"

definition SessionTTL :: duration where
  "SessionTTL = 30 * 24 * Hour"

definition RoleAdmin :: string where "RoleAdmin = ''admin''"
definition RoleViewer :: string where "RoleViewer = ''viewer''"

definition validUserName :: "string \<Rightarrow> bool" where
  "validUserName name = (case name of [] \<Rightarrow> False
     | c # cs \<Rightarrow> letter_digit c \<and> length cs \<le> 63 \<and> list_all (\<lambda>c. letter_digit c \<or> c \<in> set ''._@-'') cs)"

definition checkRole :: "string \<Rightarrow> unit result" where
  "checkRole role = (if role \<noteq> RoleAdmin \<and> role \<noteq> RoleViewer then Inl (ErrWrap ''%w: a role is admin or viewer'' [] ErrInvalid) else Inr ())"

text \<open>\<open>pbkdf2.Key\<close> is an argument. \<open>slot\<close> is the error of a call that ended before it got one of the slots.\<close>

type_synonym kdf = "string \<Rightarrow> string \<Rightarrow> int \<Rightarrow> string result"

definition dummySalt :: string where
  "dummySalt = replicate 16 (CHR 0x00)"

definition hashPassword :: "kdf \<Rightarrow> error option \<Rightarrow> string \<Rightarrow> string \<Rightarrow> int \<Rightarrow> string result" where
  "hashPassword kdf slot password salt iterations = (case slot of Some e \<Rightarrow> Inl e | None \<Rightarrow> kdf password salt iterations)"

definition checkNewPassword :: "string \<Rightarrow> unit result" where
  "checkNewPassword password =
     (if RuneCount password < minPasswordLength then Inl (ErrWrap ''%w: a password needs at least %d characters'' [''12''] ErrInvalid) else Inr ())"

text \<open>\<open>salt\<close> is what \<open>rand.Read\<close> gives or its error.\<close>

definition newPasswordHash :: "kdf \<Rightarrow> error option \<Rightarrow> string result \<Rightarrow> string \<Rightarrow> (string \<times> string) result" where
  "newPasswordHash kdf slot salt password = (case checkNewPassword password of
     Inl e \<Rightarrow> Inl e
   | Inr _ \<Rightarrow> (case salt of
       Inl e \<Rightarrow> Inl e
     | Inr sa \<Rightarrow> (case hashPassword kdf slot password sa passwordIterations of Inl e \<Rightarrow> Inl e | Inr h \<Rightarrow> Inr (h, sa))))"

section \<open>Users\<close>

definition user_named :: "tables \<Rightarrow> string \<Rightarrow> user_row option" where
  "user_named t name = find (\<lambda>u. u_name u = name) (db_users t)"

definition new_user :: "time \<Rightarrow> int \<Rightarrow> string \<Rightarrow> string \<times> string \<Rightarrow> string \<Rightarrow> user_row" where
  "new_user now i name hs role = \<lparr>u_id = i, u_name = name, u_password_hash = fst hs, u_salt = snd hs, u_iterations = passwordIterations,
     u_role = role, u_created_at = timestamptz now, u_last_login_at = None\<rparr>"

definition AddUser :: "kdf \<Rightarrow> error option \<Rightarrow> string result \<Rightarrow> time \<Rightarrow> string \<Rightarrow> string \<Rightarrow> string \<Rightarrow> (unit, db) act" where
  "AddUser kdf slot salt now name password role =
     (if \<not> validUserName name
      then fail (ErrWrap ''%w: user names may use letters, digits, dots, dashes, underscores and @, up to 64 characters'' [] ErrInvalid)
      else bindE (of_result (checkRole role)) (\<lambda>_.
           bindE (of_result (newPasswordHash kdf slot salt password)) (\<lambda>hs.
           bindE (insert_into T_users (\<lambda>i t. case user_named t name of
                Some _ \<Rightarrow> (Inr (0 :: int), t)
              | None \<Rightarrow> (Inr 1, t\<lparr>db_users := db_users t @ [new_user now i name hs role]\<rparr>))) (\<lambda>n.
           if n = 0 then fail ErrUserExists else ret ()))))"

definition set_password :: "string \<times> string \<Rightarrow> user_row \<Rightarrow> user_row" where
  "set_password hs u = u\<lparr>u_password_hash := fst hs, u_salt := snd hs, u_iterations := passwordIterations\<rparr>"

definition SetPassword_tx :: "string \<times> string \<Rightarrow> string \<Rightarrow> (unit, db) act" where
  "SetPassword_tx hs name =
     bindE (exec (\<lambda>t. (map_option u_id (user_named t name), t\<lparr>db_users := update_where (\<lambda>u. u_name u = name) (set_password hs) (db_users t)\<rparr>))) (\<lambda>row.
     case row of
       None \<Rightarrow> fail ErrNotFound
     | Some i \<Rightarrow> exec (\<lambda>t. ((), t\<lparr>db_sessions := delete_where (\<lambda>x. s_user_id x = i) (db_sessions t)\<rparr>)))"

definition SetPassword :: "kdf \<Rightarrow> error option \<Rightarrow> string result \<Rightarrow> string \<Rightarrow> string \<Rightarrow> (unit, db) act" where
  "SetPassword kdf slot salt name password =
     bindE (of_result (newPasswordHash kdf slot salt password)) (\<lambda>hs. in_tx (SetPassword_tx hs name))"

definition SetRole :: "string \<Rightarrow> string \<Rightarrow> (unit, db) act" where
  "SetRole name role =
     bindE (of_result (checkRole role)) (\<lambda>_.
     bindE (exec (\<lambda>t. (rows_affected (\<lambda>u. u_name u = name) (db_users t),
       t\<lparr>db_users := update_where (\<lambda>u. u_name u = name) (\<lambda>u. u\<lparr>u_role := role\<rparr>) (db_users t)\<rparr>))) (\<lambda>n.
     if n = 0 then fail ErrNotFound else ret ()))"

text \<open>Sessions go with their user.\<close>

definition RemoveUser :: "string \<Rightarrow> (unit, db) act" where
  "RemoveUser name =
     bindE (exec (\<lambda>t. let gone = map u_id (filter (\<lambda>u. u_name u = name) (db_users t)) in
       (rows_affected (\<lambda>u. u_name u = name) (db_users t),
        t\<lparr>db_users := delete_where (\<lambda>u. u_name u = name) (db_users t),
          db_sessions := delete_where (\<lambda>x. s_user_id x \<in> set gone) (db_sessions t)\<rparr>))) (\<lambda>n.
     if n = 0 then fail ErrNotFound else ret ())"

record User =
  us_Name :: string
  us_Role :: string
  us_CreatedAt :: time
  us_LastLogin :: time

definition Users :: "(User list, db) act" where
  "Users = query (\<lambda>t. map (\<lambda>u. \<lparr>us_Name = u_name u, us_Role = u_role u, us_CreatedAt = u_created_at u, us_LastLogin = time_or_zero (u_last_login_at u)\<rparr>)
     (sort_key u_name (db_users t)))"

definition HasUsers :: "(bool, db) act" where
  "HasUsers = query (\<lambda>t. db_users t \<noteq> [])"

text \<open>\<open>checkPassword\<close>: an unknown user costs a hash too.\<close>

definition check_password :: "kdf \<Rightarrow> error option \<Rightarrow> string \<Rightarrow> string \<Rightarrow> (int \<times> string, db) act" where
  "check_password kdf slot name password =
     bindE (query (\<lambda>t. user_named t name)) (\<lambda>row.
     case row of
       None \<Rightarrow> bindE (of_result (hashPassword kdf slot password dummySalt passwordIterations)) (\<lambda>_. fail ErrBadLogin)
     | Some u \<Rightarrow>
         bindE (of_result (hashPassword kdf slot password (u_salt u) (u_iterations u))) (\<lambda>got.
         if got \<noteq> u_password_hash u then fail ErrBadLogin else ret (u_id u, u_role u)))"

definition CheckPassword :: "kdf \<Rightarrow> error option \<Rightarrow> string \<Rightarrow> string \<Rightarrow> (int, db) act" where
  "CheckPassword kdf slot name password = bindE (check_password kdf slot name password) (\<lambda>(i, _). ret i)"

section \<open>Sessions\<close>

record Session =
  se_Token :: string
  se_User :: string
  se_Role :: string
  se_Expires :: time

text \<open>The batch of \<open>Login\<close> is one transaction: a token that is there already or a user who is gone undo it.\<close>

definition login_batch :: "time \<Rightarrow> string \<Rightarrow> int \<Rightarrow> time \<Rightarrow> (unit, db) act" where
  "login_batch now tokenHash i expires s =
     (let t = tabs s in
      if \<exists>x \<in> set (db_sessions t). s_token_hash x = tokenHash then (Inl ErrUnique, s)
      else if \<not> (\<exists>u \<in> set (db_users t). u_id u = i) then (Inl (ErrDB ''foreign key''), s)
      else (Inr (), s\<lparr>tabs := t\<lparr>db_sessions := db_sessions t @ [\<lparr>s_token_hash = tokenHash, s_user_id = i, s_expires_at = timestamptz expires\<rparr>],
             db_users := update_where (\<lambda>u. u_id u = i) (\<lambda>u. u\<lparr>u_last_login_at := Some (timestamptz now)\<rparr>) (db_users t)\<rparr>\<rparr>))"

definition Login :: "hash \<Rightarrow> kdf \<Rightarrow> error option \<Rightarrow> string result \<Rightarrow> time \<Rightarrow> string \<Rightarrow> string \<Rightarrow> (Session, db) act" where
  "Login hash kdf slot secret now name password =
     bindE (check_password kdf slot name password) (\<lambda>(i, role).
     bindE (of_result secret) (\<lambda>token.
     let session = \<lparr>se_Token = token, se_User = name, se_Role = role, se_Expires = now + SessionTTL\<rparr> in
     bindE (dbcall (login_batch now (hash token) i (se_Expires session))) (\<lambda>_. ret session)))"

definition session_of :: "time \<Rightarrow> string \<Rightarrow> tables \<Rightarrow> Session option" where
  "session_of now tokenHash t = (case find (\<lambda>x. s_token_hash x = tokenHash \<and> s_expires_at x > now) (db_sessions t) of
     None \<Rightarrow> None
   | Some x \<Rightarrow> map_option (\<lambda>u. \<lparr>se_Token = [], se_User = u_name u, se_Role = u_role u, se_Expires = s_expires_at x\<rparr>)
       (find (\<lambda>u. u_id u = s_user_id x) (db_users t)))"

definition Session_read :: "hash \<Rightarrow> time \<Rightarrow> string \<Rightarrow> (Session, db) act" where
  "Session_read hash now token =
     bindE (query (session_of now (hash token))) (\<lambda>row. case row of None \<Rightarrow> fail ErrBadSession | Some x \<Rightarrow> ret x)"

definition ChangePassword :: "hash \<Rightarrow> kdf \<Rightarrow> error option \<Rightarrow> error option \<Rightarrow> string result \<Rightarrow> time \<Rightarrow> string \<Rightarrow> string \<Rightarrow> string \<Rightarrow> (unit, db) act" where
  "ChangePassword hash kdf slot slot' salt now token current new =
     bindE (Session_read hash now token) (\<lambda>session.
     bindE (CheckPassword kdf slot (se_User session) current) (\<lambda>i.
     bindE (of_result (newPasswordHash kdf slot' salt new)) (\<lambda>hs.
     exec (\<lambda>t. ((), t\<lparr>db_users := update_where (\<lambda>u. u_id u = i) (set_password hs) (db_users t),
       db_sessions := delete_where (\<lambda>x. s_user_id x = i \<and> s_token_hash x \<noteq> hash token) (db_sessions t)\<rparr>)))))"

definition Logout :: "hash \<Rightarrow> string \<Rightarrow> (unit, db) act" where
  "Logout hash token = exec (\<lambda>t. ((), t\<lparr>db_sessions := delete_where (\<lambda>x. s_token_hash x = hash token) (db_sessions t)\<rparr>))"

definition PurgeSessions :: "time \<Rightarrow> (int, db) act" where
  "PurgeSessions now =
     exec (\<lambda>t. (rows_affected (\<lambda>x. s_expires_at x < now) (db_sessions t), t\<lparr>db_sessions := delete_where (\<lambda>x. s_expires_at x < now) (db_sessions t)\<rparr>))"

end
