(* ===== verification/Accounts.thy ===== *)
theory Accounts
  imports Users TableOrder
begin

text \<open>
  What internal/store/users.go promises: the invariant of users and sessions, what a login and a new password do.
\<close>

section \<open>The invariant\<close>

definition users_inv :: "tables \<Rightarrow> (tbl \<Rightarrow> int) \<Rightarrow> bool" where
  "users_inv t q \<longleftrightarrow> distinct (map u_id (db_users t)) \<and> distinct (map u_name (db_users t)) \<and>
     (\<forall>u \<in> set (db_users t). u_id u \<le> q T_users \<and> u_role u \<in> {RoleAdmin, RoleViewer}) \<and>
     distinct (map s_token_hash (db_sessions t)) \<and> (\<forall>x \<in> set (db_sessions t). s_user_id x \<in> u_id ` set (db_users t))"

abbreviation users_ok :: "db \<Rightarrow> bool" where
  "users_ok \<equiv> tab_inv users_inv"

lemma users_inv_mono: "users_inv t q \<Longrightarrow> (\<And>k. q k \<le> q' k) \<Longrightarrow> users_inv t q'"
  unfolding users_inv_def by (meson order_trans)

lemma users_inv_update:
  assumes "users_inv t q" and "\<And>u. u_id (f u) = u_id u" and "\<And>u. u_name (f u) = u_name u"
    and "\<And>u. u_role u \<in> {RoleAdmin, RoleViewer} \<Longrightarrow> u_role (f u) \<in> {RoleAdmin, RoleViewer}"
  shows "users_inv (t\<lparr>db_users := update_where P f (db_users t)\<rparr>) q"
proof -
  have m: "map u_id (update_where P f us) = map u_id us" "map u_name (update_where P f us) = map u_name us" for us
    by (simp_all add: map_update_where assms(2,3))
  have "u_id ` set (update_where P f us) = u_id ` set us" for us by (metis m(1) set_map)
  moreover have "\<forall>u \<in> set (update_where P f (db_users t)). u_id u \<le> q T_users \<and> u_role u \<in> {RoleAdmin, RoleViewer}"
    using assms(1,2,4) by (auto simp: users_inv_def set_update_where split: if_splits)
  ultimately show ?thesis using assms(1) by (simp add: users_inv_def m)
qed

lemma users_inv_sessions:
  assumes "users_inv t q"
  shows "users_inv (t\<lparr>db_sessions := delete_where P (db_sessions t)\<rparr>) q"
  using assms by (auto simp: users_inv_def delete_where_def distinct_map_filter)

lemma checkRole_ok: "checkRole role = Inr u \<Longrightarrow> role \<in> {RoleAdmin, RoleViewer}"
  by (auto simp: checkRole_def split: if_splits)

lemma set_password_row [simp]: "u_id (set_password hs u) = u_id u" "u_name (set_password hs u) = u_name u" "u_role (set_password hs u) = u_role u"
  by (simp_all add: set_password_def)

lemma keeps_login_batch: "keeps users_ok (login_batch now h i ex)"
proof (rule keepsI)
  fix s assume inv: "users_ok s"
  have "users_inv (tabs s\<lparr>db_users := update_where (\<lambda>u. u_id u = i) (\<lambda>u. u\<lparr>u_last_login_at := Some (timestamptz now)\<rparr>) (db_users (tabs s))\<rparr>) (db_seq s)"
    by (rule users_inv_update) (use inv in \<open>auto simp: tab_inv_def\<close>)
  then show "users_ok (snd (login_batch now h i ex s))"
    using inv by (auto simp: login_batch_def Let_def tab_inv_def users_inv_def set_update_where image_iff split: if_splits)
qed

lemma user_counters:
  "counters.moves (SetPassword_tx hs name)"
  unfolding SetPassword_tx_def
  by (intro counters.moves_bindE counters.moves_exec counters.moves_case_option counters.moves_fail) (auto simp: counters_grow_def)

lemma keeps_user_ops:
  "keeps users_ok (AddUser kdf slot salt now name password role)" "keeps users_ok (SetPassword kdf slot salt name password)"
  "keeps users_ok (SetRole name role)" "keeps users_ok (RemoveUser name)" "keeps users_ok (Login hash kdf slot secret now name password)"
  "keeps users_ok (ChangePassword hash kdf slot slot' salt now token current new)" "keeps users_ok (Logout hash token)" "keeps users_ok (PurgeSessions now)"
proof -
  have new: "users_inv (t\<lparr>db_users := db_users t @ [new_user now (q T_users + 1) name hs ro]\<rparr>) (q(T_users := q T_users + 1))"
    if "users_inv t q" "user_named t name = None" "ro \<in> {RoleAdmin, RoleViewer}" for t q hs ro
  proof -
    have "name \<notin> u_name ` set (db_users t)" using that(2) by (auto simp: user_named_def find_None_iff)
    moreover have "q T_users + 1 \<notin> u_id ` set (db_users t)" using that(1) by (force simp: users_inv_def)
    ultimately show ?thesis using that(1,3) by (fastforce simp: users_inv_def new_user_def)
  qed
  have old: "users_inv t (q(T_users := q T_users + 1))" if "users_inv t q" for t q using that by (rule users_inv_mono) simp
  show "keeps users_ok (AddUser kdf slot salt now name password role)" unfolding AddUser_def
    by (auto intro!: keeps_result_bind keeps_bindE keeps_insert_into dest!: checkRole_ok split: option.splits, simp_all add: new old)
  have "keeps users_ok (SetPassword_tx hs name)" for hs unfolding SetPassword_tx_def
    by (intro keeps_bindE keeps_exec) (auto intro!: users_inv_update keeps_exec users_inv_sessions split: option.splits)
  then show "keeps users_ok (SetPassword kdf slot salt name password)" unfolding SetPassword_def
    by (intro keeps_result_bind keeps_tx [OF _ users_inv_mono user_counters])
  show "keeps users_ok (SetRole name role)" unfolding SetRole_def
    by (intro keeps_result_bind keeps_bindE keeps_exec) (auto dest: checkRole_ok intro!: users_inv_update)
  show "keeps users_ok (RemoveUser name)" unfolding RemoveUser_def
    by (intro keeps_bindE keeps_exec)
      (auto simp: users_inv_def delete_where_def distinct_map_filter Let_def intro!: image_rest)
  show "keeps users_ok (Logout hash token)" "keeps users_ok (PurgeSessions now)" unfolding Logout_def PurgeSessions_def
    by (intro keeps_exec, auto intro: users_inv_sessions)+
  have cp: "keeps users_ok (check_password kdf slot name password)" for name password unfolding check_password_def
    by (intro keeps_bindE keeps_query) (auto intro!: keeps_bindE split: option.splits)
  show "keeps users_ok (Login hash kdf slot secret now name password)" unfolding Login_def
    by (intro keeps_bindE cp) (auto simp: Let_def intro!: keeps_bindE keeps_dbcall keeps_login_batch split: prod.splits)
  have "users_inv (t\<lparr>db_users := update_where P (set_password hs) (db_users t), db_sessions := delete_where Q (db_sessions t)\<rparr>) q" if "users_inv t q" for t q P Q hs
    using users_inv_sessions [OF users_inv_update [OF that, of "set_password hs" P], of Q] by simp
  then show "keeps users_ok (ChangePassword hash kdf slot slot' salt now token current new)"
    unfolding ChangePassword_def Session_read_def CheckPassword_def
    by (intro keeps_bindE cp keeps_exec) (auto split: option.splits prod.splits)
qed


inductive user_step :: "db \<Rightarrow> db \<Rightarrow> bool" where
  network: "user_step s (set_net n s)"
| add: "user_step s (snd (AddUser kdf slot salt now name password role s))"
| reset: "user_step s (snd (SetPassword kdf slot salt name password s))"
| role: "user_step s (snd (SetRole name role s))"
| remove: "user_step s (snd (RemoveUser name s))"
| login: "user_step s (snd (Login hash kdf slot secret now name password s))"
| change: "user_step s (snd (ChangePassword hash kdf slot slot' salt now token current new s))"
| logout: "user_step s (snd (Logout hash token s))"
| purge: "user_step s (snd (PurgeSessions now s))"

lemma user_step_inv: "user_step s s' \<Longrightarrow> users_ok s \<Longrightarrow> users_ok s'"
proof (induction rule: user_step.induct)
  case (network s n)
  then show ?case by (simp add: tab_inv_def)
qed (rule keepsD [OF _ _ surjective_pairing], rule keeps_user_ops, assumption)+

lemma user_steps_inv: "user_step\<^sup>*\<^sup>* s s' \<Longrightarrow> users_ok s \<Longrightarrow> users_ok s'"
  by (induction rule: rtranclp_induct) (auto intro: user_step_inv)

section \<open>Sessions and passwords\<close>

lemma Session_quiet:
  assumes "db_net s = []"
  shows "Session_read hash now token s = (case session_of now (hash token) (tabs s) of None \<Rightarrow> Inl ErrBadSession | Some x \<Rightarrow> Inr x, s)"
  using assms by (simp add: Session_read_def query_def dbcall_def bindE_def split: option.splits)

lemma CheckPassword_quiet:
  assumes "db_net s = []"
  shows "CheckPassword kdf None name password s = (case user_named (tabs s) name of
      None \<Rightarrow> (case kdf password dummySalt passwordIterations of Inl e \<Rightarrow> Inl e | Inr _ \<Rightarrow> Inl ErrBadLogin)
    | Some u \<Rightarrow> (case kdf password (u_salt u) (u_iterations u) of Inl e \<Rightarrow> Inl e
        | Inr got \<Rightarrow> if got \<noteq> u_password_hash u then Inl ErrBadLogin else Inr (u_id u)), s)"
  using assms
  by (simp add: CheckPassword_def check_password_def query_def dbcall_def bindE_def of_result_def hashPassword_def split: option.splits sum.splits)

lemma session_of_user:
  assumes "users_inv t q" and "x \<in> set (db_sessions t)" and "s_token_hash x = h" and "u \<in> set (db_users t)" and "u_id u = s_user_id x"
  shows "session_of now h t = (if now < s_expires_at x then Some \<lparr>se_Token = [], se_User = u_name u, se_Role = u_role u, se_Expires = s_expires_at x\<rparr> else None)"
proof -
  have "find (\<lambda>u. u_id u = s_user_id x) (db_users t) = Some u"
    using distinct_map_find [of u_id "db_users t" u] assms by (simp add: users_inv_def)
  moreover have "find (\<lambda>x. s_token_hash x = h \<and> s_expires_at x > now) (db_sessions t) = (if now < s_expires_at x then Some x else None)"
  proof -
    have only: "y = x" if "y \<in> set (db_sessions t)" "s_token_hash y = h" for y
      using assms(1-3) that distinct_map_eq [of s_token_hash "db_sessions t" y x] by (simp add: users_inv_def)
    show ?thesis
    proof (cases "find (\<lambda>x. s_token_hash x = h \<and> s_expires_at x > now) (db_sessions t)")
      case None
      with find_NoneD [OF None assms(2)] assms(3) show ?thesis by simp
    next
      case (Some y)
      with find_SomeD [OF Some] only [of y] show ?thesis by simp
    qed
  qed
  ultimately show ?thesis by (simp add: session_of_def)
qed

lemma check_password_InrE:
  assumes "check_password kdf slot name password s = (Inr (i, role), s')"
  obtains u where "u \<in> set (db_users (tabs s))" "u_name u = name" "u_id u = i" "u_role u = role"
    "kdf password (u_salt u) (u_iterations u) = Inr (u_password_hash u)" "tabs s' = tabs s" "db_seq s' = db_seq s"
proof -
  from assms obtain row s1 where q: "query (\<lambda>t. user_named t name) s = (Inr row, s1)"
    and rest: "(case row of None \<Rightarrow> bindE (of_result (hashPassword kdf slot password dummySalt passwordIterations)) (\<lambda>_. fail ErrBadLogin)
     | Some u \<Rightarrow> bindE (of_result (hashPassword kdf slot password (u_salt u) (u_iterations u))) (\<lambda>got.
         if got \<noteq> u_password_hash u then fail ErrBadLogin else ret (u_id u, u_role u))) s1 = (Inr (i, role), s')"
    unfolding check_password_def by (rule bindE_InrE)
  have s1: "tabs s1 = tabs s" "db_seq s1 = db_seq s" "row = user_named (tabs s) name" using q by (auto elim: query_cases)
  from rest obtain u where u: "row = Some u" "kdf password (u_salt u) (u_iterations u) = Inr (u_password_hash u)" "i = u_id u" "role = u_role u" "s' = s1"
    by (auto simp: bindE_def of_result_def hashPassword_def split: option.splits sum.splits if_splits)
  moreover have "u \<in> set (db_users (tabs s))" "u_name u = name"
    using find_SomeD [of "\<lambda>u. u_name u = name" "db_users (tabs s)" u] u(1) s1(3) by (auto simp: user_named_def)
  ultimately show thesis using that s1 by blast
qed

section \<open>Properties\<close>

text \<open>What holds of the dashboard's users whatever the order of operations and failures: names, numbers and session tokens are
  unique, every session belongs to a user who is there, and every user is an admin or a viewer.\<close>

theorem users_invariant:
  assumes "user_step\<^sup>*\<^sup>* s s'" and "db_users (tabs s) = []" and "db_sessions (tabs s) = []"
  shows "(\<forall>u \<in> set (db_users (tabs s')). \<forall>u' \<in> set (db_users (tabs s')). u_name u = u_name u' \<or> u_id u = u_id u' \<longrightarrow> u = u') \<and>
    (\<forall>x \<in> set (db_sessions (tabs s')). \<forall>x' \<in> set (db_sessions (tabs s')). s_token_hash x = s_token_hash x' \<longrightarrow> x = x') \<and>
    (\<forall>x \<in> set (db_sessions (tabs s')). \<exists>u \<in> set (db_users (tabs s')). u_id u = s_user_id x) \<and>
    (\<forall>u \<in> set (db_users (tabs s')). u_role u = RoleAdmin \<or> u_role u = RoleViewer)"
proof -
  have "users_ok s" using assms(2,3) by (simp add: tab_inv_def users_inv_def)
  from user_steps_inv [OF assms(1) this] have inv: "users_inv (tabs s') (db_seq s')" by (simp add: tab_inv_def)
  let ?us = "db_users (tabs s')" and ?ss = "db_sessions (tabs s')"
  have d: "distinct (map u_id ?us)" "distinct (map u_name ?us)" "distinct (map s_token_hash ?ss)"
    and rest: "\<forall>x \<in> set ?ss. s_user_id x \<in> u_id ` set ?us" "\<forall>u \<in> set ?us. u_role u = RoleAdmin \<or> u_role u = RoleViewer"
    using inv by (auto simp: users_inv_def)
  show ?thesis using distinct_map_eq [OF d(1)] distinct_map_eq [OF d(2)] distinct_map_eq [OF d(3)] rest by (auto simp: image_iff) metis
qed

text \<open>A login gives a session that works until it expires and not after: the token belongs to the user who logged in, with the user's
  role, for thirty days, and a login needs the user's password.\<close>

theorem login_roundtrip:
  assumes "Login hash kdf slot secret now name password s = (Inr session, s')" and "users_ok s" and "db_net s' = []"
  shows "\<exists>u \<in> set (db_users (tabs s)). u_name u = name \<and> kdf password (u_salt u) (u_iterations u) = Inr (u_password_hash u) \<and>
    (\<forall>later. Session_read hash later (se_Token session) s' =
       (if later < timestamptz (now + SessionTTL)
        then Inr \<lparr>se_Token = [], se_User = name, se_Role = u_role u, se_Expires = timestamptz (now + SessionTTL)\<rparr> else Inl ErrBadSession, s'))"
proof -
  obtain i role s1 where c: "check_password kdf slot name password s = (Inr (i, role), s1)"
    and rest: "bindE (of_result secret) (\<lambda>token. let session = \<lparr>se_Token = token, se_User = name, se_Role = role, se_Expires = now + SessionTTL\<rparr> in
     bindE (dbcall (login_batch now (hash token) i (se_Expires session))) (\<lambda>_. ret session)) s1 = (Inr session, s')"
    using assms(1) unfolding Login_def by (elim bindE_InrE) auto
  from check_password_InrE [OF c] obtain u where u: "u \<in> set (db_users (tabs s))" "u_name u = name" "u_id u = i" "u_role u = role"
    "kdf password (u_salt u) (u_iterations u) = Inr (u_password_hash u)" and s1: "tabs s1 = tabs s" .
  from rest obtain token n where tok: "se_Token session = token" and b: "login_batch now (hash token) i (now + SessionTTL) (set_net n s1) = (Inr (), s')"
    by (cases secret) (auto simp: of_result_def bindE_def Let_def split: prod.splits sum.splits elim!: dbcall_cases)
  let ?x = "\<lparr>s_token_hash = hash token, s_user_id = i, s_expires_at = timestamptz (now + SessionTTL)\<rparr>"
  let ?f = "\<lambda>u. u\<lparr>u_last_login_at := Some (timestamptz now)\<rparr>"
  have t': "db_sessions (tabs s') = db_sessions (tabs s) @ [?x]" "db_users (tabs s') = update_where (\<lambda>u. u_id u = i) ?f (db_users (tabs s))"
    using b by (auto simp: login_batch_def Let_def s1 split: if_splits)
  have inv': "users_inv (tabs s') (db_seq s')" using keepsD [OF keeps_user_ops(5) assms(2,1)] by (simp add: tab_inv_def)
  have "?f u \<in> set (db_users (tabs s'))" using u(1,3) by (auto simp: t' set_update_where)
  from session_of_user [OF inv' _ _ this, of ?x "hash token"] have "session_of later (hash token) (tabs s') =
      (if later < timestamptz (now + SessionTTL) then Some \<lparr>se_Token = [], se_User = name, se_Role = role, se_Expires = timestamptz (now + SessionTTL)\<rparr> else None)" for later
    using u(2,3,4) by (simp add: t')
  then show ?thesis using u by (intro bexI [of _ u]) (auto simp: Session_quiet [OF assms(3)] tok)
qed


lemma SetPassword_tx_ok:
  assumes "SetPassword_tx hs name s = (Inr (), s')"
  obtains u where "u \<in> set (db_users (tabs s))" "u_name u = name"
    "db_users (tabs s') = update_where (\<lambda>u. u_name u = name) (set_password hs) (db_users (tabs s))"
    "db_sessions (tabs s') = delete_where (\<lambda>x. s_user_id x = u_id u) (db_sessions (tabs s))"
proof -
  obtain row s1 where e: "exec (\<lambda>t. (map_option u_id (user_named t name), t\<lparr>db_users := update_where (\<lambda>u. u_name u = name) (set_password hs) (db_users t)\<rparr>)) s = (Inr row, s1)"
    and rest: "(case row of None \<Rightarrow> fail ErrNotFound
      | Some i \<Rightarrow> exec (\<lambda>t. ((), t\<lparr>db_sessions := delete_where (\<lambda>x. s_user_id x = i) (db_sessions t)\<rparr>))) s1 = (Inr (), s')"
    using assms unfolding SetPassword_tx_def by (rule bindE_InrE)
  have s1: "row = map_option u_id (user_named (tabs s) name)"
    "tabs s1 = tabs s\<lparr>db_users := update_where (\<lambda>u. u_name u = name) (set_password hs) (db_users (tabs s))\<rparr>"
    using e by (auto elim: exec_cases)
  from rest obtain i where i: "row = Some i" "exec (\<lambda>t. ((), t\<lparr>db_sessions := delete_where (\<lambda>x. s_user_id x = i) (db_sessions t)\<rparr>)) s1 = (Inr (), s')"
    by (cases row) auto
  then obtain u where u: "user_named (tabs s) name = Some u" "u_id u = i" using s1(1) by auto
  have "tabs s' = tabs s1\<lparr>db_sessions := delete_where (\<lambda>x. s_user_id x = i) (db_sessions (tabs s1))\<rparr>" using i(2) by (auto elim: exec_cases)
  with s1(2) u find_SomeD [of "\<lambda>u. u_name u = name" "db_users (tabs s)" u] show thesis by (intro that [of u]) (auto simp: user_named_def)
qed

text \<open>C36. Setting a new password shuts everybody else out: afterwards no session of that user works any more, the new password is
  accepted, and another one only if it hashes to the same value.\<close>

theorem reset_shuts_out:
  assumes "SetPassword kdf slot salt name password s = (Inr (), s')" and "users_ok s" and "db_net s' = []"
  shows "(\<forall>hash now token x. Session_read hash now token s' = (Inr x, s') \<longrightarrow> se_User x \<noteq> name) \<and>
    (\<exists>i sa. salt = Inr sa \<and> CheckPassword kdf None name password s' = (Inr i, s') \<and>
      (\<forall>other i'. CheckPassword kdf None name other s' = (Inr i', s') \<longrightarrow> kdf other sa passwordIterations = kdf password sa passwordIterations))"
proof -
  obtain h sa where hs: "newPasswordHash kdf slot salt password = Inr (h, sa)" and tx: "in_tx (SetPassword_tx (h, sa) name) s = (Inr (), s')"
    using assms(1) by (auto simp: SetPassword_def bindE_def of_result_def split: sum.splits)
  have sa: "salt = Inr sa" "kdf password sa passwordIterations = Inr h"
    using hs by (auto simp: newPasswordHash_def hashPassword_def split: sum.splits option.splits)
  from tx have "\<exists>s1 s2. tabs s1 = tabs s \<and> SetPassword_tx (h, sa) name s1 = (Inr (), s2) \<and> tabs s' = tabs s2"
  proof (cases rule: in_tx_cases)
    case (ok a s1 s2)
    have a: "a = ()" by simp
    from ok(1) ok(3) [unfolded a] ok(5) show ?thesis by blast
  qed simp_all
  then obtain s1 s2 where b: "tabs s1 = tabs s" "SetPassword_tx (h, sa) name s1 = (Inr (), s2)" "tabs s' = tabs s2" by blast
  obtain u where u: "u \<in> set (db_users (tabs s))" "u_name u = name"
    "db_users (tabs s') = update_where (\<lambda>u. u_name u = name) (set_password (h, sa)) (db_users (tabs s))"
    "db_sessions (tabs s') = delete_where (\<lambda>x. s_user_id x = u_id u) (db_sessions (tabs s))"
    by (rule SetPassword_tx_ok [OF b(2), unfolded b(1) b(3) [symmetric]])
  have inv': "users_inv (tabs s') (db_seq s')" using keepsD [OF keeps_user_ops(2) assms(2,1)] by (simp add: tab_inv_def)
  let ?u = "set_password (h, sa) u"
  have u': "?u \<in> set (db_users (tabs s'))" using u(1,2) by (auto simp: u(3) set_update_where)
  have named: "user_named (tabs s') name = Some ?u"
    using distinct_map_find [of u_name "db_users (tabs s')" ?u] inv' u' u(2) by (simp add: users_inv_def user_named_def)
  have "se_User x \<noteq> name" if x: "Session_read hash now token s' = (Inr x, s')" for hash now token x
  proof
    assume name: "se_User x = name"
    from x obtain ses v where v: "ses \<in> set (db_sessions (tabs s'))" "v \<in> set (db_users (tabs s'))" "u_id v = s_user_id ses" "u_name v = se_User x"
      by (auto simp: Session_quiet [OF assms(3)] session_of_def split: option.splits dest!: find_SomeD)
    then have "v = ?u" using distinct_map_eq [of u_name "db_users (tabs s')" v ?u] inv' u' u(2) name by (simp add: users_inv_def)
    with v(1,3) u(4) show False by simp
  qed
  moreover have "CheckPassword kdf None name password s' = (Inr (u_id u), s')"
    by (simp add: CheckPassword_quiet [OF assms(3)] named set_password_def sa(2))
  moreover have "kdf other sa passwordIterations = kdf password sa passwordIterations" if "CheckPassword kdf None name other s' = (Inr i', s')" for other i'
    using that by (simp add: CheckPassword_quiet [OF assms(3)] named set_password_def sa(2) split: sum.splits if_splits)
  ultimately show ?thesis using sa(1) by blast
qed

text \<open>An example, with a hash that only joins its arguments.\<close>

definition example_kdf :: kdf where
  "example_kdf password salt n = Inr (salt @ password)"

definition example_users :: db where
  "example_users = snd (AddUser example_kdf None (Inr ''s1'') 0 ''ada'' ''correct horse'' RoleAdmin empty_db)"

definition example_logged_in :: "Session result \<times> db" where
  "example_logged_in = Login (\<lambda>x. x) example_kdf None (Inr ''tok'') Hour ''ada'' ''correct horse'' example_users"

definition example_reset :: "unit result \<times> db" where
  "example_reset = SetPassword example_kdf None (Inr ''s2'') ''ada'' ''battery staple'' (snd example_logged_in)"

lemma example_user_steps: "user_step\<^sup>*\<^sup>* empty_db example_users" "user_step\<^sup>*\<^sup>* example_users (snd example_logged_in)"
  unfolding example_users_def example_logged_in_def by (blast intro: user_step.intros)+

lemma example_users_ok: "users_ok example_users" "users_ok (snd example_logged_in)"
proof -
  have "users_ok empty_db" by (simp add: tab_inv_def users_inv_def empty_db_def no_rows_def)
  from user_steps_inv [OF example_user_steps(1) this] show "users_ok example_users" .
  from user_steps_inv [OF example_user_steps(2) this] show "users_ok (snd example_logged_in)" .
qed

theorem users_invariant_witness:
  "u_role (hd (db_users (tabs (snd example_logged_in)))) = RoleAdmin \<or> u_role (hd (db_users (tabs (snd example_logged_in)))) = RoleViewer"
proof -
  have "length (db_users (tabs (snd example_logged_in))) = 1" by code_simp
  then have "hd (db_users (tabs (snd example_logged_in))) \<in> set (db_users (tabs (snd example_logged_in)))" by (intro hd_in_set) auto
  moreover have "db_users (tabs empty_db) = []" "db_sessions (tabs empty_db) = []" by (simp_all add: empty_db_def no_rows_def)
  ultimately show ?thesis using users_invariant [OF rtranclp_trans [OF example_user_steps]] by blast
qed

lemma example_login: "\<exists>session. Login (\<lambda>x. x) example_kdf None (Inr ''tok'') Hour ''ada'' ''correct horse'' example_users = (Inr session, snd example_logged_in) \<and> se_Token session = ''tok''"
proof -
  have "map_sum (\<lambda>_. ()) se_Token (fst example_logged_in) = Inr ''tok''" by code_simp
  then obtain session where "fst example_logged_in = Inr session" "se_Token session = ''tok''" by (cases "fst example_logged_in") auto
  then show ?thesis by (auto simp: example_logged_in_def prod_eq_iff)
qed

theorem login_roundtrip_witness:
  "Session_read (\<lambda>x. x) (2 * Hour) ''tok'' (snd example_logged_in) =
    (Inr \<lparr>se_Token = [], se_User = ''ada'', se_Role = RoleAdmin, se_Expires = timestamptz (Hour + SessionTTL)\<rparr>, snd example_logged_in)"
proof -
  obtain session where l: "Login (\<lambda>x. x) example_kdf None (Inr ''tok'') Hour ''ada'' ''correct horse'' example_users = (Inr session, snd example_logged_in)"
    and t: "se_Token session = ''tok''" using example_login by blast
  have net: "db_net (snd example_logged_in) = []" by code_simp
  have late: "2 * Hour < timestamptz (Hour + SessionTTL)" by code_simp
  have "map u_role (db_users (tabs example_users)) = [RoleAdmin]" by code_simp
  then have role: "u_role u = RoleAdmin" if "u \<in> set (db_users (tabs example_users))" for u using that by auto
  from login_roundtrip [OF l example_users_ok(1) net] obtain u where "u \<in> set (db_users (tabs example_users))"
    "Session_read (\<lambda>x. x) (2 * Hour) (se_Token session) (snd example_logged_in) = (if 2 * Hour < timestamptz (Hour + SessionTTL)
        then Inr \<lparr>se_Token = [], se_User = ''ada'', se_Role = u_role u, se_Expires = timestamptz (Hour + SessionTTL)\<rparr> else Inl ErrBadSession, snd example_logged_in)" by blast
  with late role t show ?thesis by simp
qed

theorem reset_shuts_out_witness:
  "\<exists>i. CheckPassword example_kdf None ''ada'' ''battery staple'' (snd example_reset) = (Inr i, snd example_reset)"
proof -
  have "fst example_reset = Inr ()" by code_simp
  then have r: "SetPassword example_kdf None (Inr ''s2'') ''ada'' ''battery staple'' (snd example_logged_in) = (Inr (), snd example_reset)"
    by (simp add: example_reset_def prod_eq_iff)
  have net: "db_net (snd example_reset) = []" by code_simp
  from reset_shuts_out [OF r example_users_ok(2) net] show ?thesis by blast
qed

end
