(* ===== verification/Logins.thy ===== *)
theory Logins
  imports Users Api "HOL-Library.AList"
begin

text \<open>
  The collector's calls about logins, and the limit on wrong passwords: internal/api/login.go. The lock is held within \<open>blocked\<close>,
  \<open>fail\<close> and \<open>clear\<close> each, not over a whole attempt; the bound below is for attempts one after the other.
\<close>

section \<open>The login limit\<close>

definition loginLimit :: int where
  "loginLimit = 10"

definition loginWindow :: duration where
  "loginWindow = 15 * Minute"

definition errTooManyLogins :: error where
  "errTooManyLogins = ErrStatus ResourceExhausted (err_text ''too many failed logins, try again later'')"

record failureWindow =
  fw_count :: int
  fw_since :: time

text \<open>The map by name, as the list of its entries in any order.\<close>

type_synonym loginFailures = "(string \<times> failureWindow) list"

definition blocked :: "time \<Rightarrow> string \<Rightarrow> loginFailures \<Rightarrow> bool" where
  "blocked now name l = (case map_of l name of None \<Rightarrow> False
     | Some w \<Rightarrow> fw_count w \<ge> loginLimit \<and> time_sub now (fw_since w) < loginWindow)"

definition forget_old :: "time \<Rightarrow> loginFailures \<Rightarrow> loginFailures" where
  "forget_old now l = (if length l > 1000 then filter (\<lambda>(_, w). time_sub now (fw_since w) < loginWindow) l else l)"

definition fail_login :: "time \<Rightarrow> string \<Rightarrow> loginFailures \<Rightarrow> loginFailures" where
  "fail_login now name l0 =
     (let l = forget_old now l0;
          w = (case map_of l name of
                 Some w \<Rightarrow> if time_sub now (fw_since w) \<ge> loginWindow then \<lparr>fw_count = 0, fw_since = now\<rparr> else w
               | None \<Rightarrow> \<lparr>fw_count = 0, fw_since = now\<rparr>)
      in AList.update name (w\<lparr>fw_count := fw_count w + 1\<rparr>) l)"

definition clear_login :: "string \<Rightarrow> loginFailures \<Rightarrow> loginFailures" where
  "clear_login name l = AList.delete name l"

text \<open>The part of \<open>Server\<close> that logins use.\<close>

record login_server =
  ls_db :: db
  ls_logins :: loginFailures

definition on_login_db :: "('a, db) act \<Rightarrow> ('a, login_server) act" where
  "on_login_db m c = (case m (ls_db c) of (r, s) \<Rightarrow> (r, c\<lparr>ls_db := s\<rparr>))"

text \<open>\<open>now\<close> is the time when the call is let through or not, \<open>now'\<close> the time a wrong password is counted.\<close>

definition checkLogin :: "time \<Rightarrow> time \<Rightarrow> string \<Rightarrow> ('a, login_server) act \<Rightarrow> ('a, login_server) act" where
  "checkLogin now now' name check c =
     (if blocked now name (ls_logins c) then (Inl errTooManyLogins, c)
      else case check c of
        (Inl e, c') \<Rightarrow>
          (Inl (toStatus e), if errors_Is e ErrBadLogin then c'\<lparr>ls_logins := fail_login now' name (ls_logins c')\<rparr> else c')
      | (Inr a, c') \<Rightarrow> (Inr a, c'\<lparr>ls_logins := clear_login name (ls_logins c')\<rparr>))"

record SessionInfo =
  sn_Token :: string
  sn_User :: string
  sn_Role :: string
  sn_Expires :: int

definition api_Login :: "hash \<Rightarrow> kdf \<Rightarrow> error option \<Rightarrow> string result \<Rightarrow> time \<Rightarrow> time \<Rightarrow> string \<Rightarrow> string \<Rightarrow> (SessionInfo, login_server) act" where
  "api_Login hash kdf slot secret now now' user password =
     bindE (checkLogin now now' user (on_login_db (Login hash kdf slot secret now user password))) (\<lambda>session.
     ret \<lparr>sn_Token = se_Token session, sn_User = se_User session, sn_Role = se_Role session, sn_Expires = time_toUnix (se_Expires session)\<rparr>)"

definition api_CheckPassword :: "kdf \<Rightarrow> error option \<Rightarrow> time \<Rightarrow> time \<Rightarrow> string \<Rightarrow> string \<Rightarrow> (unit, login_server) act" where
  "api_CheckPassword kdf slot now now' user password =
     bindE (checkLogin now now' user (on_login_db (CheckPassword kdf slot user password))) (\<lambda>_. ret ())"

definition CheckSession :: "hash \<Rightarrow> time \<Rightarrow> string \<Rightarrow> (SessionInfo, login_server) act" where
  "CheckSession hash now token =
     bindE (map_err toStatus (on_login_db (Session_read hash now token))) (\<lambda>session.
     ret \<lparr>sn_Token = [], sn_User = se_User session, sn_Role = se_Role session, sn_Expires = time_toUnix (se_Expires session)\<rparr>)"

definition api_ChangePassword ::
  "hash \<Rightarrow> kdf \<Rightarrow> error option \<Rightarrow> error option \<Rightarrow> string result \<Rightarrow> time \<Rightarrow> time \<Rightarrow> string \<Rightarrow> string \<Rightarrow> string \<Rightarrow> (unit, login_server) act" where
  "api_ChangePassword hash kdf slot slot' salt now now' token current new =
     bindE (map_err toStatus (on_login_db (Session_read hash now token))) (\<lambda>session.
     checkLogin now now' (se_User session) (on_login_db (ChangePassword hash kdf slot slot' salt now token current new)))"

definition api_Logout :: "hash \<Rightarrow> string \<Rightarrow> (unit, login_server) act" where
  "api_Logout hash token = map_err toStatus (on_login_db (Logout hash token))"

definition api_HasUsers :: "(bool, login_server) act" where
  "api_HasUsers = map_err toStatus (on_login_db HasUsers)"

section \<open>Guesses\<close>

lemma loginWindow_exact: "time_sub now since < loginWindow \<longleftrightarrow> now - since < loginWindow"
  by (auto simp: time_sub_def loginWindow_def Minute_def Second_def)

text \<open>
  The guesses at one name: the times of the attempts that were let through and found the password wrong, with the latest
  time of anything so far, in a history without a successful login under that name. Attempts come one after the other; in
  between the database may change, and other names may be tried.
\<close>

definition wrong_password :: "time \<Rightarrow> string \<Rightarrow> (unit, db) act \<Rightarrow> login_server \<Rightarrow> bool" where
  "wrong_password now name m c \<longleftrightarrow> \<not> blocked now name (ls_logins c) \<and> (\<exists>e. fst (m (ls_db c)) = Inl e \<and> errors_Is e ErrBadLogin)"

inductive guessed :: "string \<Rightarrow> time list \<Rightarrow> time \<Rightarrow> login_server \<Rightarrow> bool" for name where
  start: "distinct (map fst (ls_logins c)) \<Longrightarrow> map_of (ls_logins c) name = None \<Longrightarrow> guessed name [] T c"
| database: "guessed name F T c \<Longrightarrow> guessed name F T (c\<lparr>ls_db := s\<rparr>)"
| attempt: "guessed name F T c \<Longrightarrow> T \<le> now \<Longrightarrow> now \<le> now' \<Longrightarrow> checkLogin now now' who (on_login_db m) c = (res, c') \<Longrightarrow>
    (who = name \<longrightarrow> res \<noteq> Inr ()) \<Longrightarrow> guessed name (if who = name \<and> wrong_password now name m c then F @ [now'] else F) now' c'"

text \<open>The guesses in windows: each with its start and at most ten guesses, each starting after the one before has ended, and the entry
  for the name, if there is one, being the last.\<close>

definition in_windows :: "string \<Rightarrow> (time \<times> time list) list \<Rightarrow> time \<Rightarrow> loginFailures \<Rightarrow> bool" where
  "in_windows name ws T l \<longleftrightarrow>
     (\<forall>w \<in> set ws. fst w \<le> T \<and> int (length (snd w)) \<le> loginLimit \<and> (\<forall>x \<in> set (snd w). fst w \<le> x \<and> x < fst w + loginWindow)) \<and>
     sorted_wrt (\<lambda>w w'. fst w + loginWindow \<le> fst w') ws \<and>
     (case map_of l name of
        None \<Rightarrow> \<forall>w \<in> set ws. fst w + loginWindow \<le> T
      | Some e \<Rightarrow> \<exists>ws' ts. ws = ws' @ [(fw_since e, ts)] \<and> fw_count e = int (length ts))"

lemma in_windows_later: "in_windows name ws T l \<Longrightarrow> T \<le> T' \<Longrightarrow> map_of l' name = map_of l name \<Longrightarrow> in_windows name ws T' l'"
  by (force simp: in_windows_def split: option.splits)

lemma in_windows_gone:
  assumes "in_windows name ws T l" and "T \<le> now" and "\<And>e. map_of l name = Some e \<Longrightarrow> fw_since e + loginWindow \<le> now"
  shows "\<forall>w \<in> set ws. fst w + loginWindow \<le> now"
proof (cases "map_of l name")
  case None
  with assms(1,2) show ?thesis by (force simp: in_windows_def)
next
  case (Some e)
  then obtain ws' ts where ws: "ws = ws' @ [(fw_since e, ts)]" "sorted_wrt (\<lambda>w w'. fst w + loginWindow \<le> fst w') ws"
    using assms(1) by (auto simp: in_windows_def)
  have "0 \<le> loginWindow" by (simp add: loginWindow_def Minute_def Second_def)
  with ws assms(3) [OF Some] show ?thesis by (auto simp: sorted_wrt_append)
qed

lemma in_windows_new:
  assumes "in_windows name ws T l" and "\<forall>w \<in> set ws. fst w + loginWindow \<le> now" and "T \<le> now"
    and "map_of l' name = Some \<lparr>fw_count = 1, fw_since = now\<rparr>"
  shows "in_windows name (ws @ [(now, [now])]) now l'"
  using assms by (force simp: in_windows_def sorted_wrt_append loginLimit_def loginWindow_def Minute_def Second_def)

lemma map_of_forget_old:
  "map_of (forget_old now l) name = (case map_of l name of None \<Rightarrow> None
     | Some e \<Rightarrow> if length l > 1000 \<and> \<not> now - fw_since e < loginWindow then None else Some e)" if "distinct (map fst l)"
proof -
  have "map_of (filter (\<lambda>(_, w). P w) l) name = (case map_of l name of None \<Rightarrow> None | Some e \<Rightarrow> if P e then Some e else None)" for P
    using that by (induction l) (auto split: option.splits dest: map_of_SomeD simp: map_of_eq_None_iff image_iff)
  then show ?thesis by (auto simp: forget_old_def loginWindow_exact split: option.splits)
qed


lemma distinct_forget_old: "distinct (map fst l) \<Longrightarrow> distinct (map fst (forget_old now l))"
  by (simp add: forget_old_def distinct_map_filter)

lemma distinct_fail_login: "distinct (map fst l) \<Longrightarrow> distinct (map fst (fail_login now name l))"
  by (simp add: fail_login_def Let_def distinct_update distinct_forget_old)

lemma in_windows_forget:
  assumes "in_windows name ws T l" and "T \<le> now" and "distinct (map fst l)"
  shows "in_windows name ws now (forget_old now l)"
proof (cases "map_of (forget_old now l) name = map_of l name")
  case True
  with in_windows_later [OF assms(1,2)] show ?thesis by simp
next
  case False
  then have none: "map_of (forget_old now l) name = None" and old: "\<And>e. map_of l name = Some e \<Longrightarrow> fw_since e + loginWindow \<le> now"
    by (auto simp: map_of_forget_old [OF assms(3)] split: option.splits if_splits)
  from in_windows_gone [OF assms(1,2) old] none assms(1,2) show ?thesis by (force simp: in_windows_def)
qed

lemma in_windows_fail:
  assumes w: "in_windows name ws T l" and "T \<le> now" and "now \<le> now'" and d: "distinct (map fst l)" and "\<not> blocked now name l"
  shows "\<exists>ws'. in_windows name ws' now' (fail_login now' name l) \<and> concat (map snd ws') = concat (map snd ws) @ [now']"
proof -
  let ?l = "forget_old now' l"
  have T: "T \<le> now'" using assms(2,3) by simp
  note f = in_windows_forget [OF w T d]
  show ?thesis
  proof (cases "\<exists>e. map_of ?l name = Some e \<and> now' - fw_since e < loginWindow")
    case False
    then have old: "\<And>e. map_of ?l name = Some e \<Longrightarrow> fw_since e + loginWindow \<le> now'" by force
    have "map_of (fail_login now' name l) name = Some \<lparr>fw_count = 1, fw_since = now'\<rparr>"
      using False by (auto simp: fail_login_def Let_def update_conv' loginWindow_exact not_less [symmetric] split: option.splits)
    from in_windows_new [OF f in_windows_gone [OF f _ old] _ this] show ?thesis by (intro exI [of _ "ws @ [(now', [now'])]"]) simp
  next
    case True
    then obtain e where e: "map_of ?l name = Some e" "now' - fw_since e < loginWindow" by blast
    then have "map_of l name = Some e" by (auto simp: map_of_forget_old [OF d] split: option.splits if_splits)
    then have few: "fw_count e < loginLimit" using assms(3,5) e(2) by (auto simp: blocked_def loginWindow_exact)
    obtain ws' ts where ws: "ws = ws' @ [(fw_since e, ts)]" "fw_count e = int (length ts)" using f e(1) by (auto simp: in_windows_def)
    have new: "map_of (fail_login now' name l) name = Some (e\<lparr>fw_count := fw_count e + 1\<rparr>)"
      using e by (auto simp: fail_login_def Let_def update_conv' loginWindow_exact not_less [symmetric])
    have "in_windows name (ws' @ [(fw_since e, ts @ [now'])]) now' (fail_login now' name l)"
      using f few e(2) new ws by (auto simp: in_windows_def sorted_wrt_append)
    then show ?thesis by (intro exI [of _ "ws' @ [(fw_since e, ts @ [now'])]"]) (simp add: ws)
  qed
qed

lemma guessed_windows:
  assumes "guessed name F T c"
  shows "distinct (map fst (ls_logins c)) \<and> (\<exists>ws. in_windows name ws T (ls_logins c) \<and> F = concat (map snd ws))"
  using assms
proof induction
  case (start c T)
  then show ?case by (auto simp: in_windows_def intro!: exI [of _ "[]"])
next
  case (database F T c s)
  then show ?case by simp
next
  case (attempt F T c now now' who m res c')
  obtain r s1 where m: "m (ls_db c) = (r, s1)" by (cases "m (ls_db c)")
  from attempt.IH obtain ws where d: "distinct (map fst (ls_logins c))" and ws: "in_windows name ws T (ls_logins c)" "F = concat (map snd ws)" by blast
  have T: "T \<le> now'" using attempt.hyps(2,3) by simp
  let ?l = "ls_logins c" and ?l' = "ls_logins c'"
  consider (same) "?l' = ?l" "\<not> (who = name \<and> wrong_password now name m c)"
    | (wrong) "?l' = fail_login now' who ?l" "\<not> blocked now who ?l" "who = name \<longrightarrow> wrong_password now name m c"
    | (right) "?l' = clear_login who ?l" "who \<noteq> name"
  proof (cases "blocked now who ?l")
    case True
    with attempt.hyps(4) show thesis by (intro same) (auto simp: checkLogin_def wrong_password_def)
  next
    case False
    show thesis
    proof (cases r)
      case (Inl e)
      show thesis
      proof (cases "errors_Is e ErrBadLogin")
        case True
        have "?l' = fail_login now' who ?l" using attempt.hyps(4) False m Inl True by (auto simp: checkLogin_def on_login_db_def)
        then show thesis using False m Inl True by (intro wrong) (auto simp: wrong_password_def)
      next
        case wrong: False
        have "?l' = ?l" using attempt.hyps(4) False m Inl wrong by (auto simp: checkLogin_def on_login_db_def)
        then show thesis using m Inl wrong by (intro same) (auto simp: wrong_password_def)
      qed
    next
      case (Inr u)
      have "?l' = clear_login who ?l" "res = Inr ()" using attempt.hyps(4) False m Inr by (auto simp: checkLogin_def on_login_db_def)
      then show thesis using attempt.hyps(5) by (intro right) auto
    qed
  qed
  then show ?case
  proof cases
    case same
    with d ws in_windows_later [OF ws(1) T, of ?l'] show ?thesis by auto
  next
    case wrong
    show ?thesis
    proof (cases "who = name")
      case True
      with wrong in_windows_fail [OF ws(1) attempt.hyps(2,3) d] ws(2) distinct_fail_login [OF d] show ?thesis by auto
    next
      case False
      have "map_of ?l' name = map_of (forget_old now' ?l) name" using False by (simp add: wrong(1) fail_login_def Let_def update_conv')
      with in_windows_later [OF in_windows_forget [OF ws(1) T d], of now' ?l'] False ws(2) distinct_fail_login [OF d] wrong(1)
      show ?thesis by auto
    qed
  next
    case right
    have "map_of ?l' name = map_of ?l name" using right by (simp add: clear_login_def delete_conv')
    with in_windows_later [OF ws(1) T, of ?l'] right ws(2) d show ?thesis by (auto simp: clear_login_def distinct_delete)
  qed
qed

lemma few_windows:
  assumes "sorted_wrt (\<lambda>w w'. fst w + W \<le> fst w') ws" and "\<forall>w \<in> set ws. t < fst w + W \<and> fst w < t + (W :: int)"
  shows "length ws \<le> 2"
proof (rule ccontr)
  assume "\<not> length ws \<le> 2"
  then obtain a b c ws' where "ws = a # b # c # ws'" by (cases ws; cases "tl ws"; cases "tl (tl ws)") auto
  with assms show False by force
qed

lemma guesses_in_windows:
  fixes W :: int
  assumes "\<forall>w \<in> set ws. int (length (snd w)) \<le> n \<and> (\<forall>x \<in> set (snd w). fst w \<le> x \<and> x < fst w + W)" and "0 \<le> n"
  shows "int (length (filter (\<lambda>x. t \<le> x \<and> x < t + W) (concat (map snd ws)))) \<le> n * int (length (filter (\<lambda>w. t < fst w + W \<and> fst w < t + W) ws))"
  using assms(1)
proof (induction ws)
  case (Cons w ws)
  have "int (length (filter (\<lambda>x. t \<le> x \<and> x < t + W) (snd w))) \<le> (if t < fst w + W \<and> fst w < t + W then n else 0)"
  proof (cases "t < fst w + W \<and> fst w < t + W")
    case True
    have "int (length (filter (\<lambda>x. t \<le> x \<and> x < t + W) (snd w))) \<le> int (length (snd w))" by (simp add: length_filter_le)
    also have "\<dots> \<le> n" using Cons.prems by simp
    finally show ?thesis using True by simp
  next
    case False
    have "\<not> (t \<le> x \<and> x < t + W)" if "x \<in> set (snd w)" for x
    proof -
      have "fst w \<le> x" "x < fst w + W" using Cons.prems that by auto
      with False show ?thesis by linarith
    qed
    then have "filter (\<lambda>x. t \<le> x \<and> x < t + W) (snd w) = []" by (simp add: filter_empty_conv)
    with assms(2) show ?thesis by simp
  qed
  with Cons show ?case by (auto simp: distrib_left split: if_splits)
qed simp

section \<open>Properties\<close>




end
