(* ===== verification/StoreRules.thy ===== *)
theory StoreRules
  imports Notifications
begin

text \<open>
  Alert rules in the database: internal/store/rules.go, and collector/rules.go that fills it from a file. A jsonb
  column holds the rule itself; \<open>parse\<close> is \<open>url.Parse\<close>, which validation uses. The indexes alert_rules_name_key and
  alerts_one_open are checked where a statement could violate them.
\<close>

section \<open>Reading\<close>

definition DefaultHeartbeat :: AlertConfig where
  "DefaultHeartbeat = zero_rule\<lparr>rule_Name := ''Host not reporting'', rule_Description := ''Added by SyMon for every host'',
     rule_MetricName := PING, rule_Servers := [AllHosts], rule_TriggerIntveral := 300,
     rule_Template := ''{subject}'' @ [CHR 0x0A] @ ''{serverName} has sent nothing for over {triggerInterval} seconds''\<rparr>"

record AlertRule =
  ar_ID :: int
  ar_Enabled :: bool
  ar_Rule :: AlertConfig
  ar_UpdatedAt :: time
  ar_UpdatedBy :: string

text \<open>\<open>ORDER BY name\<close> compares bytes here, where the database has its own collation; which one it is shows in no statement about rules
  but in the order they are listed in.\<close>

definition rule_of_row :: "rule_row \<Rightarrow> AlertRule" where
  "rule_of_row r = \<lparr>ar_ID = r_id r, ar_Enabled = r_enabled r, ar_Rule = r_rule r, ar_UpdatedAt = r_updated_at r, ar_UpdatedBy = r_updated_by r\<rparr>"

definition AlertRules :: "(AlertRule list, db) act" where
  "AlertRules = query (\<lambda>t. map rule_of_row (sort_key r_name (db_rules t)))"

definition EnabledRules :: "(AlertConfig list, db) act" where
  "EnabledRules = bindE (query (\<lambda>t. map rule_of_row (filter r_enabled (sort_key r_name (db_rules t))))) (\<lambda>rules. ret (map ar_Rule rules))"

section \<open>Editing\<close>

text \<open>\<open>checkRule\<close> works on the caller's rule, so what comes back is the rule after trimming.\<close>

definition checkRule :: "url_parse \<Rightarrow> AlertConfig \<Rightarrow> AlertConfig result" where
  "checkRule parse rule = (case Validate parse rule of (Inl e, _) \<Rightarrow> Inl (ErrInvalidOf e) | (Inr _, rule') \<Rightarrow> Inr rule')"

definition new_rule :: "time \<Rightarrow> int \<Rightarrow> AlertConfig \<Rightarrow> bool \<Rightarrow> string \<Rightarrow> rule_row" where
  "new_rule now i rule enabled who =
     \<lparr>r_id = i, r_name = rule_Name rule, r_rule = rule, r_enabled = enabled, r_updated_at = timestamptz now, r_updated_by = who\<rparr>"

definition insert_rule :: "time \<Rightarrow> AlertConfig \<Rightarrow> bool \<Rightarrow> string \<Rightarrow> int \<Rightarrow> tables \<Rightarrow> int result \<times> tables" where
  "insert_rule now rule enabled who i t =
     (if \<exists>r \<in> set (db_rules t). r_name r = rule_Name rule then (Inl ErrUnique, t)
      else (Inr i, t\<lparr>db_rules := db_rules t @ [new_rule now i rule enabled who]\<rparr>))"

definition CreateRule :: "url_parse \<Rightarrow> time \<Rightarrow> AlertConfig \<Rightarrow> bool \<Rightarrow> string \<Rightarrow> (int, db) act" where
  "CreateRule parse now rule0 enabled who =
     bindE (of_result (checkRule parse rule0)) (\<lambda>rule. on_unique ErrRuleExists (insert_into T_rules (insert_rule now rule enabled who)))"

definition rule_alert :: "string \<Rightarrow> alert_row \<Rightarrow> bool" where
  "rule_alert rule a \<longleftrightarrow> a_rule a = rule \<and> is_open a"

definition resolve_row :: "time \<Rightarrow> alert_row \<Rightarrow> alert_row" where
  "resolve_row now a = a\<lparr>a_resolved_at := Some (timestamptz now), a_updated_at := timestamptz now\<rparr>"

definition resolveRuleAlerts :: "time \<Rightarrow> string \<Rightarrow> (unit, db) act" where
  "resolveRuleAlerts now rule = exec (\<lambda>t. ((), t\<lparr>db_alerts := update_where (rule_alert rule) (resolve_row now) (db_alerts t)\<rparr>))"

text \<open>The two statements of a new name. Alerts that would then be open twice violate the index.\<close>

definition rename_alerts :: "string \<Rightarrow> string \<Rightarrow> (unit, db) act" where
  "rename_alerts old new = dbcall (\<lambda>s.
     let as' = update_where (rule_alert old) (\<lambda>a. a\<lparr>a_rule := new\<rparr>) (db_alerts (tabs s)) in
     if \<not> distinct (map index_key (filter is_open as')) then (Inl ErrUnique, s)
     else (Inr (), s\<lparr>tabs := (tabs s)\<lparr>db_alerts := as'\<rparr>\<rparr>))"

definition rename_checks :: "string \<Rightarrow> string \<Rightarrow> (unit, db) act" where
  "rename_checks old new = exec (\<lambda>t. ((), t\<lparr>db_checks := update_where (\<lambda>c. ec_name c = old) (\<lambda>c. c\<lparr>ec_name := new\<rparr>) (db_checks t)\<rparr>))"

definition replace_rule :: "time \<Rightarrow> int \<Rightarrow> AlertConfig \<Rightarrow> bool \<Rightarrow> string \<Rightarrow> (unit, db) act" where
  "replace_rule now i rule enabled who = dbcall (\<lambda>s.
     if \<exists>r \<in> set (db_rules (tabs s)). r_id r = i \<and> (\<exists>r' \<in> set (db_rules (tabs s)). r_name r' = rule_Name rule \<and> r_id r' \<noteq> i) then (Inl ErrUnique, s)
     else (Inr (), s\<lparr>tabs := (tabs s)\<lparr>db_rules := update_where (\<lambda>r. r_id r = i) (\<lambda>_. new_rule now i rule enabled who) (db_rules (tabs s))\<rparr>\<rparr>))"

definition UpdateRule_tx :: "time \<Rightarrow> int \<Rightarrow> AlertConfig \<Rightarrow> bool \<Rightarrow> string \<Rightarrow> (unit, db) act" where
  "UpdateRule_tx now i rule enabled who =
     bindE (query (\<lambda>t. map_option r_name (find (\<lambda>r. r_id r = i) (db_rules t)))) (\<lambda>row.
     case row of
       None \<Rightarrow> fail ErrNotFound
     | Some oldName \<Rightarrow>
         bindE (on_unique ErrRuleExists (replace_rule now i rule enabled who)) (\<lambda>_.
         bindE (if rule_Name rule \<noteq> oldName then bindE (rename_alerts oldName (rule_Name rule)) (\<lambda>_. rename_checks oldName (rule_Name rule)) else ret ()) (\<lambda>_.
         if \<not> enabled then resolveRuleAlerts now (rule_Name rule) else ret ())))"

definition UpdateRule :: "url_parse \<Rightarrow> time \<Rightarrow> int \<Rightarrow> AlertConfig \<Rightarrow> bool \<Rightarrow> string \<Rightarrow> (unit, db) act" where
  "UpdateRule parse now i rule0 enabled who =
     bindE (of_result (checkRule parse rule0)) (\<lambda>rule. in_tx (UpdateRule_tx now i rule enabled who))"

definition DeleteRule_tx :: "time \<Rightarrow> int \<Rightarrow> (unit, db) act" where
  "DeleteRule_tx now i =
     bindE (exec (\<lambda>t. (map_option r_name (find (\<lambda>r. r_id r = i) (db_rules t)), t\<lparr>db_rules := delete_where (\<lambda>r. r_id r = i) (db_rules t)\<rparr>))) (\<lambda>row.
     case row of None \<Rightarrow> fail ErrNotFound | Some name \<Rightarrow> resolveRuleAlerts now name)"

definition DeleteRule :: "time \<Rightarrow> int \<Rightarrow> (unit, db) act" where
  "DeleteRule now i = in_tx (DeleteRule_tx now i)"

section \<open>Setting up\<close>

definition RulesSetUp :: "(bool, db) act" where
  "RulesSetUp = query (\<lambda>t. db_setup t \<noteq> [])"

record RuleSetup =
  rs_Done :: bool
  rs_Imported :: int
  rs_Added :: "string list"

text \<open>A transaction that returns without a commit when its result is an early one; the deferred rollback then has nothing to undo but
  what the body did.\<close>

definition in_tx_unless :: "('a \<Rightarrow> bool) \<Rightarrow> ('a, db) act \<Rightarrow> ('a, db) act" where
  "in_tx_unless early body = bindE (query (\<lambda>_. ())) (\<lambda>_ s. case body s of
     (Inl e, s') \<Rightarrow> (Inl e, s'\<lparr>tabs := tabs s\<rparr>)
   | (Inr a, s') \<Rightarrow>
       if early a then (Inr a, s'\<lparr>tabs := tabs s\<rparr>)
       else (case db_net s' of
          [] \<Rightarrow> (Inr a, s')
        | Done # rest \<Rightarrow> (Inr a, set_net rest s')
        | Failed m # rest \<Rightarrow> (Inl (ErrDB m), set_net rest (s'\<lparr>tabs := tabs s\<rparr>))
        | Lost m # rest \<Rightarrow> (Inl (ErrDB m), set_net rest s')))"

definition insertRule :: "time \<Rightarrow> AlertConfig \<Rightarrow> string \<Rightarrow> (unit, db) act" where
  "insertRule now rule who = bindE (on_unique ErrRuleExists (insert_into T_rules (insert_rule now rule True who))) (\<lambda>_. ret ())"

text \<open>An error of the store with the rule's name in front.\<close>

definition in_rule :: "string \<Rightarrow> ('a, 's) act \<Rightarrow> ('a, 's) act" where
  "in_rule name m s = (case m s of (Inl e, s') \<Rightarrow> (Inl (ErrWrap ''rule %q: %w'' [name] e), s') | r \<Rightarrow> r)"

definition all_hosts_heartbeat :: "AlertConfig \<Rightarrow> bool" where
  "all_hosts_heartbeat rule \<longleftrightarrow> rule_MetricName rule = PING \<and> AllHosts \<in> set (rule_Servers rule)"

text \<open>The loop over the file's rules gives the rules as they were stored.\<close>

fun setup_each :: "url_parse \<Rightarrow> time \<Rightarrow> AlertConfig list \<Rightarrow> (AlertConfig list, db) act" where
  "setup_each parse now [] = ret []"
| "setup_each parse now (rule0 # rules) =
     bindE (in_rule (rule_Name (snd (Validate parse rule0))) (of_result (checkRule parse rule0))) (\<lambda>rule.
     bindE (in_rule (rule_Name rule) (insertRule now rule [])) (\<lambda>_.
     bindE (setup_each parse now rules) (\<lambda>stored. ret (rule # stored))))"

definition SetupRules_tx :: "url_parse \<Rightarrow> time \<Rightarrow> AlertConfig list \<Rightarrow> string \<Rightarrow> (RuleSetup, db) act" where
  "SetupRules_tx parse now rules source =
     bindE (query (\<lambda>_. ())) (\<lambda>_.
     bindE RulesSetUp (\<lambda>before.
     if before then ret \<lparr>rs_Done = True, rs_Imported = 0, rs_Added = []\<rparr>
     else bindE (setup_each parse now rules) (\<lambda>stored.
       let heartbeat = (\<not> list_ex all_hosts_heartbeat stored \<and> rule_Name DefaultHeartbeat \<notin> rule_Name ` set stored) in
       bindE (if heartbeat then insertRule now DefaultHeartbeat [] else ret ()) (\<lambda>_.
       bindE (exec (\<lambda>t. ((), t\<lparr>db_setup := db_setup t @ [\<lparr>su_source = source, su_imported = int (length stored)\<rparr>]\<rparr>))) (\<lambda>_.
       ret \<lparr>rs_Done = False, rs_Imported = int (length stored), rs_Added = (if heartbeat then [rule_Name DefaultHeartbeat] else [])\<rparr>)))))"

definition SetupRules :: "url_parse \<Rightarrow> time \<Rightarrow> AlertConfig list \<Rightarrow> string \<Rightarrow> (RuleSetup, db) act" where
  "SetupRules parse now rules source = in_tx_unless rs_Done (SetupRules_tx parse now rules source)"

text \<open>\<open>ImportRules\<close>: every rule is checked before the batch is sent; the batch is one transaction of upserts.\<close>

fun check_each :: "url_parse \<Rightarrow> AlertConfig list \<Rightarrow> AlertConfig list result" where
  "check_each parse [] = Inr []"
| "check_each parse (rule0 # rules) = (case checkRule parse rule0 of
     Inl e \<Rightarrow> Inl (ErrWrap ''rule %q: %w'' [rule_Name (snd (Validate parse rule0))] e)
   | Inr rule \<Rightarrow> (case check_each parse rules of Inl e \<Rightarrow> Inl e | Inr rest \<Rightarrow> Inr (rule # rest)))"

definition upsert_rule :: "time \<Rightarrow> string \<Rightarrow> AlertConfig \<Rightarrow> int \<Rightarrow> rule_row list \<Rightarrow> rule_row list" where
  "upsert_rule now who rule i rs =
     (if \<exists>r \<in> set rs. r_name r = rule_Name rule
      then update_where (\<lambda>r. r_name r = rule_Name rule) (\<lambda>r. r\<lparr>r_rule := rule, r_updated_at := timestamptz now, r_updated_by := who\<rparr>) rs
      else rs @ [new_rule now i rule True who])"

fun import_each :: "time \<Rightarrow> string \<Rightarrow> AlertConfig list \<Rightarrow> int \<Rightarrow> rule_row list \<Rightarrow> (int \<times> int) \<times> rule_row list" where
  "import_each now who [] i rs = ((0, 0), rs)"
| "import_each now who (rule # rules) i rs =
     (let isnew = \<not> (\<exists>r \<in> set rs. r_name r = rule_Name rule);
          ((a, u), rs') = import_each now who rules (i + 1) (upsert_rule now who rule (i + 1) rs)
      in ((if isnew then a + 1 else a, if isnew then u else u + 1), rs'))"

definition ImportRules :: "url_parse \<Rightarrow> time \<Rightarrow> AlertConfig list \<Rightarrow> string \<Rightarrow> (int \<times> int, db) act" where
  "ImportRules parse now rules0 who =
     bindE (of_result (check_each parse rules0)) (\<lambda>rules.
     dbcall (\<lambda>s. let (n, rs) = import_each now who rules (db_seq s T_rules) (db_rules (tabs s)) in
       (Inr n, s\<lparr>db_seq := (db_seq s)(T_rules := db_seq s T_rules + int (length rules)), tabs := (tabs s)\<lparr>db_rules := rs\<rparr>\<rparr>)))"

section \<open>The collector's commands\<close>

text \<open>\<open>setupRules\<close> when the collector starts. An error ends the collector. \<open>path\<close> is empty when there is no file.\<close>

definition setupRules :: "url_parse \<Rightarrow> (string \<Rightarrow> AlertConfig list result) \<Rightarrow> (string \<Rightarrow> string result) \<Rightarrow> time \<Rightarrow> string \<Rightarrow> (unit, db) act" where
  "setupRules parse decode read_file now path =
     bindE RulesSetUp (\<lambda>before.
     if before then ret ()
     else bindE (if path \<noteq> [] then of_result (LoadRules parse decode read_file path) else ret []) (\<lambda>rules.
       bindE (SetupRules parse now rules path) (\<lambda>_. ret ())))"

definition importRules :: "url_parse \<Rightarrow> (string \<Rightarrow> AlertConfig list result) \<Rightarrow> (string \<Rightarrow> string result) \<Rightarrow> time \<Rightarrow> string \<Rightarrow> (int \<times> int, db) act" where
  "importRules parse decode read_file now path =
     bindE (of_result (LoadRules parse decode read_file path)) (\<lambda>rules. ImportRules parse now rules ''command line'')"

definition exportRules :: "(AlertConfig list, db) act" where
  "exportRules = EnabledRules"

end
