(* ===== verification/RuleBook.thy ===== *)
theory RuleBook
  imports StoreRules TableOrder Delivery AlertSystem
begin

text \<open>
  What internal/store/rules.go and collector/rules.go promise: the rules in the database are the ones the validation accepts, each under its
  own name; an open alert has an enabled rule that checks it; rules are set up once; and a file written by the
  export and read by the import gives the same rules.
\<close>

section \<open>A transaction that may end without a commit\<close>

lemma in_tx_unless_cases:
  assumes "in_tx_unless early body s = (r, s')"
  obtains (begin_err) m where "r = Inl (ErrDB m)" "tabs s' = tabs s" "db_seq s' = db_seq s"
    | (stays) r1 s1 s2 where "tabs s1 = tabs s" "db_seq s1 = db_seq s" "body s1 = (r1, s2)" "\<And>a. r = Inr a \<Longrightarrow> r1 = Inr a \<and> early a"
        "tabs s' = tabs s" "db_seq s' = db_seq s2"
    | (whole) a s1 s2 where "tabs s1 = tabs s" "db_seq s1 = db_seq s" "body s1 = (Inr a, s2)" "\<not> early a" "\<And>b. r = Inr b \<Longrightarrow> b = a"
        "tabs s' = tabs s2" "db_seq s' = db_seq s2"
proof -
  from assms show thesis
    unfolding in_tx_unless_def
  proof (cases rule: bindE_cases)
    case (err e)
    then show thesis by (auto elim: query_cases intro: begin_err)
  next
    case (ok a s1)
    then have s1: "tabs s1 = tabs s" "db_seq s1 = db_seq s" by (auto elim: query_cases)
    obtain r2 s2 where b: "body s1 = (r2, s2)" by (cases "body s1")
    show thesis
    proof (cases "(\<exists>e. r2 = Inl e) \<or> (\<exists>a. r2 = Inr a \<and> early a)")
      case True
      with ok(2) b s1 show thesis by (intro stays [OF s1 b]) auto
    next
      case False
      then obtain a' where a': "r2 = Inr a'" "\<not> early a'" by (cases r2) auto
      with ok(2) b have end': "(case db_net s2 of [] \<Rightarrow> (Inr a', s2) | Done # rest \<Rightarrow> (Inr a', set_net rest s2)
        | Failed m # rest \<Rightarrow> (Inl (ErrDB m), set_net rest (s2\<lparr>tabs := tabs s1\<rparr>)) | Lost m # rest \<Rightarrow> (Inl (ErrDB m), set_net rest s2)) = (r, s')"
        by simp
      show thesis
      proof (cases "\<exists>m rest. db_net s2 = Failed m # rest")
        case True
        with end' s1 show thesis by (intro stays [OF s1 b]) auto
      next
        case False
        with end' have "tabs s' = tabs s2" "db_seq s' = db_seq s2" "\<And>b. r = Inr b \<Longrightarrow> b = a'"
          by (auto split: list.splits outcome.splits)
        with b a' s1 show thesis by (intro whole [of s1 a' s2]) auto
      qed
    qed
  qed
qed

lemma keeps_in_tx_unless:
  assumes body: "keeps (tab_inv I) m" and mono: "\<And>t q q'. I t q \<Longrightarrow> (\<And>k. q k \<le> q' k) \<Longrightarrow> I t q'" and seq: "counters.moves m"
  shows "keeps (tab_inv I) (in_tx_unless early m)"
proof (rule keepsI)
  fix s assume I: "tab_inv I s"
  have ok: "I (tabs s2) (db_seq s2)" if "m s1 = (r, s2)" "tabs s1 = tabs s" "db_seq s1 = db_seq s" for r s1 s2
    using keepsD [OF body _ that(1)] I that(2,3) by (simp add: tab_inv_def)
  have undone: "I (tabs s) (db_seq s2)" if "m s1 = (r, s2)" "db_seq s1 = db_seq s" for r s1 s2
    using I mono [of "tabs s" "db_seq s" "db_seq s2"] counters.movesD [OF seq that(1)] that(2) by (simp add: tab_inv_def counters_grow_def)
  show "tab_inv I (snd (in_tx_unless early m s))"
    by (cases rule: in_tx_unless_cases [OF surjective_pairing [of "in_tx_unless early m s"]])
      (use I ok undone in \<open>auto simp: tab_inv_def\<close>)
qed

section \<open>The table of rules\<close>

definition rules_ok :: "url_parse \<Rightarrow> rule_row list \<Rightarrow> int \<Rightarrow> bool" where
  "rules_ok parse rs q \<longleftrightarrow> distinct (map r_id rs) \<and> distinct (map r_name rs) \<and>
     (\<forall>r \<in> set rs. r_id r \<le> q \<and> r_name r = rule_Name (r_rule r) \<and> valid_rule parse (r_rule r))"

lemma rules_ok_mono: "rules_ok parse rs q \<Longrightarrow> q \<le> q' \<Longrightarrow> rules_ok parse rs q'"
  unfolding rules_ok_def by force

lemma new_rule_simps [simp]:
  "r_id (new_rule now i rule enabled who) = i" "r_name (new_rule now i rule enabled who) = rule_Name rule"
  "r_rule (new_rule now i rule enabled who) = rule" "r_enabled (new_rule now i rule enabled who) = enabled"
  by (simp_all add: new_rule_def)

lemma rules_ok_new:
  assumes "rules_ok parse rs q" and "valid_rule parse rule" and "rule_Name rule \<notin> r_name ` set rs"
  shows "rules_ok parse (rs @ [new_rule now (q + 1) rule enabled who]) (q + 1)"
  using assms unfolding rules_ok_def by force

lemma rules_ok_replace:
  assumes "rules_ok parse rs q" and "valid_rule parse rule" and "\<not> (\<exists>r \<in> set rs. r_id r = i \<and> (\<exists>r' \<in> set rs. r_name r' = rule_Name rule \<and> r_id r' \<noteq> i))"
  shows "rules_ok parse (update_where (\<lambda>r. r_id r = i) (\<lambda>_. new_rule now i rule enabled who) rs) q"
proof (cases "\<exists>r \<in> set rs. r_id r = i")
  case True
  let ?u = "update_where (\<lambda>r. r_id r = i) (\<lambda>_. new_rule now i rule enabled who) rs"
  have "map r_id ?u = map r_id rs" by (intro map_update_where) simp
  moreover have "distinct (map r_name ?u)"
    using assms True by (intro distinct_replace) (auto simp: rules_ok_def)
  ultimately show ?thesis using assms(1,2) True by (auto simp: rules_ok_def set_update_where)
qed (use assms(1) in \<open>simp add: update_where_none\<close>)

lemma rules_ok_delete: "rules_ok parse rs q \<Longrightarrow> rules_ok parse (delete_where P rs) q"
  by (auto simp: rules_ok_def delete_where_def distinct_map_filter)

lemma rules_ok_upsert:
  assumes "rules_ok parse rs q" and "valid_rule parse rule"
  shows "rules_ok parse (upsert_rule now who rule (q + 1) rs) (q + 1)"
proof (cases "\<exists>r \<in> set rs. r_name r = rule_Name rule")
  case True
  let ?u = "update_where (\<lambda>r. r_name r = rule_Name rule) (\<lambda>r. r\<lparr>r_rule := rule, r_updated_at := timestamptz now, r_updated_by := who\<rparr>) rs"
  have "map r_id ?u = map r_id rs" "map r_name ?u = map r_name rs" by (simp_all add: map_update_where)
  with assms have "rules_ok parse ?u q" by (auto simp: rules_ok_def set_update_where)
  then show ?thesis using True rules_ok_mono [of parse ?u q "q + 1"] by (simp add: upsert_rule_def)
next
  case False
  then have "rule_Name rule \<notin> r_name ` set rs" by force
  with False show ?thesis using rules_ok_new [OF assms] by (simp add: upsert_rule_def)
qed

lemma import_each_ok:
  assumes "rules_ok parse rs q" and "\<forall>rule \<in> set rules. valid_rule parse rule"
  shows "rules_ok parse (snd (import_each now who rules q rs)) (q + int (length rules))"
  using assms
proof (induction rules arbitrary: q rs)
  case (Cons rule rules)
  from Cons.IH [OF rules_ok_upsert [of parse rs q rule now who]] Cons.prems show ?case
    by (simp add: Let_def case_prod_beta add.assoc)
qed simp

section \<open>Validation\<close>

lemma checkRule_Inr: "checkRule parse rule0 = Inr rule \<Longrightarrow> valid_rule parse rule"
  by (auto simp: checkRule_def split: prod.splits sum.splits intro: Validate_sound)

lemma checkRule_valid: "valid_rule parse rule \<Longrightarrow> checkRule parse rule = Inr rule"
  by (simp add: checkRule_def Validate_id)

lemma check_each_Inr: "check_each parse rules0 = Inr rules \<Longrightarrow> \<forall>rule \<in> set rules. valid_rule parse rule"
  by (induction rules0 arbitrary: rules) (auto split: sum.splits dest: checkRule_Inr)

lemma check_each_valid: "\<forall>rule \<in> set rules. valid_rule parse rule \<Longrightarrow> check_each parse rules = Inr rules"
  by (induction rules) (simp_all add: checkRule_valid)

lemma DefaultHeartbeat_valid: "valid_rule parse DefaultHeartbeat"
proof -
  have "trimmed (rule_Name DefaultHeartbeat)" "rule_Name DefaultHeartbeat \<noteq> [] \<and> length (rule_Name DefaultHeartbeat) \<le> 100"
    "rule_Channels DefaultHeartbeat = []" "valid_servers DefaultHeartbeat" "rule_MetricName DefaultHeartbeat = PING" "\<not> rule_IsCustom DefaultHeartbeat"
    "0 \<le> rule_TriggerIntveral DefaultHeartbeat"
    by code_simp+
  then show ?thesis by (simp add: valid_rule_def valid_metric_def)
qed

section \<open>The invariant\<close>

text \<open>No orphans: whatever is open is checked by a rule, which resolves it when the value is back to normal.\<close>

definition checked_by :: "rule_row list \<Rightarrow> alert_row \<Rightarrow> bool" where
  "checked_by rs a \<longleftrightarrow> (\<exists>r \<in> set rs. r_enabled r \<and> r_name r = a_rule a)"

definition no_orphans :: "tables \<Rightarrow> bool" where
  "no_orphans t \<longleftrightarrow> (\<forall>a \<in> set (db_alerts t). is_open a \<longrightarrow> checked_by (db_rules t) a)"

definition rule_inv :: "url_parse \<Rightarrow> tables \<Rightarrow> (tbl \<Rightarrow> int) \<Rightarrow> bool" where
  "rule_inv parse t q \<longleftrightarrow> rules_ok parse (db_rules t) (q T_rules) \<and> alert_inv t q"

lemma rule_inv_mono:
  assumes "rule_inv parse t q" and "\<And>k. q k \<le> q' k"
  shows "rule_inv parse t q'"
proof -
  have "alert_inv t q'" using assms by (auto simp: rule_inv_def intro: alert_inv_seq)
  with assms rules_ok_mono [of parse "db_rules t" "q T_rules" "q' T_rules"] show ?thesis by (simp add: rule_inv_def)
qed

lemma rule_inv_rules:
  assumes "rule_inv parse t q" and "rules_ok parse rs (q' T_rules)" and "\<And>k. q k \<le> q' k"
  shows "rule_inv parse (t\<lparr>db_rules := rs\<rparr>) q'"
  using rule_inv_mono [OF assms(1,3)] assms(2) by (simp add: rule_inv_def alert_inv_cong [of "t\<lparr>db_rules := rs\<rparr>" t])

lemma rule_inv_same: "rule_inv parse t q \<Longrightarrow> rules_ok parse rs (q T_rules) \<Longrightarrow> rule_inv parse (t\<lparr>db_rules := rs\<rparr>) q"
  by (rule rule_inv_rules [of parse t q rs q]) auto

lemma rule_invD: "rule_inv parse t q \<Longrightarrow> rules_ok parse (db_rules t) (q T_rules)"
  by (simp add: rule_inv_def)

lemma keeps_insert_rule:
  assumes "valid_rule parse rule"
  shows "keeps (tab_inv (rule_inv parse)) (on_unique e (insert_into T_rules (insert_rule now rule enabled who)))"
proof (intro keeps_on_unique keeps_insert_into)
  fix t q assume inv: "rule_inv parse t q"
  let ?q = "q(T_rules := q T_rules + 1)"
  show "rule_inv parse (snd (insert_rule now rule enabled who (q T_rules + 1) t)) ?q"
  proof (cases "\<exists>r \<in> set (db_rules t). r_name r = rule_Name rule")
    case True
    then show ?thesis using rule_inv_mono [OF inv, of ?q] by (simp add: insert_rule_def)
  next
    case False
    then have "rule_Name rule \<notin> r_name ` set (db_rules t)" by force
    with inv assms have "rules_ok parse (db_rules t @ [new_rule now (q T_rules + 1) rule enabled who]) (?q T_rules)"
      by (simp add: rules_ok_new rule_inv_def)
    from rule_inv_rules [OF inv, of "db_rules t @ [new_rule now (q T_rules + 1) rule enabled who]" ?q] this False show ?thesis
      by (simp add: insert_rule_def)
  qed
qed

lemma resolve_row_key: "keeps_key (resolve_row now)"
  by (simp add: keeps_key_def resolve_row_def index_key_def is_open_def)

lemma rule_inv_alerts:
  assumes "rule_inv parse t q" and "alert_inv (t\<lparr>db_alerts := as\<rparr>) q"
  shows "rule_inv parse (t\<lparr>db_alerts := as\<rparr>) q"
  using assms by (simp add: rule_inv_def)

lemma keeps_resolve: "keeps (tab_inv (rule_inv parse)) (resolveRuleAlerts now name)"
  unfolding resolveRuleAlerts_def
  by (intro keeps_exec) (simp add: rule_inv_alerts alert_inv_update resolve_row_key rule_inv_def)

lemma keeps_rename_alerts: "keeps (tab_inv (rule_inv parse)) (rename_alerts old new)"
  unfolding rename_alerts_def
proof (intro keeps_dbcall keepsI)
  fix s :: db assume inv: "tab_inv (rule_inv parse) s"
  let ?as = "update_where (rule_alert old) (\<lambda>a. a\<lparr>a_rule := new\<rparr>) (db_alerts (tabs s))"
  have "alert_inv ((tabs s)\<lparr>db_alerts := ?as\<rparr>) (db_seq s)" if "distinct (map index_key (filter is_open ?as))"
  proof -
    have "map a_id ?as = map a_id (db_alerts (tabs s))" by (simp add: map_update_where)
    moreover have "a_id a \<le> db_seq s T_alerts \<and> (\<forall>i. a_host_id a = Some i \<longrightarrow> i \<in> set (map h_id (db_hosts (tabs s))))" if "a \<in> set ?as" for a
      using that inv by (auto simp: tab_inv_def rule_inv_def alert_inv_def alerts_ok_def set_update_where split: if_splits)
    ultimately show ?thesis using inv that
      by (simp add: tab_inv_def rule_inv_def alert_inv_def alerts_ok_def hosts_ok_def)
  qed
  with inv show "tab_inv (rule_inv parse) (snd (let as' = ?as in
     if \<not> distinct (map index_key (filter is_open as')) then (Inl ErrUnique, s)
     else (Inr (), s\<lparr>tabs := (tabs s)\<lparr>db_alerts := as'\<rparr>\<rparr>)))"
    by (simp add: tab_inv_def Let_def rule_inv_alerts)
qed

lemma keeps_rename_checks: "keeps (tab_inv (rule_inv parse)) (rename_checks old new)"
  unfolding rename_checks_def
  by (intro keeps_exec) (simp add: rule_inv_def alert_inv_def hosts_ok_def alerts_ok_def)

lemma keeps_replace_rule:
  assumes "valid_rule parse rule"
  shows "keeps (tab_inv (rule_inv parse)) (replace_rule now i rule enabled who)"
  unfolding replace_rule_def
proof (intro keeps_dbcall keepsI)
  fix s :: db assume inv: "tab_inv (rule_inv parse) s"
  let ?rs = "db_rules (tabs s)" and ?u = "update_where (\<lambda>r. r_id r = i) (\<lambda>_. new_rule now i rule enabled who)"
  have "rules_ok parse (?u ?rs) (db_seq s T_rules)" if "\<not> (\<exists>r \<in> set ?rs. r_id r = i \<and> (\<exists>r' \<in> set ?rs. r_name r' = rule_Name rule \<and> r_id r' \<noteq> i))"
    using inv assms that by (intro rules_ok_replace) (simp_all add: tab_inv_def rule_inv_def)
  with inv show "tab_inv (rule_inv parse) (snd (if \<exists>r \<in> set ?rs. r_id r = i \<and> (\<exists>r' \<in> set ?rs. r_name r' = rule_Name rule \<and> r_id r' \<noteq> i) then (Inl ErrUnique, s)
     else (Inr (), s\<lparr>tabs := (tabs s)\<lparr>db_rules := ?u ?rs\<rparr>\<rparr>)))"
    by (auto simp: tab_inv_def intro!: rule_inv_rules [of parse "tabs s" "db_seq s"])
qed

section \<open>Every operation keeps it\<close>

lemma counters_insert: "counters.moves (insert_into k f)"
  by (intro counters.moves_insert_into) (simp add: counters_grow_def)

lemma counters_exec: "counters.moves (exec f)"
  by (intro counters.moves_exec) (simp add: counters_grow_def)

lemma snd_on_unique: "snd (on_unique e m s) = snd (m s)" and snd_in_rule: "snd (in_rule name m s) = snd (m s)"
  by (simp_all add: on_unique_def in_rule_def split: prod.splits sum.splits)

lemma counters_on_unique: "counters.moves m \<Longrightarrow> counters.moves (on_unique e m)"
  and counters_in_rule: "counters.moves m \<Longrightarrow> counters.moves (in_rule name m)"
  and counters_of_result: "counters.moves (of_result r)"
  by (simp_all add: counters.moves_def snd_on_unique snd_in_rule of_result_def counters_grow_def)

lemma counters_alert_statements:
  "counters.moves (rename_alerts old new)" "counters.moves (rename_checks old new)" "counters.moves (replace_rule now i rule enabled who)"
  "counters.moves (resolveRuleAlerts now name)"
  unfolding rename_alerts_def rename_checks_def replace_rule_def resolveRuleAlerts_def
  by (intro counters_exec counters.moves_dbcall; simp add: counters.moves_def counters_grow_def Let_def)+

lemmas counters_rules = counters.moves_bindE counters.moves_case_option counters.moves_if counters.moves_query counters.moves_fail
  counters.moves_ret counters_insert counters_exec counters_on_unique counters_in_rule counters_of_result counters_alert_statements

lemma UpdateRule_tx_counters: "counters.moves (UpdateRule_tx now i rule enabled who)"
  unfolding UpdateRule_tx_def by (intro counters_rules)

lemma DeleteRule_tx_counters: "counters.moves (DeleteRule_tx now i)"
  unfolding DeleteRule_tx_def by (intro counters_rules)

lemma insertRule_counters: "counters.moves (insertRule now rule who)"
  unfolding insertRule_def by (intro counters_rules)

lemma setup_each_counters: "counters.moves (setup_each parse now rules)"
  by (induction rules) (simp_all only: setup_each.simps, intro counters_rules insertRule_counters, intro counters_rules insertRule_counters, assumption)

lemma SetupRules_tx_counters: "counters.moves (SetupRules_tx parse now rules source)"
  unfolding SetupRules_tx_def RulesSetUp_def Let_def by (intro counters_rules insertRule_counters setup_each_counters)

lemma keeps_case_option: "keeps P n \<Longrightarrow> (\<And>x. keeps P (f x)) \<Longrightarrow> keeps P (case opt of None \<Rightarrow> n | Some x \<Rightarrow> f x)"
  by (cases opt) auto

lemma keeps_if: "keeps P m \<Longrightarrow> keeps P n \<Longrightarrow> keeps P (if c then m else n)"
  by simp

lemma keeps_UpdateRule: "keeps (tab_inv (rule_inv parse)) (UpdateRule parse now i rule0 enabled who)"
proof -
  have "keeps (tab_inv (rule_inv parse)) (UpdateRule_tx now i rule enabled who)" if "valid_rule parse rule" for rule
    unfolding UpdateRule_tx_def
    by (intro keeps_bindE keeps_query keeps_case_option keeps_fail keeps_on_unique keeps_replace_rule [OF that] keeps_if keeps_rename_alerts
      keeps_rename_checks keeps_resolve keeps_ret)
  then show ?thesis unfolding UpdateRule_def
    by (intro keeps_result_bind keeps_tx [OF _ rule_inv_mono UpdateRule_tx_counters]) (auto dest: checkRule_Inr)
qed

lemma keeps_DeleteRule: "keeps (tab_inv (rule_inv parse)) (DeleteRule now i)"
proof -
  have "keeps (tab_inv (rule_inv parse)) (exec (\<lambda>t. (map_option r_name (find (\<lambda>r. r_id r = i) (db_rules t)), t\<lparr>db_rules := delete_where (\<lambda>r. r_id r = i) (db_rules t)\<rparr>)))"
    by (intro keeps_exec) (simp add: rule_inv_same rule_invD rules_ok_delete)
  then have "keeps (tab_inv (rule_inv parse)) (DeleteRule_tx now i)"
    unfolding DeleteRule_tx_def by (intro keeps_bindE keeps_case_option keeps_fail keeps_resolve)
  then show ?thesis unfolding DeleteRule_def by (intro keeps_tx [OF _ rule_inv_mono DeleteRule_tx_counters])
qed


lemma keeps_insertRule: "valid_rule parse rule \<Longrightarrow> keeps (tab_inv (rule_inv parse)) (insertRule now rule who)"
  unfolding insertRule_def by (intro keeps_bindE keeps_insert_rule keeps_ret)

lemma keeps_in_rule: "keeps P m \<Longrightarrow> keeps P (in_rule name m)"
  by (simp add: keeps_def snd_in_rule)

lemma in_rule_of_result: "in_rule name (of_result r) = of_result (case r of Inl e \<Rightarrow> Inl (ErrWrap ''rule %q: %w'' [name] e) | Inr a \<Rightarrow> Inr a)"
  by (auto simp: in_rule_def of_result_def fun_eq_iff split: sum.splits)

lemma keeps_setup_each: "keeps (tab_inv (rule_inv parse)) (setup_each parse now rules)"
proof (induction rules)
  case (Cons rule0 rules)
  then show ?case unfolding setup_each.simps in_rule_of_result
    by (intro keeps_result_bind keeps_bindE keeps_in_rule keeps_insertRule keeps_ret) (auto split: sum.splits dest: checkRule_Inr)
qed (simp only: setup_each.simps keeps_ret)

text \<open>What one rule of the file adds, and what all of them add.\<close>

definition added_rows :: "rule_row list \<Rightarrow> AlertConfig list \<Rightarrow> bool" where
  "added_rows rows rules \<longleftrightarrow> map r_rule rows = rules \<and> (\<forall>r \<in> set rows. r_enabled r \<and> r_updated_by r = [])"

lemma insertRule_ok:
  assumes "insertRule now rule [] s = (Inr (), s')"
  shows "\<exists>row. added_rows [row] [rule] \<and> tabs s' = (tabs s)\<lparr>db_rules := db_rules (tabs s) @ [row]\<rparr>"
proof -
  obtain i where "on_unique ErrRuleExists (insert_into T_rules (insert_rule now rule True [])) s = (Inr i, s')"
    using assms unfolding insertRule_def by (rule bindE_InrE) auto
  then have "insert_into T_rules (insert_rule now rule True []) s = (Inr i, s')"
    by (auto simp: on_unique_def split: prod.splits sum.splits)
  then show ?thesis
    by (cases rule: insert_into_cases)
      (auto simp: insert_rule_def added_rows_def new_rule_def split: if_splits intro!: exI [of _ "new_rule now (db_seq s T_rules + 1) rule True []"])
qed

lemma setup_each_ok:
  assumes "setup_each parse now rules s = (Inr stored, s')"
  shows "check_each parse rules = Inr stored \<and>
    (\<exists>rows. added_rows rows stored \<and> tabs s' = (tabs s)\<lparr>db_rules := db_rules (tabs s) @ rows\<rparr>)"
  using assms
proof (induction rules arbitrary: s stored)
  case Nil
  then show ?case by (auto simp: added_rows_def)
next
  case (Cons rule0 rules)
  from Cons.prems obtain rule stored' s1 where c: "checkRule parse rule0 = Inr rule"
    and i: "insertRule now rule [] s = (Inr (), s1)" and e: "setup_each parse now rules s1 = (Inr stored', s')"
    and r: "stored = rule # stored'"
    unfolding setup_each.simps in_rule_of_result
    by (elim bindE_InrE) (auto simp: of_result_def in_rule_def split: sum.splits prod.splits)
  from insertRule_ok [OF i] obtain row where row: "added_rows [row] [rule]" "tabs s1 = (tabs s)\<lparr>db_rules := db_rules (tabs s) @ [row]\<rparr>" by blast
  from Cons.IH [OF e] obtain rows where rows: "check_each parse rules = Inr stored'" "added_rows rows stored'"
    "tabs s' = (tabs s1)\<lparr>db_rules := db_rules (tabs s1) @ rows\<rparr>" by blast
  have "added_rows (row # rows) stored" using row(1) rows(2) by (simp add: added_rows_def r)
  with c rows row(2) r show ?case by (auto intro!: exI [of _ "row # rows"])
qed

text \<open>The rules of a first setup: the file's own, and a heartbeat for all hosts unless one of them is that.\<close>

definition with_heartbeat :: "AlertConfig list \<Rightarrow> AlertConfig list" where
  "with_heartbeat rules = rules @ (if list_ex all_hosts_heartbeat rules \<or> rule_Name DefaultHeartbeat \<in> rule_Name ` set rules then [] else [DefaultHeartbeat])"

lemma SetupRules_tx_ok:
  assumes "SetupRules_tx parse now rules source s = (Inr res, s')"
  shows "if db_setup (tabs s) \<noteq> [] then rs_Done res \<and> tabs s' = tabs s
    else \<not> rs_Done res \<and> (\<exists>stored rows. check_each parse rules = Inr stored \<and> added_rows rows (with_heartbeat stored) \<and>
      tabs s' = (tabs s)\<lparr>db_rules := db_rules (tabs s) @ rows, db_setup := [\<lparr>su_source = source, su_imported = int (length stored)\<rparr>]\<rparr>)"
proof -
  from assms obtain u done' s1 s2 where q: "query (\<lambda>_. ()) s = (Inr u, s1)" "RulesSetUp s1 = (Inr done', s2)"
    and rest: "(if done' then ret \<lparr>rs_Done = True, rs_Imported = 0, rs_Added = []\<rparr>
      else bindE (setup_each parse now rules) (\<lambda>stored.
       let heartbeat = (\<not> list_ex all_hosts_heartbeat stored \<and> rule_Name DefaultHeartbeat \<notin> rule_Name ` set stored) in
       bindE (if heartbeat then insertRule now DefaultHeartbeat [] else ret ()) (\<lambda>_.
       bindE (exec (\<lambda>t. ((), t\<lparr>db_setup := db_setup t @ [\<lparr>su_source = source, su_imported = int (length stored)\<rparr>]\<rparr>))) (\<lambda>_.
       ret \<lparr>rs_Done = False, rs_Imported = int (length stored), rs_Added = (if heartbeat then [rule_Name DefaultHeartbeat] else [])\<rparr>)))) s2 = (Inr res, s')"
    unfolding SetupRules_tx_def by (elim bindE_InrE) auto
  have s2: "tabs s2 = tabs s" "done' = (db_setup (tabs s) \<noteq> [])" using q unfolding RulesSetUp_def by (auto elim!: query_cases)
  show ?thesis
  proof (cases "db_setup (tabs s) = []")
    case False
    with rest s2 show ?thesis by auto
  next
    case True
    with rest s2 obtain stored s3 u4 s4 u5 s5 where e: "setup_each parse now rules s2 = (Inr stored, s3)"
      and h: "(if \<not> list_ex all_hosts_heartbeat stored \<and> rule_Name DefaultHeartbeat \<notin> rule_Name ` set stored
        then insertRule now DefaultHeartbeat [] else ret ()) s3 = (Inr u4, s4)"
      and x: "exec (\<lambda>t. ((), t\<lparr>db_setup := db_setup t @ [\<lparr>su_source = source, su_imported = int (length stored)\<rparr>]\<rparr>)) s4 = (Inr u5, s5)"
      and r: "\<not> rs_Done res" "s' = s5"
      by (simp add: Let_def) (elim bindE_InrE, auto)
    from setup_each_ok [OF e] obtain rows where rows: "check_each parse rules = Inr stored" "added_rows rows stored"
      "tabs s3 = (tabs s)\<lparr>db_rules := db_rules (tabs s) @ rows\<rparr>" using s2(1) by auto
    have "\<exists>rows'. added_rows rows' (with_heartbeat stored) \<and> tabs s4 = (tabs s)\<lparr>db_rules := db_rules (tabs s) @ rows'\<rparr>"
    proof (cases "list_ex all_hosts_heartbeat stored \<or> rule_Name DefaultHeartbeat \<in> rule_Name ` set stored")
      case True
      with h rows show ?thesis by (auto simp: with_heartbeat_def split: if_splits)
    next
      case False
      with h have "insertRule now DefaultHeartbeat [] s3 = (Inr (), s4)" by simp
      from insertRule_ok [OF this] obtain row where "added_rows [row] [DefaultHeartbeat]" "tabs s4 = (tabs s3)\<lparr>db_rules := db_rules (tabs s3) @ [row]\<rparr>" by blast
      with False rows show ?thesis by (intro exI [of _ "rows @ [row]"]) (auto simp: with_heartbeat_def added_rows_def)
    qed
    with x r rows(1) True show ?thesis by (auto elim!: exec_cases)
  qed
qed


lemma keeps_SetupRules: "keeps (tab_inv (rule_inv parse)) (SetupRules parse now rules source)"
proof -
  have "keeps (tab_inv (rule_inv parse)) (exec (\<lambda>t. ((), t\<lparr>db_setup := f t\<rparr>)))" for f
    by (intro keeps_exec) (simp add: rule_inv_def alert_inv_def hosts_ok_def alerts_ok_def)
  then have "keeps (tab_inv (rule_inv parse)) (SetupRules_tx parse now rules source)"
    unfolding SetupRules_tx_def RulesSetUp_def Let_def
    by (intro keeps_bindE keeps_query keeps_if keeps_ret keeps_setup_each keeps_insertRule DefaultHeartbeat_valid)
  then show ?thesis unfolding SetupRules_def by (intro keeps_in_tx_unless [OF _ rule_inv_mono SetupRules_tx_counters])
qed

lemma keeps_CreateRule: "keeps (tab_inv (rule_inv parse)) (CreateRule parse now rule0 enabled who)"
  unfolding CreateRule_def by (intro keeps_result_bind keeps_insert_rule) (rule checkRule_Inr)

lemma keeps_ImportRules: "keeps (tab_inv (rule_inv parse)) (ImportRules parse now rules0 who)"
  unfolding ImportRules_def
proof (intro keeps_result_bind keeps_dbcall keepsI)
  fix rules and s :: db assume "check_each parse rules0 = Inr rules" and inv: "tab_inv (rule_inv parse) s"
  let ?i = "import_each now who rules (db_seq s T_rules) (db_rules (tabs s))"
    and ?q = "(db_seq s)(T_rules := db_seq s T_rules + int (length rules))"
  have "rules_ok parse (snd ?i) (?q T_rules)"
    using inv check_each_Inr [OF \<open>check_each parse rules0 = Inr rules\<close>] by (simp add: import_each_ok tab_inv_def rule_invD)
  with rule_inv_rules [of parse "tabs s" "db_seq s" "snd ?i" ?q] inv
  show "tab_inv (rule_inv parse) (snd (let (n, rs) = ?i in (Inr n, s\<lparr>db_seq := ?q, tabs := (tabs s)\<lparr>db_rules := rs\<rparr>\<rparr>)))"
    by (simp add: tab_inv_def case_prod_beta)
qed

lemma keeps_setupRules: "keeps (tab_inv (rule_inv parse)) (setupRules parse decode read_file now path)"
  unfolding setupRules_def RulesSetUp_def
  by (intro keeps_bindE keeps_query keeps_if keeps_ret keeps_of_result keeps_SetupRules)

lemma keeps_importRules: "keeps (tab_inv (rule_inv parse)) (importRules parse decode read_file now path)"
  unfolding importRules_def by (intro keeps_bindE keeps_of_result keeps_ImportRules)

lemmas keeps_rule_ops = keeps_CreateRule keeps_UpdateRule keeps_DeleteRule keeps_setupRules keeps_importRules

section \<open>What changing a rule does to its alerts\<close>

lemma in_tx_whole:
  assumes "in_tx body s = (r, s')" and "\<And>a s1 s2. tabs s1 = tabs s \<Longrightarrow> body s1 = (Inr a, s2) \<Longrightarrow> Q a (tabs s2)"
  shows "(\<exists>e. r = Inl e) \<and> tabs s' = tabs s \<or> (\<exists>a. (r = Inr a \<or> (\<exists>m. r = Inl (ErrDB m))) \<and> Q a (tabs s'))"
  using assms(1) by (cases rule: in_tx_cases) (use assms(2) in auto)

definition rule_deleted :: "time \<Rightarrow> int \<Rightarrow> tables \<Rightarrow> tables \<Rightarrow> bool" where
  "rule_deleted now i t t' \<longleftrightarrow> (\<exists>r \<in> set (db_rules t). r_id r = i \<and>
     t' = t\<lparr>db_rules := delete_where (\<lambda>r. r_id r = i) (db_rules t), db_alerts := update_where (rule_alert (r_name r)) (resolve_row now) (db_alerts t)\<rparr>)"

lemma DeleteRule_effect:
  assumes "DeleteRule now i s = (res, s')"
  shows "(\<exists>e. res = Inl e) \<and> tabs s' = tabs s \<or> (res = Inr () \<or> (\<exists>m. res = Inl (ErrDB m))) \<and> rule_deleted now i (tabs s) (tabs s')"
proof -
  have "rule_deleted now i (tabs s) (tabs s2)" if s1: "tabs s1 = tabs s" and b: "DeleteRule_tx now i s1 = (Inr a, s2)" for a s1 s2
  proof -
    from b obtain row s3 where e: "exec (\<lambda>t. (map_option r_name (find (\<lambda>r. r_id r = i) (db_rules t)), t\<lparr>db_rules := delete_where (\<lambda>r. r_id r = i) (db_rules t)\<rparr>)) s1 = (Inr row, s3)"
      and rest: "(case row of None \<Rightarrow> fail ErrNotFound | Some name \<Rightarrow> resolveRuleAlerts now name) s3 = (Inr a, s2)"
      unfolding DeleteRule_tx_def by (rule bindE_InrE)
    have s3: "row = map_option r_name (find (\<lambda>r. r_id r = i) (db_rules (tabs s)))" "tabs s3 = (tabs s)\<lparr>db_rules := delete_where (\<lambda>r. r_id r = i) (db_rules (tabs s))\<rparr>"
      using e s1 by (auto elim!: exec_cases)
    from rest s3(1) obtain r where r: "find (\<lambda>r. r_id r = i) (db_rules (tabs s)) = Some r" and x: "resolveRuleAlerts now (r_name r) s3 = (Inr a, s2)"
      by (cases "find (\<lambda>r. r_id r = i) (db_rules (tabs s))") auto
    have "tabs s2 = (tabs s3)\<lparr>db_alerts := update_where (rule_alert (r_name r)) (resolve_row now) (db_alerts (tabs s3))\<rparr>"
      using x unfolding resolveRuleAlerts_def by (auto elim!: exec_cases)
    with s3(2) find_SomeD [OF r] show ?thesis unfolding rule_deleted_def by auto
  qed
  from in_tx_whole [OF assms [unfolded DeleteRule_def], of "\<lambda>_. rule_deleted now i (tabs s)"] this show ?thesis by auto
qed

text \<open>The alerts after a rule is replaced: a new name carries them along, and a disabled rule's resolve.\<close>

definition renamed :: "string \<Rightarrow> string \<Rightarrow> alert_row list \<Rightarrow> alert_row list" where
  "renamed old new as = (if new = old then as else update_where (rule_alert old) (\<lambda>a. a\<lparr>a_rule := new\<rparr>) as)"

definition rule_updated :: "time \<Rightarrow> int \<Rightarrow> AlertConfig \<Rightarrow> bool \<Rightarrow> string \<Rightarrow> tables \<Rightarrow> tables \<Rightarrow> bool" where
  "rule_updated now i rule enabled who t t' \<longleftrightarrow> (\<exists>r \<in> set (db_rules t). r_id r = i \<and>
     \<not> (\<exists>r' \<in> set (db_rules t). r_name r' = rule_Name rule \<and> r_id r' \<noteq> i) \<and>
     db_rules t' = update_where (\<lambda>r. r_id r = i) (\<lambda>_. new_rule now i rule enabled who) (db_rules t) \<and>
     db_alerts t' = (if enabled then renamed (r_name r) (rule_Name rule) (db_alerts t)
       else update_where (rule_alert (rule_Name rule)) (resolve_row now) (renamed (r_name r) (rule_Name rule) (db_alerts t))) \<and>
     db_checks t' = update_where (\<lambda>c. ec_name c = r_name r) (\<lambda>c. c\<lparr>ec_name := rule_Name rule\<rparr>) (db_checks t) \<and>
     db_setup t' = db_setup t \<and> db_channels t' = db_channels t)"

lemma replace_rule_ok:
  assumes "on_unique e (replace_rule now i rule enabled who) s = (Inr u, s')"
  shows "\<not> (\<exists>r \<in> set (db_rules (tabs s)). r_id r = i \<and> (\<exists>r' \<in> set (db_rules (tabs s)). r_name r' = rule_Name rule \<and> r_id r' \<noteq> i)) \<and>
    tabs s' = (tabs s)\<lparr>db_rules := update_where (\<lambda>r. r_id r = i) (\<lambda>_. new_rule now i rule enabled who) (db_rules (tabs s))\<rparr>"
proof -
  have "replace_rule now i rule enabled who s = (Inr u, s')"
    using assms by (auto simp: on_unique_def split: prod.splits sum.splits)
  then show ?thesis unfolding replace_rule_def by (rule dbcall_cases) (auto split: if_splits)
qed

lemma rename_ok:
  assumes "(if new \<noteq> old then bindE (rename_alerts old new) (\<lambda>_. rename_checks old new) else ret ()) s = (Inr u, s')"
  shows "tabs s' = (tabs s)\<lparr>db_alerts := renamed old new (db_alerts (tabs s)),
    db_checks := update_where (\<lambda>c. ec_name c = old) (\<lambda>c. c\<lparr>ec_name := new\<rparr>) (db_checks (tabs s))\<rparr>"
proof (cases "new = old")
  case True
  have "update_where (\<lambda>c. ec_name c = old) (\<lambda>c. c\<lparr>ec_name := old\<rparr>) cs = cs" for cs :: "check_row list"
    by (induction cs) auto
  with True assms show ?thesis by (simp add: renamed_def)
next
  case False
  with assms obtain v s1 where a: "rename_alerts old new s = (Inr v, s1)" and c: "rename_checks old new s1 = (Inr u, s')"
    by (auto elim: bindE_InrE)
  have "tabs s1 = (tabs s)\<lparr>db_alerts := renamed old new (db_alerts (tabs s))\<rparr>"
    using a False unfolding rename_alerts_def by (auto elim!: dbcall_cases simp: Let_def renamed_def split: if_splits)
  then show ?thesis using c unfolding rename_checks_def by (auto elim!: exec_cases)
qed

lemma UpdateRule_effect:
  assumes "UpdateRule parse now i rule0 enabled who s = (res, s')"
  shows "(\<exists>e. res = Inl e) \<and> tabs s' = tabs s \<or>
    (res = Inr () \<or> (\<exists>m. res = Inl (ErrDB m))) \<and> (\<exists>rule. checkRule parse rule0 = Inr rule \<and> rule_updated now i rule enabled who (tabs s) (tabs s'))"
proof (cases "checkRule parse rule0")
  case (Inl e)
  with assms show ?thesis by (auto simp: UpdateRule_def of_result_def bindE_def)
next
  case (Inr rule)
  with assms have tx: "in_tx (UpdateRule_tx now i rule enabled who) s = (res, s')" by (simp add: UpdateRule_def of_result_def bindE_def)
  have "rule_updated now i rule enabled who (tabs s) (tabs s2)"
    if s1: "tabs s1 = tabs s" and b: "UpdateRule_tx now i rule enabled who s1 = (Inr a, s2)" for a s1 s2
  proof -
    from b obtain row s3 where q: "query (\<lambda>t. map_option r_name (find (\<lambda>r. r_id r = i) (db_rules t))) s1 = (Inr row, s3)"
      and rest: "(case row of None \<Rightarrow> fail ErrNotFound | Some oldName \<Rightarrow>
         bindE (on_unique ErrRuleExists (replace_rule now i rule enabled who)) (\<lambda>_.
         bindE (if rule_Name rule \<noteq> oldName then bindE (rename_alerts oldName (rule_Name rule)) (\<lambda>_. rename_checks oldName (rule_Name rule)) else ret ()) (\<lambda>_.
         if \<not> enabled then resolveRuleAlerts now (rule_Name rule) else ret ()))) s3 = (Inr a, s2)"
      unfolding UpdateRule_tx_def by (rule bindE_InrE)
    have s3: "row = map_option r_name (find (\<lambda>r. r_id r = i) (db_rules (tabs s)))" "tabs s3 = tabs s"
      using q s1 by (auto elim!: query_cases)
    from rest s3(1) obtain r u4 s4 u5 s5 where r: "find (\<lambda>r. r_id r = i) (db_rules (tabs s)) = Some r"
      and 4: "on_unique ErrRuleExists (replace_rule now i rule enabled who) s3 = (Inr u4, s4)"
      and 5: "(if rule_Name rule \<noteq> r_name r then bindE (rename_alerts (r_name r) (rule_Name rule)) (\<lambda>_. rename_checks (r_name r) (rule_Name rule)) else ret ()) s4 = (Inr u5, s5)"
      and 6: "(if \<not> enabled then resolveRuleAlerts now (rule_Name rule) else ret ()) s5 = (Inr a, s2)"
      by (cases "find (\<lambda>r. r_id r = i) (db_rules (tabs s))") (auto elim!: bindE_InrE)
    have "tabs s2 = (if enabled then tabs s5 else (tabs s5)\<lparr>db_alerts := update_where (rule_alert (rule_Name rule)) (resolve_row now) (db_alerts (tabs s5))\<rparr>)"
      using 6 unfolding resolveRuleAlerts_def by (auto elim!: exec_cases split: if_splits)
    with replace_rule_ok [OF 4] rename_ok [OF 5] find_SomeD [OF r] s3(2) show ?thesis unfolding rule_updated_def by auto
  qed
  from in_tx_whole [OF tx, of "\<lambda>_. rule_updated now i rule enabled who (tabs s)"] this Inr show ?thesis by auto
qed

section \<open>No orphans\<close>

lemma checked_by_mono: "checked_by rs a \<Longrightarrow> set rs \<subseteq> set rs' \<Longrightarrow> checked_by rs' a"
  unfolding checked_by_def by blast

lemma no_orphans_more: "no_orphans t \<Longrightarrow> no_orphans (t\<lparr>db_rules := db_rules t @ rows\<rparr>)"
  by (auto simp: no_orphans_def intro: checked_by_mono)

lemma open_after_resolve:
  assumes "b \<in> set (update_where (rule_alert name) (resolve_row now) as)" and "is_open b"
  shows "b \<in> set as \<and> a_rule b \<noteq> name"
proof -
  obtain a where "a \<in> set as" "b = (if rule_alert name a then resolve_row now a else a)" using assms(1) by (auto simp: set_update_where)
  with assms(2) show ?thesis by (cases "rule_alert name a") (auto simp: rule_alert_def resolve_row_def is_open_def)
qed

lemma open_after_rename:
  assumes "b \<in> set (renamed old new as)" and "is_open b" and "a_rule b \<noteq> new"
  shows "b \<in> set as \<and> a_rule b \<noteq> old"
proof (cases "new = old")
  case False
  then obtain a where "a \<in> set as" "b = (if rule_alert old a then a\<lparr>a_rule := new\<rparr> else a)"
    using assms(1) by (auto simp: renamed_def set_update_where)
  with assms(2,3) show ?thesis by (cases "rule_alert old a") (auto simp: rule_alert_def)
qed (use assms in \<open>simp add: renamed_def\<close>)

lemma rule_deleted_no_orphans:
  assumes "rule_deleted now i t t'" and "no_orphans t" and "rule_inv parse t q"
  shows "no_orphans t'"
proof -
  from assms(1) obtain r where r: "r \<in> set (db_rules t)" "r_id r = i"
    "t' = t\<lparr>db_rules := delete_where (\<lambda>r. r_id r = i) (db_rules t), db_alerts := update_where (rule_alert (r_name r)) (resolve_row now) (db_alerts t)\<rparr>"
    by (auto simp: rule_deleted_def)
  have "checked_by (db_rules t') b" if "b \<in> set (db_alerts t')" "is_open b" for b
  proof -
    from that have b: "b \<in> set (db_alerts t)" "a_rule b \<noteq> r_name r"
      using open_after_resolve [of b] by (auto simp: r(3))
    with assms(2) that(2) obtain r' where r': "r' \<in> set (db_rules t)" "r_enabled r'" "r_name r' = a_rule b"
      by (auto simp: no_orphans_def checked_by_def)
    then have "r_id r' \<noteq> i" using b(2) r(1,2) assms(3) distinct_map_eq [of r_id "db_rules t" r' r] by (auto simp: rule_inv_def rules_ok_def)
    with r' show ?thesis by (auto simp: checked_by_def r(3))
  qed
  then show ?thesis by (auto simp: no_orphans_def)
qed

lemma rule_updated_no_orphans:
  assumes u: "rule_updated now i rule enabled who t t'" and "no_orphans t" and "rule_inv parse t q"
  shows "no_orphans t'"
proof -
  from u obtain r where r: "r \<in> set (db_rules t)" "r_id r = i"
    and rs: "db_rules t' = update_where (\<lambda>r. r_id r = i) (\<lambda>_. new_rule now i rule enabled who) (db_rules t)"
    and as: "db_alerts t' = (if enabled then renamed (r_name r) (rule_Name rule) (db_alerts t)
       else update_where (rule_alert (rule_Name rule)) (resolve_row now) (renamed (r_name r) (rule_Name rule) (db_alerts t)))"
    by (auto simp: rule_updated_def)
  have new: "new_rule now i rule enabled who \<in> set (db_rules t')" using r by (auto simp: rs set_update_where)
  have "checked_by (db_rules t') b" if b: "b \<in> set (db_alerts t')" "is_open b" for b
  proof (cases "a_rule b = rule_Name rule")
    case True
    show ?thesis
    proof (cases enabled)
      case True
      with \<open>a_rule b = rule_Name rule\<close> new show ?thesis unfolding checked_by_def by (intro bexI [OF _ new]) simp
    next
      case False
      with as b(1) have "b \<in> set (update_where (rule_alert (rule_Name rule)) (resolve_row now) (renamed (r_name r) (rule_Name rule) (db_alerts t)))" by simp
      from open_after_resolve [OF this b(2)] True show ?thesis by simp
    qed
  next
    case False
    have "b \<in> set (renamed (r_name r) (rule_Name rule) (db_alerts t))"
      using b(1) open_after_resolve [OF _ b(2), of "rule_Name rule" now] by (cases enabled) (simp_all add: as)
    with False b(2) have "b \<in> set (db_alerts t) \<and> a_rule b \<noteq> r_name r"
      by (intro open_after_rename) auto
    with assms(2) b(2) obtain r' where r': "r' \<in> set (db_rules t)" "r_enabled r'" "r_name r' = a_rule b" "a_rule b \<noteq> r_name r"
      by (auto simp: no_orphans_def checked_by_def)
    then have "r_id r' \<noteq> i" using r assms(3) distinct_map_eq [of r_id "db_rules t" r' r] by (auto simp: rule_inv_def rules_ok_def)
    with r' have "r' \<in> set (db_rules t')" by (auto simp: rs set_update_where)
    with r' show ?thesis by (auto simp: checked_by_def)
  qed
  then show ?thesis by (auto simp: no_orphans_def)
qed

lemma checked_by_map: "checked_by rs a \<longleftrightarrow> (True, a_rule a) \<in> set (map (\<lambda>r. (r_enabled r, r_name r)) rs)"
  by (force simp: checked_by_def)

lemma checked_by_upsert: "checked_by rs a \<Longrightarrow> checked_by (upsert_rule now who rule i rs) a"
proof -
  have "map (\<lambda>r. (r_enabled r, r_name r)) (update_where P (\<lambda>r. r\<lparr>r_rule := rule, r_updated_at := timestamptz now, r_updated_by := who\<rparr>) rs) =
    map (\<lambda>r. (r_enabled r, r_name r)) rs" for P by (intro map_update_where) simp
  then show "checked_by rs a \<Longrightarrow> checked_by (upsert_rule now who rule i rs) a" by (simp add: checked_by_map upsert_rule_def del: set_map)
qed

lemma checked_by_import: "checked_by rs a \<Longrightarrow> checked_by (snd (import_each now who rules i rs)) a"
  by (induction rules arbitrary: i rs) (simp_all add: Let_def case_prod_beta checked_by_upsert)

text \<open>Both invariants, and the row of \<open>rule_setup\<close>, of which there is at most one.\<close>

definition book_ok :: "url_parse \<Rightarrow> db \<Rightarrow> bool" where
  "book_ok parse s \<longleftrightarrow> tab_inv (rule_inv parse) s \<and> no_orphans (tabs s) \<and> length (db_setup (tabs s)) \<le> 1"

text \<open>The operations that only add to the rules or change them in place.\<close>

definition rules_grow :: "tables \<Rightarrow> (tbl \<Rightarrow> int) \<Rightarrow> tables \<Rightarrow> (tbl \<Rightarrow> int) \<Rightarrow> bool" where
  "rules_grow t q t' q' \<longleftrightarrow> db_alerts t' = db_alerts t \<and> (\<forall>a. checked_by (db_rules t) a \<longrightarrow> checked_by (db_rules t') a)"

interpretation growing: table_order rules_grow
  by unfold_locales (auto simp: rules_grow_def)

lemma no_orphans_grow: "rules_grow t q t' q' \<Longrightarrow> no_orphans t \<Longrightarrow> no_orphans t'"
  by (simp add: rules_grow_def no_orphans_def)

lemma growing_result_bind: "(\<And>a. growing.moves (k a)) \<Longrightarrow> growing.moves (bindE (of_result r) k)"
  by (cases r) (auto simp: growing.moves_def of_result_def bindE_def growing.same)

lemma growing_insert: "growing.moves (on_unique e (insert_into T_rules (insert_rule now rule enabled who)))"
proof -
  have "growing.moves (insert_into T_rules (insert_rule now rule enabled who))"
    by (intro growing.moves_insert_into) (auto simp: insert_rule_def rules_grow_def checked_by_def)
  then show ?thesis by (simp add: growing.moves_def snd_on_unique)
qed

lemma growing_CreateRule: "growing.moves (CreateRule parse now rule0 enabled who)"
  unfolding CreateRule_def by (intro growing_result_bind growing_insert)

lemma growing_ImportRules: "growing.moves (ImportRules parse now rules who)"
  unfolding ImportRules_def
  by (intro growing_result_bind growing.moves_dbcall)
    (simp add: growing.moves_def case_prod_beta rules_grow_def checked_by_import)

lemma SetupRules_effect:
  assumes "SetupRules parse now rules source s = (res, s')"
  shows "tabs s' = tabs s \<and> (\<forall>x. res = Inr x \<longrightarrow> db_setup (tabs s) \<noteq> []) \<or>
    db_setup (tabs s) = [] \<and> (\<exists>stored rows. check_each parse rules = Inr stored \<and> added_rows rows (with_heartbeat stored) \<and>
      tabs s' = (tabs s)\<lparr>db_rules := db_rules (tabs s) @ rows, db_setup := [\<lparr>su_source = source, su_imported = int (length stored)\<rparr>]\<rparr>)"
  using assms unfolding SetupRules_def
proof (cases rule: in_tx_unless_cases)
  case (stays r1 s1 s2)
  have "db_setup (tabs s) \<noteq> []" if "res = Inr x" for x
    using SetupRules_tx_ok [of parse now rules source s1 x s2] stays(1,3) stays(4) [OF that] by (auto split: if_splits)
  with stays show ?thesis by blast
next
  case (whole a s1 s2)
  with SetupRules_tx_ok [of parse now rules source s1 a s2] show ?thesis by (auto split: if_splits)
qed simp

section \<open>Rules and alerts together\<close>

text \<open>What the operations on alerts do to the names of the rules that have open ones: \<open>CreateAlert\<close> may add its own.\<close>

definition alerts_from :: "string set \<Rightarrow> tables \<Rightarrow> (tbl \<Rightarrow> int) \<Rightarrow> tables \<Rightarrow> (tbl \<Rightarrow> int) \<Rightarrow> bool" where
  "alerts_from names t q t' q' \<longleftrightarrow> db_rules t' = db_rules t \<and> db_setup t' = db_setup t \<and>
     (\<forall>b \<in> set (db_alerts t'). is_open b \<longrightarrow> a_rule b \<in> names \<or> (\<exists>a \<in> set (db_alerts t). is_open a \<and> a_rule a = a_rule b))"

interpretation alerting: table_order "alerts_from names" for names
  by unfold_locales (auto simp: alerts_from_def, metis)

lemma alerting_CreateAlert: "alerting.moves {al_Rule alert} (CreateAlert alert)"
  unfolding CreateAlert_def hostID_def
  by (intro alerting.moves_bindE alerting.moves_if alerting.moves_ret alerting.moves_query alerting.moves_case_option alerting.moves_fail
    alerting.moves_insert_into) (auto simp: insert_alert_def alerts_from_def)

lemma alerting_UpdateAlert: "alerting.moves {} (UpdateAlert i severity v moment)"
  and alerting_ResolveAlert: "alerting.moves {} (ResolveAlert i v moment)"
  and alerting_Purge: "alerting.moves {} (PurgeResolvedAlerts now retention)"
  unfolding UpdateAlert_def ResolveAlert_def PurgeResolvedAlerts_def Let_def
  by (intro alerting.moves_exec; force simp: alerts_from_def delete_alerts_def Let_def set_update_where is_open_def split: if_splits)+

lemma keeps_alert_ops:
  "keeps (tab_inv alert_inv) (CreateAlert alert)" "keeps (tab_inv alert_inv) (UpdateAlert i severity v moment)"
  "keeps (tab_inv alert_inv) (ResolveAlert i v moment)" "keeps (tab_inv alert_inv) (PurgeResolvedAlerts now retention)"
proof -
  show "keeps (tab_inv alert_inv) (CreateAlert alert)"
    using CreateAlert_step [OF _ surjective_pairing] by (intro keepsI) blast
  show "keeps (tab_inv alert_inv) (UpdateAlert i severity v moment)" "keeps (tab_inv alert_inv) (ResolveAlert i v moment)"
    unfolding UpdateAlert_def ResolveAlert_def
    by (intro keeps_exec; simp add: alert_inv_update keeps_key_def index_key_def is_open_def)+
  have "alert_inv (delete_alerts P t) q" if inv: "alert_inv t q" for P t q
  proof -
    have "filter is_open (delete_where P (db_alerts t)) = filter (\<lambda>a. \<not> P a) (filter is_open (db_alerts t))"
      by (simp add: delete_where_def filter_filter conj_commute)
    then have "distinct (map index_key (filter is_open (delete_where P (db_alerts t))))"
      using inv by (simp only: distinct_map_filter alert_inv_def alerts_ok_def)
    moreover have "distinct (map a_id (delete_where P (db_alerts t)))"
      using inv by (simp add: delete_where_def distinct_map_filter alert_inv_def alerts_ok_def)
    ultimately show ?thesis using inv by (auto simp: delete_alerts_def Let_def alert_inv_def hosts_ok_def alerts_ok_def)
  qed
  then show "keeps (tab_inv alert_inv) (PurgeResolvedAlerts now retention)"
    unfolding PurgeResolvedAlerts_def Let_def by (intro keeps_exec) simp
qed

text \<open>
  The operations of the rules and of the alerts, in any order and with any failures. An alert is opened for a rule that is enabled at
  that moment.
\<close>

inductive rule_step :: "url_parse \<Rightarrow> db \<Rightarrow> db \<Rightarrow> bool" for parse :: url_parse where
  network: "rule_step parse s (set_net n s)"
| create: "rule_step parse s (snd (CreateRule parse now rule enabled who s))"
| update: "rule_step parse s (snd (UpdateRule parse now i rule enabled who s))"
| delete: "rule_step parse s (snd (DeleteRule now i s))"
| set_up: "rule_step parse s (snd (setupRules parse decode read_file now path s))"
| from_file: "rule_step parse s (snd (importRules parse decode read_file now path s))"
| alert: "r \<in> set (db_rules (tabs s)) \<Longrightarrow> r_enabled r \<Longrightarrow> al_Rule alert = r_name r \<Longrightarrow> rule_step parse s (snd (CreateAlert alert s))"
| worse: "rule_step parse s (snd (UpdateAlert i severity v moment s))"
| resolve: "rule_step parse s (snd (ResolveAlert i v moment s))"
| purge: "rule_step parse s (snd (PurgeResolvedAlerts now retention s))"

text \<open>What a step does to the rules, the alerts and the setup, of which nothing is undone.\<close>

lemma growing_file_ops:
  "growing.moves (importRules parse decode read_file now path)" "growing.moves (setupRules parse decode read_file now path)"
proof -
  have res: "growing.moves (of_result r)" for r :: "'a result"
    by (simp add: growing.moves_def of_result_def growing.same)
  have setup_grows: "growing.moves (SetupRules parse now rules source)" for rules source
  proof (rule growing.movesI)
    fix s :: db
    show "rules_grow (tabs s) (db_seq s) (tabs (snd (SetupRules parse now rules source s))) (db_seq (snd (SetupRules parse now rules source s)))"
      using SetupRules_effect [OF surjective_pairing, of parse now rules source s] by (auto simp: rules_grow_def checked_by_def)
  qed
  show "growing.moves (importRules parse decode read_file now path)"
    unfolding importRules_def by (intro growing_result_bind growing_ImportRules)
  show "growing.moves (setupRules parse decode read_file now path)"
    unfolding setupRules_def RulesSetUp_def
    by (intro growing.moves_bindE growing.moves_query growing.moves_if growing.moves_ret res setup_grows)
qed

lemma alerts_from_no_orphans:
  assumes "alerts_from names t q t' q'" and "no_orphans t" and "names \<subseteq> r_name ` set (filter r_enabled (db_rules t))"
  shows "no_orphans t'"
  unfolding no_orphans_def
proof (intro ballI impI)
  fix b assume "b \<in> set (db_alerts t')" "is_open b"
  with assms(1) consider "a_rule b \<in> names" | a where "a \<in> set (db_alerts t)" "is_open a" "a_rule a = a_rule b"
    by (auto simp: alerts_from_def)
  then show "checked_by (db_rules t') b"
  proof cases
    case 1
    with assms(1,3) show ?thesis by (force simp: checked_by_def alerts_from_def)
  next
    case 2
    with assms(2) have "checked_by (db_rules t) a" by (simp add: no_orphans_def)
    with 2(3) assms(1) show ?thesis by (simp add: checked_by_def alerts_from_def)
  qed
qed

lemma step_no_orphans:
  assumes "rule_step parse s s'" and "tab_inv (rule_inv parse) s" and "no_orphans (tabs s)"
  shows "no_orphans (tabs s')"
  using assms
proof (cases rule: rule_step.cases)
  case (update now i rule enabled who)
  with UpdateRule_effect [OF surjective_pairing, of parse now i rule enabled who s] rule_updated_no_orphans assms(2,3) show ?thesis
    by (auto simp: tab_inv_def)
next
  case (delete now i)
  with DeleteRule_effect [OF surjective_pairing, of now i s] rule_deleted_no_orphans assms(2,3) show ?thesis by (auto simp: tab_inv_def)
next
  case (alert r a)
  with alerts_from_no_orphans [OF alerting.movesD [OF alerting_CreateAlert surjective_pairing] assms(3), of a] show ?thesis by auto
next
  case (worse i severity v moment)
  with alerts_from_no_orphans [OF alerting.movesD [OF alerting_UpdateAlert surjective_pairing] assms(3)] show ?thesis by simp
next
  case (resolve i v moment)
  with alerts_from_no_orphans [OF alerting.movesD [OF alerting_ResolveAlert surjective_pairing] assms(3)] show ?thesis by simp
next
  case (purge now retention)
  with alerts_from_no_orphans [OF alerting.movesD [OF alerting_Purge surjective_pairing] assms(3)] show ?thesis by simp
qed (use assms(3) no_orphans_grow [OF growing.movesD [OF growing_CreateRule surjective_pairing]]
  no_orphans_grow [OF growing.movesD [OF growing_file_ops(1) surjective_pairing]]
  no_orphans_grow [OF growing.movesD [OF growing_file_ops(2) surjective_pairing]] in simp_all)

lemma step_rule_inv:
  assumes "rule_step parse s s'" and "tab_inv (rule_inv parse) s"
  shows "tab_inv (rule_inv parse) s'"
proof -
  have other: "tab_inv (rule_inv parse) (snd (m s))"
    if "keeps (tab_inv alert_inv) m" "alerting.moves names m" "counters.moves m" for m :: "('a, db) act" and names
  proof -
    have "alert_inv (tabs (snd (m s))) (db_seq (snd (m s)))"
      using keepsD [OF that(1) _ surjective_pairing] assms(2) by (auto simp: tab_inv_def rule_inv_def)
    moreover have "db_rules (tabs (snd (m s))) = db_rules (tabs s)"
      using alerting.movesD [OF that(2) surjective_pairing] by (simp add: alerts_from_def)
    moreover have "db_seq s T_rules \<le> db_seq (snd (m s)) T_rules"
      using counters.movesD [OF that(3) surjective_pairing] by (simp add: counters_grow_def)
    ultimately show ?thesis using assms(2) by (auto simp: tab_inv_def rule_inv_def intro: rules_ok_mono)
  qed
  have seq: "counters.moves (CreateAlert alert)" "counters.moves (UpdateAlert i severity v moment)" "counters.moves (ResolveAlert i v moment)"
    "counters.moves (PurgeResolvedAlerts now retention)" for alert i severity v moment now retention
    unfolding CreateAlert_def hostID_def UpdateAlert_def ResolveAlert_def PurgeResolvedAlerts_def Let_def by (intro counters_rules)+
  from assms(1) show ?thesis
  proof cases
    case (network n)
    with assms(2) show ?thesis by (simp add: tab_inv_def)
  qed (simp_all add: keeps_snd [OF keeps_CreateRule assms(2)] keeps_snd [OF keeps_UpdateRule assms(2)] keeps_snd [OF keeps_DeleteRule assms(2)]
    keeps_snd [OF keeps_setupRules assms(2)] keeps_snd [OF keeps_importRules assms(2)] other [OF keeps_alert_ops(1) alerting_CreateAlert seq(1)]
    other [OF keeps_alert_ops(2) alerting_UpdateAlert seq(2)] other [OF keeps_alert_ops(3) alerting_ResolveAlert seq(3)]
    other [OF keeps_alert_ops(4) alerting_Purge seq(4)])
qed

text \<open>The row of the setup: only the first setup writes it, and nothing takes it back.\<close>

definition setup_stays :: "tables \<Rightarrow> (tbl \<Rightarrow> int) \<Rightarrow> tables \<Rightarrow> (tbl \<Rightarrow> int) \<Rightarrow> bool" where
  "setup_stays t q t' q' \<longleftrightarrow> db_setup t' = db_setup t"

interpretation settled: table_order setup_stays
  by unfold_locales (auto simp: setup_stays_def)

lemma settled_wrap: "settled.moves m \<Longrightarrow> settled.moves (on_unique e m)" "settled.moves (of_result r)"
  by (simp_all add: settled.moves_def snd_on_unique of_result_def settled.same)

lemma settled_statements:
  "settled.moves (rename_alerts old new)" "settled.moves (rename_checks old new)" "settled.moves (replace_rule now i rule enabled who)"
  "settled.moves (resolveRuleAlerts now name)" "settled.moves (insert_into T_rules (insert_rule now rule enabled who))"
  unfolding rename_alerts_def rename_checks_def replace_rule_def resolveRuleAlerts_def
  by (intro settled.moves_exec settled.moves_dbcall settled.moves_insert_into;
    simp add: settled.moves_def setup_stays_def Let_def insert_rule_def)+

lemma settled_edits:
  "settled.moves (CreateRule parse now rule enabled who)" "settled.moves (UpdateRule parse now i rule enabled who)" "settled.moves (DeleteRule now i)"
  unfolding CreateRule_def UpdateRule_def UpdateRule_tx_def DeleteRule_def DeleteRule_tx_def
  by (intro settled.moves_bindE settled.moves_in_tx settled.moves_case_option settled.moves_if settled.moves_query settled.moves_fail settled.moves_ret
    settled_wrap settled_statements settled.moves_exec; simp add: setup_stays_def)+

lemma settled_import: "settled.moves (importRules parse decode read_file now path)"
  unfolding importRules_def ImportRules_def
  by (intro settled.moves_bindE settled_wrap settled.moves_dbcall) (simp add: settled.moves_def setup_stays_def case_prod_beta)

lemma check_each_ParseRules: "LoadRules parse decode read_file path = Inr rules \<Longrightarrow> check_each parse rules = Inr rules"
  by (rule check_each_valid) (auto simp: LoadRules_def ParseRules_def split: sum.splits dest: parse_rules_from_sound)

definition file_rules :: "url_parse \<Rightarrow> (string \<Rightarrow> AlertConfig list result) \<Rightarrow> (string \<Rightarrow> string result) \<Rightarrow> string \<Rightarrow> AlertConfig list result" where
  "file_rules parse decode read_file path = (if path \<noteq> [] then LoadRules parse decode read_file path else Inr [])"

lemma setupRules_effect:
  assumes "setupRules parse decode read_file now path s = (res, s')"
  shows "tabs s' = tabs s \<and> (\<forall>x. res = Inr x \<longrightarrow> db_setup (tabs s) \<noteq> []) \<or>
    db_setup (tabs s) = [] \<and> (\<exists>rules rows. file_rules parse decode read_file path = Inr rules \<and> added_rows rows (with_heartbeat rules) \<and>
      tabs s' = (tabs s)\<lparr>db_rules := db_rules (tabs s) @ rows, db_setup := [\<lparr>su_source = path, su_imported = int (length rules)\<rparr>]\<rparr>)"
  using assms unfolding setupRules_def
proof (cases rule: bindE_cases)
  case (err e)
  then show ?thesis by (auto simp: RulesSetUp_def elim: query_cases)
next
  case (ok before s1)
  have s1: "tabs s1 = tabs s" "before = (db_setup (tabs s) \<noteq> [])" using ok(1) by (auto simp: RulesSetUp_def elim: query_cases)
  show ?thesis
  proof (cases "before \<or> (\<exists>e. file_rules parse decode read_file path = Inl e)")
    case True
    with ok(2) s1 show ?thesis by (auto simp: file_rules_def of_result_def bindE_def split: if_splits)
  next
    case False
    then obtain rules where rules: "\<not> before" "file_rules parse decode read_file path = Inr rules" by (cases "file_rules parse decode read_file path") auto
    have "(if path \<noteq> [] then of_result (LoadRules parse decode read_file path) else ret []) s1 = (Inr rules, s1)"
      using rules(2) by (auto simp: file_rules_def of_result_def split: if_splits)
    with ok(2) rules(1) have run: "bindE (SetupRules parse now rules path) (\<lambda>_. ret ()) s1 = (res, s')" by (simp add: bindE_Inr)
    then obtain r where r: "SetupRules parse now rules path s1 = (r, s')" "(\<exists>x. r = Inr x) \<longleftrightarrow> (\<exists>x. res = Inr x)"
      by (cases rule: bindE_cases) auto
    have "check_each parse rules = Inr rules"
      using rules(2) by (auto simp: file_rules_def split: if_splits intro: check_each_ParseRules)
    with SetupRules_effect [OF r(1)] r(2) s1(1) rules(2) show ?thesis by fastforce
  qed
qed

lemma step_setup:
  assumes "rule_step parse s s'"
  shows "db_setup (tabs s') = db_setup (tabs s) \<or> db_setup (tabs s) = [] \<and> length (db_setup (tabs s')) = 1"
  using assms
proof cases
  case (set_up decode read_file now path)
  with setupRules_effect [OF surjective_pairing, of parse decode read_file now path s] show ?thesis by auto
next
  case (alert r a)
  with alerting.movesD [OF alerting_CreateAlert surjective_pairing] show ?thesis by (auto simp: alerts_from_def)
qed (use settled.movesD [OF settled_edits(1) surjective_pairing] settled.movesD [OF settled_edits(2) surjective_pairing]
  settled.movesD [OF settled_edits(3) surjective_pairing] settled.movesD [OF settled_import surjective_pairing]
  alerting.movesD [OF alerting_UpdateAlert surjective_pairing] alerting.movesD [OF alerting_ResolveAlert surjective_pairing]
  alerting.movesD [OF alerting_Purge surjective_pairing] in \<open>simp_all add: setup_stays_def alerts_from_def\<close>)

lemma steps_book_ok:
  assumes "(rule_step parse)\<^sup>*\<^sup>* s s'" and "book_ok parse s"
  shows "book_ok parse s'"
  using assms
proof (induction rule: rtranclp_induct)
  case (step s1 s2)
  then show ?case using step_rule_inv [OF step(2)] step_no_orphans [OF step(2)] step_setup [OF step(2)] by (auto simp: book_ok_def)
qed

lemma steps_setup: "(rule_step parse)\<^sup>*\<^sup>* s s' \<Longrightarrow> db_setup (tabs s) \<noteq> [] \<Longrightarrow> db_setup (tabs s') \<noteq> []"
proof (induction rule: rtranclp_induct)
  case (step s1 s2)
  then show ?case using step_setup [OF step(2)] by auto
qed

section \<open>Moving rules between collectors\<close>

lemma exported:
  assumes "exportRules s = (Inr rules, s')" and "tab_inv (rule_inv parse) s"
  shows "(\<forall>rule \<in> set rules. valid_rule parse rule) \<and> distinct (map rule_Name rules) \<and> sorted (map rule_Name rules)"
proof -
  let ?rs = "filter r_enabled (sort_key r_name (db_rules (tabs s)))"
  have ok: "rules_ok parse (db_rules (tabs s)) (db_seq s T_rules)" using assms(2) by (simp add: tab_inv_def rule_invD)
  have rules: "rules = map r_rule ?rs"
    using assms(1) unfolding exportRules_def EnabledRules_def by (auto simp: rule_of_row_def elim!: bindE_InrE query_cases)
  then have "map rule_Name rules = map r_name ?rs" using ok by (auto simp: rules_ok_def)
  moreover have "sorted (map r_name ?rs)" by (intro sorted_filter) simp
  moreover have "distinct (map r_name ?rs)"
    using ok by (intro distinct_map_filter) (simp add: rules_ok_def distinct_map)
  moreover have "\<forall>rule \<in> set rules. valid_rule parse rule" using ok by (auto simp: rules rules_ok_def)
  ultimately show ?thesis by simp
qed

lemma upsert_has: "\<exists>r \<in> set (upsert_rule now who rule i rs). r_name r = rule_Name rule \<and> r_rule r = rule"
  by (cases "\<exists>r \<in> set rs. r_name r = rule_Name rule") (force simp: upsert_rule_def set_update_where)+

lemma upsert_leaves: "r \<in> set rs \<Longrightarrow> r_name r \<noteq> rule_Name rule \<Longrightarrow> r \<in> set (upsert_rule now who rule i rs)"
  by (auto simp: upsert_rule_def set_update_where)

lemma import_each_leaves: "r \<in> set rs \<Longrightarrow> r_name r \<notin> rule_Name ` set rules \<Longrightarrow> r \<in> set (snd (import_each now who rules i rs))"
  by (induction rules arbitrary: i rs) (simp_all add: Let_def case_prod_beta upsert_leaves)

lemma import_each_has:
  assumes "distinct (map rule_Name rules)" and "rule \<in> set rules"
  shows "\<exists>r \<in> set (snd (import_each now who rules i rs)). r_name r = rule_Name rule \<and> r_rule r = rule"
  using assms
proof (induction rules arbitrary: i rs)
  case (Cons x rules)
  let ?rs = "upsert_rule now who x (i + 1) rs"
  show ?case
  proof (cases "rule = x")
    case True
    obtain r where r: "r \<in> set ?rs" "r_name r = rule_Name x" "r_rule r = x" using upsert_has by blast
    then have "r \<in> set (snd (import_each now who rules (i + 1) ?rs))" using Cons.prems(1) by (intro import_each_leaves) simp_all
    with r True show ?thesis by (auto simp: Let_def case_prod_beta)
  next
    case False
    with Cons show ?thesis by (simp add: Let_def case_prod_beta)
  qed
qed simp

lemma import_each_counts: "fst (fst (import_each now who rules i rs)) + snd (fst (import_each now who rules i rs)) = int (length rules)"
proof (induction rules arbitrary: i rs)
  case (Cons x rules)
  from Cons [of "i + 1" "upsert_rule now who x (i + 1) rs"] show ?case by (simp add: Let_def case_prod_beta)
qed simp

lemma import_each_fresh:
  assumes "distinct (map rule_Name rules)" and "set (map rule_Name rules) \<inter> r_name ` set rs = {}"
  shows "\<exists>rows. snd (import_each now who rules i rs) = rs @ rows \<and> map r_rule rows = rules \<and> map r_name rows = map rule_Name rules \<and> (\<forall>r \<in> set rows. r_enabled r)"
  using assms
proof (induction rules arbitrary: i rs)
  case (Cons x rules)
  let ?new = "new_rule now (i + 1) x True who"
  have "\<not> (\<exists>r \<in> set rs. r_name r = rule_Name x)" using Cons.prems(2) by force
  then have "upsert_rule now who x (i + 1) rs = rs @ [?new]" by (simp add: upsert_rule_def)
  moreover obtain rows where "snd (import_each now who rules (i + 1) (rs @ [?new])) = (rs @ [?new]) @ rows" "map r_rule rows = rules"
    "map r_name rows = map rule_Name rules" "\<forall>r \<in> set rows. r_enabled r"
    using Cons.IH [of "rs @ [?new]" "i + 1"] Cons.prems by auto
  ultimately show ?case by (intro exI [of _ "?new # rows"]) (simp add: Let_def case_prod_beta)
qed simp

lemma ImportRules_quiet:
  assumes "\<forall>rule \<in> set rules. valid_rule parse rule" and "db_net d = []"
  shows "ImportRules parse now rules who d =
    (Inr (fst (import_each now who rules (db_seq d T_rules) (db_rules (tabs d)))),
     d\<lparr>db_seq := (db_seq d)(T_rules := db_seq d T_rules + int (length rules)),
       tabs := (tabs d)\<lparr>db_rules := snd (import_each now who rules (db_seq d T_rules) (db_rules (tabs d)))\<rparr>\<rparr>)"
  using assms by (simp add: ImportRules_def check_each_valid of_result_def bindE_def dbcall_def case_prod_beta)

section \<open>Properties\<close>

text \<open>What holds of the rules in the database after any operations, failures included: numbers and names are unique, every rule is
  stored under its own name and is one the validation accepts as it is, alerts keep their own invariant, and the
  rules were set up at most once.\<close>

theorem rules_invariant:
  assumes "(rule_step parse)\<^sup>*\<^sup>* s s'" and "alert_db_ok s" and "db_rules (tabs s) = []" and "db_alerts (tabs s) = []" and "db_setup (tabs s) = []"
  shows "(\<forall>r \<in> set (db_rules (tabs s')). \<forall>r' \<in> set (db_rules (tabs s')). r_name r = r_name r' \<or> r_id r = r_id r' \<longrightarrow> r = r') \<and>
    (\<forall>r \<in> set (db_rules (tabs s')). r_name r = rule_Name (r_rule r) \<and> Validate parse (r_rule r) = (Inr (), r_rule r)) \<and>
    alert_db_ok s' \<and> length (db_setup (tabs s')) \<le> 1"
proof -
  have "book_ok parse s" using assms(2-5) by (simp add: book_ok_def tab_inv_def rule_inv_def rules_ok_def no_orphans_def alert_db_ok_def)
  from steps_book_ok [OF assms(1) this] have ok: "rules_ok parse (db_rules (tabs s')) (db_seq s' T_rules)" "alert_db_ok s'" "length (db_setup (tabs s')) \<le> 1"
    by (simp_all add: book_ok_def tab_inv_def rule_inv_def alert_db_ok_def)
  let ?rs = "db_rules (tabs s')"
  have d: "distinct (map r_id ?rs)" "distinct (map r_name ?rs)" using ok(1) by (simp_all add: rules_ok_def)
  have "r = r'" if "r \<in> set ?rs" "r' \<in> set ?rs" "r_name r = r_name r' \<or> r_id r = r_id r'" for r r'
    using that distinct_map_eq [OF d(1)] distinct_map_eq [OF d(2)] by blast
  with ok show ?thesis by (auto simp: rules_ok_def Validate_id)
qed


text \<open>Rules are moved from the file to the database once. The first successful start stores exactly the file's rules, all of them
  enabled, and a heartbeat for all hosts when the file has none; whatever is edited, deleted or imported afterwards, a later start
  changes nothing, so a deleted rule does not come back.\<close>

theorem rules_set_up_once:
  assumes "setupRules parse decode read_file now path s = (Inr (), s1)" and "(rule_step parse)\<^sup>*\<^sup>* s1 s2"
  shows "tabs (snd (setupRules parse decode' read_file' now' path' s2)) = tabs s2 \<and>
    (db_setup (tabs s) = [] \<longrightarrow> (\<exists>rules rows. file_rules parse decode read_file path = Inr rules \<and>
       db_rules (tabs s1) = db_rules (tabs s) @ rows \<and> map r_rule rows = with_heartbeat rules \<and> (\<forall>r \<in> set rows. r_enabled r) \<and>
       (\<exists>rule \<in> set (with_heartbeat rules). all_hosts_heartbeat rule \<or> rule_Name rule = rule_Name DefaultHeartbeat)))"
proof -
  have first: "db_setup (tabs s1) \<noteq> []" using setupRules_effect [OF assms(1)] by auto
  then have "db_setup (tabs s2) \<noteq> []" by (rule steps_setup [OF assms(2)])
  with setupRules_effect [OF surjective_pairing, of parse decode' read_file' now' path' s2]
  have again: "tabs (snd (setupRules parse decode' read_file' now' path' s2)) = tabs s2" by auto
  have beat: "\<exists>rule \<in> set (with_heartbeat rules). all_hosts_heartbeat rule \<or> rule_Name rule = rule_Name DefaultHeartbeat" for rules
    by (force simp: with_heartbeat_def list_ex_iff)
  show ?thesis using again setupRules_effect [OF assms(1)] beat by (auto simp: added_rows_def)
qed

text \<open>C33. Rules survive the way through a file: what one collector exports, another one imports whole. Every exported rule is then stored there
  as it was, rules with other names are untouched, the counts add up, and exporting from a collector that had no rules
  gives the same list again. That the file decodes to what was written is a hypothesis on the JSON package.\<close>

theorem export_import_roundtrip:
  assumes "exportRules s = (Inr rules, s1)" and "tab_inv (rule_inv parse) s" and "read_file path = Inr data" and "decode data = Inr rules" and "db_net d = []"
  shows "\<exists>added updated d'. importRules parse decode read_file now path d = (Inr (added, updated), d') \<and> added + updated = int (length rules) \<and>
    (\<forall>rule \<in> set rules. \<exists>r \<in> set (db_rules (tabs d')). r_name r = rule_Name rule \<and> r_rule r = rule) \<and>
    (\<forall>r \<in> set (db_rules (tabs d)). r_name r \<notin> rule_Name ` set rules \<longrightarrow> r \<in> set (db_rules (tabs d'))) \<and>
    (db_rules (tabs d) = [] \<longrightarrow> exportRules d' = (Inr rules, d'))"
proof -
  let ?i = "import_each now ''command line'' rules (db_seq d T_rules) (db_rules (tabs d))"
  let ?d = "d\<lparr>db_seq := (db_seq d)(T_rules := db_seq d T_rules + int (length rules)), tabs := (tabs d)\<lparr>db_rules := snd ?i\<rparr>\<rparr>"
  have ok: "\<forall>rule \<in> set rules. valid_rule parse rule" "distinct (map rule_Name rules)" "sorted (map rule_Name rules)"
    using exported [OF assms(1,2)] by simp_all
  have "LoadRules parse decode read_file path = Inr rules"
    using ok(1,2) by (simp add: LoadRules_def ParseRules_def assms(3,4) parse_rules_from_id)
  then have run: "importRules parse decode read_file now path d = (Inr (fst ?i), ?d)"
    by (simp add: importRules_def of_result_def bindE_def ImportRules_quiet [OF ok(1) assms(5)])
  have again: "exportRules ?d = (Inr rules, ?d)" if none: "db_rules (tabs d) = []"
  proof -
    obtain rows where rows: "snd ?i = rows" "map r_rule rows = rules" "map r_name rows = map rule_Name rules" "\<forall>r \<in> set rows. r_enabled r"
      using import_each_fresh [OF ok(2), of "db_rules (tabs d)" now "''command line''" "db_seq d T_rules"] none by auto
    then have "sort_key r_name rows = rows" using ok(3) by (intro sort_key_id_if_sorted) simp
    with rows assms(5) show ?thesis
      by (simp add: exportRules_def EnabledRules_def query_def dbcall_def bindE_def rule_of_row_def comp_def)
  qed
  obtain added updated where c: "fst ?i = (added, updated)" by (cases "fst ?i")
  with run have "importRules parse decode read_file now path d = (Inr (added, updated), ?d)" by simp
  moreover have "added + updated = int (length rules)" using import_each_counts [of now "''command line''" rules] c by (metis fst_conv snd_conv)
  ultimately show ?thesis
    using import_each_has [OF ok(2)] import_each_leaves again by (intro exI [of _ added] exI [of _ updated] exI [of _ ?d]) simp
qed

section \<open>Examples\<close>

text \<open>A collector without a rules file starts, its heartbeat rule opens an alert, and the rule gets another name.\<close>

definition no_url :: url_parse where
  "no_url = (\<lambda>_. None)"

definition example_started :: "unit result \<times> db" where
  "example_started = setupRules no_url (\<lambda>_. Inr []) (\<lambda>_. Inr []) 0 [] empty_db"

definition example_alert :: Alert where
  "example_alert = \<lparr>al_ID = 0, al_Host = [], al_Rule = rule_Name DefaultHeartbeat, al_Metric = PING, al_Target = [], al_Severity = 2,
     al_Value = Fin 301, al_StartedAt = Hour, al_UpdatedAt = Hour, al_ResolvedAt = None\<rparr>"

definition example_alerted :: db where
  "example_alerted = snd (CreateAlert example_alert (snd example_started))"

definition example_renamed :: db where
  "example_renamed = snd (UpdateRule no_url (2 * Hour) 1 (DefaultHeartbeat\<lparr>rule_Name := ''Silent''\<rparr>) True ''ada'' example_alerted)"

lemma example_rule_there: "\<exists>r \<in> set (db_rules (tabs (snd example_started))). r_enabled r \<and> r_name r = al_Rule example_alert"
  by code_simp

lemma example_rule_steps: "(rule_step no_url)\<^sup>*\<^sup>* empty_db (snd example_started)" "(rule_step no_url)\<^sup>*\<^sup>* (snd example_started) example_renamed"
proof -
  show "(rule_step no_url)\<^sup>*\<^sup>* empty_db (snd example_started)"
    unfolding example_started_def by (blast intro: rule_step.set_up)
  obtain r where "r \<in> set (db_rules (tabs (snd example_started)))" "r_enabled r" "al_Rule example_alert = r_name r"
    using example_rule_there by auto
  then have "rule_step no_url (snd example_started) example_alerted" unfolding example_alerted_def by (rule rule_step.alert)
  moreover have "rule_step no_url example_alerted example_renamed" unfolding example_renamed_def by (rule rule_step.update)
  ultimately show "(rule_step no_url)\<^sup>*\<^sup>* (snd example_started) example_renamed" by (rule converse_rtranclp_into_rtranclp [OF _ r_into_rtranclp])
qed

lemma empty_db_rules: "alert_db_ok empty_db" "db_rules (tabs empty_db) = []" "db_alerts (tabs empty_db) = []" "db_setup (tabs empty_db) = []"
  by (simp_all add: alert_db_ok_def tab_inv_def alert_inv_def hosts_ok_def alerts_ok_def empty_db_def no_rows_def)

theorem rules_invariant_witness:
  "Validate no_url (r_rule (hd (db_rules (tabs example_renamed)))) = (Inr (), r_rule (hd (db_rules (tabs example_renamed))))"
proof -
  have "length (db_rules (tabs example_renamed)) = 1" by code_simp
  then have "hd (db_rules (tabs example_renamed)) \<in> set (db_rules (tabs example_renamed))" by (intro hd_in_set) auto
  with rules_invariant [OF rtranclp_trans [OF example_rule_steps] empty_db_rules] show ?thesis by blast
qed


theorem rules_set_up_once_witness:
  "tabs (snd (setupRules no_url (\<lambda>_. Inr []) (\<lambda>_. Inr []) 0 [] example_renamed)) = tabs example_renamed \<and>
   map r_rule (db_rules (tabs (snd example_started))) = [DefaultHeartbeat]"
proof -
  have "fst example_started = Inr ()" by code_simp
  then have run: "setupRules no_url (\<lambda>_. Inr []) (\<lambda>_. Inr []) 0 [] empty_db = (Inr (), snd example_started)"
    by (simp add: example_started_def prod_eq_iff)
  from rules_set_up_once [OF run example_rule_steps(2)] empty_db_rules(2,4) show ?thesis
    by (auto simp: file_rules_def with_heartbeat_def)
qed

text \<open>The evaluator read the rules before one of them was deleted: the alert it then opens has no rule, and stays open.\<close>

lemma deleted_rule_alert_stays:
  "db_rules (tabs (snd (CreateAlert example_alert (snd (DeleteRule Hour 1 (snd example_started)))))) = [] \<and>
   map a_resolved_at (db_alerts (tabs (snd (CreateAlert example_alert (snd (DeleteRule Hour 1 (snd example_started))))))) = [None]"
  by code_simp

theorem export_import_roundtrip_witness:
  "\<exists>d'. importRules no_url (\<lambda>_. Inr [DefaultHeartbeat]) (\<lambda>_. Inr []) 0 ''rules.json'' empty_db = (Inr (1, 0), d') \<and> exportRules d' = (Inr [DefaultHeartbeat], d')"
proof -
  have "map_sum (\<lambda>_. ()) (\<lambda>x. x) (fst (exportRules (snd example_started))) = Inr [DefaultHeartbeat]" by code_simp
  then have e: "exportRules (snd example_started) = (Inr [DefaultHeartbeat], snd (exportRules (snd example_started)))"
    by (cases "fst (exportRules (snd example_started))") (auto simp: prod_eq_iff)
  have "book_ok no_url empty_db"
    using empty_db_rules by (simp add: book_ok_def tab_inv_def rule_inv_def rules_ok_def no_orphans_def alert_db_ok_def)
  from steps_book_ok [OF example_rule_steps(1) this] have inv: "tab_inv (rule_inv no_url) (snd example_started)" by (simp add: book_ok_def)
  have n: "db_net empty_db = []" by (simp add: empty_db_def)
  have "map_sum (\<lambda>_. ()) (\<lambda>x. x) (fst (importRules no_url (\<lambda>_. Inr [DefaultHeartbeat]) (\<lambda>_. Inr []) 0 ''rules.json'' empty_db)) = Inr (1, 0)" by code_simp
  with export_import_roundtrip [OF e inv _ _ n, of "\<lambda>_. Inr []" "''rules.json''" "[]" "\<lambda>_. Inr [DefaultHeartbeat]" 0] empty_db_rules(2) show ?thesis
    by auto
qed

end
