(* ===== verification/ApiRules.thy ===== *)
theory ApiRules
  imports RuleBook Api
begin

text \<open>
  The collector's calls for rules and notification channels: internal/api/rules.go and internal/api/notifications.go. A rule arrives
  as JSON that \<open>decode\<close> reads. The settings of a channel arrive as JSON too: \<open>Inl\<close> stands for text that is none. \<open>addr\<close> and
  \<open>parse\<close> are \<open>mail.ParseAddress\<close> and \<open>url.Parse\<close>.
\<close>

section \<open>Rules\<close>

record AlertRuleInfo =
  ai_Id :: int
  ai_Enabled :: bool
  ai_Rule :: "AlertConfig option"
  ai_UpdatedAt :: int
  ai_UpdatedBy :: string

definition rule_info :: "AlertRule \<Rightarrow> AlertRuleInfo" where
  "rule_info r = \<lparr>ai_Id = ar_ID r, ai_Enabled = ar_Enabled r, ai_Rule = Some (ar_Rule r), ai_UpdatedAt = time_toUnix (ar_UpdatedAt r),
     ai_UpdatedBy = ar_UpdatedBy r\<rparr>"

definition api_AlertRules :: "(AlertRuleInfo list, db) act" where
  "api_AlertRules = bindE (map_err toStatus AlertRules) (\<lambda>rules. ret (map rule_info rules))"

definition no_channel :: "string \<Rightarrow> error" where
  "no_channel name = ErrStatus InvalidArgument (ErrText ''there is no notification channel named %q'' [name])"

definition checkRuleChannels :: "string list \<Rightarrow> (unit, db) act" where
  "checkRuleChannels picked =
     (if picked = [] then ret ()
      else bindE (map_err toStatus Channels) (\<lambda>channels.
        case find (\<lambda>name. TrimSpace name \<notin> ch_Name ` set channels) picked of
          Some name \<Rightarrow> fail (no_channel name)
        | None \<Rightarrow> ret ()))"

record SaveRuleRequest =
  sr_Id :: int
  sr_RuleJson :: string
  sr_Enabled :: bool
  sr_By :: string

definition SaveRule :: "url_parse \<Rightarrow> (string \<Rightarrow> AlertConfig result) \<Rightarrow> time \<Rightarrow> SaveRuleRequest \<Rightarrow> (AlertRuleInfo, db) act" where
  "SaveRule parse decode now req = (case decode (sr_RuleJson req) of
     Inl e \<Rightarrow> fail (ErrStatus InvalidArgument (ErrWrap ''cannot read the rule: %s'' [] e))
   | Inr rule \<Rightarrow>
       bindE (checkRuleChannels (rule_Channels rule)) (\<lambda>_.
       bindE (map_err toStatus (if sr_Id req = 0 then CreateRule parse now rule (sr_Enabled req) (sr_By req)
                else bindE (UpdateRule parse now (sr_Id req) rule (sr_Enabled req) (sr_By req)) (\<lambda>_. ret (sr_Id req)))) (\<lambda>i.
       ret \<lparr>ai_Id = i, ai_Enabled = sr_Enabled req, ai_Rule = None, ai_UpdatedAt = 0, ai_UpdatedBy = sr_By req\<rparr>)))"

definition api_DeleteRule :: "time \<Rightarrow> int \<Rightarrow> (string, db) act" where
  "api_DeleteRule now i = bindE (map_err toStatus (DeleteRule now i)) (\<lambda>_. ret ''ok'')"

section \<open>Channels\<close>

definition maxChannelName :: nat where
  "maxChannelName = 64"

record ChannelInfo =
  ci_Id :: int
  ci_Name :: string
  ci_Kind :: string
  ci_Settings :: gomap
  ci_SecretsSet :: "string list"
  ci_IsDefault :: bool
  ci_SkipWarnings :: bool
  ci_Enabled :: bool
  ci_UpdatedAt :: int
  ci_UpdatedBy :: string
  ci_LastStatus :: string
  ci_LastAt :: int
  ci_LastError :: string

definition channelInfo :: "Channel \<Rightarrow> ChannelInfo result" where
  "channelInfo channel = (case Redact (ch_Kind channel) (ch_Settings channel) of
     Inl e \<Rightarrow> Inl e
   | Inr (settings, names) \<Rightarrow> Inr \<lparr>ci_Id = ch_ID channel, ci_Name = ch_Name channel, ci_Kind = ch_Kind channel, ci_Settings = settings,
       ci_SecretsSet = names, ci_IsDefault = ch_IsDefault channel, ci_SkipWarnings = ch_SkipWarnings channel, ci_Enabled = ch_Enabled channel,
       ci_UpdatedAt = unix_time (ch_UpdatedAt channel), ci_UpdatedBy = ch_UpdatedBy channel, ci_LastStatus = ch_LastStatus channel,
       ci_LastAt = unix_time (ch_LastAt channel), ci_LastError = ch_LastError channel\<rparr>)"

fun channel_infos :: "Channel list \<Rightarrow> ChannelInfo list result" where
  "channel_infos [] = Inr []"
| "channel_infos (c # cs) = (case channelInfo c of Inl e \<Rightarrow> Inl (toStatus e)
     | Inr i \<Rightarrow> (case channel_infos cs of Inl e \<Rightarrow> Inl e | Inr is \<Rightarrow> Inr (i # is)))"

definition NotificationChannels :: "(ChannelInfo list, db) act" where
  "NotificationChannels = bindE (map_err toStatus Channels) (\<lambda>channels. of_result (channel_infos channels))"

definition checkChannelName :: "string \<Rightarrow> unit result" where
  "checkChannelName name =
     (if name = [] then Inl (err_text ''a channel needs a name'')
      else if RuneCount name > maxChannelName then Inl (err_text ''a channel name can be at most 64 characters'')
      else if contains_control name then Inl (err_text ''a channel name is one line of text'')
      else Inr ())"

text \<open>\<open>json.Marshal\<close> of the map \<open>KeepSecrets\<close> returns: its keys, all of which come from the two objects, in order.\<close>

fun object_keys :: "json \<Rightarrow> string list" where
  "object_keys (JObj members) = map fst members"
| "object_keys _ = []"

definition marshal_map :: "string list \<Rightarrow> gomap \<Rightarrow> json" where
  "marshal_map keys m = (case m of NilMap \<Rightarrow> JNull
     | GoMap f \<Rightarrow> JObj (map (\<lambda>k. (k, the (f k))) (filter (\<lambda>k. f k \<noteq> None) (sort (remdups keys)))))"

record SaveChannelRequest =
  sc_Id :: int
  sc_Name :: string
  sc_Kind :: string
  sc_Settings :: "json result"
  sc_IsDefault :: bool
  sc_SkipWarnings :: bool
  sc_Enabled :: bool
  sc_By :: string

definition requested_channel :: "SaveChannelRequest \<Rightarrow> json \<Rightarrow> Channel" where
  "requested_channel req settings = \<lparr>ch_ID = sc_Id req, ch_Name = TrimSpace (sc_Name req), ch_Kind = sc_Kind req, ch_Settings = settings,
     ch_IsDefault = sc_IsDefault req, ch_SkipWarnings = sc_SkipWarnings req, ch_Enabled = sc_Enabled req, ch_UpdatedAt = zero_time,
     ch_UpdatedBy = [], ch_LastStatus = [], ch_LastAt = zero_time, ch_LastError = []\<rparr>"

definition kept_settings :: "string \<Rightarrow> json \<Rightarrow> json result \<Rightarrow> json result" where
  "kept_settings kind current sent = (case sent of
     Inl e \<Rightarrow> Inl e
   | Inr nxt \<Rightarrow> (case KeepSecrets kind current nxt of Inl e \<Rightarrow> Inl e | Inr m \<Rightarrow> Inr (marshal_map (object_keys nxt @ object_keys current) m)))"

text \<open>What is saved: for a channel that is there, its own name and kind, and the secrets left empty are the stored ones.\<close>

definition channel_to_save :: "SaveChannelRequest \<Rightarrow> (Channel \<times> json result, db) act" where
  "channel_to_save req =
     (let blank = requested_channel req JNull in
      if sc_Id req = 0 then ret (blank, sc_Settings req)
      else bindE (map_err toStatus (Channel (sc_Id req))) (\<lambda>current.
        case kept_settings (ch_Kind current) (ch_Settings current) (sc_Settings req) of
          Inl e \<Rightarrow> fail (ErrStatus InvalidArgument (ErrWrap ''cannot read the settings: %s'' [] e))
        | Inr settings \<Rightarrow> ret (blank\<lparr>ch_Name := ch_Name current, ch_Kind := ch_Kind current\<rparr>, Inr settings)))"

definition parse_settings :: "address_parse \<Rightarrow> url_parse \<Rightarrow> string \<Rightarrow> json result \<Rightarrow> Sender result" where
  "parse_settings addr parse kind settings = (case settings of Inl e \<Rightarrow> Inl e | Inr j \<Rightarrow> Parse_channel addr parse kind j)"

definition invalid :: "'a result \<Rightarrow> ('a, db) act" where
  "invalid r = map_err (ErrStatus InvalidArgument) (of_result r)"

definition SaveChannel :: "address_parse \<Rightarrow> url_parse \<Rightarrow> time \<Rightarrow> SaveChannelRequest \<Rightarrow> (ChannelInfo, db) act" where
  "SaveChannel addr parse now req =
     bindE (channel_to_save req) (\<lambda>(blank, sent).
     bindE (invalid (checkChannelName (ch_Name blank))) (\<lambda>_.
     bindE (invalid (parse_settings addr parse (ch_Kind blank) sent)) (\<lambda>_.
     bindE (of_result sent) (\<lambda>settings.
     let channel = blank\<lparr>ch_Settings := settings\<rparr> in
     bindE (map_err toStatus (if ch_ID channel = 0 then CreateChannel now channel (sc_By req)
              else bindE (UpdateChannel now channel (sc_By req)) (\<lambda>_. ret (ch_ID channel)))) (\<lambda>i.
     bindE (map_err toStatus (Channel i)) (\<lambda>saved.
     map_err toStatus (of_result (channelInfo saved))))))))"

definition channel_in_use :: "string list \<Rightarrow> error" where
  "channel_in_use using_rules = ErrStatus FailedPrecondition (ErrText ''rules send to this channel: %q. Take it out of them first'' using_rules)"

definition api_DeleteChannel :: "int \<Rightarrow> (string, db) act" where
  "api_DeleteChannel i =
     bindE (map_err toStatus (Channel i)) (\<lambda>channel.
     bindE (map_err toStatus AlertRules) (\<lambda>rules.
     let using_rules = map (\<lambda>r. rule_Name (ar_Rule r)) (filter (\<lambda>r. ch_Name channel \<in> set (rule_Channels (ar_Rule r))) rules) in
     if using_rules \<noteq> [] then fail (channel_in_use using_rules)
     else bindE (map_err toStatus (DeleteChannel i)) (\<lambda>_. ret ''ok'')))"

text \<open>A test message is sent right away. None is a message that went out.\<close>

definition test_message :: "time \<Rightarrow> string \<Rightarrow> Message" where
  "test_message now who = \<lparr>m_Event = Test_event, m_Severity = 0, m_Subject = ''Test message from SyMon'',
     m_Body = ''This is a test sent by '' @ who @ '' from the Notifications page. Alerts arrive here like this.'', m_Host = [], m_Rule = ''Test'',
     m_Metric = [], m_Target = [], m_Value = Fin 0, m_AlertID = 0, m_StartedAt = now, m_At = now, m_Link = []\<rparr>"

definition TestChannel :: "address_parse \<Rightarrow> url_parse \<Rightarrow> network \<Rightarrow> time \<Rightarrow> int \<Rightarrow> string \<Rightarrow> (error option, db) act" where
  "TestChannel addr parse net now i who =
     bindE (map_err toStatus (Channel i)) (\<lambda>channel.
     ret (case Parse_channel addr parse (ch_Kind channel) (ch_Settings channel) of
        Inl e \<Rightarrow> Some (ErrWrap ''the settings are broken: %s'' [] e)
      | Inr sender \<Rightarrow> (case Send net sender (test_message now who) [] of Inl e \<Rightarrow> Some e | Inr _ \<Rightarrow> None)))"

record NotificationInfo =
  ni_Id :: int
  ni_AlertId :: int
  ni_Channel :: string
  ni_Kind :: string
  ni_Event :: string
  ni_Severity :: int
  ni_Subject :: string
  ni_Status :: string
  ni_Attempts :: int
  ni_LastError :: string
  ni_CreatedAt :: int
  ni_SentAt :: int
  ni_Host :: string
  ni_Rule :: string

definition notification_info :: "Notification \<Rightarrow> NotificationInfo" where
  "notification_info n = \<lparr>ni_Id = nf_ID n, ni_AlertId = nf_AlertID n, ni_Channel = nf_ChannelName n, ni_Kind = nf_ChannelKind n,
     ni_Event = nf_Event n, ni_Severity = wrap32 (nf_Severity n), ni_Subject = nf_Subject n, ni_Status = nf_Status n,
     ni_Attempts = wrap32 (nf_Attempts n), ni_LastError = nf_LastError n, ni_CreatedAt = unix_time (nf_CreatedAt n),
     ni_SentAt = unix_time (nf_SentAt n), ni_Host = nf_Host n, ni_Rule = nf_Rule n\<rparr>"

definition api_RecentNotifications :: "int \<Rightarrow> (NotificationInfo list, db) act" where
  "api_RecentNotifications limit = bindE (map_err toStatus (RecentNotifications limit)) (\<lambda>recent. ret (map notification_info recent))"

section \<open>What is saved stays usable\<close>

text \<open>Every picked channel is there, and every channel's settings make a sender.\<close>

definition picks_ok :: "tables \<Rightarrow> bool" where
  "picks_ok t \<longleftrightarrow> (\<forall>r \<in> set (db_rules t). set (rule_Channels (r_rule r)) \<subseteq> c_name ` set (db_channels t))"

definition senders_ok :: "address_parse \<Rightarrow> url_parse \<Rightarrow> tables \<Rightarrow> bool" where
  "senders_ok addr parse t \<longleftrightarrow> (\<forall>c \<in> set (db_channels t). \<exists>sender. Parse_channel addr parse (c_kind c) (c_settings c) = Inr sender)"

definition channels_ok :: "tables \<Rightarrow> (tbl \<Rightarrow> int) \<Rightarrow> bool" where
  "channels_ok t q \<longleftrightarrow> distinct (map c_id (db_channels t)) \<and> distinct (map c_name (db_channels t)) \<and> (\<forall>c \<in> set (db_channels t). c_id c \<le> q T_channels)"

lemma snd_map_err [simp]: "snd (map_err f m s) = snd (m s)"
  by (simp add: map_err_def split: prod.splits sum.splits)

lemma map_err_Inr: "map_err f m s = (Inr a, s') \<longleftrightarrow> m s = (Inr a, s')"
  by (auto simp: map_err_def split: prod.splits sum.splits)

lemma bindE_of_result [simp]: "bindE (of_result (Inr a)) k = k a" "bindE (of_result (Inl e)) k = fail e"
  by (simp_all add: bindE_def of_result_def fun_eq_iff)

lemma bindE_invalid [simp]: "bindE (invalid (Inr a)) k = k a" "bindE (invalid (Inl e)) k = fail (ErrStatus InvalidArgument e)"
  by (simp_all add: bindE_def invalid_def map_err_def of_result_def fun_eq_iff)

lemma check_channel_names_trims: "check_channel_names seen cs = (Inr (), cs') \<Longrightarrow> cs' = map TrimSpace cs"
  by (induction cs arbitrary: seen cs') (auto simp: Let_def split: if_splits prod.splits)

lemma checkRule_channels:
  assumes "checkRule parse rule0 = Inr rule"
  shows "rule_Channels rule = map TrimSpace (rule_Channels rule0)"
proof -
  let ?r = "rule0\<lparr>rule_Name := TrimSpace (rule_Name rule0)\<rparr>"
  from assms have "Validate parse rule0 = (Inr (), rule)"
    by (auto simp: checkRule_def split: prod.splits sum.splits)
  then have "bindE checkChannels (\<lambda>_. validate_rest parse) ?r = (Inr (), rule)"
    unfolding Validate_def Let_def by (simp split: if_splits)
  then obtain r1 where r1: "checkChannels ?r = (Inr (), r1)" and rest: "validate_rest parse r1 = (Inr (), rule)"
    by (elim bindE_InrE) simp
  have "rule_Channels r1 = map TrimSpace (rule_Channels rule0)"
    using r1 by (auto simp: checkChannels_def split: prod.splits dest: check_channel_names_trims)
  moreover have "rule_Channels rule = rule_Channels r1"
    using validate_rest_sound [OF rest] by simp
  ultimately show ?thesis by simp
qed

lemma checkRuleChannels_step:
  assumes "checkRuleChannels picked s = (res, s')"
  shows "tabs s' = tabs s \<and> db_seq s' = db_seq s \<and> (res = Inr () \<longrightarrow> TrimSpace ` set picked \<subseteq> c_name ` set (db_channels (tabs s)))"
proof (cases "picked = []")
  case False
  with assms have "bindE (map_err toStatus Channels) (\<lambda>channels. case find (\<lambda>name. TrimSpace name \<notin> ch_Name ` set channels) picked of
      Some name \<Rightarrow> fail (no_channel name) | None \<Rightarrow> ret ()) s = (res, s')"
    by (simp add: checkRuleChannels_def)
  then show ?thesis
  proof (cases rule: bindE_cases)
    case (err e)
    then have "snd (Channels s) = s'" by (metis snd_map_err snd_conv)
    with err show ?thesis unfolding Channels_def using query_cases [OF surjective_pairing] by (metis Inl_Inr_False)
  next
    case (ok channels s1)
    then have "Channels s = (Inr channels, s1)" by (simp add: map_err_Inr)
    then have c: "channels = map (channel_with_last (tabs s)) (sort_key c_name (db_channels (tabs s)))" "tabs s1 = tabs s" "db_seq s1 = db_seq s"
      unfolding Channels_def by (auto elim: query_cases)
    have name: "ch_Name (channel_with_last t r) = c_name r" for t r
      by (simp add: channel_with_last_def channel_of_row_def split: option.splits)
    have names: "ch_Name ` set channels = c_name ` set (db_channels (tabs s))" by (auto simp: c(1) name image_comp)
    show ?thesis
    proof (cases "find (\<lambda>name. TrimSpace name \<notin> ch_Name ` set channels) picked")
      case None
      then have "TrimSpace ` set picked \<subseteq> c_name ` set (db_channels (tabs s))" unfolding names by (auto simp: find_None_iff)
      with ok(2) c(2,3) None show ?thesis by simp
    next
      case (Some name)
      with ok(2) c show ?thesis by auto
    qed
  qed
qed (use assms in \<open>simp add: checkRuleChannels_def\<close>)

text \<open>What the rules become: only rules that were there, and perhaps one that picks channels that are there.\<close>

definition picked_rules :: "tables \<Rightarrow> tables \<Rightarrow> bool" where
  "picked_rules t t' \<longleftrightarrow> db_channels t' = db_channels t \<and>
     (\<forall>r \<in> set (db_rules t'). r \<in> set (db_rules t) \<or> set (rule_Channels (r_rule r)) \<subseteq> c_name ` set (db_channels t))"

lemma picked_rules_ok: "picked_rules t t' \<Longrightarrow> picks_ok t \<Longrightarrow> picks_ok t'"
  by (fastforce simp: picked_rules_def picks_ok_def)

lemma CreateRule_picks:
  assumes "TrimSpace ` set (rule_Channels rule0) \<subseteq> c_name ` set (db_channels (tabs s))"
  shows "picked_rules (tabs s) (tabs (snd (CreateRule parse now rule0 enabled who s)))"
proof (cases "checkRule parse rule0")
  case (Inl e)
  then show ?thesis by (simp add: CreateRule_def of_result_def bindE_def picked_rules_def)
next
  case (Inr rule)
  have "picked_rules t (snd (insert_rule now rule enabled who i t))" if "t = tabs s" for t i
    using assms that checkRule_channels [OF Inr] by (auto simp: insert_rule_def picked_rules_def)
  moreover have "picked_rules t t" for t by (simp add: picked_rules_def)
  ultimately show ?thesis
    by (cases rule: insert_into_cases [OF surjective_pairing [of "insert_into T_rules (insert_rule now rule enabled who) s"]])
      (simp_all add: CreateRule_def Inr of_result_def bindE_def snd_on_unique)
qed

lemma UpdateRule_picks:
  assumes "TrimSpace ` set (rule_Channels rule0) \<subseteq> c_name ` set (db_channels (tabs s))"
  shows "picked_rules (tabs s) (tabs (snd (UpdateRule parse now i rule0 enabled who s)))"
proof -
  have "picked_rules (tabs s) t'" if "checkRule parse rule0 = Inr rule" "rule_updated now i rule enabled who (tabs s) t'" for rule t'
  proof -
    have "r \<in> set (db_rules (tabs s)) \<or> r_rule r = rule" if "r \<in> set (db_rules t')" for r
      using that \<open>rule_updated now i rule enabled who (tabs s) t'\<close> by (auto simp: rule_updated_def set_update_where split: if_splits)
    moreover have "set (rule_Channels rule) \<subseteq> c_name ` set (db_channels (tabs s))" using assms checkRule_channels [OF that(1)] by simp
    moreover have "db_channels t' = db_channels (tabs s)" using that(2) by (auto simp: rule_updated_def)
    ultimately show ?thesis unfolding picked_rules_def by blast
  qed
  moreover have "picked_rules (tabs s) (tabs s)" by (simp add: picked_rules_def)
  ultimately show ?thesis
    using UpdateRule_effect [OF surjective_pairing, of parse now i rule0 enabled who s] by (elim disjE conjE exE) simp_all
qed

lemma SaveRule_picks: "picked_rules (tabs s) (tabs (snd (SaveRule parse decode now req s)))"
proof (cases "decode (sr_RuleJson req)")
  case (Inr rule)
  let ?save = "map_err toStatus (if sr_Id req = 0 then CreateRule parse now rule (sr_Enabled req) (sr_By req)
    else bindE (UpdateRule parse now (sr_Id req) rule (sr_Enabled req) (sr_By req)) (\<lambda>_. ret (sr_Id req)))"
  have tail: "snd (bindE m (\<lambda>i. ret (f i)) s1) = snd (m s1)" for m :: "('a, db) act" and f :: "'a \<Rightarrow> 'b" and s1
    by (simp add: bindE_def split: prod.splits sum.splits)
  obtain u s1 where c: "checkRuleChannels (rule_Channels rule) s = (u, s1)" by fastforce
  note step = checkRuleChannels_step [OF c]
  show ?thesis
  proof (cases u)
    case (Inl e)
    with c Inr step show ?thesis by (simp add: SaveRule_def bindE_Inl picked_rules_def)
  next
    case (Inr v)
    then have sub: "TrimSpace ` set (rule_Channels rule) \<subseteq> c_name ` set (db_channels (tabs s1))" using step by simp
    have "snd (SaveRule parse decode now req s) = snd (?save s1)"
      using c Inr \<open>decode (sr_RuleJson req) = Inr rule\<close> by (simp add: SaveRule_def bindE_Inr tail)
    then show ?thesis using CreateRule_picks [OF sub] UpdateRule_picks [OF sub] step by (simp add: tail)
  qed
qed (simp add: SaveRule_def picked_rules_def)

lemma DeleteRule_picks: "picked_rules (tabs s) (tabs (snd (api_DeleteRule now i s)))"
proof -
  have "snd (api_DeleteRule now i s) = snd (DeleteRule now i s)"
    by (simp add: api_DeleteRule_def bindE_def map_err_def split: prod.splits sum.splits)
  with DeleteRule_effect [OF surjective_pairing, of now i s] show ?thesis by (auto simp: rule_deleted_def picked_rules_def)
qed

section \<open>Saving a channel\<close>

lemma Channel_step:
  assumes "Channel i s = (res, s')"
  shows "tabs s' = tabs s \<and> db_seq s' = db_seq s \<and>
    (\<forall>c. res = Inr c \<longrightarrow> (\<exists>row. find (\<lambda>c. c_id c = i) (db_channels (tabs s)) = Some row \<and> c = channel_of_row row))"
  using assms unfolding Channel_def
proof (cases rule: bindE_cases)
  case (err e)
  then show ?thesis by (auto elim: query_cases)
next
  case (ok row s1)
  from ok(1) have "row = find (\<lambda>c. c_id c = i) (db_channels (tabs s))" "tabs s1 = tabs s" "db_seq s1 = db_seq s" by (auto elim: query_cases)
  with ok(2) show ?thesis by (auto split: option.splits)
qed

lemma map_err_step: "map_err f m s = (res, s') \<Longrightarrow> \<exists>r. m s = (r, s') \<and> (\<forall>a. res = Inr a \<longleftrightarrow> r = Inr a)"
  by (auto simp: map_err_def split: prod.splits sum.splits)

text \<open>What is about to be saved, when it is: for a channel that is there, under its name and of its kind.\<close>

lemma channel_to_save_step:
  assumes "channel_to_save req s = (res, s')"
  shows "tabs s' = tabs s \<and> db_seq s' = db_seq s \<and> (\<forall>blank sent. res = Inr (blank, sent) \<longrightarrow> ch_ID blank = sc_Id req \<and>
    (sc_Id req = 0 \<and> blank = requested_channel req JNull \<and> sent = sc_Settings req \<or>
     sc_Id req \<noteq> 0 \<and> (\<exists>row settings. find (\<lambda>c. c_id c = sc_Id req) (db_channels (tabs s)) = Some row \<and> sent = Inr settings \<and>
       kept_settings (c_kind row) (c_settings row) (sc_Settings req) = Inr settings \<and>
       blank = (requested_channel req JNull)\<lparr>ch_Name := c_name row, ch_Kind := c_kind row\<rparr>)))"
proof (cases "sc_Id req = 0")
  case True
  with assms show ?thesis by (auto simp: channel_to_save_def requested_channel_def)
next
  case False
  with assms have "bindE (map_err toStatus (Channel (sc_Id req))) (\<lambda>current.
        case kept_settings (ch_Kind current) (ch_Settings current) (sc_Settings req) of
          Inl e \<Rightarrow> fail (ErrStatus InvalidArgument (ErrWrap ''cannot read the settings: %s'' [] e))
        | Inr settings \<Rightarrow> ret ((requested_channel req JNull)\<lparr>ch_Name := ch_Name current, ch_Kind := ch_Kind current\<rparr>, Inr settings)) s = (res, s')"
    by (simp add: channel_to_save_def Let_def)
  then show ?thesis
  proof (cases rule: bindE_cases)
    case (err e)
    then show ?thesis by (auto dest!: map_err_step Channel_step)
  next
    case (ok current s1)
    then obtain row where "find (\<lambda>c. c_id c = sc_Id req) (db_channels (tabs s)) = Some row" "current = channel_of_row row" "tabs s1 = tabs s" "db_seq s1 = db_seq s"
      by (auto simp: map_err_Inr dest!: Channel_step)
    with ok(2) False show ?thesis by (auto simp: channel_of_row_def requested_channel_def split: sum.splits)
  qed
qed

definition edits_settings :: "json \<Rightarrow> (channel_row \<Rightarrow> channel_row) \<Rightarrow> bool" where
  "edits_settings settings f \<longleftrightarrow> (\<forall>c. c_id (f c) = c_id c \<and> c_name (f c) = c_name c \<and> c_kind (f c) = c_kind c \<and> c_settings (f c) = settings)"

definition channel_saved :: "address_parse \<Rightarrow> url_parse \<Rightarrow> SaveChannelRequest \<Rightarrow> tables \<Rightarrow> (tbl \<Rightarrow> int) \<Rightarrow> tables \<Rightarrow> (tbl \<Rightarrow> int) \<Rightarrow> bool" where
  "channel_saved addr parse req t q t' q' \<longleftrightarrow> db_rules t' = db_rules t \<and>
     (db_channels t' = db_channels t \<and> q T_channels \<le> q' T_channels \<or>
      sc_Id req = 0 \<and> (\<exists>row sender. Parse_channel addr parse (c_kind row) (c_settings row) = Inr sender \<and> c_id row = q' T_channels \<and> q' T_channels = q T_channels + 1 \<and>
         c_name row \<notin> c_name ` set (db_channels t) \<and> db_channels t' = db_channels t @ [row]) \<or>
      q' T_channels = q T_channels \<and> (\<exists>old f settings sender. find (\<lambda>c. c_id c = sc_Id req) (db_channels t) = Some old \<and>
         kept_settings (c_kind old) (c_settings old) (sc_Settings req) = Inr settings \<and> Parse_channel addr parse (c_kind old) settings = Inr sender \<and>
         edits_settings settings f \<and> db_channels t' = update_where (\<lambda>c. c_id c = sc_Id req) f (db_channels t)))"

lemma channel_saved_same: "channel_saved addr parse req t q t q"
  by (simp add: channel_saved_def)

lemma CreateChannel_saved:
  assumes "sc_Id req = 0" and "Parse_channel addr parse (ch_Kind c) (ch_Settings c) = Inr sender"
  shows "channel_saved addr parse req (tabs s) (db_seq s) (tabs (snd (CreateChannel now c who s))) (db_seq (snd (CreateChannel now c who s)))"
proof -
  let ?row = "\<lambda>i. \<lparr>c_id = i, c_name = ch_Name c, c_kind = ch_Kind c, c_settings = ch_Settings c, c_is_default = ch_IsDefault c,
    c_skip_warnings = ch_SkipWarnings c, c_enabled = ch_Enabled c, c_updated_at = timestamptz now, c_updated_by = who\<rparr>"
  let ?ins = "insert_into T_channels (\<lambda>i t. if \<exists>r \<in> set (db_channels t). c_name r = ch_Name c then (Inl ErrUnique, t)
    else (Inr i, t\<lparr>db_channels := db_channels t @ [?row i]\<rparr>))"
  have new: "channel_saved addr parse req t q (t\<lparr>db_channels := db_channels t @ [?row (q T_channels + 1)]\<rparr>) (q(T_channels := q T_channels + 1))"
    if "\<not> (\<exists>r \<in> set (db_channels t). c_name r = ch_Name c)" for t q
    using assms that unfolding channel_saved_def by (auto intro!: exI [of _ "?row (q T_channels + 1)"])
  have tail: "snd (CreateChannel now c who s) = snd (?ins s)" unfolding CreateChannel_def snd_on_unique ..
  show ?thesis unfolding tail
    by (cases rule: insert_into_cases [OF surjective_pairing [of "?ins s"]]) (auto simp: new channel_saved_same, auto simp: channel_saved_def)
qed

lemma UpdateChannel_saved:
  assumes "find (\<lambda>c. c_id c = sc_Id req) (db_channels (tabs s)) = Some old" and "ch_ID c = sc_Id req"
    and "kept_settings (c_kind old) (c_settings old) (sc_Settings req) = Inr (ch_Settings c)" and "Parse_channel addr parse (c_kind old) (ch_Settings c) = Inr sender"
  shows "channel_saved addr parse req (tabs s) (db_seq s) (tabs (snd (UpdateChannel now c who s))) (db_seq (snd (UpdateChannel now c who s)))"
proof -
  let ?f = "\<lambda>r. r\<lparr>c_settings := ch_Settings c, c_is_default := ch_IsDefault c, c_skip_warnings := ch_SkipWarnings c, c_enabled := ch_Enabled c,
         c_updated_at := timestamptz now, c_updated_by := who\<rparr>"
  let ?e = "exec (\<lambda>t. (rows_affected (\<lambda>r. c_id r = ch_ID c) (db_channels t), t\<lparr>db_channels := update_where (\<lambda>r. c_id r = ch_ID c) ?f (db_channels t)\<rparr>))"
  have tail: "snd (UpdateChannel now c who s) = snd (?e s)"
    unfolding UpdateChannel_def by (simp add: bindE_def split: prod.splits sum.splits)
  have "edits_settings (ch_Settings c) ?f" by (simp add: edits_settings_def)
  then have whole: "channel_saved addr parse req t q (t\<lparr>db_channels := update_where (\<lambda>r. c_id r = ch_ID c) ?f (db_channels t)\<rparr>) q" if "t = tabs s" for t q
    using assms that unfolding channel_saved_def by fastforce
  show ?thesis unfolding tail
    by (cases rule: exec_cases [OF surjective_pairing [of "?e s"]]) (auto simp: whole channel_saved_same)
qed

lemma SaveChannel_saved:
  "channel_saved addr parse req (tabs s) (db_seq s) (tabs (snd (SaveChannel addr parse now req s))) (db_seq (snd (SaveChannel addr parse now req s)))"
proof -
  obtain res s' where run: "SaveChannel addr parse now req s = (res, s')" by fastforce
  let ?rest = "\<lambda>blank sent. bindE (invalid (checkChannelName (ch_Name blank))) (\<lambda>_.
     bindE (invalid (parse_settings addr parse (ch_Kind blank) sent)) (\<lambda>_.
     bindE (of_result sent) (\<lambda>settings.
     let channel = blank\<lparr>ch_Settings := settings\<rparr> in
     bindE (map_err toStatus (if ch_ID channel = 0 then CreateChannel now channel (sc_By req)
              else bindE (UpdateChannel now channel (sc_By req)) (\<lambda>_. ret (ch_ID channel)))) (\<lambda>i.
     bindE (map_err toStatus (Channel i)) (\<lambda>saved. map_err toStatus (of_result (channelInfo saved)))))))"
  from run have "bindE (channel_to_save req) (\<lambda>(blank, sent). ?rest blank sent) s = (res, s')" by (simp only: SaveChannel_def)
  then show ?thesis
  proof (cases rule: bindE_cases)
    case (err e)
    with channel_to_save_step [OF err(1)] show ?thesis by (simp add: run channel_saved_same)
  next
    case (ok bs s1)
    obtain blank sent where bs: "bs = (blank, sent)" by fastforce
    note step = channel_to_save_step [OF ok(1) [unfolded bs]]
    show ?thesis
    proof (cases "\<exists>settings sender. sent = Inr settings \<and> checkChannelName (ch_Name blank) = Inr () \<and> Parse_channel addr parse (ch_Kind blank) settings = Inr sender")
      case False
      then have "?rest blank sent s1 = (res, s') \<Longrightarrow> s' = s1"
        by (cases "checkChannelName (ch_Name blank)"; cases "parse_settings addr parse (ch_Kind blank) sent"; cases sent)
          (auto simp: parse_settings_def)
      with ok(2) step show ?thesis by (simp add: run bs channel_saved_same)
    next
      case True
      then obtain settings sender where t: "sent = Inr settings" "checkChannelName (ch_Name blank) = Inr ()" "Parse_channel addr parse (ch_Kind blank) settings = Inr sender"
        by blast
      define channel where "channel = blank\<lparr>ch_Settings := settings\<rparr>"
      let ?save = "if ch_ID channel = 0 then CreateChannel now channel (sc_By req) else bindE (UpdateChannel now channel (sc_By req)) (\<lambda>_. ret (ch_ID channel))"
      have "bindE (map_err toStatus ?save) (\<lambda>i. bindE (map_err toStatus (Channel i)) (\<lambda>saved. map_err toStatus (of_result (channelInfo saved)))) s1 = (res, s')"
        unfolding channel_def using ok(2) t by (simp add: bs parse_settings_def Let_def split del: if_split)
      then have after: "tabs s' = tabs (snd (?save s1)) \<and> db_seq s' = db_seq (snd (?save s1))"
        by (elim bindE_cases) (auto simp: of_result_def map_err_Inr dest!: map_err_step Channel_step)
      have ids: "ch_ID channel = sc_Id req" using step by (simp add: channel_def)
      show ?thesis
      proof (cases "sc_Id req = 0")
        case True
        with CreateChannel_saved [of req addr parse channel sender s1 now "sc_By req"] t(3) after ids step show ?thesis
          by (simp add: run channel_def)
      next
        case False
        from step False t(1) obtain row where "find (\<lambda>c. c_id c = sc_Id req) (db_channels (tabs s)) = Some row"
          "kept_settings (c_kind row) (c_settings row) (sc_Settings req) = Inr settings" "ch_Kind blank = c_kind row" by auto
        with UpdateChannel_saved [of req s1 row channel addr parse sender now "sc_By req"] t(3) after ids step False show ?thesis
          by (simp add: run channel_def) (simp add: bindE_def split: prod.splits sum.splits)
      qed
    qed
  qed
qed

text \<open>A channel goes only when no rule picks it.\<close>

definition channel_deleted :: "int \<Rightarrow> tables \<Rightarrow> tables \<Rightarrow> bool" where
  "channel_deleted i t t' \<longleftrightarrow> db_rules t' = db_rules t \<and> (db_channels t' = db_channels t \<or>
     (\<exists>row. find (\<lambda>c. c_id c = i) (db_channels t) = Some row \<and> (\<forall>r \<in> set (db_rules t). c_name row \<notin> set (rule_Channels (r_rule r))) \<and>
       db_channels t' = delete_where (\<lambda>c. c_id c = i) (db_channels t)))"

lemma DeleteChannel_deleted: "channel_deleted i (tabs s) (tabs (snd (api_DeleteChannel i s)))"
proof -
  obtain res s' where run: "api_DeleteChannel i s = (res, s')" by fastforce
  have same: "channel_deleted i t t" for t by (simp add: channel_deleted_def)
  from run [unfolded api_DeleteChannel_def] show ?thesis
  proof (cases rule: bindE_cases)
    case (err e)
    then show ?thesis by (auto simp: run same dest!: map_err_step Channel_step)
  next
    case (ok channel s1)
    then obtain row where row: "find (\<lambda>c. c_id c = i) (db_channels (tabs s)) = Some row" "channel = channel_of_row row" "tabs s1 = tabs s"
      by (auto simp: map_err_Inr dest!: Channel_step)
    from ok(2) show ?thesis
    proof (cases rule: bindE_cases)
      case (err e)
      then have "tabs s' = tabs s1" by (auto simp: AlertRules_def dest!: map_err_step elim: query_cases)
      with row show ?thesis by (simp add: run same)
    next
      case (ok rules s2)
      then have rules: "rules = map rule_of_row (sort_key r_name (db_rules (tabs s)))" "tabs s2 = tabs s"
        using row(3) by (auto simp: map_err_Inr AlertRules_def elim!: query_cases)
      show ?thesis
      proof (cases "filter (\<lambda>r. ch_Name channel \<in> set (rule_Channels (ar_Rule r))) rules = []")
        case False
        with ok(2) rules show ?thesis by (simp add: run same Let_def)
      next
        case True
        then have free: "\<forall>r \<in> set (db_rules (tabs s)). c_name row \<notin> set (rule_Channels (r_rule r))"
          by (simp add: rules(1) row(2) filter_empty_conv rule_of_row_def channel_of_row_def)
        let ?e = "exec (\<lambda>t. (rows_affected (\<lambda>c. c_id c = i) (db_channels t), t\<lparr>db_channels := delete_where (\<lambda>c. c_id c = i) (db_channels t),
          db_notifications := delete_where (\<lambda>n. n_channel_id n = i) (db_notifications t)\<rparr>))"
        have "snd (DeleteChannel i s2) = snd (?e s2)"
          unfolding DeleteChannel_def by (simp add: bindE_def split: prod.splits sum.splits)
        moreover have "s' = snd (DeleteChannel i s2)"
          using ok(2) True by (simp add: Let_def bindE_def map_err_def split: prod.splits sum.splits)
        ultimately have s': "s' = snd (?e s2)" by simp
        have gone: "channel_deleted i t (t\<lparr>db_channels := delete_where (\<lambda>c. c_id c = i) (db_channels t),
          db_notifications := delete_where (\<lambda>n. n_channel_id n = i) (db_notifications t)\<rparr>)" if "t = tabs s" for t
          using row(1) free that by (auto simp: channel_deleted_def)
        show ?thesis unfolding run snd_conv s'
          by (cases rule: exec_cases [OF surjective_pairing [of "?e s2"]]) (auto simp: rules(2) gone same)
      qed
    qed
  qed
qed

section \<open>The invariant\<close>

text \<open>The calls of the rules page and the notifications page, with any failures.\<close>

inductive desk_step :: "address_parse \<Rightarrow> url_parse \<Rightarrow> db \<Rightarrow> db \<Rightarrow> bool" for addr :: address_parse and parse :: url_parse where
  network: "desk_step addr parse s (set_net n s)"
| save_rule: "desk_step addr parse s (snd (SaveRule parse decode now req s))"
| delete_rule: "desk_step addr parse s (snd (api_DeleteRule now i s))"
| save_channel: "desk_step addr parse s (snd (SaveChannel addr parse now creq s))"
| delete_channel: "desk_step addr parse s (snd (api_DeleteChannel i s))"

definition desk_ok :: "address_parse \<Rightarrow> url_parse \<Rightarrow> db \<Rightarrow> bool" where
  "desk_ok addr parse s \<longleftrightarrow> picks_ok (tabs s) \<and> senders_ok addr parse (tabs s) \<and> channels_ok (tabs s) (db_seq s)"

lemma channel_saved_ok:
  assumes "channel_saved addr parse req t q t' q'" and "picks_ok t" and "senders_ok addr parse t" and "channels_ok t q"
  shows "picks_ok t' \<and> senders_ok addr parse t' \<and> channels_ok t' q'"
proof -
  have rules: "db_rules t' = db_rules t" using assms(1) by (simp add: channel_saved_def)
  from assms(1) consider (same) "db_channels t' = db_channels t" "q T_channels \<le> q' T_channels"
    | (new) row sender where "Parse_channel addr parse (c_kind row) (c_settings row) = Inr sender" "c_id row = q' T_channels" "q' T_channels = q T_channels + 1"
        "c_name row \<notin> c_name ` set (db_channels t)" "db_channels t' = db_channels t @ [row]"
    | (edit) old f settings sender where "q' T_channels = q T_channels" "find (\<lambda>c. c_id c = sc_Id req) (db_channels t) = Some old"
        "Parse_channel addr parse (c_kind old) settings = Inr sender" "edits_settings settings f"
        "db_channels t' = update_where (\<lambda>c. c_id c = sc_Id req) f (db_channels t)"
    unfolding channel_saved_def by blast
  then show ?thesis
  proof cases
    case same
    with assms(2-4) rules show ?thesis by (auto simp: picks_ok_def senders_ok_def channels_ok_def)
  next
    case new
    with assms(2-4) rules show ?thesis by (fastforce simp: picks_ok_def senders_ok_def channels_ok_def)
  next
    case edit
    have f: "c_id (f c) = c_id c" "c_name (f c) = c_name c" "c_kind (f c) = c_kind c" "c_settings (f c) = settings" for c
      using edit(4) by (simp_all add: edits_settings_def)
    have ids: "map c_id (db_channels t') = map c_id (db_channels t)" and names: "map c_name (db_channels t') = map c_name (db_channels t)"
      using edit(5) f by (simp_all add: map_update_where)
    have old: "old \<in> set (db_channels t)" "c_id old = sc_Id req" using find_SomeD [OF edit(2)] by simp_all
    have only: "c = old" if "c \<in> set (db_channels t)" "c_id c = sc_Id req" for c
      using distinct_map_eq [of c_id "db_channels t" c old] that old assms(4) by (simp add: channels_ok_def)
    have "\<exists>sender. Parse_channel addr parse (c_kind c) (c_settings c) = Inr sender" if "c \<in> set (db_channels t')" for c
    proof -
      from that obtain c0 where c0: "c0 \<in> set (db_channels t)" "c = (if c_id c0 = sc_Id req then f c0 else c0)"
        by (auto simp: edit(5) set_update_where)
      then show ?thesis using only [OF c0(1)] edit(3) f assms(3) by (cases "c_id c0 = sc_Id req") (auto simp: senders_ok_def)
    qed
    moreover have "c_id c \<le> q' T_channels" if "c \<in> set (db_channels t')" for c
      using that assms(4) edit(1) f by (auto simp: edit(5) set_update_where channels_ok_def)
    moreover have "c_name ` set (db_channels t') = c_name ` set (db_channels t)" by (metis names set_map)
    ultimately show ?thesis using assms(2,4) rules ids names by (simp add: picks_ok_def senders_ok_def channels_ok_def)
  qed
qed

lemma channels_ok_same:
  assumes "channels_ok t q" and "db_channels t' = db_channels t" and "counters_grow t q t' q'"
  shows "channels_ok t' q'"
proof -
  have "q T_channels \<le> q' T_channels" using assms(3) by (simp add: counters_grow_def)
  with assms(1,2) show ?thesis by (auto simp: channels_ok_def)
qed

lemma rules_only_ok:
  assumes "picked_rules t t'" and "counters_grow t q t' q'" and "picks_ok t" and "senders_ok addr parse t" and "channels_ok t q"
  shows "picks_ok t' \<and> senders_ok addr parse t' \<and> channels_ok t' q'"
  using assms picked_rules_ok [OF assms(1,3)] channels_ok_same [OF assms(5) _ assms(2)] by (auto simp: picked_rules_def senders_ok_def)

lemma channel_deleted_ok:
  assumes "channel_deleted i t t'" and "counters_grow t q t' q'" and "picks_ok t" and "senders_ok addr parse t" and "channels_ok t q"
  shows "picks_ok t' \<and> senders_ok addr parse t' \<and> channels_ok t' q'"
proof -
  have rules: "db_rules t' = db_rules t" using assms(1) by (simp add: channel_deleted_def)
  from assms(1) consider (same) "db_channels t' = db_channels t"
    | (gone) row where "find (\<lambda>c. c_id c = i) (db_channels t) = Some row" "\<forall>r \<in> set (db_rules t). c_name row \<notin> set (rule_Channels (r_rule r))"
        "db_channels t' = delete_where (\<lambda>c. c_id c = i) (db_channels t)"
    unfolding channel_deleted_def by blast
  then show ?thesis
  proof cases
    case same
    with assms(3,4) rules channels_ok_same [OF assms(5) same assms(2)] show ?thesis by (simp add: picks_ok_def senders_ok_def)
  next
    case gone
    have row: "row \<in> set (db_channels t)" "c_id row = i" using find_SomeD [OF gone(1)] by simp_all
    have "name \<in> c_name ` set (db_channels t')" if r: "r \<in> set (db_rules t)" and name: "name \<in> set (rule_Channels (r_rule r))" for r name
    proof -
      from assms(3) r name obtain c where c: "c \<in> set (db_channels t)" "c_name c = name" by (auto simp: picks_ok_def)
      then have "c \<noteq> row" using gone(2) r name by auto
      then have "c_id c \<noteq> i" using distinct_map_eq [of c_id "db_channels t" c row] c(1) row assms(5) by (auto simp: channels_ok_def)
      with c show ?thesis by (auto simp: gone(3))
    qed
    moreover have "distinct (map c_id (db_channels t'))" "distinct (map c_name (db_channels t'))"
      using assms(5) by (simp_all add: gone(3) delete_where_def channels_ok_def distinct_map_filter)
    moreover have "c_id c \<le> q' T_channels" if "c \<in> set (db_channels t')" for c
    proof -
      have "c_id c \<le> q T_channels" using that assms(5) by (simp add: gone(3) channels_ok_def)
      also have "q T_channels \<le> q' T_channels" using assms(2) by (simp add: counters_grow_def)
      finally show ?thesis .
    qed
    ultimately show ?thesis using assms(4) rules by (auto simp: picks_ok_def senders_ok_def channels_ok_def gone(3))
  qed
qed

lemma counters_map_err: "counters.moves m \<Longrightarrow> counters.moves (map_err f m)"
  by (simp add: counters.moves_def)

lemma counters_desk:
  "counters.moves (SaveRule parse decode now req)" "counters.moves (api_DeleteRule now i)" "counters.moves (api_DeleteChannel i)"
proof -
  have read: "counters.moves Channels" "counters.moves AlertRules" "counters.moves (Channel i)" "counters.moves (DeleteChannel i)" for i
    unfolding Channels_def AlertRules_def Channel_def DeleteChannel_def by (intro counters_rules)+
  have edit: "counters.moves (CreateRule parse now rule enabled who)" "counters.moves (UpdateRule parse now i rule enabled who)" "counters.moves (DeleteRule now i)"
    for rule enabled who i
    unfolding CreateRule_def UpdateRule_def DeleteRule_def
    by (intro counters_rules counters.moves_in_tx UpdateRule_tx_counters DeleteRule_tx_counters)+
  show "counters.moves (SaveRule parse decode now req)"
  proof (cases "decode (sr_RuleJson req)")
    case (Inl e)
    then show ?thesis by (simp add: SaveRule_def counters.moves_fail)
  next
    case (Inr rule)
    show ?thesis unfolding SaveRule_def checkRuleChannels_def Inr sum.case
      by (intro counters_rules counters_map_err read edit)
  qed
  show "counters.moves (api_DeleteRule now i)" "counters.moves (api_DeleteChannel i)"
    unfolding api_DeleteRule_def api_DeleteChannel_def Let_def by (intro counters_rules counters_map_err read edit)+
qed

lemma desk_step_ok:
  assumes "desk_step addr parse s s'" and "desk_ok addr parse s"
  shows "desk_ok addr parse s'"
proof -
  have p: "picks_ok (tabs s)" "senders_ok addr parse (tabs s)" "channels_ok (tabs s) (db_seq s)" using assms(2) by (simp_all add: desk_ok_def)
  from assms(1) show ?thesis
  proof cases
    case (network n)
    with p show ?thesis by (simp add: desk_ok_def)
  next
    case (save_rule decode now req)
    with rules_only_ok [OF SaveRule_picks counters.movesD [OF counters_desk(1) surjective_pairing] p] show ?thesis by (simp add: desk_ok_def)
  next
    case (delete_rule now i)
    with rules_only_ok [OF DeleteRule_picks counters.movesD [OF counters_desk(2) surjective_pairing] p] show ?thesis by (simp add: desk_ok_def)
  next
    case (save_channel now creq)
    with channel_saved_ok [OF SaveChannel_saved p] show ?thesis by (simp add: desk_ok_def)
  next
    case (delete_channel i)
    with channel_deleted_ok [OF DeleteChannel_deleted counters.movesD [OF counters_desk(3) surjective_pairing] p] show ?thesis by (simp add: desk_ok_def)
  qed
qed

lemma desk_steps_ok: "(desk_step addr parse)\<^sup>*\<^sup>* s s' \<Longrightarrow> desk_ok addr parse s \<Longrightarrow> desk_ok addr parse s'"
  by (induction rule: rtranclp_induct) (auto intro: desk_step_ok)

lemma marshal_map_keeps:
  assumes "dom f \<subseteq> set keys"
  shows "map_of_json (marshal_map keys (GoMap f)) = Inr (GoMap f)"
proof -
  define ms where "ms = map (\<lambda>k. (k, the (f k))) (filter (\<lambda>k. f k \<noteq> None) (sort (remdups keys)))"
  have "map fst ms = filter (\<lambda>k. f k \<noteq> None) (sort (remdups keys))" by (simp add: ms_def comp_def)
  then have dist: "distinct (map fst (rev ms))" by (simp add: rev_map [symmetric])
  have mem: "(k, v) \<in> set (rev ms) \<longleftrightarrow> f k = Some v" for k v
    using assms by (force simp: ms_def)
  have "map_of (rev ms) k = f k" for k
  proof (cases "f k")
    case None
    then have "k \<notin> fst ` set (rev ms)" using mem by force
    with None show ?thesis by (simp add: map_of_eq_None_iff)
  next
    case (Some v)
    with mem have "(k, v) \<in> set (rev ms)" by blast
    from map_of_is_SomeI [OF dist this] Some show ?thesis by simp
  qed
  then show ?thesis by (simp add: marshal_map_def map_of_json_def fun_eq_iff ms_def)
qed

section \<open>Properties\<close>


text \<open>Saving a channel's settings as the dashboard shows them, with the secrets blank, loses nothing: whatever becomes of the call, the
  stored settings say the same as before, under the same name and kind. That the shown map comes back as JSON that
  decodes to it is a hypothesis.\<close>

theorem save_as_shown:
  assumes "NotificationChannels s = (Inr infos, s1)" and "info \<in> set infos" and "channels_ok (tabs s) (db_seq s)"
    and "sc_Id req = ci_Id info" and "ci_Id info \<noteq> 0" and "sc_Settings req = Inr sent" and "map_of_json sent = Inr (ci_Settings info)"
    and "c \<in> set (db_channels (tabs (snd (SaveChannel addr parse now req s1))))" and "c_id c = ci_Id info"
  shows "\<exists>old \<in> set (db_channels (tabs s)). c_id old = ci_Id info \<and> c_name c = c_name old \<and> c_kind c = c_kind old \<and>
    map_of_json (c_settings c) = map_of_json (c_settings old)"
proof -
  let ?t = "tabs s" and ?t' = "tabs (snd (SaveChannel addr parse now req s1))"
  from assms(1) obtain chans where chans: "channel_infos chans = Inr infos" "chans = map (channel_with_last ?t) (sort_key c_name (db_channels ?t))" "tabs s1 = ?t"
    unfolding NotificationChannels_def Channels_def by (elim bindE_InrE) (auto simp: map_err_Inr of_result_def elim!: query_cases)
  have "\<exists>ch \<in> set cs. channelInfo ch = Inr info" if "channel_infos cs = Inr is" "info \<in> set is" for cs "is"
    using that by (induction cs arbitrary: "is") (auto split: sum.splits)
  from this [OF chans(1) assms(2)] obtain row where row: "row \<in> set (db_channels ?t)" "channelInfo (channel_with_last ?t row) = Inr info"
    by (auto simp: chans(2))
  have "ch_ID (channel_with_last ?t row) = c_id row \<and> ch_Kind (channel_with_last ?t row) = c_kind row \<and> ch_Settings (channel_with_last ?t row) = c_settings row"
    by (simp add: channel_with_last_def channel_of_row_def split: option.splits)
  with row(2) have id: "c_id row = ci_Id info" and shown: "Redact (c_kind row) (c_settings row) = Inr (ci_Settings info, ci_SecretsSet info)"
    by (auto simp: channelInfo_def split: sum.splits prod.splits)
  have only: "x = row" if "x \<in> set (db_channels ?t)" "c_id x = ci_Id info" for x
    using distinct_map_eq [of c_id "db_channels ?t" x row] that row(1) id assms(3) by (simp add: channels_ok_def)
  have kept: "KeepSecrets (c_kind row) (c_settings row) sent = map_of_json (c_settings row)"
    by (rule KeepSecrets_Redact [OF shown assms(7)])
  have "channel_saved addr parse req ?t (db_seq s1) ?t' (db_seq (snd (SaveChannel addr parse now req s1)))"
    using SaveChannel_saved [of addr parse req s1 now] chans(3) by simp
  then consider (same) "db_channels ?t' = db_channels ?t"
    | (edit) old f settings where "find (\<lambda>c. c_id c = sc_Id req) (db_channels ?t) = Some old"
        "kept_settings (c_kind old) (c_settings old) (sc_Settings req) = Inr settings" "edits_settings settings f"
        "db_channels ?t' = update_where (\<lambda>c. c_id c = sc_Id req) f (db_channels ?t)"
    using assms(4,5) by (auto simp: channel_saved_def)
  then show ?thesis
  proof cases
    case same
    with assms(8,9) only show ?thesis using row(1) id by auto
  next
    case edit
    have "old = row" using find_SomeD [OF edit(1)] only assms(4) by simp
    with edit(2) assms(6) kept obtain m where m: "map_of_json (c_settings row) = Inr m" "settings = marshal_map (object_keys sent @ object_keys (c_settings row)) m"
      by (auto simp: kept_settings_def split: sum.splits)
    have "map_of_json settings = Inr m"
    proof (cases m)
      case (GoMap f')
      with m(1) have "dom f' \<subseteq> set (object_keys sent @ object_keys (c_settings row))"
        by (auto simp: map_of_json_def type_error_def split: json.splits dest: map_of_SomeD) (metis fst_conv image_eqI map_of_SomeD set_rev)
      with GoMap m(2) show ?thesis by (simp add: marshal_map_keeps)
    qed (use m in \<open>simp add: marshal_map_def map_of_json_def\<close>)
    moreover from assms(8,9) edit(4) obtain x where x: "x \<in> set (db_channels ?t)" "c = (if c_id x = sc_Id req then f x else x)"
      by (auto simp: set_update_where)
    then have "x = row" "c = f row" using only assms(4,9) edit(3) id by (auto simp: edits_settings_def split: if_splits)
    ultimately show ?thesis using row(1) id m(1) edit(3) by (auto simp: edits_settings_def)
  qed
qed

section \<open>Examples\<close>

text \<open>A PagerDuty channel and a rule that picks it, whose channel then cannot be deleted.\<close>

definition any_addr :: address_parse where
  "any_addr = (\<lambda>_. Inr ())"

definition pager_request :: "int \<Rightarrow> string \<Rightarrow> SaveChannelRequest" where
  "pager_request i key = \<lparr>sc_Id = i, sc_Name = '' ops '', sc_Kind = PagerDuty, sc_Settings = Inr (JObj [(''routingKey'', JStr key)]), sc_IsDefault = True,
     sc_SkipWarnings = False, sc_Enabled = True, sc_By = ''ada''\<rparr>"

definition example_channel :: "ChannelInfo result \<times> db" where
  "example_channel = SaveChannel any_addr no_url Hour (pager_request 0 ''k1'') empty_db"

definition example_rule_saved :: "AlertRuleInfo result \<times> db" where
  "example_rule_saved = SaveRule no_url (\<lambda>_. Inr (DefaultHeartbeat\<lparr>rule_Channels := [''ops '']\<rparr>)) Hour
     \<lparr>sr_Id = 0, sr_RuleJson = [], sr_Enabled = True, sr_By = ''ada''\<rparr> (snd example_channel)"

definition example_kept :: db where
  "example_kept = snd (api_DeleteChannel 1 (snd example_rule_saved))"

lemma example_desk_steps: "(desk_step any_addr no_url)\<^sup>*\<^sup>* empty_db example_kept"
proof -
  have "desk_step any_addr no_url empty_db (snd example_channel)" unfolding example_channel_def by (rule desk_step.save_channel)
  moreover have "desk_step any_addr no_url (snd example_channel) (snd example_rule_saved)" unfolding example_rule_saved_def by (rule desk_step.save_rule)
  moreover have "desk_step any_addr no_url (snd example_rule_saved) example_kept" unfolding example_kept_def by (rule desk_step.delete_channel)
  ultimately show ?thesis by (meson converse_rtranclp_into_rtranclp rtranclp.rtrancl_refl)
qed


theorem save_as_shown_witness:
  "map (\<lambda>c. (c_id c, c_name c)) (db_channels (tabs (snd (SaveChannel any_addr no_url Hour (pager_request 1 []) example_kept)))) = [(1, ''ops'')] \<and>
   map_of_json (c_settings (hd (db_channels (tabs (snd (SaveChannel any_addr no_url Hour (pager_request 1 []) example_kept)))))) =
     Inr (GoMap [''routingKey'' \<mapsto> JStr ''k1''])"
proof -
  let ?t' = "tabs (snd (SaveChannel any_addr no_url Hour (pager_request 1 []) example_kept))"
  have net: "db_net example_kept = []" by code_simp
  have row: "map (\<lambda>c. (c_id c, c_name c, c_kind c, c_settings c)) (db_channels (tabs example_kept)) = [(1, ''ops'', PagerDuty, JObj [(''routingKey'', JStr ''k1'')])]"
    by code_simp
  then obtain c0 where c0: "db_channels (tabs example_kept) = [c0]" "c_id c0 = 1" "c_kind c0 = PagerDuty" "c_settings c0 = JObj [(''routingKey'', JStr ''k1'')]"
    by (auto simp: map_eq_Cons_conv)
  have fold: "Redact PagerDuty (JObj [(''routingKey'', JStr ''k1'')]) = Inr (GoMap [''routingKey'' \<mapsto> JStr []], [''routingKey''])"
    by (simp add: Redact_def map_of_json_def secrets_def is_secret_set_def Email_def Slack_def PagerDuty_def)
  have last: "ch_Kind (channel_with_last t c0) = PagerDuty \<and> ch_Settings (channel_with_last t c0) = c_settings c0 \<and> ch_ID (channel_with_last t c0) = 1" for t
    using c0(2,3) by (simp add: channel_with_last_def channel_of_row_def split: option.splits)
  obtain info where info: "NotificationChannels example_kept = (Inr [info], example_kept)" "ci_Id info = 1" "ci_Settings info = GoMap [''routingKey'' \<mapsto> JStr []]"
    using last [of "tabs example_kept"] by (simp add: NotificationChannels_def Channels_def query_def dbcall_def net bindE_def map_err_def of_result_def c0(1) channelInfo_def c0(4) fold)
  have inv: "channels_ok (tabs example_kept) (db_seq example_kept)"
  proof -
    have "db_seq example_kept T_channels = 1" by code_simp
    with c0(1,2) show ?thesis by (simp add: channels_ok_def)
  qed
  have after: "map (\<lambda>c. (c_id c, c_name c)) (db_channels ?t') = [(1, ''ops'')]" by code_simp
  then obtain c where c: "db_channels ?t' = [c]" "c_id c = 1" by (auto simp: map_eq_Cons_conv)
  have req: "sc_Id (pager_request 1 []) = 1" "sc_Settings (pager_request 1 []) = Inr (JObj [(''routingKey'', JStr [])])"
    by (simp_all add: pager_request_def)
  have "\<exists>old \<in> set (db_channels (tabs example_kept)). c_id old = ci_Id info \<and> c_name c = c_name old \<and> c_kind c = c_kind old \<and>
      map_of_json (c_settings c) = map_of_json (c_settings old)"
    by (rule save_as_shown [OF info(1) _ inv, of info "pager_request 1 []" "JObj [(''routingKey'', JStr [])]" c any_addr no_url Hour])
      (simp_all add: info(2,3) req map_of_json_def c)
  with c0 c after show ?thesis by (simp add: map_of_json_def)
qed

end
