(* ===== verification/WebAuth.thy ===== *)
theory WebAuth
  imports ApiRules Logins
begin

text \<open>
  The dashboard's server, client/internal/server, first part: its answers, the collector's client it calls, and who is logged in (auth.go, and
  \<open>requireAdmin\<close> and \<open>isAdmin\<close> of rules.go and tasks.go). The client is a record of calls on a state \<open>'s\<close> of the collector, each with
  the time it arrives there. Answers to queries that are passed on field by field are a type \<open>'q\<close>. The readings of the clock to come are a
  list in the state. The browser of a request is known by the session cookie alone.
\<close>

section \<open>Requests and answers\<close>

text \<open>A request: the parsed media type of its body, None when there is none or it cannot be parsed; the path in segments; the values of the query.\<close>

record request =
  rq_method :: string
  rq_path :: "string list"
  rq_query :: "string \<Rightarrow> string"
  rq_cookie :: "string option"
  rq_basic :: "(string \<times> string) option"
  rq_mediaType :: "string option"
  rq_body :: string
  rq_host :: string
  rq_tls :: bool
  rq_forwardedProto :: string

record cookie =
  ck_Value :: string
  ck_Expires :: "time option"
  ck_MaxAge :: int
  ck_HttpOnly :: bool
  ck_Secure :: bool
  ck_SameSiteLax :: bool

record hostTask =
  ht_Name :: string
  ht_Description :: string
  ht_Command :: string
  ht_TimeoutSeconds :: int

text \<open>The struct \<open>channel\<close>: without settings, the fields \<open>settings\<close> and \<open>secretsSet\<close> are left out of the JSON.\<close>

record web_channel =
  wc_ID :: int
  wc_Name :: string
  wc_Kind :: string
  wc_Settings :: "gomap option"
  wc_SecretsSet :: "string list"
  wc_IsDefault :: bool
  wc_SkipWarnings :: bool
  wc_Enabled :: bool
  wc_UpdatedAt :: int
  wc_UpdatedBy :: string
  wc_LastStatus :: string
  wc_LastAt :: int
  wc_LastError :: string

text \<open>What is written, by its shape. \<open>BData\<close> is an answer of the collector, field by field; \<open>BText\<close> is a plain text.\<close>

datatype 'q body =
    BError string
  | BObject "(string \<times> json) list"
  | BData 'q
  | BConfig int string string
  | BRules "AlertRuleInfo list"
  | BChannels "web_channel list"
  | BChannel web_channel
  | BNotifications "NotificationInfo list"
  | BTasks "hostTask list"
  | BRuns "TaskRunInfo list"
  | BRun TaskRunInfo
  | BTest "error option"
  | BText string
  | BMetrics string
  | BScript string string
  | BFile string string
  | BIndex

record 'q response =
  rs_status :: int
  rs_body :: "'q body"
  rs_cookie :: "cookie option"

definition reply :: "int \<Rightarrow> 'q body \<Rightarrow> 'q response" where
  "reply code b = \<lparr>rs_status = code, rs_body = b, rs_cookie = None\<rparr>"

definition writeJSON :: "'q body \<Rightarrow> 'q response" where
  "writeJSON b = reply 200 b"

definition writeError :: "int \<Rightarrow> string \<Rightarrow> 'q response" where
  "writeError code msg = reply code (BError msg)"

text \<open>\<open>status.Convert(err).Message()\<close>; \<open>Error\<close> is an error's text.\<close>

fun status_Message :: "(error \<Rightarrow> string) \<Rightarrow> error \<Rightarrow> string" where
  "status_Message Error (ErrStatus c e) = Error e"
| "status_Message Error e = Error e"

definition writeGRPCError :: "(error \<Rightarrow> string) \<Rightarrow> error \<Rightarrow> 'q response" where
  "writeGRPCError Error err =
     (let code = status_Code (Inl err :: unit result); msg = status_Message Error err in
      if code = Canceled then writeError 499 ''canceled''
      else if code = NotFound then writeError 404 msg
      else if code = Unauthenticated then writeError 401 msg
      else if code = AlreadyExists \<or> code = FailedPrecondition then writeError 409 msg
      else if code = ResourceExhausted then writeError 429 msg
      else if code = InvalidArgument then writeError 400 msg
      else if code = Unavailable \<or> code = DeadlineExceeded then writeError 502 ''the collector is not reachable''
      else writeError 500 ''internal error'')"

section \<open>The collector's client and the server's state\<close>

text \<open>The queries whose answers are passed on.\<close>

datatype data_request =
    QFleet | QSnapshot string | QSeries string string string int int int bool | QProcesses string int | QProcessUsage string int int
  | QCustomMetricNames string | QDiskForecasts string | QAlerts string bool int int | QEndpoints int int | QEndpointSeries string string int int int
  | QClusters | QCluster string | QClusterSeries string string int int int | QSnapshots

record ('s, 'q) rpc =
  rc_CheckSession :: "time \<Rightarrow> string \<Rightarrow> (SessionInfo, 's) act"
  rc_HasUsers :: "(bool, 's) act"
  rc_Login :: "time \<Rightarrow> string \<Rightarrow> string \<Rightarrow> (SessionInfo, 's) act"
  rc_CheckPassword :: "time \<Rightarrow> string \<Rightarrow> string \<Rightarrow> (unit, 's) act"
  rc_ChangePassword :: "time \<Rightarrow> string \<Rightarrow> string \<Rightarrow> string \<Rightarrow> (unit, 's) act"
  rc_Logout :: "time \<Rightarrow> string \<Rightarrow> (unit, 's) act"
  rc_Version :: "(string, 's) act"
  rc_Query :: "time \<Rightarrow> data_request \<Rightarrow> ('q, 's) act"
  rc_AlertRules :: "(AlertRuleInfo list, 's) act"
  rc_NotificationChannels :: "(ChannelInfo list, 's) act"
  rc_RecentNotifications :: "int \<Rightarrow> (NotificationInfo list, 's) act"
  rc_HostTasks :: "string \<Rightarrow> (Task list, 's) act"
  rc_TaskRuns :: "string \<Rightarrow> int \<Rightarrow> (TaskRunInfo list, 's) act"
  rc_TaskRun :: "int \<Rightarrow> (TaskRunInfo, 's) act"
  rc_SaveRule :: "time \<Rightarrow> SaveRuleRequest \<Rightarrow> (AlertRuleInfo, 's) act"
  rc_DeleteRule :: "time \<Rightarrow> int \<Rightarrow> string \<Rightarrow> (string, 's) act"
  rc_SaveChannel :: "time \<Rightarrow> SaveChannelRequest \<Rightarrow> (ChannelInfo, 's) act"
  rc_DeleteChannel :: "time \<Rightarrow> int \<Rightarrow> string \<Rightarrow> (string, 's) act"
  rc_TestChannel :: "time \<Rightarrow> int \<Rightarrow> string \<Rightarrow> (error option, 's) act"
  rc_RequestTaskRun :: "time \<Rightarrow> string \<Rightarrow> string \<Rightarrow> string \<Rightarrow> (TaskRunInfo, 's) act"
  rc_RequestAgentUpdate :: "time \<Rightarrow> string list \<Rightarrow> string \<Rightarrow> string \<Rightarrow> string \<Rightarrow> (int, 's) act"
  rc_RemoveCluster :: "time \<Rightarrow> string \<Rightarrow> (string, 's) act"

record userSession =
  us_user :: string
  us_role :: string

record cachedSession =
  cs_session :: userSession
  cs_until :: time

record authCache =
  au_sessions :: "string \<rightharpoonup> cachedSession"
  au_passwords :: "string \<rightharpoonup> time"

record 's site =
  si_auth :: authCache
  si_clock :: "time list"
  si_now :: time
  si_collector :: 's

text \<open>What the server is set up with, and what it uses that is not part of the repository: SHA-256, the text of an error, the decoders of request
  bodies cut off at a number of bytes, whether a host is a loopback address, the files of the downloads folder and of the built dashboard, and how
  the metrics page is made from the answer of the collector.\<close>

record channelBody =
  cb_Name :: string
  cb_Kind :: string
  cb_Settings :: "json option"
  cb_IsDefault :: bool
  cb_SkipWarnings :: bool
  cb_Enabled :: bool

record 'q env =
  ev_refreshSeconds :: int
  ev_collectorEndpoint :: string
  ev_agentCollector :: string
  ev_metricsEnabled :: bool
  ev_metricsAuth :: bool
  ev_version :: string
  ev_download :: "string \<Rightarrow> bool"
  ev_file :: "string \<Rightarrow> bool"
  ev_sha256 :: "string \<Rightarrow> string"
  ev_Error :: "error \<Rightarrow> string"
  ev_isLoopback :: "string \<Rightarrow> bool"
  ev_credentials :: "nat \<Rightarrow> string \<Rightarrow> (string \<times> string) result"
  ev_passwords :: "nat \<Rightarrow> string \<Rightarrow> (string \<times> string) result"
  ev_rule :: "nat \<Rightarrow> string \<Rightarrow> (bool \<times> string) result"
  ev_channel :: "nat \<Rightarrow> string \<Rightarrow> channelBody result"
  ev_task :: "nat \<Rightarrow> string \<Rightarrow> string result"
  ev_hosts :: "nat \<Rightarrow> string \<Rightarrow> string list result"
  ev_metrics :: "'q \<Rightarrow> string"

type_synonym ('s, 'q) handler = "('q response, 's site) act"

text \<open>\<open>time.Now()\<close>, a call to the collector, and going on only without an error. A handler always answers.\<close>

definition clock_Now :: "(time, 's site) act" where
  "clock_Now w = (case si_clock w of [] \<Rightarrow> (Inr (si_now w), w) | t # ts \<Rightarrow> (Inr t, w\<lparr>si_now := t, si_clock := ts\<rparr>))"

definition on_collector :: "('a, 's) act \<Rightarrow> ('a, 's site) act" where
  "on_collector m w = (case m (si_collector w) of (r, s) \<Rightarrow> (r, w\<lparr>si_collector := s\<rparr>))"

definition call :: "(time \<Rightarrow> ('a, 's) act) \<Rightarrow> ('a, 's site) act" where
  "call m = bindE clock_Now (\<lambda>t. on_collector (m t))"

definition catch :: "('a, 's) act \<Rightarrow> (error \<Rightarrow> ('b, 's) act) \<Rightarrow> ('a \<Rightarrow> ('b, 's) act) \<Rightarrow> ('b, 's) act" where
  "catch m f k w = (case m w of (Inl e, w') \<Rightarrow> f e w' | (Inr a, w') \<Rightarrow> k a w')"

definition attempt :: "('a, 's site) act \<Rightarrow> (error \<Rightarrow> 'q response) \<Rightarrow> ('a \<Rightarrow> ('s, 'q) handler) \<Rightarrow> ('s, 'q) handler" where
  "attempt m err = catch m (\<lambda>e. ret (err e))"

section \<open>Who is logged in\<close>

definition sessionCacheTTL :: duration where
  "sessionCacheTTL = Minute"

definition passwordCacheTTL :: duration where
  "passwordCacheTTL = 5 * Minute"

definition errNotLoggedIn :: error where
  "errNotLoggedIn = err_text ''log in first''"

definition cache_session :: "string \<Rightarrow> (userSession option, 's site) act" where
  "cache_session key = bindE clock_Now (\<lambda>t w.
     (Inr (case au_sessions (si_auth w) key of None \<Rightarrow> None
        | Some cached \<Rightarrow> if t > cs_until cached then None else Some (cs_session cached)), w))"

definition change_auth :: "(authCache \<Rightarrow> authCache) \<Rightarrow> (unit, 's site) act" where
  "change_auth f = modify (\<lambda>w. w\<lparr>si_auth := f (si_auth w)\<rparr>)"

definition keepSession :: "string \<Rightarrow> userSession \<Rightarrow> time \<Rightarrow> (unit, 's site) act" where
  "keepSession key session expires = bindE clock_Now (\<lambda>t.
     let til = t + sessionCacheTTL; til = (if expires < til then expires else til) in
     change_auth (\<lambda>a. a\<lparr>au_sessions := (au_sessions a)(key \<mapsto> \<lparr>cs_session = session, cs_until = til\<rparr>)\<rparr>))"

definition forgetSession :: "string \<Rightarrow> (unit, 's site) act" where
  "forgetSession key = change_auth (\<lambda>a. a\<lparr>au_sessions := map_delete key (au_sessions a)\<rparr>)"

definition forgetUser :: "string \<Rightarrow> string \<Rightarrow> (unit, 's site) act" where
  "forgetUser user keep = change_auth (\<lambda>a. a\<lparr>au_sessions := (\<lambda>key. case au_sessions a key of None \<Rightarrow> None
     | Some cached \<Rightarrow> if us_user (cs_session cached) = user \<and> key \<noteq> keep then None else Some cached)\<rparr>)"

definition cache_password :: "string \<Rightarrow> (bool, 's site) act" where
  "cache_password key = bindE clock_Now (\<lambda>t w.
     (Inr (case au_passwords (si_auth w) key of None \<Rightarrow> False | Some since \<Rightarrow> time_sub t since < passwordCacheTTL), w))"

definition keepPassword :: "string \<Rightarrow> (unit, 's site) act" where
  "keepPassword key = bindE clock_Now (\<lambda>t. change_auth (\<lambda>a. a\<lparr>au_passwords := (au_passwords a)(key \<mapsto> t)\<rparr>))"

text \<open>\<open>sessionOf\<close>, with the part that asks the collector by itself.\<close>

definition askSession :: "('s, 'q) rpc \<Rightarrow> string \<Rightarrow> string \<Rightarrow> (userSession, 's site) act" where
  "askSession rpc key value = catch (call (\<lambda>t. rc_CheckSession rpc t value))
     (\<lambda>e. fail (if status_Code (Inl e :: unit result) = Unauthenticated then errNotLoggedIn else e))
     (\<lambda>info. let session = \<lparr>us_user = sn_User info, us_role = sn_Role info\<rparr> in
        bindE (keepSession key session (time_Unix (sn_Expires info))) (\<lambda>_. ret session))"

definition cookie_value :: "request \<Rightarrow> string" where
  "cookie_value r = (case rq_cookie r of None \<Rightarrow> [] | Some v \<Rightarrow> v)"

definition sessionOf :: "'q env \<Rightarrow> ('s, 'q) rpc \<Rightarrow> request \<Rightarrow> (userSession, 's site) act" where
  "sessionOf env rpc r =
     (if cookie_value r = [] then fail errNotLoggedIn
      else let key = ev_sha256 env (cookie_value r) in
        bindE (cache_session key) (\<lambda>cached. case cached of Some session \<Rightarrow> ret session | None \<Rightarrow> askSession rpc key (cookie_value r)))"

definition requireLogin :: "'q env \<Rightarrow> ('s, 'q) rpc \<Rightarrow> request \<Rightarrow> ('s, 'q) handler \<Rightarrow> ('s, 'q) handler" where
  "requireLogin env rpc r next_handler = attempt (sessionOf env rpc r)
     (\<lambda>e. if errors_Is e errNotLoggedIn then writeError 401 (ev_Error env e) else writeGRPCError (ev_Error env) e) (\<lambda>_. next_handler)"

definition requireAdmin :: "'q env \<Rightarrow> ('s, 'q) rpc \<Rightarrow> request \<Rightarrow> ('s, 'q) handler \<Rightarrow> ('s, 'q) handler" where
  "requireAdmin env rpc r next_handler = attempt (sessionOf env rpc r) (\<lambda>_. writeError 401 (ev_Error env errNotLoggedIn))
     (\<lambda>session. if us_role session \<noteq> ''admin'' then ret (writeError 403 ''only admins can do this'') else next_handler)"

text \<open>\<open>session, _ := s.sessionOf(r)\<close>, for the user a change is recorded under: an error gives the zero value.\<close>

definition session_user :: "'q env \<Rightarrow> ('s, 'q) rpc \<Rightarrow> request \<Rightarrow> (string, 's site) act" where
  "session_user env rpc r = catch (sessionOf env rpc r) (\<lambda>_. ret []) (\<lambda>session. ret (us_user session))"

definition isAdmin :: "'q env \<Rightarrow> ('s, 'q) rpc \<Rightarrow> request \<Rightarrow> (bool, 's site) act" where
  "isAdmin env rpc r = catch (sessionOf env rpc r) (\<lambda>_. ret False) (\<lambda>session. ret (us_role session = ''admin''))"

definition jsonBody :: "request \<Rightarrow> bool" where
  "jsonBody r \<longleftrightarrow> rq_mediaType r = Some ''application/json''"

text \<open>\<open>strings.EqualFold\<close> also takes the long s for an s.\<close>

definition isHTTPS :: "request \<Rightarrow> bool" where
  "isHTTPS r \<longleftrightarrow> rq_tls r \<or> ToLower (rq_forwardedProto r) \<in> {''https'', ''http'' @ [CHR 0xC5, CHR 0xBF]}"

definition with_json :: "request \<Rightarrow> string \<Rightarrow> ('s, 'q) handler \<Rightarrow> ('s, 'q) handler" where
  "with_json r msg next_handler = (if \<not> jsonBody r then ret (writeError 415 msg) else next_handler)"

definition who_body :: "string \<Rightarrow> string \<Rightarrow> 'q body" where
  "who_body user role = BObject [(''user'', JStr user), (''role'', JStr role)]"

definition getSession :: "'q env \<Rightarrow> ('s, 'q) rpc \<Rightarrow> request \<Rightarrow> ('s, 'q) handler" where
  "getSession env rpc r = catch (sessionOf env rpc r)
     (\<lambda>e. if \<not> errors_Is e errNotLoggedIn then ret (writeGRPCError (ev_Error env) e)
        else attempt (call (\<lambda>_. rc_HasUsers rpc)) (writeGRPCError (ev_Error env)) (\<lambda>users.
          ret (reply 401 (BObject [(''error'', JStr (ev_Error env errNotLoggedIn)), (''hasUsers'', JBool users)]))))
     (\<lambda>session. ret (writeJSON (who_body (us_user session) (us_role session))))"

definition login_cookie :: "request \<Rightarrow> SessionInfo \<Rightarrow> cookie" where
  "login_cookie r session = \<lparr>ck_Value = sn_Token session, ck_Expires = Some (time_Unix (sn_Expires session)), ck_MaxAge = 0, ck_HttpOnly = True,
     ck_Secure = isHTTPS r, ck_SameSiteLax = True\<rparr>"

definition postLogin :: "'q env \<Rightarrow> ('s, 'q) rpc \<Rightarrow> request \<Rightarrow> ('s, 'q) handler" where
  "postLogin env rpc r = with_json r ''send the login as JSON''
     (case ev_credentials env 4096 (rq_body r) of
        Inl _ \<Rightarrow> ret (writeError 400 ''send user and password'')
      | Inr (user, password) \<Rightarrow> attempt (call (\<lambda>t. rc_Login rpc t user password)) (writeGRPCError (ev_Error env)) (\<lambda>session.
          ret ((writeJSON (who_body (sn_User session) (sn_Role session)))\<lparr>rs_cookie := Some (login_cookie r session)\<rparr>)))"

definition postPassword :: "'q env \<Rightarrow> ('s, 'q) rpc \<Rightarrow> request \<Rightarrow> ('s, 'q) handler" where
  "postPassword env rpc r = with_json r ''send the passwords as JSON''
     (case ev_passwords env 4096 (rq_body r) of
        Inl _ \<Rightarrow> ret (writeError 400 ''send current and new'')
      | Inr (current, new) \<Rightarrow> attempt (sessionOf env rpc r) (\<lambda>_. writeError 401 (ev_Error env errNotLoggedIn)) (\<lambda>session.
          attempt (call (\<lambda>t. rc_ChangePassword rpc t (cookie_value r) current new))
            (\<lambda>e. if status_Code (Inl e :: unit result) = Unauthenticated then writeError 403 ''the current password is wrong''
               else writeGRPCError (ev_Error env) e) (\<lambda>_.
          bindE (forgetUser (us_user session) (ev_sha256 env (cookie_value r))) (\<lambda>_. ret (writeJSON (BObject []))))))"

definition logout_cookie :: "request \<Rightarrow> cookie" where
  "logout_cookie r = \<lparr>ck_Value = [], ck_Expires = None, ck_MaxAge = -1, ck_HttpOnly = True, ck_Secure = isHTTPS r, ck_SameSiteLax = True\<rparr>"

definition postLogout :: "'q env \<Rightarrow> ('s, 'q) rpc \<Rightarrow> request \<Rightarrow> ('s, 'q) handler" where
  "postLogout env rpc r = with_json r ''send the logout as JSON''
     (attempt (if cookie_value r = [] then ret ()
        else bindE (forgetSession (ev_sha256 env (cookie_value r))) (\<lambda>_. call (\<lambda>t. rc_Logout rpc t (cookie_value r))))
        (writeGRPCError (ev_Error env)) (\<lambda>_. ret ((writeJSON (BObject []))\<lparr>rs_cookie := Some (logout_cookie r)\<rparr>)))"

definition web_checkPassword :: "'q env \<Rightarrow> ('s, 'q) rpc \<Rightarrow> string \<Rightarrow> string \<Rightarrow> (unit, 's site) act" where
  "web_checkPassword env rpc user password =
     (let key = ev_sha256 env (user @ [CHR 0x00] @ password) in
      bindE (cache_password key) (\<lambda>known. if known then ret ()
        else bindE (call (\<lambda>t. rc_CheckPassword rpc t user password)) (\<lambda>_. keepPassword key)))"

definition metricsAllowed :: "'q env \<Rightarrow> ('s, 'q) rpc \<Rightarrow> request \<Rightarrow> (bool, 's site) act" where
  "metricsAllowed env rpc r =
     (if \<not> ev_metricsAuth env then ret True
      else catch (sessionOf env rpc r)
        (\<lambda>_. case rq_basic r of None \<Rightarrow> ret False
           | Some (user, password) \<Rightarrow> catch (web_checkPassword env rpc user password) (\<lambda>_. ret False) (\<lambda>_. ret True))
        (\<lambda>_. ret True))"

end
