(* ===== verification/WebPages.thy ===== *)
theory WebPages
  imports WebAuth
begin

text \<open>
  The dashboard's server, second part: the handlers of rules.go, notifications.go, tasks.go, agents.go, kube.go, install.go and server.go, and the
  routes with their guards. The answers to queries keep every field, under the names of the JSON; only the range and the number of points of the
  query are worked out here.
\<close>

section \<open>Numbers in requests\<close>

definition Atoi32 :: "string \<Rightarrow> int" where
  "Atoi32 s = wrap32 (fst (ParseInt s))"

definition timeRange :: "string \<Rightarrow> string \<Rightarrow> (int \<times> int, 's site) act" where
  "timeRange fromValue toValue = bindE clock_Now (\<lambda>t.
     bindE (if toValue = [] then ret (time_toUnix t)
            else if \<not> snd (ParseInt toValue) then fail (err_text ''to must be unix seconds'') else ret (fst (ParseInt toValue))) (\<lambda>to.
     bindE (if fromValue = [] then ret (wrap64 (to - 3600))
            else if \<not> snd (ParseInt fromValue) then fail (err_text ''from must be unix seconds'') else ret (fst (ParseInt fromValue))) (\<lambda>from.
     ret (from, to))))"

definition with_range :: "'q env \<Rightarrow> request \<Rightarrow> (int \<Rightarrow> int \<Rightarrow> ('s, 'q) handler) \<Rightarrow> ('s, 'q) handler" where
  "with_range env r next_handler = attempt (timeRange (rq_query r ''from'') (rq_query r ''to'')) (\<lambda>e. writeError 400 (ev_Error env e))
     (\<lambda>(from, to). next_handler from to)"

definition with_id :: "string \<Rightarrow> string \<Rightarrow> (int \<Rightarrow> ('s, 'q) handler) \<Rightarrow> ('s, 'q) handler" where
  "with_id value missing next_handler = (case ParseInt value of (i, ok) \<Rightarrow> if \<not> ok \<or> i \<le> 0 then ret (writeError 404 missing) else next_handler i)"

section \<open>Queries\<close>

definition ask :: "'q env \<Rightarrow> (time \<Rightarrow> ('a, 's) act) \<Rightarrow> ('a \<Rightarrow> ('s, 'q) handler) \<Rightarrow> ('s, 'q) handler" where
  "ask env m next_handler = attempt (call m) (writeGRPCError (ev_Error env)) next_handler"

definition pass_on :: "'q env \<Rightarrow> ('s, 'q) rpc \<Rightarrow> data_request \<Rightarrow> ('s, 'q) handler" where
  "pass_on env rpc q = ask env (\<lambda>t. rc_Query rpc t q) (\<lambda>answer. ret (writeJSON (BData answer)))"

definition getConfig :: "'q env \<Rightarrow> ('s, 'q) rpc \<Rightarrow> ('s, 'q) handler" where
  "getConfig env rpc = bindE (catch (call (\<lambda>_. rc_Version rpc)) (\<lambda>_. ret []) ret) (\<lambda>collectorVersion.
     ret (writeJSON (BConfig (ev_refreshSeconds env) (ev_version env) collectorVersion)))"

definition getFleet :: "'q env \<Rightarrow> ('s, 'q) rpc \<Rightarrow> ('s, 'q) handler" where
  "getFleet env rpc = pass_on env rpc QFleet"

definition getHost :: "'q env \<Rightarrow> ('s, 'q) rpc \<Rightarrow> string \<Rightarrow> ('s, 'q) handler" where
  "getHost env rpc host = pass_on env rpc (QSnapshot host)"

definition getSeries :: "'q env \<Rightarrow> ('s, 'q) rpc \<Rightarrow> request \<Rightarrow> string \<Rightarrow> ('s, 'q) handler" where
  "getSeries env rpc r host = with_range env r (\<lambda>from to. pass_on env rpc
     (QSeries host (rq_query r ''metric'') (rq_query r ''label'') from to (Atoi32 (rq_query r ''maxPoints'')) (rq_query r ''max'' = ''1'')))"

definition getProcesses :: "'q env \<Rightarrow> ('s, 'q) rpc \<Rightarrow> request \<Rightarrow> string \<Rightarrow> ('s, 'q) handler" where
  "getProcesses env rpc r host = pass_on env rpc (QProcesses host (fst (ParseInt (rq_query r ''at''))))"

definition getProcessUsage :: "'q env \<Rightarrow> ('s, 'q) rpc \<Rightarrow> request \<Rightarrow> string \<Rightarrow> ('s, 'q) handler" where
  "getProcessUsage env rpc r host = with_range env r (\<lambda>from to. pass_on env rpc (QProcessUsage host from to))"

definition getCustomMetrics :: "'q env \<Rightarrow> ('s, 'q) rpc \<Rightarrow> string \<Rightarrow> ('s, 'q) handler" where
  "getCustomMetrics env rpc host = pass_on env rpc (QCustomMetricNames host)"

definition getDiskForecasts :: "'q env \<Rightarrow> ('s, 'q) rpc \<Rightarrow> string \<Rightarrow> ('s, 'q) handler" where
  "getDiskForecasts env rpc host = pass_on env rpc (QDiskForecasts host)"

definition getEndpoints :: "'q env \<Rightarrow> ('s, 'q) rpc \<Rightarrow> request \<Rightarrow> ('s, 'q) handler" where
  "getEndpoints env rpc r = with_range env r (\<lambda>from to. pass_on env rpc (QEndpoints from to))"

definition getEndpointSeries :: "'q env \<Rightarrow> ('s, 'q) rpc \<Rightarrow> request \<Rightarrow> ('s, 'q) handler" where
  "getEndpointSeries env rpc r = with_range env r (\<lambda>from to. pass_on env rpc
     (QEndpointSeries (rq_query r ''name'') (rq_query r ''metric'') from to (Atoi32 (rq_query r ''maxPoints''))))"

definition getAlerts :: "'q env \<Rightarrow> ('s, 'q) rpc \<Rightarrow> request \<Rightarrow> ('s, 'q) handler" where
  "getAlerts env rpc r =
     (let send = (\<lambda>from to. pass_on env rpc (QAlerts (rq_query r ''host'') (rq_query r ''open'' = ''1'') from to)) in
      if rq_query r ''from'' \<noteq> [] \<or> rq_query r ''to'' \<noteq> [] then with_range env r send else send 0 0)"

definition getClusters :: "'q env \<Rightarrow> ('s, 'q) rpc \<Rightarrow> ('s, 'q) handler" where
  "getClusters env rpc = pass_on env rpc QClusters"

definition getCluster :: "'q env \<Rightarrow> ('s, 'q) rpc \<Rightarrow> string \<Rightarrow> ('s, 'q) handler" where
  "getCluster env rpc name = pass_on env rpc (QCluster name)"

definition getClusterSeries :: "'q env \<Rightarrow> ('s, 'q) rpc \<Rightarrow> request \<Rightarrow> string \<Rightarrow> ('s, 'q) handler" where
  "getClusterSeries env rpc r name = with_range env r (\<lambda>from to. pass_on env rpc
     (QClusterSeries name (rq_query r ''metric'') from to (Atoi32 (rq_query r ''maxPoints''))))"

section \<open>Rules\<close>

definition number_body :: "string \<Rightarrow> int \<Rightarrow> 'q body" where
  "number_body name i = BObject [(name, JNum (of_int i))]"

definition getRules :: "'q env \<Rightarrow> ('s, 'q) rpc \<Rightarrow> ('s, 'q) handler" where
  "getRules env rpc = ask env (\<lambda>_. rc_AlertRules rpc) (\<lambda>rules. ret (writeJSON (BRules rules)))"

definition web_saveRule :: "'q env \<Rightarrow> ('s, 'q) rpc \<Rightarrow> request \<Rightarrow> int \<Rightarrow> ('s, 'q) handler" where
  "web_saveRule env rpc r i = with_json r ''send the rule as JSON''
     (case ev_rule env 65536 (rq_body r) of
        Inl _ \<Rightarrow> ret (writeError 400 ''send enabled and rule'')
      | Inr (enabled, rule) \<Rightarrow>
          if rule = [] then ret (writeError 400 ''send enabled and rule'')
          else bindE (session_user env rpc r) (\<lambda>user.
            ask env (\<lambda>t. rc_SaveRule rpc t \<lparr>sr_Id = i, sr_RuleJson = rule, sr_Enabled = enabled, sr_By = user\<rparr>) (\<lambda>saved.
            ret (reply (if i = 0 then 201 else 200) (number_body ''id'' (ai_Id saved))))))"

definition postRule :: "'q env \<Rightarrow> ('s, 'q) rpc \<Rightarrow> request \<Rightarrow> ('s, 'q) handler" where
  "postRule env rpc r = web_saveRule env rpc r 0"

definition putRule :: "'q env \<Rightarrow> ('s, 'q) rpc \<Rightarrow> request \<Rightarrow> string \<Rightarrow> ('s, 'q) handler" where
  "putRule env rpc r value = with_id value ''no such rule'' (web_saveRule env rpc r)"

definition web_deleteRule :: "'q env \<Rightarrow> ('s, 'q) rpc \<Rightarrow> request \<Rightarrow> string \<Rightarrow> ('s, 'q) handler" where
  "web_deleteRule env rpc r value = with_id value ''no such rule'' (\<lambda>i.
     bindE (session_user env rpc r) (\<lambda>user.
     ask env (\<lambda>t. rc_DeleteRule rpc t i user) (\<lambda>_. ret (writeJSON (number_body ''id'' i)))))"

section \<open>Notification channels\<close>

definition toChannel :: "ChannelInfo \<Rightarrow> bool \<Rightarrow> web_channel" where
  "toChannel info admin =
     (let out = \<lparr>wc_ID = ci_Id info, wc_Name = ci_Name info, wc_Kind = ci_Kind info, wc_Settings = None, wc_SecretsSet = [],
        wc_IsDefault = ci_IsDefault info, wc_SkipWarnings = ci_SkipWarnings info, wc_Enabled = ci_Enabled info, wc_UpdatedAt = ci_UpdatedAt info,
        wc_UpdatedBy = ci_UpdatedBy info, wc_LastStatus = ci_LastStatus info, wc_LastAt = ci_LastAt info, wc_LastError = []\<rparr>
      in if admin then out\<lparr>wc_Settings := Some (ci_Settings info), wc_SecretsSet := ci_SecretsSet info, wc_LastError := ci_LastError info\<rparr> else out)"

definition getChannels :: "'q env \<Rightarrow> ('s, 'q) rpc \<Rightarrow> request \<Rightarrow> ('s, 'q) handler" where
  "getChannels env rpc r = ask env (\<lambda>_. rc_NotificationChannels rpc) (\<lambda>infos.
     bindE (isAdmin env rpc r) (\<lambda>admin. ret (writeJSON (BChannels (map (\<lambda>info. toChannel info admin) infos)))))"

definition web_saveChannel :: "'q env \<Rightarrow> ('s, 'q) rpc \<Rightarrow> request \<Rightarrow> int \<Rightarrow> ('s, 'q) handler" where
  "web_saveChannel env rpc r i = with_json r ''send the channel as JSON''
     (case ev_channel env 65536 (rq_body r) of
        Inl _ \<Rightarrow> ret (writeError 400 ''send the channel's name, kind and settings'')
      | Inr b \<Rightarrow> (case cb_Settings b of
          None \<Rightarrow> ret (writeError 400 ''send the channel's name, kind and settings'')
        | Some settings \<Rightarrow> bindE (session_user env rpc r) (\<lambda>user.
            ask env (\<lambda>t. rc_SaveChannel rpc t \<lparr>sc_Id = i, sc_Name = cb_Name b, sc_Kind = cb_Kind b, sc_Settings = Inr settings,
              sc_IsDefault = cb_IsDefault b, sc_SkipWarnings = cb_SkipWarnings b, sc_Enabled = cb_Enabled b, sc_By = user\<rparr>) (\<lambda>saved.
            ret (reply (if i = 0 then 201 else 200) (BChannel (toChannel saved True)))))))"

definition postChannel :: "'q env \<Rightarrow> ('s, 'q) rpc \<Rightarrow> request \<Rightarrow> ('s, 'q) handler" where
  "postChannel env rpc r = web_saveChannel env rpc r 0"

definition channelID :: "string \<Rightarrow> (int \<Rightarrow> ('s, 'q) handler) \<Rightarrow> ('s, 'q) handler" where
  "channelID value = with_id value ''no such channel''"

definition putChannel :: "'q env \<Rightarrow> ('s, 'q) rpc \<Rightarrow> request \<Rightarrow> string \<Rightarrow> ('s, 'q) handler" where
  "putChannel env rpc r value = channelID value (web_saveChannel env rpc r)"

definition web_deleteChannel :: "'q env \<Rightarrow> ('s, 'q) rpc \<Rightarrow> request \<Rightarrow> string \<Rightarrow> ('s, 'q) handler" where
  "web_deleteChannel env rpc r value = channelID value (\<lambda>i.
     bindE (session_user env rpc r) (\<lambda>user.
     ask env (\<lambda>t. rc_DeleteChannel rpc t i user) (\<lambda>_. ret (writeJSON (number_body ''id'' i)))))"

definition testChannel :: "'q env \<Rightarrow> ('s, 'q) rpc \<Rightarrow> request \<Rightarrow> string \<Rightarrow> ('s, 'q) handler" where
  "testChannel env rpc r value = channelID value (\<lambda>i. with_json r ''send the test as JSON''
     (bindE (session_user env rpc r) (\<lambda>user.
      ask env (\<lambda>t. rc_TestChannel rpc t i user) (\<lambda>failure. ret (writeJSON (BTest failure))))))"

definition getNotifications :: "'q env \<Rightarrow> ('s, 'q) rpc \<Rightarrow> request \<Rightarrow> ('s, 'q) handler" where
  "getNotifications env rpc r = ask env (\<lambda>_. rc_RecentNotifications rpc (Atoi32 (rq_query r ''limit''))) (\<lambda>list.
     bindE (isAdmin env rpc r) (\<lambda>admin.
     ret (writeJSON (BNotifications (map (\<lambda>n. if admin then n else n\<lparr>ni_LastError := []\<rparr>) list)))))"

section \<open>Tasks\<close>

definition toTaskRun :: "TaskRunInfo \<Rightarrow> bool \<Rightarrow> TaskRunInfo" where
  "toTaskRun run admin = (if admin then run else run\<lparr>ti_Command := [], ti_Output := []\<rparr>)"

definition toHostTask :: "Task \<Rightarrow> bool \<Rightarrow> hostTask" where
  "toHostTask task admin = \<lparr>ht_Name = task_Name task, ht_Description = task_Description task,
     ht_Command = (if admin then task_Command task else []), ht_TimeoutSeconds = task_TimeoutSeconds task\<rparr>"

definition getHostTasks :: "'q env \<Rightarrow> ('s, 'q) rpc \<Rightarrow> request \<Rightarrow> string \<Rightarrow> ('s, 'q) handler" where
  "getHostTasks env rpc r host = ask env (\<lambda>_. rc_HostTasks rpc host) (\<lambda>tasks.
     bindE (isAdmin env rpc r) (\<lambda>admin. ret (writeJSON (BTasks (map (\<lambda>task. toHostTask task admin) tasks)))))"

definition getTaskRuns :: "'q env \<Rightarrow> ('s, 'q) rpc \<Rightarrow> request \<Rightarrow> string \<Rightarrow> ('s, 'q) handler" where
  "getTaskRuns env rpc r host = ask env (\<lambda>_. rc_TaskRuns rpc host (Atoi32 (rq_query r ''limit''))) (\<lambda>runs.
     bindE (isAdmin env rpc r) (\<lambda>admin. ret (writeJSON (BRuns (map (\<lambda>run. toTaskRun run admin) runs)))))"

definition getTaskRun :: "'q env \<Rightarrow> ('s, 'q) rpc \<Rightarrow> string \<Rightarrow> ('s, 'q) handler" where
  "getTaskRun env rpc value = with_id value ''no such run'' (\<lambda>i.
     ask env (\<lambda>_. rc_TaskRun rpc i) (\<lambda>run. ret (writeJSON (BRun (toTaskRun run True)))))"

definition postTaskRun :: "'q env \<Rightarrow> ('s, 'q) rpc \<Rightarrow> request \<Rightarrow> string \<Rightarrow> ('s, 'q) handler" where
  "postTaskRun env rpc r host = with_json r ''send the task as JSON''
     (case ev_task env 65536 (rq_body r) of
        Inl _ \<Rightarrow> ret (writeError 400 ''send the task to run'')
      | Inr task \<Rightarrow>
          if task = [] then ret (writeError 400 ''send the task to run'')
          else bindE (session_user env rpc r) (\<lambda>user.
            ask env (\<lambda>t. rc_RequestTaskRun rpc t host task user) (\<lambda>run. ret (reply 201 (BRun (toTaskRun run True))))))"

section \<open>Agents and clusters\<close>

text \<open>The regular expression \<open>safeHost\<close>: a name with a port or none, or an address in brackets with a port or none.\<close>

definition host_char :: "char \<Rightarrow> bool" where
  "host_char c \<longleftrightarrow> letter_digit c \<or> c = CHR ''.'' \<or> c = CHR ''-''"

definition address_char :: "char \<Rightarrow> bool" where
  "address_char c \<longleftrightarrow> c \<in> set ''0123456789ABCDEFabcdef:.''"

fun safe_port :: "string \<Rightarrow> bool" where
  "safe_port [] = True"
| "safe_port (c # ds) = (c = CHR '':'' \<and> ds \<noteq> [] \<and> list_all is_digit ds)"

definition safeHost :: "string \<Rightarrow> bool" where
  "safeHost s \<longleftrightarrow>
     takeWhile host_char s \<noteq> [] \<and> safe_port (dropWhile host_char s) \<or>
     (case s of [] \<Rightarrow> False | c # t \<Rightarrow> c = CHR ''['' \<and> takeWhile address_char t \<noteq> [] \<and>
        (case dropWhile address_char t of [] \<Rightarrow> False | d # p \<Rightarrow> d = CHR '']'' \<and> safe_port p))"

definition agentArchs :: "string list" where
  "agentArchs = [''amd64'', ''arm64'', ''arm'']"

definition unsigned_text :: string where
  "unsigned_text = ''the agent downloads are not signed, so agents would refuse them. Build them with make pack-client''"

definition postAgentUpdate :: "'q env \<Rightarrow> ('s, 'q) rpc \<Rightarrow> request \<Rightarrow> ('s, 'q) handler" where
  "postAgentUpdate env rpc r = with_json r ''send the hosts as JSON''
     (case ev_hosts env 65536 (rq_body r) of
        Inl _ \<Rightarrow> ret (writeError 400 ''send the hosts to update'')
      | Inr hosts \<Rightarrow>
          if hosts = [] then ret (writeError 400 ''send the hosts to update'')
          else if \<not> safeHost (rq_host r) then ret (writeError 400 ''unexpected Host header'')
          else if \<not> list_all (\<lambda>arch. ev_download env (''agent-linux-'' @ arch @ ''.sig'')) agentArchs then ret (writeError 409 unsigned_text)
          else bindE (session_user env rpc r) (\<lambda>user.
            ask env (\<lambda>t. rc_RequestAgentUpdate rpc t hosts (ev_version env) ((if isHTTPS r then ''https'' else ''http'') @ ''://'' @ rq_host r) user)
              (\<lambda>requested. ret (writeJSON (BObject [(''requested'', JNum (of_int requested)), (''version'', JStr (ev_version env))])))))"

definition deleteCluster :: "'q env \<Rightarrow> ('s, 'q) rpc \<Rightarrow> string \<Rightarrow> ('s, 'q) handler" where
  "deleteCluster env rpc name = ask env (\<lambda>t. rc_RemoveCluster rpc t name) (\<lambda>_. ret (writeJSON (BObject [(''name'', JStr name)])))"

section \<open>The install script and downloads\<close>

text \<open>\<open>net.SplitHostPort\<close>, None for each of its errors, and \<open>net.JoinHostPort\<close>.\<close>

definition after_last_colon :: "string \<Rightarrow> (string \<times> string) option" where
  "after_last_colon s = (if CHR '':'' \<in> set s
     then Some (rev (tl (dropWhile (\<lambda>c. c \<noteq> CHR '':'') (rev s))), rev (takeWhile (\<lambda>c. c \<noteq> CHR '':'') (rev s))) else None)"

definition SplitHostPort :: "string \<Rightarrow> (string \<times> string) option" where
  "SplitHostPort hostport = (case after_last_colon hostport of
     None \<Rightarrow> None
   | Some (front, port) \<Rightarrow>
       if take 1 hostport = ''['' then
         let host = takeWhile (\<lambda>c. c \<noteq> CHR '']'') (tl front) in
         if front = ''['' @ host @ '']'' \<and> CHR ''['' \<notin> set (host @ port) \<and> CHR '']'' \<notin> set port then Some (host, port) else None
       else if CHR '':'' \<in> set front \<or> CHR ''['' \<in> set hostport \<or> CHR '']'' \<in> set hostport then None
       else Some (front, port))"

definition JoinHostPort :: "string \<Rightarrow> string \<Rightarrow> string" where
  "JoinHostPort host port = (if CHR '':'' \<in> set host then ''['' @ host @ '']:'' @ port else host @ '':'' @ port)"

definition agentCollectorEndpoint :: "'q env \<Rightarrow> string \<Rightarrow> string" where
  "agentCollectorEndpoint env dashboardHost =
     (if ev_agentCollector env \<noteq> [] then ev_agentCollector env
      else case SplitHostPort (ev_collectorEndpoint env) of
        None \<Rightarrow> ev_collectorEndpoint env
      | Some (host, port) \<Rightarrow>
          if host = [] \<or> host = ''localhost'' \<or> ev_isLoopback env host
          then JoinHostPort (case SplitHostPort dashboardHost of None \<Rightarrow> dashboardHost | Some (withoutPort, _) \<Rightarrow> withoutPort) port
          else ev_collectorEndpoint env)"

definition getInstallScript :: "'q env \<Rightarrow> request \<Rightarrow> ('s, 'q) handler" where
  "getInstallScript env r =
     (if \<not> safeHost (rq_host r) then ret (reply 400 (BText ''unexpected Host header''))
      else let scheme = (if rq_tls r \<or> rq_forwardedProto r = ''https'' then ''https'' else ''http'');
               collector = agentCollectorEndpoint env (rq_host r) in
        if \<not> safeHost collector then ret (reply 500 (BText ''the agent collector endpoint is not a host:port''))
        else ret (reply 200 (BScript (scheme @ ''://'' @ rq_host r) collector)))"

definition agentFile :: "string \<Rightarrow> bool" where
  "agentFile name \<longleftrightarrow> (\<exists>arch \<in> set agentArchs. name = ''agent-linux-'' @ arch \<or> name = ''agent-linux-'' @ arch @ ''.sig'')"

definition getDownload :: "'q env \<Rightarrow> string \<Rightarrow> ('s, 'q) handler" where
  "getDownload env name =
     (if \<not> agentFile name then ret (reply 404 (BText ''404 page not found''))
      else if \<not> ev_download env name then ret (reply 404 (BText (''there is no '' @ name @ '' in the downloads folder, build it with make pack-client'')))
      else ret (reply 200 (BFile (if HasSuffix name ''.sig'' then ''text/plain; charset=utf-8'' else ''application/octet-stream'') name)))"

section \<open>Metrics and the app\<close>

definition getMetrics :: "'q env \<Rightarrow> ('s, 'q) rpc \<Rightarrow> request \<Rightarrow> ('s, 'q) handler" where
  "getMetrics env rpc r =
     (if \<not> ev_metricsEnabled env then ret (reply 404 (BText ''metrics are switched off with SYMON_CLIENT_METRICS_ENABLED=false''))
      else bindE (metricsAllowed env rpc r) (\<lambda>allowed.
        if \<not> allowed then ret (reply 401 (BText ''log in with a SyMon user''))
        else ask env (\<lambda>t. rc_Query rpc t QSnapshots) (\<lambda>answer. ret (reply 200 (BMetrics (ev_metrics env answer))))))"

text \<open>\<open>app\<close>, on a path without an empty or a dot segment.\<close>

definition app :: "'q env \<Rightarrow> string list \<Rightarrow> ('s, 'q) handler" where
  "app env path =
     (let name = Join (filter (\<lambda>s. s \<noteq> ''/'') path) ''/'' in
      if name \<noteq> [] \<and> name \<noteq> ''index.html'' \<and> ev_file env name
      then ret (reply 200 (BFile (if HasPrefix name ''assets/'' then ''public, max-age=31536000, immutable'' else []) name))
      else if \<not> ev_file env ''index.html'' then ret (reply 503 (BText ''the dashboard is not built, run make web''))
      else ret (reply 200 BIndex))"

section \<open>Routes\<close>

text \<open>
  The patterns of \<open>http.ServeMux\<close>: a pattern for GET takes HEAD too, a wildcard takes one segment, and a path that ends in a slash has \<open>/\<close> as
  its last segment, which no wildcard takes. The more specific pattern wins, and no two of these overlap.
\<close>

definition is_get :: "request \<Rightarrow> bool" where
  "is_get r \<longleftrightarrow> rq_method r = ''GET'' \<or> rq_method r = ''HEAD''"

definition no_endpoint :: "('s, 'q) handler" where
  "no_endpoint = ret (writeError 404 ''no such endpoint'')"

definition get_routes :: "'q env \<Rightarrow> ('s, 'q) rpc \<Rightarrow> request \<Rightarrow> string list \<Rightarrow> ('s, 'q) handler" where
  "get_routes env rpc r path = (case path of
     [a] \<Rightarrow>
       if a = ''config'' then getConfig env rpc
       else if a = ''fleet'' then getFleet env rpc
       else if a = ''alerts'' then getAlerts env rpc r
       else if a = ''endpoints'' then getEndpoints env rpc r
       else if a = ''rules'' then getRules env rpc
       else if a = ''notifications'' then getNotifications env rpc r
       else if a = ''clusters'' then getClusters env rpc
       else no_endpoint
   | [a, b] \<Rightarrow>
       if a = ''endpoints'' \<and> b = ''series'' then getEndpointSeries env rpc r
       else if a = ''notifications'' \<and> b = ''channels'' then getChannels env rpc r
       else if b = ''/'' then no_endpoint
       else if a = ''hosts'' then getHost env rpc b
       else if a = ''task-runs'' then requireAdmin env rpc r (getTaskRun env rpc b)
       else if a = ''clusters'' then getCluster env rpc b
       else no_endpoint
   | [a, b, c] \<Rightarrow>
       if a = ''hosts'' then
         if c = ''series'' then getSeries env rpc r b
         else if c = ''processes'' then getProcesses env rpc r b
         else if c = ''process-usage'' then getProcessUsage env rpc r b
         else if c = ''custom-metrics'' then getCustomMetrics env rpc b
         else if c = ''disk-forecasts'' then getDiskForecasts env rpc b
         else if c = ''tasks'' then getHostTasks env rpc r b
         else if c = ''task-runs'' then getTaskRuns env rpc r b
         else no_endpoint
       else if a = ''clusters'' \<and> c = ''series'' then getClusterSeries env rpc r b
       else no_endpoint
   | _ \<Rightarrow> no_endpoint)"

definition post_routes :: "'q env \<Rightarrow> ('s, 'q) rpc \<Rightarrow> request \<Rightarrow> string list \<Rightarrow> ('s, 'q) handler" where
  "post_routes env rpc r path = (case path of
     [a] \<Rightarrow>
       if a = ''password'' then postPassword env rpc r
       else if a = ''rules'' then requireAdmin env rpc r (postRule env rpc r)
       else no_endpoint
   | [a, b] \<Rightarrow>
       if a = ''agents'' \<and> b = ''update'' then requireAdmin env rpc r (postAgentUpdate env rpc r)
       else if a = ''notifications'' \<and> b = ''channels'' then requireAdmin env rpc r (postChannel env rpc r)
       else no_endpoint
   | [a, b, c, d] \<Rightarrow>
       if a = ''hosts'' \<and> c = ''tasks'' \<and> d = ''run'' then requireAdmin env rpc r (postTaskRun env rpc r b)
       else if a = ''notifications'' \<and> b = ''channels'' \<and> d = ''test'' then requireAdmin env rpc r (testChannel env rpc r c)
       else no_endpoint
   | _ \<Rightarrow> no_endpoint)"

definition put_routes :: "'q env \<Rightarrow> ('s, 'q) rpc \<Rightarrow> request \<Rightarrow> string list \<Rightarrow> ('s, 'q) handler" where
  "put_routes env rpc r path = (case path of
     [a, b] \<Rightarrow> if a = ''rules'' \<and> b \<noteq> ''/'' then requireAdmin env rpc r (putRule env rpc r b) else no_endpoint
   | [a, b, c] \<Rightarrow> if a = ''notifications'' \<and> b = ''channels'' \<and> c \<noteq> ''/'' then requireAdmin env rpc r (putChannel env rpc r c) else no_endpoint
   | _ \<Rightarrow> no_endpoint)"

definition delete_routes :: "'q env \<Rightarrow> ('s, 'q) rpc \<Rightarrow> request \<Rightarrow> string list \<Rightarrow> ('s, 'q) handler" where
  "delete_routes env rpc r path = (case path of
     [a, b] \<Rightarrow>
       if b = ''/'' then no_endpoint
       else if a = ''rules'' then requireAdmin env rpc r (web_deleteRule env rpc r b)
       else if a = ''clusters'' then requireAdmin env rpc r (deleteCluster env rpc b)
       else no_endpoint
   | [a, b, c] \<Rightarrow> if a = ''notifications'' \<and> b = ''channels'' \<and> c \<noteq> ''/'' then requireAdmin env rpc r (web_deleteChannel env rpc r c) else no_endpoint
   | _ \<Rightarrow> no_endpoint)"

definition data_routes :: "'q env \<Rightarrow> ('s, 'q) rpc \<Rightarrow> request \<Rightarrow> string list \<Rightarrow> ('s, 'q) handler" where
  "data_routes env rpc r path =
     (if take 1 path \<noteq> [''v1''] then no_endpoint
      else if is_get r then get_routes env rpc r (tl path)
      else if rq_method r = ''POST'' then post_routes env rpc r (tl path)
      else if rq_method r = ''PUT'' then put_routes env rpc r (tl path)
      else if rq_method r = ''DELETE'' then delete_routes env rpc r (tl path)
      else no_endpoint)"

text \<open>A path \<open>/api\<close> is sent on to \<open>/api/\<close>.\<close>

definition routes :: "'q env \<Rightarrow> ('s, 'q) rpc \<Rightarrow> request \<Rightarrow> ('s, 'q) handler" where
  "routes env rpc r =
     (let path = rq_path r in
      if rq_method r = ''POST'' \<and> path = [''api'', ''v1'', ''login''] then postLogin env rpc r
      else if rq_method r = ''POST'' \<and> path = [''api'', ''v1'', ''logout''] then postLogout env rpc r
      else if is_get r \<and> path = [''api'', ''v1'', ''session''] then getSession env rpc r
      else if path = [''api''] then ret (reply 307 (BText ''/api/''))
      else if take 1 path = [''api''] then requireLogin env rpc r (data_routes env rpc r (tl path))
      else if is_get r \<and> path = [''metrics''] then getMetrics env rpc r
      else if is_get r \<and> path = [''install.sh''] then getInstallScript env r
      else if is_get r \<and> length path = 2 \<and> hd path = ''downloads'' \<and> path ! 1 \<noteq> ''/'' then getDownload env (path ! 1)
      else app env path)"

end
