(* ===== verification/WebAccess.thy ===== *)
theory WebAccess
  imports WebPages
begin

text \<open>
  What a login at the dashboard is worth: data is shown, secrets are shown and changes are made only for a session that the collector accepted
  within the last minute, and a page of another site cannot make changes.
\<close>

section \<open>What the collector was asked\<close>

text \<open>The collector's client with a history of what it accepted and what it was asked to change, newest first. A change is noted however it ends.\<close>

datatype event =
    Checked time string SessionInfo
  | PasswordOk time string string
  | Changed time "string option"
  | SignedIn time
  | SignedOut time
  | PasswordChanged time

fun event_time :: "event \<Rightarrow> time" where
  "event_time (Checked t _ _) = t"
| "event_time (PasswordOk t _ _) = t"
| "event_time (Changed t _) = t"
| "event_time (SignedIn t) = t"
| "event_time (SignedOut t) = t"
| "event_time (PasswordChanged t) = t"

definition noted :: "('a result \<Rightarrow> event option) \<Rightarrow> ('a, 's) act \<Rightarrow> ('a, 's \<times> event list) act" where
  "noted ev m x = (case m (fst x) of (r, s) \<Rightarrow> (r, (s, (case ev r of None \<Rightarrow> snd x | Some e \<Rightarrow> e # snd x))))"

definition unnoted :: "('a, 's) act \<Rightarrow> ('a, 's \<times> event list) act" where
  "unnoted = noted (\<lambda>_. None)"

definition changing :: "time \<Rightarrow> string option \<Rightarrow> ('a, 's) act \<Rightarrow> ('a, 's \<times> event list) act" where
  "changing t by = noted (\<lambda>_. Some (Changed t by))"

definition on_success :: "('a \<Rightarrow> event) \<Rightarrow> 'a result \<Rightarrow> event option" where
  "on_success ev r = (case r of Inl _ \<Rightarrow> None | Inr a \<Rightarrow> Some (ev a))"

definition recorded :: "('s, 'q) rpc \<Rightarrow> ('s \<times> event list, 'q) rpc" where
  "recorded rpc = \<lparr>
     rc_CheckSession = (\<lambda>t token. noted (on_success (Checked t token)) (rc_CheckSession rpc t token)),
     rc_HasUsers = unnoted (rc_HasUsers rpc),
     rc_Login = (\<lambda>t user password. noted (\<lambda>_. Some (SignedIn t)) (rc_Login rpc t user password)),
     rc_CheckPassword = (\<lambda>t user password. noted (on_success (\<lambda>_. PasswordOk t user password)) (rc_CheckPassword rpc t user password)),
     rc_ChangePassword = (\<lambda>t token current new. noted (\<lambda>_. Some (PasswordChanged t)) (rc_ChangePassword rpc t token current new)),
     rc_Logout = (\<lambda>t token. noted (\<lambda>_. Some (SignedOut t)) (rc_Logout rpc t token)),
     rc_Version = unnoted (rc_Version rpc),
     rc_Query = (\<lambda>t q. unnoted (rc_Query rpc t q)),
     rc_AlertRules = unnoted (rc_AlertRules rpc),
     rc_NotificationChannels = unnoted (rc_NotificationChannels rpc),
     rc_RecentNotifications = (\<lambda>limit. unnoted (rc_RecentNotifications rpc limit)),
     rc_HostTasks = (\<lambda>host. unnoted (rc_HostTasks rpc host)),
     rc_TaskRuns = (\<lambda>host limit. unnoted (rc_TaskRuns rpc host limit)),
     rc_TaskRun = (\<lambda>i. unnoted (rc_TaskRun rpc i)),
     rc_SaveRule = (\<lambda>t req. changing t (Some (sr_By req)) (rc_SaveRule rpc t req)),
     rc_DeleteRule = (\<lambda>t i by. changing t (Some by) (rc_DeleteRule rpc t i by)),
     rc_SaveChannel = (\<lambda>t req. changing t (Some (sc_By req)) (rc_SaveChannel rpc t req)),
     rc_DeleteChannel = (\<lambda>t i by. changing t (Some by) (rc_DeleteChannel rpc t i by)),
     rc_TestChannel = (\<lambda>t i by. changing t (Some by) (rc_TestChannel rpc t i by)),
     rc_RequestTaskRun = (\<lambda>t host task by. changing t (Some by) (rc_RequestTaskRun rpc t host task by)),
     rc_RequestAgentUpdate = (\<lambda>t hosts v url by. changing t (Some by) (rc_RequestAgentUpdate rpc t hosts v url by)),
     rc_RemoveCluster = (\<lambda>t name. changing t None (rc_RemoveCluster rpc t name))\<rparr>"

definition audit :: "('s \<times> event list) site \<Rightarrow> event list" where
  "audit w = snd (si_collector w)"

text \<open>Requests are handled one after the other, each within a time \<open>d\<close>; in between the collector may change in any way.\<close>

definition arrive :: "time \<Rightarrow> time list \<Rightarrow> 's site \<Rightarrow> 's site" where
  "arrive t ts w = w\<lparr>si_now := t, si_clock := ts\<rparr>"

definition handled_within :: "duration \<Rightarrow> time \<Rightarrow> time list \<Rightarrow> bool" where
  "handled_within d t ts \<longleftrightarrow> sorted (t # ts) \<and> list_all (\<lambda>u. u \<le> t + d) ts \<and> 0 \<le> d"

inductive site_runs :: "'q env \<Rightarrow> ('s, 'q) rpc \<Rightarrow> duration \<Rightarrow> ('s \<times> event list) site \<Rightarrow> bool" for env rpc d where
  site_starts: "si_auth w = \<lparr>au_sessions = Map.empty, au_passwords = Map.empty\<rparr> \<Longrightarrow> audit w = [] \<Longrightarrow> site_runs env rpc d w"
| site_serves: "site_runs env rpc d w \<Longrightarrow> si_now w \<le> t \<Longrightarrow> handled_within d t ts \<Longrightarrow>
    site_runs env rpc d (snd (routes env (recorded rpc) r (arrive t ts w)))"
| site_elsewhere: "site_runs env rpc d w \<Longrightarrow> site_runs env rpc d (w\<lparr>si_collector := (s, audit w)\<rparr>)"

section \<open>Evidence\<close>

text \<open>
  A session accepted for a cookie's hash, good until a time with a tolerance \<open>x\<close>: a minute after it was checked, and not beyond its expiry.
\<close>

definition accepted :: "'q env \<Rightarrow> duration \<Rightarrow> string \<Rightarrow> userSession \<Rightarrow> time \<Rightarrow> event list \<Rightarrow> bool" where
  "accepted env x key us t l \<longleftrightarrow> (\<exists>tc token info. Checked tc token info \<in> set l \<and> ev_sha256 env token = key \<and>
     us = \<lparr>us_user = sn_User info, us_role = sn_Role info\<rparr> \<and> t \<le> min (tc + Minute) (max tc (time_Unix (sn_Expires info))) + x)"

definition password_accepted :: "'q env \<Rightarrow> duration \<Rightarrow> string \<Rightarrow> time \<Rightarrow> event list \<Rightarrow> bool" where
  "password_accepted env x key t l \<longleftrightarrow> (\<exists>tc user password. PasswordOk tc user password \<in> set l \<and>
     ev_sha256 env (user @ [CHR 0x00] @ password) = key \<and> t \<le> tc + x)"

text \<open>What an answer shows: data of the fleet, or what only admins may see.\<close>

fun private_body :: "'q body \<Rightarrow> bool" where
  "private_body (BError _) = False"
| "private_body (BObject _) = False"
| "private_body (BText _) = False"
| "private_body (BMetrics _) = False"
| "private_body (BScript _ _) = False"
| "private_body (BFile _ _) = False"
| "private_body BIndex = False"
| "private_body _ = True"

fun secret_body :: "'q body \<Rightarrow> bool" where
  "secret_body (BChannels cs) = list_ex (\<lambda>c. wc_Settings c \<noteq> None \<or> wc_SecretsSet c \<noteq> [] \<or> wc_LastError c \<noteq> []) cs"
| "secret_body (BChannel c) = True"
| "secret_body (BNotifications ns) = list_ex (\<lambda>n. ni_LastError n \<noteq> []) ns"
| "secret_body (BTasks ts) = list_ex (\<lambda>t. ht_Command t \<noteq> []) ts"
| "secret_body (BRuns rs) = list_ex (\<lambda>r. ti_Command r \<noteq> [] \<or> ti_Output r \<noteq> []) rs"
| "secret_body (BRun r) = True"
| "secret_body (BTest e) = True"
| "secret_body _ = False"

fun metrics_body :: "'q body \<Rightarrow> bool" where
  "metrics_body (BMetrics _) = True"
| "metrics_body _ = False"

text \<open>A change was made under an admin's session, and is recorded under a user of that session or under no one.\<close>

definition change_justified :: "'q env \<Rightarrow> duration \<Rightarrow> event list \<Rightarrow> event \<Rightarrow> bool" where
  "change_justified env x l e = (case e of
     Changed t by \<Rightarrow> \<exists>key user. accepted env x key \<lparr>us_user = user, us_role = ''admin''\<rparr> t l \<and>
       (case by of None \<Rightarrow> True | Some name \<Rightarrow> name = [] \<or> (\<exists>role. accepted env x key \<lparr>us_user = name, us_role = role\<rparr> t l))
   | _ \<Rightarrow> True)"

lemma accepted_mono:
  assumes "accepted env x key us t l" and "set l \<subseteq> set l'" and "t' - x' \<le> t - x"
  shows "accepted env x' key us t' l'"
proof -
  obtain tc token info where c: "Checked tc token info \<in> set l" "ev_sha256 env token = key" "us = \<lparr>us_user = sn_User info, us_role = sn_Role info\<rparr>"
      "t \<le> min (tc + Minute) (max tc (time_Unix (sn_Expires info))) + x"
    using assms(1) unfolding accepted_def by blast
  have "t' \<le> min (tc + Minute) (max tc (time_Unix (sn_Expires info))) + x'"
    using c(4) assms(3) by linarith
  with c assms(2) show ?thesis
    unfolding accepted_def by blast
qed

lemma password_accepted_mono:
  assumes "password_accepted env x key t l" and "set l \<subseteq> set l'" and "t' - x' \<le> t - x"
  shows "password_accepted env x' key t' l'"
proof -
  obtain tc user password where c: "PasswordOk tc user password \<in> set l" "ev_sha256 env (user @ [CHR 0x00] @ password) = key" "t \<le> tc + x"
    using assms(1) unfolding password_accepted_def by blast
  have "t' \<le> tc + x'"
    using c(3) assms(3) by linarith
  with c assms(2) show ?thesis
    unfolding password_accepted_def by blast
qed

lemma accepted_more: "accepted env x key us t l \<Longrightarrow> set l \<subseteq> set l' \<Longrightarrow> accepted env x key us t l'"
  by (erule accepted_mono) simp_all

lemma password_accepted_more: "password_accepted env x key t l \<Longrightarrow> set l \<subseteq> set l' \<Longrightarrow> password_accepted env x key t l'"
  by (erule password_accepted_mono) simp_all

section \<open>The invariant while a request is handled\<close>

text \<open>
  \<open>E\<close> is what is known of the request: sessions (\<open>Some\<close>) accepted for its cookie and its password (\<open>None\<close>), good up to the end \<open>hi\<close> of the request.
\<close>

definition known :: "'q env \<Rightarrow> duration \<Rightarrow> request \<Rightarrow> time \<Rightarrow> userSession option \<Rightarrow> event list \<Rightarrow> bool" where
  "known env d r hi e l = (case e of
     Some us \<Rightarrow> accepted env (2 * d) (ev_sha256 env (cookie_value r)) us hi l
   | None \<Rightarrow> (\<exists>user password. rq_basic r = Some (user, password) \<and>
       password_accepted env (5 * Minute + 2 * d) (ev_sha256 env (user @ [CHR 0x00] @ password)) hi l))"

definition caches_ok :: "'q env \<Rightarrow> duration \<Rightarrow> authCache \<Rightarrow> event list \<Rightarrow> bool" where
  "caches_ok env d a l \<longleftrightarrow>
     (\<forall>key c. au_sessions a key = Some c \<longrightarrow> accepted env d key (cs_session c) (cs_until c) l) \<and>
     (\<forall>key t. au_passwords a key = Some t \<longrightarrow> password_accepted env d key t l)"

definition history_ok :: "'q env \<Rightarrow> duration \<Rightarrow> event list \<Rightarrow> bool" where
  "history_ok env d l \<longleftrightarrow> list_all (change_justified env (2 * d) l) l"

definition visiting :: "'q env \<Rightarrow> duration \<Rightarrow> request \<Rightarrow> time \<Rightarrow> userSession option set \<Rightarrow> ('s \<times> event list) site \<Rightarrow> bool" where
  "visiting env d r hi E w \<longleftrightarrow>
     hi - d \<le> si_now w \<and> sorted (si_now w # si_clock w) \<and> list_all (\<lambda>t. t \<le> hi) (si_now w # si_clock w) \<and> 0 \<le> d \<and>
     caches_ok env d (si_auth w) (audit w) \<and> history_ok env d (audit w) \<and> (\<forall>e \<in> E. known env d r hi e (audit w))"

definition triple :: "('s \<Rightarrow> bool) \<Rightarrow> ('a, 's) act \<Rightarrow> ('a result \<Rightarrow> 's \<Rightarrow> bool) \<Rightarrow> bool" where
  "triple P m Q \<longleftrightarrow> (\<forall>w. P w \<longrightarrow> Q (fst (m w)) (snd (m w)))"

lemma triple_bindE:
  assumes "triple P m R" and "\<And>a. triple (R (Inr a)) (k a) Q" and "\<And>e w. R (Inl e) w \<Longrightarrow> Q (Inl e) w"
  shows "triple P (bindE m k) Q"
  using assms by (auto simp: triple_def bindE_def split: prod.splits sum.splits)

lemma triple_catch:
  assumes "triple P m R" and "\<And>a. triple (R (Inr a)) (k a) Q" and "\<And>e. triple (R (Inl e)) (f e) Q"
  shows "triple P (catch m f k) Q"
  using assms by (auto simp: triple_def catch_def split: prod.splits sum.splits)

lemma triple_ret [simp]: "triple P (ret a) Q \<longleftrightarrow> (\<forall>w. P w \<longrightarrow> Q (Inr a) w)"
  by (simp add: triple_def ret_def)

lemma triple_fail [simp]: "triple P (fail e) Q \<longleftrightarrow> (\<forall>w. P w \<longrightarrow> Q (Inl e) w)"
  by (simp add: triple_def fail_def)

lemma triple_weaken:
  assumes "triple P m Q" and "\<And>w. P' w \<Longrightarrow> P w" and "\<And>x w. Q x w \<Longrightarrow> Q' x w"
  shows "triple P' m Q'"
  using assms by (auto simp: triple_def)

lemma visiting_fewer: "visiting env d r hi E w \<Longrightarrow> E' \<subseteq> E \<Longrightarrow> visiting env d r hi E' w"
  by (auto simp: visiting_def)

lemma known_mono: "known env d r hi e l \<Longrightarrow> set l \<subseteq> set l' \<Longrightarrow> known env d r hi e l'"
  unfolding known_def by (auto split: option.splits intro: accepted_more password_accepted_more)

lemma change_justified_mono:
  assumes "change_justified env x l e" and "set l \<subseteq> set l'"
  shows "change_justified env x l' e"
proof (cases e)
  case (Changed t who)
  have more: "accepted env x key us t l'" if "accepted env x key us t l" for key us
    by (rule accepted_more [OF that assms(2)])
  obtain key user where k: "accepted env x key \<lparr>us_user = user, us_role = ''admin''\<rparr> t l"
      "case who of None \<Rightarrow> True | Some name \<Rightarrow> name = [] \<or> (\<exists>role. accepted env x key \<lparr>us_user = name, us_role = role\<rparr> t l)"
    using assms(1) Changed by (auto simp: change_justified_def)
  have "case who of None \<Rightarrow> True | Some name \<Rightarrow> name = [] \<or> (\<exists>role. accepted env x key \<lparr>us_user = name, us_role = role\<rparr> t l')"
    using k(2) more by (cases who) auto
  with more [OF k(1)] Changed show ?thesis
    unfolding change_justified_def by auto
qed (simp_all add: change_justified_def)

lemma caches_ok_mono:
  assumes "caches_ok env d a l" and "set l \<subseteq> set l'"
  shows "caches_ok env d a l'"
  using assms(1) unfolding caches_ok_def by (auto intro: accepted_more [OF _ assms(2)] password_accepted_more [OF _ assms(2)])

lemma visiting_note:
  assumes "visiting env d r hi E w" and "change_justified env (2 * d) (e # audit w) e"
  shows "visiting env d r hi E (w\<lparr>si_collector := (s, e # audit w)\<rparr>)"
proof -
  have grow: "set (audit w) \<subseteq> set (e # audit w)"
    by auto
  have "caches_ok env d (si_auth w) (e # audit w)"
    by (rule caches_ok_mono [OF _ grow]) (use assms(1) in \<open>simp add: visiting_def\<close>)
  moreover have "history_ok env d (e # audit w)"
    using assms by (auto simp: visiting_def history_ok_def list_all_iff intro: change_justified_mono [OF _ grow])
  moreover have "\<forall>e' \<in> E. known env d r hi e' (e # audit w)"
    using assms(1) by (auto simp: visiting_def intro: known_mono [OF _ grow])
  ultimately show ?thesis
    using assms(1) by (simp add: visiting_def audit_def)
qed

lemma visiting_quiet: "visiting env d r hi E w \<Longrightarrow> visiting env d r hi E (w\<lparr>si_collector := (s, audit w)\<rparr>)"
  by (simp add: visiting_def audit_def)

lemma triple_clock:
  "triple (visiting env d r hi E) clock_Now (\<lambda>x w. visiting env d r hi E w \<and> x = Inr (si_now w))"
  by (auto simp: triple_def clock_Now_def visiting_def audit_def split: list.splits)

text \<open>A call that makes no change.\<close>

definition no_change :: "event \<Rightarrow> bool" where
  "no_change e = (case e of Changed _ _ \<Rightarrow> False | _ \<Rightarrow> True)"

lemma no_change_justified: "no_change e \<Longrightarrow> change_justified env x l e"
  by (simp add: no_change_def change_justified_def split: event.splits)

lemma triple_noted:
  fixes m :: "time \<Rightarrow> ('a, 's) act"
  assumes "\<And>(w :: ('s \<times> event list) site) x e. visiting env d r hi E w \<Longrightarrow> ev (si_now w) x = Some e \<Longrightarrow> change_justified env (2 * d) (e # audit w) e"
  shows "triple (visiting env d r hi E) (call (\<lambda>t. noted (ev t) (m t)))
    (\<lambda>x w. visiting env d r hi E w \<and> set_option (ev (si_now w) x) \<subseteq> set (audit w))"
  unfolding call_def
proof (rule triple_bindE [OF triple_clock])
  fix t
  show "triple (\<lambda>w. visiting env d r hi E w \<and> Inr t = Inr (si_now w)) (on_collector (noted (ev t) (m t)))
      (\<lambda>x w. visiting env d r hi E w \<and> set_option (ev (si_now w) x) \<subseteq> set (audit w))"
    unfolding triple_def
  proof (intro allI impI, elim conjE)
    fix w :: "('s \<times> event list) site" assume w: "visiting env d r hi E w" and t: "Inr t = Inr (si_now w)"
    obtain x s where m: "m t (fst (si_collector w)) = (x, s)"
      by fastforce
    show "visiting env d r hi E (snd (on_collector (noted (ev t) (m t)) w)) \<and>
        set_option (ev (si_now (snd (on_collector (noted (ev t) (m t)) w))) (fst (on_collector (noted (ev t) (m t)) w)))
          \<subseteq> set (audit (snd (on_collector (noted (ev t) (m t)) w)))"
    proof (cases "ev t x")
      case None
      with m t visiting_quiet [OF w, of s] show ?thesis
        by (simp add: on_collector_def noted_def audit_def)
    next
      case (Some e)
      with assms [OF w, of x e] t have "change_justified env (2 * d) (e # audit w) e"
        by simp
      from visiting_note [OF w this, of s] m t Some show ?thesis
        by (simp add: on_collector_def noted_def audit_def)
    qed
  qed
qed simp

lemma triple_calm:
  assumes "\<And>t x e. ev t x = Some e \<Longrightarrow> no_change e"
  shows "triple (visiting env d r hi E) (call (\<lambda>t. noted (ev t) (m t)))
    (\<lambda>x w. visiting env d r hi E w \<and> set_option (ev (si_now w) x) \<subseteq> set (audit w))"
  by (rule triple_noted) (use assms no_change_justified in blast)

section \<open>Sessions\<close>

lemma triple_change_auth:
  assumes "\<And>w. P w \<Longrightarrow> Q (w\<lparr>si_auth := f (si_auth w)\<rparr>)"
  shows "triple P (change_auth f) (\<lambda>_. Q)"
  using assms by (simp add: triple_def change_auth_def)

lemma visiting_auth:
  assumes "visiting env d r hi E w" and "caches_ok env d a (audit w)"
  shows "visiting env d r hi E (w\<lparr>si_auth := a\<rparr>)"
  using assms by (simp add: visiting_def audit_def)

lemma triple_cache_session:
  "triple (visiting env d r hi E) (cache_session (ev_sha256 env (cookie_value r)))
     (\<lambda>x w. case x of Inr (Some us) \<Rightarrow> visiting env d r hi (insert (Some us) E) w | _ \<Rightarrow> visiting env d r hi E w)"
  unfolding cache_session_def
proof (rule triple_bindE [OF triple_clock])
  let ?key = "ev_sha256 env (cookie_value r)"
  fix t
  have "visiting env d r hi (insert (Some (cs_session c)) E) w"
    if w: "visiting env d r hi E w" "au_sessions (si_auth w) ?key = Some c" "\<not> cs_until c < si_now w" for c and w :: "('a \<times> event list) site"
  proof -
    have cached: "accepted env d ?key (cs_session c) (cs_until c) (audit w)" and now: "hi - d \<le> si_now w"
      using w by (auto simp: visiting_def caches_ok_def)
    have "accepted env (2 * d) ?key (cs_session c) hi (audit w)"
      by (rule accepted_mono [OF cached]) (use now w(3) in auto)
    with w(1) show ?thesis
      by (simp add: visiting_def known_def)
  qed
  then show "triple (\<lambda>w. visiting env d r hi E w \<and> Inr t = Inr (si_now w))
     (\<lambda>w. (Inr (case au_sessions (si_auth w) ?key of None \<Rightarrow> None
        | Some cached \<Rightarrow> if t > cs_until cached then None else Some (cs_session cached)), w))
     (\<lambda>x w. case x of Inr (Some us) \<Rightarrow> visiting env d r hi (insert (Some us) E) w | _ \<Rightarrow> visiting env d r hi E (w :: ('a \<times> event list) site))"
    by (auto simp: triple_def split: option.splits)
qed simp

lemma accepted_fresh:
  assumes "Checked tc token info \<in> set l" and "t \<le> tc + x"
  shows "accepted env x (ev_sha256 env token) \<lparr>us_user = sn_User info, us_role = sn_Role info\<rparr> t l"
proof -
  have "t \<le> min (tc + Minute) (max tc (time_Unix (sn_Expires info))) + x"
    using assms(2) by (auto simp: min_def max_def Minute_def Second_def)
  with assms(1) show ?thesis
    unfolding accepted_def by blast
qed

lemma accepted_kept:
  assumes "Checked tc token info \<in> set l" and "tk \<le> tc + d" and "t \<le> tk + Minute" and "t \<le> time_Unix (sn_Expires info)" and "0 \<le> d"
  shows "accepted env d (ev_sha256 env token) \<lparr>us_user = sn_User info, us_role = sn_Role info\<rparr> t l"
proof -
  have "t \<le> min (tc + Minute) (max tc (time_Unix (sn_Expires info))) + d"
    using assms(2-5) by (auto simp: min_def max_def)
  with assms(1) show ?thesis
    unfolding accepted_def by blast
qed

text \<open>A session just checked is kept for a minute, or until it expires.\<close>

definition just_checked :: "time \<Rightarrow> string \<Rightarrow> SessionInfo \<Rightarrow> event list \<Rightarrow> bool" where
  "just_checked since token info l \<longleftrightarrow> (\<exists>tc. since \<le> tc \<and> Checked tc token info \<in> set l)"

lemma visiting_keep:
  assumes w: "visiting env d r hi E w" and "just_checked (hi - d) token info (audit w)"
    and til: "til \<le> si_now w + Minute" "til \<le> time_Unix (sn_Expires info)"
  shows "visiting env d r hi E (w\<lparr>si_auth := (si_auth w)\<lparr>au_sessions := (au_sessions (si_auth w))(ev_sha256 env token \<mapsto>
    \<lparr>cs_session = \<lparr>us_user = sn_User info, us_role = sn_Role info\<rparr>, cs_until = til\<rparr>)\<rparr>\<rparr>)"
proof -
  obtain tc where tc: "hi - d \<le> tc" "Checked tc token info \<in> set (audit w)"
    using assms(2) by (auto simp: just_checked_def)
  have "accepted env d (ev_sha256 env token) \<lparr>us_user = sn_User info, us_role = sn_Role info\<rparr> til (audit w)"
    by (rule accepted_kept [OF tc(2), where tk = "si_now w"]) (use tc(1) w til in \<open>auto simp: visiting_def\<close>)
  with w show ?thesis
    by (intro visiting_auth) (auto simp: visiting_def caches_ok_def)
qed

lemma triple_keepSession:
  "triple (\<lambda>w. visiting env d r hi E w \<and> just_checked (hi - d) token info (audit w))
     (keepSession (ev_sha256 env token) \<lparr>us_user = sn_User info, us_role = sn_Role info\<rparr> (time_Unix (sn_Expires info)))
     (\<lambda>_. visiting env d r hi E)"
  unfolding keepSession_def
proof (rule triple_bindE)
  show "triple (\<lambda>w. visiting env d r hi E w \<and> just_checked (hi - d) token info (audit w)) clock_Now
      (\<lambda>x w. visiting env d r hi E w \<and> just_checked (hi - d) token info (audit w) \<and> x = Inr (si_now w))"
    by (auto simp: triple_def clock_Now_def visiting_def audit_def split: list.splits)
qed (auto simp: Let_def sessionCacheTTL_def intro!: triple_change_auth visiting_keep)

lemma triple_keep_checked:
  assumes "token = cookie_value r"
  shows "triple (\<lambda>w. visiting env d r hi E w \<and> just_checked (hi - d) token info (audit w))
     (let session = \<lparr>us_user = sn_User info, us_role = sn_Role info\<rparr> in
      bindE (keepSession (ev_sha256 env token) session (time_Unix (sn_Expires info))) (\<lambda>_. ret session))
     (\<lambda>x w. case x of Inr us \<Rightarrow> visiting env d r hi (insert (Some us) E) w | Inl _ \<Rightarrow> visiting env d r hi E w)"
proof -
  let ?us = "\<lparr>us_user = sn_User info, us_role = sn_Role info\<rparr>"
  have grow: "visiting env d r hi (insert (Some ?us) E) w"
    if "visiting env d r hi E w" "just_checked (hi - d) token info (audit w)" for w :: "('a \<times> event list) site"
  proof -
    from that(2) obtain tc where tc: "hi - d \<le> tc" "Checked tc token info \<in> set (audit w)"
      by (auto simp: just_checked_def)
    have "accepted env (2 * d) (ev_sha256 env token) ?us hi (audit w)"
      by (rule accepted_fresh [OF tc(2)]) (use tc(1) that(1) in \<open>auto simp: visiting_def\<close>)
    with that(1) assms show ?thesis
      by (simp add: visiting_def known_def)
  qed
  show ?thesis
    unfolding Let_def
    by (rule triple_bindE, rule triple_weaken [OF triple_keepSession [where E = "insert (Some ?us) E"], where Q' = "\<lambda>_. visiting env d r hi (insert (Some ?us) E)"])
      (auto intro: grow visiting_fewer)
qed

lemma triple_checkSession:
  "triple (visiting env d r hi E) (call (\<lambda>t. rc_CheckSession (recorded rpc) t token))
     (\<lambda>x w. visiting env d r hi E w \<and> (case x of Inl _ \<Rightarrow> True | Inr info \<Rightarrow> just_checked (hi - d) token info (audit w)))"
proof -
  have "triple (visiting env d r hi E) (call (\<lambda>t. noted (on_success (Checked t token)) (rc_CheckSession rpc t token)))
      (\<lambda>x w. visiting env d r hi E w \<and> set_option (on_success (Checked (si_now w) token) x) \<subseteq> set (audit w))"
    by (rule triple_calm) (auto simp: on_success_def no_change_def split: sum.splits)
  then show ?thesis
    unfolding recorded_def rpc.simps
    by (rule triple_weaken) (auto simp: on_success_def just_checked_def visiting_def split: sum.splits)
qed

lemma triple_sessionOf:
  "triple (visiting env d r hi E) (sessionOf env (recorded rpc) r)
     (\<lambda>x w. case x of Inr us \<Rightarrow> visiting env d r hi (insert (Some us) E) w | Inl _ \<Rightarrow> visiting env d r hi E w)"
proof -
  have "triple (visiting env d r hi E) (askSession (recorded rpc) (ev_sha256 env (cookie_value r)) (cookie_value r))
     (\<lambda>x w. case x of Inr us \<Rightarrow> visiting env d r hi (insert (Some us) E) w | Inl _ \<Rightarrow> visiting env d r hi E w)"
    unfolding askSession_def by (rule triple_catch [OF triple_checkSession]) (auto intro: triple_keep_checked)
  then show ?thesis
    unfolding sessionOf_def Let_def
    by (auto intro!: triple_bindE [OF triple_cache_session] split: option.splits)
qed

lemma triple_cache_password:
  assumes "rq_basic r = Some (user, password)"
  shows "triple (visiting env d r hi E) (cache_password (ev_sha256 env (user @ [CHR 0x00] @ password)))
     (\<lambda>x w. visiting env d r hi (if x = Inr True then insert None E else E) w)"
  unfolding cache_password_def
proof (rule triple_bindE [OF triple_clock])
  let ?key = "ev_sha256 env (user @ [CHR 0x00] @ password)"
  fix t
  have "visiting env d r hi (insert None E) w"
    if w: "visiting env d r hi E w" "au_passwords (si_auth w) ?key = Some since" "time_sub (si_now w) since < passwordCacheTTL"
    for since and w :: "('a \<times> event list) site"
  proof -
    have known: "password_accepted env d ?key since (audit w)" and now: "hi - d \<le> si_now w"
      using w by (auto simp: visiting_def caches_ok_def)
    have "si_now w - since < 5 * Minute"
      using w(3) by (auto simp: time_sub_def passwordCacheTTL_def Minute_def Second_def split: if_splits)
    then have "password_accepted env (5 * Minute + 2 * d) ?key hi (audit w)"
      by (intro password_accepted_mono [OF known]) (use now in auto)
    with w(1) assms show ?thesis
      by (simp add: visiting_def known_def)
  qed
  then show "triple (\<lambda>w. visiting env d r hi E w \<and> Inr t = Inr (si_now w))
     (\<lambda>w. (Inr (case au_passwords (si_auth w) ?key of None \<Rightarrow> False | Some since \<Rightarrow> time_sub t since < passwordCacheTTL), w))
     (\<lambda>x w. visiting env d r hi (if x = Inr True then insert None E else E) (w :: ('a \<times> event list) site))"
    by (auto simp: triple_def split: option.splits)
qed simp

lemma triple_keepPassword:
  "triple (\<lambda>w :: ('s \<times> event list) site. visiting env d r hi E w \<and> (\<exists>tc. hi - d \<le> tc \<and> PasswordOk tc user password \<in> set (audit w)))
     (keepPassword (ev_sha256 env (user @ [CHR 0x00] @ password))) (\<lambda>_. visiting env d r hi E)"
  unfolding keepPassword_def
proof (rule triple_bindE)
  let ?P = "\<lambda>w :: ('s \<times> event list) site. visiting env d r hi E w \<and> (\<exists>tc. hi - d \<le> tc \<and> PasswordOk tc user password \<in> set (audit w))"
  show "triple ?P clock_Now (\<lambda>x w. ?P w \<and> x = Inr (si_now w))"
    by (auto simp: triple_def clock_Now_def visiting_def audit_def split: list.splits)
  fix t
  have "visiting env d r hi E (w\<lparr>si_auth := (si_auth w)\<lparr>au_passwords := (au_passwords (si_auth w))(ev_sha256 env (user @ [CHR 0x00] @ password) \<mapsto> si_now w)\<rparr>\<rparr>)"
    if w: "visiting env d r hi E w" and tc: "hi - d \<le> tc" "PasswordOk tc user password \<in> set (audit w)" for w :: "('s \<times> event list) site" and tc
  proof -
    have "password_accepted env d (ev_sha256 env (user @ [CHR 0x00] @ password)) (si_now w) (audit w)"
      unfolding password_accepted_def using w tc by (intro exI [of _ tc] exI [of _ user] exI [of _ password]) (auto simp: visiting_def)
    with w show ?thesis
      by (intro visiting_auth) (auto simp: visiting_def caches_ok_def)
  qed
  then show "triple (\<lambda>w. ?P w \<and> Inr t = Inr (si_now w))
      (change_auth (\<lambda>a. a\<lparr>au_passwords := (au_passwords a)(ev_sha256 env (user @ [CHR 0x00] @ password) \<mapsto> t)\<rparr>)) (\<lambda>_. visiting env d r hi E)"
    by (auto intro!: triple_change_auth)
qed simp

lemma triple_checkPassword:
  fixes rpc :: "('s, 'q) rpc"
  assumes "rq_basic r = Some (user, password)"
  shows "triple (visiting env d r hi E) (web_checkPassword env (recorded rpc) user password)
     (\<lambda>x w. visiting env d r hi (if x = Inr () then insert None E else E) w)"
proof -
  let ?P = "\<lambda>E' (w :: ('s \<times> event list) site). visiting env d r hi E' w \<and> (\<exists>tc. hi - d \<le> tc \<and> PasswordOk tc user password \<in> set (audit w))"
  have grow: "?P (insert None E) w" if "?P E w" for w :: "('s \<times> event list) site"
  proof -
    from that obtain tc where w: "visiting env d r hi E w" and tc: "hi - d \<le> tc" "PasswordOk tc user password \<in> set (audit w)"
      by auto
    have "password_accepted env (5 * Minute + 2 * d) (ev_sha256 env (user @ [CHR 0x00] @ password)) hi (audit w)"
      unfolding password_accepted_def using w tc
      by (intro exI [of _ tc] exI [of _ user] exI [of _ password]) (auto simp: visiting_def Minute_def Second_def)
    with that assms show ?thesis
      by (simp add: visiting_def known_def)
  qed
  have "triple (visiting env d r hi E) (call (\<lambda>t. noted (on_success (\<lambda>_. PasswordOk t user password)) (rc_CheckPassword rpc t user password)))
      (\<lambda>x w. visiting env d r hi E w \<and> set_option (on_success (\<lambda>_. PasswordOk (si_now w) user password) x) \<subseteq> set (audit w))"
    by (rule triple_calm) (auto simp: on_success_def no_change_def split: sum.splits)
  then have "triple (visiting env d r hi E) (call (\<lambda>t. rc_CheckPassword (recorded rpc) t user password))
      (\<lambda>x w. case x of Inl _ \<Rightarrow> visiting env d r hi E w | Inr _ \<Rightarrow> ?P (insert None E) w)"
    unfolding recorded_def rpc.simps
  proof (rule triple_weaken)
    fix x :: "unit result" and w :: "('s \<times> event list) site"
    assume w: "visiting env d r hi E w \<and> set_option (on_success (\<lambda>_. PasswordOk (si_now w) user password) x) \<subseteq> set (audit w)"
    show "case x of Inl _ \<Rightarrow> visiting env d r hi E w | Inr _ \<Rightarrow> ?P (insert None E) w"
    proof (cases x)
      case (Inr a)
      with w have "?P E w"
        by (auto simp: on_success_def visiting_def)
      from grow [OF this] Inr show ?thesis
        by simp
    qed (use w in simp)
  qed
  then have "triple (visiting env d r hi E) (bindE (call (\<lambda>t. rc_CheckPassword (recorded rpc) t user password))
        (\<lambda>_. keepPassword (ev_sha256 env (user @ [CHR 0x00] @ password))))
      (\<lambda>x w. visiting env d r hi (if x = Inr () then insert None E else E) w)"
    by (rule triple_bindE)
      (auto intro!: triple_weaken [OF triple_keepPassword [of env d r hi "insert None E" user password, simplified]] elim: visiting_fewer)
  then show ?thesis
    unfolding web_checkPassword_def Let_def
    by - (rule triple_bindE [OF triple_cache_password [OF assms]], auto elim: visiting_fewer)
qed

section \<open>Handlers\<close>

text \<open>An answer shows no more than what is known of the request allows.\<close>

definition shown :: "'q env \<Rightarrow> userSession option set \<Rightarrow> 'q response \<Rightarrow> bool" where
  "shown env E resp \<longleftrightarrow>
     (private_body (rs_body resp) \<longrightarrow> (\<exists>us. Some us \<in> E)) \<and>
     (secret_body (rs_body resp) \<longrightarrow> (\<exists>us. Some us \<in> E \<and> us_role us = ''admin'')) \<and>
     (metrics_body (rs_body resp) \<longrightarrow> E \<noteq> {} \<or> \<not> ev_metricsAuth env)"

definition serves :: "'q env \<Rightarrow> duration \<Rightarrow> request \<Rightarrow> time \<Rightarrow> userSession option set \<Rightarrow> ('s \<times> event list, 'q) handler \<Rightarrow> bool" where
  "serves env d r hi E h \<longleftrightarrow> triple (visiting env d r hi E) h (\<lambda>x w. \<exists>E' resp. x = Inr resp \<and> visiting env d r hi E' w \<and> shown env E' resp)"

named_theorems serving \<open>rules for the parts of handlers\<close>

lemma serves_more: "serves env d r hi E h \<Longrightarrow> E \<subseteq> E' \<Longrightarrow> serves env d r hi E' h"
  unfolding serves_def by (erule triple_weaken) (auto elim: visiting_fewer)

lemma serves_ret [serving]: "shown env E resp \<Longrightarrow> serves env d r hi E (ret resp)"
  unfolding serves_def by auto

lemma serves_if [serving]: "(b \<Longrightarrow> serves env d r hi E h) \<Longrightarrow> (\<not> b \<Longrightarrow> serves env d r hi E h') \<Longrightarrow> serves env d r hi E (if b then h else h')"
  by simp

lemma shown_error [simp]: "shown env E (writeError code msg)"
  by (simp add: shown_def writeError_def reply_def)

lemma shown_grpc_error [simp]: "shown env E (writeGRPCError f e)"
  by (simp add: writeGRPCError_def Let_def)

lemma shown_object [simp]: "shown env E (reply code (BObject x))" "shown env E (writeJSON (BObject x))" "shown env E (reply code (BText msg))"
  by (simp_all add: shown_def writeJSON_def reply_def)

text \<open>A part that leaves what is known of the request as it is.\<close>

definition steady :: "'q env \<Rightarrow> duration \<Rightarrow> request \<Rightarrow> time \<Rightarrow> ('a, ('s \<times> event list) site) act \<Rightarrow> bool" where
  "steady env d r hi m \<longleftrightarrow> (\<forall>E. triple (visiting env d r hi E) m (\<lambda>_. visiting env d r hi E))"

lemma steady_triple: "steady env d r hi m \<Longrightarrow> triple (visiting env d r hi E) m (\<lambda>_. visiting env d r hi E)"
  by (simp add: steady_def)

lemma steady_ret [serving]: "steady env d r hi (ret a)"
  by (simp add: steady_def)

lemma steady_fail [serving]: "steady env d r hi (fail e)"
  by (simp add: steady_def)

lemma steady_if [serving]: "steady env d r hi m \<Longrightarrow> steady env d r hi m' \<Longrightarrow> steady env d r hi (if b then m else m')"
  by simp

lemma steady_clock [serving]: "steady env d r hi clock_Now"
  unfolding steady_def by (auto intro: triple_weaken [OF triple_clock])

lemma steady_bindE [serving]: "steady env d r hi m \<Longrightarrow> (\<And>a. steady env d r hi (k a)) \<Longrightarrow> steady env d r hi (bindE m k)"
  unfolding steady_def by (blast intro: triple_bindE)

lemma steady_catch [serving]:
  "steady env d r hi m \<Longrightarrow> (\<And>e. steady env d r hi (f e)) \<Longrightarrow> (\<And>a. steady env d r hi (k a)) \<Longrightarrow> steady env d r hi (catch m f k)"
  unfolding steady_def by (blast intro: triple_catch)

lemma steady_noted:
  assumes "\<And>t x e. ev t x = Some e \<Longrightarrow> no_change e"
  shows "steady env d r hi (call (\<lambda>t. noted (ev t) (m t)))"
  unfolding steady_def by (intro allI triple_weaken [OF triple_calm [of ev, OF assms]]) auto

lemma steady_unnoted: "steady env d r hi (call (\<lambda>t. unnoted (m t)))"
  unfolding unnoted_def by (rule steady_noted) simp

text \<open>The calls of the recorded client.\<close>

lemma steady_calls [serving]:
  "steady env d r hi (call (\<lambda>t. rc_HasUsers (recorded rpc)))"
  "steady env d r hi (call (\<lambda>t. rc_Login (recorded rpc) t user password))"
  "steady env d r hi (call (\<lambda>t. rc_ChangePassword (recorded rpc) t token password new))"
  "steady env d r hi (call (\<lambda>t. rc_Logout (recorded rpc) t token))"
  "steady env d r hi (call (\<lambda>t. rc_Version (recorded rpc)))"
  "steady env d r hi (call (\<lambda>t. rc_Query (recorded rpc) t q))"
  "steady env d r hi (call (\<lambda>t. rc_AlertRules (recorded rpc)))"
  "steady env d r hi (call (\<lambda>t. rc_NotificationChannels (recorded rpc)))"
  "steady env d r hi (call (\<lambda>t. rc_RecentNotifications (recorded rpc) limit))"
  "steady env d r hi (call (\<lambda>t. rc_HostTasks (recorded rpc) host))"
  "steady env d r hi (call (\<lambda>t. rc_TaskRuns (recorded rpc) host limit))"
  "steady env d r hi (call (\<lambda>t. rc_TaskRun (recorded rpc) i))"
  by (auto simp: recorded_def no_change_def intro!: steady_unnoted steady_noted)

lemma serves_attempt [serving]:
  "steady env d r hi m \<Longrightarrow> (\<And>e. shown env E (err e)) \<Longrightarrow> (\<And>a. serves env d r hi E (k a)) \<Longrightarrow> serves env d r hi E (attempt m err k)"
  unfolding serves_def attempt_def by (rule triple_catch [OF steady_triple]) auto

lemma serves_bindE [serving]:
  assumes "steady env d r hi m" and "\<And>a. serves env d r hi E (k a)" and "\<And>w e. fst (m w) \<noteq> Inl e"
  shows "serves env d r hi E (bindE m k)"
proof -
  have "triple (visiting env d r hi E) m (\<lambda>x w. visiting env d r hi E w \<and> (\<forall>e. x \<noteq> Inl e))"
    using assms(1, 3) by (simp add: steady_def triple_def)
  with assms(2) show ?thesis
    unfolding serves_def by (blast intro: triple_bindE triple_weaken)
qed

lemma serves_catch:
  "steady env d r hi m \<Longrightarrow> (\<And>e. serves env d r hi E (f e)) \<Longrightarrow> (\<And>a. serves env d r hi E (k a)) \<Longrightarrow> serves env d r hi E (catch m f k)"
  unfolding serves_def by (rule triple_catch [OF steady_triple]) auto

lemma serves_ask [serving]:
  "steady env d r hi (call m) \<Longrightarrow> (\<And>a. serves env d r hi E (k a)) \<Longrightarrow> serves env d r hi E (ask env m k)"
  unfolding ask_def by (rule serves_attempt) simp_all

lemma serves_with_json [serving]: "(jsonBody r \<Longrightarrow> serves env d r hi E h) \<Longrightarrow> serves env d r hi E (with_json r msg h)"
  unfolding with_json_def by (auto intro: serving)

lemma serves_with_id [serving]: "(\<And>i. serves env d r hi E (k i)) \<Longrightarrow> serves env d r hi E (with_id value missing k)"
  unfolding with_id_def by (auto intro: serving split: prod.splits)

lemma serves_channelID [serving]: "(\<And>i. serves env d r hi E (k i)) \<Longrightarrow> serves env d r hi E (channelID value k)"
  unfolding channelID_def by (rule serves_with_id)

lemma steady_timeRange [serving]: "steady env d r hi (timeRange a b)"
  unfolding timeRange_def by (intro serving)

lemma serves_with_range [serving]:
  "(\<And>from to. serves env d r hi E (k from to)) \<Longrightarrow> serves env d r hi E (with_range env r k)"
  unfolding with_range_def by (intro serving) (auto split: prod.splits)

text \<open>What a session adds.\<close>

lemma serves_session:
  assumes "\<And>e. serves env d r hi E (f e)" and "\<And>us. serves env d r hi (insert (Some us) E) (k us)"
  shows "serves env d r hi E (catch (sessionOf env (recorded rpc) r) f k)"
  using assms unfolding serves_def by (intro triple_catch [OF triple_sessionOf]) auto

lemma serves_login [serving]:
  assumes "\<And>us. serves env d r hi (insert (Some us) E) h"
  shows "serves env d r hi E (requireLogin env (recorded rpc) r h)"
  unfolding requireLogin_def attempt_def by (rule serves_session) (auto intro: serving assms)

lemma serves_admin [serving]:
  assumes "\<And>user. serves env d r hi (insert (Some \<lparr>us_user = user, us_role = ''admin''\<rparr>) E) h"
  shows "serves env d r hi E (requireAdmin env (recorded rpc) r h)"
proof -
  have "serves env d r hi (insert (Some us) E) h" if "us_role us = ''admin''" for us
    using assms [of "us_user us"] that by (cases us) simp
  then show ?thesis
    unfolding requireAdmin_def attempt_def by (intro serves_session serves_ret serves_if) auto
qed

lemma serves_isAdmin [serving]:
  assumes "serves env d r hi E (k False)" and "\<And>user. serves env d r hi (insert (Some \<lparr>us_user = user, us_role = ''admin''\<rparr>) E) (k True)"
  shows "serves env d r hi E (bindE (isAdmin env (recorded rpc) r) k)"
proof -
  have flat: "bindE (isAdmin env (recorded rpc) r) k =
      catch (sessionOf env (recorded rpc) r) (\<lambda>_. k False) (\<lambda>us. k (us_role us = ''admin''))"
    by (rule ext) (simp add: bindE_def isAdmin_def catch_def ret_def split: prod.splits sum.splits)
  have "serves env d r hi (insert (Some us) E) (k (us_role us = ''admin''))" for us
    using assms(2) [of "us_user us"] serves_more [OF assms(1)] by (cases "us_role us = ''admin''"; cases us) auto
  with assms(1) show ?thesis
    unfolding flat by (intro serves_session)
qed

section \<open>Changes\<close>

lemma change_known:
  assumes "visiting env d r hi E w" and admin: "Some \<lparr>us_user = user, us_role = ''admin''\<rparr> \<in> E"
    and who: "case who of None \<Rightarrow> True | Some name \<Rightarrow> name = [] \<or> (\<exists>role. Some \<lparr>us_user = name, us_role = role\<rparr> \<in> E)"
  shows "change_justified env (2 * d) (Changed (si_now w) who # audit w) (Changed (si_now w) who)"
proof -
  let ?key = "ev_sha256 env (cookie_value r)"
  have more: "accepted env (2 * d) ?key us (si_now w) (Changed (si_now w) who # audit w)" if "Some us \<in> E" for us
  proof -
    have "accepted env (2 * d) ?key us hi (audit w)" and "si_now w \<le> hi"
      using assms(1) that by (auto simp: visiting_def known_def)
    then show ?thesis
      by - (erule accepted_mono, auto)
  qed
  have "case who of None \<Rightarrow> True | Some name \<Rightarrow> name = [] \<or>
      (\<exists>role. accepted env (2 * d) ?key \<lparr>us_user = name, us_role = role\<rparr> (si_now w) (Changed (si_now w) who # audit w))"
    using who more by (cases who) auto
  with more [OF admin] show ?thesis
    unfolding change_justified_def by auto
qed

lemma serves_change:
  assumes "Some \<lparr>us_user = user, us_role = ''admin''\<rparr> \<in> E"
    and "case who of None \<Rightarrow> True | Some name \<Rightarrow> name = [] \<or> (\<exists>role. Some \<lparr>us_user = name, us_role = role\<rparr> \<in> E)"
    and k: "\<And>a. serves env d r hi E (k a)"
  shows "serves env d r hi E (ask env (\<lambda>t. changing t who (m t)) k)"
proof -
  have "triple (visiting env d r hi E) (call (\<lambda>t. changing t who (m t))) (\<lambda>_. visiting env d r hi E)"
    unfolding changing_def by (rule triple_weaken [OF triple_noted]) (auto intro: change_known [OF _ assms(1, 2)])
  with k show ?thesis
    unfolding serves_def ask_def attempt_def by (intro triple_catch [OF _ k [unfolded serves_def]]) auto
qed

text \<open>A change recorded under the user of the session as it is looked up once more.\<close>

lemma serves_user_change:
  assumes admin: "Some \<lparr>us_user = user, us_role = ''admin''\<rparr> \<in> E" and k: "\<And>a. serves env d r hi E (k a)"
  shows "serves env d r hi E (bindE (session_user env (recorded rpc) r) (\<lambda>who. ask env (\<lambda>t. changing t (Some who) (m who t)) k))"
proof -
  let ?k = "\<lambda>who. ask env (\<lambda>t. changing t (Some who) (m who t)) k"
  have flat: "bindE (session_user env (recorded rpc) r) ?k = catch (sessionOf env (recorded rpc) r) (\<lambda>_. ?k []) (\<lambda>us. ?k (us_user us))"
    by (rule ext) (simp add: bindE_def session_user_def catch_def ret_def split: prod.splits sum.splits)
  have "serves env d r hi (insert (Some us) E) (?k (us_user us))" for us
  proof (rule serves_change)
    show "case Some (us_user us) of None \<Rightarrow> True | Some name \<Rightarrow> name = [] \<or> (\<exists>role. Some \<lparr>us_user = name, us_role = role\<rparr> \<in> insert (Some us) E)"
      by (auto intro: exI [of _ "us_role us"])
  qed (auto intro: admin serves_more [OF k])
  moreover have "serves env d r hi E (?k [])"
    by (rule serves_change [OF admin]) (simp_all add: k)
  ultimately show ?thesis
    unfolding flat by (intro serves_session)
qed

lemma recorded_changes:
  "rc_SaveRule (recorded rpc) t req = changing t (Some (sr_By req)) (rc_SaveRule rpc t req)"
  "rc_DeleteRule (recorded rpc) t i who = changing t (Some who) (rc_DeleteRule rpc t i who)"
  "rc_SaveChannel (recorded rpc) t req' = changing t (Some (sc_By req')) (rc_SaveChannel rpc t req')"
  "rc_DeleteChannel (recorded rpc) t i who = changing t (Some who) (rc_DeleteChannel rpc t i who)"
  "rc_TestChannel (recorded rpc) t i who = changing t (Some who) (rc_TestChannel rpc t i who)"
  "rc_RequestTaskRun (recorded rpc) t host task who = changing t (Some who) (rc_RequestTaskRun rpc t host task who)"
  "rc_RequestAgentUpdate (recorded rpc) t hosts v url who = changing t (Some who) (rc_RequestAgentUpdate rpc t hosts v url who)"
  "rc_RemoveCluster (recorded rpc) t name = changing t None (rc_RemoveCluster rpc t name)"
  by (simp_all add: recorded_def)

lemma shown_admin [simp]: "Some \<lparr>us_user = user, us_role = ''admin''\<rparr> \<in> E \<Longrightarrow> shown env E (reply code b)"
  by (cases b) (auto simp: shown_def reply_def intro!: exI [of _ "\<lparr>us_user = user, us_role = ''admin''\<rparr>"])

lemma admin_handlers [serving]:
  assumes "Some \<lparr>us_user = user, us_role = ''admin''\<rparr> \<in> E"
  shows "serves env d r hi E (postRule env (recorded rpc) r)"
    and "serves env d r hi E (putRule env (recorded rpc) r value)"
    and "serves env d r hi E (web_deleteRule env (recorded rpc) r value)"
    and "serves env d r hi E (postAgentUpdate env (recorded rpc) r)"
    and "serves env d r hi E (postTaskRun env (recorded rpc) r host)"
    and "serves env d r hi E (getTaskRun env (recorded rpc) value)"
    and "serves env d r hi E (postChannel env (recorded rpc) r)"
    and "serves env d r hi E (putChannel env (recorded rpc) r value)"
    and "serves env d r hi E (web_deleteChannel env (recorded rpc) r value)"
    and "serves env d r hi E (testChannel env (recorded rpc) r value)"
    and "serves env d r hi E (deleteCluster env (recorded rpc) name)"
  unfolding postRule_def putRule_def web_saveRule_def web_deleteRule_def postAgentUpdate_def postTaskRun_def getTaskRun_def postChannel_def
    putChannel_def web_saveChannel_def web_deleteChannel_def testChannel_def deleteCluster_def recorded_changes writeJSON_def
    SaveRuleRequest.simps SaveChannelRequest.simps
  by (auto intro!: serving serves_user_change [OF assms] serves_change [OF assms] shown_admin [OF assms] split: sum.splits option.splits)

section \<open>Routes\<close>

lemma shown_private [simp]:
  assumes "Some us \<in> E" and "\<not> secret_body b" and "\<not> metrics_body b"
  shows "shown env E (reply code b)"
  using assms by (auto simp: shown_def reply_def)

lemma serves_pass_on [serving]: "Some us \<in> E \<Longrightarrow> serves env d r hi E (pass_on env (recorded rpc) q)"
  unfolding pass_on_def writeJSON_def by (auto intro!: serving)

lemma metrics_admin [simp]: "Some \<lparr>us_user = user, us_role = ''admin''\<rparr> \<in> E \<Longrightarrow> serves env d r hi E (ret (reply code b))"
  by (rule serves_ret) simp

text \<open>Without an admin's session there are no settings, secrets, errors, commands and output.\<close>

lemma viewer_bodies [simp]:
  "\<not> secret_body (BChannels (map (\<lambda>info. toChannel info False) infos))"
  "\<not> secret_body (BNotifications (map (\<lambda>n. n\<lparr>ni_LastError := []\<rparr>) ns))"
  "\<not> secret_body (BTasks (map (\<lambda>task. toHostTask task False) tasks))"
  "\<not> secret_body (BRuns (map (\<lambda>run. toTaskRun run False) runs))"
  by (auto simp: list_ex_iff toChannel_def toHostTask_def toTaskRun_def)

lemma steady_change_auth:
  assumes "\<And>a l. caches_ok env d a l \<Longrightarrow> caches_ok env d (f a) l"
  shows "steady env d r hi (change_auth f)"
  unfolding steady_def by (intro allI triple_change_auth visiting_auth) (auto simp: visiting_def intro: assms)

lemma steady_forget [serving]:
  "steady env d r hi (forgetSession key)" "steady env d r hi (forgetUser user key)"
  unfolding forgetSession_def forgetUser_def
  by (rule steady_change_auth; fastforce simp: caches_ok_def map_delete_def split: option.splits if_splits)+

lemma forgetUser_returns [simp]: "fst (forgetUser user key w) = Inr ()"
  by (simp add: forgetUser_def change_auth_def)

lemma data_handlers [serving]:
  assumes "Some us \<in> E"
  shows "serves env d r hi E (getConfig env (recorded rpc))"
    and "serves env d r hi E (getFleet env (recorded rpc))"
    and "serves env d r hi E (getHost env (recorded rpc) host)"
    and "serves env d r hi E (getSeries env (recorded rpc) r host)"
    and "serves env d r hi E (getProcesses env (recorded rpc) r host)"
    and "serves env d r hi E (getProcessUsage env (recorded rpc) r host)"
    and "serves env d r hi E (getCustomMetrics env (recorded rpc) host)"
    and "serves env d r hi E (getDiskForecasts env (recorded rpc) host)"
    and "serves env d r hi E (getEndpoints env (recorded rpc) r)"
    and "serves env d r hi E (getEndpointSeries env (recorded rpc) r)"
    and "serves env d r hi E (getAlerts env (recorded rpc) r)"
    and "serves env d r hi E (getClusters env (recorded rpc))"
    and "serves env d r hi E (getCluster env (recorded rpc) host)"
    and "serves env d r hi E (getClusterSeries env (recorded rpc) r host)"
    and "serves env d r hi E (getRules env (recorded rpc))"
  unfolding getConfig_def getFleet_def getHost_def getSeries_def getProcesses_def getProcessUsage_def getCustomMetrics_def getDiskForecasts_def
    getEndpoints_def getEndpointSeries_def getAlerts_def getClusters_def getCluster_def getClusterSeries_def getRules_def writeJSON_def Let_def
  by (auto intro!: serving serves_pass_on [OF assms] shown_private [OF assms] simp: catch_def ret_def split: prod.splits sum.splits)

lemma serves_by_role:
  assumes "Some us \<in> E" and "\<not> secret_body (f False)" and "\<And>admin. \<not> metrics_body (f admin)"
  shows "serves env d r hi E (bindE (isAdmin env (recorded rpc) r) (\<lambda>admin. ret (reply code (f admin))))"
proof (rule serves_isAdmin)
  show "serves env d r hi E (ret (reply code (f False)))"
    using assms(2, 3) by (intro serves_ret shown_private [OF assms(1)])
  show "serves env d r hi (insert (Some \<lparr>us_user = user, us_role = ''admin''\<rparr>) E) (ret (reply code (f True)))" for user
    by (intro serves_ret shown_admin [of user]) simp
qed

lemma role_handlers [serving]:
  assumes "Some us \<in> E"
  shows "serves env d r hi E (getChannels env (recorded rpc) r)"
    and "serves env d r hi E (getNotifications env (recorded rpc) r)"
    and "serves env d r hi E (getHostTasks env (recorded rpc) r host)"
    and "serves env d r hi E (getTaskRuns env (recorded rpc) r host)"
  unfolding getChannels_def getNotifications_def getHostTasks_def getTaskRuns_def writeJSON_def
  by (intro serving serves_by_role [OF assms]; simp del: secret_body.simps)+

lemma serves_attempt_session [serving]:
  assumes "\<And>e. shown env E (f e)" and "\<And>us. serves env d r hi (insert (Some us) E) (k us)"
  shows "serves env d r hi E (attempt (sessionOf env (recorded rpc) r) f k)"
  unfolding attempt_def using assms by (intro serves_session serves_ret)

lemma shown_cookie [simp]: "shown env E (resp\<lparr>rs_cookie := c\<rparr>) = shown env E resp"
  by (simp add: shown_def)

lemma login_handlers [serving]:
  "serves env d r hi E (postPassword env (recorded rpc) r)"
  "serves env d r hi E (postLogin env (recorded rpc) r)"
  "serves env d r hi E (postLogout env (recorded rpc) r)"
  "serves env d r hi E (getSession env (recorded rpc) r)"
  unfolding postPassword_def postLogin_def postLogout_def getSession_def who_body_def
  by (auto intro!: serving serves_session split: sum.splits prod.splits)

lemma serves_metrics [serving]: "serves env d r hi E (getMetrics env (recorded rpc) r)"
proof -
  define k where "k = (\<lambda>allowed. if \<not> allowed then ret (reply 401 (BText ''log in with a SyMon user''))
    else ask env (\<lambda>t. rc_Query (recorded rpc) t QSnapshots) (\<lambda>answer. ret (reply 200 (BMetrics (ev_metrics env answer)))))"
  have good: "serves env d r hi E' (k True)" if "E' \<noteq> {} \<or> \<not> ev_metricsAuth env" for E'
    using that unfolding k_def by (auto intro!: serving simp: shown_def reply_def)
  have bad: "serves env d r hi E' (k False)" for E'
    unfolding k_def by (auto intro!: serving)
  have basic: "serves env d r hi E (bindE (catch (web_checkPassword env (recorded rpc) user password) (\<lambda>_. ret False) (\<lambda>_. ret True)) k)"
    if "rq_basic r = Some (user, password)" for user password
  proof -
    have flat: "bindE (catch (web_checkPassword env (recorded rpc) user password) (\<lambda>_. ret False) (\<lambda>_. ret True)) k =
        catch (web_checkPassword env (recorded rpc) user password) (\<lambda>_. k False) (\<lambda>_. k True)"
      by (rule ext) (simp add: bindE_def catch_def ret_def split: prod.splits sum.splits)
    show ?thesis
      unfolding flat serves_def
      by (rule triple_catch [OF triple_checkPassword [OF that]])
        (use good [of "insert None E", unfolded serves_def] bad [unfolded serves_def] in auto)
  qed
  have flat: "bindE (metricsAllowed env (recorded rpc) r) k = (if \<not> ev_metricsAuth env then k True
      else catch (sessionOf env (recorded rpc) r)
        (\<lambda>_. case rq_basic r of None \<Rightarrow> k False
           | Some (user, password) \<Rightarrow> bindE (catch (web_checkPassword env (recorded rpc) user password) (\<lambda>_. ret False) (\<lambda>_. ret True)) k)
        (\<lambda>_. k True))"
    by (rule ext) (simp add: metricsAllowed_def bindE_def catch_def ret_def split: prod.splits sum.splits option.splits)
  have "serves env d r hi E (bindE (metricsAllowed env (recorded rpc) r) k)"
    unfolding flat by (intro serves_if serves_session; auto simp: good bad basic split: option.splits prod.splits)
  then show ?thesis
    unfolding getMetrics_def k_def by (auto intro: serving)
qed

lemma shown_public [simp]: "shown env E (reply code (BScript a b))" "shown env E (reply code (BFile a b))" "shown env E (reply code BIndex)"
  by (simp_all add: shown_def reply_def)

lemma public_handlers [serving]:
  "serves env d r hi E (getInstallScript env r)" "serves env d r hi E (getDownload env name)" "serves env d r hi E (app env path)"
  "serves env d r hi E no_endpoint"
  unfolding getInstallScript_def getDownload_def app_def no_endpoint_def Let_def by (auto intro!: serving)

lemma serves_data_routes:
  assumes "Some us \<in> E"
  shows "serves env d r hi E (data_routes env (recorded rpc) r path)"
proof -
  have "serves env d r hi E (get_routes env (recorded rpc) r p)" for p
    unfolding get_routes_def
    by (simp only: split: list.split) (intro allI impI conjI serves_if data_handlers [OF assms] role_handlers [OF assms] public_handlers serves_admin admin_handlers [OF insertI1])
  moreover have "serves env d r hi E (post_routes env (recorded rpc) r p)" for p
    unfolding post_routes_def
    by (simp only: split: list.split) (intro allI impI conjI serves_if login_handlers public_handlers serves_admin admin_handlers [OF insertI1])
  moreover have "serves env d r hi E (put_routes env (recorded rpc) r p)" for p
    unfolding put_routes_def
    by (simp only: split: list.split) (intro allI impI conjI serves_if public_handlers serves_admin admin_handlers [OF insertI1])
  moreover have "serves env d r hi E (delete_routes env (recorded rpc) r p)" for p
    unfolding delete_routes_def
    by (simp only: split: list.split) (intro allI impI conjI serves_if public_handlers serves_admin admin_handlers [OF insertI1])
  ultimately show ?thesis
    unfolding data_routes_def by (auto intro: public_handlers)
qed

lemma serves_routes: "serves env d r hi E (routes env (recorded rpc) r)"
  unfolding routes_def Let_def
  by (auto intro!: serves_if serves_login serves_data_routes serves_metrics login_handlers public_handlers serves_ret)

section \<open>The properties\<close>

lemma visiting_arrives:
  assumes "caches_ok env d (si_auth w) (audit w)" and "history_ok env d (audit w)" and "handled_within d t ts"
  shows "visiting env d r (t + d) {} (arrive t ts w)"
proof -
  have "list_all (\<lambda>u. u \<le> t + d) (t # ts)"
    using assms(3) by (auto simp: handled_within_def)
  with assms show ?thesis
    by (simp add: visiting_def arrive_def audit_def handled_within_def)
qed

lemma served:
  assumes "caches_ok env d (si_auth w) (audit w)" and "history_ok env d (audit w)" and "handled_within d t ts"
    and "routes env (recorded rpc) r (arrive t ts w) = (x, w')"
  obtains E resp where "x = Inr resp" "shown env E resp" "visiting env d r (t + d) E w'"
  using serves_routes [of env d r "t + d" "{}" rpc, unfolded serves_def triple_def, rule_format, OF visiting_arrives [OF assms(1-3)]] assms(4) that
  by auto

lemma site_invariant: "site_runs env rpc d w \<Longrightarrow> caches_ok env d (si_auth w) (audit w) \<and> history_ok env d (audit w)"
proof (induction rule: site_runs.induct)
  case (site_starts w)
  then show ?case
    by (simp add: caches_ok_def history_ok_def)
next
  case (site_serves w t ts r)
  obtain x w' where run: "routes env (recorded rpc) r (arrive t ts w) = (x, w')"
    by fastforce
  from site_serves.IH site_serves.hyps(3) run obtain E where "visiting env d r (t + d) E w'"
    by (blast elim: served)
  with run show ?case
    by (simp add: visiting_def)
next
  case (site_elsewhere w s)
  then show ?case
    by (simp add: audit_def)
qed



end
