(* ===== verification/WebWalk.thy ===== *)
theory WebWalk
  imports WebAccess
begin

text \<open>
  What a page of another site can make a browser send without asking first: a GET, or a POST whose body is not JSON. Such a request
  changes nothing at the collector.
\<close>

definition foreign :: "request \<Rightarrow> bool" where
  "foreign r \<longleftrightarrow> is_get r \<or> rq_method r = ''POST'' \<and> \<not> jsonBody r"

section \<open>Walking through the handlers\<close>

text \<open>
  A property of the server's state that reading the clock, changing the caches and the calls that only read all keep is kept by every request of
  another site's page; one that the changing calls keep too is kept by every request.
\<close>

lemma keeps_catch [intro]: "keeps P m \<Longrightarrow> (\<And>e. keeps P (f e)) \<Longrightarrow> (\<And>a. keeps P (k a)) \<Longrightarrow> keeps P (catch m f k)"
  unfolding keeps_def catch_def by (auto split: prod.splits sum.splits)

lemma keeps_branch: "(b \<Longrightarrow> keeps P m) \<Longrightarrow> (\<not> b \<Longrightarrow> keeps P m') \<Longrightarrow> keeps P (if b then m else m')"
  by simp

lemma keeps_attempt: "keeps P m \<Longrightarrow> (\<And>a. keeps P (k a)) \<Longrightarrow> keeps P (attempt m f k)"
  unfolding attempt_def by auto

lemma keeps_peek: "keeps P (\<lambda>w. (f w, w))"
  by (simp add: keeps_def)

named_theorems walking \<open>rules for the parts of handlers\<close>

lemmas [walking] = keeps_ret keeps_fail keeps_bindE keeps_catch keeps_branch keeps_attempt keeps_peek

lemma public_pages [walking]:
  "keeps P no_endpoint" "keeps P (getInstallScript env r)" "keeps P (getDownload env name)" "keeps P (app env path)"
  unfolding no_endpoint_def getInstallScript_def getDownload_def app_def Let_def by (auto intro!: walking)

locale walk =
  fixes env :: "'q env" and rpc :: "('s, 'q) rpc" and P :: "'s site \<Rightarrow> bool"
  assumes clock [walking]: "keeps P clock_Now"
    and auth [walking]: "keeps P (change_auth f)"
    and reads [walking]:
      "keeps P (call (\<lambda>t. rc_CheckSession rpc t token))"
      "keeps P (call (\<lambda>t. rc_CheckPassword rpc t user password))"
      "keeps P (call (\<lambda>t. rc_HasUsers rpc))"
      "keeps P (call (\<lambda>t. rc_Version rpc))"
      "keeps P (call (\<lambda>t. rc_Query rpc t q))"
      "keeps P (call (\<lambda>t. rc_AlertRules rpc))"
      "keeps P (call (\<lambda>t. rc_NotificationChannels rpc))"
      "keeps P (call (\<lambda>t. rc_RecentNotifications rpc limit))"
      "keeps P (call (\<lambda>t. rc_HostTasks rpc host))"
      "keeps P (call (\<lambda>t. rc_TaskRuns rpc host limit))"
      "keeps P (call (\<lambda>t. rc_TaskRun rpc i))"
begin

lemma walk_parts [walking]:
  "keeps P (cache_session key)" "keeps P (keepSession key us t)" "keeps P (cache_password key)" "keeps P (keepPassword key)"
  unfolding cache_session_def keepSession_def cache_password_def keepPassword_def Let_def
  by (auto intro!: walking)

lemma walk_sessions [walking]:
  "keeps P (sessionOf env rpc r)" "keeps P (isAdmin env rpc r)" "keeps P (web_checkPassword env rpc user password)"
  unfolding isAdmin_def sessionOf_def askSession_def web_checkPassword_def Let_def by (auto intro!: walking split: option.splits)

lemma walk_guards [walking]:
  "keeps P h \<Longrightarrow> keeps P (requireLogin env rpc r h)"
  "keeps P h \<Longrightarrow> keeps P (requireAdmin env rpc r h)"
  "(jsonBody r \<Longrightarrow> keeps P h) \<Longrightarrow> keeps P (with_json r msg h)"
  "(\<And>i. keeps P (k i)) \<Longrightarrow> keeps P (with_id value missing k)"
  "(\<And>i. keeps P (k i)) \<Longrightarrow> keeps P (channelID value k)"
  "(\<And>a b. keeps P (k' a b)) \<Longrightarrow> keeps P (with_range env r k')"
  "keeps P (call m) \<Longrightarrow> (\<And>a. keeps P (k'' a)) \<Longrightarrow> keeps P (ask env m k'')"
  unfolding requireLogin_def requireAdmin_def with_json_def with_id_def channelID_def with_range_def timeRange_def ask_def
  by (auto intro!: walking split: prod.splits)

lemma walk_metrics [walking]: "keeps P (getMetrics env rpc r)"
  unfolding getMetrics_def metricsAllowed_def by (auto intro!: walking split: option.splits)

lemma walk_getSession [walking]: "keeps P (getSession env rpc r)"
  unfolding getSession_def by (auto intro!: walking)

lemma walk_pass_on [walking]: "keeps P (pass_on env rpc q)"
  unfolding pass_on_def by (intro walking)

lemma walk_gets [walking]:
  "keeps P (getConfig env rpc)" "keeps P (getFleet env rpc)" "keeps P (getHost env rpc host)"
  "keeps P (getSeries env rpc r host)" "keeps P (getProcesses env rpc r host)" "keeps P (getProcessUsage env rpc r host)"
  "keeps P (getCustomMetrics env rpc host)" "keeps P (getDiskForecasts env rpc host)" "keeps P (getEndpoints env rpc r)"
  "keeps P (getEndpointSeries env rpc r)" "keeps P (getAlerts env rpc r)" "keeps P (getClusters env rpc)"
  "keeps P (getCluster env rpc host)" "keeps P (getClusterSeries env rpc r host)" "keeps P (getRules env rpc)"
  "keeps P (getChannels env rpc r)" "keeps P (getNotifications env rpc r)" "keeps P (getHostTasks env rpc r host)"
  "keeps P (getTaskRuns env rpc r host)" "keeps P (getTaskRun env rpc value)"
  unfolding getConfig_def getFleet_def getHost_def getSeries_def getProcesses_def getProcessUsage_def getCustomMetrics_def getDiskForecasts_def
    getEndpoints_def getEndpointSeries_def getAlerts_def getClusters_def getCluster_def getClusterSeries_def getRules_def getChannels_def
    getNotifications_def getHostTasks_def getTaskRuns_def getTaskRun_def Let_def
  by (intro walking)+

text \<open>Every handler of a POST asks for JSON before it does anything.\<close>

lemma walk_posts [walking]:
  assumes "\<not> jsonBody r"
  shows "keeps P (postLogin env rpc r)" "keeps P (postLogout env rpc r)" "keeps P (postPassword env rpc r)"
    "keeps P (postRule env rpc r)" "keeps P (postAgentUpdate env rpc r)" "keeps P (postChannel env rpc r)"
    "keeps P (postTaskRun env rpc r host)" "keeps P (testChannel env rpc r value)"
  unfolding postLogin_def postLogout_def postPassword_def postRule_def web_saveRule_def postAgentUpdate_def postChannel_def web_saveChannel_def
    postTaskRun_def testChannel_def
  using assms by (auto intro!: walking)

lemma foreign_routes:
  assumes "foreign r"
  shows "keeps P (routes env rpc r)"
proof -
  have gets: "keeps P (get_routes env rpc r p)" for p
    unfolding get_routes_def by (simp only: split: list.split) (intro allI impI conjI walking)
  have posts: "keeps P (post_routes env rpc r p)" if "\<not> jsonBody r" for p
    unfolding post_routes_def by (simp only: split: list.split) (intro allI impI conjI walking that)
  have data: "keeps P (data_routes env rpc r p)" for p
  proof (cases "is_get r")
    case True
    then show ?thesis
      unfolding data_routes_def by (simp add: gets public_pages)
  next
    case False
    with assms show ?thesis
      unfolding data_routes_def by (simp add: foreign_def posts public_pages)
  qed
  have login: "keeps P (postLogin env rpc r)" "keeps P (postLogout env rpc r)" if "rq_method r = ''POST''"
    using assms that by (auto simp: foreign_def is_get_def intro: walking)
  show ?thesis
    unfolding routes_def Let_def by (intro keeps_branch walk_guards data public_pages walk_metrics walk_getSession keeps_ret login) simp_all
qed

end

text \<open>All calls.\<close>

locale busy_walk = walk +
  assumes calls [walking]:
      "keeps P (call (\<lambda>t. rc_Login rpc t user password))"
      "keeps P (call (\<lambda>t. rc_ChangePassword rpc t token password new))"
      "keeps P (call (\<lambda>t. rc_Logout rpc t token))"
      "keeps P (call (\<lambda>t. rc_SaveRule rpc t rule))"
      "keeps P (call (\<lambda>t. rc_DeleteRule rpc t i who))"
      "keeps P (call (\<lambda>t. rc_SaveChannel rpc t channel))"
      "keeps P (call (\<lambda>t. rc_DeleteChannel rpc t i who))"
      "keeps P (call (\<lambda>t. rc_TestChannel rpc t i who))"
      "keeps P (call (\<lambda>t. rc_RequestTaskRun rpc t host task who))"
      "keeps P (call (\<lambda>t. rc_RequestAgentUpdate rpc t hosts v url who))"
      "keeps P (call (\<lambda>t. rc_RemoveCluster rpc t name))"
begin

lemma walk_user [walking]: "keeps P (session_user env rpc r)" "keeps P (forgetUser user key)" "keeps P (forgetSession key)"
  unfolding session_user_def forgetUser_def forgetSession_def by (auto intro!: walking)

lemma walk_changes [walking]:
  "keeps P (postLogin env rpc r)" "keeps P (postLogout env rpc r)" "keeps P (postPassword env rpc r)"
  "keeps P (postRule env rpc r)" "keeps P (putRule env rpc r value)" "keeps P (web_deleteRule env rpc r value)"
  "keeps P (postAgentUpdate env rpc r)" "keeps P (postChannel env rpc r)" "keeps P (putChannel env rpc r value)"
  "keeps P (web_deleteChannel env rpc r value)" "keeps P (testChannel env rpc r value)" "keeps P (postTaskRun env rpc r host)"
  "keeps P (deleteCluster env rpc host)"
  unfolding postLogin_def postLogout_def postPassword_def postRule_def putRule_def web_saveRule_def web_deleteRule_def postAgentUpdate_def
    postChannel_def putChannel_def web_saveChannel_def web_deleteChannel_def testChannel_def postTaskRun_def deleteCluster_def
  by (auto intro!: walking split: sum.splits option.splits prod.splits)

lemma all_routes: "keeps P (routes env rpc r)"
proof -
  have "keeps P (get_routes env rpc r p)" for p
    unfolding get_routes_def by (simp only: split: list.split) (intro allI impI conjI walking)
  moreover have "keeps P (post_routes env rpc r p)" for p
    unfolding post_routes_def by (simp only: split: list.split) (intro allI impI conjI walking)
  moreover have "keeps P (put_routes env rpc r p)" for p
    unfolding put_routes_def by (simp only: split: list.split) (intro allI impI conjI walking)
  moreover have "keeps P (delete_routes env rpc r p)" for p
    unfolding delete_routes_def by (simp only: split: list.split) (intro allI impI conjI walking)
  ultimately have "keeps P (data_routes env rpc r p)" for p
    unfolding data_routes_def by (auto intro: public_pages)
  then show ?thesis
    unfolding routes_def Let_def by (intro keeps_branch walk_guards public_pages walk_metrics walk_getSession keeps_ret walk_changes)
qed

end

section \<open>Pages of other sites\<close>

definition doing :: "event \<Rightarrow> bool" where
  "doing e = (case e of Checked _ _ _ \<Rightarrow> False | PasswordOk _ _ _ \<Rightarrow> False | _ \<Rightarrow> True)"

lemma keeps_clock_audit: "keeps (\<lambda>w. Q (audit w)) clock_Now"
  by (simp add: keeps_def clock_Now_def audit_def split: list.splits)

lemma keeps_auth_audit: "keeps (\<lambda>w. Q (audit w)) (change_auth f)"
  by (simp add: keeps_def change_auth_def audit_def)

lemma keeps_noted_audit:
  assumes "\<And>t x e l. ev t x = Some e \<Longrightarrow> Q l \<Longrightarrow> Q (e # l)"
  shows "keeps (\<lambda>w. Q (audit w)) (call (\<lambda>t. noted (ev t) (m t)))"
  unfolding call_def using assms
  by (intro keeps_bindE [OF keeps_clock_audit]) (auto simp: keeps_def on_collector_def noted_def audit_def split: prod.splits option.splits)

interpretation watching: walk env "recorded rpc" "\<lambda>w. filter doing (audit w) = l" for env rpc l
proof unfold_locales
  show "keeps (\<lambda>w. filter doing (audit w) = l) clock_Now" "keeps (\<lambda>w. filter doing (audit w) = l) (change_auth f)" for f
    using keeps_clock_audit [of "\<lambda>x. filter doing x = l"] keeps_auth_audit [of "\<lambda>x. filter doing x = l" f] by auto
qed (auto simp: recorded_def unnoted_def on_success_def doing_def intro!: keeps_noted_audit [where Q = "\<lambda>x. filter doing x = l"] split: sum.splits)


end
