(* ===== verification/WebInstall.thy ===== *)
theory WebInstall
  imports WebPages
begin

text \<open>The install script's values and how hosts and ports are taken apart and put together.\<close>

section \<open>Nothing but a host and a port reaches the script\<close>

definition script_char :: "char \<Rightarrow> bool" where
  "script_char c \<longleftrightarrow> letter_digit c \<or> c \<in> set ''.-:[]/''"

lemma digit_script: "is_digit c \<Longrightarrow> script_char c"
  unfolding is_digit_def script_char_def letter_digit_def by auto

lemma port_script: "safe_port s \<Longrightarrow> list_all script_char s"
  by (cases s) (auto simp: list_all_iff digit_script, simp add: script_char_def)

lemma host_script: "host_char c \<Longrightarrow> script_char c" and address_script: "address_char c \<Longrightarrow> script_char c"
  unfolding host_char_def address_char_def script_char_def letter_digit_def by auto

lemma all_split: "list_all p (takeWhile q s) \<Longrightarrow> list_all p (dropWhile q s) \<Longrightarrow> list_all p s"
  by (metis list_all_append takeWhile_dropWhile_id)

lemma all_takeWhile: "(\<And>c. q c \<Longrightarrow> p c) \<Longrightarrow> list_all p (takeWhile q s)"
  by (auto simp: list_all_iff dest: set_takeWhileD)

lemma safeHost_script:
  assumes "safeHost s"
  shows "list_all script_char s"
  using assms unfolding safeHost_def
proof (elim disjE conjE)
  assume "safe_port (dropWhile host_char s)"
  from all_split [OF all_takeWhile [OF host_script] port_script [OF this]] show ?thesis .
next
  assume "case s of [] \<Rightarrow> False | c # t \<Rightarrow> c = CHR ''['' \<and> takeWhile address_char t \<noteq> [] \<and>
        (case dropWhile address_char t of [] \<Rightarrow> False | d # p \<Rightarrow> d = CHR '']'' \<and> safe_port p)"
  then obtain t p where s: "s = CHR ''['' # t" "dropWhile address_char t = CHR '']'' # p" "safe_port p"
    by (auto split: list.splits)
  have "list_all script_char (dropWhile address_char t)"
    using s(2) port_script [OF s(3)] by (simp add: script_char_def)
  from all_split [OF all_takeWhile [OF address_script] this] have "list_all script_char t" .
  with s(1) show ?thesis
    by (simp add: script_char_def)
qed

text \<open>The two values that the install script is filled in with come from the request's Host header and the settings, and consist of letters, digits and
  the characters \<open>. - : [ ] /\<close> only: nothing that a shell would expand, split or end a word at reaches the script.\<close>

theorem install_script_safe:
  assumes "getInstallScript env r w = (Inr resp, w')" and "rs_body resp = BScript dashboard collector"
  shows "list_all script_char dashboard \<and> list_all script_char collector"
proof -
  have safe: "safeHost (rq_host r)" "safeHost collector" and url: "dashboard = ''http://'' @ rq_host r \<or> dashboard = ''https://'' @ rq_host r"
    using assms by (auto simp: getInstallScript_def Let_def ret_def reply_def split: if_splits)
  have "list_all script_char ''http://''" "list_all script_char ''https://''"
    by (simp_all add: script_char_def letter_digit_def)
  with url safe [THEN safeHost_script] show ?thesis
    by auto
qed

section \<open>Hosts and ports\<close>

lemma after_last_colon_append: "CHR '':'' \<notin> set port \<Longrightarrow> after_last_colon (front @ CHR '':'' # port) = Some (front, port)"
  by (simp add: after_last_colon_def dropWhile_append takeWhile_append)

text \<open>Taking apart what was put together gives the host and the port back, for a host without brackets (an address with colons gets them) and a port without a
  colon or a bracket.\<close>

theorem split_join_host_port:
  assumes "CHR ''['' \<notin> set host" "CHR '']'' \<notin> set host" and "set port \<inter> {CHR '':'', CHR ''['', CHR '']''} = {}"
  shows "SplitHostPort (JoinHostPort host port) = Some (host, port)"
proof (cases "CHR '':'' \<in> set host")
  case True
  have "after_last_colon (CHR ''['' # host @ '']:'' @ port) = Some (CHR ''['' # host @ '']'', port)"
    using after_last_colon_append [of port "CHR ''['' # host @ '']''"] assms(3) by simp
  moreover have "takeWhile (\<lambda>c. c \<noteq> CHR '']'') (host @ '']'') = host"
    using assms(2) by (induction host) auto
  ultimately show ?thesis
    using True assms by (auto simp: SplitHostPort_def JoinHostPort_def Let_def)
next
  case False
  have "after_last_colon (host @ '':'' @ port) = Some (host, port)"
    using after_last_colon_append [of port host] assms(3) by simp
  with False assms show ?thesis
    by (cases host) (auto simp: SplitHostPort_def JoinHostPort_def Let_def)
qed

text \<open>A dashboard reached over an IPv6 address on the default port, with the collector on its own host: the address keeps its brackets, gets a second pair, and
  the script is refused.\<close>

lemma ipv6_dashboard_refused:
  assumes "ev_agentCollector env = []" "ev_collectorEndpoint env = ''localhost:9000''"
  shows "safeHost ''[::1]''" and "agentCollectorEndpoint env ''[::1]'' = ''[[::1]]:9000''" and "\<not> safeHost ''[[::1]]:9000''"
proof -
  have "SplitHostPort ''localhost:9000'' = Some (''localhost'', ''9000'')" "SplitHostPort ''[::1]'' = None"
    by code_simp+
  then show "agentCollectorEndpoint env ''[::1]'' = ''[[::1]]:9000''"
    by (simp add: agentCollectorEndpoint_def assms JoinHostPort_def)
qed code_simp+

section \<open>Examples\<close>

definition example_env :: "string env" where
  "example_env = \<lparr>ev_refreshSeconds = 10, ev_collectorEndpoint = ''localhost:9000'', ev_agentCollector = [], ev_metricsEnabled = True,
     ev_metricsAuth = True, ev_version = ''v3'', ev_download = (\<lambda>_. True), ev_file = (\<lambda>_. True), ev_sha256 = (\<lambda>x. x), ev_Error = (\<lambda>_. []),
     ev_isLoopback = (\<lambda>_. False), ev_credentials = (\<lambda>_ _. Inl ErrInvalid), ev_passwords = (\<lambda>_ _. Inl ErrInvalid), ev_rule = (\<lambda>_ _. Inl ErrInvalid),
     ev_channel = (\<lambda>_ _. Inl ErrInvalid), ev_task = (\<lambda>_ s. Inr s), ev_hosts = (\<lambda>_ _. Inl ErrInvalid), ev_metrics = (\<lambda>x. x)\<rparr>"

definition browser_request :: "string \<Rightarrow> string list \<Rightarrow> request" where
  "browser_request m path = \<lparr>rq_method = m, rq_path = path, rq_query = (\<lambda>_. []), rq_cookie = Some ''tok'', rq_basic = None,
     rq_mediaType = None, rq_body = ''restart'', rq_host = ''dash.example:8443'', rq_tls = True, rq_forwardedProto = []\<rparr>"

lemma example_script:
  "getInstallScript example_env (browser_request ''GET'' [''install.sh'']) w =
     (Inr (reply 200 (BScript ''https://dash.example:8443'' ''dash.example:9000'')), w)"
proof -
  have "agentCollectorEndpoint example_env ''dash.example:8443'' = ''dash.example:9000''" "safeHost ''dash.example:8443''" "safeHost ''dash.example:9000''"
    by code_simp+
  then show ?thesis
    by (simp add: getInstallScript_def browser_request_def Let_def ret_def)
qed

theorem install_script_safe_witness: "list_all script_char ''https://dash.example:8443'' \<and> list_all script_char ''dash.example:9000''"
  by (rule install_script_safe [OF example_script]) (simp add: reply_def)

theorem split_join_host_port_witness: "SplitHostPort (JoinHostPort ''::1'' ''9000'') = Some (''::1'', ''9000'')"
  by (rule split_join_host_port) code_simp+

end
