(* ===== verification/WebCollector.thy ===== *)
theory WebCollector
  imports WebWalk WebInstall Accounts
begin

text \<open>
  The dashboard with the collector behind it. The collector's service is the one of internal/api, whose calls on logins, rules, channels, tasks, agents and
  clusters work on one database. Whoever loses a role, or is removed, is shut out of the dashboard within a minute.
\<close>

section \<open>What the dashboard relies on\<close>

text \<open>A condition of the collector that all its calls keep and under which it never answers that a session belongs to \<open>us\<close>.\<close>

locale refusing =
  fixes rpc :: "('s, 'q) rpc" and G :: "'s \<Rightarrow> bool" and us :: userSession
  assumes kept:
      "keeps G (rc_CheckSession rpc t token)"
      "keeps G (rc_CheckPassword rpc t user password)"
      "keeps G (rc_HasUsers rpc)"
      "keeps G (rc_Version rpc)"
      "keeps G (rc_Query rpc t q)"
      "keeps G (rc_AlertRules rpc)"
      "keeps G (rc_NotificationChannels rpc)"
      "keeps G (rc_RecentNotifications rpc limit)"
      "keeps G (rc_HostTasks rpc host)"
      "keeps G (rc_TaskRuns rpc host limit)"
      "keeps G (rc_TaskRun rpc i)"
      "keeps G (rc_Login rpc t user password)"
      "keeps G (rc_ChangePassword rpc t token password new)"
      "keeps G (rc_Logout rpc t token)"
      "keeps G (rc_SaveRule rpc t rule)"
      "keeps G (rc_DeleteRule rpc t i who)"
      "keeps G (rc_SaveChannel rpc t channel)"
      "keeps G (rc_DeleteChannel rpc t i who)"
      "keeps G (rc_TestChannel rpc t i who)"
      "keeps G (rc_RequestTaskRun rpc t host task who)"
      "keeps G (rc_RequestAgentUpdate rpc t hosts v url who)"
      "keeps G (rc_RemoveCluster rpc t name)"
    and refused: "G s \<Longrightarrow> rc_CheckSession rpc t token s = (Inr info, s') \<Longrightarrow> \<lparr>us_user = sn_User info, us_role = sn_Role info\<rparr> \<noteq> us"

text \<open>Since \<open>since\<close> the collector has not accepted a session as \<open>us\<close>.\<close>

definition not_since :: "userSession \<Rightarrow> time \<Rightarrow> event \<Rightarrow> bool" where
  "not_since us since e = (case e of
     Checked tc _ info \<Rightarrow> \<lparr>us_user = sn_User info, us_role = sn_Role info\<rparr> = us \<longrightarrow> tc \<le> since
   | _ \<Rightarrow> True)"

definition withheld :: "('s \<Rightarrow> bool) \<Rightarrow> userSession \<Rightarrow> time \<Rightarrow> ('s \<times> event list) site \<Rightarrow> bool" where
  "withheld G us since w \<longleftrightarrow> G (fst (si_collector w)) \<and> list_all (not_since us since) (audit w)"

lemma keeps_withheld_clock: "keeps (withheld G us since) clock_Now"
  by (simp add: keeps_def clock_Now_def withheld_def audit_def split: list.splits)

lemma keeps_withheld_auth: "keeps (withheld G us since) (change_auth f)"
  by (simp add: keeps_def change_auth_def withheld_def audit_def)

lemma keeps_withheld_noted:
  assumes "\<And>t. keeps G (m t)" and "\<And>t s x s' e. G s \<Longrightarrow> m t s = (x, s') \<Longrightarrow> ev t x = Some e \<Longrightarrow> not_since us since e"
  shows "keeps (withheld G us since) (call (\<lambda>t. noted (ev t) (m t)))"
  unfolding call_def
proof (rule keeps_bindE [OF keeps_withheld_clock], rule keepsI)
  fix t and w :: "('a \<times> event list) site"
  assume w: "withheld G us since w"
  obtain x s where m: "m t (fst (si_collector w)) = (x, s)"
    by fastforce
  have "G s"
    using w keepsD [OF assms(1) _ m] by (simp add: withheld_def)
  moreover have "not_since us since e" if "ev t x = Some e" for e
    using assms(2) [OF _ m that] w by (simp add: withheld_def)
  ultimately show "withheld G us since (snd (on_collector (noted (ev t) (m t)) w))"
    using w m by (auto simp: withheld_def on_collector_def noted_def audit_def split: option.splits)
qed

sublocale refusing \<subseteq> held: busy_walk env "recorded rpc" "withheld G us since" for env since
proof unfold_locales
  show "keeps (withheld G us since) (call (\<lambda>t. rc_CheckSession (recorded rpc) t token))" for token
    unfolding recorded_def rpc.simps
    by (rule keeps_withheld_noted) (auto simp: kept on_success_def not_since_def split: sum.splits dest: refused)
qed (auto simp: recorded_def unnoted_def changing_def on_success_def not_since_def kept intro!: keeps_withheld_clock keeps_withheld_auth
  keeps_withheld_noted split: sum.splits)

text \<open>What happens from some moment on, when changes of the collector from elsewhere keep the condition.\<close>

inductive site_later :: "'q env \<Rightarrow> ('s, 'q) rpc \<Rightarrow> duration \<Rightarrow> ('s \<Rightarrow> bool) \<Rightarrow> ('s \<times> event list) site \<Rightarrow> ('s \<times> event list) site \<Rightarrow> bool"
  for env rpc d G w where
  later_now: "site_later env rpc d G w w"
| later_serves: "site_later env rpc d G w w' \<Longrightarrow> si_now w' \<le> t \<Longrightarrow> handled_within d t ts \<Longrightarrow>
    site_later env rpc d G w (snd (routes env (recorded rpc) r (arrive t ts w')))"
| later_elsewhere: "site_later env rpc d G w w' \<Longrightarrow> G s \<Longrightarrow> site_later env rpc d G w (w'\<lparr>si_collector := (s, audit w')\<rparr>)"

lemma withheld_arrive [simp]: "withheld G us since (arrive t ts w) = withheld G us since w"
  by (simp add: withheld_def arrive_def audit_def)

lemma not_accepted_after:
  assumes "list_all (not_since us since) l" and "since + Minute + x < t"
  shows "\<not> accepted env x key us t l"
proof
  assume "accepted env x key us t l"
  then obtain tc token info where c: "Checked tc token info \<in> set l" "us = \<lparr>us_user = sn_User info, us_role = sn_Role info\<rparr>"
      "t \<le> min (tc + Minute) (max tc (time_Unix (sn_Expires info))) + x"
    unfolding accepted_def by blast
  have "tc \<le> since"
    using assms(1) c(1,2) by (auto simp: list_all_iff not_since_def split: event.splits)
  moreover have "t \<le> tc + Minute + x"
    using c(3) by linarith
  ultimately show False
    using assms(2) by linarith
qed

context refusing
begin

lemma later_withheld: "site_later env rpc d G w w' \<Longrightarrow> withheld G us since w \<Longrightarrow> withheld G us since w'"
proof (induction rule: site_later.induct)
  case (later_serves w' t ts r)
  then show ?case
    using held.all_routes unfolding keeps_def by fastforce
qed (simp_all add: withheld_def audit_def)

lemma shut_out:
  assumes "withheld G us since w" and "site_later env rpc d G w w'" and "since + Minute + 2 * d < t + d"
  shows "\<not> accepted env (2 * d) key us (t + d) (audit (snd (routes env (recorded rpc) r (arrive t ts w'))))"
proof -
  have "withheld G us since (snd (routes env (recorded rpc) r (arrive t ts w')))"
    using held.all_routes [of since env r] later_withheld [OF assms(2,1)] unfolding keeps_def by simp
  with assms(3) show ?thesis
    by (intro not_accepted_after) (auto simp: withheld_def)
qed

end

section \<open>The history has the times of the clock\<close>

definition dated :: "('s \<times> event list) site \<Rightarrow> bool" where
  "dated w \<longleftrightarrow> sorted (si_now w # si_clock w) \<and> list_all (\<lambda>e. event_time e \<le> si_now w) (audit w)"

lemma keeps_dated_noted:
  assumes "\<And>t x e. ev t x = Some e \<Longrightarrow> event_time e = t"
  shows "keeps dated (call (\<lambda>t. noted (ev t) (m t)))"
  unfolding call_def keeps_def
  by (auto simp: bindE_def clock_Now_def on_collector_def noted_def dated_def audit_def list_all_iff assms split: prod.splits option.splits list.splits)

interpretation dating: busy_walk env "recorded rpc" dated for env rpc
proof unfold_locales
  show "keeps dated clock_Now"
    by (auto simp: keeps_def clock_Now_def dated_def audit_def list_all_iff split: list.splits)
  show "keeps dated (change_auth f)" for f
    by (simp add: keeps_def change_auth_def dated_def audit_def)
qed (auto simp: recorded_def unnoted_def changing_def on_success_def intro!: keeps_dated_noted split: sum.splits)

lemma site_dated:
  assumes "site_runs env rpc d w"
  shows "list_all (\<lambda>e. event_time e \<le> si_now w) (audit w)"
  using assms
proof (induction rule: site_runs.induct)
  case (site_serves w t ts r)
  have "dated (arrive t ts w)"
    using site_serves.IH site_serves.hyps by (auto simp: dated_def arrive_def audit_def handled_within_def list_all_iff)
  then have "dated (snd (routes env (recorded rpc) r (arrive t ts w)))"
    using dating.all_routes unfolding keeps_def by blast
  then show ?case
    by (simp add: dated_def)
qed (simp_all add: audit_def)

lemma site_withheld:
  assumes "site_runs env rpc d w" and "G (fst (si_collector w))"
  shows "withheld G us (si_now w) w"
proof -
  have "not_since us (si_now w) e" if "e \<in> set (audit w)" for e
    using site_dated [OF assms(1)] that by (cases e) (auto simp: list_all_iff not_since_def dest!: bspec)
  with assms(2) show ?thesis
    by (simp add: withheld_def list_all_iff)
qed

section \<open>The collector's service\<close>

text \<open>Only the parts of \<open>Server\<close> that the dashboard's calls use.\<close>

record service =
  sv_db :: db
  sv_logins :: loginFailures
  sv_tasks :: taskWaiters

definition on_logins :: "('a, login_server) act \<Rightarrow> ('a, service) act" where
  "on_logins m s = (case m \<lparr>ls_db = sv_db s, ls_logins = sv_logins s\<rparr> of (r, c) \<Rightarrow> (r, s\<lparr>sv_db := ls_db c, sv_logins := ls_logins c\<rparr>))"

definition on_tasks :: "('a, collector) act \<Rightarrow> ('a, service) act" where
  "on_tasks m s = (case m \<lparr>co_db = sv_db s, co_tasks = sv_tasks s\<rparr> of (r, c) \<Rightarrow> (r, s\<lparr>sv_db := co_db c, sv_tasks := co_tasks c\<rparr>))"

definition on_store :: "('a, db) act \<Rightarrow> ('a, service) act" where
  "on_store m s = (case m (sv_db s) of (r, d) \<Rightarrow> (r, s\<lparr>sv_db := d\<rparr>))"

definition api_RemoveCluster :: "string \<Rightarrow> (string, db) act" where
  "api_RemoveCluster name = bindE (map_err toStatus (RemoveCluster name)) (\<lambda>_. ret ''ok'')"

text \<open>What the service uses that is not part of the repository, by the time of the call: whether a slot for hashing was free, the random token and salt, the time a
  wrong password is counted; and the answers to queries.\<close>

record 'q outside =
  ou_hash :: hash
  ou_kdf :: kdf
  ou_slot :: "time \<Rightarrow> error option"
  ou_secret :: "time \<Rightarrow> string result"
  ou_later :: "time \<Rightarrow> time"
  ou_addr :: address_parse
  ou_url :: url_parse
  ou_rule :: "string \<Rightarrow> AlertConfig result"
  ou_net :: network
  ou_version :: string
  ou_answer :: "time \<Rightarrow> data_request \<Rightarrow> tables \<Rightarrow> 'q result"

definition service_rpc :: "'q outside \<Rightarrow> (service, 'q) rpc" where
  "service_rpc x = \<lparr>
     rc_CheckSession = (\<lambda>t token. on_logins (CheckSession (ou_hash x) t token)),
     rc_HasUsers = on_logins api_HasUsers,
     rc_Login = (\<lambda>t user password. on_logins (api_Login (ou_hash x) (ou_kdf x) (ou_slot x t) (ou_secret x t) t (ou_later x t) user password)),
     rc_CheckPassword = (\<lambda>t user password. on_logins (api_CheckPassword (ou_kdf x) (ou_slot x t) t (ou_later x t) user password)),
     rc_ChangePassword = (\<lambda>t token current new.
       on_logins (api_ChangePassword (ou_hash x) (ou_kdf x) (ou_slot x t) (ou_slot x t) (ou_secret x t) t (ou_later x t) token current new)),
     rc_Logout = (\<lambda>t token. on_logins (api_Logout (ou_hash x) token)),
     rc_Version = ret (ou_version x),
     rc_Query = (\<lambda>t q. on_store (bindE (query (ou_answer x t q)) of_result)),
     rc_AlertRules = on_store api_AlertRules,
     rc_NotificationChannels = on_store NotificationChannels,
     rc_RecentNotifications = (\<lambda>limit. on_store (api_RecentNotifications limit)),
     rc_HostTasks = (\<lambda>host. on_tasks (api_HostTasks host)),
     rc_TaskRuns = (\<lambda>host limit. on_tasks (api_TaskRuns host limit)),
     rc_TaskRun = (\<lambda>i. on_tasks (api_TaskRun i)),
     rc_SaveRule = (\<lambda>t req. on_store (SaveRule (ou_url x) (ou_rule x) t req)),
     rc_DeleteRule = (\<lambda>t i who. on_store (api_DeleteRule t i)),
     rc_SaveChannel = (\<lambda>t req. on_store (SaveChannel (ou_addr x) (ou_url x) t req)),
     rc_DeleteChannel = (\<lambda>t i who. on_store (api_DeleteChannel i)),
     rc_TestChannel = (\<lambda>t i who. on_store (TestChannel (ou_addr x) (ou_url x) (ou_net x) t i who)),
     rc_RequestTaskRun = (\<lambda>t host task who. on_tasks (api_RequestTaskRun t host task who)),
     rc_RequestAgentUpdate = (\<lambda>t hosts v url who. on_store (api_RequestAgentUpdate t hosts v url)),
     rc_RemoveCluster = (\<lambda>t name. on_store (api_RemoveCluster name))\<rparr>"

section \<open>Names and roles of users\<close>

text \<open>None of these calls adds a user, renames one or changes a role.\<close>

definition same_users :: "tables \<Rightarrow> (tbl \<Rightarrow> int) \<Rightarrow> tables \<Rightarrow> (tbl \<Rightarrow> int) \<Rightarrow> bool" where
  "same_users t q t' q' \<longleftrightarrow> map (\<lambda>u. (u_id u, u_name u, u_role u)) (db_users t') = map (\<lambda>u. (u_id u, u_name u, u_role u)) (db_users t)"

interpretation roles: table_order same_users
  by unfold_locales (auto simp: same_users_def)

lemma roles_wrap:
  "roles.moves m \<Longrightarrow> roles.moves (on_unique e m)" "roles.moves (of_result r)" "roles.moves m \<Longrightarrow> roles.moves (map_err f m)"
  by (simp_all add: roles.moves_def snd_on_unique of_result_def roles.same)

lemmas roles_rules = roles.moves_ret roles.moves_fail roles.moves_bindE roles.moves_query roles.moves_in_tx roles.moves_case_option roles.moves_if
  roles_wrap

lemma same_users_update:
  assumes "\<And>u. u_id (f u) = u_id u \<and> u_name (f u) = u_name u \<and> u_role (f u) = u_role u"
  shows "map (\<lambda>u. (u_id u, u_name u, u_role u)) (update_where p f us) = map (\<lambda>u. (u_id u, u_name u, u_role u)) us"
  using assms by (induction us) (auto simp: update_where_def)

lemma roles_statements:
  "roles.moves (rename_alerts old new)" "roles.moves (rename_checks old new)" "roles.moves (replace_rule now i rule enabled who)"
  "roles.moves (resolveRuleAlerts now name)" "roles.moves (insert_into T_rules (insert_rule now rule enabled who))"
  "roles.moves (CreateChannel now channel who)" "roles.moves (UpdateChannel now channel who)" "roles.moves (DeleteChannel i)"
  "roles.moves (RequestAgentUpdate now hosts v url)" "roles.moves (RemoveCluster name)" "roles.moves (Logout hash token)"
  unfolding rename_alerts_def rename_checks_def replace_rule_def resolveRuleAlerts_def CreateChannel_def UpdateChannel_def DeleteChannel_def
    RequestAgentUpdate_def RemoveCluster_def Logout_def Let_def
  by (intro roles_rules roles.moves_exec roles.moves_dbcall roles.moves_insert_into;
    simp add: roles.moves_def same_users_def Let_def insert_rule_def)+

lemma roles_login_batch: "roles.moves (dbcall (login_batch now h i ex))"
  by (rule roles.moves_dbcall) (simp add: roles.moves_def login_batch_def Let_def same_users_def same_users_update)

lemma roles_ChangePassword_exec:
  "roles.moves (exec (\<lambda>t. ((), t\<lparr>db_users := update_where (\<lambda>u. u_id u = i) (set_password hs) (db_users t), db_sessions := f t\<rparr>)))"
  by (rule roles.moves_exec) (simp add: same_users_def same_users_update)

lemma roles_reads:
  "roles.moves AlertRules" "roles.moves Channels" "roles.moves (Channel i)" "roles.moves (RecentNotifications limit)" "roles.moves (HostTasks host)"
  "roles.moves (TaskRuns host limit)" "roles.moves (TaskRun_read i)" "roles.moves HasUsers" "roles.moves (Session_read hash now token)"
  "roles.moves (CheckPassword kdf slot user password)"
  unfolding AlertRules_def Channels_def Channel_def RecentNotifications_def HostTasks_def TaskRuns_def hostID_def TaskRun_read_def HasUsers_def
    Session_read_def CheckPassword_def check_password_def Let_def
  by (auto intro!: roles_rules split: prod.splits)

lemma roles_edits:
  "roles.moves (CreateRule parse now rule enabled who)" "roles.moves (UpdateRule parse now i rule enabled who)" "roles.moves (DeleteRule now i)"
  "roles.moves (Login hash kdf slot secret now user password)" "roles.moves (ChangePassword hash kdf slot slot' salt now token password new)"
  unfolding CreateRule_def UpdateRule_def UpdateRule_tx_def DeleteRule_def DeleteRule_tx_def Login_def ChangePassword_def CheckPassword_def [symmetric] check_password_def Let_def
  by (auto intro!: roles_rules roles_statements roles_login_batch roles_ChangePassword_exec roles_reads roles.moves_exec simp: same_users_def split: prod.splits)

lemma roles_task: "roles.moves (RequestTaskRun now host task who)"
proof -
  have "roles.moves (insert_into T_runs (insert_run now host task who))"
    by (rule roles.moves_insert_into) (simp add: insert_run_def same_users_def Let_def split: option.splits list.splits)
  moreover have "snd (RequestTaskRun now host task who s) = snd (insert_into T_runs (insert_run now host task who) s)" for s
    by (simp add: RequestTaskRun_def split: prod.splits sum.splits option.splits)
  ultimately show ?thesis
    by (simp add: roles.moves_def)
qed

lemma roles_service:
  "roles.moves api_AlertRules" "roles.moves NotificationChannels" "roles.moves (api_RecentNotifications limit)"
  "roles.moves (api_DeleteRule now i)" "roles.moves (api_DeleteChannel i)" "roles.moves (TestChannel addr parse net now i who)"
  "roles.moves (api_RequestAgentUpdate now hosts v url)" "roles.moves (api_RemoveCluster name)"
  unfolding api_AlertRules_def NotificationChannels_def api_RecentNotifications_def api_DeleteRule_def api_DeleteChannel_def TestChannel_def
    api_RequestAgentUpdate_def api_RemoveCluster_def Let_def
  by (intro roles_rules roles_reads roles_edits roles_statements)+

lemma roles_saves: "roles.moves (SaveRule parse decode now req)" "roles.moves (SaveChannel addr parse now req')"
proof -
  have "roles.moves (checkRuleChannels picked)" for picked
    unfolding checkRuleChannels_def by (intro roles_rules roles_reads)
  then show "roles.moves (SaveRule parse decode now req)"
    unfolding SaveRule_def by (auto intro!: roles_rules roles_reads roles_edits split: sum.splits)
  have "roles.moves (channel_to_save req')"
    unfolding channel_to_save_def Let_def by (auto intro!: roles_rules roles_reads split: sum.splits)
  then show "roles.moves (SaveChannel addr parse now req')"
    unfolding SaveChannel_def invalid_def Let_def by (auto intro!: roles_rules roles_reads roles_statements split: prod.splits)
qed

section \<open>Who is no longer let in\<close>

text \<open>No user has the name together with the role: the user was removed, or has another role now.\<close>

definition no_role :: "userSession \<Rightarrow> tables \<Rightarrow> bool" where
  "no_role us t \<longleftrightarrow> list_all (\<lambda>u. (u_name u, u_role u) \<noteq> (us_user us, us_role us)) (db_users t)"

lemma no_role_map: "no_role us t = list_all (\<lambda>x. snd x \<noteq> (us_user us, us_role us)) (map (\<lambda>u. (u_id u, u_name u, u_role u)) (db_users t))"
  by (simp add: no_role_def list.pred_map comp_def)

lemma no_role_same: "same_users t q t' q' \<Longrightarrow> no_role us t \<Longrightarrow> no_role us t'"
  unfolding no_role_map same_users_def by simp

definition service_without :: "userSession \<Rightarrow> service \<Rightarrow> bool" where
  "service_without us s \<longleftrightarrow> no_role us (tabs (sv_db s))"

lemma keeps_no_role: "roles.moves m \<Longrightarrow> keeps (\<lambda>s. no_role us (tabs s)) m"
  by (rule keepsI) (metis no_role_same roles.moves_def)

lemma keeps_on_store: "roles.moves m \<Longrightarrow> keeps (service_without us) (on_store m)"
  using keeps_no_role [of m us] by (auto simp: keeps_def on_store_def service_without_def split: prod.splits)

text \<open>The calls on the login part and on the task part of the service.\<close>

definition login_without :: "userSession \<Rightarrow> login_server \<Rightarrow> bool" where
  "login_without us c \<longleftrightarrow> no_role us (tabs (ls_db c))"

definition tasks_without :: "userSession \<Rightarrow> collector \<Rightarrow> bool" where
  "tasks_without us c \<longleftrightarrow> no_role us (tabs (co_db c))"

lemma keeps_on_logins:
  assumes "keeps (login_without us) m"
  shows "keeps (service_without us) (on_logins m)"
proof (rule keepsI)
  fix s assume "service_without us s"
  then have "login_without us (snd (m \<lparr>ls_db = sv_db s, ls_logins = sv_logins s\<rparr>))"
    using assms by (simp add: keeps_def service_without_def login_without_def)
  then show "service_without us (snd (on_logins m s))"
    by (simp add: on_logins_def service_without_def login_without_def case_prod_beta)
qed

lemma keeps_on_tasks:
  assumes "keeps (tasks_without us) m"
  shows "keeps (service_without us) (on_tasks m)"
proof (rule keepsI)
  fix s assume "service_without us s"
  then have "tasks_without us (snd (m \<lparr>co_db = sv_db s, co_tasks = sv_tasks s\<rparr>))"
    using assms by (simp add: keeps_def service_without_def tasks_without_def)
  then show "service_without us (snd (on_tasks m s))"
    by (simp add: on_tasks_def service_without_def tasks_without_def case_prod_beta)
qed

lemma keeps_map_err_role: "keeps P m \<Longrightarrow> keeps P (map_err f m)"
  by (simp add: keeps_def)

lemma keeps_login_db: "roles.moves m \<Longrightarrow> keeps (login_without us) (on_login_db m)"
  using keeps_no_role [of m us] by (auto simp: keeps_def on_login_db_def login_without_def split: prod.splits)

lemma keeps_task_db: "roles.moves m \<Longrightarrow> keeps (tasks_without us) (on_db m)"
  using keeps_no_role [of m us] by (auto simp: keeps_def on_db_def tasks_without_def split: prod.splits)

lemma keeps_checkLogin: "keeps (login_without us) m \<Longrightarrow> keeps (login_without us) (checkLogin now now' name m)"
  by (auto simp: keeps_def checkLogin_def login_without_def split: prod.splits sum.splits)

lemma keeps_logins:
  "keeps (login_without us) (CheckSession hash now token)" "keeps (login_without us) api_HasUsers"
  "keeps (login_without us) (api_Login hash kdf slot secret now now' user password)"
  "keeps (login_without us) (api_CheckPassword kdf slot now now' user password)"
  "keeps (login_without us) (api_ChangePassword hash kdf slot slot' secret now now' token password new)"
  "keeps (login_without us) (api_Logout hash token)"
  unfolding CheckSession_def api_HasUsers_def api_Login_def api_CheckPassword_def api_ChangePassword_def api_Logout_def
  by (intro keeps_bindE keeps_ret keeps_map_err_role keeps_checkLogin keeps_login_db roles_reads roles_edits roles_statements)+

lemma keeps_tasks:
  "keeps (tasks_without us) (api_HostTasks host)" "keeps (tasks_without us) (api_TaskRuns host limit)" "keeps (tasks_without us) (api_TaskRun i)"
  "keeps (tasks_without us) (api_RequestTaskRun now host task who)"
  unfolding api_HostTasks_def api_TaskRuns_def api_TaskRun_def api_RequestTaskRun_def
  by (auto intro!: keeps_bindE keeps_ret keeps_fail keeps_map_err_role keeps_task_db roles_reads roles_task keeps_modify simp: tasks_without_def)

lemma CheckSession_refuses:
  assumes "no_role us (tabs (ls_db c))" and "CheckSession hash now token c = (Inr info, c')"
  shows "\<lparr>us_user = sn_User info, us_role = sn_Role info\<rparr> \<noteq> us"
proof -
  from assms(2) obtain session s1 where s: "Session_read hash now token (ls_db c) = (Inr session, s1)" "sn_User info = se_User session" "sn_Role info = se_Role session"
    by (auto simp: CheckSession_def bindE_def map_err_def on_login_db_def ret_def split: prod.splits sum.splits)
  then have "session_of now (hash token) (tabs (ls_db c)) = Some session"
    unfolding Session_read_def
    by (auto simp: bindE_def ret_def fail_def split: prod.splits sum.splits option.splits elim!: query_cases)
  then obtain u where "u \<in> set (db_users (tabs (ls_db c)))" "se_User session = u_name u" "se_Role session = u_role u"
    by (auto simp: session_of_def split: option.splits dest: find_SomeD)
  with assms(1) s(2,3) show ?thesis
    by (auto simp: no_role_def list_all_iff)
qed

interpretation behind: refusing "service_rpc x" "service_without us" us for x us
proof unfold_locales
  show "\<lparr>us_user = sn_User info, us_role = sn_Role info\<rparr> \<noteq> us"
    if without: "service_without us s" and checked: "rc_CheckSession (service_rpc x) t token s = (Inr info, s')" for s t token info s'
  proof -
    obtain c' where "CheckSession (ou_hash x) t token \<lparr>ls_db = sv_db s, ls_logins = sv_logins s\<rparr> = (Inr info, c')"
      using checked by (auto simp: service_rpc_def on_logins_def split: prod.splits)
    then show ?thesis
      by (rule CheckSession_refuses [rotated]) (use without in \<open>simp add: service_without_def\<close>)
  qed
  show "keeps (service_without us) (rc_Version (service_rpc x))"
    by (simp add: service_rpc_def)
  show "keeps (service_without us) (rc_Query (service_rpc x) t q)" for t q
    by (auto simp: service_rpc_def intro!: keeps_on_store roles_rules)
qed (auto simp: service_rpc_def intro!: keeps_on_store keeps_on_logins keeps_on_tasks keeps_logins keeps_tasks roles_service roles_saves)


section \<open>Examples\<close>

text \<open>Ada, an admin, is logged in; she opens the fleet and removes a cluster, and then becomes a viewer.\<close>

definition example_outside :: "string outside" where
  "example_outside = \<lparr>ou_hash = (\<lambda>x. x), ou_kdf = example_kdf, ou_slot = (\<lambda>_. None), ou_secret = (\<lambda>_. Inr ''tok''), ou_later = (\<lambda>t. t),
     ou_addr = any_addr, ou_url = (\<lambda>_. None), ou_rule = (\<lambda>_. Inl ErrInvalid),
     ou_net = \<lparr>nw_http = (\<lambda>_ _ _. Inl (err_text ''refused'')), nw_canonical = (\<lambda>s. s), nw_slack_reply = (\<lambda>_. None), nw_smtp = (\<lambda>_ _. Inr ()), nw_nanos = 0\<rparr>,
     ou_version = ''v3'', ou_answer = (\<lambda>_ _ _. Inr ''data'')\<rparr>"

definition example_site :: "(service \<times> event list) site" where
  "example_site = \<lparr>si_auth = \<lparr>au_sessions = Map.empty, au_passwords = Map.empty\<rparr>, si_clock = [], si_now = Hour,
     si_collector = (\<lparr>sv_db = snd example_logged_in, sv_logins = [], sv_tasks = \<lparr>tw_waiting = Map.empty, tw_made = 0, tw_closed = {}\<rparr>\<rparr>, [])\<rparr>"

definition example_visit :: "string \<Rightarrow> string list \<Rightarrow> string response result \<times> (service \<times> event list) site" where
  "example_visit m path = routes example_env (recorded (service_rpc example_outside)) (browser_request m path) (arrive Hour [Hour, Hour + 1] example_site)"

lemma visit_starts: "site_runs example_env (service_rpc example_outside) 1 example_site"
  by (rule site_starts) (simp_all add: example_site_def audit_def)

lemma example_within: "handled_within 1 Hour [Hour, Hour + 1]"
  by (simp add: handled_within_def)

lemma example_visit_runs: "site_runs example_env (service_rpc example_outside) 1 (snd (example_visit m path))"
  unfolding example_visit_def by (rule site_serves [OF visit_starts _ example_within]) (simp add: example_site_def)




definition example_demoted :: "(service \<times> event list) site" where
  "example_demoted =
     (let w = snd (example_visit ''GET'' [''api'', ''v1'', ''fleet'']); s = fst (si_collector w) in
      w\<lparr>si_collector := (s\<lparr>sv_db := snd (SetRole ''ada'' RoleViewer (sv_db s))\<rparr>, audit w)\<rparr>)"


end
