(* ===== verification/AgentCollect.thy ===== *)
theory AgentCollect
  imports Snapshot
begin

text \<open>
  How an agent takes a snapshot: internal/monitor/monitor.go, cri.go and the conversions of types.go. systats, which reads the host, and the CRI socket
  are parameters: what each of their calls returned in one round (\<open>samples\<close>), with the error beside the value where the code uses both.
\<close>

section \<open>What systats reports\<close>

record systats_Memory =
  xm_PercentageUsed :: float64
  xm_Available :: float64
  xm_Free :: float64
  xm_Used :: float64
  xm_Time :: int
  xm_Total :: float64
  xm_Unit :: string
  xm_Limited :: bool

record systats_Swap =
  xs_PercentageUsed :: float64
  xs_Free :: float64
  xs_Used :: float64
  xs_Time :: int
  xs_Total :: float64
  xs_Unit :: string

record systats_DiskUsage =
  xdu_Size :: float64
  xdu_Used :: float64
  xdu_Available :: float64
  xdu_Usage :: string
  xdu_Unit :: string

record systats_Disk =
  xdk_FileSystem :: string
  xdk_Type :: string
  xdk_MountedOn :: string
  xdk_Usage :: systats_DiskUsage
  xdk_Inodes :: InodeUsage
  xdk_Time :: int

record systats_Network =
  xnw_Interface :: string
  xnw_Ip :: string
  xnw_Usage :: NetworkUsage
  xnw_Time :: int
  xnw_Ipv6 :: string
  xnw_MacAddress :: string

record systats_DiskIO =
  xdio_Device :: string

record systats_Pressure =
  xps_Available :: bool
  xps_CPU :: ResourcePressure
  xps_Memory :: ResourcePressure
  xps_IO :: ResourcePressure
  xps_Limited :: bool
  xps_Time :: int

record systats_Layer =
  xl_Available :: bool
  xl_Size :: float64

record systats_Container =
  xco_ID :: string
  xco_ShortID :: string
  xco_Name :: string
  xco_Image :: string
  xco_State :: string
  xco_Runtime :: string
  xco_Labels :: "string \<rightharpoonup> string"
  xco_MetadataAvailable :: bool
  xco_PodUID :: string
  xco_CPU :: ContainerCPU
  xco_Memory :: ContainerMemory
  xco_Interfaces :: "(int \<times> int) list"
  xco_SharesHostNetwork :: bool
  xco_Accessible :: bool
  xco_BlockIO :: "(int \<times> int) list"
  xco_Pids :: ContainerPids
  xco_Pressure :: systats_Pressure
  xco_Layer :: systats_Layer
  xco_Time :: int

record systats_ContainerRates =
  xcr_RxBytesPerSec :: float64
  xcr_TxBytesPerSec :: float64
  xcr_ReadBytesPerSec :: float64
  xcr_WriteBytesPerSec :: float64
  xcr_CPUThrottledSecPerSec :: float64

text \<open>
  The other structs of systats have the fields of a wire type and possibly more: users, the system, CPU, processes, disk rates, TCP states, the parts of
  pressure and temperatures. For them the wire type's record scheme stands for systats' struct, and the conversion copies the known fields.
\<close>

section \<open>Conversions\<close>

definition fromSystatsUser :: "'z LoggedInUser_scheme \<Rightarrow> LoggedInUser" where
  "fromSystatsUser u = \<lparr>us_Username = us_Username u, us_RemoteHost = us_RemoteHost u, us_LoggedInTime = us_LoggedInTime u\<rparr>"

definition fromSystatsSystem :: "'z System_scheme \<Rightarrow> System" where
  "fromSystatsSystem s = \<lparr>sy_HostName = sy_HostName s, sy_OS = sy_OS s, sy_Kernel = sy_Kernel s, sy_UpTime = sy_UpTime s,
     sy_LastBootDate = sy_LastBootDate s, sy_LoggedInUsers = map fromSystatsUser (sy_LoggedInUsers s), sy_Time = sy_Time s,
     sy_TimeZone = sy_TimeZone s, sy_UpTimeSeconds = sy_UpTimeSeconds s\<rparr>"

definition fromSystatsCPU :: "'z CPU_scheme \<Rightarrow> CPU" where
  "fromSystatsCPU c = \<lparr>cpu_LoadAvg = cpu_LoadAvg c, cpu_CoreAvg = cpu_CoreAvg c, cpu_Model = cpu_Model c, cpu_NoOfCores = cpu_NoOfCores c,
     cpu_Freq = cpu_Freq c, cpu_Cache = cpu_Cache c, cpu_Time = cpu_Time c, cpu_Load1 = cpu_Load1 c, cpu_Load5 = cpu_Load5 c,
     cpu_Load15 = cpu_Load15 c, cpu_PhysicalCores = cpu_PhysicalCores c, cpu_Sockets = cpu_Sockets c, cpu_Limited = cpu_Limited c,
     cpu_AllocatedCores = cpu_AllocatedCores c\<rparr>"

definition fromSystatsMemory :: "odd_uint \<Rightarrow> systats_Memory \<Rightarrow> Memory" where
  "fromSystatsMemory big m = \<lparr>mem_PercentageUsed = xm_PercentageUsed m, mem_Available = toUint big (xm_Available m),
     mem_Free = toUint big (xm_Free m), mem_Used = toUint big (xm_Used m), mem_Time = xm_Time m, mem_Total = toUint big (xm_Total m),
     mem_Unit = xm_Unit m, mem_Limited = xm_Limited m\<rparr>"

definition fromSystatsSwap :: "odd_uint \<Rightarrow> systats_Swap \<Rightarrow> Swap" where
  "fromSystatsSwap big s = \<lparr>sw_PercentageUsed = xs_PercentageUsed s, sw_Free = toUint big (xs_Free s), sw_Used = toUint big (xs_Used s),
     sw_Time = xs_Time s, sw_Total = toUint big (xs_Total s), sw_Unit = xs_Unit s\<rparr>"

definition fromSystatsDisk :: "odd_uint \<Rightarrow> systats_Disk \<Rightarrow> Disk" where
  "fromSystatsDisk big d = \<lparr>dk_FileSystem = xdk_FileSystem d, dk_Type = xdk_Type d, dk_MountedOn = xdk_MountedOn d,
     dk_Usage = \<lparr>du_Size = toUint big (xdu_Size (xdk_Usage d)), du_Used = toUint big (xdu_Used (xdk_Usage d)),
       du_Available = toUint big (xdu_Available (xdk_Usage d)), du_Usage = xdu_Usage (xdk_Usage d), du_Unit = xdu_Unit (xdk_Usage d)\<rparr>,
     dk_Inodes = \<lparr>iu_Inodes = iu_Inodes (xdk_Inodes d), iu_Available = iu_Available (xdk_Inodes d), iu_Used = iu_Used (xdk_Inodes d),
       iu_Usage = iu_Usage (xdk_Inodes d)\<rparr>,
     dk_Time = xdk_Time d\<rparr>"

definition fromSystatsNetwork :: "systats_Network \<Rightarrow> Network" where
  "fromSystatsNetwork n = \<lparr>nw_Interface = xnw_Interface n, nw_Ip = xnw_Ip n,
     nw_Usage = \<lparr>nu_RxBytes = nu_RxBytes (xnw_Usage n), nu_TxBytes = nu_TxBytes (xnw_Usage n), nu_RxPackets = nu_RxPackets (xnw_Usage n),
       nu_TxPackets = nu_TxPackets (xnw_Usage n), nu_State = nu_State (xnw_Usage n)\<rparr>,
     nw_Time = xnw_Time n, nw_Ipv6 = xnw_Ipv6 n, nw_MacAddress = xnw_MacAddress n, nw_Rates = None\<rparr>"

definition fromSystatsProcess :: "'z Process_scheme \<Rightarrow> Process" where
  "fromSystatsProcess p = \<lparr>pr_Pid = pr_Pid p, pr_ExecPath = pr_ExecPath p, pr_User = pr_User p, pr_CPUUsage = pr_CPUUsage p,
     pr_MemUsage = pr_MemUsage p, pr_Name = pr_Name p, pr_State = pr_State p, pr_StateName = pr_StateName p, pr_Threads = pr_Threads p,
     pr_OpenFDs = pr_OpenFDs p, pr_FDsAccessible = pr_FDsAccessible p,
     pr_IO = \<lparr>pio_ReadBytes = pio_ReadBytes (pr_IO p), pio_WriteBytes = pio_WriteBytes (pr_IO p), pio_ReadChars = pio_ReadChars (pr_IO p),
       pio_WriteChars = pio_WriteChars (pr_IO p), pio_Accessible = pio_Accessible (pr_IO p)\<rparr>\<rparr>"

definition fromSystatsProcesses :: "'z Process_scheme list \<Rightarrow> Process list" where
  "fromSystatsProcesses ps = map fromSystatsProcess ps"

definition fromSystatsDiskIORates :: "'z DiskIO_scheme \<Rightarrow> DiskIO" where
  "fromSystatsDiskIORates r = \<lparr>dio_Device = dio_Device r, dio_ReadsPerSec = dio_ReadsPerSec r, dio_WritesPerSec = dio_WritesPerSec r,
     dio_ReadBytesPerSec = dio_ReadBytesPerSec r, dio_WriteBytesPerSec = dio_WriteBytesPerSec r, dio_UtilPercent = dio_UtilPercent r\<rparr>"

definition fromSystatsTCPStates :: "'z TCPStates_scheme \<Rightarrow> TCPStates" where
  "fromSystatsTCPStates t = \<lparr>tcp_Established = tcp_Established t, tcp_SynSent = tcp_SynSent t, tcp_SynRecv = tcp_SynRecv t,
     tcp_FinWait1 = tcp_FinWait1 t, tcp_FinWait2 = tcp_FinWait2 t, tcp_TimeWait = tcp_TimeWait t, tcp_Close = tcp_Close t,
     tcp_CloseWait = tcp_CloseWait t, tcp_LastAck = tcp_LastAck t, tcp_Listen = tcp_Listen t, tcp_Closing = tcp_Closing t,
     tcp_NewSynRecv = tcp_NewSynRecv t, tcp_Unknown = tcp_Unknown t, tcp_Total = tcp_Total t, tcp_Time = tcp_Time t\<rparr>"

definition fromSystatsPressureMetric :: "'z PressureMetric_scheme \<Rightarrow> PressureMetric" where
  "fromSystatsPressureMetric m = \<lparr>pm_Avg10 = pm_Avg10 m, pm_Avg60 = pm_Avg60 m, pm_Avg300 = pm_Avg300 m, pm_Total = pm_Total m\<rparr>"

definition fromSystatsResourcePressure :: "'z ResourcePressure_scheme \<Rightarrow> ResourcePressure" where
  "fromSystatsResourcePressure r = \<lparr>rp_Some = fromSystatsPressureMetric (rp_Some r), rp_Full = fromSystatsPressureMetric (rp_Full r),
     rp_FullAvailable = rp_FullAvailable r\<rparr>"

definition fromSystatsPressure :: "systats_Pressure \<Rightarrow> Pressure" where
  "fromSystatsPressure p = \<lparr>ps_CPU = fromSystatsResourcePressure (xps_CPU p), ps_Memory = fromSystatsResourcePressure (xps_Memory p),
     ps_IO = fromSystatsResourcePressure (xps_IO p), ps_Limited = xps_Limited p, ps_Time = xps_Time p\<rparr>"

definition fromSystatsTemperature :: "'z Temperature_scheme \<Rightarrow> Temperature" where
  "fromSystatsTemperature t = \<lparr>te_Name = te_Name t, te_Label = te_Label t, te_Celsius = te_Celsius t, te_High = te_High t,
     te_HighAvailable = te_HighAvailable t, te_Critical = te_Critical t, te_CriticalAvailable = te_CriticalAvailable t\<rparr>"

text \<open>The counters of a container's interfaces and devices are added up; the sums wrap.\<close>

definition fromSystatsContainer :: "'c systats_Container_scheme \<Rightarrow> Container" where
  "fromSystatsContainer c = \<lparr>co_ID = xco_ID c, co_ShortID = xco_ShortID c, co_Name = xco_Name c, co_Image = xco_Image c, co_State = xco_State c,
     co_Runtime = xco_Runtime c, co_ComposeProject = (case xco_Labels c ''com.docker.compose.project'' of None \<Rightarrow> [] | Some p \<Rightarrow> p),
     co_MetadataAvailable = xco_MetadataAvailable c, co_PodUID = xco_PodUID c, co_Namespace = [], co_Pod = [],
     co_CPU = (let u = xco_CPU c in \<lparr>cc_CoresUsed = cc_CoresUsed u, cc_PercentOfHost = cc_PercentOfHost u, cc_PercentOfLimit = cc_PercentOfLimit u,
       cc_Limited = cc_Limited u, cc_AllocatedCores = cc_AllocatedCores u, cc_ThrottledSeconds = cc_ThrottledSeconds u\<rparr>),
     co_Memory = (let m = xco_Memory c in \<lparr>cy_Used = cy_Used m, cy_Limit = cy_Limit m, cy_Limited = cy_Limited m,
       cy_PercentageUsed = cy_PercentageUsed m, cy_OOMKills = cy_OOMKills m\<rparr>),
     co_Network = \<lparr>cn_RxBytes = foldl (\<lambda>n (rx, tx). wrapu64 (n + rx)) 0 (xco_Interfaces c),
       cn_TxBytes = foldl (\<lambda>n (rx, tx). wrapu64 (n + tx)) 0 (xco_Interfaces c),
       cn_SharesHostNetwork = xco_SharesHostNetwork c, cn_Accessible = xco_Accessible c\<rparr>,
     co_BlockIO = \<lparr>cb_ReadBytes = foldl (\<lambda>n (rd, wr). wrapu64 (n + rd)) 0 (xco_BlockIO c),
       cb_WriteBytes = foldl (\<lambda>n (rd, wr). wrapu64 (n + wr)) 0 (xco_BlockIO c)\<rparr>,
     co_Pids = \<lparr>cp_Current = cp_Current (xco_Pids c), cp_Max = cp_Max (xco_Pids c), cp_Limited = cp_Limited (xco_Pids c)\<rparr>,
     co_Pressure = (if xps_Available (xco_Pressure c) then Some (fromSystatsPressure (xco_Pressure c)) else None),
     co_LayerSize = (if xl_Available (xco_Layer c) then Some (xl_Size (xco_Layer c)) else None),
     co_Rates = None, co_Time = xco_Time c\<rparr>"

definition fromSystatsContainerRates :: "systats_ContainerRates \<Rightarrow> ContainerNetwork \<Rightarrow> ContainerRates" where
  "fromSystatsContainerRates r network =
     (let traffic = cn_Accessible network \<and> \<not> cn_SharesHostNetwork network in
      \<lparr>cr_RxBytesPerSec = (if traffic then Some (xcr_RxBytesPerSec r) else None),
       cr_TxBytesPerSec = (if traffic then Some (xcr_TxBytesPerSec r) else None),
       cr_ReadBytesPerSec = xcr_ReadBytesPerSec r, cr_WriteBytesPerSec = xcr_WriteBytesPerSec r,
       cr_CPUThrottledSecPerSec = xcr_CPUThrottledSecPerSec r\<rparr>)"

section \<open>The containers of pods\<close>

record podContainer =
  pc_namespace :: string
  pc_pod :: string
  pc_name :: string
  pc_image :: string
  pc_state :: string
  pc_sandbox :: bool

text \<open>What CRI lists of a container: its ID, labels, the name in its metadata, the images and the name of its state.\<close>

record criContainer =
  ri_Id :: string
  ri_Labels :: "string \<rightharpoonup> string"
  ri_Name :: string
  ri_UserSpecifiedImage :: string
  ri_Image :: string
  ri_State :: string

definition label_of :: "(string \<rightharpoonup> string) \<Rightarrow> string \<Rightarrow> string" where
  "label_of labels l = (case labels l of None \<Rightarrow> [] | Some v \<Rightarrow> v)"

definition TrimPrefix :: "string \<Rightarrow> string \<Rightarrow> string" where
  "TrimPrefix s p = (if HasPrefix s p then drop (length p) s else s)"

definition cri_container :: "criContainer \<Rightarrow> podContainer" where
  "cri_container c =
     (let name = label_of (ri_Labels c) ''io.kubernetes.container.name''
      in \<lparr>pc_namespace = label_of (ri_Labels c) ''io.kubernetes.pod.namespace'', pc_pod = label_of (ri_Labels c) ''io.kubernetes.pod.name'',
          pc_name = (if name = [] then ri_Name c else name),
          pc_image = (if ri_UserSpecifiedImage c = [] then ri_Image c else ri_UserSpecifiedImage c),
          pc_state = ToLower (TrimPrefix (ri_State c) ''CONTAINER_''), pc_sandbox = False\<rparr>)"

text \<open>The two lists the socket answers with, the second the IDs of the pod sandboxes. The first error ends it.\<close>

definition cri_podContainers :: "criContainer list result \<Rightarrow> string list result \<Rightarrow> (string \<rightharpoonup> podContainer) result" where
  "cri_podContainers listed sandboxes = (case listed of Inl e \<Rightarrow> Inl e | Inr cs \<Rightarrow>
     (let containers = foldl (\<lambda>m c. if label_of (ri_Labels c) ''io.kubernetes.pod.name'' = [] then m else m(ri_Id c \<mapsto> cri_container c)) Map.empty cs
      in case sandboxes of Inl e \<Rightarrow> Inl e | Inr ids \<Rightarrow>
        Inr (foldl (\<lambda>m i. m(i \<mapsto> \<lparr>pc_namespace = [], pc_pod = [], pc_name = [], pc_image = [], pc_state = [], pc_sandbox = True\<rparr>)) containers ids)))"

definition pod_apply :: "podContainer \<Rightarrow> Container \<Rightarrow> Container" where
  "pod_apply p c =
     c\<lparr>co_Namespace := pc_namespace p, co_Pod := pc_pod p, co_Name := pc_namespace p @ ''/'' @ pc_pod p @ ''/'' @ pc_name p,
       co_Image := (if pc_image p \<noteq> [] then pc_image p else co_Image c), co_State := pc_state p, co_MetadataAvailable := True\<rparr>"

text \<open>The named container, or None for one that is left out.\<close>

definition namePodContainer :: "Container \<Rightarrow> (string \<rightharpoonup> podContainer) option \<Rightarrow> Container option" where
  "namePodContainer container pods = (case pods of None \<Rightarrow> Some container
     | Some m \<Rightarrow> (case m (co_ID container) of
         None \<Rightarrow> if co_PodUID container = [] then Some container else None
       | Some pod \<Rightarrow> if pc_sandbox pod then None else Some (pod_apply pod container)))"

section \<open>The collector\<close>

record ServiceToMonitor =
  sm_Name :: string
  sm_ServiceName :: string

text \<open>Of the agent's configuration, what the collector reads.\<close>

record AgentConfig =
  ag_ServerId :: string
  ag_DisksToIgnore :: string
  ag_Services :: "ServiceToMonitor list"
  ag_DisabledCollectors :: "string list"
  ag_ContainerAware :: bool
  ag_ContainerSocket :: string
  ag_ContainerLayerSize :: bool
  ag_CRISocket :: string

definition CollectorDiskIO :: string where "CollectorDiskIO = ''diskio''"
definition CollectorTCP :: string where "CollectorTCP = ''tcp''"
definition CollectorPressure :: string where "CollectorPressure = ''pressure''"
definition CollectorTemps :: string where "CollectorTemps = ''temps''"
definition CollectorContainers :: string where "CollectorContainers = ''containers''"

text \<open>\<open>st_socket\<close> is None for the socket systats uses by itself.\<close>

record stats_settings =
  st_ContainerAware :: bool
  st_socket :: "string option"
  st_ContainerLayerSize :: bool

record ('d, 'c) Collector =
  cl_config :: AgentConfig
  cl_stats :: stats_settings
  cl_enabled :: "string \<rightharpoonup> bool"
  cl_prevDiskIO :: "string \<rightharpoonup> 'd systats_DiskIO_scheme"
  cl_prevDiskIOTime :: time
  cl_prevNetworks :: "string \<rightharpoonup> NetworkUsage"
  cl_prevNetTime :: time
  cl_prevContainers :: "string \<rightharpoonup> 'c systats_Container_scheme"
  cl_prevContainersTime :: time
  cl_containersFailed :: bool
  cl_cri :: bool
  cl_criFailed :: bool

definition NewCollector :: "AgentConfig \<Rightarrow> ('d, 'c) Collector" where
  "NewCollector config =
     \<lparr>cl_config = config,
      cl_stats = \<lparr>st_ContainerAware = ag_ContainerAware config,
        st_socket = (if ag_ContainerSocket config \<noteq> [] then Some (ag_ContainerSocket config) else None),
        st_ContainerLayerSize = ag_ContainerLayerSize config\<rparr>,
      cl_enabled = foldl (\<lambda>m name. if m name = None then m else m(name \<mapsto> False))
        [CollectorDiskIO \<mapsto> True, CollectorTCP \<mapsto> True, CollectorPressure \<mapsto> True, CollectorTemps \<mapsto> True, CollectorContainers \<mapsto> True]
        (ag_DisabledCollectors config),
      cl_prevDiskIO = Map.empty, cl_prevDiskIOTime = zero_time, cl_prevNetworks = Map.empty, cl_prevNetTime = zero_time,
      cl_prevContainers = Map.empty, cl_prevContainersTime = zero_time, cl_containersFailed = False, cl_cri = False, cl_criFailed = False\<rparr>"

definition is_enabled :: "('d, 'c) Collector \<Rightarrow> string \<Rightarrow> bool" where
  "is_enabled c name \<longleftrightarrow> cl_enabled c name = Some True"

text \<open>
  What one round reads. \<open>'a reading\<close> is a value with the error beside it. The clock is read for the snapshot, and after the networks, the disks and the
  containers; \<open>new_cri\<close> is what making the CRI client gives.
\<close>

type_synonym 'a reading = "'a \<times> error option"

record ('d, 'c) samples =
  in_now :: time
  in_System :: "System reading"
  in_Memory :: "systats_Memory reading"
  in_Swap :: "systats_Swap reading"
  in_Disks :: "systats_Disk list reading"
  in_CPU :: "CPU reading"
  in_Networks :: "systats_Network list reading"
  in_net_time :: time
  in_running :: "string \<Rightarrow> bool reading"
  in_TopCPU :: "Process list reading"
  in_TopMemory :: "Process list reading"
  in_DiskIO :: "'d systats_DiskIO_scheme list result"
  in_disk_time :: time
  in_TCP :: "TCPStates result"
  in_Pressure :: "systats_Pressure result"
  in_Temperatures :: "Temperature list result"
  in_Containers :: "'c systats_Container_scheme list result"
  in_container_time :: time
  in_new_cri :: "unit result"
  in_cri_containers :: "criContainer list result"
  in_cri_sandboxes :: "string list result"

text \<open>\<open>RatesSince\<close> of systats, for disks and for containers.\<close>

record ('d, 'c) rates_since =
  rs_disk :: "'d systats_DiskIO_scheme \<Rightarrow> 'd systats_DiskIO_scheme \<Rightarrow> float64 \<Rightarrow> DiskIO"
  rs_container :: "'c systats_Container_scheme \<Rightarrow> 'c systats_Container_scheme \<Rightarrow> float64 \<Rightarrow> systats_ContainerRates"

fun Split_char :: "char \<Rightarrow> string \<Rightarrow> string list" where
  "Split_char d [] = [[]]"
| "Split_char d (c # cs) = (if c = d then [] # Split_char d cs else (case Split_char d cs of [] \<Rightarrow> [[c]] | w # ws \<Rightarrow> (c # w) # ws))"

definition ignoredDisk :: "AgentConfig \<Rightarrow> string \<Rightarrow> bool" where
  "ignoredDisk config fileSystem \<longleftrightarrow> list_ex (\<lambda>d. fileSystem = TrimSpace d) (Split_char CHR '','' (ag_DisksToIgnore config))"

definition skippedFsTypes :: "string \<Rightarrow> bool" where
  "skippedFsTypes t \<longleftrightarrow> t \<in> {''squashfs'', ''overlay''}"

definition keepDisk :: "AgentConfig \<Rightarrow> systats_Disk \<Rightarrow> bool" where
  "keepDisk config disk \<longleftrightarrow> \<not> ignoredDisk config (xdk_FileSystem disk) \<and> \<not> skippedFsTypes (xdk_Type disk)"

definition disks_of :: "odd_uint \<Rightarrow> AgentConfig \<Rightarrow> systats_Disk list reading \<Rightarrow> Disk list" where
  "disks_of big config disks = map (fromSystatsDisk big) (filter (keepDisk config) (fst disks))"

definition networkRates :: "NetworkUsage \<Rightarrow> NetworkUsage \<Rightarrow> float64 \<Rightarrow> NetworkRates option" where
  "networkRates prev cur elapsedSeconds =
     (if f_le elapsedSeconds (Fin 0) \<or> nu_RxBytes cur < nu_RxBytes prev \<or> nu_TxBytes cur < nu_TxBytes prev \<or>
         nu_RxPackets cur < nu_RxPackets prev \<or> nu_TxPackets cur < nu_TxPackets prev then None
      else Some \<lparr>nr_RxBytesPerSec = f_div (f_of_int (nu_RxBytes cur - nu_RxBytes prev)) elapsedSeconds,
        nr_TxBytesPerSec = f_div (f_of_int (nu_TxBytes cur - nu_TxBytes prev)) elapsedSeconds,
        nr_RxPacketsPerSec = f_div (f_of_int (nu_RxPackets cur - nu_RxPackets prev)) elapsedSeconds,
        nr_TxPacketsPerSec = f_div (f_of_int (nu_TxPackets cur - nu_TxPackets prev)) elapsedSeconds\<rparr>)"

definition elapsed :: "time \<Rightarrow> time \<Rightarrow> float64" where
  "elapsed sampled prev = dur_Seconds (time_sub sampled prev)"

definition networks_of :: "systats_Network list reading \<Rightarrow> time \<Rightarrow> ('d, 'c) Collector \<Rightarrow> Network list \<times> ('d, 'c) Collector" where
  "networks_of stats sampled c =
     (let since = elapsed sampled (cl_prevNetTime c);
          networks = map (\<lambda>n. let network = fromSystatsNetwork n in
             case cl_prevNetworks c (nw_Interface network) of
               None \<Rightarrow> network
             | Some prev \<Rightarrow> network\<lparr>nw_Rates := networkRates prev (nw_Usage network) since\<rparr>) (fst stats);
          current = foldl (\<lambda>m n. m(nw_Interface n \<mapsto> nw_Usage n)) Map.empty networks
      in (networks, c\<lparr>cl_prevNetworks := current, cl_prevNetTime := sampled\<rparr>))"

definition services_of :: "(string \<Rightarrow> bool reading) \<Rightarrow> ServiceToMonitor list \<Rightarrow> string \<Rightarrow> Service list" where
  "services_of running services unixTime =
     map (\<lambda>s. \<lparr>sv_Name = sm_Name s, sv_Running = fst (running (sm_ServiceName s)), sv_Time = unixTime\<rparr>) services"

definition diskIO_of ::
  "('d, 'c) rates_since \<Rightarrow> 'd systats_DiskIO_scheme list result \<Rightarrow> time \<Rightarrow> ('d, 'c) Collector \<Rightarrow> DiskIO list \<times> ('d, 'c) Collector" where
  "diskIO_of rs read sampled c = (case read of Inl _ \<Rightarrow> ([], c) | Inr samples \<Rightarrow>
     (let since = elapsed sampled (cl_prevDiskIOTime c);
          kept = filter (\<lambda>x. \<not> ignoredDisk (cl_config c) (''/dev/'' @ xdio_Device x)) samples;
          rates = List.map_filter (\<lambda>x. map_option (\<lambda>prev. fromSystatsDiskIORates (rs_disk rs x prev since)) (cl_prevDiskIO c (xdio_Device x))) kept
      in (rates, c\<lparr>cl_prevDiskIO := foldl (\<lambda>m x. m(xdio_Device x \<mapsto> x)) Map.empty kept, cl_prevDiskIOTime := sampled\<rparr>)))"

definition tcpStates_of :: "TCPStates result \<Rightarrow> TCPStates option" where
  "tcpStates_of read = (case read of Inl _ \<Rightarrow> None | Inr states \<Rightarrow> Some (fromSystatsTCPStates states))"

definition pressure_of :: "systats_Pressure result \<Rightarrow> Pressure option" where
  "pressure_of read = (case read of Inl _ \<Rightarrow> None | Inr p \<Rightarrow> if \<not> xps_Available p then None else Some (fromSystatsPressure p))"

definition temperatures_of :: "Temperature list result \<Rightarrow> Temperature list" where
  "temperatures_of read = (case read of Inl _ \<Rightarrow> [] | Inr temps \<Rightarrow> map fromSystatsTemperature temps)"

text \<open>CRI is asked only when some container has a pod; its client is made once. An error is logged only the first time in a row.\<close>

definition podContainers ::
  "('d, 'c) samples \<Rightarrow> 'c systats_Container_scheme list \<Rightarrow> ('d, 'c) Collector \<Rightarrow> (string \<rightharpoonup> podContainer) option \<times> ('d, 'c) Collector" where
  "podContainers ins samples c =
     (if \<not> list_ex (\<lambda>x. xco_PodUID x \<noteq> []) samples then (None, c)
      else if \<not> cl_cri c \<and> in_new_cri ins \<noteq> Inr () then (None, c)
      else let c = c\<lparr>cl_cri := True\<rparr> in (case cri_podContainers (in_cri_containers ins) (in_cri_sandboxes ins) of
        Inl _ \<Rightarrow> (None, c\<lparr>cl_criFailed := True\<rparr>)
      | Inr pods \<Rightarrow> (Some pods, c\<lparr>cl_criFailed := False\<rparr>)))"

definition containers_of :: "('d, 'c) rates_since \<Rightarrow> ('d, 'c) samples \<Rightarrow> ('d, 'c) Collector \<Rightarrow> Container list \<times> ('d, 'c) Collector" where
  "containers_of rs ins c = (case in_Containers ins of
     Inl _ \<Rightarrow> ([], c\<lparr>cl_containersFailed := True\<rparr>)
   | Inr samples \<Rightarrow>
      (let c = c\<lparr>cl_containersFailed := False\<rparr>;
           since = elapsed (in_container_time ins) (cl_prevContainersTime c);
           (pods, c) = podContainers ins samples c;
           named = List.map_filter (\<lambda>x. map_option (\<lambda>k. (x, k)) (namePodContainer (fromSystatsContainer x) pods)) samples;
           containers = map (\<lambda>(x, k). case cl_prevContainers c (xco_ID x) of
               Some prev \<Rightarrow> if f_lt (Fin 0) since then k\<lparr>co_Rates := Some (fromSystatsContainerRates (rs_container rs x prev since) (co_Network k))\<rparr> else k
             | None \<Rightarrow> k) named
       in (containers, c\<lparr>cl_prevContainers := foldl (\<lambda>m (x, k). m(xco_ID x \<mapsto> x)) Map.empty named, cl_prevContainersTime := in_container_time ins\<rparr>)))"

definition Collect :: "odd_uint \<Rightarrow> ('d, 'c) rates_since \<Rightarrow> string \<Rightarrow> ('d, 'c) samples \<Rightarrow> ('d, 'c) Collector \<Rightarrow> MonitorData \<times> ('d, 'c) Collector" where
  "Collect big rs version ins c =
     (let unixTime = Itoa (time_toUnix (in_now ins));
          (networks, c) = networks_of (in_Networks ins) (in_net_time ins) c;
          (diskIO, c) = (if is_enabled c CollectorDiskIO then diskIO_of rs (in_DiskIO ins) (in_disk_time ins) c else ([], c));
          tcp = (if is_enabled c CollectorTCP then tcpStates_of (in_TCP ins) else None);
          pressure = (if is_enabled c CollectorPressure then pressure_of (in_Pressure ins) else None);
          temps = (if is_enabled c CollectorTemps then temperatures_of (in_Temperatures ins) else []);
          (containers, c) = (if is_enabled c CollectorContainers then containers_of rs ins c else ([], c))
      in (\<lparr>md_UnixTime = unixTime, md_System = fromSystatsSystem (fst (in_System ins)), md_Memory = fromSystatsMemory big (fst (in_Memory ins)),
           md_Swap = fromSystatsSwap big (fst (in_Swap ins)), md_Disk = disks_of big (cl_config c) (in_Disks ins),
           md_ProcUsage = fromSystatsCPU (fst (in_CPU ins)), md_Networks = networks,
           md_Processes = \<lparr>pp_CPU = fromSystatsProcesses (fst (in_TopCPU ins)), pp_Memory = fromSystatsProcesses (fst (in_TopMemory ins))\<rparr>,
           md_Services = services_of (in_running ins) (ag_Services (cl_config c)) unixTime, md_ServerId = ag_ServerId (cl_config c),
           md_DiskIO = diskIO, md_TCPStates = tcp, md_Pressure = pressure, md_Temperatures = temps, md_Containers = containers,
           md_AgentVersion = version\<rparr>, c))"

text \<open>The rounds of an agent since it started.\<close>

fun collect_all ::
  "odd_uint \<Rightarrow> ('d, 'c) rates_since \<Rightarrow> string \<Rightarrow> ('d, 'c) samples list \<Rightarrow> ('d, 'c) Collector \<Rightarrow> MonitorData list \<times> ('d, 'c) Collector" where
  "collect_all big rs version [] c = ([], c)"
| "collect_all big rs version (i # is) c =
     (case Collect big rs version i c of (d, c1) \<Rightarrow> (case collect_all big rs version is c1 of (ds, c2) \<Rightarrow> (d # ds, c2)))"

end
