(* ===== verification/GoFloat.thy ===== *)
theory GoFloat
  imports GoStrings
begin

text \<open>
  \<open>strconv.ParseFloat(s, 64)\<close> and \<open>strconv.FormatFloat(x, 'g', -1, 64)\<close>. A number is read exactly and then rounded once; None stands for an error, which
  is bad syntax or a number too large for a float64. There is one zero. The shortest text that reads back as the same float is searched for digit by digit.
\<close>

section \<open>Whole numbers below 2^53 are exact\<close>

lemma bitlen_bounds: "0 < n \<Longrightarrow> 0 < bitlen n \<and> 2 ^ nat (bitlen n - 1) \<le> n \<and> n < 2 ^ nat (bitlen n)"
proof (induction n rule: bitlen.induct)
  case (1 n)
  have unfold: "bitlen n = bitlen (n div 2) + 1"
    using "1.prems" by (subst bitlen.simps) simp
  show ?case
  proof (cases "n = 1")
    case True
    have "bitlen 0 = 0" by (subst bitlen.simps) simp
    with True unfold show ?thesis by simp
  next
    case False
    with "1.prems" have "0 < n div 2" by linarith
    with 1 have IH: "0 < bitlen (n div 2)" "2 ^ nat (bitlen (n div 2) - 1) \<le> n div 2" "n div 2 < 2 ^ nat (bitlen (n div 2))"
      by auto
    have two: "2 ^ nat (bitlen (n div 2)) = (2 :: int) * 2 ^ nat (bitlen (n div 2) - 1)"
      using IH(1) by (simp add: nat_diff_distrib flip: power_Suc)
    have "2 ^ nat (bitlen n) = (2 :: int) * 2 ^ nat (bitlen (n div 2))"
      using IH(1) by (simp add: unfold nat_add_distrib)
    with IH two show ?thesis
      by (auto simp: unfold) linarith+
  qed
qed

lemma pow2_nonneg: "0 \<le> e \<Longrightarrow> pow2 e = 2 ^ nat e"
  by (simp add: pow2_def)

lemma ilog2_of_int:
  assumes "0 < n"
  shows "ilog2 (of_int n) = bitlen n - 1"
proof -
  have one: "bitlen 1 = 1"
    by (simp add: bitlen.simps)
  have q: "quotient_of (of_int n) = (n, 1)"
    by (simp add: of_int_rat quotient_of_Fract)
  have "pow2 (bitlen n - 1) \<le> of_int n"
    using bitlen_bounds [OF assms] by (simp add: pow2_nonneg)
  then show ?thesis
    by (simp add: ilog2_def q one)
qed

lemma bitlen_le: "0 < n \<Longrightarrow> n < 2 ^ k \<Longrightarrow> bitlen n \<le> int k"
proof (rule ccontr)
  assume n: "0 < n" "n < 2 ^ k" and "\<not> bitlen n \<le> int k"
  then have "k \<le> nat (bitlen n - 1)" by linarith
  then have "(2 :: int) ^ k \<le> 2 ^ nat (bitlen n - 1)"
    by (rule power_increasing) simp
  with n bitlen_bounds [OF n(1)] show False by linarith
qed

lemma rnd_of_int [simp]:
  assumes "\<bar>n\<bar> < 2 ^ 53"
  shows "rnd (of_int n) = Fin (of_int n)"
proof (cases "n = 0")
  case False
  define e where "e = max (ilog2 \<bar>of_int n\<bar> - 52) (- 1074)"
  have "ilog2 \<bar>of_int n\<bar> = bitlen \<bar>n\<bar> - 1"
    using ilog2_of_int [of "\<bar>n\<bar>"] False by simp
  moreover have "bitlen \<bar>n\<bar> \<le> 53"
    using bitlen_le [of "\<bar>n\<bar>" 53] False assms by simp
  ultimately have e: "e \<le> 0"
    by (simp add: e_def)
  have "of_int n / pow2 e = of_int (n * 2 ^ nat (- e))"
    using e by (simp add: pow2_def)
  then have r: "of_int (round_half_even (of_int n / pow2 e)) * pow2 e = of_int n"
    by (simp only: round_half_even_of_int) (use e in \<open>simp add: pow2_def\<close>)
  have big: "(2 :: int) ^ 53 < 2 ^ 1024"
    by (rule power_strict_increasing) simp_all
  have "\<not> (2 :: rat) ^ 1024 \<le> of_int n" "\<not> of_int n \<le> - ((2 :: rat) ^ 1024)"
  proof -
    have "of_int n < (of_int (2 ^ 1024) :: rat)" "(of_int (- (2 ^ 1024)) :: rat) < of_int n"
      unfolding of_int_less_iff using assms big by linarith+
    then show "\<not> (2 :: rat) ^ 1024 \<le> of_int n" "\<not> of_int n \<le> - ((2 :: rat) ^ 1024)"
      by (simp_all only: of_int_power of_int_minus of_int_numeral not_le)
  qed
  with False r show ?thesis
    by (simp add: rnd_def Let_def e_def [symmetric])
qed simp

lemma rnd_numeral [simp]: "\<bar>numeral n :: int\<bar> < 2 ^ 53 \<Longrightarrow> rnd (numeral n) = Fin (numeral n)" "rnd 1 = Fin 1"
  using rnd_of_int [of "numeral n"] rnd_of_int [of 1] by simp_all

lemma f_of_int_small [simp]: "\<bar>n\<bar> < 2 ^ 53 \<Longrightarrow> f_of_int n = Fin (of_int n)"
  by (simp add: f_of_int_def)

section \<open>Reading\<close>

definition lower_char :: "char \<Rightarrow> char" where
  "lower_char c = ascii_lower c"

definition hex_letter :: "char \<Rightarrow> bool" where
  "hex_letter c \<longleftrightarrow> lower_char c \<in> set ''abcdef''"

definition float_digit :: "bool \<Rightarrow> char \<Rightarrow> bool" where
  "float_digit hex c \<longleftrightarrow> is_digit c \<or> hex \<and> hex_letter c"

definition float_digit_value :: "char \<Rightarrow> int" where
  "float_digit_value c = (if is_digit c then digit_value c else int (of_char (lower_char c)) - 87)"

text \<open>The mantissa: whether there were digits, their value, how many came after the dot, and what is left.\<close>

fun read_mantissa :: "bool \<Rightarrow> bool \<Rightarrow> bool \<times> int \<times> int \<Rightarrow> string \<Rightarrow> bool \<times> int \<times> int \<times> string" where
  "read_mantissa hex dot (saw, m, places) [] = (saw, m, places, [])"
| "read_mantissa hex dot (saw, m, places) (c # cs) =
     (if c = CHR ''_'' then read_mantissa hex dot (saw, m, places) cs
      else if c = CHR ''.'' then (if dot then (saw, m, places, c # cs) else read_mantissa hex True (saw, m, places) cs)
      else if float_digit hex c
        then read_mantissa hex dot (True, m * (if hex then 16 else 10) + float_digit_value c, if dot then places + 1 else places) cs
      else (saw, m, places, c # cs))"

definition read_exponent :: "string \<Rightarrow> int option" where
  "read_exponent s =
     (let (neg, s) = (case s of [] \<Rightarrow> (False, s) | c # cs \<Rightarrow> if c = CHR ''+'' then (False, cs) else if c = CHR ''-'' then (True, cs) else (False, s))
      in if s = [] \<or> \<not> is_digit (hd s) \<or> \<not> list_all (\<lambda>c. is_digit c \<or> c = CHR ''_'') s then None
         else (let e = digits_value (filter is_digit s) in Some (if neg then - e else e)))"

definition pow_of :: "rat \<Rightarrow> int \<Rightarrow> rat" where
  "pow_of b e = (if 0 \<le> e then b ^ nat e else 1 / b ^ nat (- e))"

text \<open>Underscores have to stand between digits; the base prefix counts as one.\<close>

fun underscores_from :: "bool \<Rightarrow> char \<Rightarrow> string \<Rightarrow> bool" where
  "underscores_from hex before [] = (before \<noteq> CHR ''_'')"
| "underscores_from hex before (c # cs) =
     (if float_digit hex c then underscores_from hex CHR ''0'' cs
      else if c = CHR ''_'' then before = CHR ''0'' \<and> underscores_from hex CHR ''_'' cs
      else before \<noteq> CHR ''_'' \<and> underscores_from hex CHR ''!'' cs)"

definition drop_sign :: "string \<Rightarrow> string" where
  "drop_sign s = (case s of c # cs \<Rightarrow> if c = CHR ''+'' \<or> c = CHR ''-'' then cs else s | [] \<Rightarrow> [])"

definition underscoreOK :: "string \<Rightarrow> bool" where
  "underscoreOK s = (case drop_sign s of
     z # x # cs \<Rightarrow> if z = CHR ''0'' \<and> lower_char x \<in> set ''box'' then underscores_from (lower_char x = CHR ''x'') CHR ''0'' cs
                   else underscores_from False CHR ''^'' (z # x # cs)
   | s' \<Rightarrow> underscores_from False CHR ''^'' s')"

definition read_number :: "string \<Rightarrow> rat option" where
  "read_number s =
     (let hex = (length s > 2 \<and> s ! 0 = CHR ''0'' \<and> lower_char (s ! 1) = CHR ''x'');
          (saw, m, places, rest) = read_mantissa hex False (False, 0, 0) (if hex then drop 2 s else s);
          expo = (case rest of
             [] \<Rightarrow> if hex then None else Some 0
           | c # cs \<Rightarrow> if lower_char c = (if hex then CHR ''p'' else CHR ''e'') then read_exponent cs else None)
      in if \<not> saw then None
         else map_option (\<lambda>e. if hex then of_int m * pow_of 16 (- places) * pow_of 2 e else of_int m * pow_of 10 (e - places)) expo)"

definition ParseFloat :: "string \<Rightarrow> float64 option" where
  "ParseFloat s =
     (let low = map lower_char s; neg = (s \<noteq> [] \<and> hd s = CHR ''-'') in
      if low = ''nan'' then Some NaN
      else if drop_sign low = ''inf'' \<or> drop_sign low = ''infinity'' then Some (if neg then NInf else PInf)
      else if CHR ''_'' \<in> set s \<and> \<not> underscoreOK s then None
      else (case read_number (drop_sign s) of
        None \<Rightarrow> None
      | Some x \<Rightarrow> (case rnd (if neg then - x else x) of Fin y \<Rightarrow> Some (Fin y) | _ \<Rightarrow> None)))"

section \<open>Writing\<close>

text \<open>\<open>dec_point x\<close> is the number of digits before the decimal point, at most 0 for a number below 1.\<close>

definition dec_point :: "rat \<Rightarrow> int" where
  "dec_point x = (if 1 \<le> x then int (length (decimal \<lfloor>x\<rfloor>))
     else case find (\<lambda>k. 1 \<le> x * 10 ^ k) [1..<400] of None \<Rightarrow> 0 | Some k \<Rightarrow> 1 - int k)"

text \<open>The numbers with \<open>n\<close> digits next to \<open>x\<close>: the nearest one that rounds to \<open>x\<close>, of two equally near the even one.\<close>

definition digits_of :: "rat \<Rightarrow> nat \<Rightarrow> int option" where
  "digits_of x n =
     (let u = pow_of 10 (dec_point x - int n); lo = \<lfloor>x / u\<rfloor>; hi = lo + 1;
          okdown = (rnd (of_int lo * u) = Fin x); okup = (rnd (of_int hi * u) = Fin x)
      in if okdown \<and> okup then Some (round_half_even (x / u)) else if okdown then Some lo else if okup then Some hi else None)"

definition shortest :: "rat \<Rightarrow> string \<times> int" where
  "shortest x =
     (let n = (case find (\<lambda>n. digits_of x n \<noteq> None) [1..<18] of None \<Rightarrow> 17 | Some n \<Rightarrow> n);
          ds = decimal (case digits_of x n of None \<Rightarrow> round_half_even (x / pow_of 10 (dec_point x - int n)) | Some d \<Rightarrow> d)
      in (TrimRight ds CHR ''0'', int (length ds) + dec_point x - int n))"

definition fmtE :: "string \<Rightarrow> int \<Rightarrow> string" where
  "fmtE ds dp = (if ds = [] then ''0'' else [hd ds]) @ (if tl ds = [] then [] else CHR ''.'' # tl ds) @ ''e'' @ (if dp - 1 < 0 then ''-'' else ''+'') @ pad 2 \<bar>dp - 1\<bar>"

definition fmtF :: "string \<Rightarrow> int \<Rightarrow> string" where
  "fmtF ds dp = (if 0 < dp then take (nat dp) ds @ replicate (nat dp - length ds) CHR ''0'' else ''0'') @
     (if dp < int (length ds) then CHR ''.'' # replicate (nat (- dp)) CHR ''0'' @ drop (nat dp) ds else [])"

fun FormatFloat :: "float64 \<Rightarrow> string" where
  "FormatFloat NaN = ''NaN''"
| "FormatFloat PInf = ''+Inf''"
| "FormatFloat NInf = ''-Inf''"
| "FormatFloat (Fin x) =
     (if x = 0 then ''0''
      else (let (ds, dp) = shortest \<bar>x\<bar> in (if x < 0 then ''-'' else []) @ (if dp - 1 < - 4 \<or> 6 \<le> dp - 1 then fmtE ds dp else fmtF ds dp)))"

section \<open>The characters of a number\<close>

lemma digit_chars: "0 \<le> n \<Longrightarrow> n < 10 \<Longrightarrow> digit n \<in> set ''0123456789''"
proof -
  assume "0 \<le> n" "n < 10"
  then have "n = 0 \<or> n = 1 \<or> n = 2 \<or> n = 3 \<or> n = 4 \<or> n = 5 \<or> n = 6 \<or> n = 7 \<or> n = 8 \<or> n = 9" by presburger
  then show ?thesis by (elim disjE; simp only:; code_simp)
qed

lemma decimal_chars: "0 \<le> n \<Longrightarrow> set (decimal n) \<subseteq> set ''0123456789''"
proof (induction n rule: decimal.induct)
  case (1 n)
  show ?case
  proof (cases "n < 10")
    case True
    with 1 show ?thesis using digit_chars [of n] by (simp add: decimal.simps)
  next
    case False
    with 1 have "set (decimal (n div 10)) \<subseteq> set ''0123456789''" by simp
    moreover have "digit (n mod 10) \<in> set ''0123456789''" by (rule digit_chars) auto
    ultimately show ?thesis using False by (subst decimal.simps) simp
  qed
qed


definition number_char :: "char \<Rightarrow> bool" where
  "number_char c \<longleftrightarrow> c \<in> set ''0123456789.+-eNaInf''"

lemma digits_of_nonneg:
  assumes "0 < x"
  shows "digits_of x n = Some d \<Longrightarrow> 0 \<le> d" and "0 \<le> round_half_even (x / pow_of 10 (dec_point x - int n))"
proof -
  have u: "0 < pow_of 10 e" for e
    by (simp add: pow_of_def)
  then have q: "0 \<le> x / pow_of 10 (dec_point x - int n)"
    using assms by (simp add: less_imp_le)
  then have "0 \<le> \<lfloor>x / pow_of 10 (dec_point x - int n)\<rfloor>" by simp
  with q show "digits_of x n = Some d \<Longrightarrow> 0 \<le> d"
    by (auto simp: digits_of_def Let_def round_half_even_nonneg split: if_splits)
  from q show "0 \<le> round_half_even (x / pow_of 10 (dec_point x - int n))"
    by (rule round_half_even_nonneg)
qed

lemma shortest_chars: "0 < x \<Longrightarrow> set (fst (shortest x)) \<subseteq> set ''0123456789''"
proof -
  assume x: "0 < x"
  have trim: "set (TrimRight s c) \<subseteq> set s" for s c
    by (auto simp: TrimRight_def dest: set_dropWhileD)
  let ?n = "case find (\<lambda>n. digits_of x n \<noteq> None) [1..<18] of None \<Rightarrow> 17 | Some n \<Rightarrow> n"
  let ?d = "case digits_of x ?n of None \<Rightarrow> round_half_even (x / pow_of 10 (dec_point x - int ?n)) | Some d \<Rightarrow> d"
  have "0 \<le> ?d"
    using digits_of_nonneg [OF x] by (auto split: option.splits)
  then have "set (decimal ?d) \<subseteq> set ''0123456789''"
    by (rule decimal_chars)
  with trim [of "decimal ?d"] show ?thesis
    unfolding shortest_def Let_def fst_conv by blast
qed

lemma pad_chars: "0 \<le> n \<Longrightarrow> set (pad w n) \<subseteq> set ''0123456789''"
  using decimal_chars [of n] by (auto simp: pad_def)

lemma FormatFloat_chars: "list_all number_char (FormatFloat v)"
proof (cases v)
  case (Fin x)
  have digits: "c \<in> set ''0123456789'' \<Longrightarrow> number_char c" for c
    by (auto simp: number_char_def)
  show ?thesis
  proof (cases "x = 0")
    case False
    obtain ds dp where s: "shortest \<bar>x\<bar> = (ds, dp)" by fastforce
    have ds: "set ds \<subseteq> set ''0123456789''"
      using shortest_chars [of "\<bar>x\<bar>"] False s by simp
    have sub: "list_all number_char s" if "set s \<subseteq> set ''0123456789''" for s
      using that digits by (auto simp: list_all_iff)
    have part: "set (take n ds) \<subseteq> set ''0123456789''" "set (drop n ds) \<subseteq> set ''0123456789''" "set (tl ds) \<subseteq> set ''0123456789''" for n
      using ds set_take_subset [of n ds] set_drop_subset [of n ds] set_drop_subset [of 1 ds] by (auto simp: drop_Suc)
    have hd: "number_char (hd ds)" if "ds \<noteq> []"
      using ds that digits by (meson hd_in_set subsetD)
    have zeros: "list_all number_char (replicate n CHR ''0'')" for n
      by (simp add: list_all_iff number_char_def)
    have "list_all number_char (fmtE ds dp)"
      using sub [OF part(3)] sub [OF pad_chars [of "\<bar>dp - 1\<bar>" 2]] hd by (simp add: fmtE_def number_char_def)
    moreover have "list_all number_char (fmtF ds dp)"
      using sub [OF part(1)] sub [OF part(2)] zeros by (simp add: fmtF_def number_char_def)
    ultimately show ?thesis
      by (simp add: Fin False s number_char_def)
  qed (simp add: Fin number_char_def)
qed (simp_all add: number_char_def)

end
