(* ===== verification/Ingest.thy ===== *)
theory Ingest
  imports StoreAlerts Api AgentCollect GoFloat
begin

text \<open>
  What agents send and the store keeps: internal/store/ingest.go, the calls for data of internal/api/api.go, and \<open>CollectJSON\<close> of internal/monitor. JSON
  is a pair of functions, \<open>marshal\<close> and \<open>unmarshal\<close>; which snapshots can be marshalled is spelled out. The database can refuse a batch for a value
  it does not take, like a NUL in a text; that is a failed call.
\<close>

section \<open>Snapshots as JSON\<close>

text \<open>\<open>json.Marshal\<close> fails on a float that is not finite and on a time outside the years 0 to 9999.\<close>

fun is_finite :: "float64 \<Rightarrow> bool" where
  "is_finite (Fin _) = True"
| "is_finite _ = False"

definition json_time :: "time \<Rightarrow> bool" where
  "json_time t \<longleftrightarrow> - (366 * 24 * Hour) \<le> t \<and> t < 3652059 * 24 * Hour"

definition pressure_floats :: "Pressure \<Rightarrow> float64 list" where
  "pressure_floats p = concat (map (\<lambda>r. concat (map (\<lambda>m. [pm_Avg10 m, pm_Avg60 m, pm_Avg300 m]) [rp_Some r, rp_Full r])) [ps_CPU p, ps_Memory p, ps_IO p])"

definition container_floats :: "Container \<Rightarrow> float64 list" where
  "container_floats c =
     (let u = co_CPU c; m = co_Memory c in
      [cc_CoresUsed u, cc_PercentOfHost u, cc_PercentOfLimit u, cc_AllocatedCores u, cc_ThrottledSeconds u, cy_Used m, cy_Limit m, cy_PercentageUsed m] @
      (case co_Pressure c of None \<Rightarrow> [] | Some p \<Rightarrow> pressure_floats p) @ (case co_LayerSize c of None \<Rightarrow> [] | Some x \<Rightarrow> [x]) @
      (case co_Rates c of None \<Rightarrow> [] | Some r \<Rightarrow>
         (case cr_RxBytesPerSec r of None \<Rightarrow> [] | Some x \<Rightarrow> [x]) @ (case cr_TxBytesPerSec r of None \<Rightarrow> [] | Some x \<Rightarrow> [x]) @
         [cr_ReadBytesPerSec r, cr_WriteBytesPerSec r, cr_CPUThrottledSecPerSec r]))"

definition process_floats :: "Processes \<Rightarrow> float64 list" where
  "process_floats p = concat (map (\<lambda>x. [pr_CPUUsage x, pr_MemUsage x]) (pp_CPU p @ pp_Memory p))"

definition snapshot_floats :: "MonitorData \<Rightarrow> float64 list" where
  "snapshot_floats d =
     [sy_UpTimeSeconds (md_System d), mem_PercentageUsed (md_Memory d), sw_PercentageUsed (md_Swap d), cpu_Load1 (md_ProcUsage d),
      cpu_Load5 (md_ProcUsage d), cpu_Load15 (md_ProcUsage d), cpu_AllocatedCores (md_ProcUsage d)] @
     concat (map (\<lambda>n. case nw_Rates n of None \<Rightarrow> [] | Some r \<Rightarrow>
       [nr_RxBytesPerSec r, nr_TxBytesPerSec r, nr_RxPacketsPerSec r, nr_TxPacketsPerSec r]) (md_Networks d)) @
     process_floats (md_Processes d) @
     concat (map (\<lambda>x. [dio_ReadsPerSec x, dio_WritesPerSec x, dio_ReadBytesPerSec x, dio_WriteBytesPerSec x, dio_UtilPercent x]) (md_DiskIO d)) @
     (case md_Pressure d of None \<Rightarrow> [] | Some p \<Rightarrow> pressure_floats p) @
     concat (map (\<lambda>t. [te_Celsius t, te_High t, te_Critical t]) (md_Temperatures d)) @ concat (map container_floats (md_Containers d))"

definition marshals :: "MonitorData \<Rightarrow> bool" where
  "marshals d \<longleftrightarrow> list_all is_finite (snapshot_floats d) \<and> json_time (sy_LastBootDate (md_System d)) \<and>
     list_all (\<lambda>u. json_time (us_LoggedInTime u)) (sy_LoggedInUsers (md_System d))"

definition CollectJSON ::
  "(MonitorData \<Rightarrow> string) \<Rightarrow> odd_uint \<Rightarrow> ('d, 'c) rates_since \<Rightarrow> string \<Rightarrow> ('d, 'c) samples \<Rightarrow> ('d, 'c) Collector \<Rightarrow> string \<times> ('d, 'c) Collector" where
  "CollectJSON marshal big rs version ins c = (case Collect big rs version ins c of (data, c') \<Rightarrow>
     (if marshals data then marshal data else [], c'))"

section \<open>Storing a snapshot\<close>

definition parseUnixTime :: "string \<Rightarrow> time result" where
  "parseUnixTime value = (case ParseInt value of (seconds, ok) \<Rightarrow>
     if \<not> ok then Inl (ErrWrap ''%w: bad unix time %q'' [value] ErrInvalid) else Inr (time_Unix seconds))"

definition parsePercent :: "string \<Rightarrow> float64 option" where
  "parsePercent value = ParseFloat (TrimSuffix (TrimSpace value) ''%'')"

definition containerName :: "Container \<Rightarrow> string" where
  "containerName c = (if co_Name c \<noteq> [] then co_Name c else co_ShortID c)"

definition sensorName :: "Temperature \<Rightarrow> string" where
  "sensorName t = (if te_Label t = [] then te_Name t else te_Name t @ ''/'' @ te_Label t)"

definition floatPtr :: "int \<Rightarrow> float64 option" where
  "floatPtr v = Some (f_of_int v)"

definition queueHostMetrics :: "time \<Rightarrow> int \<Rightarrow> MonitorData \<Rightarrow> host_metric_row" where
  "queueHostMetrics moment hid d =
     (let p = md_Pressure d; t = md_TCPStates d; cpu = md_ProcUsage d; m = md_Memory d; sw = md_Swap d;
          psi = (\<lambda>f. map_option (\<lambda>p. pm_Avg10 (rp_Some (f p))) p);
          full = (\<lambda>f. Option.bind p (\<lambda>p. if rp_FullAvailable (f p) then Some (pm_Avg10 (rp_Full (f p))) else None));
          tcp = (\<lambda>f. Option.bind t (\<lambda>t. floatPtr (f t)))
      in \<lparr>hm_time = moment, hm_host_id = hid, hm_cpu_pct = Some (f_of_int (cpu_LoadAvg cpu)), hm_load1 = Some (cpu_Load1 cpu),
          hm_load5 = Some (cpu_Load5 cpu), hm_load15 = Some (cpu_Load15 cpu),
          hm_mem_used_pct = Some (mem_PercentageUsed m), hm_mem_used_mib = Some (f_of_int (mem_Used m)),
          hm_mem_available_mib = Some (f_of_int (mem_Available m)), hm_mem_total_mib = Some (f_of_int (mem_Total m)),
          hm_swap_used_pct = Some (sw_PercentageUsed sw), hm_swap_used_mib = Some (f_of_int (sw_Used sw)),
          hm_swap_total_mib = Some (f_of_int (sw_Total sw)), hm_uptime_seconds = Some (sy_UpTimeSeconds (md_System d)),
          hm_psi_cpu_some = psi ps_CPU, hm_psi_memory_some = psi ps_Memory, hm_psi_memory_full = full ps_Memory,
          hm_psi_io_some = psi ps_IO, hm_psi_io_full = full ps_IO,
          hm_tcp_established = tcp tcp_Established, hm_tcp_time_wait = tcp tcp_TimeWait, hm_tcp_close_wait = tcp tcp_CloseWait,
          hm_tcp_listen = tcp tcp_Listen, hm_tcp_total = tcp tcp_Total\<rparr>)"

definition core_rows :: "time \<Rightarrow> int \<Rightarrow> MonitorData \<Rightarrow> core_row list" where
  "core_rows moment hid d = map (\<lambda>(core, pct). \<lparr>cpm_time = moment, cpm_host_id = hid, cpm_core = int core, cpm_pct = Some (f_of_int pct)\<rparr>)
     (enumerate 0 (cpu_CoreAvg (md_ProcUsage d)))"

definition disk_rows :: "time \<Rightarrow> int \<Rightarrow> MonitorData \<Rightarrow> disk_metric_row list" where
  "disk_rows moment hid d = map (\<lambda>k. \<lparr>dm_time = moment, dm_host_id = hid, dm_device = dk_FileSystem k, dm_mount = dk_MountedOn k, dm_fstype = dk_Type k,
     dm_size_bytes = Some (f_of_int (du_Size (dk_Usage k))), dm_used_bytes = Some (f_of_int (du_Used (dk_Usage k))),
     dm_used_pct = parsePercent (du_Usage (dk_Usage k)), dm_inodes_used_pct = parsePercent (iu_Usage (dk_Inodes k))\<rparr>) (md_Disk d)"

definition disk_io_rows :: "time \<Rightarrow> int \<Rightarrow> MonitorData \<Rightarrow> disk_io_row list" where
  "disk_io_rows moment hid d = map (\<lambda>x. \<lparr>dio_time = moment, dio_host_id = hid, dio_device = ''/dev/'' @ dio_Device x,
     dio_read_bps = Some (dio_ReadBytesPerSec x), dio_write_bps = Some (dio_WriteBytesPerSec x), dio_reads_ps = Some (dio_ReadsPerSec x),
     dio_writes_ps = Some (dio_WritesPerSec x), dio_util_pct = Some (dio_UtilPercent x)\<rparr>) (md_DiskIO d)"

definition net_rows :: "time \<Rightarrow> int \<Rightarrow> MonitorData \<Rightarrow> net_row list" where
  "net_rows moment hid d = map (\<lambda>n. \<lparr>nm_time = moment, nm_host_id = hid, nm_iface = nw_Interface n, nm_state = nu_State (nw_Usage n),
     nm_rx_bps = map_option nr_RxBytesPerSec (nw_Rates n), nm_tx_bps = map_option nr_TxBytesPerSec (nw_Rates n),
     nm_rx_pps = map_option nr_RxPacketsPerSec (nw_Rates n), nm_tx_pps = map_option nr_TxPacketsPerSec (nw_Rates n),
     nm_rx_bytes = Some (f_of_int (nu_RxBytes (nw_Usage n))), nm_tx_bytes = Some (f_of_int (nu_TxBytes (nw_Usage n)))\<rparr>) (md_Networks d)"

definition temp_rows :: "time \<Rightarrow> int \<Rightarrow> MonitorData \<Rightarrow> temp_row list" where
  "temp_rows moment hid d = map (\<lambda>x. \<lparr>tm_time = moment, tm_host_id = hid, tm_sensor = sensorName x, tm_celsius = Some (te_Celsius x)\<rparr>) (md_Temperatures d)"

definition service_rows :: "time \<Rightarrow> int \<Rightarrow> MonitorData \<Rightarrow> service_row list" where
  "service_rows moment hid d = map (\<lambda>x. \<lparr>sv_time = moment, sv_host_id = hid, sv_name = sv_Name x, sv_running = sv_Running x\<rparr>) (md_Services d)"

definition container_rows :: "time \<Rightarrow> int \<Rightarrow> MonitorData \<Rightarrow> container_row list" where
  "container_rows moment hid d = map (\<lambda>c. \<lparr>ctm_time = moment, ctm_host_id = hid, ctm_container_id = co_ID c, ctm_name = containerName c,
     ctm_cpu_cores = Some (cc_CoresUsed (co_CPU c)), ctm_cpu_pct = Some (cc_PercentOfHost (co_CPU c)), ctm_mem_used = Some (cy_Used (co_Memory c)),
     ctm_mem_pct = Some (cy_PercentageUsed (co_Memory c)), ctm_rx_bps = Option.bind (co_Rates c) cr_RxBytesPerSec,
     ctm_tx_bps = Option.bind (co_Rates c) cr_TxBytesPerSec, ctm_read_bps = map_option cr_ReadBytesPerSec (co_Rates c),
     ctm_write_bps = map_option cr_WriteBytesPerSec (co_Rates c), ctm_pids = Some (f_of_int (cp_Current (co_Pids c)))\<rparr>) (md_Containers d)"

text \<open>The newest snapshot stays when an older one arrives late.\<close>

definition upsert_latest :: "int \<Rightarrow> time \<Rightarrow> MonitorData \<Rightarrow> latest_row list \<Rightarrow> latest_row list" where
  "upsert_latest hid moment d rows =
     (if \<exists>l \<in> set rows. hl_host_id l = hid
      then update_where (\<lambda>l. hl_host_id l = hid \<and> hl_time l \<le> moment) (\<lambda>l. l\<lparr>hl_time := moment, hl_snapshot := d\<rparr>) rows
      else rows @ [\<lparr>hl_host_id = hid, hl_time = moment, hl_snapshot = d\<rparr>])"

definition seen_now :: "int \<Rightarrow> time \<Rightarrow> host_row list \<Rightarrow> host_row list" where
  "seen_now hid now rows = update_where (\<lambda>h. h_id h = hid) (\<lambda>h. h\<lparr>h_last_seen := greatest (h_last_seen h) (timestamptz now)\<rparr>) rows"

definition snapshot_tables :: "time \<Rightarrow> time \<Rightarrow> int \<Rightarrow> MonitorData \<Rightarrow> tables \<Rightarrow> tables" where
  "snapshot_tables now moment hid d t =
     t\<lparr>db_host_metrics := db_host_metrics t @ [queueHostMetrics moment hid d], db_cores := db_cores t @ core_rows moment hid d,
       db_disk_metrics := db_disk_metrics t @ disk_rows moment hid d, db_disk_io := db_disk_io t @ disk_io_rows moment hid d,
       db_net_metrics := db_net_metrics t @ net_rows moment hid d, db_temps := db_temps t @ temp_rows moment hid d,
       db_services := db_services t @ service_rows moment hid d, db_containers := db_containers t @ container_rows moment hid d,
       db_processes := db_processes t @ [\<lparr>ps_time = moment, ps_host_id = hid, ps_processes = md_Processes d\<rparr>],
       db_latest := upsert_latest hid moment d (db_latest t), db_hosts := seen_now hid now (db_hosts t)\<rparr>"

text \<open>One batch is one transaction; host_latest has a foreign key to hosts.\<close>

definition snapshot_batch :: "time \<Rightarrow> time \<Rightarrow> int \<Rightarrow> MonitorData \<Rightarrow> (unit, db) act" where
  "snapshot_batch now moment hid d s =
     (if hid \<notin> h_id ` set (db_hosts (tabs s)) then (Inl (ErrDB ''foreign key''), s)
      else (Inr (), s\<lparr>tabs := snapshot_tables now (timestamptz moment) hid d (tabs s)\<rparr>))"

definition SaveSnapshot :: "time \<Rightarrow> MonitorData \<Rightarrow> (unit, db) act" where
  "SaveSnapshot now d =
     bindE (of_result (parseUnixTime (md_UnixTime d))) (\<lambda>moment.
     bindE (hostID (md_ServerId d)) (\<lambda>hid.
     if \<not> marshals d then fail (ErrText ''json: unsupported value'' [])
     else dbcall (snapshot_batch now moment hid d)))"

definition SaveCustomMetric :: "time \<Rightarrow> CustomMetric \<Rightarrow> (unit, db) act" where
  "SaveCustomMetric now metric = (case ParseFloat (TrimSpace (cu_Value metric)) of
     None \<Rightarrow> fail (ErrWrap ''%w: custom metric %s value %q is not a number'' [cu_Name metric, cu_Value metric] ErrInvalid)
   | Some value \<Rightarrow>
       bindE (of_result (parseUnixTime (cu_Time metric))) (\<lambda>moment.
       bindE (hostID (cu_ServerId metric)) (\<lambda>hid.
       exec (\<lambda>t. ((), t\<lparr>db_custom_metrics := db_custom_metrics t @ [\<lparr>cm_time = timestamptz moment, cm_host_id = hid, cm_name = cu_Name metric,
           cm_unit = cu_Unit metric, cm_value = Some value\<rparr>],
         db_hosts := seen_now hid now (db_hosts t)\<rparr>)))))"

section \<open>The collector's calls\<close>

definition HandleMonitorData :: "(string \<Rightarrow> MonitorData result) \<Rightarrow> time \<Rightarrow> string option \<Rightarrow> string \<Rightarrow> (string, db) act" where
  "HandleMonitorData unmarshal now authenticated text = (case unmarshal text of
     Inl e \<Rightarrow> fail (ErrStatus InvalidArgument (ErrWrap ''cannot parse monitor data: '' [] e))
   | Inr data \<Rightarrow>
       (let data = data\<lparr>md_ServerId := call_host authenticated (md_ServerId data)\<rparr> in
        bindE (map_err (agentStatus (md_ServerId data)) (SaveSnapshot now data)) (\<lambda>_. ret ''ok'')))"

definition HandleCustomMonitorData :: "(string \<Rightarrow> CustomMetric result) \<Rightarrow> time \<Rightarrow> string option \<Rightarrow> string \<Rightarrow> (string, db) act" where
  "HandleCustomMonitorData unmarshal now authenticated text = (case unmarshal text of
     Inl e \<Rightarrow> fail (ErrStatus InvalidArgument (ErrWrap ''cannot parse custom metric: '' [] e))
   | Inr metric \<Rightarrow>
       (let metric = metric\<lparr>cu_ServerId := call_host authenticated (cu_ServerId metric)\<rparr> in
        bindE (map_err (agentStatus (cu_ServerId metric)) (SaveCustomMetric now metric)) (\<lambda>_. ret ''ok'')))"

end
