(* ===== verification/StoreQueries.thy ===== *)
theory StoreQueries
  imports Ingest StoreEndpoints
begin

text \<open>
  What the dashboard is shown of the hosts: internal/store/query.go and the calls of internal/api/api.go that pass it on. The rollup custom_metrics_1h, which
  TimescaleDB keeps, and the sums and the order in which it adds them are parameters.
\<close>

section \<open>The fleet\<close>

record HostSummary =
  hs_Name :: string
  hs_LastSeen :: time
  hs_Time :: time
  hs_OS :: string
  hs_UptimeSeconds :: float64
  hs_CPUPct :: float64
  hs_MemUsedPct :: float64
  hs_SwapUsedPct :: float64
  hs_DiskUsedPct :: float64
  hs_RxBps :: float64
  hs_TxBps :: float64
  hs_ActiveAlerts :: int
  hs_WorstSeverity :: int
  hs_Containers :: int
  hs_AgentVersion :: string
  hs_CanUpdate :: bool
  hs_UpdateVersion :: string
  hs_UpdateRequestedAt :: time
  hs_UpdateError :: string

definition fullest :: "float64 \<Rightarrow> Disk list \<Rightarrow> float64" where
  "fullest = foldl (\<lambda>most disk. case parsePercent (du_Usage (dk_Usage disk)) of None \<Rightarrow> most | Some pct \<Rightarrow> if f_lt most pct then pct else most)"

definition total_rate :: "(NetworkRates \<Rightarrow> float64) \<Rightarrow> float64 \<Rightarrow> Network list \<Rightarrow> float64" where
  "total_rate f = foldl (\<lambda>total n. case nw_Rates n of None \<Rightarrow> total | Some r \<Rightarrow> f_add total (f r))"

definition fillSummary :: "HostSummary \<Rightarrow> MonitorData \<Rightarrow> HostSummary" where
  "fillSummary summary d =
     summary\<lparr>hs_OS := sy_OS (md_System d), hs_UptimeSeconds := sy_UpTimeSeconds (md_System d), hs_CPUPct := f_of_int (cpu_LoadAvg (md_ProcUsage d)),
       hs_MemUsedPct := mem_PercentageUsed (md_Memory d), hs_SwapUsedPct := sw_PercentageUsed (md_Swap d),
       hs_Containers := int (length (md_Containers d)), hs_AgentVersion := md_AgentVersion d,
       hs_DiskUsedPct := fullest (hs_DiskUsedPct summary) (md_Disk d), hs_RxBps := total_rate nr_RxBytesPerSec (hs_RxBps summary) (md_Networks d),
       hs_TxBps := total_rate nr_TxBytesPerSec (hs_TxBps summary) (md_Networks d)\<rparr>"

definition latest_of :: "tables \<Rightarrow> int \<Rightarrow> latest_row option" where
  "latest_of t hid = find (\<lambda>l. hl_host_id l = hid) (db_latest t)"

definition open_alerts_of :: "tables \<Rightarrow> int \<Rightarrow> alert_row list" where
  "open_alerts_of t hid = filter (\<lambda>a. a_host_id a = Some hid \<and> is_open a) (db_alerts t)"

definition summary_of :: "tables \<Rightarrow> host_row \<Rightarrow> HostSummary" where
  "summary_of t h =
     (let alerts = open_alerts_of t (h_id h);
          summary = \<lparr>hs_Name = h_name h, hs_LastSeen = time_or_zero (h_last_seen h), hs_Time = zero_time, hs_OS = [], hs_UptimeSeconds = Fin 0,
            hs_CPUPct = Fin 0, hs_MemUsedPct = Fin 0, hs_SwapUsedPct = Fin 0, hs_DiskUsedPct = Fin 0, hs_RxBps = Fin 0, hs_TxBps = Fin 0,
            hs_ActiveAlerts = int (length alerts), hs_WorstSeverity = (if alerts = [] then 0 else Max (a_severity ` set alerts)), hs_Containers = 0,
            hs_AgentVersion = [], hs_CanUpdate = (h_agent_arch h \<noteq> []),
            hs_UpdateVersion = (case h_update_version h of None \<Rightarrow> [] | Some v \<Rightarrow> v),
            hs_UpdateRequestedAt = time_or_zero (h_update_requested_at h), hs_UpdateError = h_update_error h\<rparr>;
          summary = (case latest_of t (h_id h) of None \<Rightarrow> summary | Some l \<Rightarrow> fillSummary (summary\<lparr>hs_Time := hl_time l\<rparr>) (hl_snapshot l))
      in if h_agent_version h \<noteq> [] then summary\<lparr>hs_AgentVersion := h_agent_version h\<rparr> else summary)"

definition FleetSummary :: "(HostSummary list, db) act" where
  "FleetSummary = query (\<lambda>t. map (summary_of t) (sort_key h_name (db_hosts t)))"

section \<open>Snapshots and processes\<close>

record LatestSnapshot =
  ls_Host :: string
  ls_Time :: time
  ls_Snapshot :: "MonitorData option"
  ls_LastSeen :: time

definition LatestSnapshot_read :: "string \<Rightarrow> (LatestSnapshot, db) act" where
  "LatestSnapshot_read host =
     bindE (query (\<lambda>t. Option.bind (host_named t host) (\<lambda>h. map_option (\<lambda>l. (l, h)) (latest_of t (h_id h))))) (\<lambda>row. case row of
       None \<Rightarrow> fail ErrNotFound
     | Some (l, h) \<Rightarrow> ret \<lparr>ls_Host = host, ls_Time = hl_time l, ls_Snapshot = Some (hl_snapshot l), ls_LastSeen = time_or_zero (h_last_seen h)\<rparr>)"

definition latest_snapshot_of :: "tables \<Rightarrow> host_row \<Rightarrow> LatestSnapshot" where
  "latest_snapshot_of t h =
     (let l = latest_of t (h_id h)
      in \<lparr>ls_Host = h_name h, ls_Time = (case l of None \<Rightarrow> zero_time | Some l \<Rightarrow> hl_time l), ls_Snapshot = map_option hl_snapshot l,
          ls_LastSeen = time_or_zero (h_last_seen h)\<rparr>)"

definition LatestSnapshots :: "(LatestSnapshot list, db) act" where
  "LatestSnapshots = query (\<lambda>t. map (latest_snapshot_of t) (sort_key h_name (db_hosts t)))"

definition Processes_read :: "string \<Rightarrow> time \<Rightarrow> (time \<times> Processes, db) act" where
  "Processes_read host moment =
     bindE (hostID host) (\<lambda>hid.
     bindE (query (\<lambda>t. newest ps_time (filter (\<lambda>p. ps_host_id p = hid \<and> ps_time p \<le> timestamptz moment) (db_processes t)))) (\<lambda>row. case row of
       None \<Rightarrow> fail ErrNotFound
     | Some p \<Rightarrow> ret (ps_time p, ps_processes p)))"

section \<open>Programs over a range of time\<close>

record ProcessUsage =
  pu_Name :: string
  pu_CPUAvg :: float64
  pu_CPUPeak :: float64
  pu_MemAvg :: float64
  pu_MemPeak :: float64
  pu_SeenPct :: float64

record ProcessUsageResult =
  pur_Snapshots :: int
  pur_FirstTime :: time
  pur_Processes :: "ProcessUsage list"

definition processUsageLimit :: nat where
  "processUsageLimit = 15"

definition processUsageMaxRange :: duration where
  "processUsageMaxRange = 24 * Hour"

definition program_name :: "Process \<Rightarrow> string" where
  "program_name p = (if pr_Name p \<noteq> [] then pr_Name p else if pr_ExecPath p \<noteq> [] then pr_ExecPath p else ''unknown'')"

text \<open>\<open>processes\<close>: each pid once per snapshot time. Which of two entries it is does not matter to SQL; here the first.\<close>

fun distinct_on :: "('a \<Rightarrow> 'k) \<Rightarrow> 'a list \<Rightarrow> 'a list" where
  "distinct_on key [] = []"
| "distinct_on key (x # xs) = x # filter (\<lambda>y. key y \<noteq> key x) (distinct_on key xs)"

definition process_entries :: "process_row list \<Rightarrow> (time \<times> Process) list" where
  "process_entries rows = distinct_on (\<lambda>(t, p). (t, pr_Pid p)) (concat (map (\<lambda>r. map (\<lambda>p. (ps_time r, p)) (pp_CPU (ps_processes r) @ pp_Memory (ps_processes r))) rows))"

text \<open>\<open>per_snapshot\<close>: time, name and the sums; \<open>ranked\<close>: name, sums, peaks and in how many snapshots it was.\<close>

type_synonym float_sum = "float64 list \<Rightarrow> float64"

definition per_snapshot :: "float_sum \<Rightarrow> (time \<times> Process) list \<Rightarrow> (time \<times> string \<times> float64 \<times> float64) list" where
  "per_snapshot fsum es =
     map (\<lambda>(t, n). let mine = filter (\<lambda>(t', p). t' = t \<and> program_name p = n) es
        in (t, n, fsum (map (\<lambda>(t, p). pr_CPUUsage p) mine), fsum (map (\<lambda>(t, p). pr_MemUsage p) mine)))
      (remdups (map (\<lambda>(t, p). (t, program_name p)) es))"

record program_row =
  pg_name :: string
  pg_cpu_sum :: float64
  pg_cpu_peak :: float64
  pg_mem_sum :: float64
  pg_mem_peak :: float64
  pg_seen :: int

definition program_rows :: "float_sum \<Rightarrow> (float64 list \<Rightarrow> float64) \<Rightarrow> (time \<times> string \<times> float64 \<times> float64) list \<Rightarrow> program_row list" where
  "program_rows fsum fmax ps =
     map (\<lambda>n. let mine = filter (\<lambda>(t, n', c, m). n' = n) ps; cs = map (\<lambda>(t, n, c, m). c) mine; ms = map (\<lambda>(t, n, c, m). m) mine
        in \<lparr>pg_name = n, pg_cpu_sum = fsum cs, pg_cpu_peak = fmax cs, pg_mem_sum = fsum ms, pg_mem_peak = fmax ms, pg_seen = int (length mine)\<rparr>)
      (remdups (map (\<lambda>(t, n, c, m). n) ps))"

text \<open>\<open>row_number() OVER (ORDER BY f DESC, name)\<close>.\<close>

definition rank_of :: "(program_row \<Rightarrow> float64) \<Rightarrow> program_row list \<Rightarrow> program_row \<Rightarrow> nat" where
  "rank_of f rows r = 1 + length (filter (\<lambda>x. f_lt (f r) (f x) \<or> \<not> f_lt (f x) (f r) \<and> pg_name x < pg_name r) rows)"

definition busiest :: "program_row list \<Rightarrow> program_row list" where
  "busiest rows = sort_key (rank_of pg_cpu_sum rows)
     (filter (\<lambda>r. rank_of pg_cpu_sum rows r \<le> processUsageLimit \<or> rank_of pg_mem_sum rows r \<le> processUsageLimit) rows)"

definition usage_of :: "int \<Rightarrow> program_row \<Rightarrow> ProcessUsage" where
  "usage_of snapshots r = \<lparr>pu_Name = pg_name r, pu_CPUAvg = f_div (pg_cpu_sum r) (f_of_int snapshots), pu_CPUPeak = pg_cpu_peak r,
     pu_MemAvg = f_div (pg_mem_sum r) (f_of_int snapshots), pu_MemPeak = pg_mem_peak r,
     pu_SeenPct = f_div (f_mul (Fin 100) (f_of_int (pg_seen r))) (f_of_int snapshots)\<rparr>"

definition ProcessUsage_read :: "float_sum \<Rightarrow> (float64 list \<Rightarrow> float64) \<Rightarrow> string \<Rightarrow> time \<Rightarrow> time \<Rightarrow> (ProcessUsageResult, db) act" where
  "ProcessUsage_read fsum fmax host from to =
     (if \<not> from < to then fail (ErrWrap ''%w: from must be before to'' [] ErrInvalid)
      else if processUsageMaxRange < time_sub to from then fail (ErrWrap ''%w: pick 24 hours or less'' [] ErrInvalid)
      else bindE (hostID host) (\<lambda>hid.
        let rows = (\<lambda>t. filter (\<lambda>p. ps_host_id p = hid \<and> timestamptz from \<le> ps_time p \<and> ps_time p < timestamptz to) (db_processes t)) in
        bindE (query (\<lambda>t. (int (length (rows t)), map ps_time (rows t)))) (\<lambda>(n, times).
        if n = 0 then ret \<lparr>pur_Snapshots = n, pur_FirstTime = zero_time, pur_Processes = []\<rparr>
        else bindE (query (\<lambda>t. busiest (program_rows fsum fmax (per_snapshot fsum (process_entries (rows t)))))) (\<lambda>programs.
          ret \<lparr>pur_Snapshots = n, pur_FirstTime = Min (set times), pur_Processes = map (usage_of n) programs\<rparr>))))"

section \<open>Custom metrics\<close>

record CustomValue =
  cv_Host :: string
  cv_Name :: string
  cv_Unit :: string
  cv_Value :: float64
  cv_Time :: time

text \<open>The rollup as far as it is read here: bucket, host and name.\<close>

type_synonym custom_rollup = "tables \<Rightarrow> (time \<times> int \<times> string) list"

definition customValueWindow :: duration where
  "customValueWindow = 48 * Hour"

definition custom_value_of :: "time \<Rightarrow> tables \<Rightarrow> int \<times> string \<Rightarrow> CustomValue option" where
  "custom_value_of since t k = (case k of (hid, name) \<Rightarrow>
     Option.bind (find (\<lambda>h. h_id h = hid) (db_hosts t)) (\<lambda>h.
     map_option (\<lambda>c. \<lparr>cv_Host = h_name h, cv_Name = name, cv_Unit = cm_unit c, cv_Value = (case cm_value c of None \<Rightarrow> Fin 0 | Some v \<Rightarrow> v), cv_Time = cm_time c\<rparr>)
       (newest cm_time (filter (\<lambda>c. cm_host_id c = hid \<and> cm_name c = name \<and> since \<le> cm_time c \<and> cm_value c \<noteq> None) (db_custom_metrics t)))))"

definition LatestCustomValues :: "custom_rollup \<Rightarrow> time \<Rightarrow> (CustomValue list, db) act" where
  "LatestCustomValues rollup now =
     (let since = timestamptz (now - customValueWindow) in
      query (\<lambda>t. let names = remdups (map snd (filter (\<lambda>(bucket, k). since - Hour < bucket) (rollup t)))
        in sort_key (\<lambda>v. (cv_Host v, cv_Name v)) (List.map_filter (custom_value_of since t) names)))"

definition CustomMetricNames :: "custom_rollup \<Rightarrow> string \<Rightarrow> (string list, db) act" where
  "CustomMetricNames rollup host =
     bindE (hostID host) (\<lambda>hid. query (\<lambda>t. sort (remdups (map (\<lambda>(b, h, n). n) (filter (\<lambda>(b, h, n). h = hid) (rollup t))))))"

end
