(* ===== verification/SeriesQuery.thy ===== *)
theory SeriesQuery
  imports StoreHosts Api
begin

text \<open>
  Charts over a range of time: internal/store/series.go, and \<open>QuerySeries\<close> of internal/api/api.go. TimescaleDB's tables and rollups are a parameter: the
  rows of one host in a table or a rollup of it, with the time, the label and the value of the named columns. How the database adds up an average is a
  parameter too.
\<close>

section \<open>What can be asked for\<close>

record seriesDef =
  sd_table :: string
  sd_column :: string
  sd_label :: string
  sd_hasMax :: bool
  sd_rawOnly :: bool

definition series_def :: "string \<Rightarrow> string \<Rightarrow> string \<Rightarrow> bool \<Rightarrow> seriesDef" where
  "series_def table column label hasMax = \<lparr>sd_table = table, sd_column = column, sd_label = label, sd_hasMax = hasMax, sd_rawOnly = False\<rparr>"

definition seriesDefs :: "(string \<times> seriesDef) list" where
  "seriesDefs = [
     (''cpu'', series_def ''host_metrics'' ''cpu_pct'' [] True),
     (''cpu_core'', (series_def ''cpu_core_metrics'' ''pct'' ''core'' False)\<lparr>sd_rawOnly := True\<rparr>),
     (''load1'', series_def ''host_metrics'' ''load1'' [] False),
     (''load5'', series_def ''host_metrics'' ''load5'' [] False),
     (''load15'', series_def ''host_metrics'' ''load15'' [] False),
     (''memory'', series_def ''host_metrics'' ''mem_used_pct'' [] True),
     (''memory_used'', series_def ''host_metrics'' ''mem_used_mib'' [] False),
     (''swap'', series_def ''host_metrics'' ''swap_used_pct'' [] True),
     (''swap_used'', series_def ''host_metrics'' ''swap_used_mib'' [] False),
     (''psi_cpu'', series_def ''host_metrics'' ''psi_cpu_some'' [] False),
     (''psi_memory'', series_def ''host_metrics'' ''psi_memory_some'' [] False),
     (''psi_memory_full'', series_def ''host_metrics'' ''psi_memory_full'' [] False),
     (''psi_io'', series_def ''host_metrics'' ''psi_io_some'' [] False),
     (''psi_io_full'', series_def ''host_metrics'' ''psi_io_full'' [] False),
     (''tcp_established'', series_def ''host_metrics'' ''tcp_established'' [] False),
     (''tcp_time_wait'', series_def ''host_metrics'' ''tcp_time_wait'' [] False),
     (''tcp_close_wait'', series_def ''host_metrics'' ''tcp_close_wait'' [] False),
     (''tcp_listen'', series_def ''host_metrics'' ''tcp_listen'' [] False),
     (''tcp_total'', series_def ''host_metrics'' ''tcp_total'' [] False),
     (''disk_used'', series_def ''disk_metrics'' ''used_pct'' ''mount'' True),
     (''disk_inodes'', series_def ''disk_metrics'' ''inodes_used_pct'' ''mount'' False),
     (''disk_read'', series_def ''disk_io_metrics'' ''read_bps'' ''device'' True),
     (''disk_write'', series_def ''disk_io_metrics'' ''write_bps'' ''device'' True),
     (''disk_util'', series_def ''disk_io_metrics'' ''util_pct'' ''device'' True),
     (''net_rx'', series_def ''net_metrics'' ''rx_bps'' ''iface'' True),
     (''net_tx'', series_def ''net_metrics'' ''tx_bps'' ''iface'' True),
     (''temperature'', series_def ''temp_metrics'' ''celsius'' ''sensor'' True),
     (''custom'', series_def ''custom_metrics'' ''value'' ''name'' True),
     (''container_cpu'', series_def ''container_metrics'' ''cpu_pct'' ''name'' True),
     (''container_memory'', series_def ''container_metrics'' ''mem_used'' ''name'' True),
     (''container_rx'', series_def ''container_metrics'' ''rx_bps'' ''name'' True),
     (''container_tx'', series_def ''container_metrics'' ''tx_bps'' ''name'' True),
     (''container_io_read'', series_def ''container_metrics'' ''read_bps'' ''name'' False),
     (''container_io_write'', series_def ''container_metrics'' ''write_bps'' ''name'' False)]"

definition SeriesMetrics :: "string list" where
  "SeriesMetrics = sort (map fst seriesDefs)"

record SeriesQuery =
  sq_Host :: string
  sq_Metric :: string
  sq_Label :: string
  sq_From :: time
  sq_To :: time
  sq_MaxPoints :: int
  sq_Max :: bool

record Point =
  pt_Time :: time
  pt_Value :: float64

record Series =
  se_Label :: string
  se_Points :: "Point list"

record SeriesResult =
  sr_Source :: string
  sr_Step :: duration
  sr_Series :: "Series list"

definition defaultMaxPoints :: int where
  "defaultMaxPoints = 1000"

record Retention =
  rt_Raw :: duration
  rt_Minute :: duration
  rt_Hour :: duration

definition DefaultRetention :: Retention where
  "DefaultRetention = \<lparr>rt_Raw = 7 * 24 * Hour, rt_Minute = 30 * 24 * Hour, rt_Hour = 365 * 24 * Hour\<rparr>"

section \<open>How fine\<close>

text \<open>\<open>d.Truncate(m)\<close> rounds towards zero.\<close>

definition dur_Truncate :: "duration \<Rightarrow> duration \<Rightarrow> duration" where
  "dur_Truncate d m = (if m \<le> 0 then d else d - trem d m)"

definition raw_step :: "time \<Rightarrow> time \<Rightarrow> int \<Rightarrow> duration" where
  "raw_step from to maxPoints = wrap64 (dur_Truncate (tquot (time_sub to from) maxPoints) Second + Second)"

definition roundUp :: "duration \<Rightarrow> duration \<Rightarrow> duration" where
  "roundUp d unit = (if d \<le> unit then unit else wrap64 (tquot (wrap64 (d + unit - 1)) unit * unit))"

definition pickSource :: "seriesDef \<Rightarrow> time \<Rightarrow> time \<Rightarrow> time \<Rightarrow> int \<Rightarrow> Retention \<Rightarrow> string \<times> duration" where
  "pickSource def from to now maxPoints retention =
     (let step = raw_step from to maxPoints in
      if sd_rawOnly def \<or> step < Minute \<and> \<not> from < now - rt_Raw retention then (''raw'', step)
      else if step < Hour \<and> \<not> from < now - rt_Minute retention then (''1m'', roundUp step Minute)
      else (''1h'', roundUp step Hour))"

section \<open>The query\<close>

text \<open>\<open>seriesSQL\<close>: the names put into the statement, and its arguments. The width of a bucket is passed in whole seconds.\<close>

datatype aggregate = Avg | Max_of

record seriesSQL =
  sql_table :: string
  sql_time :: string
  sql_fun :: aggregate
  sql_column :: string
  sql_label :: string
  sql_only :: "string option"
  sql_seconds :: int
  sql_host :: int
  sql_from :: time
  sql_to :: time

definition seriesSQL_of :: "seriesDef \<Rightarrow> string \<Rightarrow> duration \<Rightarrow> int \<Rightarrow> SeriesQuery \<Rightarrow> seriesSQL" where
  "seriesSQL_of def source step hid q =
     \<lparr>sql_table = (if source \<noteq> ''raw'' then sd_table def @ ''_'' @ source else sd_table def),
      sql_time = (if source \<noteq> ''raw'' then ''bucket'' else ''time''),
      sql_fun = (if sq_Max q then Max_of else Avg),
      sql_column = (if sq_Max q \<and> source \<noteq> ''raw'' then sd_column def @ ''_max'' else sd_column def),
      sql_label = sd_label def,
      sql_only = (if sq_Label q \<noteq> [] \<and> sd_label def \<noteq> [] then Some (sq_Label q) else None),
      sql_seconds = tquot step Second, sql_host = hid, sql_from = timestamptz (sq_From q), sql_to = timestamptz (sq_To q)\<rparr>"

text \<open>
  The rows of a table for a host: time, label and value. \<open>time_bucket\<close> counts widths in seconds from Monday 3 January 2000; the groups come ordered by label and
  time. An aggregate leaves NULLs out and is NULL without any value.
\<close>

type_synonym metric_rows = "string \<Rightarrow> string \<Rightarrow> string \<Rightarrow> string \<Rightarrow> int \<Rightarrow> (time \<times> string \<times> float64 option) list"

definition bucket_origin :: time where
  "bucket_origin = time_Unix 946857600"

definition time_bucket :: "duration \<Rightarrow> time \<Rightarrow> time" where
  "time_bucket w t = bucket_origin + (t - bucket_origin) div w * w"

definition aggregated :: "(float64 list \<Rightarrow> float64) \<Rightarrow> (float64 list \<Rightarrow> float64) \<Rightarrow> aggregate \<Rightarrow> float64 option list \<Rightarrow> float64 option" where
  "aggregated avg mx f vs = (case List.map_filter id vs of [] \<Rightarrow> None | xs \<Rightarrow> Some (case f of Avg \<Rightarrow> avg xs | Max_of \<Rightarrow> mx xs))"

definition series_rows :: "metric_rows \<Rightarrow> seriesSQL \<Rightarrow> (time \<times> string \<times> float64 option) list" where
  "series_rows data sql = filter (\<lambda>(t, l, v). sql_from sql \<le> t \<and> t < sql_to sql \<and> (case sql_only sql of None \<Rightarrow> True | Some only \<Rightarrow> l = only))
     (data (sql_table sql) (sql_time sql) (sql_column sql) (sql_label sql) (sql_host sql))"

definition run_series ::
  "(float64 list \<Rightarrow> float64) \<Rightarrow> (float64 list \<Rightarrow> float64) \<Rightarrow> metric_rows \<Rightarrow> seriesSQL \<Rightarrow> (time \<times> string \<times> float64 option) list" where
  "run_series avg mx data sql =
     (let rows = series_rows data sql; bucket = time_bucket (sql_seconds sql * Second);
          groups = sort_key snd (sort_key fst (remdups (map (\<lambda>(t, l, v). (bucket t, l)) rows)))
      in map (\<lambda>(b, l). (b, l, aggregated avg mx (sql_fun sql) (map (\<lambda>(t, l', v). v) (filter (\<lambda>(t, l', v). bucket t = b \<and> l' = l) rows)))) groups)"

text \<open>A width has to be positive.\<close>

definition run_query :: "(seriesSQL \<Rightarrow> 'r) \<Rightarrow> seriesSQL \<Rightarrow> ('r, db) act" where
  "run_query run sql = bindE (query (\<lambda>_. run sql)) (\<lambda>rows.
     if sql_seconds sql \<le> 0 then fail (ErrDB ''period must be greater than 0'') else ret rows)"

text \<open>The loop over the rows: a new label starts a new series.\<close>

definition add_point :: "Series list \<Rightarrow> time \<times> string \<times> float64 option \<Rightarrow> Series list" where
  "add_point series row = (case row of (t, label, value) \<Rightarrow> (case value of
     None \<Rightarrow> series
   | Some v \<Rightarrow>
       let series = (if series = [] \<or> se_Label (last series) \<noteq> label then series @ [\<lparr>se_Label = label, se_Points = []\<rparr>] else series);
           ls = last series
       in butlast series @ [ls\<lparr>se_Points := se_Points ls @ [\<lparr>pt_Time = t, pt_Value = v\<rparr>]\<rparr>]))"

definition QuerySeries ::
  "(float64 list \<Rightarrow> float64) \<Rightarrow> (float64 list \<Rightarrow> float64) \<Rightarrow> metric_rows \<Rightarrow> Retention \<Rightarrow> time \<Rightarrow> SeriesQuery \<Rightarrow> (SeriesResult, db) act" where
  "QuerySeries avg mx data retention now q = (case map_of seriesDefs (sq_Metric q) of
     None \<Rightarrow> fail (ErrWrap ''%w: unknown metric %q'' [sq_Metric q] ErrInvalid)
   | Some def \<Rightarrow>
       if \<not> sq_From q < sq_To q then fail (ErrWrap ''%w: from must be before to'' [] ErrInvalid)
       else if sq_Max q \<and> \<not> sd_hasMax def then fail (ErrWrap ''%w: metric %q has no max'' [sq_Metric q] ErrInvalid)
       else let maxPoints = (if sq_MaxPoints q \<le> 0 then defaultMaxPoints else sq_MaxPoints q) in
         bindE (hostID (sq_Host q)) (\<lambda>hid.
         let (source, step) = pickSource def (sq_From q) (sq_To q) now maxPoints retention in
         bindE (run_query (run_series avg mx data) (seriesSQL_of def source step hid q)) (\<lambda>rows.
         ret \<lparr>sr_Source = source, sr_Step = step, sr_Series = foldl add_point [] rows\<rparr>)))"

section \<open>The width of a bucket\<close>

lemma raw_step_bounds:
  assumes "0 < to - from" and "to - from < 2 ^ 63 - Second" and "0 < maxPoints"
  shows "raw_step from to maxPoints = (to - from) div maxPoints div Second * Second + Second"
proof -
  define n where "n = (to - from) div maxPoints"
  have n: "0 \<le> n" "n \<le> to - from"
    using assms zdiv_mono2 [of "to - from" 1 maxPoints] by (auto simp: n_def pos_imp_zdiv_nonneg_iff)
  have "time_sub to from = to - from"
    using assms(1,2) by (simp add: time_sub_def Second_def)
  then have "raw_step from to maxPoints = wrap64 (n - n mod Second + Second)"
    using assms n(1) by (simp add: raw_step_def dur_Truncate_def tquot_nonneg trem_nonneg n_def Second_def)
  also have "\<dots> = n - n mod Second + Second"
  proof (rule wrap64_id)
    have "0 \<le> n mod Second" "n mod Second \<le> n"
      using n(1) by (auto simp: Second_def zmod_le_nonneg_dividend)
    then show "int64 (n - n mod Second + Second)"
      using n assms(2) by (auto simp: int64_def Second_def)
  qed
  also have "n - n mod Second = n div Second * Second"
    by (simp add: minus_mod_eq_div_mult)
  finally show ?thesis
    by (simp add: n_def)
qed

lemma raw_step_covers:
  assumes "0 < to - from" and "to - from < 2 ^ 63 - Second" and "0 < maxPoints"
  shows "0 < raw_step from to maxPoints" and "Second dvd raw_step from to maxPoints" and "to - from < maxPoints * raw_step from to maxPoints"
    and "raw_step from to maxPoints \<le> to - from + Second"
proof -
  define n where "n = (to - from) div maxPoints"
  have step: "raw_step from to maxPoints = n div Second * Second + Second"
    unfolding n_def by (rule raw_step_bounds [OF assms])
  have n: "0 \<le> n" "n \<le> to - from"
    using assms zdiv_mono2 [of "to - from" 1 maxPoints] by (auto simp: n_def pos_imp_zdiv_nonneg_iff)
  have "n < n div Second * Second + Second"
    using div_mult_mod_eq [of n Second] pos_mod_bound [of Second n] by (simp add: Second_def)
  then have more: "n + 1 \<le> raw_step from to maxPoints"
    by (simp add: step)
  have "to - from < maxPoints * (n + 1)"
  proof -
    have "to - from = n * maxPoints + (to - from) mod maxPoints"
      by (simp add: n_def)
    also have "\<dots> < n * maxPoints + maxPoints"
      using pos_mod_bound [OF assms(3), of "to - from"] by simp
    finally show ?thesis
      by (simp add: algebra_simps)
  qed
  also have "\<dots> \<le> maxPoints * raw_step from to maxPoints"
    using more assms(3) by simp
  finally show "to - from < maxPoints * raw_step from to maxPoints" .
  show "0 < raw_step from to maxPoints"
    using more n(1) by simp
  show "Second dvd raw_step from to maxPoints"
    by (simp add: step)
  have "n div Second * Second \<le> n"
    using n(1) by (simp add: Second_def)
  then show "raw_step from to maxPoints \<le> to - from + Second"
    using n(2) by (simp add: step)
qed

lemma roundUp_covers:
  assumes "0 < d" and "d + unit - 1 < 2 ^ 63" and "0 < unit"
  shows "d \<le> roundUp d unit" and "unit dvd roundUp d unit" and "roundUp d unit < d + unit"
proof -
  let ?k = "(d + unit - 1) div unit"
  have k: "?k * unit \<le> d + unit - 1" "d + unit - 1 < ?k * unit + unit"
    using div_mult_mod_eq [of "d + unit - 1" unit] pos_mod_bound [OF assms(3), of "d + unit - 1"] pos_mod_sign [OF assms(3), of "d + unit - 1"] by linarith+
  have "d \<le> roundUp d unit \<and> unit dvd roundUp d unit \<and> roundUp d unit < d + unit"
  proof (cases "d \<le> unit")
    case True
    with assms show ?thesis
      by (simp add: roundUp_def)
  next
    case False
    have "wrap64 (d + unit - 1) = d + unit - 1" "wrap64 (?k * unit) = ?k * unit"
      using assms k False by (auto intro!: wrap64_id simp: int64_def)
    with False assms have "roundUp d unit = ?k * unit"
      by (simp add: roundUp_def tquot_nonneg)
    with k show ?thesis
      by simp
  qed
  then show "d \<le> roundUp d unit" and "unit dvd roundUp d unit" and "roundUp d unit < d + unit"
    by blast+
qed

text \<open>What is picked: a width that covers the range, and data that is still kept for all of it.\<close>

lemma pickSource_covers:
  assumes "0 < to - from" and "to - from < 2 ^ 63 - 2 * Hour" and "0 < maxPoints" and "pickSource def from to now maxPoints retention = (source, step)"
  shows "0 < step" and "Second dvd step" and "to - from < maxPoints * step"
    and "source = ''raw'' \<and> (sd_rawOnly def \<or> now - rt_Raw retention \<le> from \<and> step < Minute) \<or>
      source = ''1m'' \<and> now - rt_Minute retention \<le> from \<and> Minute dvd step \<and> step \<le> Hour \<or> source = ''1h'' \<and> Hour dvd step"
proof -
  let ?s = "raw_step from to maxPoints"
  have range: "to - from < 2 ^ 63 - Second"
    using assms(2) by (simp add: Hour_def Minute_def Second_def)
  note s = raw_step_covers [OF assms(1) range assms(3)]
  have units: "0 < Minute" "0 < Hour" "Second dvd Minute" "Second dvd Hour" "Minute dvd Hour"
    by (simp_all add: Hour_def Minute_def Second_def)
  have minutes: "?s \<le> roundUp ?s Minute" "Minute dvd roundUp ?s Minute" "roundUp ?s Minute < ?s + Minute"
    using roundUp_covers [OF s(1) _ units(1)] s(4) assms(2) by (auto simp: Hour_def Minute_def Second_def)
  have hours: "?s \<le> roundUp ?s Hour" "Hour dvd roundUp ?s Hour"
    using roundUp_covers [OF s(1) _ units(2)] s(4) assms(2) by (auto simp: Hour_def Minute_def Second_def)
  have longer: "to - from < maxPoints * w" if "?s \<le> w" for w
    using s(3) mult_left_mono [OF that, of maxPoints] assms(3) by linarith
  have hour: "roundUp ?s Minute \<le> Hour" if "?s < Hour"
  proof -
    obtain k where k: "roundUp ?s Minute = k * Minute"
      using minutes(2) by (auto simp: dvd_def mult.commute)
    have "k * Minute < 61 * Minute"
      using minutes(3) that k by (simp add: Hour_def)
    then have "k < 61"
      by (simp add: Minute_def Second_def)
    then show ?thesis
      unfolding k by (simp add: Hour_def Minute_def Second_def)
  qed
  from assms(4) consider "source = ''raw''" "step = ?s" "sd_rawOnly def \<or> ?s < Minute \<and> now - rt_Raw retention \<le> from"
    | "source = ''1m''" "step = roundUp ?s Minute" "?s < Hour" "now - rt_Minute retention \<le> from"
    | "source = ''1h''" "step = roundUp ?s Hour"
    by (auto simp: pickSource_def Let_def not_less split: if_splits)
  then have "0 < step \<and> Second dvd step \<and> to - from < maxPoints * step \<and>
      (source = ''raw'' \<and> (sd_rawOnly def \<or> now - rt_Raw retention \<le> from \<and> step < Minute) \<or>
      source = ''1m'' \<and> now - rt_Minute retention \<le> from \<and> Minute dvd step \<and> step \<le> Hour \<or> source = ''1h'' \<and> Hour dvd step)"
  proof cases
    case 1
    with s show ?thesis
      by auto
  next
    case 2
    with s(1) minutes hour longer [OF minutes(1)] units(3) show ?thesis
      by (auto intro: dvd_trans)
  next
    case 3
    with s(1) hours longer [OF hours(1)] units(4) show ?thesis
      by (auto intro: dvd_trans)
  qed
  then show "0 < step" and "Second dvd step" and "to - from < maxPoints * step"
    and "source = ''raw'' \<and> (sd_rawOnly def \<or> now - rt_Raw retention \<le> from \<and> step < Minute) \<or>
      source = ''1m'' \<and> now - rt_Minute retention \<le> from \<and> Minute dvd step \<and> step \<le> Hour \<or> source = ''1h'' \<and> Hour dvd step"
    by blast+
qed

section \<open>Buckets\<close>

text \<open>A range shorter than \<open>n\<close> widths touches at most \<open>n + 1\<close> buckets, since it need not start where one does.\<close>

lemma buckets_of_range:
  assumes "0 < w" and "to - from \<le> n * w"
  shows "finite (time_bucket w ` {from..<to})" and "card (time_bucket w ` {from..<to}) \<le> nat (n + 1)"
proof -
  let ?k = "\<lambda>t. (t - bucket_origin) div w"
  have last: "?k t \<le> ?k from + n" if "t \<in> {from..<to}" for t
  proof -
    have "t - bucket_origin \<le> (from - bucket_origin) + (n * w - 1)"
      using that assms(2) by simp
    then have "?k t \<le> ((from - bucket_origin) + (n * w - 1)) div w"
      using assms(1) by (intro zdiv_mono1) auto
    also have "\<dots> = (from - bucket_origin - 1 + n * w) div w"
      by (simp add: algebra_simps)
    also have "\<dots> = (from - bucket_origin - 1) div w + n"
      using assms(1) by simp
    also have "\<dots> \<le> ?k from + n"
      using assms(1) by (simp add: zdiv_mono1)
    finally show ?thesis .
  qed
  have first: "?k from \<le> ?k t" if "t \<in> {from..<to}" for t
    using that assms(1) by (intro zdiv_mono1) auto
  have sub: "time_bucket w ` {from..<to} \<subseteq> (\<lambda>k. bucket_origin + k * w) ` {?k from..?k from + n}"
    using first last by (auto simp: time_bucket_def)
  show "finite (time_bucket w ` {from..<to})"
    using finite_subset [OF sub] by simp
  have "card (time_bucket w ` {from..<to}) \<le> card ((\<lambda>k. bucket_origin + k * w) ` {?k from..?k from + n})"
    by (rule card_mono [OF _ sub]) simp
  also have "\<dots> \<le> card {?k from..?k from + n}"
    by (rule card_image_le) simp
  finally show "card (time_bucket w ` {from..<to}) \<le> nat (n + 1)"
    by simp
qed

section \<open>Series\<close>

definition points_of :: "(time \<times> string \<times> float64 option) list \<Rightarrow> string \<Rightarrow> Point list" where
  "points_of rows label = List.map_filter (\<lambda>(t, l, v). if l = label then map_option (\<lambda>x. \<lparr>pt_Time = t, pt_Value = x\<rparr>) v else None) rows"

definition with_value :: "(time \<times> string \<times> float64 option) list \<Rightarrow> string list" where
  "with_value rows = map (\<lambda>(t, l, v). l) (filter (\<lambda>(t, l, v). v \<noteq> None) rows)"

lemma points_of_append [simp]: "points_of (rows @ [(t, l, v)]) label = points_of rows label @ (if l = label then (case v of None \<Rightarrow> [] | Some x \<Rightarrow> [\<lparr>pt_Time = t, pt_Value = x\<rparr>]) else [])"
  by (simp add: points_of_def map_filter_def split: option.splits)

lemma with_value_append [simp]: "with_value (rows @ [(t, l, v)]) = with_value rows @ (case v of None \<Rightarrow> [] | Some x \<Rightarrow> [l])"
  by (simp add: with_value_def split: option.splits)

lemma points_of_none: "label \<notin> set (with_value rows) \<Longrightarrow> points_of rows label = []"
  by (induction rows) (auto simp: points_of_def with_value_def map_filter_def split: if_splits)

lemma points_of_some: "label \<in> set (with_value rows) \<Longrightarrow> points_of rows label \<noteq> []"
  by (force simp: points_of_def with_value_def map_filter_def filter_empty_conv)

lemma raw_only: "map_of seriesDefs metric = Some def \<Longrightarrow> sd_rawOnly def \<Longrightarrow> metric = ''cpu_core''"
proof -
  have "list_all (\<lambda>(n, d). sd_rawOnly d \<longrightarrow> n = ''cpu_core'') seriesDefs"
    by code_simp
  then show "map_of seriesDefs metric = Some def \<Longrightarrow> sd_rawOnly def \<Longrightarrow> metric = ''cpu_core''"
    by (auto simp: list_all_iff dest!: map_of_SomeD)
qed

lemma remdups_adj_snoc: "remdups_adj (xs @ [x]) = (if xs \<noteq> [] \<and> last xs = x then remdups_adj xs else remdups_adj xs @ [x])"
  by (induction xs rule: remdups_adj.induct) auto

lemma distinct_runs: "sorted xs \<Longrightarrow> distinct (remdups_adj xs)"
  for xs :: "'a :: linorder list"
  by (induction xs rule: remdups_adj.induct) (auto simp: order.strict_iff_order)

lemma sorted_last: "sorted xs \<Longrightarrow> x \<in> set xs \<Longrightarrow> x \<le> last xs"
  for xs :: "'a :: linorder list"
  by (induction xs) auto

text \<open>One step of the loop, for the label the last series has and for a new one.\<close>

lemma add_point_same: "add_point (ss @ [\<lparr>se_Label = l, se_Points = ps\<rparr>]) (t, l, Some x) = ss @ [\<lparr>se_Label = l, se_Points = ps @ [\<lparr>pt_Time = t, pt_Value = x\<rparr>]\<rparr>]"
  by (simp add: add_point_def)

lemma add_point_new:
  assumes "ss \<noteq> [] \<Longrightarrow> se_Label (last ss) \<noteq> l"
  shows "add_point ss (t, l, Some x) = ss @ [\<lparr>se_Label = l, se_Points = [\<lparr>pt_Time = t, pt_Value = x\<rparr>]\<rparr>]"
  using assms by (auto simp: add_point_def Let_def)

lemma add_point_series:
  assumes "sorted (with_value rows)"
  shows "foldl add_point [] rows = map (\<lambda>l. \<lparr>se_Label = l, se_Points = points_of rows l\<rparr>) (remdups_adj (with_value rows))"
  using assms
proof (induction rows rule: rev_induct)
  case Nil
  then show ?case
    by (simp add: with_value_def)
next
  case (snoc row rows)
  obtain t l v where row: "row = (t, l, v)"
    by (cases row) auto
  have sorted: "sorted (with_value rows)"
    using snoc.prems by (auto simp: row sorted_append)
  note IH = snoc.IH [OF sorted]
  let ?ls = "remdups_adj (with_value rows)"
  let ?s = "\<lambda>rows l. \<lparr>se_Label = l, se_Points = points_of rows l\<rparr>"
  have same: "map (?s (rows @ [row])) ls = map (?s rows) ls" if "l \<notin> set ls" for ls
    using that by (auto simp: row)
  show ?case
  proof (cases v)
    case None
    with IH show ?thesis
      by (simp add: row add_point_def)
  next
    case (Some x)
    show ?thesis
    proof (cases "with_value rows \<noteq> [] \<and> last (with_value rows) = l")
      case True
      obtain ls where ls: "?ls = ls @ [l]"
        using True by (metis append_butlast_last_id last_remdups_adj remdups_adj_Nil_iff)
      have "l \<notin> set ls"
        using distinct_runs [OF sorted] by (simp add: ls)
      moreover have "remdups_adj (with_value (rows @ [row])) = ls @ [l]"
        using True ls by (simp add: row Some remdups_adj_snoc)
      moreover have "foldl add_point [] (rows @ [row]) = map (?s rows) ls @ [\<lparr>se_Label = l, se_Points = points_of rows l @ [\<lparr>pt_Time = t, pt_Value = x\<rparr>]\<rparr>]"
        by (simp add: IH ls row Some add_point_same)
      ultimately show ?thesis
        using same [of ls] by (simp add: row Some)
    next
      case False
      have new: "l \<notin> set (with_value rows)"
      proof
        assume l: "l \<in> set (with_value rows)"
        then have "last (with_value rows) \<le> l"
          using snoc.prems by (cases "with_value rows" rule: rev_cases) (auto simp: row Some sorted_append)
        then have "last (with_value rows) = l"
          using sorted_last [OF sorted l] by simp
        with False l show False
          by auto
      qed
      have ends: "se_Label (last (map (?s rows) ?ls)) \<noteq> l" if "map (?s rows) ?ls \<noteq> []"
        using that new by (simp add: last_map) (metis last_in_set remdups_adj_set)
      have "foldl add_point [] (rows @ [row]) = map (?s rows) ?ls @ [\<lparr>se_Label = l, se_Points = [\<lparr>pt_Time = t, pt_Value = x\<rparr>]\<rparr>]"
        using add_point_new [OF ends, of t x] by (simp add: IH row Some)
      moreover have "remdups_adj (with_value (rows @ [row])) = ?ls @ [l]"
        using False by (auto simp: row Some remdups_adj_snoc)
      ultimately show ?thesis
        using same [of ?ls] new points_of_none [OF new] by (simp add: row Some)
    qed
  qed
qed

lemma sort_by_two:
  fixes xs :: "('a :: linorder \<times> 'b :: linorder) list"
  assumes "distinct xs"
  shows "sorted (map snd (sort_key snd (sort_key fst xs)))"
    and "sorted_wrt (<) (map fst (filter (\<lambda>x. snd x = l) (sort_key snd (sort_key fst xs))))"
proof -
  let ?f = "filter (\<lambda>x. snd x = l) (sort_key fst xs)"
  have "filter (\<lambda>x. snd x = l) (sort_key snd (sort_key fst xs)) = ?f"
    by (rule sort_key_stable)
  moreover have "sorted (map fst ?f)"
    by (simp add: sorted_filter)
  moreover have "distinct (map fst ?f)"
    using assms by (auto simp: distinct_map inj_on_def prod_eq_iff)
  ultimately show "sorted_wrt (<) (map fst (filter (\<lambda>x. snd x = l) (sort_key snd (sort_key fst xs))))"
    by (simp add: strict_sorted_iff)
qed simp

lemma run_series_groups:
  obtains gs f where "run_series avg mx data sql = map (\<lambda>(b, l). (b, l, f b l)) (sort_key snd (sort_key fst gs))" "distinct gs"
    and "\<And>b l. (b, l) \<in> set gs \<Longrightarrow> b \<in> time_bucket (sql_seconds sql * Second) ` {sql_from sql..<sql_to sql}"
proof
  let ?rows = "series_rows data sql" and ?b = "time_bucket (sql_seconds sql * Second)"
  let ?gs = "remdups (map (\<lambda>(t, l, v). (?b t, l)) ?rows)"
  let ?f = "\<lambda>b l. aggregated avg mx (sql_fun sql) (map (\<lambda>(t, l', v). v) (filter (\<lambda>(t, l', v). ?b t = b \<and> l' = l) ?rows))"
  show "run_series avg mx data sql = map (\<lambda>(b, l). (b, l, ?f b l)) (sort_key snd (sort_key fst ?gs))"
    by (simp add: run_series_def Let_def)
  show "distinct ?gs"
    by simp
  show "b \<in> ?b ` {sql_from sql..<sql_to sql}" if "(b, l) \<in> set ?gs" for b l
    using that by (auto simp: series_rows_def split: option.splits)
qed

lemma points_of_groups:
  "map pt_Time (points_of (map (\<lambda>(b, l). (b, l, f b l)) gs) l) = map fst (filter (\<lambda>(b, l'). l' = l \<and> f b l' \<noteq> None) gs)"
  by (induction gs) (auto simp: points_of_def map_filter_simps split: option.splits if_splits)

lemma with_value_groups: "with_value (map (\<lambda>(b, l). (b, l, f b l)) gs) = map snd (filter (\<lambda>(b, l). f b l \<noteq> None) gs)"
  by (induction gs) (auto simp: with_value_def)

lemma series_of_run:
  "sorted (with_value (run_series avg mx data sql))"
  "sorted_wrt (<) (map pt_Time (points_of (run_series avg mx data sql) l))"
  "set (map pt_Time (points_of (run_series avg mx data sql) l)) \<subseteq> time_bucket (sql_seconds sql * Second) ` {sql_from sql..<sql_to sql}"
proof -
  obtain gs f where gs: "run_series avg mx data sql = map (\<lambda>(b, l). (b, l, f b l)) (sort_key snd (sort_key fst gs))" "distinct gs"
    and b: "\<And>b l. (b, l) \<in> set gs \<Longrightarrow> b \<in> time_bucket (sql_seconds sql * Second) ` {sql_from sql..<sql_to sql}"
    by (rule run_series_groups [of avg mx data sql]) (rule that; assumption)
  note two = sort_by_two [OF gs(2)]
  show "sorted (with_value (run_series avg mx data sql))"
    unfolding gs(1) with_value_groups by (rule sorted_filter [OF two(1)])
  have "filter (\<lambda>(b, l'). l' = l \<and> f b l' \<noteq> None) xs = filter (\<lambda>(b, l'). f b l' \<noteq> None) (filter (\<lambda>x. snd x = l) xs)" for xs
    by (induction xs) auto
  then have times: "map pt_Time (points_of (run_series avg mx data sql) l) =
      map fst (filter (\<lambda>(b, l'). f b l' \<noteq> None) (filter (\<lambda>x. snd x = l) (sort_key snd (sort_key fst gs))))"
    unfolding gs(1) points_of_groups by simp
  show "sorted_wrt (<) (map pt_Time (points_of (run_series avg mx data sql) l))"
    unfolding times sorted_wrt_map by (rule sorted_wrt_filter [OF two(2) [of l, unfolded sorted_wrt_map]])
  show "set (map pt_Time (points_of (run_series avg mx data sql) l)) \<subseteq> time_bucket (sql_seconds sql * Second) ` {sql_from sql..<sql_to sql}"
    unfolding times using b by auto
qed

section \<open>Properties\<close>

lemma QuerySeries_effect:
  assumes "QuerySeries avg mx data retention now q s = (Inr result, s')"
  obtains def hid step source maxPoints where "map_of seriesDefs (sq_Metric q) = Some def" "sq_From q < sq_To q" "sq_Max q \<longrightarrow> sd_hasMax def"
    "maxPoints = (if sq_MaxPoints q \<le> 0 then defaultMaxPoints else sq_MaxPoints q)"
    "pickSource def (sq_From q) (sq_To q) now maxPoints retention = (source, step)"
    "result = \<lparr>sr_Source = source, sr_Step = step, sr_Series = foldl add_point [] (run_series avg mx data (seriesSQL_of def source step hid q))\<rparr>"
proof -
  obtain def where def: "map_of seriesDefs (sq_Metric q) = Some def" "sq_From q < sq_To q" "sq_Max q \<longrightarrow> sd_hasMax def"
    using assms by (auto simp: QuerySeries_def fail_def split: option.splits if_splits)
  have no_max: "(sq_Max q \<and> \<not> sd_hasMax def) = False"
    using def(3) by simp
  define mp where "mp = (if sq_MaxPoints q \<le> 0 then defaultMaxPoints else sq_MaxPoints q)"
  obtain source step where pick: "pickSource def (sq_From q) (sq_To q) now mp retention = (source, step)"
    by fastforce
  have "bindE (hostID (sq_Host q)) (\<lambda>hid. bindE (run_query (run_series avg mx data) (seriesSQL_of def source step hid q)) (\<lambda>rows.
      ret \<lparr>sr_Source = source, sr_Step = step, sr_Series = foldl add_point [] rows\<rparr>)) s = (Inr result, s')"
    using assms def(1,2) no_max pick by (simp add: QuerySeries_def Let_def mp_def)
  then obtain hid s1 where run: "bindE (run_query (run_series avg mx data) (seriesSQL_of def source step hid q)) (\<lambda>rows.
      ret \<lparr>sr_Source = source, sr_Step = step, sr_Series = foldl add_point [] rows\<rparr>) s1 = (Inr result, s')"
    by (cases rule: bindE_cases) auto
  then obtain rows s2 where rows: "run_query (run_series avg mx data) (seriesSQL_of def source step hid q) s1 = (Inr rows, s2)"
    and result: "result = \<lparr>sr_Source = source, sr_Step = step, sr_Series = foldl add_point [] rows\<rparr>"
    by (cases rule: bindE_cases) auto
  have "rows = run_series avg mx data (seriesSQL_of def source step hid q)"
    using rows unfolding run_query_def by (cases rule: bindE_cases) (auto simp: fail_def ret_def split: if_splits elim: query_cases)
  with result def pick show thesis
    by (intro that [of def mp source step hid]) (simp_all add: mp_def)
qed

lemma series_metric_seconds: "Second dvd step \<Longrightarrow> 0 < step \<Longrightarrow> sql_seconds (seriesSQL_of def source step hid q) * Second = step"
  by (auto simp: seriesSQL_of_def tquot_nonneg Second_def)


section \<open>The collector's call\<close>

record SeriesRequest =
  si_Host :: string
  si_Metric :: string
  si_Label :: string
  si_From :: int
  si_To :: int
  si_MaxPoints :: int
  si_Max :: bool

record SeriesResponse =
  so_Metric :: string
  so_Source :: string
  so_StepSeconds :: int
  so_Series :: "(string \<times> (int \<times> float64) list) list"

text \<open>\<open>int64(d.Seconds())\<close> of a width in whole seconds below 2^53.\<close>

definition seriesResponse :: "string \<Rightarrow> SeriesResult \<Rightarrow> SeriesResponse" where
  "seriesResponse metric result = \<lparr>so_Metric = metric, so_Source = sr_Source result, so_StepSeconds = tquot (sr_Step result) Second,
     so_Series = map (\<lambda>x. (se_Label x, map (\<lambda>p. (unix_time (pt_Time p), pt_Value p)) (se_Points x))) (sr_Series result)\<rparr>"

definition api_QuerySeries ::
  "(float64 list \<Rightarrow> float64) \<Rightarrow> (float64 list \<Rightarrow> float64) \<Rightarrow> metric_rows \<Rightarrow> Retention \<Rightarrow> time \<Rightarrow> SeriesRequest \<Rightarrow> (SeriesResponse, db) act" where
  "api_QuerySeries avg mx data retention now r =
     bindE (map_err toStatus (QuerySeries avg mx data retention now
       \<lparr>sq_Host = si_Host r, sq_Metric = si_Metric r, sq_Label = si_Label r, sq_From = time_Unix (si_From r), sq_To = time_Unix (si_To r),
        sq_MaxPoints = si_MaxPoints r, sq_Max = si_Max r\<rparr>)) (\<lambda>result.
     ret (seriesResponse (si_Metric r) result))"

section \<open>Examples\<close>

definition example_series_rows :: metric_rows where
  "example_series_rows table tm column label host = [(time_Unix 946857630, [], Some (Fin 1)), (time_Unix 946857650, [], Some (Fin 2)), (time_Unix 946857690, [], Some (Fin 3))]"

definition example_query :: SeriesQuery where
  "example_query = \<lparr>sq_Host = ''h'', sq_Metric = ''cpu'', sq_Label = [], sq_From = time_Unix 946857620, sq_To = time_Unix 946857700, sq_MaxPoints = 2, sq_Max = False\<rparr>"

definition example_series :: "SeriesResult result \<times> db" where
  "example_series = QuerySeries hd hd example_series_rows DefaultRetention (time_Unix 946857700) example_query (snd (AddHost ''h'' ''UTC'' empty_db))"

lemma example_series_three: "map_sum (\<lambda>_. ()) (\<lambda>r. map (length \<circ> se_Points) (sr_Series r)) (fst example_series) = Inr [3]"
  by code_simp


text \<open>A range of 292 years and one point: the width overflows and is negative.\<close>

lemma step_overflows: "snd (pickSource (series_def ''host_metrics'' ''cpu_pct'' [] True) 0 (2 ^ 63 - 1) 0 1 DefaultRetention) < 0"
  by code_simp

end
