(* ===== verification/FleetApi.thy ===== *)
theory FleetApi
  imports StoreQueries SeriesQuery StoreKube
begin

text \<open>
  The collector's calls behind the pages of the dashboard: the rest of internal/api/api.go and internal/api/kube.go, with \<open>Endpoints\<close>, \<open>EndpointSeries\<close>
  (internal/store/endpoints.go) and \<open>ClusterSeries\<close> (internal/store/kube.go). An answer is the record of the fields a handler fills; int32 fields wrap.
\<close>

section \<open>Hosts\<close>

record api_HostSummary =
  ah_Name :: string
  ah_Up :: bool
  ah_LastSeen :: int
  ah_Time :: int
  ah_Os :: string
  ah_UptimeSeconds :: float64
  ah_CpuPct :: float64
  ah_MemUsedPct :: float64
  ah_SwapUsedPct :: float64
  ah_DiskUsedPct :: float64
  ah_RxBps :: float64
  ah_TxBps :: float64
  ah_ActiveAlerts :: int
  ah_WorstSeverity :: int
  ah_Containers :: int
  ah_AgentVersion :: string
  ah_CanUpdate :: bool
  ah_UpdateVersion :: string
  ah_UpdateError :: string
  ah_UpdateRequestedAt :: int
  ah_DiskFullDays :: "float64 option"

text \<open>The server's cache of forecasts beside the database.\<close>

record fleet_server =
  fl_db :: db
  fl_forecastAt :: time
  fl_diskFull :: "string \<rightharpoonup> float64"

definition on_fleet :: "('a, db) act \<Rightarrow> ('a, fleet_server) act" where
  "on_fleet m s = (case m (fl_db s) of (r, d) \<Rightarrow> (r, s\<lparr>fl_db := d\<rparr>))"

definition forecastCacheTTL :: duration where
  "forecastCacheTTL = 5 * Minute"

text \<open>\<open>now'\<close> is the time when the query came back.\<close>

definition soonestDiskFull :: "regression \<Rightarrow> time \<Rightarrow> time \<Rightarrow> fleet_server \<Rightarrow> (string \<rightharpoonup> float64) \<times> fleet_server" where
  "soonestDiskFull regr now now' s =
     (if time_sub now (fl_forecastAt s) < forecastCacheTTL then (fl_diskFull s, s)
      else case on_fleet (SoonestDiskFull regr now) s of
        (Inl _, s') \<Rightarrow> (fl_diskFull s', s')
      | (Inr diskFull, s') \<Rightarrow> (diskFull, s'\<lparr>fl_diskFull := diskFull, fl_forecastAt := now'\<rparr>))"

definition fleet_host :: "time \<Rightarrow> (string \<rightharpoonup> float64) \<Rightarrow> HostSummary \<Rightarrow> api_HostSummary" where
  "fleet_host now diskFull s =
     \<lparr>ah_Name = hs_Name s, ah_Up = isUp (hs_LastSeen s) now, ah_LastSeen = unix_time (hs_LastSeen s), ah_Time = unix_time (hs_Time s), ah_Os = hs_OS s,
      ah_UptimeSeconds = hs_UptimeSeconds s, ah_CpuPct = hs_CPUPct s, ah_MemUsedPct = hs_MemUsedPct s, ah_SwapUsedPct = hs_SwapUsedPct s,
      ah_DiskUsedPct = hs_DiskUsedPct s, ah_RxBps = hs_RxBps s, ah_TxBps = hs_TxBps s, ah_ActiveAlerts = wrap32 (hs_ActiveAlerts s),
      ah_WorstSeverity = wrap32 (hs_WorstSeverity s), ah_Containers = wrap32 (hs_Containers s), ah_AgentVersion = hs_AgentVersion s,
      ah_CanUpdate = hs_CanUpdate s, ah_UpdateVersion = hs_UpdateVersion s, ah_UpdateError = hs_UpdateError s,
      ah_UpdateRequestedAt = unix_time (hs_UpdateRequestedAt s), ah_DiskFullDays = diskFull (hs_Name s)\<rparr>"

definition Fleet :: "regression \<Rightarrow> time \<Rightarrow> time \<Rightarrow> (api_HostSummary list, fleet_server) act" where
  "Fleet regr now now' =
     bindE (map_err toStatus (on_fleet FleetSummary)) (\<lambda>summaries s.
       case soonestDiskFull regr now now' s of (diskFull, s') \<Rightarrow> (Inr (map (fleet_host now' diskFull) summaries), s'))"

definition api_DiskForecasts :: "regression \<Rightarrow> time \<Rightarrow> string \<Rightarrow> (DiskForecast list, db) act" where
  "api_DiskForecasts regr now host = bindE (map_err toStatus (DiskForecasts regr now host)) (\<lambda>fs. ret (map (\<lambda>f. f\<lparr>df_Samples := wrap32 (df_Samples f)\<rparr>) fs))"

text \<open>A snapshot travels as the JSON that is stored; here it is the value, None for the empty text.\<close>

record HostSnapshot =
  hp_Host :: string
  hp_Time :: int
  hp_Snapshot :: "MonitorData option"
  hp_LastSeen :: int
  hp_Up :: bool

definition api_Snapshot :: "time \<Rightarrow> string \<Rightarrow> (HostSnapshot, db) act" where
  "api_Snapshot now host = bindE (map_err toStatus (LatestSnapshot_read host)) (\<lambda>l.
     ret \<lparr>hp_Host = host, hp_Time = time_toUnix (ls_Time l), hp_Snapshot = ls_Snapshot l, hp_LastSeen = unix_time (ls_LastSeen l),
       hp_Up = isUp (ls_LastSeen l) now\<rparr>)"

definition host_snapshot :: "time \<Rightarrow> LatestSnapshot \<Rightarrow> HostSnapshot" where
  "host_snapshot now l = \<lparr>hp_Host = ls_Host l, hp_Time = unix_time (ls_Time l), hp_Snapshot = ls_Snapshot l, hp_LastSeen = unix_time (ls_LastSeen l),
     hp_Up = isUp (ls_LastSeen l) now\<rparr>"

record api_CustomValue =
  ac_Host :: string
  ac_Name :: string
  ac_Unit :: string
  ac_Value :: float64
  ac_Time :: int

definition api_custom_value :: "CustomValue \<Rightarrow> api_CustomValue" where
  "api_custom_value v = \<lparr>ac_Host = cv_Host v, ac_Name = cv_Name v, ac_Unit = cv_Unit v, ac_Value = cv_Value v, ac_Time = time_toUnix (cv_Time v)\<rparr>"

definition api_Snapshots :: "custom_rollup \<Rightarrow> time \<Rightarrow> (HostSnapshot list \<times> api_CustomValue list, db) act" where
  "api_Snapshots rollup now =
     bindE (map_err toStatus LatestSnapshots) (\<lambda>hosts.
     bindE (map_err toStatus (LatestCustomValues rollup now)) (\<lambda>values.
     ret (map (host_snapshot now) hosts, map api_custom_value values)))"

definition api_Processes :: "time \<Rightarrow> string \<Rightarrow> int \<Rightarrow> (int \<times> Processes, db) act" where
  "api_Processes now host moment =
     bindE (map_err toStatus (Processes_read host (if moment > 0 then time_Unix moment else now))) (\<lambda>(t, p). ret (time_toUnix t, p))"

definition api_ProcessUsage :: "float_sum \<Rightarrow> (float64 list \<Rightarrow> float64) \<Rightarrow> string \<Rightarrow> int \<Rightarrow> int \<Rightarrow> (int \<times> int \<times> ProcessUsage list, db) act" where
  "api_ProcessUsage fsum fmax host from to =
     bindE (map_err toStatus (ProcessUsage_read fsum fmax host (time_Unix from) (time_Unix to))) (\<lambda>r.
     ret (wrap32 (pur_Snapshots r), unix_time (pur_FirstTime r), pur_Processes r))"

definition api_CustomMetricNames :: "custom_rollup \<Rightarrow> string \<Rightarrow> (string list, db) act" where
  "api_CustomMetricNames rollup host = map_err toStatus (CustomMetricNames rollup host)"

record AlertRecord =
  ar_Id :: int
  ar_Host :: string
  ar_Rule :: string
  ar_Metric :: string
  ar_Target :: string
  ar_Severity :: int
  ar_Value :: float64
  ar_StartedAt :: int
  ar_UpdatedAt :: int
  ar_ResolvedAt :: int

definition alert_record :: "Alert \<Rightarrow> AlertRecord" where
  "alert_record a = \<lparr>ar_Id = al_ID a, ar_Host = al_Host a, ar_Rule = al_Rule a, ar_Metric = al_Metric a, ar_Target = al_Target a,
     ar_Severity = wrap32 (al_Severity a), ar_Value = al_Value a, ar_StartedAt = time_toUnix (al_StartedAt a), ar_UpdatedAt = time_toUnix (al_UpdatedAt a),
     ar_ResolvedAt = (case al_ResolvedAt a of None \<Rightarrow> 0 | Some t \<Rightarrow> time_toUnix t)\<rparr>"

definition api_Alerts :: "string \<Rightarrow> bool \<Rightarrow> int \<Rightarrow> int \<Rightarrow> (AlertRecord list, db) act" where
  "api_Alerts host openOnly from to =
     bindE (map_err toStatus (Alerts \<lparr>af_Host = host, af_Rule = [], af_OpenOnly = openOnly,
       af_From = (if from > 0 then time_Unix from else zero_time), af_To = (if to > 0 then time_Unix to else zero_time)\<rparr>)) (\<lambda>alerts.
     ret (map alert_record alerts))"

section \<open>Endpoints\<close>

record EndpointSummary =
  es_Latest :: EndpointCheck
  es_Checks :: int
  es_UptimePct :: float64
  es_AvgLatency :: duration
  es_CertExpires :: time

text \<open>\<open>avg(ok::int) * 100\<close> and \<open>avg(latency_ms)\<close> are parameters; the second leaves NULLs out and is NULL without any value.\<close>

definition endpoint_summary :: "(bool list \<Rightarrow> float64) \<Rightarrow> (float64 list \<Rightarrow> float64) \<Rightarrow> tables \<Rightarrow> time \<Rightarrow> time \<Rightarrow> string \<Rightarrow> EndpointSummary" where
  "endpoint_summary pct avg t from to name =
     (let mine = filter (\<lambda>c. ec_name c = name \<and> ec_time c < timestamptz to) (db_checks t);
          ranged = filter (\<lambda>c. timestamptz from \<le> ec_time c) mine;
          latencies = List.map_filter ec_latency_ms ranged;
          l = (case newest ec_time mine of None \<Rightarrow> hd mine | Some c \<Rightarrow> c)
      in \<lparr>es_Latest = (check_of_row l)\<lparr>ck_CertExpires := zero_time\<rparr>, es_Checks = int (length ranged), es_UptimePct = pct (map ec_ok ranged),
          es_AvgLatency = (if latencies = [] then 0 else f_to_int (f_mul (avg latencies) (f_of_int Millisecond))),
          es_CertExpires = (case newest ec_time (filter (\<lambda>c. ec_cert_expires_at c \<noteq> None) mine) of
             None \<Rightarrow> zero_time | Some c \<Rightarrow> time_or_zero (ec_cert_expires_at c))\<rparr>)"

definition Endpoints :: "(bool list \<Rightarrow> float64) \<Rightarrow> (float64 list \<Rightarrow> float64) \<Rightarrow> time \<Rightarrow> time \<Rightarrow> (EndpointSummary list, db) act" where
  "Endpoints pct avg from to =
     (if \<not> from < to then fail (ErrWrap ''%w: from must be before to'' [] ErrInvalid)
      else query (\<lambda>t. map (endpoint_summary pct avg t from to)
        (sort (remdups (map ec_name (filter (\<lambda>c. timestamptz from \<le> ec_time c \<and> ec_time c < timestamptz to) (db_checks t)))))))"

definition endpointSeriesColumns :: "string list" where
  "endpointSeriesColumns = [''latency'', ''availability'']"

definition check_points :: "string \<Rightarrow> string \<Rightarrow> tables \<Rightarrow> (time \<times> string \<times> float64 option) list" where
  "check_points name metric t = map (\<lambda>c. (ec_time c, name, if metric = ''latency'' then ec_latency_ms c else Some (if ec_ok c then Fin 1 else Fin 0)))
     (filter (\<lambda>c. ec_name c = name) (db_checks t))"

text \<open>\<open>GROUP BY t ORDER BY t\<close> over the rows of one statement; \<open>agg\<close> is the column's expression.\<close>

definition chart_sql :: "string \<Rightarrow> string \<Rightarrow> duration \<Rightarrow> time \<Rightarrow> time \<Rightarrow> seriesSQL" where
  "chart_sql table column step from to = \<lparr>sql_table = table, sql_time = ''time'', sql_fun = Avg, sql_column = column, sql_label = [], sql_only = None,
     sql_seconds = tquot step Second, sql_host = 0, sql_from = timestamptz from, sql_to = timestamptz to\<rparr>"

definition run_chart :: "(float64 list \<Rightarrow> float64) \<Rightarrow> (tables \<Rightarrow> (time \<times> string \<times> float64 option) list) \<Rightarrow> seriesSQL \<Rightarrow> ((time \<times> string \<times> float64 option) list, db) act" where
  "run_chart agg rows sql = bindE (query (\<lambda>t. run_series agg agg (\<lambda>_ _ _ _ _. rows t) sql)) (\<lambda>found.
     if sql_seconds sql \<le> 0 then fail (ErrDB ''period must be greater than 0'') else ret found)"

definition EndpointSeries :: "(string \<Rightarrow> float64 list \<Rightarrow> float64) \<Rightarrow> string \<Rightarrow> string \<Rightarrow> time \<Rightarrow> time \<Rightarrow> int \<Rightarrow> (SeriesResult, db) act" where
  "EndpointSeries agg name metric from to maxPoints =
     (if metric \<notin> set endpointSeriesColumns then fail (ErrWrap ''%w: unknown endpoint metric %q'' [metric] ErrInvalid)
      else if \<not> from < to then fail (ErrWrap ''%w: from must be before to'' [] ErrInvalid)
      else let step = raw_step from to (if maxPoints \<le> 0 then defaultMaxPoints else maxPoints) in
        bindE (run_chart (agg metric) (check_points name metric) (chart_sql ''endpoint_checks'' metric step from to)) (\<lambda>rows.
        let points = List.map_filter (\<lambda>(t, l, v). map_option (\<lambda>v. \<lparr>pt_Time = t, pt_Value = v\<rparr>) v) rows in
        ret \<lparr>sr_Source = ''raw'', sr_Step = step, sr_Series = (if points \<noteq> [] then [\<lparr>se_Label = name, se_Points = points\<rparr>] else [])\<rparr>))"

record EndpointStatus =
  ep_Name :: string
  ep_Url :: string
  ep_Method :: string
  ep_Time :: int
  ep_Ok :: bool
  ep_StatusCode :: int
  ep_LatencyMs :: float64
  ep_Error :: string
  ep_Checks :: int
  ep_UptimePct :: float64
  ep_AvgLatencyMs :: float64
  ep_CertExpires :: int

definition milliseconds :: "duration \<Rightarrow> float64" where
  "milliseconds d = f_div (f_of_int d) (f_of_int Millisecond)"

definition endpoint_status :: "EndpointSummary \<Rightarrow> EndpointStatus" where
  "endpoint_status s = (let l = es_Latest s in
     \<lparr>ep_Name = ck_Name l, ep_Url = ck_URL l, ep_Method = ck_Method l, ep_Time = time_toUnix (ck_Time l), ep_Ok = ck_OK l,
      ep_StatusCode = wrap32 (ck_StatusCode l), ep_LatencyMs = milliseconds (ck_Latency l), ep_Error = ck_Error l, ep_Checks = wrap32 (es_Checks s),
      ep_UptimePct = es_UptimePct s, ep_AvgLatencyMs = milliseconds (es_AvgLatency s), ep_CertExpires = unix_time (es_CertExpires s)\<rparr>)"

definition api_Endpoints :: "(bool list \<Rightarrow> float64) \<Rightarrow> (float64 list \<Rightarrow> float64) \<Rightarrow> int \<Rightarrow> int \<Rightarrow> (EndpointStatus list, db) act" where
  "api_Endpoints pct avg from to =
     bindE (map_err toStatus (Endpoints pct avg (time_Unix from) (time_Unix to))) (\<lambda>ss. ret (map endpoint_status ss))"

definition api_EndpointSeries :: "(string \<Rightarrow> float64 list \<Rightarrow> float64) \<Rightarrow> string \<Rightarrow> string \<Rightarrow> int \<Rightarrow> int \<Rightarrow> int \<Rightarrow> (SeriesResponse, db) act" where
  "api_EndpointSeries agg name metric from to maxPoints =
     bindE (map_err toStatus (EndpointSeries agg name metric (time_Unix from) (time_Unix to) maxPoints)) (\<lambda>r. ret (seriesResponse metric r))"

section \<open>Clusters\<close>

text \<open>The lines of a chart: the label, and what is aggregated of a row; restarts are added up, the rest is averaged.\<close>

definition clusterSeries :: "(string \<times> (string \<times> bool \<times> (kube_metric_row \<Rightarrow> int)) list) list" where
  "clusterSeries = [
     (''nodes'', [(''ready'', False, \<lambda>m. ct_NodesReady (km_counts m)), (''not ready'', False, \<lambda>m. ct_Nodes (km_counts m) - ct_NodesReady (km_counts m))]),
     (''pods'', [(''running'', False, \<lambda>m. ct_PodsRunning (km_counts m)), (''pending'', False, \<lambda>m. ct_PodsPending (km_counts m)),
        (''not ready'', False, \<lambda>m. ct_PodsNotReady (km_counts m)), (''failed'', False, \<lambda>m. ct_PodsFailed (km_counts m))]),
     (''workloads'', [(''ready'', False, \<lambda>m. ct_WorkloadsReady (km_counts m)),
        (''not ready'', False, \<lambda>m. ct_Workloads (km_counts m) - ct_WorkloadsReady (km_counts m))]),
     (''restarts'', [(''restarts'', True, km_restarts)])]"

definition cluster_rows :: "string \<Rightarrow> (kube_metric_row \<Rightarrow> int) \<Rightarrow> tables \<Rightarrow> (time \<times> string \<times> float64 option) list" where
  "cluster_rows cluster f t = (case cluster_named t cluster of None \<Rightarrow> []
     | Some c \<Rightarrow> map (\<lambda>m. (km_time m, [], Some (f_of_int (f m)))) (filter (\<lambda>m. km_cluster_id m = kc_id c) (db_kube_metrics t)))"

definition ClusterSeries ::
  "(float64 list \<Rightarrow> float64) \<Rightarrow> (float64 list \<Rightarrow> float64) \<Rightarrow> string \<Rightarrow> string \<Rightarrow> time \<Rightarrow> time \<Rightarrow> int \<Rightarrow> (SeriesResult, db) act" where
  "ClusterSeries avg fsum cluster metric from to maxPoints = (case map_of clusterSeries metric of
     None \<Rightarrow> fail (ErrWrap ''%w: unknown cluster metric %q'' [metric] ErrInvalid)
   | Some lines \<Rightarrow>
       if \<not> from < to then fail (ErrWrap ''%w: from must be before to'' [] ErrInvalid)
       else let step = raw_step from to (if maxPoints \<le> 0 then defaultMaxPoints else maxPoints);
                sql = chart_sql ''kube_metrics'' metric step from to in
         bindE (query (\<lambda>t. map (\<lambda>(label, added, f). (label, run_series (if added then fsum else avg) avg (\<lambda>_ _ _ _ _. cluster_rows cluster f t)
             (sql\<lparr>sql_fun := Avg\<rparr>))) lines)) (\<lambda>found.
         if sql_seconds sql \<le> 0 then fail (ErrDB ''period must be greater than 0'')
         else ret \<lparr>sr_Source = ''raw'', sr_Step = step, sr_Series = map (\<lambda>(label, rows). \<lparr>se_Label = label,
           se_Points = List.map_filter (\<lambda>(t, l, v). map_option (\<lambda>v. \<lparr>pt_Time = t, pt_Value = v\<rparr>) v) rows\<rparr>) found\<rparr>))"

definition clusterRestartsShown :: duration where
  "clusterRestartsShown = 24 * Hour"

definition ReportCluster :: "(string \<Rightarrow> ClusterState result) \<Rightarrow> string option \<Rightarrow> string \<Rightarrow> string \<Rightarrow> (string, db) act" where
  "ReportCluster unmarshal authenticated name stateJson = (case unmarshal stateJson of
     Inl e \<Rightarrow> fail (ErrStatus InvalidArgument (ErrWrap ''cannot parse the cluster state: '' [] e))
   | Inr state \<Rightarrow> (let host = call_host authenticated name in
       bindE (map_err (agentStatus host) (SaveClusterReport host state)) (\<lambda>_. ret ''ok'')))"

record ClusterSummary =
  kq_Name :: string
  kq_Host :: string
  kq_StateTime :: int
  kq_ReportedAt :: int
  kq_Error :: string
  kq_Stale :: bool
  kq_Counts :: Counts
  kq_RestartsLastHour :: int

definition wrap_counts :: "Counts \<Rightarrow> Counts" where
  "wrap_counts c = \<lparr>ct_Nodes = wrap32 (ct_Nodes c), ct_NodesReady = wrap32 (ct_NodesReady c), ct_Pods = wrap32 (ct_Pods c),
     ct_PodsRunning = wrap32 (ct_PodsRunning c), ct_PodsPending = wrap32 (ct_PodsPending c), ct_PodsNotReady = wrap32 (ct_PodsNotReady c),
     ct_PodsFailed = wrap32 (ct_PodsFailed c), ct_Workloads = wrap32 (ct_Workloads c), ct_WorkloadsReady = wrap32 (ct_WorkloadsReady c)\<rparr>"

text \<open>The counts of a map are added up over its finite domain.\<close>

definition clusterSummary :: "time \<Rightarrow> Cluster \<Rightarrow> (ClusterSummary, db) act" where
  "clusterSummary now cluster =
     bindE (RestartsSince (cl_Name cluster) (now - Hour)) (\<lambda>restarts.
     ret \<lparr>kq_Name = cl_Name cluster, kq_Host = cl_Host cluster, kq_StateTime = cs_Time (cl_State cluster), kq_ReportedAt = time_toUnix (cl_ReportedAt cluster),
       kq_Error = cl_Error cluster, kq_Stale = Stale cluster now, kq_Counts = wrap_counts (state_Counts (cl_State cluster)),
       kq_RestartsLastHour = wrap32 (\<Sum>k \<in> dom restarts. the (restarts k))\<rparr>)"

definition api_Clusters :: "time \<Rightarrow> (ClusterSummary list, db) act" where
  "api_Clusters now = bindE (map_err toStatus Clusters) (\<lambda>clusters s.
     foldl (\<lambda>(r, s) c. case r of Inl e \<Rightarrow> (Inl e, s)
       | Inr list \<Rightarrow> bindE (map_err toStatus (clusterSummary now c)) (\<lambda>summary. ret (list @ [summary])) s) (Inr [], s) clusters)"

record ContainerUsage =
  cg_Id :: string
  cg_Host :: string
  cg_CpuPercent :: float64
  cg_CpuCores :: float64
  cg_MemoryBytes :: float64
  cg_MemoryLimit :: float64

definition containerUsage :: "LatestSnapshot \<Rightarrow> string set \<Rightarrow> ContainerUsage list" where
  "containerUsage snapshot ids = (case ls_Snapshot snapshot of None \<Rightarrow> []
     | Some d \<Rightarrow> map (\<lambda>c. \<lparr>cg_Id = co_ID c, cg_Host = ls_Host snapshot, cg_CpuPercent = cc_PercentOfHost (co_CPU c), cg_CpuCores = cc_CoresUsed (co_CPU c),
          cg_MemoryBytes = cy_Used (co_Memory c), cg_MemoryLimit = (if cy_Limited (co_Memory c) then cy_Limit (co_Memory c) else Fin 0)\<rparr>)
        (filter (\<lambda>c. co_ID c \<in> ids) (md_Containers d)))"

definition container_ids :: "ClusterState \<Rightarrow> string set" where
  "container_ids state = set (filter (\<lambda>i. i \<noteq> []) (concat (map (\<lambda>p. map pc_ID (pod_Containers p)) (cs_Pods state))))"

record ClusterInfo =
  ki_Summary :: ClusterSummary
  ki_State :: ClusterState
  ki_Restarts :: "(int \<times> Restart) list"
  ki_Hosts :: "string list"
  ki_Usage :: "ContainerUsage list"

definition api_Cluster :: "time \<Rightarrow> string \<Rightarrow> (ClusterInfo, db) act" where
  "api_Cluster now name =
     bindE (map_err toStatus (Cluster_read name)) (\<lambda>cluster.
     bindE (map_err toStatus (clusterSummary now cluster)) (\<lambda>summary.
     bindE (map_err toStatus (RecentRestarts (cl_Name cluster) (now - clusterRestartsShown) 200)) (\<lambda>restarts.
     bindE (map_err toStatus LatestSnapshots) (\<lambda>snapshots.
     ret \<lparr>ki_Summary = summary, ki_State = cl_State cluster,
       ki_Restarts = map (\<lambda>r. (time_toUnix (ks_Time r), (ks_Restart r)\<lparr>rs_Count := wrap32 (rs_Count (ks_Restart r))\<rparr>)) restarts,
       ki_Hosts = map ls_Host snapshots, ki_Usage = concat (map (\<lambda>l. containerUsage l (container_ids (cl_State cluster))) snapshots)\<rparr>))))"

definition api_ClusterSeries ::
  "(float64 list \<Rightarrow> float64) \<Rightarrow> (float64 list \<Rightarrow> float64) \<Rightarrow> string \<Rightarrow> string \<Rightarrow> int \<Rightarrow> int \<Rightarrow> int \<Rightarrow> (SeriesResponse, db) act" where
  "api_ClusterSeries avg fsum name metric from to maxPoints =
     bindE (map_err toStatus (ClusterSeries avg fsum name metric (time_Unix from) (time_Unix to) maxPoints)) (\<lambda>r. ret (seriesResponse metric r))"

end
