(* ===== verification/MetricsPage.thy ===== *)
theory MetricsPage
  imports FleetApi
begin

text \<open>
  The page Prometheus scrapes: client/internal/server/metrics.go behind its guard. \<open>read_page\<close> reads the text format back, the way a scraper does: families
  of a HELP and a TYPE line with the samples of that name, label values with their escapes undone. The properties are about what it reads.
\<close>

section \<open>Writing\<close>

definition quote :: char where "quote = CHR 0x22"
definition backslash :: char where "backslash = CHR 0x5C"
definition newline :: char where "newline = CHR 0x0A"

lemmas page_chars = quote_def backslash_def newline_def

definition labelEscaper :: "string \<Rightarrow> string" where
  "labelEscaper = Replace [([backslash], [backslash, backslash]), ([quote], [backslash, quote]), ([newline], [backslash, CHR ''n''])]"

record metricFamily =
  mf_name :: string
  mf_kind :: string
  mf_help :: string
  mf_samples :: "string list"
  mf_seen :: "string list"

text \<open>A metricsWriter is its families in the order they were made; \<open>byName\<close> finds one of them.\<close>

type_synonym metricsWriter = "metricFamily list"
type_synonym labels = "(string \<times> string) list"

definition newMetricsWriter :: metricsWriter where
  "newMetricsWriter = []"

definition label_set :: "labels \<Rightarrow> string" where
  "label_set labels = Join (map (\<lambda>(n, v). n @ ''='' @ [quote] @ labelEscaper v @ [quote]) labels) '',''"

definition sample_line :: "string \<Rightarrow> labels \<Rightarrow> float64 \<Rightarrow> string" where
  "sample_line name labels value =
     name @ (if label_set labels \<noteq> [] then ''{'' @ label_set labels @ ''}'' else []) @ '' '' @ FormatFloat value @ [newline]"

definition add_to_family :: "string \<Rightarrow> float64 \<Rightarrow> labels \<Rightarrow> metricFamily \<Rightarrow> metricFamily" where
  "add_to_family name value labels f =
     (if label_set labels \<in> set (mf_seen f) then f
      else f\<lparr>mf_seen := label_set labels # mf_seen f, mf_samples := mf_samples f @ [sample_line name labels value]\<rparr>)"

definition add_sample :: "metricsWriter \<Rightarrow> string \<Rightarrow> string \<Rightarrow> string \<Rightarrow> float64 \<Rightarrow> labels \<Rightarrow> metricsWriter" where
  "add_sample w name kind help value labels =
     (let w = (if name \<in> mf_name ` set w then w else w @ [\<lparr>mf_name = name, mf_kind = kind, mf_help = help, mf_samples = [], mf_seen = []\<rparr>])
      in map (\<lambda>f. if mf_name f = name then add_to_family name value labels f else f) w)"

text \<open>A call of \<open>gauge\<close> or \<open>counter\<close>: name, kind, help, value and labels.\<close>

type_synonym sample = "string \<times> string \<times> string \<times> float64 \<times> labels"

definition gauge :: "string \<Rightarrow> string \<Rightarrow> float64 \<Rightarrow> labels \<Rightarrow> sample" where
  "gauge name help value labels = (name, ''gauge'', help, value, labels)"

definition counter :: "string \<Rightarrow> string \<Rightarrow> float64 \<Rightarrow> labels \<Rightarrow> sample" where
  "counter name help value labels = (name, ''counter'', help, value, labels)"

definition add_all :: "metricsWriter \<Rightarrow> sample list \<Rightarrow> metricsWriter" where
  "add_all = foldl (\<lambda>w (name, kind, help, value, labels). add_sample w name kind help value labels)"

definition family_text :: "metricFamily \<Rightarrow> string" where
  "family_text f = ''# HELP '' @ mf_name f @ '' '' @ mf_help f @ [newline] @ ''# TYPE '' @ mf_name f @ '' '' @ mf_kind f @ [newline] @ concat (mf_samples f)"

definition writeTo :: "metricsWriter \<Rightarrow> string" where
  "writeTo w = concat (map family_text w)"

section \<open>What is written\<close>

definition mib :: float64 where
  "mib = Fin (1024 * 1024)"

definition boolValue :: "bool \<Rightarrow> float64" where
  "boolValue b = (if b then Fin 1 else Fin 0)"

definition disk_samples :: "string \<Rightarrow> Disk \<Rightarrow> sample list" where
  "disk_samples host k =
     (let labels = [(''host'', host), (''device'', dk_FileSystem k), (''mount'', dk_MountedOn k)] in
      (case parsePercent (du_Usage (dk_Usage k)) of None \<Rightarrow> []
       | Some pct \<Rightarrow> [gauge ''symon_disk_used_percent'' ''Disk space in use, as df shows it.'' pct labels]) @
      [gauge ''symon_disk_size_bytes'' ''Disk size.'' (f_of_int (du_Size (dk_Usage k))) labels,
       gauge ''symon_disk_used_bytes'' ''Disk space in use.'' (f_of_int (du_Used (dk_Usage k))) labels] @
      (case parsePercent (iu_Usage (dk_Inodes k)) of None \<Rightarrow> []
       | Some pct \<Rightarrow> [gauge ''symon_disk_inodes_used_percent'' ''Inodes in use.'' pct labels]))"

definition disk_io_samples :: "string \<Rightarrow> DiskIO \<Rightarrow> sample list" where
  "disk_io_samples host x =
     (let labels = [(''host'', host), (''device'', ''/dev/'' @ dio_Device x)] in
      [gauge ''symon_disk_read_bytes_per_second'' ''Disk reads.'' (dio_ReadBytesPerSec x) labels,
       gauge ''symon_disk_write_bytes_per_second'' ''Disk writes.'' (dio_WriteBytesPerSec x) labels,
       gauge ''symon_disk_util_percent'' ''Time the disk was busy.'' (dio_UtilPercent x) labels])"

definition network_samples :: "string \<Rightarrow> Network \<Rightarrow> sample list" where
  "network_samples host n =
     (let labels = [(''host'', host), (''iface'', nw_Interface n)] in
      [counter ''symon_network_receive_bytes_total'' ''Bytes received since boot.'' (f_of_int (nu_RxBytes (nw_Usage n))) labels,
       counter ''symon_network_transmit_bytes_total'' ''Bytes sent since boot.'' (f_of_int (nu_TxBytes (nw_Usage n))) labels])"

definition tcp_samples :: "string \<Rightarrow> TCPStates \<Rightarrow> sample list" where
  "tcp_samples host t = map (\<lambda>(state, n). gauge ''symon_tcp_connections'' ''TCP connections by state.'' (f_of_int n) [(''host'', host), (''state'', state)])
     [(''established'', tcp_Established t), (''syn_sent'', tcp_SynSent t), (''syn_recv'', tcp_SynRecv t), (''fin_wait1'', tcp_FinWait1 t),
      (''fin_wait2'', tcp_FinWait2 t), (''time_wait'', tcp_TimeWait t), (''close'', tcp_Close t), (''close_wait'', tcp_CloseWait t),
      (''last_ack'', tcp_LastAck t), (''listen'', tcp_Listen t), (''closing'', tcp_Closing t)]"

definition pressure_samples :: "string \<Rightarrow> Pressure \<Rightarrow> sample list" where
  "pressure_samples host p = concat (map (\<lambda>(name, r).
     [gauge ''symon_pressure_some_percent'' ''Share of the last 10 seconds some tasks waited on the resource.'' (pm_Avg10 (rp_Some r))
        [(''host'', host), (''resource'', name)]] @
     (if rp_FullAvailable r then [gauge ''symon_pressure_full_percent'' ''Share of the last 10 seconds all tasks waited on the resource.''
        (pm_Avg10 (rp_Full r)) [(''host'', host), (''resource'', name)]] else []))
     [(''cpu'', ps_CPU p), (''memory'', ps_Memory p), (''io'', ps_IO p)])"

definition temperature_sample :: "string \<Rightarrow> Temperature \<Rightarrow> sample" where
  "temperature_sample host t =
     (let sensor = (if te_Label t \<noteq> [] then te_Name t @ ''/'' @ te_Label t else te_Name t)
      in gauge ''symon_temperature_celsius'' ''Sensor temperature.'' (te_Celsius t) [(''host'', host), (''sensor'', sensor)])"

definition service_sample :: "string \<Rightarrow> Service \<Rightarrow> sample" where
  "service_sample host s = gauge ''symon_service_up'' ''1 when the service is running.'' (boolValue (sv_Running s)) [(''host'', host), (''service'', sv_Name s)]"

definition container_samples :: "string \<Rightarrow> Container \<Rightarrow> sample list" where
  "container_samples host c =
     (let name = (if co_Name c = [] then co_ShortID c else co_Name c);
          labels = [(''host'', host), (''container'', name), (''project'', co_ComposeProject c)] in
      [gauge ''symon_container_cpu_percent'' ''Container CPU usage, as a share of the host.'' (cc_PercentOfHost (co_CPU c)) labels,
       gauge ''symon_container_memory_bytes'' ''Container memory in use.'' (cy_Used (co_Memory c)) labels] @
      (case co_Rates c of None \<Rightarrow> [] | Some r \<Rightarrow>
        (case cr_RxBytesPerSec r of None \<Rightarrow> []
         | Some x \<Rightarrow> [gauge ''symon_container_receive_bytes_per_second'' ''Container network traffic received.'' x labels]) @
        (case cr_TxBytesPerSec r of None \<Rightarrow> []
         | Some x \<Rightarrow> [gauge ''symon_container_transmit_bytes_per_second'' ''Container network traffic sent.'' x labels]) @
        [gauge ''symon_container_read_bytes_per_second'' ''Container disk reads.'' (cr_ReadBytesPerSec r) labels,
         gauge ''symon_container_write_bytes_per_second'' ''Container disk writes.'' (cr_WriteBytesPerSec r) labels]))"

definition addHostMetrics :: "string \<Rightarrow> MonitorData \<Rightarrow> sample list" where
  "addHostMetrics host d =
     (let l = [(''host'', host)]; cpu = md_ProcUsage d; m = md_Memory d; sw = md_Swap d in
      [gauge ''symon_uptime_seconds'' ''How long the host has been running.'' (sy_UpTimeSeconds (md_System d)) l,
       gauge ''symon_cpu_usage_percent'' ''CPU usage.'' (f_of_int (cpu_LoadAvg cpu)) l,
       gauge ''symon_load1'' ''Load average over 1 minute.'' (cpu_Load1 cpu) l,
       gauge ''symon_load5'' ''Load average over 5 minutes.'' (cpu_Load5 cpu) l,
       gauge ''symon_load15'' ''Load average over 15 minutes.'' (cpu_Load15 cpu) l,
       gauge ''symon_memory_used_percent'' ''Memory in use.'' (mem_PercentageUsed m) l,
       gauge ''symon_memory_total_bytes'' ''Total memory.'' (f_mul (f_of_int (mem_Total m)) mib) l,
       gauge ''symon_memory_available_bytes'' ''Memory available to new programs.'' (f_mul (f_of_int (mem_Available m)) mib) l,
       gauge ''symon_swap_used_percent'' ''Swap in use.'' (sw_PercentageUsed sw) l,
       gauge ''symon_swap_total_bytes'' ''Total swap.'' (f_mul (f_of_int (sw_Total sw)) mib) l] @
      concat (map (disk_samples host) (md_Disk d)) @ concat (map (disk_io_samples host) (md_DiskIO d)) @
      concat (map (network_samples host) (md_Networks d)) @ (case md_TCPStates d of None \<Rightarrow> [] | Some t \<Rightarrow> tcp_samples host t) @
      (case md_Pressure d of None \<Rightarrow> [] | Some p \<Rightarrow> pressure_samples host p) @ map (temperature_sample host) (md_Temperatures d) @
      map (service_sample host) (md_Services d) @ concat (map (container_samples host) (md_Containers d)))"

definition host_page_samples :: "HostSnapshot \<Rightarrow> sample list" where
  "host_page_samples h =
     [gauge ''symon_up'' ''1 when the host reported within the last minute.'' (boolValue (hp_Up h)) [(''host'', hp_Host h)]] @
     (if 0 < hp_LastSeen h then [gauge ''symon_last_seen_timestamp_seconds'' ''When the host was last heard from.'' (f_of_int (hp_LastSeen h))
        [(''host'', hp_Host h)]] else []) @
     (case hp_Snapshot h of None \<Rightarrow> [] | Some d \<Rightarrow> if hp_Up h then addHostMetrics (hp_Host h) d else [])"

definition custom_page_samples :: "(string \<rightharpoonup> bool) \<Rightarrow> api_CustomValue \<Rightarrow> sample list" where
  "custom_page_samples up c =
     (if up (ac_Host c) \<noteq> Some True then []
      else [gauge ''symon_custom_metric'' ''The newest value of a custom metric sent in the last 2 days.'' (ac_Value c)
              [(''host'', ac_Host c), (''name'', ac_Name c), (''unit'', ac_Unit c)],
            gauge ''symon_custom_metric_timestamp_seconds'' ''When the custom metric was last sent.'' (f_of_int (ac_Time c))
              [(''host'', ac_Host c), (''name'', ac_Name c)]])"

definition page_samples :: "HostSnapshot list \<times> api_CustomValue list \<Rightarrow> sample list" where
  "page_samples response = (case response of (hosts, customs) \<Rightarrow>
     (let up = foldl (\<lambda>m h. m(hp_Host h \<mapsto> hp_Up h)) Map.empty hosts
      in concat (map host_page_samples hosts) @ concat (map (custom_page_samples up) customs)))"

definition metrics_page :: "HostSnapshot list \<times> api_CustomValue list \<Rightarrow> string" where
  "metrics_page response = writeTo (add_all newMetricsWriter (page_samples response))"

section \<open>Reading\<close>

fun read_value :: "string \<Rightarrow> (string \<times> string) option" where
  "read_value [] = None"
| "read_value [c] = (if c = quote then Some ([], []) else None)"
| "read_value (c # d # cs) =
     (if c = quote then Some ([], d # cs)
      else if c = backslash then map_option (\<lambda>(v, rest). ((if d = CHR ''n'' then newline else d) # v, rest)) (read_value cs)
      else map_option (\<lambda>(v, rest). (c # v, rest)) (read_value (d # cs)))"

fun read_labels :: "nat \<Rightarrow> string \<Rightarrow> (labels \<times> string) option" where
  "read_labels 0 s = None"
| "read_labels (Suc n) s =
     (let name = takeWhile (\<lambda>c. c \<noteq> CHR ''='') s in
      case drop (length name) s of
        e # q # text \<Rightarrow>
          if q \<noteq> quote then None
          else Option.bind (read_value text) (\<lambda>(v, rest). case rest of
            c # cs \<Rightarrow> if c = CHR ''}'' then Some ([(name, v)], cs)
              else if c = CHR '','' then map_option (\<lambda>(ls, r). ((name, v) # ls, r)) (read_labels n cs) else None
          | [] \<Rightarrow> None)
      | _ \<Rightarrow> None)"

text \<open>A line of a sample: its name, labels and the text of its value.\<close>

definition read_sample :: "string \<Rightarrow> (string \<times> labels \<times> string) option" where
  "read_sample line =
     (let name = takeWhile (\<lambda>c. c \<noteq> CHR ''{'' \<and> c \<noteq> CHR '' '') line in
      case drop (length name) line of
        c # rest \<Rightarrow> if c = CHR '' '' then Some (name, [], rest)
          else (case read_labels (length rest) rest of
            Some (ls, s # value) \<Rightarrow> if s = CHR '' '' then Some (name, ls, value) else None
          | _ \<Rightarrow> None)
      | [] \<Rightarrow> None)"

text \<open>The lines of a text that ends with a line break.\<close>

fun page_lines :: "string \<Rightarrow> string list" where
  "page_lines [] = []"
| "page_lines (c # cs) = (if c = newline then [] # page_lines cs else (case page_lines cs of [] \<Rightarrow> [[c]] | l # ls \<Rightarrow> (c # l) # ls))"

definition after_prefix :: "string \<Rightarrow> string \<Rightarrow> string option" where
  "after_prefix p s = (if take (length p) s = p then Some (drop (length p) s) else None)"

definition word_and_rest :: "string \<Rightarrow> string \<times> string" where
  "word_and_rest s = (let w = takeWhile (\<lambda>c. c \<noteq> CHR '' '') s in (w, drop (Suc (length w)) s))"

fun all_some :: "'a option list \<Rightarrow> 'a list option" where
  "all_some [] = Some []"
| "all_some (x # xs) = (case x of None \<Rightarrow> None | Some a \<Rightarrow> map_option ((#) a) (all_some xs))"

definition is_comment :: "string \<Rightarrow> bool" where
  "is_comment line \<longleftrightarrow> line \<noteq> [] \<and> hd line = CHR ''#''"

text \<open>A family is its name, its kind and its samples, which have to be of that name.\<close>

type_synonym family = "string \<times> string \<times> (labels \<times> string) list"

function read_families :: "string list \<Rightarrow> family list option" where
  "read_families [] = Some []"
| "read_families [l] = None"
| "read_families (help # type # lines) =
     (case (after_prefix ''# HELP '' help, after_prefix ''# TYPE '' type) of
        (Some h, Some t) \<Rightarrow>
          (let (name, _) = word_and_rest h; (name', kind) = word_and_rest t;
               samples = all_some (map read_sample (takeWhile (\<lambda>l. \<not> is_comment l) lines)) in
           case samples of
             None \<Rightarrow> None
           | Some xs \<Rightarrow> if name' \<noteq> name \<or> \<not> list_all (\<lambda>(n, l, v). n = name) xs then None
               else map_option ((#) (name, kind, map snd xs)) (read_families (dropWhile (\<lambda>l. \<not> is_comment l) lines)))
      | _ \<Rightarrow> None)"
  by pat_completeness auto
termination
  by (relation "measure length") (auto simp: length_dropWhile_le less_Suc_eq_le intro: le_SucI)

definition read_page :: "string \<Rightarrow> family list option" where
  "read_page page = read_families (page_lines page)"

end
