(* ===== verification/MetricsRead.thy ===== *)
theory MetricsRead
  imports MetricsPage
begin

text \<open>
  What a scraper reads from the metrics page: the page is well formed, no series is on it twice, and each has the first value that was written for it.
\<close>

section \<open>Labels\<close>

definition escaped :: "char \<Rightarrow> string" where
  "escaped c = (if c = backslash then [backslash, backslash] else if c = quote then [backslash, quote] else if c = newline then [backslash, CHR ''n''] else [c])"

lemma HasPrefix_single: "HasPrefix (c # s) [d] \<longleftrightarrow> c = d"
  by (auto simp: HasPrefix_def)

lemma labelEscaper_escaped: "labelEscaper v = concat (map escaped v)"
  by (induction v) (auto simp: labelEscaper_def escaped_def HasPrefix_single)

lemma page_chars_distinct [simp]: "backslash \<noteq> quote" "quote \<noteq> backslash" "newline \<noteq> quote" "quote \<noteq> newline" "newline \<noteq> backslash" "backslash \<noteq> newline"
    "CHR ''n'' \<noteq> newline" "CHR ''n'' \<noteq> quote" "CHR ''n'' \<noteq> backslash" "backslash \<noteq> CHR ''n''" "quote \<noteq> CHR ''n''"
  by (simp_all add: page_chars)

lemma read_value_plain: "s \<noteq> [] \<Longrightarrow> c \<noteq> quote \<Longrightarrow> c \<noteq> backslash \<Longrightarrow> read_value (c # s) = map_option (\<lambda>(v, rest). (c # v, rest)) (read_value s)"
  by (cases s) auto

lemma read_value_quote: "read_value (quote # s) = Some ([], s)"
  by (cases s) auto

lemma read_value_escaped: "read_value (labelEscaper v @ quote # rest) = Some (v, rest)"
  unfolding labelEscaper_escaped
  by (induction v) (auto simp: escaped_def read_value_quote read_value_plain)

lemma newline_escaped: "newline \<notin> set (labelEscaper v)"
proof -
  have "newline \<notin> set (escaped c)" for c
    by (simp add: escaped_def page_chars)
  then show ?thesis
    by (induction v) (auto simp: labelEscaper_escaped)
qed

text \<open>Label names as the code has them: constants without an equals sign or a line break.\<close>

definition plain_labels :: "labels \<Rightarrow> bool" where
  "plain_labels ls \<longleftrightarrow> ls \<noteq> [] \<and> list_all (\<lambda>(n, v). CHR ''='' \<notin> set n \<and> newline \<notin> set n) ls"

lemma takeWhile_until: "x \<notin> set xs \<Longrightarrow> takeWhile (\<lambda>c. c \<noteq> x) (xs @ x # ys) = xs"
  by (subst takeWhile_append2) auto

lemma label_set_Cons:
  "label_set ((n, v) # ls) = n @ CHR ''='' # quote # labelEscaper v @ quote # (if ls = [] then [] else CHR '','' # label_set ls)"
  by (cases ls) (auto simp: label_set_def)

lemma read_labels_set:
  "plain_labels ls \<Longrightarrow> length ls \<le> n \<Longrightarrow> read_labels n (label_set ls @ CHR ''}'' # rest) = Some (ls, rest)"
proof (induction ls arbitrary: n)
  case (Cons l ls)
  obtain a v where l: "l = (a, v)" by fastforce
  from Cons.prems l have a: "CHR ''='' \<notin> set a" by (simp add: plain_labels_def)
  obtain m where n: "n = Suc m" using Cons.prems(2) by (cases n) auto
  show ?case
  proof (cases "ls = []")
    case True
    with a show ?thesis
      by (simp add: n l label_set_Cons takeWhile_until read_value_escaped Let_def)
  next
    case False
    with Cons.prems n have "read_labels m (label_set ls @ CHR ''}'' # rest) = Some (ls, rest)"
      by (intro Cons.IH) (auto simp: plain_labels_def)
    with a False show ?thesis
      by (simp add: n l label_set_Cons takeWhile_until read_value_escaped Let_def)
  qed
qed (simp add: plain_labels_def)

lemma label_set_not_Nil: "plain_labels ls \<Longrightarrow> label_set ls \<noteq> []"
  by (cases ls) (auto simp: plain_labels_def label_set_Cons)

lemma label_set_length: "length ls \<le> length (label_set ls)"
  by (induction ls) (auto simp: label_set_Cons)

lemma label_set_inj:
  assumes "plain_labels ls" and "plain_labels ls'" and "label_set ls = label_set ls'"
  shows "ls = ls'"
proof -
  let ?n = "max (length ls) (length ls')"
  have "read_labels ?n (label_set ls @ CHR ''}'' # []) = Some (ls, [])" "read_labels ?n (label_set ls' @ CHR ''}'' # []) = Some (ls', [])"
    using assms(1,2) by (simp_all only: read_labels_set max.cobounded1 max.cobounded2)
  then show ?thesis unfolding assms(3) by simp
qed

lemma newline_label_set: "plain_labels ls \<Longrightarrow> newline \<notin> set (label_set ls)"
proof (induction ls)
  case (Cons l ls)
  obtain a v where l: "l = (a, v)" by fastforce
  have "CHR ''='' \<noteq> newline" "CHR '','' \<noteq> newline" by (simp_all add: page_chars)
  with Cons l show ?case
    by (cases "ls = []") (auto simp: label_set_Cons newline_escaped plain_labels_def)
qed (simp add: plain_labels_def)

section \<open>Lines\<close>

lemma newline_number: "newline \<notin> set (FormatFloat v)"
proof -
  have "\<not> number_char newline"
    by (simp add: number_char_def page_chars)
  then show ?thesis
    using FormatFloat_chars [of v] by (auto simp: list_all_iff)
qed

text \<open>Names, kinds and help texts as the code has them.\<close>

definition plain_word :: "string \<Rightarrow> bool" where
  "plain_word w \<longleftrightarrow> w \<noteq> [] \<and> list_all (\<lambda>c. c \<notin> {newline, CHR '' '', CHR ''{'', CHR ''#''}) w"

definition plain_kind :: "string \<Rightarrow> bool" where
  "plain_kind k \<longleftrightarrow> k = ''gauge'' \<or> k = ''counter''"

lemma newline_kind: "plain_kind k \<Longrightarrow> newline \<notin> set k"
  by (auto simp: plain_kind_def page_chars)

definition plain_sample :: "sample \<Rightarrow> bool" where
  "plain_sample s = (case s of (name, kind, help, value, labels) \<Rightarrow> plain_word name \<and> plain_kind kind \<and> newline \<notin> set help \<and> plain_labels labels)"

definition line_of :: "string \<Rightarrow> labels \<times> float64 \<Rightarrow> string" where
  "line_of name lv = (case lv of (l, v) \<Rightarrow> name @ ''{'' @ label_set l @ ''} '' @ FormatFloat v)"

lemma sample_line_of: "plain_labels l \<Longrightarrow> sample_line name l v = line_of name (l, v) @ [newline]"
  by (simp add: sample_line_def line_of_def label_set_not_Nil)

lemma read_line_of:
  assumes "plain_word name" and "plain_labels l"
  shows "read_sample (line_of name (l, v)) = Some (name, l, FormatFloat v)"
proof -
  have name: "takeWhile (\<lambda>c. c \<noteq> CHR ''{'' \<and> c \<noteq> CHR '' '') (line_of name (l, v)) = name"
    unfolding line_of_def prod.case
    by (subst takeWhile_append2) (use assms(1) in \<open>auto simp: plain_word_def list_all_iff\<close>)
  have "read_labels (length (label_set l @ ''} '' @ FormatFloat v)) (label_set l @ CHR ''}'' # CHR '' '' # FormatFloat v) = Some (l, CHR '' '' # FormatFloat v)"
    using label_set_length [of l] by (intro read_labels_set assms(2)) simp
  then show ?thesis
    unfolding read_sample_def Let_def name by (simp add: line_of_def)
qed

lemma line_of_plain:
  assumes "plain_word name" and "plain_labels l"
  shows "newline \<notin> set (line_of name (l, v))" and "\<not> is_comment (line_of name (l, v))"
proof -
  show "newline \<notin> set (line_of name (l, v))"
  proof -
    have "newline \<notin> set name"
      using assms(1) by (auto simp: plain_word_def list_all_iff)
    moreover have "newline \<notin> set ''{''" "newline \<notin> set ''} ''"
      by (simp_all add: page_chars)
    ultimately show ?thesis
      using newline_number [of v] newline_label_set [OF assms(2)] unfolding line_of_def prod.case set_append by blast
  qed
  show "\<not> is_comment (line_of name (l, v))"
    using assms(1) by (cases name) (auto simp: line_of_def plain_word_def is_comment_def)
qed

lemma page_lines_append: "newline \<notin> set l \<Longrightarrow> page_lines (l @ newline # s) = l # page_lines s"
  by (induction l) auto

lemma page_lines_concat: "list_all (\<lambda>l. newline \<notin> set l) ls \<Longrightarrow> page_lines (concat (map (\<lambda>l. l @ [newline]) ls) @ s) = ls @ page_lines s"
  by (induction ls) (auto simp: page_lines_append)

lemma page_lines_all: "list_all (\<lambda>l. newline \<notin> set l) ls \<Longrightarrow> page_lines (concat (map (\<lambda>l. l @ [newline]) ls)) = ls"
  using page_lines_concat [of ls "[]"] by simp

section \<open>Families\<close>

text \<open>The families a list of samples makes: the names in the order they first came, the kind and the help of the first sample, and of each set of
  labels the first value.\<close>

record fam =
  fa_name :: string
  fa_kind :: string
  fa_help :: string
  fa_entries :: "(labels \<times> float64) list"

definition entries_of :: "sample list \<Rightarrow> string \<Rightarrow> (labels \<times> float64) list" where
  "entries_of ss n = distinct_on fst (map (\<lambda>(name, kind, help, value, labels). (labels, value)) (filter (\<lambda>s. fst s = n) ss))"

definition families_of :: "sample list \<Rightarrow> fam list" where
  "families_of ss = map (\<lambda>(n, kind, help, _). \<lparr>fa_name = n, fa_kind = kind, fa_help = help, fa_entries = entries_of ss n\<rparr>) (distinct_on fst ss)"

lemma distinct_on_snoc: "distinct_on key (xs @ [x]) = (if key x \<in> key ` set xs then distinct_on key xs else distinct_on key xs @ [x])"
  by (induction xs) auto

lemma set_distinct_on: "set (distinct_on key xs) \<subseteq> set xs"
  by (induction xs) auto

lemma keys_distinct_on: "key ` set (distinct_on key xs) = key ` set xs"
proof (induction xs)
  case (Cons x xs)
  have "insert (key x) (key ` {y \<in> A. key y \<noteq> key x}) = insert (key x) (key ` A)" for A
    by auto
  with Cons show ?case by simp
qed simp

lemma distinct_distinct_on: "distinct (map key (distinct_on key xs))"
proof (induction xs)
  case (Cons x xs)
  then have "distinct (map key (filter (\<lambda>y. key y \<noteq> key x) (distinct_on key xs)))"
    by (rule distinct_map_filter)
  then show ?case by auto
qed simp

lemma map_of_distinct_on: "map_of (distinct_on fst xs) = map_of xs"
proof (induction xs)
  case (Cons x xs)
  have "map_of (filter (\<lambda>y. fst y \<noteq> fst x) ys) k = (if k = fst x then None else map_of ys k)" for ys :: "('a \<times> 'b) list" and k
    by (induction ys) auto
  with Cons show ?case
    by (cases x) auto
qed simp

text \<open>The writer keeps just these families.\<close>

definition written :: "fam \<Rightarrow> metricFamily \<Rightarrow> bool" where
  "written f m \<longleftrightarrow> mf_name m = fa_name f \<and> mf_kind m = fa_kind f \<and> mf_help m = fa_help f \<and>
     mf_samples m = map (\<lambda>(l, v). sample_line (fa_name f) l v) (fa_entries f) \<and> set (mf_seen m) = label_set ` fst ` set (fa_entries f)"

lemma entries_of_snoc:
  "entries_of (ss @ [(n, k, h, v, l)]) m =
     (if m = n \<and> l \<notin> fst ` set (entries_of ss n) then entries_of ss n @ [(l, v)] else entries_of ss m)"
  by (auto simp: entries_of_def distinct_on_snoc keys_distinct_on)

lemma plain_entries:
  assumes "list_all plain_sample ss" and "(l, v) \<in> set (entries_of ss n)"
  shows "plain_labels l"
proof -
  have "(l, v) \<in> set (map (\<lambda>(name, kind, help, value, labels). (labels, value)) (filter (\<lambda>s. fst s = n) ss))"
    using assms(2) set_distinct_on unfolding entries_of_def by fast
  with assms(1) show ?thesis
    by (auto simp: list_all_iff plain_sample_def split: prod.splits)
qed

lemma entries_of_new: "n \<notin> fst ` set ss \<Longrightarrow> entries_of ss n = []"
  unfolding entries_of_def by (subst filter_False) auto

lemma written_add:
  assumes "list_all plain_sample ss" and "plain_labels l" and "written \<lparr>fa_name = m, fa_kind = k', fa_help = h', fa_entries = entries_of ss m\<rparr> f"
  shows "written \<lparr>fa_name = m, fa_kind = k', fa_help = h', fa_entries = entries_of (ss @ [(n, k, h, v, l)]) m\<rparr>
    (if mf_name f = n then add_to_family n v l f else f)"
proof (cases "m = n")
  case True
  have "label_set l \<in> label_set ` fst ` set (entries_of ss n) \<longleftrightarrow> l \<in> fst ` set (entries_of ss n)"
  proof
    assume "label_set l \<in> label_set ` fst ` set (entries_of ss n)"
    then obtain l' v' where "label_set l = label_set l'" "(l', v') \<in> set (entries_of ss n)" by auto
    with plain_entries [OF assms(1)] label_set_inj [OF assms(2)] show "l \<in> fst ` set (entries_of ss n)" by force
  qed blast
  with assms(3) True show ?thesis
    by (auto simp: written_def add_to_family_def entries_of_snoc)
qed (use assms(3) in \<open>auto simp: written_def entries_of_snoc\<close>)

lemma add_all_snoc: "add_all w (ss @ [(n, k, h, v, l)]) = add_sample (add_all w ss) n k h v l"
  by (simp add: add_all_def)

lemma add_all_families: "list_all plain_sample ss \<Longrightarrow> list_all2 written (families_of ss) (add_all newMetricsWriter ss)"
proof (induction ss rule: rev_induct)
  case Nil
  show ?case by (simp add: families_of_def add_all_def newMetricsWriter_def)
next
  case (snoc s ss)
  obtain n k h v l where s: "s = (n, k, h, v, l)" by (cases s) auto
  let ?w = "add_all newMetricsWriter ss"
  let ?F = "\<lambda>ss' (n, kind, help, _). \<lparr>fa_name = n, fa_kind = kind, fa_help = help, fa_entries = entries_of ss' n\<rparr>"
  let ?G = "\<lambda>f. if mf_name f = n then add_to_family n v l f else f"
  have plain: "list_all plain_sample ss" "plain_labels l"
    using snoc.prems by (simp_all add: s) (simp add: plain_sample_def)
  have IH: "list_all2 written (map (?F ss) (distinct_on fst ss)) ?w"
    using snoc.IH [OF plain(1)] by (simp add: families_of_def)
  have "map mf_name ?w = map fst (distinct_on fst ss)"
  proof (rule nth_equalityI)
    show "length (map mf_name ?w) = length (map fst (distinct_on fst ss))"
      using list_all2_lengthD [OF IH] by simp
    show "map mf_name ?w ! i = map fst (distinct_on fst ss) ! i" if "i < length (map mf_name ?w)" for i
      using list_all2_nthD2 [OF IH, of i] list_all2_lengthD [OF IH] that by (auto simp: written_def split: prod.splits)
  qed
  then have names: "mf_name ` set ?w = fst ` set ss"
    by (metis keys_distinct_on list.set_map)
  have step: "list_all2 written (map (?F (ss @ [s])) (distinct_on fst ss)) (map ?G ?w)"
    unfolding list_all2_map1 list_all2_map2
  proof (rule list.rel_mono_strong [OF IH [unfolded list_all2_map1]])
    fix x f assume "written (?F ss x) f"
    then show "written (?F (ss @ [s]) x) (?G f)"
      using written_add [OF plain] by (cases x) (simp add: s)
  qed
  show ?case
  proof (cases "n \<in> fst ` set ss")
    case True
    with step show ?thesis
      by (simp add: s add_all_snoc add_sample_def names families_of_def distinct_on_snoc)
  next
    case False
    then have "add_all newMetricsWriter (ss @ [s]) = map ?G ?w @ [add_to_family n v l \<lparr>mf_name = n, mf_kind = k, mf_help = h, mf_samples = [], mf_seen = []\<rparr>]"
      by (simp add: s add_all_snoc add_sample_def names Let_def)
    moreover have "families_of (ss @ [s]) = map (?F (ss @ [s])) (distinct_on fst ss) @ [\<lparr>fa_name = n, fa_kind = k, fa_help = h, fa_entries = [(l, v)]\<rparr>]"
      using False by (simp add: s families_of_def distinct_on_snoc entries_of_snoc entries_of_new)
    moreover have "list_all2 written [\<lparr>fa_name = n, fa_kind = k, fa_help = h, fa_entries = [(l, v)]\<rparr>]
        [add_to_family n v l \<lparr>mf_name = n, mf_kind = k, mf_help = h, mf_samples = [], mf_seen = []\<rparr>]"
      by (simp add: written_def add_to_family_def)
    ultimately show ?thesis
      using list_all2_appendI [OF step] by simp
  qed
qed

section \<open>The page\<close>

definition plain_fam :: "fam \<Rightarrow> bool" where
  "plain_fam f \<longleftrightarrow> plain_word (fa_name f) \<and> plain_kind (fa_kind f) \<and> newline \<notin> set (fa_help f) \<and> list_all (\<lambda>(l, v). plain_labels l) (fa_entries f)"

definition fam_lines :: "fam \<Rightarrow> string list" where
  "fam_lines f = (''# HELP '' @ fa_name f @ '' '' @ fa_help f) # (''# TYPE '' @ fa_name f @ '' '' @ fa_kind f) # map (line_of (fa_name f)) (fa_entries f)"

definition fam_read :: "fam \<Rightarrow> family" where
  "fam_read f = (fa_name f, fa_kind f, map (\<lambda>(l, v). (l, FormatFloat v)) (fa_entries f))"

lemma families_plain:
  assumes "list_all plain_sample ss"
  shows "list_all plain_fam (families_of ss)"
proof -
  have "plain_fam \<lparr>fa_name = n, fa_kind = k, fa_help = h, fa_entries = entries_of ss n\<rparr>" if "(n, k, h, x) \<in> set ss" for n k h x
    using that assms plain_entries [OF assms] by (cases x) (fastforce simp: plain_fam_def plain_sample_def list_all_iff)
  then show ?thesis
    using set_distinct_on [of fst ss] by (auto simp: families_of_def list_all_iff)
qed

lemma family_text_lines:
  assumes "written f m" and "plain_fam f"
  shows "family_text m = concat (map (\<lambda>l. l @ [newline]) (fam_lines f))"
proof -
  have "concat (map (\<lambda>(l, v). sample_line n l v) es) = concat (map (\<lambda>l. l @ [newline]) (map (line_of n) es))"
    if "list_all (\<lambda>(l, v). plain_labels l) es" for n es
    using that by (induction es) (auto simp: sample_line_of)
  with assms show ?thesis
    by (simp add: written_def plain_fam_def family_text_def fam_lines_def)
qed

lemma fam_lines_plain:
  assumes "plain_fam f"
  shows "list_all (\<lambda>l. newline \<notin> set l) (fam_lines f)"
proof -
  have head: "newline \<notin> set ''# HELP ''" "newline \<notin> set ''# TYPE ''" "newline \<notin> set '' ''"
    by (simp_all add: page_chars)
  have "newline \<notin> set (fa_name f)" "newline \<notin> set (fa_kind f)" "newline \<notin> set (fa_help f)"
    using assms newline_kind by (auto simp: plain_fam_def plain_word_def list_all_iff)
  with head have "newline \<notin> set (''# HELP '' @ fa_name f @ '' '' @ fa_help f)" "newline \<notin> set (''# TYPE '' @ fa_name f @ '' '' @ fa_kind f)"
    unfolding set_append by blast+
  then show ?thesis
    unfolding fam_lines_def list.pred_inject
    using assms line_of_plain(1) by (auto simp: plain_fam_def list_all_iff)
qed

lemma word_and_rest_plain: "plain_word w \<Longrightarrow> word_and_rest (w @ CHR '' '' # s) = (w, s)"
  by (simp add: word_and_rest_def takeWhile_until plain_word_def list_all_iff)

lemma all_some_map: "(\<And>x. x \<in> set xs \<Longrightarrow> f x = Some (g x)) \<Longrightarrow> all_some (map f xs) = Some (map g xs)"
  by (induction xs) auto

lemma split_comments:
  assumes "list_all (\<lambda>l. \<not> is_comment l) xs" and "ys = [] \<or> is_comment (hd ys)"
  shows "takeWhile (\<lambda>l. \<not> is_comment l) (xs @ ys) = xs" and "dropWhile (\<lambda>l. \<not> is_comment l) (xs @ ys) = ys"
  using assms by (induction xs) (cases ys; auto)+

lemma read_families_step:
  assumes "after_prefix ''# HELP '' help = Some h" and "after_prefix ''# TYPE '' type = Some t"
    and "word_and_rest h = (name, text)" and "word_and_rest t = (name, kind)"
    and "all_some (map read_sample (takeWhile (\<lambda>l. \<not> is_comment l) lines)) = Some xs" and "list_all (\<lambda>(n, l, v). n = name) xs"
  shows "read_families (help # type # lines) = map_option ((#) (name, kind, map snd xs)) (read_families (dropWhile (\<lambda>l. \<not> is_comment l) lines))"
  using assms by simp

lemma read_families_fam:
  assumes "plain_fam f" and "rest = [] \<or> is_comment (hd rest)"
  shows "read_families (fam_lines f @ rest) = map_option ((#) (fam_read f)) (read_families rest)"
proof -
  let ?n = "fa_name f" and ?es = "fa_entries f"
  let ?ls = "map (line_of ?n) ?es"
  have entries: "map snd (map (\<lambda>(l, v). (?n, l, FormatFloat v)) ?es) = map (\<lambda>(l, v). (l, FormatFloat v)) ?es"
    by auto
  have es: "list_all (\<lambda>l. \<not> is_comment l) ?ls"
    using assms(1) line_of_plain(2) by (auto simp: plain_fam_def list_all_iff)
  have "all_some (map read_sample ?ls) = Some (map (\<lambda>(l, v). (?n, l, FormatFloat v)) ?es)"
    unfolding map_map by (rule all_some_map) (use assms(1) read_line_of in \<open>auto simp: plain_fam_def list_all_iff\<close>)
  moreover have "list_all (\<lambda>(n, l, v). n = ?n) (map (\<lambda>(l, v). (?n, l, FormatFloat v)) ?es)"
    by (auto simp: list_all_iff)
  moreover have "word_and_rest (?n @ CHR '' '' # s) = (?n, s)" for s
    using assms(1) by (simp add: word_and_rest_plain plain_fam_def)
  moreover have "after_prefix ''# HELP '' (''# HELP '' @ s) = Some s" "after_prefix ''# TYPE '' (''# TYPE '' @ s) = Some s" for s
    by (simp_all add: after_prefix_def)
  ultimately show ?thesis
    unfolding fam_lines_def fam_read_def append_Cons entries [symmetric]
    using split_comments [OF es assms(2)] by (subst read_families_step) (simp_all only: append_Nil append_Cons)
qed

lemma fam_lines_comment: "fams = [] \<or> is_comment (hd (concat (map fam_lines fams)))"
  by (cases fams) (auto simp: fam_lines_def is_comment_def)

lemma read_families_fams: "list_all plain_fam fams \<Longrightarrow> read_families (concat (map fam_lines fams)) = Some (map fam_read fams)"
proof (induction fams)
  case (Cons f fams)
  have "concat (map fam_lines fams) = [] \<or> is_comment (hd (concat (map fam_lines fams)))"
    using fam_lines_comment [of fams] by auto
  with Cons show ?case
    by (simp add: read_families_fam)
qed simp

lemma read_written:
  assumes "list_all plain_sample ss"
  shows "read_page (writeTo (add_all newMetricsWriter ss)) = Some (map fam_read (families_of ss))"
proof -
  let ?fams = "families_of ss"
  have "concat (map family_text ms) = concat (map (\<lambda>l. l @ [newline]) (concat (map fam_lines fams)))"
    if "list_all2 written fams ms" "list_all plain_fam fams" for fams ms
    using that by (induction rule: list_all2_induct) (auto simp: family_text_lines)
  then have "writeTo (add_all newMetricsWriter ss) = concat (map (\<lambda>l. l @ [newline]) (concat (map fam_lines ?fams)))"
    unfolding writeTo_def using add_all_families [OF assms] families_plain [OF assms] by blast
  moreover have "list_all (\<lambda>l. newline \<notin> set l) (concat (map fam_lines ?fams))"
    using families_plain [OF assms] fam_lines_plain by (fastforce simp: list_all_iff)
  ultimately show ?thesis
    unfolding read_page_def by (simp only: page_lines_all read_families_fams families_plain [OF assms])
qed

section \<open>The samples of the page\<close>

definition fixed_name :: "string \<Rightarrow> bool" where
  "fixed_name s \<longleftrightarrow> list_all (\<lambda>c. c \<notin> {newline, CHR '' '', CHR ''{'', CHR ''#'', CHR ''=''}) s"

lemma plain_made:
  assumes "name \<noteq> []" and "fixed_name name" and "newline \<notin> set help" and "ls \<noteq> []" and "list_all (\<lambda>(n, v). fixed_name n) ls"
  shows "plain_sample (gauge name help value ls)" and "plain_sample (counter name help value ls)"
proof -
  have "plain_word name"
    using assms(1,2) by (auto simp: plain_word_def fixed_name_def list_all_iff)
  moreover have "plain_labels ls"
    using assms(4,5) by (auto simp: plain_labels_def fixed_name_def list_all_iff)
  ultimately show "plain_sample (gauge name help value ls)" "plain_sample (counter name help value ls)"
    using assms(3) by (simp_all add: plain_sample_def gauge_def counter_def plain_kind_def)
qed

lemmas fixed_simps = fixed_name_def page_chars

lemma plain_parts:
  "list_all plain_sample (disk_samples host k)" "list_all plain_sample (disk_io_samples host x)" "list_all plain_sample (network_samples host n)"
  "list_all plain_sample (tcp_samples host t)" "list_all plain_sample (pressure_samples host p)" "plain_sample (temperature_sample host te)"
  "plain_sample (service_sample host s)" "list_all plain_sample (container_samples host c)"
  by (simp_all add: disk_samples_def disk_io_samples_def network_samples_def tcp_samples_def pressure_samples_def temperature_sample_def
      service_sample_def container_samples_def Let_def plain_made fixed_simps split: option.split)

lemma plain_addHostMetrics: "list_all plain_sample (addHostMetrics host d)"
  unfolding addHostMetrics_def Let_def list_all_append
  by (simp add: plain_made fixed_simps plain_parts list_all_iff [of _ "concat _"] list_all_iff [of _ "map _ _"]
      plain_parts [unfolded list_all_iff] split: option.split)

lemma plain_page_samples: "list_all plain_sample (page_samples response)"
proof -
  have "list_all plain_sample (host_page_samples h)" for h
    by (simp add: host_page_samples_def plain_made fixed_simps plain_addHostMetrics split: option.split)
  moreover have "list_all plain_sample (custom_page_samples up c)" for up c
    by (simp add: custom_page_samples_def plain_made fixed_simps)
  ultimately show ?thesis
    by (auto simp: page_samples_def Let_def list_all_iff split: prod.split)
qed

lemmas read_metrics_page = read_written [OF plain_page_samples, folded metrics_page_def]

section \<open>What a scraper sees\<close>

text \<open>The value of a series on a page, and the first value written for it.\<close>

definition page_value :: "family list \<Rightarrow> string \<Rightarrow> labels \<Rightarrow> string option" where
  "page_value fams n l = Option.bind (map_of (map (\<lambda>(name, kind, es). (name, es)) fams) n) (\<lambda>es. map_of es l)"

definition first_value :: "sample list \<Rightarrow> string \<Rightarrow> labels \<Rightarrow> float64 option" where
  "first_value ss n l = map_of (map (\<lambda>(name, kind, help, value, labels). ((name, labels), value)) ss) (n, l)"

lemma first_value_simps [simp]:
  "first_value [] n l = None"
  "first_value ((n', k, h, v, l') # ss) n l = (if n = n' \<and> l = l' then Some v else first_value ss n l)"
  by (auto simp: first_value_def)

lemma first_value_append: "first_value (xs @ ys) n l = (case first_value xs n l of None \<Rightarrow> first_value ys n l | Some v \<Rightarrow> Some v)"
  by (simp add: first_value_def map_add_def split: option.split)

lemma map_of_entries: "map_of (entries_of ss n) l = first_value ss n l"
  unfolding entries_of_def map_of_distinct_on by (induction ss) (auto split: prod.splits)

lemma map_of_keyed: "map_of (map (\<lambda>x. (fst x, g (fst x))) xs) n = (if n \<in> fst ` set xs then Some (g n) else None)"
  by (induction xs) auto

lemma first_value_name: "n \<notin> fst ` set ss \<Longrightarrow> first_value ss n l = None"
  by (induction ss) auto

lemma page_value_read: "page_value (map fam_read (families_of ss)) n l = map_option FormatFloat (first_value ss n l)"
proof -
  have fams: "map (\<lambda>(name, kind, es). (name, es)) (map fam_read (families_of ss)) =
      map (\<lambda>x. (fst x, map (\<lambda>(l, v). (l, FormatFloat v)) (entries_of ss (fst x)))) (distinct_on fst ss)"
    by (auto simp: families_of_def fam_read_def)
  have "page_value (map fam_read (families_of ss)) n l =
      (if n \<in> fst ` set ss then map_of (map (\<lambda>(l, v). (l, FormatFloat v)) (entries_of ss n)) l else None)"
    unfolding page_value_def fams map_of_keyed [of "\<lambda>m. map (\<lambda>(l, v). (l, FormatFloat v)) (entries_of ss m)"] keys_distinct_on by simp
  also have "\<dots> = map_option FormatFloat (first_value ss n l)"
    by (auto simp: map_of_map map_of_entries first_value_name)
  finally show ?thesis .
qed

text \<open>Which host a sample is of.\<close>

definition about_host :: "string \<Rightarrow> sample \<Rightarrow> bool" where
  "about_host host s = (case s of (n, k, h, v, l) \<Rightarrow> l \<noteq> [] \<and> hd l = (''host'', host))"

lemma about_made [simp]:
  "about_host host (gauge n h v ((''host'', host) # l))" "about_host host (counter n h v ((''host'', host) # l))"
  by (simp_all add: about_host_def gauge_def counter_def)

lemma about_parts:
  "list_all (about_host host) (disk_samples host k)" "list_all (about_host host) (disk_io_samples host x)" "list_all (about_host host) (network_samples host n)"
  "list_all (about_host host) (tcp_samples host t)" "list_all (about_host host) (pressure_samples host p)" "about_host host (temperature_sample host te)"
  "about_host host (service_sample host s)" "list_all (about_host host) (container_samples host c)"
  by (simp_all add: disk_samples_def disk_io_samples_def network_samples_def tcp_samples_def pressure_samples_def temperature_sample_def
      service_sample_def container_samples_def Let_def split: option.split)

lemma about_addHostMetrics: "list_all (about_host host) (addHostMetrics host d)"
  unfolding addHostMetrics_def Let_def list_all_append
  by (simp add: about_parts list_all_iff [of _ "concat _"] list_all_iff [of _ "map _ _"] about_parts [unfolded list_all_iff] split: option.split)

definition up_names :: "string list" where
  "up_names = [''symon_up'', ''symon_last_seen_timestamp_seconds'']"

definition of_some_host :: "HostSnapshot list \<Rightarrow> string \<Rightarrow> labels \<Rightarrow> bool" where
  "of_some_host hosts n l \<longleftrightarrow> list_ex (\<lambda>h. l \<noteq> [] \<and> hd l = (''host'', hp_Host h) \<and> (hp_Up h \<or> n \<in> set up_names)) hosts"

lemma up_map: "foldl (\<lambda>m h. m(hp_Host h \<mapsto> hp_Up h)) m hosts n = Some True \<Longrightarrow> m n = Some True \<or> (\<exists>h \<in> set hosts. hp_Host h = n \<and> hp_Up h)"
proof (induction hosts arbitrary: m)
  case (Cons h hosts)
  from Cons.IH [of "m(hp_Host h \<mapsto> hp_Up h)"] Cons.prems show ?case
    by (auto split: if_splits)
qed simp

lemma page_of_hosts:
  assumes "(n, k, h, v, l) \<in> set (page_samples (hosts, customs))"
  shows "of_some_host hosts n l"
proof -
  let ?up = "foldl (\<lambda>m h. m(hp_Host h \<mapsto> hp_Up h)) Map.empty hosts"
  consider x where "x \<in> set hosts" "(n, k, h, v, l) \<in> set (host_page_samples x)"
    | c where "(n, k, h, v, l) \<in> set (custom_page_samples ?up c)"
    using assms by (auto simp: page_samples_def Let_def)
  then show ?thesis
  proof cases
    case 1
    have "about_host (hp_Host x) (n, k, h, v, l)" if "(n, k, h, v, l) \<in> set (addHostMetrics (hp_Host x) d)" for d
      using that about_addHostMetrics [of "hp_Host x" d] by (simp add: list_all_iff)
    with 1 show ?thesis
      by (auto simp: of_some_host_def up_names_def list_ex_iff host_page_samples_def about_host_def gauge_def split: if_splits option.splits)
  next
    case 2
    then have "?up (ac_Host c) = Some True" and l: "l \<noteq> []" "hd l = (''host'', ac_Host c)"
      by (auto simp: custom_page_samples_def gauge_def split: if_splits)
    from up_map [OF this(1)] obtain x where "x \<in> set hosts" "hp_Host x = ac_Host c" "hp_Up x" by auto
    with l show ?thesis
      unfolding of_some_host_def list_ex_iff by (intro bexI [of _ x]) simp_all
  qed
qed

definition page_sound :: "HostSnapshot list \<Rightarrow> family list \<Rightarrow> bool" where
  "page_sound hosts fams \<longleftrightarrow> distinct (map fst fams) \<and>
     list_all (\<lambda>(n, kind, es). plain_kind kind \<and> distinct (map fst es) \<and> list_all (\<lambda>(l, v). of_some_host hosts n l) es) fams"

lemma entries_from: "(l, v) \<in> set (entries_of ss n) \<Longrightarrow> \<exists>k h. (n, k, h, v, l) \<in> set ss"
  using set_distinct_on unfolding entries_of_def by fastforce

lemma families_sound: "page_sound hosts (map fam_read (families_of (page_samples (hosts, customs))))"
proof -
  let ?ss = "page_samples (hosts, customs)"
  have "map fst (map fam_read (families_of ?ss)) = map fst (distinct_on fst ?ss)"
    by (auto simp: families_of_def fam_read_def)
  then have names: "distinct (map fst (map fam_read (families_of ?ss)))"
    by (simp only: distinct_distinct_on)
  have each: "(\<lambda>(n, kind, es). plain_kind kind \<and> distinct (map fst es) \<and> list_all (\<lambda>(l, v). of_some_host hosts n l) es) (fam_read f)"
    if f: "f \<in> set (families_of ?ss)" for f
  proof -
    have es: "fa_entries f = entries_of ?ss (fa_name f)"
      using f by (auto simp: families_of_def)
    have "plain_kind (fa_kind f)"
      using f families_plain [OF plain_page_samples] by (simp add: list_all_iff plain_fam_def)
    moreover have "distinct (map fst (fa_entries f))"
      unfolding es entries_of_def by (rule distinct_distinct_on)
    moreover have "of_some_host hosts (fa_name f) l" if "(l, v) \<in> set (fa_entries f)" for l v
      using entries_from that page_of_hosts unfolding es by blast
    ultimately show ?thesis
      by (auto simp: fam_read_def list_all_iff case_prod_beta' comp_def)
  qed
  show ?thesis
    unfolding page_sound_def
  proof (rule conjI [OF names])
    show "list_all (\<lambda>(n, kind, es). plain_kind kind \<and> distinct (map fst es) \<and> list_all (\<lambda>(l, v). of_some_host hosts n l) es) (map fam_read (families_of ?ss))"
      unfolding list.pred_map comp_def list_all_iff [of _ "families_of _"] by (rule ballI) (rule each)
  qed
qed

text \<open>C9. Whatever the collector answers and whatever its texts contain, the page of metrics.go is one a scraper can read: every line is of a family with its
  HELP and TYPE, no family and no series is there twice, every series is of a host of the answer, a host that is down has only the two series that say
  so, and the value of a series is the first one that was written for it.\<close>

theorem metrics_page_reads:
  "\<exists>fams. read_page (metrics_page (hosts, customs)) = Some fams \<and> page_sound hosts fams \<and>
     (\<forall>n l. page_value fams n l = map_option FormatFloat (first_value (page_samples (hosts, customs)) n l))"
  unfolding read_metrics_page by (intro exI [of _ "map fam_read (families_of (page_samples (hosts, customs)))"] conjI allI refl families_sound page_value_read)

end
