(* ===== verification/AgentRates.thy ===== *)
theory AgentRates
  imports AgentCollect GoFloat
begin

text \<open>
  Rates and names in the snapshots of an agent, over all its rounds since it started: where every rate comes from, and what never leaves the host.
\<close>

section \<open>What the collector remembers\<close>

definition usages :: "('d, 'c) samples \<Rightarrow> string \<rightharpoonup> NetworkUsage" where
  "usages i = foldl (\<lambda>m n. m(xnw_Interface n \<mapsto> xnw_Usage n)) Map.empty (fst (in_Networks i))"

lemma map_of_samples: "foldl (\<lambda>m x. m(f x \<mapsto> g x)) m0 xs k = Some v \<Longrightarrow> m0 k = Some v \<or> (\<exists>x \<in> set xs. f x = k \<and> g x = v)"
  by (induction xs arbitrary: m0) (fastforce split: if_splits)+

lemma usages_sampled: "usages i x = Some u \<Longrightarrow> \<exists>n \<in> set (fst (in_Networks i)). xnw_Interface n = x \<and> xnw_Usage n = u"
  unfolding usages_def by (drule map_of_samples) auto

lemma fromSystatsNetwork_fields [simp]:
  "nw_Interface (fromSystatsNetwork n) = xnw_Interface n" "nw_Usage (fromSystatsNetwork n) = xnw_Usage n" "nw_Rates (fromSystatsNetwork n) = None"
  by (simp_all add: fromSystatsNetwork_def)

lemma networks_of_state:
  "snd (networks_of (in_Networks i) t c) = c\<lparr>cl_prevNetworks := usages i, cl_prevNetTime := t\<rparr>"
proof -
  have "foldl (\<lambda>m n. m(nw_Interface n \<mapsto> nw_Usage n)) m0 (map (\<lambda>n. let network = fromSystatsNetwork n in
      case cl_prevNetworks c (nw_Interface network) of None \<Rightarrow> network
      | Some prev \<Rightarrow> network\<lparr>nw_Rates := networkRates prev (nw_Usage network) since\<rparr>) ns) =
      foldl (\<lambda>m n. m(xnw_Interface n \<mapsto> xnw_Usage n)) m0 ns" for m0 ns since
    by (induction ns arbitrary: m0) (auto simp: Let_def split: option.splits)
  then show ?thesis
    by (simp add: networks_of_def usages_def Let_def)
qed

lemma podContainers_state [simp]:
  "cl_prevContainers (snd (podContainers ins xs c)) = cl_prevContainers c"
  "cl_prevContainersTime (snd (podContainers ins xs c)) = cl_prevContainersTime c"
  "cl_config (snd (podContainers ins xs c)) = cl_config c" "cl_enabled (snd (podContainers ins xs c)) = cl_enabled c"
  "cl_prevNetworks (snd (podContainers ins xs c)) = cl_prevNetworks c" "cl_prevNetTime (snd (podContainers ins xs c)) = cl_prevNetTime c"
  by (auto simp: podContainers_def Let_def split: sum.splits)

lemma diskIO_of_state [simp]:
  "cl_config (snd (diskIO_of rs r t c)) = cl_config c" "cl_enabled (snd (diskIO_of rs r t c)) = cl_enabled c"
  "cl_prevNetworks (snd (diskIO_of rs r t c)) = cl_prevNetworks c" "cl_prevNetTime (snd (diskIO_of rs r t c)) = cl_prevNetTime c"
  "cl_prevContainers (snd (diskIO_of rs r t c)) = cl_prevContainers c" "cl_prevContainersTime (snd (diskIO_of rs r t c)) = cl_prevContainersTime c"
  by (auto simp: diskIO_of_def Let_def split: sum.splits)

lemma podContainers_same:
  assumes "podContainers ins xs c = (pods, c')"
  shows "cl_prevContainers c' = cl_prevContainers c" "cl_prevContainersTime c' = cl_prevContainersTime c" "cl_config c' = cl_config c"
    "cl_enabled c' = cl_enabled c" "cl_prevNetworks c' = cl_prevNetworks c" "cl_prevNetTime c' = cl_prevNetTime c"
  using assms podContainers_state [of ins xs c] by simp_all

text \<open>One call of \<open>containers\<close>: what it answers and what it remembers.\<close>

lemma containers_of_cases:
  assumes "containers_of rs i c = (ks, c')"
  obtains (failed) e where "in_Containers i = Inl e" "ks = []" "c' = c\<lparr>cl_containersFailed := True\<rparr>"
    | (read) xs pods c1 named where "in_Containers i = Inr xs" "podContainers i xs (c\<lparr>cl_containersFailed := False\<rparr>) = (pods, c1)"
      "named = List.map_filter (\<lambda>x. map_option (\<lambda>k. (x, k)) (namePodContainer (fromSystatsContainer x) pods)) xs"
      "ks = map (\<lambda>(x, k). case cl_prevContainers c (xco_ID x) of
           Some prev \<Rightarrow> if f_lt (Fin 0) (elapsed (in_container_time i) (cl_prevContainersTime c))
             then k\<lparr>co_Rates := Some (fromSystatsContainerRates (rs_container rs x prev (elapsed (in_container_time i) (cl_prevContainersTime c))) (co_Network k))\<rparr> else k
         | None \<Rightarrow> k) named"
      "c' = c1\<lparr>cl_prevContainers := foldl (\<lambda>m (x, k). m(xco_ID x \<mapsto> x)) Map.empty named, cl_prevContainersTime := in_container_time i\<rparr>"
proof (cases "in_Containers i")
  case (Inl e)
  with assms show thesis
    by (intro failed) (auto simp: containers_of_def)
next
  case (Inr xs)
  obtain pods c1 where p: "podContainers i xs (c\<lparr>cl_containersFailed := False\<rparr>) = (pods, c1)"
    by fastforce
  note same = podContainers_same [OF p, simplified]
  show thesis
    by (rule read [OF Inr p refl]) (use assms same in \<open>auto simp: containers_of_def Inr p Let_def split: option.split\<close>)
qed

lemma containers_of_same:
  assumes "containers_of rs i c = (ks, c')"
  shows "cl_config c' = cl_config c" "cl_enabled c' = cl_enabled c" "cl_prevNetworks c' = cl_prevNetworks c" "cl_prevNetTime c' = cl_prevNetTime c"
  using assms by (cases rule: containers_of_cases; auto dest: podContainers_same)+

lemma named_sampled:
  "(x, k) \<in> set (List.map_filter (\<lambda>x. map_option (\<lambda>k. (x, k)) (namePodContainer (fromSystatsContainer x) pods)) xs) \<Longrightarrow>
    x \<in> set xs \<and> namePodContainer (fromSystatsContainer x) pods = Some k"
  by (induction xs) (auto simp: map_filter_simps split: option.splits)

lemma namePodContainer_same:
  assumes "namePodContainer ct pods = Some k"
  shows "co_ID k = co_ID ct" "co_Network k = co_Network ct" "co_Rates k = co_Rates ct" "pods = Some m \<Longrightarrow> m (co_ID ct) = Some p \<Longrightarrow> \<not> pc_sandbox p"
  using assms by (auto simp: namePodContainer_def pod_apply_def split: option.splits if_splits)

lemma fromSystatsContainer_fields [simp]: "co_ID (fromSystatsContainer x) = xco_ID x" "co_Rates (fromSystatsContainer x) = None"
  by (simp_all add: fromSystatsContainer_def)

text \<open>After the rounds \<open>past\<close>: the counters of the last round's networks, and of each container its last sample.\<close>

definition remembers :: "('d, 'c) samples list \<Rightarrow> ('d, 'c) Collector \<Rightarrow> bool" where
  "remembers past c \<longleftrightarrow>
     cl_prevNetworks c = (if past = [] then Map.empty else usages (last past)) \<and>
     (past \<noteq> [] \<longrightarrow> cl_prevNetTime c = in_net_time (last past)) \<and>
     (\<forall>x p. cl_prevContainers c x = Some p \<longrightarrow>
        (\<exists>i \<in> set past. \<exists>xs. in_Containers i = Inr xs \<and> p \<in> set xs \<and> xco_ID p = x \<and> cl_prevContainersTime c = in_container_time i))"

lemma remembers_start: "remembers [] (NewCollector config)"
  by (simp add: remembers_def NewCollector_def)

lemma Collect_parts:
  assumes "Collect big rs version i c = (d, c')"
  obtains c1 c2 where
    "md_Networks d = fst (networks_of (in_Networks i) (in_net_time i) c)" "c1 = c\<lparr>cl_prevNetworks := usages i, cl_prevNetTime := in_net_time i\<rparr>"
    "c2 = (if is_enabled c CollectorDiskIO then snd (diskIO_of rs (in_DiskIO i) (in_disk_time i) c1) else c1)"
    "(md_Containers d, c') = (if is_enabled c CollectorContainers then containers_of rs i c2 else ([], c2))"
    "md_Disk d = disks_of big (cl_config c) (in_Disks i)" "md_ServerId d = ag_ServerId (cl_config c)" "cl_config c' = cl_config c" "cl_enabled c' = cl_enabled c"
proof -
  define c1 where "c1 = c\<lparr>cl_prevNetworks := usages i, cl_prevNetTime := in_net_time i\<rparr>"
  define c2 where "c2 = (if is_enabled c CollectorDiskIO then snd (diskIO_of rs (in_DiskIO i) (in_disk_time i) c1) else c1)"
  obtain networks where n: "networks_of (in_Networks i) (in_net_time i) c = (networks, c1)"
    using networks_of_state [of i "in_net_time i" c] by (metis c1_def prod.collapse)
  obtain io where io: "(if is_enabled c1 CollectorDiskIO then diskIO_of rs (in_DiskIO i) (in_disk_time i) c1 else ([], c1)) = (io, c2)"
    by (cases "is_enabled c CollectorDiskIO"; cases "diskIO_of rs (in_DiskIO i) (in_disk_time i) c1") (auto simp: c2_def c1_def is_enabled_def)
  have en: "is_enabled c2 n = is_enabled c n" "cl_config c2 = cl_config c" "cl_enabled c2 = cl_enabled c" for n
    by (auto simp: c2_def c1_def is_enabled_def)
  obtain ks c3 where ks: "(if is_enabled c2 CollectorContainers then containers_of rs i c2 else ([], c2)) = (ks, c3)"
    by fastforce
  have c3: "cl_config c3 = cl_config c2" "cl_enabled c3 = cl_enabled c2"
    using ks by (auto split: if_splits dest: containers_of_same)
  have "md_Networks d = networks \<and> md_Containers d = ks \<and> c' = c3 \<and> md_Disk d = disks_of big (cl_config c3) (in_Disks i) \<and>
      md_ServerId d = ag_ServerId (cl_config c3)"
    using assms unfolding Collect_def Let_def n io prod.case ks by auto
  then show thesis
    using n ks en c3 by (intro that [of c1 c2]) (simp_all add: c1_def c2_def)
qed

lemma remembers_Collect:
  assumes "remembers past c" and "Collect big rs version i c = (d, c')"
  shows "remembers (past @ [i]) c'"
proof -
  obtain c1 c2 where c1: "c1 = c\<lparr>cl_prevNetworks := usages i, cl_prevNetTime := in_net_time i\<rparr>"
    and c2: "c2 = (if is_enabled c CollectorDiskIO then snd (diskIO_of rs (in_DiskIO i) (in_disk_time i) c1) else c1)"
    and ks: "(md_Containers d, c') = (if is_enabled c CollectorContainers then containers_of rs i c2 else ([], c2))"
    by (rule Collect_parts [OF assms(2)])
  have nets: "cl_prevNetworks c2 = usages i" "cl_prevNetTime c2 = in_net_time i" "cl_prevContainers c2 = cl_prevContainers c"
      "cl_prevContainersTime c2 = cl_prevContainersTime c"
    by (auto simp: c1 c2)
  have old: "\<exists>j \<in> set (past @ [i]). \<exists>xs. in_Containers j = Inr xs \<and> p \<in> set xs \<and> xco_ID p = x \<and> cl_prevContainersTime c = in_container_time j"
    if "cl_prevContainers c x = Some p" for x p
    using assms(1) that by (auto simp: remembers_def)
  show ?thesis
  proof (cases "is_enabled c CollectorContainers")
    case False
    with ks nets old show ?thesis
      by (auto simp: remembers_def)
  next
    case True
    then have read: "containers_of rs i c2 = (md_Containers d, c')"
      using ks by simp
    have keep: "cl_prevNetworks c' = usages i" "cl_prevNetTime c' = in_net_time i"
      using containers_of_same [OF read] nets by auto
    from read show ?thesis
    proof (cases rule: containers_of_cases)
      case (failed e)
      with nets old show ?thesis
        by (auto simp: remembers_def)
    next
      case (read xs pods c3 named)
      have "\<exists>k. (p, k) \<in> set named \<and> xco_ID p = x" if "foldl (\<lambda>m (x, k). m(xco_ID x \<mapsto> x)) Map.empty named x = Some p" for x p
        using that map_of_samples [of "\<lambda>(x, k). xco_ID x" "\<lambda>(x, k). x" Map.empty named x p] by (auto simp: case_prod_unfold)
      with read keep show ?thesis
        by (force simp: remembers_def dest: named_sampled)
    qed
  qed
qed

lemma collect_all_nth:
  assumes "collect_all big rs version is c = (ds, c')" and "remembers past c" and "k < length is"
  obtains ck where "ds ! k = fst (Collect big rs version (is ! k) ck)" "remembers (past @ take k is) ck" "cl_config ck = cl_config c" "cl_enabled ck = cl_enabled c"
  using assms
proof (induction "is" arbitrary: c ds past k thesis)
  case (Cons i "is")
  obtain d c1 ds1 where one: "Collect big rs version i c = (d, c1)" and rest: "collect_all big rs version is c1 = (ds1, c')" and ds: "ds = d # ds1"
    using Cons.prems(2) by (auto split: prod.splits)
  have keep: "remembers (past @ [i]) c1" "cl_config c1 = cl_config c" "cl_enabled c1 = cl_enabled c"
    using remembers_Collect [OF Cons.prems(3) one] one by (auto elim: Collect_parts)
  show ?case
  proof (cases k)
    case 0
    with Cons.prems ds one show ?thesis
      by (intro Cons.prems(1) [of c]) auto
  next
    case (Suc n)
    with Cons.prems(4) have "n < length is" by simp
    show ?thesis
      by (rule Cons.IH [OF _ rest keep(1) \<open>n < length is\<close>]) (use Suc ds keep in \<open>auto intro!: Cons.prems(1)\<close>)
  qed
qed simp

section \<open>Signs\<close>

lemma round_half_even_nonpos: "x \<le> 0 \<Longrightarrow> round_half_even x \<le> 0"
proof -
  assume x: "x \<le> 0"
  show ?thesis
  proof (cases "\<lfloor>x\<rfloor> = 0")
    case True
    with x of_int_floor_le [of x] have "x = 0" by linarith
    then show ?thesis by (simp add: round_half_even_def)
  next
    case False
    moreover have "\<lfloor>x\<rfloor> \<le> \<lfloor>0 :: rat\<rfloor>" using x by (rule floor_mono)
    ultimately have "\<lfloor>x\<rfloor> + 1 \<le> 0" unfolding floor_zero by linarith
    then show ?thesis by (auto simp: round_half_even_def Let_def)
  qed
qed

lemma rnd_nonpos:
  assumes "x \<le> 0"
  shows "rnd x = NInf \<or> (\<exists>y. rnd x = Fin y \<and> y \<le> 0)"
proof (cases "x = 0")
  case False
  define u where "u = pow2 (max (ilog2 \<bar>x\<bar> - 52) (- 1074))"
  define r where "r = of_int (round_half_even (x / u)) * u"
  have "0 < u" by (simp add: u_def)
  with assms have "round_half_even (x / u) \<le> 0"
    by (simp add: round_half_even_nonpos divide_nonpos_pos)
  with \<open>0 < u\<close> have "r \<le> 0"
    by (simp add: r_def mult_nonpos_nonneg)
  moreover have "(0::rat) < 2 ^ 1024"
    by simp
  ultimately have "\<not> 2 ^ 1024 \<le> r"
    by linarith
  with \<open>r \<le> 0\<close> False show ?thesis
    by (simp add: rnd_def Let_def u_def [symmetric] r_def [symmetric])
qed simp

lemma dur_Seconds_nonpos: "d \<le> 0 \<Longrightarrow> f_le (dur_Seconds d) (Fin 0)"
proof -
  assume d: "d \<le> 0"
  have "tquot d Second \<le> 0" "trem d Second \<le> 0"
  proof -
    have q: "tquot d Second = - ((- d) div Second)" if "d < 0"
      using that by (simp add: tquot_def Second_def)
    show "tquot d Second \<le> 0"
      using d q by (cases "d = 0") (auto simp: tquot_def Second_def pos_imp_zdiv_nonneg_iff)
    have "trem d Second = - ((- d) mod Second)"
      using d q by (cases "d = 0") (auto simp: trem_def tquot_def Second_def minus_div_mult_eq_mod [symmetric])
    then show "trem d Second \<le> 0"
      by (simp add: Second_def)
  qed
  then have "of_int (tquot d Second) \<le> (0::rat)" "of_int (trem d Second) \<le> (0::rat)"
    by simp_all
  from rnd_nonpos [OF this(1)] rnd_nonpos [OF this(2)]
  obtain "f_of_int (tquot d Second) = NInf \<or> (\<exists>y. f_of_int (tquot d Second) = Fin y \<and> y \<le> 0)"
    "f_of_int (trem d Second) = NInf \<or> (\<exists>y. f_of_int (trem d Second) = Fin y \<and> y \<le> 0)"
    by (simp add: f_of_int_def)
  moreover have "rnd (y / 1000000000) = NInf \<or> (\<exists>z. rnd (y / 1000000000) = Fin z \<and> z \<le> 0)" if "y \<le> 0" for y
    using that by (intro rnd_nonpos) simp
  moreover have "rnd (y + z) = NInf \<or> (\<exists>w. rnd (y + z) = Fin w \<and> w \<le> 0)" if "y \<le> 0" "z \<le> 0" for y z
    using that by (intro rnd_nonpos) simp
  ultimately show ?thesis
    unfolding dur_Seconds_def by (fastforce simp: f_le_def f_inf_def)
qed

lemma elapsed_advances: "\<not> f_le (elapsed t u) (Fin 0) \<Longrightarrow> u < t"
  by (rule ccontr) (use dur_Seconds_nonpos [of "time_sub t u"] in \<open>auto simp: elapsed_def time_sub_def split: if_splits\<close>)

definition per_second :: "int \<Rightarrow> float64 \<Rightarrow> float64" where
  "per_second n seconds = f_div (f_of_int n) seconds"

lemma per_second_nonneg:
  assumes "0 \<le> n" and "\<not> f_le e (Fin 0)"
  shows "\<not> f_lt (per_second n e) (Fin 0)"
proof -
  have n: "f_of_int n = PInf \<or> (\<exists>y. f_of_int n = Fin y \<and> 0 \<le> y)"
    unfolding f_of_int_def by (rule rnd_nonneg) (use assms in simp)
  have q: "rnd (y / z) = PInf \<or> (\<exists>w. rnd (y / z) = Fin w \<and> 0 \<le> w)" if "0 \<le> y" "0 < z" for y z
    using that by (intro rnd_nonneg) simp
  show ?thesis
  proof (cases e)
    case (Fin z)
    with assms(2) have "0 < z" by (auto simp: f_le_def)
    with n q [OF _ this] Fin show ?thesis
      by (fastforce simp: per_second_def f_inf_def)
  qed (use n assms(2) in \<open>auto simp: per_second_def f_le_def\<close>)
qed

section \<open>Where rates come from\<close>

definition grown :: "NetworkUsage \<Rightarrow> NetworkUsage \<Rightarrow> bool" where
  "grown prev cur \<longleftrightarrow> nu_RxBytes prev \<le> nu_RxBytes cur \<and> nu_TxBytes prev \<le> nu_TxBytes cur \<and>
     nu_RxPackets prev \<le> nu_RxPackets cur \<and> nu_TxPackets prev \<le> nu_TxPackets cur"

definition growth :: "NetworkUsage \<Rightarrow> NetworkUsage \<Rightarrow> float64 \<Rightarrow> NetworkRates" where
  "growth prev cur seconds =
     \<lparr>nr_RxBytesPerSec = per_second (nu_RxBytes cur - nu_RxBytes prev) seconds, nr_TxBytesPerSec = per_second (nu_TxBytes cur - nu_TxBytes prev) seconds,
      nr_RxPacketsPerSec = per_second (nu_RxPackets cur - nu_RxPackets prev) seconds,
      nr_TxPacketsPerSec = per_second (nu_TxPackets cur - nu_TxPackets prev) seconds\<rparr>"

definition negative_rate :: "NetworkRates \<Rightarrow> bool" where
  "negative_rate r \<longleftrightarrow> f_lt (nr_RxBytesPerSec r) (Fin 0) \<or> f_lt (nr_TxBytesPerSec r) (Fin 0) \<or>
     f_lt (nr_RxPacketsPerSec r) (Fin 0) \<or> f_lt (nr_TxPacketsPerSec r) (Fin 0)"

lemma networkRates_growth:
  "networkRates prev cur e = (if \<not> f_le e (Fin 0) \<and> grown prev cur then Some (growth prev cur e) else None)"
  by (auto simp: networkRates_def grown_def growth_def per_second_def)

lemma growth_nonneg: "grown prev cur \<Longrightarrow> \<not> f_le e (Fin 0) \<Longrightarrow> \<not> negative_rate (growth prev cur e)"
  by (simp add: negative_rate_def growth_def grown_def per_second_nonneg)

lemma network_rates_of:
  assumes "nw \<in> set (fst (networks_of stats t c))" and "nw_Rates nw = Some r"
  obtains prev where "cl_prevNetworks c (nw_Interface nw) = Some prev" "\<not> f_le (elapsed t (cl_prevNetTime c)) (Fin 0)" "grown prev (nw_Usage nw)"
    "r = growth prev (nw_Usage nw) (elapsed t (cl_prevNetTime c))"
  using assms by (auto simp: networks_of_def Let_def networkRates_growth split: option.splits if_splits)

lemma container_rates_of:
  assumes "containers_of rs i c = (ks, c')" and "k \<in> set ks" and "co_Rates k = Some r"
  shows "\<exists>prev. cl_prevContainers c (co_ID k) = Some prev \<and> cl_prevContainersTime c < in_container_time i"
    and "cn_SharesHostNetwork (co_Network k) \<or> \<not> cn_Accessible (co_Network k) \<Longrightarrow> cr_RxBytesPerSec r = None \<and> cr_TxBytesPerSec r = None"
proof -
  let ?e = "elapsed (in_container_time i) (cl_prevContainersTime c)"
  obtain x k0 prev pods where named: "namePodContainer (fromSystatsContainer x) pods = Some k0" and prev: "cl_prevContainers c (xco_ID x) = Some prev"
    and e: "f_lt (Fin 0) ?e" and k: "k = k0\<lparr>co_Rates := Some (fromSystatsContainerRates (rs_container rs x prev ?e) (co_Network k0))\<rparr>"
    using assms(1)
  proof (cases rule: containers_of_cases)
    case (read xs pods c1 named)
    from assms(2) read(4) obtain x k0 where xk: "(x, k0) \<in> set named" and k: "k = (case cl_prevContainers c (xco_ID x) of
           Some prev \<Rightarrow> if f_lt (Fin 0) ?e
             then k0\<lparr>co_Rates := Some (fromSystatsContainerRates (rs_container rs x prev ?e) (co_Network k0))\<rparr> else k0
         | None \<Rightarrow> k0)"
      by auto
    have n: "namePodContainer (fromSystatsContainer x) pods = Some k0"
      using xk named_sampled unfolding read(3) by blast
    then have "co_Rates k0 = None"
      by (simp add: namePodContainer_same(3))
    with k assms(3) n show thesis
      by (auto split: option.splits if_splits intro: that)
  qed (use assms(2) in auto)
  have "\<not> f_le ?e (Fin 0)"
    using e by (auto simp: f_le_def dest: f_lt_asym) (cases ?e; simp)
  then have "cl_prevContainersTime c < in_container_time i"
    by (rule elapsed_advances)
  with prev k namePodContainer_same(1) [OF named]
  show "\<exists>prev. cl_prevContainers c (co_ID k) = Some prev \<and> cl_prevContainersTime c < in_container_time i"
    by simp
  show "cr_RxBytesPerSec r = None \<and> cr_TxBytesPerSec r = None" if "cn_SharesHostNetwork (co_Network k) \<or> \<not> cn_Accessible (co_Network k)"
    using that k assms(3) by (auto simp: fromSystatsContainerRates_def)
qed

text \<open>What is promised of a network's and a container's rates in round \<open>k\<close>.\<close>

definition network_rates_ok :: "('d, 'c) samples list \<Rightarrow> nat \<Rightarrow> Network \<Rightarrow> bool" where
  "network_rates_ok is k nw = (case nw_Rates nw of None \<Rightarrow> True | Some r \<Rightarrow>
     0 < k \<and> in_net_time (is ! (k - 1)) < in_net_time (is ! k) \<and> \<not> negative_rate r \<and>
     (\<exists>prev \<in> set (fst (in_Networks (is ! (k - 1)))). xnw_Interface prev = nw_Interface nw \<and> grown (xnw_Usage prev) (nw_Usage nw) \<and>
        r = growth (xnw_Usage prev) (nw_Usage nw) (elapsed (in_net_time (is ! k)) (in_net_time (is ! (k - 1))))))"

definition container_rates_ok :: "('d, 'c) samples list \<Rightarrow> nat \<Rightarrow> Container \<Rightarrow> bool" where
  "container_rates_ok is k ct = (case co_Rates ct of None \<Rightarrow> True | Some r \<Rightarrow>
     (\<exists>j < k. \<exists>xs. in_Containers (is ! j) = Inr xs \<and> co_ID ct \<in> xco_ID ` set xs \<and> in_container_time (is ! j) < in_container_time (is ! k)) \<and>
     (cn_SharesHostNetwork (co_Network ct) \<or> \<not> cn_Accessible (co_Network ct) \<longrightarrow> cr_RxBytesPerSec r = None \<and> cr_TxBytesPerSec r = None))"

lemma network_rates_round:
  assumes "remembers (take k is) c" and "k < length is" and "nw \<in> set (fst (networks_of (in_Networks (is ! k)) (in_net_time (is ! k)) c))"
  shows "network_rates_ok is k nw"
proof (cases "nw_Rates nw")
  case (Some r)
  obtain prev where prev: "cl_prevNetworks c (nw_Interface nw) = Some prev" and e: "\<not> f_le (elapsed (in_net_time (is ! k)) (cl_prevNetTime c)) (Fin 0)"
    and g: "grown prev (nw_Usage nw)" "r = growth prev (nw_Usage nw) (elapsed (in_net_time (is ! k)) (cl_prevNetTime c))"
    by (rule network_rates_of [OF assms(3) Some])
  have "0 < k"
    using assms(1) prev by (cases k) (auto simp: remembers_def)
  then have "last (take k is) = is ! (k - 1)"
    using assms(2) by (cases k) (auto simp: take_Suc_conv_app_nth)
  then have "usages (is ! (k - 1)) (nw_Interface nw) = Some prev" "cl_prevNetTime c = in_net_time (is ! (k - 1))"
    using assms(1,2) prev \<open>0 < k\<close> by (auto simp: remembers_def split: if_splits)
  with usages_sampled obtain n where "n \<in> set (fst (in_Networks (is ! (k - 1))))" "xnw_Interface n = nw_Interface nw" "xnw_Usage n = prev"
      "cl_prevNetTime c = in_net_time (is ! (k - 1))"
    by blast
  with g e growth_nonneg [OF g(1) e] elapsed_advances [OF e] \<open>0 < k\<close> Some show ?thesis
    unfolding network_rates_ok_def by auto
qed (simp add: network_rates_ok_def)

lemma container_rates_round:
  assumes "remembers (take k is) c0" and "cl_prevContainers c = cl_prevContainers c0" and "cl_prevContainersTime c = cl_prevContainersTime c0"
    and "containers_of rs (is ! k) c = (ks, c')" and "ct \<in> set ks"
  shows "container_rates_ok is k ct"
proof (cases "co_Rates ct")
  case (Some r)
  note rates = container_rates_of [OF assms(4,5) Some]
  from rates(1) obtain prev where "cl_prevContainers c0 (co_ID ct) = Some prev" "cl_prevContainersTime c0 < in_container_time (is ! k)"
    by (auto simp: assms(2,3))
  with assms(1) obtain j xs where "j < k" "in_Containers (is ! j) = Inr xs" "prev \<in> set xs" "xco_ID prev = co_ID ct"
      "in_container_time (is ! j) < in_container_time (is ! k)"
    by (fastforce simp: remembers_def in_set_conv_nth)
  with rates(2) Some show ?thesis
    unfolding container_rates_ok_def by (auto intro!: exI [of _ j] image_eqI [of _ _ prev])
qed (simp add: container_rates_ok_def)

text \<open>C14. Rates are honest. Over any rounds of an agent, a network's rates in a snapshot are the growth of its counters since the round just before, over the
  time that passed, which is positive; there are none in the first round or when a counter went backwards, and none is negative. A container has
  rates only if an earlier round had read it, and no traffic rates when its counters are the host's or could not be read. Disks the agent is told to
  ignore and file systems that are no disks are left out, and a snapshot is under the agent's own name.\<close>

theorem snapshot_rates_sound:
  assumes "collect_all big rs version is (NewCollector config) = (ds, c)" and "k < length is"
  shows "list_all (network_rates_ok is k) (md_Networks (ds ! k)) \<and> list_all (container_rates_ok is k) (md_Containers (ds ! k)) \<and>
    list_all (\<lambda>dk. \<not> ignoredDisk config (dk_FileSystem dk) \<and> \<not> skippedFsTypes (dk_Type dk)) (md_Disk (ds ! k)) \<and>
    md_ServerId (ds ! k) = ag_ServerId config"
proof -
  obtain ck where dk: "ds ! k = fst (Collect big rs version (is ! k) ck)" and past: "remembers (take k is) ck" and cfg: "cl_config ck = config"
    by (rule collect_all_nth [OF assms(1) remembers_start assms(2)]) (simp add: NewCollector_def)
  obtain d c' where d: "Collect big rs version (is ! k) ck = (d, c')" by fastforce
  obtain c1 c2 where nets: "md_Networks d = fst (networks_of (in_Networks (is ! k)) (in_net_time (is ! k)) ck)"
    and c1: "c1 = ck\<lparr>cl_prevNetworks := usages (is ! k), cl_prevNetTime := in_net_time (is ! k)\<rparr>"
    and c2: "c2 = (if is_enabled ck CollectorDiskIO then snd (diskIO_of rs (in_DiskIO (is ! k)) (in_disk_time (is ! k)) c1) else c1)"
    and ks: "(md_Containers d, c') = (if is_enabled ck CollectorContainers then containers_of rs (is ! k) c2 else ([], c2))"
    and rest: "md_Disk d = disks_of big (cl_config ck) (in_Disks (is ! k))" "md_ServerId d = ag_ServerId (cl_config ck)"
    by (rule Collect_parts [OF d])
  have "container_rates_ok is k ct" if ct: "ct \<in> set (md_Containers d)" for ct
  proof (rule container_rates_round [OF past])
    show "containers_of rs (is ! k) c2 = (md_Containers d, c')"
      using ct ks by (auto split: if_splits)
  qed (use ct in \<open>auto simp: c1 c2\<close>)
  moreover have "network_rates_ok is k nw" if "nw \<in> set (md_Networks d)" for nw
    using that network_rates_round [OF past assms(2)] by (simp add: nets)
  ultimately show ?thesis
    using dk d by (auto simp: list_all_iff rest cfg disks_of_def keepDisk_def fromSystatsDisk_def)
qed

section \<open>Examples\<close>

text \<open>Two rounds ten seconds apart; an interface received a kilobyte meanwhile.\<close>

definition example_agent :: AgentConfig where
  "example_agent = \<lparr>ag_ServerId = ''web-1'', ag_DisksToIgnore = ''/dev/loop0, /dev/sr0'', ag_Services = [], ag_DisabledCollectors = [],
     ag_ContainerAware = False, ag_ContainerSocket = [], ag_ContainerLayerSize = False, ag_CRISocket = []\<rparr>"

definition example_system :: System where
  "example_system = \<lparr>sy_HostName = ''web-1'', sy_OS = ''Debian'', sy_Kernel = [], sy_UpTime = [], sy_LastBootDate = 0, sy_LoggedInUsers = [],
     sy_Time = 0, sy_TimeZone = ''UTC'', sy_UpTimeSeconds = Fin 10\<rparr>"

definition example_CPU :: CPU where
  "example_CPU = \<lparr>cpu_LoadAvg = 7, cpu_CoreAvg = [], cpu_Model = [], cpu_NoOfCores = 1, cpu_Freq = [], cpu_Cache = [], cpu_Time = 0, cpu_Load1 = Fin 0,
     cpu_Load5 = Fin 0, cpu_Load15 = Fin 0, cpu_PhysicalCores = 1, cpu_Sockets = 1, cpu_Limited = False, cpu_AllocatedCores = Fin 1\<rparr>"

definition example_round :: "int \<Rightarrow> int \<Rightarrow> (unit, unit) samples" where
  "example_round seconds received =
     \<lparr>in_now = time_Unix seconds, in_System = (example_system, None),
      in_Memory = (\<lparr>xm_PercentageUsed = Fin 50, xm_Available = Fin 10, xm_Free = Fin 10, xm_Used = Fin 10, xm_Time = 0, xm_Total = Fin 20,
        xm_Unit = ''MB'', xm_Limited = False\<rparr>, None),
      in_Swap = (\<lparr>xs_PercentageUsed = Fin 0, xs_Free = Fin 0, xs_Used = Fin 0, xs_Time = 0, xs_Total = Fin 0, xs_Unit = ''MB''\<rparr>, None),
      in_Disks = ([], None), in_CPU = (example_CPU, None),
      in_Networks = ([\<lparr>xnw_Interface = ''eth0'', xnw_Ip = [], xnw_Usage = \<lparr>nu_RxBytes = received, nu_TxBytes = 0, nu_RxPackets = 0, nu_TxPackets = 0,
        nu_State = ''up''\<rparr>, xnw_Time = 0, xnw_Ipv6 = [], xnw_MacAddress = []\<rparr>], None),
      in_net_time = time_Unix seconds, in_running = (\<lambda>_. (False, None)), in_TopCPU = ([], None), in_TopMemory = ([], None),
      in_DiskIO = Inr [], in_disk_time = time_Unix seconds, in_TCP = Inl ErrNotFound, in_Pressure = Inl ErrNotFound, in_Temperatures = Inr [],
      in_Containers = Inr [], in_container_time = time_Unix seconds, in_new_cri = Inr (), in_cri_containers = Inr [], in_cri_sandboxes = Inr []\<rparr>"

definition example_rates :: "(unit, unit) rates_since" where
  "example_rates = \<lparr>rs_disk = (\<lambda>x prev e. \<lparr>dio_Device = xdio_Device x, dio_ReadsPerSec = Fin 0, dio_WritesPerSec = Fin 0, dio_ReadBytesPerSec = Fin 0,
       dio_WriteBytesPerSec = Fin 0, dio_UtilPercent = Fin 0\<rparr>),
     rs_container = (\<lambda>x prev e. \<lparr>xcr_RxBytesPerSec = Fin 0, xcr_TxBytesPerSec = Fin 0, xcr_ReadBytesPerSec = Fin 0, xcr_WriteBytesPerSec = Fin 0,
       xcr_CPUThrottledSecPerSec = Fin 0\<rparr>)\<rparr>"

definition example_snapshots :: "MonitorData list" where
  "example_snapshots = fst (collect_all (\<lambda>_. 0) example_rates ''1.0'' [example_round 100 1000, example_round 110 2000] (NewCollector example_agent))"

lemma collected_networks:
  assumes "Collect big rs version i c = (d, c')"
  shows "md_Networks d = fst (networks_of (in_Networks i) (in_net_time i) c)" "cl_prevNetworks c' = usages i" "cl_prevNetTime c' = in_net_time i"
proof -
  obtain c1 c2 where nets: "md_Networks d = fst (networks_of (in_Networks i) (in_net_time i) c)"
    and c1: "c1 = c\<lparr>cl_prevNetworks := usages i, cl_prevNetTime := in_net_time i\<rparr>"
    and c2: "c2 = (if is_enabled c CollectorDiskIO then snd (diskIO_of rs (in_DiskIO i) (in_disk_time i) c1) else c1)"
    and ks: "(md_Containers d, c') = (if is_enabled c CollectorContainers then containers_of rs i c2 else ([], c2))"
    by (rule Collect_parts [OF assms])
  have "cl_prevNetworks c' = cl_prevNetworks c2 \<and> cl_prevNetTime c' = cl_prevNetTime c2"
  proof (cases "is_enabled c CollectorContainers")
    case True
    with ks have "containers_of rs i c2 = (md_Containers d, c')" by simp
    then show ?thesis using containers_of_same by blast
  qed (use ks in simp)
  then show "cl_prevNetworks c' = usages i" "cl_prevNetTime c' = in_net_time i"
    by (auto simp: c1 c2)
qed (rule Collect_parts [OF assms], assumption)

lemma example_elapsed: "elapsed (time_Unix 110) (time_Unix 100) = Fin 10"
proof -
  have "time_sub (time_Unix 110) (time_Unix 100) = 10 * Second" by code_simp
  moreover have "tquot (10 * Second) Second = 10" "trem (10 * Second) Second = 0" by code_simp+
  ultimately show ?thesis
    by (simp add: elapsed_def dur_Seconds_def)
qed

lemma example_rate:
  obtains a b where "example_snapshots = [a, b]" "map (map_option nr_RxBytesPerSec \<circ> nw_Rates) (md_Networks b) = [Some (Fin 100)]"
proof -
  obtain a c1 where a: "Collect (\<lambda>_. 0) example_rates ''1.0'' (example_round 100 1000) (NewCollector example_agent) = (a, c1)" by fastforce
  obtain b c2 where b: "Collect (\<lambda>_. 0) example_rates ''1.0'' (example_round 110 2000) c1 = (b, c2)" by fastforce
  have "md_Networks b = fst (networks_of (in_Networks (example_round 110 2000)) (in_net_time (example_round 110 2000)) c1)"
    by (rule collected_networks(1) [OF b])
  then have "map (map_option nr_RxBytesPerSec \<circ> nw_Rates) (md_Networks b) = [Some (Fin 100)]"
    using collected_networks(2,3) [OF a]
    by (simp add: networks_of_def Let_def example_round_def usages_def networkRates_growth grown_def growth_def per_second_def example_elapsed f_le_def)
  then show thesis
    by (intro that [of a b]) (simp_all add: example_snapshots_def a b)
qed

theorem snapshot_rates_sound_witness:
  "list_all (network_rates_ok [example_round 100 1000, example_round 110 2000] 1) (md_Networks (example_snapshots ! 1)) \<and>
   map (map_option nr_RxBytesPerSec \<circ> nw_Rates) (md_Networks (example_snapshots ! 1)) = [Some (Fin 100)]"
proof -
  obtain c where c: "collect_all (\<lambda>_. 0) example_rates ''1.0'' [example_round 100 1000, example_round 110 2000] (NewCollector example_agent) = (example_snapshots, c)"
    unfolding example_snapshots_def by (metis prod.collapse)
  obtain a b where s: "example_snapshots = [a, b]" and r: "map (map_option nr_RxBytesPerSec \<circ> nw_Rates) (md_Networks b) = [Some (Fin 100)]"
    by (rule example_rate)
  have "example_snapshots ! 1 = b"
    by (subst s) simp
  with snapshot_rates_sound [OF c, of 1] r show ?thesis
    by simp
qed

end
