(* ===== verification/Ingested.thy ===== *)
theory Ingested
  imports MetricsRead AlertSystem AgentRates
begin

text \<open>
  What becomes of a snapshot: it is stored as a whole or not at all and only for the host that sent it, the newest one of a host stays whatever the
  order they arrive in, and the alert rules, the fleet page and the metrics page read the values that were in it.
\<close>

section \<open>Stored or not\<close>

text \<open>The snapshot as it is stored: under the name the caller is known by.\<close>

definition snapshot_from :: "string option \<Rightarrow> MonitorData \<Rightarrow> MonitorData" where
  "snapshot_from authenticated d = d\<lparr>md_ServerId := call_host authenticated (md_ServerId d)\<rparr>"

lemma snapshot_from_simps [simp]:
  "md_UnixTime (snapshot_from a d) = md_UnixTime d" "md_ServerId (snapshot_from a d) = call_host a (md_ServerId d)"
  "marshals (snapshot_from a d) = marshals d"
  by (simp_all add: snapshot_from_def marshals_def snapshot_floats_def)

lemma hostID_named:
  assumes "hostID name s = (r, s')"
  shows "tabs s' = tabs s \<and> (\<forall>i. r = Inr i \<longrightarrow> (\<exists>h. host_named (tabs s) name = Some h \<and> h_id h = i))"
  using assms unfolding hostID_def
  by (auto elim!: bindE_cases query_cases split: option.splits)

lemma snapshot_batch_call:
  assumes "dbcall (snapshot_batch now moment hid d) s = (r, s')"
  shows "tabs s' = tabs s \<and> (\<exists>e. r = Inl e) \<or> tabs s' = snapshot_tables now (timestamptz moment) hid d (tabs s)"
  using assms by (rule dbcall_cases) (auto simp: snapshot_batch_def split: if_splits)

lemma SaveSnapshot_cases:
  assumes "SaveSnapshot now d s = (r, s')"
  obtains (stored) moment h where "parseUnixTime (md_UnixTime d) = Inr moment" "host_named (tabs s) (md_ServerId d) = Some h" "marshals d"
      "tabs s' = snapshot_tables now (timestamptz moment) (h_id h) d (tabs s)"
    | (refused) e where "r = Inl e" "tabs s' = tabs s"
proof (cases "parseUnixTime (md_UnixTime d)")
  case (Inl e)
  with assms show thesis by (intro refused [of e]) (auto simp: SaveSnapshot_def of_result_def bindE_def)
next
  case (Inr moment)
  with assms have "bindE (hostID (md_ServerId d)) (\<lambda>hid. if \<not> marshals d then fail (ErrText ''json: unsupported value'' [])
      else dbcall (snapshot_batch now moment hid d)) s = (r, s')"
    by (simp add: SaveSnapshot_def of_result_def bindE_def)
  then show thesis
  proof (cases rule: bindE_cases)
    case (err e)
    with hostID_named [OF err(1)] show thesis by (intro refused) auto
  next
    case (ok hid s1)
    from hostID_named [OF ok(1)] obtain h where h: "tabs s1 = tabs s" "host_named (tabs s) (md_ServerId d) = Some h" "h_id h = hid" by auto
    show thesis
    proof (cases "marshals d")
      case True
      with ok(2) snapshot_batch_call [of now moment hid d s1 r s'] h Inr show thesis
        by (auto intro: refused stored)
    qed (use ok(2) h in \<open>auto intro: refused\<close>)
  qed
qed

text \<open>The rows of other hosts, and everything no agent writes this way.\<close>

definition without_host :: "int \<Rightarrow> tables \<Rightarrow> tables" where
  "without_host hid t =
     t\<lparr>db_host_metrics := filter (\<lambda>r. hm_host_id r \<noteq> hid) (db_host_metrics t), db_cores := filter (\<lambda>r. cpm_host_id r \<noteq> hid) (db_cores t),
       db_disk_metrics := filter (\<lambda>r. dm_host_id r \<noteq> hid) (db_disk_metrics t), db_disk_io := filter (\<lambda>r. dio_host_id r \<noteq> hid) (db_disk_io t),
       db_net_metrics := filter (\<lambda>r. nm_host_id r \<noteq> hid) (db_net_metrics t), db_temps := filter (\<lambda>r. tm_host_id r \<noteq> hid) (db_temps t),
       db_services := filter (\<lambda>r. sv_host_id r \<noteq> hid) (db_services t), db_containers := filter (\<lambda>r. ctm_host_id r \<noteq> hid) (db_containers t),
       db_processes := filter (\<lambda>r. ps_host_id r \<noteq> hid) (db_processes t), db_latest := filter (\<lambda>r. hl_host_id r \<noteq> hid) (db_latest t),
       db_custom_metrics := filter (\<lambda>r. cm_host_id r \<noteq> hid) (db_custom_metrics t), db_hosts := filter (\<lambda>h. h_id h \<noteq> hid) (db_hosts t)\<rparr>"

lemma filter_update_other: "(\<And>x. P x \<Longrightarrow> \<not> Q x) \<Longrightarrow> (\<And>x. P (f x) = P x) \<Longrightarrow> filter P (update_where Q f xs) = filter P xs"
  by (induction xs) (auto simp: update_where_def)

lemma upsert_other: "filter (\<lambda>r. hl_host_id r \<noteq> hid) (upsert_latest hid moment d rows) = filter (\<lambda>r. hl_host_id r \<noteq> hid) rows"
  by (auto simp: upsert_latest_def intro!: filter_update_other)

lemma seen_now_other: "filter (\<lambda>h. h_id h \<noteq> hid) (seen_now hid now rows) = filter (\<lambda>h. h_id h \<noteq> hid) rows"
  by (auto simp: seen_now_def intro!: filter_update_other)

lemma filter_mapped_out: "(\<And>x. \<not> P (f x)) \<Longrightarrow> filter P (map f xs) = []"
  by (induction xs) auto

lemma snapshot_other: "without_host hid (snapshot_tables now moment hid d t) = without_host hid t"
  by (simp add: without_host_def snapshot_tables_def upsert_other seen_now_other queueHostMetrics_def Let_def core_rows_def disk_rows_def disk_io_rows_def
      net_rows_def temp_rows_def service_rows_def container_rows_def filter_mapped_out case_prod_beta')

lemma host_named_seen: "host_named (snapshot_tables now moment hid d t) n =
    map_option (\<lambda>h. if h_id h = hid then h\<lparr>h_last_seen := greatest (h_last_seen h) (timestamptz now)\<rparr> else h) (host_named t n)"
proof -
  have "find (\<lambda>h. h_name h = n) (update_where P (\<lambda>h. h\<lparr>h_last_seen := greatest (h_last_seen h) x\<rparr>) hs) =
      map_option (\<lambda>h. if P h then h\<lparr>h_last_seen := greatest (h_last_seen h) x\<rparr> else h) (find (\<lambda>h. h_name h = n) hs)" for P x hs
    by (induction hs) (auto simp: update_where_def)
  then show ?thesis
    by (simp add: host_named_def snapshot_tables_def seen_now_def)
qed

definition snapshot_stored :: "time \<Rightarrow> string option \<Rightarrow> MonitorData \<Rightarrow> tables \<Rightarrow> tables \<Rightarrow> bool" where
  "snapshot_stored now authenticated d t t' \<longleftrightarrow> marshals d \<and>
     (case (parseUnixTime (md_UnixTime d), host_named t (call_host authenticated (md_ServerId d))) of
        (Inr moment, Some h) \<Rightarrow> t' = snapshot_tables now (timestamptz moment) (h_id h) (snapshot_from authenticated d) t \<and>
          without_host (h_id h) t' = without_host (h_id h) t
      | _ \<Rightarrow> False)"

lemma snapshot_storedE:
  assumes "snapshot_stored now a d t t'"
  obtains moment h where "parseUnixTime (md_UnixTime d) = Inr moment" "host_named t (call_host a (md_ServerId d)) = Some h"
    "t' = snapshot_tables now (timestamptz moment) (h_id h) (snapshot_from a d) t"
  using assms by (cases "parseUnixTime (md_UnixTime d)"; cases "host_named t (call_host a (md_ServerId d))") (auto simp: snapshot_stored_def)

text \<open>The status when every call to the database goes through.\<close>

definition data_status :: "MonitorData result \<Rightarrow> string option \<Rightarrow> tables \<Rightarrow> grpc_code" where
  "data_status read authenticated t = (case read of
     Inl _ \<Rightarrow> InvalidArgument
   | Inr d \<Rightarrow> (case parseUnixTime (md_UnixTime d) of
       Inl _ \<Rightarrow> InvalidArgument
     | Inr _ \<Rightarrow> if host_named t (call_host authenticated (md_ServerId d)) = None then NotFound else if marshals d then OK else Internal))"

lemma HandleMonitorData_read:
  "unmarshal json = Inr d \<Longrightarrow> HandleMonitorData unmarshal now authenticated json =
     bindE (map_err (agentStatus (call_host authenticated (md_ServerId d))) (SaveSnapshot now (snapshot_from authenticated d))) (\<lambda>_. ret ''ok'')"
  by (simp add: HandleMonitorData_def snapshot_from_def Let_def)

lemma stored_or_refused:
  assumes "HandleMonitorData unmarshal now authenticated json s = (r, s')"
  shows "(\<exists>e. r = Inl e) \<and> tabs s' = tabs s \<or> (\<exists>d. unmarshal json = Inr d \<and> snapshot_stored now authenticated d (tabs s) (tabs s'))"
proof (cases "unmarshal json")
  case (Inl e)
  with assms show ?thesis by (auto simp: HandleMonitorData_def)
next
  case (Inr d)
  let ?d = "snapshot_from authenticated d"
  obtain r1 s1 where save: "SaveSnapshot now ?d s = (r1, s1)" by fastforce
  with assms Inr have s1: "s' = s1" "(\<exists>e. r = Inl e) \<or> (\<exists>a. r1 = Inr a)"
    by (auto simp: HandleMonitorData_read bindE_def map_err_def split: sum.splits)
  from save show ?thesis
  proof (cases rule: SaveSnapshot_cases)
    case (stored moment h)
    with Inr s1 show ?thesis
      by (simp add: snapshot_stored_def snapshot_other)
  next
    case (refused e)
    with s1 show ?thesis by auto
  qed
qed

lemma parseUnixTime_invalid: "parseUnixTime u = Inl e \<Longrightarrow> \<exists>f a. e = ErrWrap f a ErrInvalid"
  by (auto simp: parseUnixTime_def split: prod.splits if_splits)

lemma host_named_id: "host_named t n = Some h \<Longrightarrow> h_id h \<in> h_id ` set (db_hosts t)"
  by (auto simp: host_named_def dest: find_SomeD)

lemma data_status_when_up:
  assumes "db_net s = []"
  shows "status_Code (fst (HandleMonitorData unmarshal now authenticated json s)) = data_status (unmarshal json) authenticated (tabs s)"
proof (cases "unmarshal json")
  case (Inr d)
  have up: "dbcall f s = f s" for f :: "('a, db) act"
    by (simp add: dbcall_def assms)
  have host: "hostID n s = (case host_named (tabs s) n of None \<Rightarrow> (Inl ErrNotFound, s) | Some h \<Rightarrow> (Inr (h_id h), s))" for n
    by (simp add: hostID_def query_def up bindE_def split: option.split)
  show ?thesis
  proof (cases "parseUnixTime (md_UnixTime d)")
    case (Inl e)
    with parseUnixTime_invalid [OF Inl] Inr show ?thesis
      by (auto simp: HandleMonitorData_read data_status_def SaveSnapshot_def of_result_def bindE_def map_err_def agentStatus_def toStatus_def)
  next
    case time: (Inr moment)
    show ?thesis
    proof (cases "host_named (tabs s) (call_host authenticated (md_ServerId d))")
      case None
      with Inr time show ?thesis
        by (simp add: HandleMonitorData_read data_status_def SaveSnapshot_def of_result_def bindE_def map_err_def agentStatus_def host)
    next
      case (Some h)
      with Inr time host_named_id [OF Some] show ?thesis
        by (simp add: HandleMonitorData_read data_status_def SaveSnapshot_def of_result_def bindE_def map_err_def agentStatus_def toStatus_def host up
            snapshot_batch_def ErrCanceled_def ErrDeadline_def)
    qed
  qed
qed (simp add: HandleMonitorData_def data_status_def)


text \<open>An example: a host whose nginx has stopped, with a database that has seen nothing of it yet.\<close>

definition example_data :: "string \<Rightarrow> MonitorData" where
  "example_data at_unix =
     \<lparr>md_UnixTime = at_unix, md_System = example_system,
      md_Memory = \<lparr>mem_PercentageUsed = Fin 50, mem_Available = 10, mem_Free = 10, mem_Used = 10, mem_Time = 0, mem_Total = 20, mem_Unit = ''MB'', mem_Limited = False\<rparr>,
      md_Swap = \<lparr>sw_PercentageUsed = Fin 0, sw_Free = 0, sw_Used = 0, sw_Time = 0, sw_Total = 0, sw_Unit = ''MB''\<rparr>, md_Disk = [], md_ProcUsage = example_CPU,
      md_Networks = [], md_Processes = \<lparr>pp_CPU = [], pp_Memory = []\<rparr>, md_Services = [\<lparr>sv_Name = ''nginx'', sv_Running = False, sv_Time = []\<rparr>],
      md_ServerId = ''web'', md_DiskIO = [], md_TCPStates = None, md_Pressure = None, md_Temperatures = [], md_Containers = [], md_AgentVersion = ''1.0''\<rparr>"

definition example_read :: "string \<Rightarrow> MonitorData result" where
  "example_read json = (if json = [] then Inl (err_text ''unexpected end of JSON input'') else Inr (example_data json))"

lemma example_marshals: "marshals (example_data u)"
  by (simp add: marshals_def snapshot_floats_def example_data_def example_system_def example_CPU_def process_floats_def json_time_def duration_consts)

lemma example_host: "host_named (tabs example_db) ''web'' = Some (new_host 1 ''web'' ''UTC'')"
  by (simp add: host_named_def example_db_def new_host_def)

lemma example_fields [simp]: "md_UnixTime (example_data u) = u" "md_ServerId (example_data u) = ''web''" "snapshot_from (Some ''web'') (example_data u) = example_data u"
  by (simp_all add: example_data_def snapshot_from_def call_host_def)

lemma snapshot_served:
  assumes "db_net s = []" and "unmarshal json = Inr d" and "parseUnixTime (md_UnixTime d) = Inr moment"
    and "host_named (tabs s) (call_host a (md_ServerId d)) = Some h" and "marshals d"
  shows "HandleMonitorData unmarshal now a json s = (Inr ''ok'', s\<lparr>tabs := snapshot_tables now (timestamptz moment) (h_id h) (snapshot_from a d) (tabs s)\<rparr>)"
  using assms host_named_id [OF assms(4)]
  by (simp add: HandleMonitorData_read SaveSnapshot_def of_result_def bindE_def map_err_def hostID_def query_def dbcall_def snapshot_batch_def)

lemma example_times: "parseUnixTime ''100'' = Inr (time_Unix 100)" "parseUnixTime ''110'' = Inr (time_Unix 110)" "parseUnixTime ''120'' = Inr (time_Unix 120)"
  by code_simp+

definition example_stored :: db where
  "example_stored = example_db\<lparr>tabs := snapshot_tables (time_Unix 101) (timestamptz (time_Unix 100)) 1 (example_data ''100'') (tabs example_db)\<rparr>"

lemma example_net: "db_net example_db = []"
  by (simp add: example_db_def)

lemma example_served: "HandleMonitorData example_read (time_Unix 101) (Some ''web'') ''100'' example_db = (Inr ''ok'', example_stored)"
proof -
  have "parseUnixTime (md_UnixTime (example_data ''100'')) = Inr (time_Unix 100)" by (simp add: example_times)
  moreover have "host_named (tabs example_db) (call_host (Some ''web'') (md_ServerId (example_data ''100''))) = Some (new_host 1 ''web'' ''UTC'')"
    by (simp add: call_host_def example_host)
  ultimately have "HandleMonitorData example_read (time_Unix 101) (Some ''web'') ''100'' example_db =
      (Inr ''ok'', example_db\<lparr>tabs := snapshot_tables (time_Unix 101) (timestamptz (time_Unix 100)) (h_id (new_host 1 ''web'' ''UTC''))
        (snapshot_from (Some ''web'') (example_data ''100'')) (tabs example_db)\<rparr>)"
    by (intro snapshot_served example_net example_marshals) (simp_all add: example_read_def)
  then show ?thesis by (simp add: example_stored_def new_host_def)
qed


section \<open>The newest snapshot\<close>

lemma find_update_key:
  assumes "\<And>x. key (f x) = key x"
  shows "find (\<lambda>x. key x = k) (update_where (\<lambda>x. key x = k \<and> P x) f xs) = map_option (\<lambda>x. if P x then f x else x) (find (\<lambda>x. key x = k) xs)"
  by (induction xs) (auto simp: update_where_def assms)

lemma find_update_other_key:
  assumes "\<And>x. key (f x) = key x" and "k \<noteq> k'"
  shows "find (\<lambda>x. key x = k) (update_where (\<lambda>x. key x = k' \<and> P x) f xs) = find (\<lambda>x. key x = k) xs"
  using assms(2) by (induction xs) (auto simp: update_where_def assms(1))

lemma latest_after:
  "latest_of (snapshot_tables now moment hid d t) hid =
     Some (case latest_of t hid of None \<Rightarrow> \<lparr>hl_host_id = hid, hl_time = moment, hl_snapshot = d\<rparr>
       | Some l \<Rightarrow> if hl_time l \<le> moment then \<lparr>hl_host_id = hid, hl_time = moment, hl_snapshot = d\<rparr> else l)"
proof (cases "latest_of t hid")
  case None
  then have "\<not> (\<exists>l \<in> set (db_latest t). hl_host_id l = hid)"
    by (simp add: latest_of_def find_None_iff)
  with None show ?thesis
    by (simp add: latest_of_def snapshot_tables_def upsert_latest_def find_append)
next
  case (Some l)
  then have l: "hl_host_id l = hid" "\<exists>l \<in> set (db_latest t). hl_host_id l = hid"
    by (auto simp: latest_of_def dest!: find_SomeD)
  with Some show ?thesis
    by (simp add: latest_of_def snapshot_tables_def upsert_latest_def find_update_key [of hl_host_id])
qed

lemma latest_of_others: "hid' \<noteq> hid \<Longrightarrow> latest_of (snapshot_tables now moment hid d t) hid' = latest_of t hid'"
  by (auto simp: latest_of_def snapshot_tables_def upsert_latest_def find_update_other_key [of hl_host_id] find_append split: option.split)

text \<open>Of snapshots in the order they arrived, the last one with the greatest time.\<close>

fun newest_of :: "(time \<times> MonitorData) list \<Rightarrow> (time \<times> MonitorData) option" where
  "newest_of [] = None"
| "newest_of (x # xs) = (case newest_of xs of None \<Rightarrow> Some x | Some y \<Rightarrow> if fst x \<le> fst y then Some y else Some x)"

lemma newest_of_spec:
  "newest_of xs = Some (m, d) \<longleftrightarrow> (\<exists>before after. xs = before @ (m, d) # after \<and> list_all (\<lambda>x. fst x \<le> m) before \<and> list_all (\<lambda>x. fst x < m) after)"
  (is "?L xs \<longleftrightarrow> ?R xs")
proof
  show "?L xs \<Longrightarrow> ?R xs"
  proof (induction xs)
    case (Cons x xs)
    show ?case
    proof (cases "newest_of xs = Some (m, d)")
      case True
      with Cons obtain before after where "xs = before @ (m, d) # after" "list_all (\<lambda>x. fst x \<le> m) before" "list_all (\<lambda>x. fst x < m) after" by auto
      moreover from True Cons.prems have "fst x \<le> m" by (auto split: if_splits)
      ultimately show ?thesis by (intro exI [of _ "x # before"] exI [of _ after]) simp
    next
      case False
      with Cons.prems have x: "x = (m, d)" "\<And>y. newest_of xs = Some y \<Longrightarrow> fst y < m" by (auto split: option.splits if_splits)
      have "list_all (\<lambda>x. fst x < m) xs"
      proof -
        have "list_all (\<lambda>x. case newest_of ys of None \<Rightarrow> False | Some y \<Rightarrow> fst x \<le> fst y) ys" for ys
        proof (induction ys)
          case (Cons y ys)
          then show ?case
            by (cases "newest_of ys") (auto simp: list_all_iff intro: order_trans)
        qed simp
        from this [of xs] x(2) show ?thesis
          by (cases "newest_of xs") (fastforce simp: list_all_iff)+
      qed
      with x show ?thesis by (intro exI [of _ "[]"] exI [of _ xs]) simp
    qed
  qed simp
next
  have top: "list_all (\<lambda>x. fst x < m) xs \<Longrightarrow> newest_of ((m, d) # xs) = Some (m, d)" for xs
  proof -
    have "newest_of ys = Some y \<Longrightarrow> y \<in> set ys" for ys y
      by (induction ys arbitrary: y) (auto split: option.splits if_splits)
    then show "list_all (\<lambda>x. fst x < m) xs \<Longrightarrow> newest_of ((m, d) # xs) = Some (m, d)"
      by (fastforce simp: list_all_iff split: option.splits)
  qed
  show "?R xs \<Longrightarrow> ?L xs"
  proof -
    have "newest_of (before @ (m, d) # after) = Some (m, d)" if "list_all (\<lambda>x. fst x \<le> m) before" "list_all (\<lambda>x. fst x < m) after" for before after
      using that top [of after] by (induction before) auto
    then show "?R xs \<Longrightarrow> ?L xs" by blast
  qed
qed

lemma newest_of_snoc: "newest_of (xs @ [x]) = (case newest_of xs of None \<Rightarrow> Some x | Some y \<Rightarrow> if fst y \<le> fst x then Some x else Some y)"
  by (induction xs) (auto split: option.splits)

text \<open>A run of calls with snapshots: when, by whom and what was sent; and the snapshots it stored for one host, in the order they came.\<close>

type_synonym data_call = "time \<times> string option \<times> string"

definition serve_data :: "(string \<Rightarrow> MonitorData result) \<Rightarrow> data_call \<Rightarrow> db \<Rightarrow> db" where
  "serve_data unmarshal c s = (case c of (now, authenticated, json) \<Rightarrow> snd (HandleMonitorData unmarshal now authenticated json s))"

definition stored_by :: "(string \<Rightarrow> MonitorData result) \<Rightarrow> int \<Rightarrow> data_call \<Rightarrow> db \<Rightarrow> (time \<times> MonitorData) list" where
  "stored_by unmarshal hid c s = (case c of (now, authenticated, json) \<Rightarrow>
     if tabs (serve_data unmarshal c s) = tabs s then []
     else (case unmarshal json of Inl _ \<Rightarrow> [] | Inr d \<Rightarrow>
       (case (parseUnixTime (md_UnixTime d), host_named (tabs s) (call_host authenticated (md_ServerId d))) of
          (Inr moment, Some h) \<Rightarrow> if h_id h = hid then [(timestamptz moment, snapshot_from authenticated d)] else []
        | _ \<Rightarrow> [])))"

fun data_log :: "(string \<Rightarrow> MonitorData result) \<Rightarrow> int \<Rightarrow> data_call list \<Rightarrow> db \<Rightarrow> (time \<times> MonitorData) list" where
  "data_log unmarshal hid [] s = []"
| "data_log unmarshal hid (c # cs) s = stored_by unmarshal hid c s @ data_log unmarshal hid cs (serve_data unmarshal c s)"

definition latest_row_of :: "int \<Rightarrow> time \<times> MonitorData \<Rightarrow> latest_row" where
  "latest_row_of hid x = \<lparr>hl_host_id = hid, hl_time = fst x, hl_snapshot = snd x\<rparr>"

lemma snapshot_changes: "snapshot_tables now moment hid d t \<noteq> t"
proof
  assume "snapshot_tables now moment hid d t = t"
  then have "db_host_metrics (snapshot_tables now moment hid d t) = db_host_metrics t" by simp
  then show False by (simp add: snapshot_tables_def)
qed

lemma latest_step:
  assumes "latest_of (tabs s) hid = map_option (latest_row_of hid) (newest_of came)"
  shows "latest_of (tabs (serve_data unmarshal c s)) hid = map_option (latest_row_of hid) (newest_of (came @ stored_by unmarshal hid c s))"
proof -
  obtain now a json where c: "c = (now, a, json)" by (cases c)
  obtain r s' where h: "HandleMonitorData unmarshal now a json s = (r, s')" by fastforce
  from stored_or_refused [OF h] show ?thesis
  proof
    assume "(\<exists>e. r = Inl e) \<and> tabs s' = tabs s"
    with h assms show ?thesis by (simp add: c serve_data_def stored_by_def)
  next
    assume "\<exists>d. unmarshal json = Inr d \<and> snapshot_stored now a d (tabs s) (tabs s')"
    then obtain d moment host where d: "unmarshal json = Inr d" "parseUnixTime (md_UnixTime d) = Inr moment"
        "host_named (tabs s) (call_host a (md_ServerId d)) = Some host"
        "tabs s' = snapshot_tables now (timestamptz moment) (h_id host) (snapshot_from a d) (tabs s)"
      by (auto elim: snapshot_storedE)
    show ?thesis
    proof (cases "h_id host = hid")
      case True
      with d h assms show ?thesis
        by (auto simp: c serve_data_def stored_by_def snapshot_changes latest_after newest_of_snoc latest_row_of_def split: option.split)
    next
      case False
      with d h assms show ?thesis
        by (simp add: c serve_data_def stored_by_def snapshot_changes latest_of_others)
    qed
  qed
qed

lemma latest_of_log:
  assumes "latest_of (tabs s) hid = map_option (latest_row_of hid) (newest_of came)"
  shows "latest_of (tabs (foldl (\<lambda>s c. serve_data unmarshal c s) s calls)) hid =
    map_option (latest_row_of hid) (newest_of (came @ data_log unmarshal hid calls s))"
  using assms
proof (induction calls arbitrary: s came)
  case (Cons c cs)
  from Cons.IH [OF latest_step [OF Cons.prems]] show ?case by simp
qed simp

text \<open>C11. After any calls with snapshots, of any hosts and with any failures, the snapshot the fleet page, the metrics page and the cluster page show of a host that
  had none before is the newest one that was stored, by its own time: one that arrives late does not replace a newer one, and of two with the same
  time the later arrival counts.\<close>

theorem newest_snapshot_stays:
  assumes "latest_of (tabs s) hid = None"
  shows "latest_of (tabs (foldl (\<lambda>s c. serve_data unmarshal c s) s calls)) hid = Some \<lparr>hl_host_id = hid, hl_time = m, hl_snapshot = d\<rparr> \<longleftrightarrow>
    (\<exists>before after. data_log unmarshal hid calls s = before @ (m, d) # after \<and> list_all (\<lambda>x. fst x \<le> m) before \<and> list_all (\<lambda>x. fst x < m) after)"
proof -
  have "latest_of (tabs (foldl (\<lambda>s c. serve_data unmarshal c s) s calls)) hid =
      map_option (latest_row_of hid) (newest_of (data_log unmarshal hid calls s))"
    using latest_of_log [of s hid "[]" unmarshal calls] assms by simp
  then show ?thesis
    unfolding newest_of_spec [symmetric] by (auto simp: latest_row_of_def)
qed

text \<open>Snapshots of the 100th, the 120th and then the 110th second.\<close>

definition example_calls :: "data_call list" where
  "example_calls = [(time_Unix 101, Some ''web'', ''100''), (time_Unix 121, Some ''web'', ''120''), (time_Unix 122, Some ''web'', ''110'')]"

lemma stored_by_served:
  assumes "db_net s = []" and "unmarshal json = Inr d" and "parseUnixTime (md_UnixTime d) = Inr moment"
    and "host_named (tabs s) (call_host a (md_ServerId d)) = Some h" and "marshals d"
  shows "stored_by unmarshal (h_id h) (now, a, json) s = [(timestamptz moment, snapshot_from a d)]"
  using snapshot_served [of s unmarshal json d moment a h now, OF assms] assms by (simp add: stored_by_def serve_data_def snapshot_changes)

lemma data_log_served:
  assumes "db_net s = []" and "map_option h_id (host_named (tabs s) ''web'') = Some 1" and "json \<noteq> []" and "parseUnixTime json = Inr moment"
  shows "data_log example_read 1 ((now, Some ''web'', json) # cs) s = (timestamptz moment, example_data json) #
      data_log example_read 1 cs (s\<lparr>tabs := snapshot_tables now (timestamptz moment) 1 (example_data json) (tabs s)\<rparr>)"
proof -
  obtain h where h: "host_named (tabs s) ''web'' = Some h" "h_id h = 1" using assms(2) by auto
  show ?thesis
    using snapshot_served [of s example_read json "example_data json" moment "Some ''web''" h now]
      stored_by_served [of s example_read json "example_data json" moment "Some ''web''" h now] assms h example_marshals
    by (simp add: example_read_def call_host_def serve_data_def)
qed

lemma example_log: "data_log example_read 1 example_calls example_db =
    [(timestamptz (time_Unix 100), example_data ''100''), (timestamptz (time_Unix 120), example_data ''120''), (timestamptz (time_Unix 110), example_data ''110'')]"
  by (simp add: example_calls_def data_log_served example_times host_named_seen example_host example_net new_host_def del: data_log.simps(2))

theorem newest_snapshot_stays_witness:
  "latest_of (tabs (foldl (\<lambda>s c. serve_data example_read c s) example_db example_calls)) 1 =
     Some \<lparr>hl_host_id = 1, hl_time = timestamptz (time_Unix 120), hl_snapshot = example_data ''120''\<rparr>"
proof -
  have none: "latest_of (tabs example_db) 1 = None"
    by (simp add: latest_of_def example_db_def no_rows_def)
  have "timestamptz (time_Unix 100) \<le> timestamptz (time_Unix 120)" "timestamptz (time_Unix 110) < timestamptz (time_Unix 120)" by code_simp+
  then show ?thesis
    unfolding newest_snapshot_stays [OF none] example_log
    by (intro exI [of _ "[(timestamptz (time_Unix 100), example_data ''100'')]"] exI [of _ "[(timestamptz (time_Unix 110), example_data ''110'')]"]) simp
qed

section \<open>What rules are checked with\<close>

text \<open>The value a snapshot has for a metric of the rules, for a rule's target.\<close>

definition snapshot_value :: "MonitorData \<Rightarrow> string \<Rightarrow> string \<Rightarrow> float64 option" where
  "snapshot_value d metric target =
     (if metric = PROC_USAGE then Some (f_of_int (cpu_LoadAvg (md_ProcUsage d)))
      else if metric = MEMORY then Some (mem_PercentageUsed (md_Memory d))
      else if metric = SWAP then Some (sw_PercentageUsed (md_Swap d))
      else if metric = DISKS then Option.bind (find (\<lambda>k. dk_FileSystem k = target) (md_Disk d)) (\<lambda>k. parsePercent (du_Usage (dk_Usage k)))
      else if metric = SERVICES then map_option (\<lambda>x. if sv_Running x then Fin 1 else Fin 0) (find (\<lambda>x. sv_Name x = target) (md_Services d))
      else None)"

definition all_before :: "int \<Rightarrow> time \<Rightarrow> tables \<Rightarrow> bool" where
  "all_before hid moment t \<longleftrightarrow> list_all (\<lambda>r. hm_host_id r = hid \<longrightarrow> hm_time r < moment) (db_host_metrics t) \<and>
     list_all (\<lambda>r. dm_host_id r = hid \<longrightarrow> dm_time r < moment) (db_disk_metrics t) \<and> list_all (\<lambda>r. sv_host_id r = hid \<longrightarrow> sv_time r < moment) (db_services t)"

lemma newest_appended:
  assumes "list_all (\<lambda>r. tm r < m) old" and "list_all (\<lambda>r. tm r = m) new" and "new \<noteq> []"
  shows "newest tm (old @ new) = Some (hd new)"
proof -
  let ?f = "\<lambda>r. - tm r"
  obtain x xs where s: "sort_key ?f (old @ new) = x # xs"
  proof (cases "sort_key ?f (old @ new)")
    case Nil
    then have "length (old @ new) = 0" by (metis length_sort list.size(3))
    with assms(3) show thesis by simp
  qed (rule that)
  have mem: "set (old @ new) = set (x # xs)"
    using set_sort [of ?f "old @ new"] s by simp
  have "filter (\<lambda>y. ?f y = - m) (x # xs) = filter (\<lambda>y. ?f y = - m) (old @ new)"
    using sort_key_stable [of ?f "- m" "old @ new"] s by simp
  moreover have "\<dots> = new"
    using assms(1,2) by (auto simp: list_all_iff filter_id_conv filter_empty_conv)
  moreover have "tm x = m"
  proof -
    have "sorted (map ?f (x # xs))"
      using sorted_sort_key [of ?f "old @ new"] s by simp
    moreover have "hd new \<in> set (x # xs)" "tm (hd new) = m"
      using mem assms(2,3) by (auto simp: list_all_iff)
    ultimately have "m \<le> tm x" by auto
    moreover have "tm x \<le> m"
      using mem assms(1,2) by (force simp: list_all_iff)
    ultimately show ?thesis by simp
  qed
  ultimately show ?thesis
    using assms(3) by (simp add: newest_def s) (metis list.sel(1))
qed

lemma newest_value_appended:
  assumes "list_all (\<lambda>x. fst x < m) old" and "list_all (\<lambda>x. fst x = m) new" and "new \<noteq> []" and "snd (hd new) = Some v"
  shows "newest_value (old @ new) = Inr (v, m)"
  using newest_appended [OF assms(1-3)] assms(2-4) by (cases new) (auto simp: newest_value_def)

lemma LatestValue_up:
  assumes "db_net s = []" and "host_named (tabs s) host = Some h" and "value_rows no_rows (h_id h) metric target isCustom \<noteq> None"
  shows "fst (LatestValue host metric target isCustom s) = newest_value (the (value_rows (tabs s) (h_id h) metric target isCustom))"
  using assms by (auto simp: LatestValue_def hostID_def query_def dbcall_def bindE_def split: sum.split)

lemma filter_rows: "list_all (\<lambda>x. key (f x) = hid) xs \<Longrightarrow> filter (\<lambda>r. key r = hid \<and> P r) (map f xs) = map f (filter (\<lambda>x. P (f x)) xs)"
  by (induction xs) auto

lemma hd_filter_find: "find P xs = Some x \<Longrightarrow> filter P xs \<noteq> [] \<and> hd (filter P xs) = x"
  by (induction xs) (auto split: if_splits)

lemma snapshot_value_rows:
  assumes "all_before hid moment t" and "snapshot_value d metric target = Some v"
  shows "newest_value (the (value_rows (snapshot_tables now moment hid d t) hid metric target False)) = Inr (v, moment)"
proof -
  note names = PROC_USAGE_def MEMORY_def SWAP_def DISKS_def SERVICES_def
  consider "metric \<in> {PROC_USAGE, MEMORY, SWAP}" | k where "metric = DISKS" "find (\<lambda>k. dk_FileSystem k = target) (md_Disk d) = Some k" "parsePercent (du_Usage (dk_Usage k)) = Some v"
    | x where "metric = SERVICES" "find (\<lambda>x. sv_Name x = target) (md_Services d) = Some x" "v = (if sv_Running x then Fin 1 else Fin 0)"
    using assms(2) by (auto simp: snapshot_value_def bind_eq_Some_conv split: if_splits)
  then show ?thesis
  proof cases
    case 1
    let ?r = "queueHostMetrics moment hid d"
    have r: "hm_host_id ?r = hid" "hm_time ?r = moment" "hm_cpu_pct ?r = Some (f_of_int (cpu_LoadAvg (md_ProcUsage d)))"
        "hm_mem_used_pct ?r = Some (mem_PercentageUsed (md_Memory d))" "hm_swap_used_pct ?r = Some (sw_PercentageUsed (md_Swap d))"
      by (simp_all add: queueHostMetrics_def Let_def)
    let ?old = "filter (\<lambda>r. hm_host_id r = hid) (db_host_metrics t)"
    have old: "list_all (\<lambda>x. fst x < moment) (map (\<lambda>r. (hm_time r, f r)) ?old)" for f :: "host_metric_row \<Rightarrow> float64 option"
      using assms(1) by (auto simp: all_before_def list_all_iff)
    have "newest_value (map (\<lambda>r. (hm_time r, f r)) ?old @ [(moment, Some v)]) = Inr (v, moment)" for f
      by (rule newest_value_appended [OF old]) simp_all
    with 1 assms(2) r show ?thesis
      by (elim insertE) (simp_all add: value_rows_def snapshot_value_def names snapshot_tables_def)
  next
    case 2
    let ?row = "\<lambda>k. (moment, parsePercent (du_Usage (dk_Usage k)))" and ?ks = "filter (\<lambda>k. dk_FileSystem k = target) (md_Disk d)"
    have "map (\<lambda>r. (dm_time r, dm_used_pct r)) (filter (\<lambda>r. dm_host_id r = hid \<and> dm_device r = target) (disk_rows moment hid d)) = map ?row ?ks"
      by (simp add: disk_rows_def filter_rows list_all_iff)
    moreover have "newest_value (map (\<lambda>r. (dm_time r, dm_used_pct r)) (filter (\<lambda>r. dm_host_id r = hid \<and> dm_device r = target) (db_disk_metrics t)) @ map ?row ?ks) = Inr (v, moment)"
      using assms(1) hd_filter_find [OF 2(2)] 2(3) by (intro newest_value_appended) (auto simp: all_before_def list_all_iff hd_map)
    ultimately show ?thesis
      using 2(1) by (simp add: value_rows_def names snapshot_tables_def)
  next
    case 3
    let ?row = "\<lambda>x. (moment, Some (if sv_Running x then Fin 1 else Fin 0))" and ?xs = "filter (\<lambda>x. sv_Name x = target) (md_Services d)"
    let ?val = "\<lambda>r. (sv_time r, Some (if sv_running r then Fin 1 else Fin 0))"
    have "map ?val (filter (\<lambda>r. sv_host_id r = hid \<and> sv_name r = target) (service_rows moment hid d)) = map ?row ?xs"
      by (simp add: service_rows_def filter_rows list_all_iff)
    moreover have "newest_value (map ?val (filter (\<lambda>r. sv_host_id r = hid \<and> sv_name r = target) (db_services t)) @ map ?row ?xs) = Inr (v, moment)"
      using assms(1) hd_filter_find [OF 3(2)] 3(3) by (intro newest_value_appended) (auto simp: all_before_def list_all_iff hd_map)
    ultimately show ?thesis
      using 3(1) by (simp add: value_rows_def names snapshot_tables_def)
  qed
qed

lemma stored_ok:
  assumes "HandleMonitorData unmarshal now a json s = (Inr msg, s')" and "unmarshal json = Inr d"
  obtains moment h where "parseUnixTime (md_UnixTime d) = Inr moment" "host_named (tabs s) (call_host a (md_ServerId d)) = Some h"
    "tabs s' = snapshot_tables now (timestamptz moment) (h_id h) (snapshot_from a d) (tabs s)"
  using stored_or_refused [OF assms(1)] assms(2) by (auto elim: snapshot_storedE)

lemma snapshot_value_from [simp]: "snapshot_value (snapshot_from a d) metric target = snapshot_value d metric target"
  by (simp add: snapshot_value_def snapshot_from_def)

lemma snapshot_value_metric:
  assumes "snapshot_value d metric target = Some v"
  shows "metric \<notin> {ENDPOINT, CERTIFICATE, DISK_FORECAST, PING}" and "\<not> IsKube metric" and "value_rows no_rows hid metric target False \<noteq> None"
proof -
  note names = PROC_USAGE_def MEMORY_def SWAP_def DISKS_def SERVICES_def
  have m: "metric \<in> {PROC_USAGE, MEMORY, SWAP, DISKS, SERVICES}"
    using assms by (auto simp: snapshot_value_def split: if_splits)
  then show "metric \<notin> {ENDPOINT, CERTIFICATE, DISK_FORECAST, PING}"
    by (auto simp: names ENDPOINT_def CERTIFICATE_def DISK_FORECAST_def PING_def)
  from m show "\<not> IsKube metric"
    by (auto simp: names IsKube_def KUBE_NODE_def KUBE_WORKLOAD_def KUBE_PENDING_def KUBE_RESTARTS_def)
  from m show "value_rows no_rows hid metric target False \<noteq> None"
    by (auto simp: value_rows_def Let_def)
qed

lemma LatestValue_answers:
  assumes "answers s" and "host_named (tabs s) host = Some h" and "value_rows no_rows (h_id h) metric target False \<noteq> None"
    and "newest_value (the (value_rows (tabs s) (h_id h) metric target False)) = Inr (v, m)"
  shows "\<exists>s'. LatestValue host metric target False s = (Inr (v, m), s') \<and> tabs s' = tabs s \<and> answers s'"
proof -
  from query_answers [OF assms(1), of "\<lambda>t. host_named t host"] obtain s1 where
    s1: "query (\<lambda>t. host_named t host) s = (Inr (Some h), s1)" "answers s1" "tabs s1 = tabs s" using assms(2) by auto
  from query_answers [OF s1(2), of "\<lambda>t. newest_value (the (value_rows t (h_id h) metric target False))"] obtain s2 where
    "query (\<lambda>t. newest_value (the (value_rows t (h_id h) metric target False))) s1 = (Inr (Inr (v, m)), s2)" "answers s2" "tabs s2 = tabs s"
    using assms(4) s1(3) by auto
  with s1 assms(3) show ?thesis
    by (auto simp: LatestValue_def hostID_def bindE_def)
qed

text \<open>C8. When a host's snapshot has been stored and nothing of that host is newer, the alert rules on its CPU, memory, swap, disks and services are
  checked with the values of that snapshot, at the snapshot's own time.\<close>

theorem snapshot_reaches_rules:
  assumes "HandleMonitorData unmarshal now authenticated json s = (Inr msg, s1)" and "unmarshal json = Inr d" and "parseUnixTime (md_UnixTime d) = Inr moment"
    and "host_named (tabs s) (call_host authenticated (md_ServerId d)) = Some h" and "all_before (h_id h) (timestamptz moment) (tabs s)"
    and "\<not> rule_IsCustom rule" and "snapshot_value d (rule_MetricName rule) (ruleTarget rule) = Some v" and "answers s1"
  shows "\<exists>s2. tabs s2 = tabs s1 \<and> answers s2 \<and>
    evaluate (alert_db regr now') notify now' rule (h_name h) (e\<lparr>ev_store := s1\<rparr>) =
      check (alert_db regr now') notify rule (h_name h) (ruleTarget rule) v (timestamptz moment) (e\<lparr>ev_store := s2\<rparr>)"
proof -
  let ?m = "rule_MetricName rule" and ?t = "ruleTarget rule" and ?host = "call_host authenticated (md_ServerId d)"
  have t1: "tabs s1 = snapshot_tables now (timestamptz moment) (h_id h) (snapshot_from authenticated d) (tabs s)"
    using assms(1-4) by (auto elim: stored_ok)
  have name: "h_name h = ?host" using assms(4) by (auto simp: host_named_def dest: find_SomeD)
  have h1: "host_named (tabs s1) ?host = Some (h\<lparr>h_last_seen := greatest (h_last_seen h) (timestamptz now)\<rparr>)"
    by (simp add: t1 host_named_seen assms(4))
  have "newest_value (the (value_rows (tabs s1) (h_id (h\<lparr>h_last_seen := greatest (h_last_seen h) (timestamptz now)\<rparr>)) ?m ?t False)) = Inr (v, timestamptz moment)"
    using snapshot_value_rows [OF assms(5), of "snapshot_from authenticated d" ?m ?t v now] assms(7) by (simp add: t1)
  from LatestValue_answers [OF assms(8) h1 snapshot_value_metric(3) [OF assms(7)] this]
  obtain s2 where "LatestValue ?host ?m ?t False s1 = (Inr (v, timestamptz moment), s2)" "tabs s2 = tabs s1" "answers s2"
    by blast
  with snapshot_value_metric(1,2) [OF assms(7)] assms(6) show ?thesis
    by (intro exI [of _ s2]) (simp add: evaluate_def latest_def or_no_data_def Evaluator.on_store_def alert_db_def name Let_def)
qed

lemma example_answers: "answers example_stored"
  by (simp add: answers_def example_stored_def example_net)

theorem snapshot_reaches_rules_witness:
  "\<exists>s2. tabs s2 = tabs example_stored \<and> answers s2 \<and>
    evaluate (alert_db (\<lambda>_. (None, None)) 0) (queue_notifier 0) 0 example_service_rule ''web'' (newEvaluator example_stored) =
      check (alert_db (\<lambda>_. (None, None)) 0) (queue_notifier 0) example_service_rule ''web'' ''nginx'' (Fin 0) (timestamptz (time_Unix 100)) (newEvaluator s2)"
proof -
  have h: "host_named (tabs example_db) (call_host (Some ''web'') (md_ServerId (example_data ''100''))) = Some (new_host 1 ''web'' ''UTC'')"
    using example_host by (simp add: call_host_def)
  have before: "all_before (h_id (new_host 1 ''web'' ''UTC'')) (timestamptz (time_Unix 100)) (tabs example_db)"
    by (simp add: all_before_def example_db_def no_rows_def)
  have rule: "\<not> rule_IsCustom example_service_rule" "ruleTarget example_service_rule = ''nginx''" by code_simp+
  have v: "snapshot_value (example_data ''100'') (rule_MetricName example_service_rule) (ruleTarget example_service_rule) = Some (Fin 0)"
    unfolding rule(2) by (simp add: snapshot_value_def example_service_rule_def example_data_def PROC_USAGE_def MEMORY_def SWAP_def DISKS_def SERVICES_def)
  have new: "(newEvaluator s)\<lparr>ev_store := s'\<rparr> = newEvaluator s'" for s s' :: db
    by (simp add: newEvaluator_def)
  have read: "example_read ''100'' = Inr (example_data ''100'')" by (simp add: example_read_def)
  have time: "parseUnixTime (md_UnixTime (example_data ''100'')) = Inr (time_Unix 100)" by (simp add: example_times)
  show ?thesis
    using snapshot_reaches_rules [OF example_served read time h before rule(1) v example_answers, of "\<lambda>_. (None, None)" 0 "queue_notifier 0" "newEvaluator example_stored"]
    by (simp add: new rule(2) new_host_def)
qed

section \<open>What a scraper reads of it\<close>

lemma first_value_other_host:
  assumes "list_all (about_host host) ss" and "hd l = (''host'', host')" and "host' \<noteq> host"
  shows "first_value ss n l = None"
  using assms by (induction ss) (auto simp: about_host_def)

lemma first_value_one_host:
  assumes "distinct (map key xs)" and "\<And>x. list_all (about_host (key x)) (f x)" and "x \<in> set xs" and "hd l = (''host'', key x)"
  shows "first_value (concat (map f xs)) n l = first_value (f x) n l"
  using assms(1,3)
proof (induction xs)
  case (Cons y ys)
  have none: "first_value (concat (map f zs)) n l = None" if "key x \<notin> set (map key zs)" for zs
    using that first_value_other_host [OF assms(2,4)] by (induction zs) (auto simp: first_value_append)
  show ?case
  proof (cases "y = x")
    case True
    with Cons.prems none [of ys] show ?thesis by (auto simp: first_value_append split: option.split)
  next
    case False
    with Cons.prems have "x \<in> set ys" "key y \<notin> key ` set ys" by auto
    then have "key x \<noteq> key y" by (metis image_eqI)
    with Cons False first_value_other_host [OF assms(2,4), of y] show ?thesis by (auto simp: first_value_append)
  qed
qed simp

lemma about_page_samples: "list_all (about_host (hp_Host h)) (host_page_samples h)"
  by (simp add: host_page_samples_def about_addHostMetrics split: option.split)

definition custom_names :: "string list" where
  "custom_names = [''symon_custom_metric'', ''symon_custom_metric_timestamp_seconds'']"

lemma first_value_custom: "n \<notin> set custom_names \<Longrightarrow> first_value (concat (map (custom_page_samples up) customs)) n l = None"
proof (induction customs)
  case (Cons c cs)
  then have "first_value (custom_page_samples up c) n l = None"
    by (simp add: custom_page_samples_def gauge_def custom_names_def)
  with Cons show ?case by (simp add: first_value_append)
qed simp

lemma first_value_page:
  assumes "distinct (map hp_Host hosts)" and "h \<in> set hosts" and "hd l = (''host'', hp_Host h)" and "n \<notin> set custom_names"
  shows "first_value (page_samples (hosts, customs)) n l = first_value (host_page_samples h) n l"
  using first_value_one_host [OF assms(1), of host_page_samples h l n] about_page_samples assms(2-4)
  by (simp add: page_samples_def Let_def first_value_append first_value_custom split: option.split)

lemma addHostMetrics_from [simp]: "addHostMetrics host (snapshot_from a d) = addHostMetrics host d"
  by (simp add: addHostMetrics_def snapshot_from_def)

lemma FormatFloat_one: "FormatFloat (Fin 1) = ''1''"
proof -
  have d: "decimal 1 = ''1''" by code_simp
  have "dec_point 1 = 1" by (simp add: dec_point_def d)
  then have "digits_of 1 1 = Some 1"
    by (simp add: digits_of_def pow_of_def Let_def round_half_even_def)
  then show ?thesis
    by (simp add: shortest_def \<open>dec_point 1 = 1\<close> d upt_rec fmtF_def TrimRight_def)
qed

lemma sorted_hosts: "set (sort_key h_name hs) = set hs" "distinct (map h_name hs) \<Longrightarrow> distinct (map h_name (sort_key h_name hs))"
  by (simp_all add: distinct_map)

lemma Snapshots_hosts:
  assumes "api_Snapshots rollup now s = (Inr response, s')"
  obtains customs where "response = (map (host_snapshot now \<circ> latest_snapshot_of (tabs s)) (sort_key h_name (db_hosts (tabs s))), customs)"
proof -
  obtain hosts s1 vs where "map_err toStatus LatestSnapshots s = (Inr hosts, s1)" "response = (map (host_snapshot now) hosts, map api_custom_value vs)"
    using assms unfolding api_Snapshots_def by (auto elim!: bindE_InrE)
  moreover from this(1) have "hosts = map (latest_snapshot_of (tabs s)) (sort_key h_name (db_hosts (tabs s)))"
    unfolding LatestSnapshots_def by (auto simp: map_err_def split: prod.splits sum.splits elim: query_cases)
  ultimately show thesis by (intro that) simp
qed

lemma up_soon:
  assumes "0 < timestamptz now" and "now \<le> later" and "later \<le> now + Minute"
  shows "isUp (time_or_zero (greatest old (timestamptz now))) later"
proof -
  let ?t = "timestamptz now" and ?seen = "time_or_zero (greatest old (timestamptz now))"
  have t: "now - 1000 < ?t" "?t \<le> now" unfolding timestamptz_def by (simp_all add: minus_mod_eq_div_mult [symmetric])
  have seen: "?t \<le> ?seen" by (simp add: greatest_def time_or_zero_def split: option.split)
  have "later - ?seen \<le> UpWindow"
    using t seen assms(3) by (simp add: UpWindow_def Minute_def Second_def)
  moreover have "(0::int) < UpWindow" by (simp add: UpWindow_def Second_def)
  ultimately have "time_sub later ?seen \<le> UpWindow"
    by (simp add: time_sub_def UpWindow_def Second_def)
  moreover have "?seen \<noteq> zero_time" using seen assms(1) by (simp add: zero_time_def)
  ultimately show ?thesis by (simp add: isUp_def)
qed



end
