(* ===== verification/EndpointChecks.thy ===== *)
theory EndpointChecks
  imports Ingested StoreRules
begin

text \<open>
  Checking endpoints: collector/endpoints.go. The network is a parameter: what a request gets, with the CA certificate file the client was told to trust, and how
  long it took. The checks of one round run side by side; \<open>order\<close> is the order in which they are done.
\<close>

section \<open>One check\<close>

text \<open>An answer: the status code, and when the certificate of a TLS connection runs out.\<close>

record answer =
  an_StatusCode :: int
  an_NotAfter :: "time option"
  an_Latency :: duration

text \<open>A request: method, address, the body of a POST, the content type that is set, and the CA certificates to trust instead of the system's.\<close>

type_synonym endpoint_request = "string \<times> string \<times> string option \<times> string option \<times> string option"

record endpoint_world =
  ew_ReadFile :: "string \<Rightarrow> string result"
  ew_has_certificates :: "string \<Rightarrow> bool"
  ew_NewRequest :: "string \<Rightarrow> string \<Rightarrow> error option"
  ew_Do :: "endpoint_request \<Rightarrow> answer result"
  ew_Error :: "error \<Rightarrow> string"

definition endpointClient :: "endpoint_world \<Rightarrow> AlertConfig \<Rightarrow> string option result" where
  "endpointClient w rule =
     (if TrimSpace (rule_CustomCACert rule) = [] then Inr None
      else case ew_ReadFile w (rule_CustomCACert rule) of
        Inl e \<Rightarrow> Inl e
      | Inr pem \<Rightarrow> if \<not> ew_has_certificates w pem then Inl (err_text (''no certificates in '' @ rule_CustomCACert rule)) else Inr (Some pem))"

definition check_method :: "AlertConfig \<Rightarrow> string" where
  "check_method rule = (let method = ToUpper (TrimSpace (rule_Method rule)) in if method = [] then ''GET'' else method)"

definition collector_checkEndpoint :: "endpoint_world \<Rightarrow> AlertConfig \<Rightarrow> time \<Rightarrow> EndpointCheck" where
  "collector_checkEndpoint w rule now =
     (let method = check_method rule;
          check = \<lparr>ck_Time = now, ck_Name = rule_Name rule, ck_URL = rule_Endpoint rule, ck_Method = method, ck_StatusCode = 0, ck_OK = False,
            ck_Latency = 0, ck_Error = [], ck_CertExpires = zero_time\<rparr>
      in case endpointClient w rule of
        Inl e \<Rightarrow> check\<lparr>ck_Error := ew_Error w e\<rparr>
      | Inr ca \<Rightarrow>
          (case ew_NewRequest w method (rule_Endpoint rule) of
             Some e \<Rightarrow> check\<lparr>ck_Error := ew_Error w e\<rparr>
           | None \<Rightarrow>
               let post = (method = ''POST'');
                   request = (method, rule_Endpoint rule, if post then Some (rule_POSTBody rule) else None,
                     if post \<and> rule_POSTContentType rule \<noteq> [] then Some (rule_POSTContentType rule) else None, ca)
               in case ew_Do w request of
                 Inl e \<Rightarrow> check\<lparr>ck_Error := ew_Error w e\<rparr>
               | Inr a \<Rightarrow> check\<lparr>ck_Latency := an_Latency a, ck_CertExpires := time_or_zero (an_NotAfter a), ck_StatusCode := an_StatusCode a,
                   ck_OK := (an_StatusCode a = expectedCode rule)\<rparr>))"

section \<open>A round\<close>

definition save_checks :: "(AlertConfig \<Rightarrow> EndpointCheck) \<Rightarrow> AlertConfig list \<Rightarrow> db \<Rightarrow> db" where
  "save_checks made rules s = foldl (\<lambda>s rule. snd (SaveEndpointCheck (made rule) s)) s rules"

text \<open>\<open>checkAll\<close>: \<open>order\<close> puts the rules in the order their checks are saved, \<open>clock\<close> says when each was started. Errors are logged.\<close>

definition checkAll :: "endpoint_world \<Rightarrow> (AlertConfig list \<Rightarrow> AlertConfig list) \<Rightarrow> (AlertConfig \<Rightarrow> time) \<Rightarrow> db \<Rightarrow> db" where
  "checkAll w order clock s = (case EnabledRules s of
     (Inl _, s') \<Rightarrow> s'
   | (Inr rules, s') \<Rightarrow> save_checks (\<lambda>rule. collector_checkEndpoint w rule (clock rule)) (order (filter (\<lambda>rule. rule_MetricName rule = ENDPOINT) rules)) s')"

section \<open>What the rules see\<close>

definition check_row_of :: "EndpointCheck \<Rightarrow> check_row" where
  "check_row_of ck = (let answered = (ck_StatusCode ck \<noteq> 0) in
     \<lparr>ec_time = timestamptz (ck_Time ck), ec_name = ck_Name ck, ec_url = ck_URL ck, ec_method = ck_Method ck,
      ec_status_code = (if answered then Some (ck_StatusCode ck) else None), ec_ok = ck_OK ck,
      ec_latency_ms = (if answered then Some (f_div (f_of_int (ck_Latency ck)) (f_of_int Millisecond)) else None), ec_error = ck_Error ck,
      ec_cert_expires_at = (if ck_CertExpires ck = zero_time then None else Some (timestamptz (ck_CertExpires ck)))\<rparr>)"

lemma SaveEndpointCheck_row: "SaveEndpointCheck ck = exec (\<lambda>t. ((), t\<lparr>db_checks := db_checks t @ [check_row_of ck]\<rparr>))"
  by (simp add: SaveEndpointCheck_def check_row_of_def Let_def)

lemma save_checks_answers:
  assumes "answers s"
  shows "answers (save_checks made rules s) \<and> tabs (save_checks made rules s) = (tabs s)\<lparr>db_checks := db_checks (tabs s) @ map (check_row_of \<circ> made) rules\<rparr>"
  using assms
proof (induction rules arbitrary: s)
  case (Cons r rules)
  from exec_answers [OF Cons.prems, of "\<lambda>t. ((), t\<lparr>db_checks := db_checks t @ [check_row_of (made r)]\<rparr>)"] obtain s1 where
    "SaveEndpointCheck (made r) s = (Inr (), s1)" "answers s1" "tabs s1 = (tabs s)\<lparr>db_checks := db_checks (tabs s) @ [check_row_of (made r)]\<rparr>"
    by (auto simp: SaveEndpointCheck_row)
  with Cons.IH [of s1] show ?case by (simp add: save_checks_def)
qed (simp add: save_checks_def)

lemma collector_checkEndpoint_fields: "ck_Name (collector_checkEndpoint w rule now) = rule_Name rule" "ck_Time (collector_checkEndpoint w rule now) = now"
  by (simp_all add: collector_checkEndpoint_def Let_def split: sum.split option.split)

lemma collector_checkEndpoint_ok: "ck_OK (collector_checkEndpoint w rule now) \<longleftrightarrow> ck_StatusCode (collector_checkEndpoint w rule now) = expectedCode rule"
proof -
  have "expectedCode rule \<noteq> 0" by (simp add: expectedCode_def)
  then show ?thesis by (auto simp: collector_checkEndpoint_def Let_def split: sum.split option.split)
qed

lemma row_of_check: "ec_name (check_row_of c) = ck_Name c" "ec_time (check_row_of c) = timestamptz (ck_Time c)"
    "ck_StatusCode (check_of_row (check_row_of c)) = ck_StatusCode c" "ck_Time (check_of_row (check_row_of c)) = timestamptz (ck_Time c)"
    "ck_Error (check_of_row (check_row_of c)) = ck_Error c"
  by (simp_all add: check_row_of_def check_of_row_def Let_def)

lemma one_named:
  assumes "distinct (map f xs)" and "x \<in> set xs"
  shows "filter (\<lambda>y. f y = f x) xs = [x]"
  using assms
proof (induction xs)
  case (Cons y ys)
  show ?case
  proof (cases "x = y")
    case True
    have "f z \<noteq> f x" if "z \<in> set ys" for z
      using that Cons.prems(1) True by (auto simp: image_iff)
    then have "filter (\<lambda>z. f z = f x) ys = []" by (simp add: filter_empty_conv)
    with True show ?thesis by simp
  next
    case False
    with Cons.prems have "x \<in> set ys" "f y \<noteq> f x" by (auto simp: image_iff)
    with Cons show ?thesis by simp
  qed
qed simp

lemma checkAll_latest:
  assumes "answers s" and "EnabledRules s = (Inr rules, s0)" and "rule \<in> set rules" and "rule_MetricName rule = ENDPOINT" and "distinct (map rule_Name rules)"
    and "mset (order (filter (\<lambda>r. rule_MetricName r = ENDPOINT) rules)) = mset (filter (\<lambda>r. rule_MetricName r = ENDPOINT) rules)"
    and "list_all (\<lambda>c. ec_name c = rule_Name rule \<longrightarrow> ec_time c < timestamptz (clock rule)) (db_checks (tabs s))"
  shows "answers (checkAll w order clock s) \<and>
    newest ec_time (filter (\<lambda>c. ec_name c = rule_Name rule) (db_checks (tabs (checkAll w order clock s)))) = Some (check_row_of (collector_checkEndpoint w rule (clock rule)))"
proof -
  let ?es = "filter (\<lambda>r. rule_MetricName r = ENDPOINT) rules" and ?made = "\<lambda>r. collector_checkEndpoint w r (clock r)"
  from query_answers [OF assms(1), of "\<lambda>t. map rule_of_row (filter r_enabled (sort_key r_name (db_rules t)))"] assms(2)
  have s0: "answers s0" "tabs s0 = tabs s" by (auto simp: EnabledRules_def bindE_def)
  have run: "checkAll w order clock s = save_checks ?made (order ?es) s0" by (simp add: checkAll_def assms(2))
  have names: "distinct (map rule_Name (order ?es))"
    using assms(5,6) by (metis distinct_map_filter mset_eq_imp_distinct_iff mset_map)
  have "rule \<in> set (order ?es)" using assms(3,4) mset_eq_setD [OF assms(6)] by simp
  from one_named [OF names this] have "filter (\<lambda>c. ec_name c = rule_Name rule) (map (check_row_of \<circ> ?made) (order ?es)) = [check_row_of (?made rule)]"
    by (simp add: filter_map comp_def row_of_check collector_checkEndpoint_fields)
  moreover have "newest ec_time (filter (\<lambda>c. ec_name c = rule_Name rule) (db_checks (tabs s)) @ [check_row_of (?made rule)]) = Some (hd [check_row_of (?made rule)])"
    using assms(7) by (intro newest_appended [of _ "timestamptz (clock rule)"]) (auto simp: list_all_iff row_of_check collector_checkEndpoint_fields)
  ultimately show ?thesis
    using save_checks_answers [OF s0(1), of ?made "order ?es"] by (simp add: run s0(2))
qed

text \<open>C13. After a round of endpoint checks, an enabled endpoint rule is evaluated with what its own request just got, at the time of the check: it is normal exactly
  when the endpoint answered with the code the rule expects, and critical when it answered with another one, did not answer, or could not be asked.\<close>

theorem endpoint_round_reaches_rules:
  assumes "answers s" and "EnabledRules s = (Inr rules, s0)" and "rule \<in> set rules" and "rule_MetricName rule = ENDPOINT" and "distinct (map rule_Name rules)"
    and "mset (order (filter (\<lambda>r. rule_MetricName r = ENDPOINT) rules)) = mset (filter (\<lambda>r. rule_MetricName r = ENDPOINT) rules)"
    and "list_all (\<lambda>c. ec_name c = rule_Name rule \<longrightarrow> ec_time c < timestamptz (clock rule)) (db_checks (tabs s))"
    and "made = collector_checkEndpoint w rule (clock rule)" and "\<bar>ck_StatusCode made\<bar> < 2 ^ 53"
  shows "(\<exists>s2. tabs s2 = tabs (checkAll w order clock s) \<and> answers s2 \<and>
      evaluate (alert_db regr now') notify now' rule [] (e\<lparr>ev_store := checkAll w order clock s\<rparr>) =
        check (alert_db regr now') notify rule [] (rule_Endpoint rule) (f_of_int (ck_StatusCode made)) (timestamptz (clock rule))
          (e\<lparr>ev_store := s2, checkErrors := (checkErrors e)(rule_Name rule \<mapsto> ck_Error made)\<rparr>)) \<and>
    ruleStatus rule (f_of_int (ck_StatusCode made)) = (if ck_OK made then Normal else Critical)"
proof -
  let ?s1 = "checkAll w order clock s"
  note stored = checkAll_latest [of s rules s0 rule order clock w, OF assms(1-7)]
  from query_answers [of ?s1 "\<lambda>t. newest ec_time (filter (\<lambda>c. ec_name c = rule_Name rule) (db_checks t))"] stored obtain s2 where
    s2: "LatestEndpointCheck (rule_Name rule) ?s1 = (Inr (check_of_row (check_row_of made)), s2)" "answers s2" "tabs s2 = tabs ?s1"
    by (auto simp: LatestEndpointCheck_def bindE_def assms(8))
  have target: "ruleTarget rule = rule_Endpoint rule" "\<not> IsKube ENDPOINT"
    using assms(4) by (simp_all add: ruleTarget_def IsKube_def ENDPOINT_def CERTIFICATE_def DISKS_def DISK_FORECAST_def SERVICES_def KUBE_NODE_def
        KUBE_WORKLOAD_def KUBE_PENDING_def KUBE_RESTARTS_def)
  have "evaluate (alert_db regr now') notify now' rule [] (e\<lparr>ev_store := ?s1\<rparr>) =
        check (alert_db regr now') notify rule [] (rule_Endpoint rule) (f_of_int (ck_StatusCode made)) (timestamptz (clock rule))
          (e\<lparr>ev_store := s2, checkErrors := (checkErrors e)(rule_Name rule \<mapsto> ck_Error made)\<rparr>)"
    using s2(1) assms(4) by (simp add: evaluate_def target latest_def or_no_data_def Evaluator.on_store_def alert_db_def Let_def bindE_def modify_def
        row_of_check collector_checkEndpoint_fields assms(8))
  moreover have "f_to_int (f_of_int (ck_StatusCode made)) = ck_StatusCode made"
    using assms(9) by (auto simp: f_of_int_small int64_def Let_def)
  ultimately show ?thesis
    using s2 assms(4) collector_checkEndpoint_ok [of w rule "clock rule"] by (auto simp: ruleStatus_def assms(8))
qed

text \<open>An example: one endpoint that answers 503.\<close>

definition example_endpoint :: AlertConfig where
  "example_endpoint = zero_rule\<lparr>rule_Name := ''shop'', rule_MetricName := ENDPOINT, rule_Endpoint := ''https://shop.example''\<rparr>"

definition example_endpoint_db :: db where
  "example_endpoint_db = \<lparr>db_net = [], db_seq = (\<lambda>_. 5), tabs = no_rows\<lparr>db_rules :=
     [\<lparr>r_id = 1, r_name = ''shop'', r_rule = example_endpoint, r_enabled = True, r_updated_at = 0, r_updated_by = []\<rparr>]\<rparr>\<rparr>"

definition example_outage :: endpoint_world where
  "example_outage = \<lparr>ew_ReadFile = (\<lambda>_. Inl ErrNotFound), ew_has_certificates = (\<lambda>_. False), ew_NewRequest = (\<lambda>_ _. None),
     ew_Do = (\<lambda>_. Inr \<lparr>an_StatusCode = 503, an_NotAfter = None, an_Latency = 5\<rparr>), ew_Error = (\<lambda>_. [])\<rparr>"

lemma example_outage_check: "ck_StatusCode (collector_checkEndpoint example_outage example_endpoint t) = 503" "\<not> ck_OK (collector_checkEndpoint example_outage example_endpoint t)"
proof -
  have "TrimSpace (rule_CustomCACert example_endpoint) = []" "expectedCode example_endpoint = 200" by code_simp+
  then show "ck_StatusCode (collector_checkEndpoint example_outage example_endpoint t) = 503" "\<not> ck_OK (collector_checkEndpoint example_outage example_endpoint t)"
    by (simp_all add: collector_checkEndpoint_def endpointClient_def example_outage_def Let_def)
qed

theorem endpoint_round_reaches_rules_witness:
  "(\<exists>s2. tabs s2 = tabs (checkAll example_outage (\<lambda>rs. rs) (\<lambda>_. time_Unix 100) example_endpoint_db) \<and> answers s2 \<and>
      evaluate (alert_db (\<lambda>_. (None, None)) 0) (queue_notifier 0) 0 example_endpoint [] (newEvaluator (checkAll example_outage (\<lambda>rs. rs) (\<lambda>_. time_Unix 100) example_endpoint_db)) =
        check (alert_db (\<lambda>_. (None, None)) 0) (queue_notifier 0) example_endpoint [] ''https://shop.example'' (Fin 503) (timestamptz (time_Unix 100))
          ((newEvaluator s2)\<lparr>checkErrors := (checkErrors (newEvaluator s2))(''shop'' \<mapsto> ck_Error (collector_checkEndpoint example_outage example_endpoint (time_Unix 100)))\<rparr>)) \<and>
    ruleStatus example_endpoint (Fin 503) = Critical"
proof -
  have up: "answers example_endpoint_db" by (simp add: answers_def example_endpoint_db_def)
  have rules: "EnabledRules example_endpoint_db = (Inr [example_endpoint], example_endpoint_db)"
    by (simp add: EnabledRules_def query_def dbcall_def bindE_def example_endpoint_db_def rule_of_row_def)
  have rule: "rule_MetricName example_endpoint = ENDPOINT" "rule_Endpoint example_endpoint = ''https://shop.example''" "rule_Name example_endpoint = ''shop''"
    by (simp_all add: example_endpoint_def)
  have none: "db_checks (tabs example_endpoint_db) = []" by (simp add: example_endpoint_db_def no_rows_def)
  have new: "(newEvaluator s)\<lparr>ev_store := s'\<rparr> = newEvaluator s'" for s s' :: db
    by (simp add: newEvaluator_def)
  have errs: "checkErrors (newEvaluator s) = Map.empty" for s :: db
    by (simp add: newEvaluator_def)
  let ?m = "collector_checkEndpoint example_outage example_endpoint (time_Unix 100)"
  have "\<bar>ck_StatusCode ?m\<bar> < 2 ^ 53" by (simp add: example_outage_check)
  from endpoint_round_reaches_rules [of example_endpoint_db "[example_endpoint]" example_endpoint_db example_endpoint "\<lambda>rs. rs" "\<lambda>_. time_Unix 100" ?m example_outage
      "\<lambda>_. (None, None)" 0 "queue_notifier 0" "newEvaluator (checkAll example_outage (\<lambda>rs. rs) (\<lambda>_. time_Unix 100) example_endpoint_db)",
      OF up rules _ rule(1) _ _ _ refl this]
  show ?thesis
    by (simp add: example_outage_check none rule new errs)
qed

end
