(* ===== verification/KubeClient.thy ===== *)
theory KubeClient
  imports Kube Api
begin

text \<open>
  internal/kube/client.go: reading a cluster from its API. What the HTTP client did with a request, and what decoding JSON gave, are arguments; a request's
  error is the cause, without the \<open>url.Error\<close> around it. A list comes in pages, and the server decides whether there is another one, so that reading it
  gives an option.
\<close>

section \<open>Requests\<close>

record api_answer =
  ap_StatusCode :: int
  ap_Status :: string
  ap_Body :: string

record 'a list_page =
  pg_Continue :: string
  pg_Items :: "'a list"

record 's kubeAPI =
  ka_Do :: "string \<Rightarrow> string \<Rightarrow> (api_answer, 's) act"
  ka_nodes :: "string \<Rightarrow> apiNode list_page result"
  ka_pods :: "string \<Rightarrow> apiPod list_page result"
  ka_replicated :: "string \<Rightarrow> apiReplicated list_page result"
  ka_daemonSets :: "string \<Rightarrow> apiDaemonSet list_page result"
  ka_events :: "string \<Rightarrow> apiEvent list_page result"
  ka_status :: "string \<Rightarrow> string result"

text \<open>The message of a Status reply, from the first 64 KiB of the body.\<close>

definition statusMessage :: "(string \<Rightarrow> string result) \<Rightarrow> string \<Rightarrow> string" where
  "statusMessage decode body = (case decode (take (64 * 1024) body) of
     Inl _ \<Rightarrow> []
   | Inr message \<Rightarrow>
       if message = [] then []
       else '': '' @ (if length message > 200 then take 200 message @ ellipsis else message))"

definition kube_get :: "(string \<Rightarrow> string \<Rightarrow> (api_answer, 's) act) \<Rightarrow> (string \<Rightarrow> string result) \<Rightarrow> (string \<Rightarrow> 'a result) \<Rightarrow> string \<Rightarrow> string \<Rightarrow> string \<Rightarrow> ('a, 's) act" where
  "kube_get Do status decode base token pathAndQuery s =
     (let path = takeWhile (\<lambda>c. c \<noteq> CHR ''?'') pathAndQuery in
      case Do token (base @ pathAndQuery) s of
        (Inl e, s') \<Rightarrow> (Inl (ErrWrap ''cannot reach the API for %s: %w'' [path] e), s')
      | (Inr resp, s') \<Rightarrow>
          (if ap_StatusCode resp \<noteq> 200 then Inl (ErrText ''the API answered %s for %s%s'' [ap_Status resp, path, statusMessage status (ap_Body resp)])
           else case decode (ap_Body resp) of Inl e \<Rightarrow> Inl (ErrWrap ''cannot decode %s: %w'' [path] e) | Inr page \<Rightarrow> Inr page, s'))"

text \<open>\<open>url.QueryEscape\<close>\<close>

definition hex_digit :: "nat \<Rightarrow> char" where
  "hex_digit n = ''0123456789ABCDEF'' ! (n mod 16)"

definition escape_char :: "char \<Rightarrow> string" where
  "escape_char c = (if letter_digit c \<or> c \<in> set ''-.~'' \<or> c = CHR 0x5F then [c]
     else if c = CHR 0x20 then ''+''
     else [CHR 0x25, hex_digit (of_char c div 16), hex_digit (of_char c)])"

definition QueryEscape :: "string \<Rightarrow> string" where
  "QueryEscape s = concat (map escape_char s)"

definition listLimit :: int where
  "listLimit = 500"

text \<open>The query of a page: \<open>url.Values.Encode\<close> sorts by key.\<close>

definition list_query :: "string \<Rightarrow> string \<Rightarrow> string" where
  "list_query next fieldSelector =
     (if next \<noteq> [] then ''continue='' @ QueryEscape next @ ''&'' else []) @
     (if fieldSelector \<noteq> [] then ''fieldSelector='' @ QueryEscape fieldSelector @ ''&'' else []) @ ''limit='' @ Itoa listLimit"

definition page_url :: "string \<Rightarrow> string \<Rightarrow> string \<Rightarrow> string" where
  "page_url path fieldSelector next = path @ ''?'' @ list_query next fieldSelector"

partial_function (option) list_from ::
  "(string \<Rightarrow> ('a list_page, 's) act) \<Rightarrow> string \<Rightarrow> string \<Rightarrow> string \<Rightarrow> 'a list \<Rightarrow> 's \<Rightarrow> ('a list result \<times> 's) option" where
  "list_from get path fieldSelector next items s = (case get (page_url path fieldSelector next) s of
     (Inl e, s') \<Rightarrow> Some (Inl e, s')
   | (Inr page, s') \<Rightarrow>
       (let items' = items @ pg_Items page in
        if pg_Continue page = [] then Some (Inr items', s')
        else list_from get path fieldSelector (pg_Continue page) items' s'))"

definition kube_list ::
  "'s kubeAPI \<Rightarrow> (string \<Rightarrow> 'a list_page result) \<Rightarrow> string \<Rightarrow> string \<Rightarrow> string \<Rightarrow> string \<Rightarrow> 's \<Rightarrow> ('a list result \<times> 's) option" where
  "kube_list api decode base token path fieldSelector s =
     list_from (kube_get (ka_Do api) (ka_status api) decode base token) path fieldSelector [] [] s"

section \<open>Reading the cluster\<close>

text \<open>The next step of a run that may not return, or may have failed.\<close>

definition bindP :: "('s \<Rightarrow> ('a result \<times> 's) option) \<Rightarrow> ('a \<Rightarrow> 's \<Rightarrow> ('b result \<times> 's) option) \<Rightarrow> 's \<Rightarrow> ('b result \<times> 's) option" where
  "bindP m k s = (case m s of None \<Rightarrow> None | Some (Inl e, s') \<Rightarrow> Some (Inl e, s') | Some (Inr a, s') \<Rightarrow> k a s')"

definition cluster_of ::
  "(string \<Rightarrow> float64 option) \<Rightarrow> time \<Rightarrow> apiNode list \<Rightarrow> apiPod list \<Rightarrow> apiReplicated list \<Rightarrow> apiReplicated list \<Rightarrow> apiDaemonSet list \<Rightarrow> apiEvent list \<Rightarrow> ClusterState" where
  "cluster_of parse now nodes pods deployments statefulSets daemonSets events =
     zero_state\<lparr>cs_Nodes := map (node_of parse) nodes,
       cs_Workloads := map (\<lambda>d. replicated_workload d ''deployment'') deployments @ map (\<lambda>d. replicated_workload d ''statefulset'') statefulSets @
         map daemonset_workload daemonSets,
       cs_Pods := map pod_of pods, cs_Events := warningEvents events now\<rparr>"

text \<open>\<open>raw\<close> is what reading the token file gave.\<close>

definition kube_read ::
  "'s kubeAPI \<Rightarrow> (string \<Rightarrow> float64 option) \<Rightarrow> string \<Rightarrow> string \<Rightarrow> string result \<Rightarrow> time \<Rightarrow> 's \<Rightarrow> (ClusterState result \<times> 's) option" where
  "kube_read api parse base tokenPath raw now s = (case raw of
     Inl e \<Rightarrow> Some (Inl (ErrWrap ''cannot read the token: %w'' [] e), s)
   | Inr content \<Rightarrow>
       (let token = TrimSpace content in
        if token = [] then Some (Inl (ErrText ''the token file %s is empty'' [tokenPath]), s)
        else
          bindP (kube_list api (ka_nodes api) base token ''/api/v1/nodes'' []) (\<lambda>nodes.
          bindP (kube_list api (ka_pods api) base token ''/api/v1/pods'' []) (\<lambda>pods.
          bindP (kube_list api (ka_replicated api) base token ''/apis/apps/v1/deployments'' []) (\<lambda>deployments.
          bindP (kube_list api (ka_replicated api) base token ''/apis/apps/v1/statefulsets'' []) (\<lambda>statefulSets.
          bindP (kube_list api (ka_daemonSets api) base token ''/apis/apps/v1/daemonsets'' []) (\<lambda>daemonSets.
          bindP (kube_list api (ka_events api) base token ''/api/v1/events'' ''type=Warning'') (\<lambda>events.
          \<lambda>s. Some (Inr (cluster_of parse now nodes pods deployments statefulSets daemonSets events), s))))))) s))"

definition kube_Read ::
  "(error \<Rightarrow> string) \<Rightarrow> 's kubeAPI \<Rightarrow> (string \<Rightarrow> float64 option) \<Rightarrow> string \<Rightarrow> string \<Rightarrow> string result \<Rightarrow> string \<Rightarrow> time \<Rightarrow> 's \<Rightarrow> (ClusterState \<times> 's) option" where
  "kube_Read Error api parse base tokenPath raw cluster now s = (case kube_read api parse base tokenPath raw now s of
     None \<Rightarrow> None
   | Some (Inl e, s') \<Rightarrow> Some (zero_state\<lparr>cs_Cluster := cluster, cs_Time := time_toUnix now, cs_Error := Error e\<rparr>, s')
   | Some (Inr state, s') \<Rightarrow> Some (state\<lparr>cs_Cluster := cluster, cs_Time := time_toUnix now\<rparr>, s'))"

section \<open>Lists are read whole\<close>

text \<open>
  What the API promises of a list: a request gets a page of the list from where its continue token says, with the token of the next page when there is more. The
  page can have any size the server likes, and the list stays as it was while it is read.
\<close>

definition serves_list :: "(string \<Rightarrow> ('a list_page, 's) act) \<Rightarrow> string \<Rightarrow> string \<Rightarrow> nat \<Rightarrow> (nat \<Rightarrow> string) \<Rightarrow> 'a list \<Rightarrow> 's \<Rightarrow> bool" where
  "serves_list get path fieldSelector n token xs s \<longleftrightarrow> 0 < n \<and> token 0 = [] \<and> (\<forall>k. 0 < k \<longrightarrow> token k \<noteq> []) \<and>
     (\<forall>k \<le> length xs. get (page_url path fieldSelector (token k)) s =
        (Inr \<lparr>pg_Continue = (if k + n < length xs then token (k + n) else []), pg_Items = take n (drop k xs)\<rparr>, s))"

lemma list_from_whole:
  assumes "serves_list get path fieldSelector n token xs s" and "k \<le> length xs"
  shows "list_from get path fieldSelector (token k) items s = Some (Inr (items @ drop k xs), s)"
  using assms(2)
proof (induction "length xs - k" arbitrary: k items rule: less_induct)
  case less
  have n: "0 < n" "token j \<noteq> []" if "0 < j" for j using assms(1) that by (auto simp: serves_list_def)
  have page: "get (page_url path fieldSelector (token k)) s = (Inr \<lparr>pg_Continue = (if k + n < length xs then token (k + n) else []), pg_Items = take n (drop k xs)\<rparr>, s)"
    using assms(1) less.prems by (simp add: serves_list_def)
  have "0 < n" using assms(1) by (simp add: serves_list_def)
  show ?case
  proof (cases "k + n < length xs")
    case True
    then have "list_from get path fieldSelector (token (k + n)) (items @ take n (drop k xs)) s = Some (Inr ((items @ take n (drop k xs)) @ drop (k + n) xs), s)"
      using \<open>0 < n\<close> by (intro less.hyps) auto
    moreover have "take n (drop k xs) @ drop (k + n) xs = drop k xs" by (metis add.commute append_take_drop_id drop_drop)
    ultimately show ?thesis using True \<open>0 < n\<close> by (subst list_from.simps) (simp add: page n Let_def)
  next
    case False
    then show ?thesis by (subst list_from.simps) (simp add: page Let_def)
  qed
qed

lemma kube_list_whole:
  assumes "serves_list (kube_get (ka_Do api) (ka_status api) decode base token) path fieldSelector n continue xs s"
  shows "kube_list api decode base token path fieldSelector s = Some (Inr xs, s)"
proof -
  have "continue 0 = []" using assms by (simp add: serves_list_def)
  with list_from_whole [OF assms, of 0 "[]"] show ?thesis by (simp add: kube_list_def)
qed

record cluster_objects =
  co_nodes :: "apiNode list"
  co_pods :: "apiPod list"
  co_deployments :: "apiReplicated list"
  co_statefulSets :: "apiReplicated list"
  co_daemonSets :: "apiDaemonSet list"
  co_events :: "apiEvent list"

definition serves_cluster :: "'s kubeAPI \<Rightarrow> string \<Rightarrow> string \<Rightarrow> nat \<Rightarrow> (nat \<Rightarrow> string) \<Rightarrow> cluster_objects \<Rightarrow> 's \<Rightarrow> bool" where
  "serves_cluster api base token n continue objects s \<longleftrightarrow>
     serves_list (kube_get (ka_Do api) (ka_status api) (ka_nodes api) base token) ''/api/v1/nodes'' [] n continue (co_nodes objects) s \<and>
     serves_list (kube_get (ka_Do api) (ka_status api) (ka_pods api) base token) ''/api/v1/pods'' [] n continue (co_pods objects) s \<and>
     serves_list (kube_get (ka_Do api) (ka_status api) (ka_replicated api) base token) ''/apis/apps/v1/deployments'' [] n continue (co_deployments objects) s \<and>
     serves_list (kube_get (ka_Do api) (ka_status api) (ka_replicated api) base token) ''/apis/apps/v1/statefulsets'' [] n continue (co_statefulSets objects) s \<and>
     serves_list (kube_get (ka_Do api) (ka_status api) (ka_daemonSets api) base token) ''/apis/apps/v1/daemonsets'' [] n continue (co_daemonSets objects) s \<and>
     serves_list (kube_get (ka_Do api) (ka_status api) (ka_events api) base token) ''/api/v1/events'' ''type=Warning'' n continue (co_events objects) s"

definition cluster_seen :: "(string \<Rightarrow> float64 option) \<Rightarrow> string \<Rightarrow> time \<Rightarrow> cluster_objects \<Rightarrow> ClusterState" where
  "cluster_seen parse cluster now ob = \<lparr>cs_Cluster = cluster, cs_Time = time_toUnix now, cs_Error = [], cs_Nodes = map (node_of parse) (co_nodes ob),
     cs_Workloads = map (\<lambda>d. replicated_workload d ''deployment'') (co_deployments ob) @ map (\<lambda>d. replicated_workload d ''statefulset'') (co_statefulSets ob) @
       map daemonset_workload (co_daemonSets ob),
     cs_Pods = map pod_of (co_pods ob), cs_Events = warningEvents (co_events ob) now\<rparr>"

lemma kube_Read_whole:
  assumes "serves_cluster api base (TrimSpace content) n continue objects s" and "TrimSpace content \<noteq> []"
  shows "kube_Read Error api parse base tokenPath (Inr content) cluster now s = Some (cluster_seen parse cluster now objects, s)"
proof -
  let ?l = "\<lambda>decode path. kube_list api decode base (TrimSpace content) path"
  have "?l (ka_nodes api) ''/api/v1/nodes'' [] s = Some (Inr (co_nodes objects), s)" "?l (ka_pods api) ''/api/v1/pods'' [] s = Some (Inr (co_pods objects), s)"
    "?l (ka_replicated api) ''/apis/apps/v1/deployments'' [] s = Some (Inr (co_deployments objects), s)"
    "?l (ka_replicated api) ''/apis/apps/v1/statefulsets'' [] s = Some (Inr (co_statefulSets objects), s)"
    "?l (ka_daemonSets api) ''/apis/apps/v1/daemonsets'' [] s = Some (Inr (co_daemonSets objects), s)"
    "?l (ka_events api) ''/api/v1/events'' ''type=Warning'' s = Some (Inr (co_events objects), s)"
    using assms(1) by (auto simp: serves_cluster_def intro: kube_list_whole)
  with assms(2) show ?thesis by (simp add: kube_Read_def kube_read_def Let_def bindP_def cluster_of_def cluster_seen_def zero_state_def)
qed

text \<open>A state with an error has nothing else in it.\<close>

lemma kube_Read_error:
  assumes "kube_Read Error api parse base tokenPath raw cluster now s = Some (state, s')" and "cs_Error state \<noteq> []"
  shows "state = zero_state\<lparr>cs_Cluster := cluster, cs_Time := time_toUnix now, cs_Error := cs_Error state\<rparr>"
  using assms
  by (auto simp: kube_Read_def kube_read_def bindP_def Let_def cluster_of_def zero_state_def split: option.splits prod.splits sum.splits if_splits)

end
