(* ===== verification/GoBase64.thy ===== *)
theory GoBase64
  imports GoStrings
begin

text \<open>
  encoding/base64 as far as it is used: \<open>StdEncoding.EncodeToString\<close> and \<open>StdEncoding.DecodeString\<close>. The decoder leaves out line breaks wherever they
  are and does not look at the bits a padded group has over; None stands for a CorruptInputError.
\<close>

section \<open>The code\<close>

definition b64_alphabet :: string where
  "b64_alphabet = ''ABCDEFGHIJKLMNOPQRSTUVWXYZabcdefghijklmnopqrstuvwxyz0123456789+/''"

definition b64_char :: "nat \<Rightarrow> char" where
  "b64_char n = b64_alphabet ! (n mod 64)"

definition b64_value :: "char \<Rightarrow> nat option" where
  "b64_value c = map_option fst (find (\<lambda>(i, d). d = c) (enumerate 0 b64_alphabet))"

definition byte :: "char \<Rightarrow> nat" where
  "byte c = of_char c"

fun EncodeToString :: "string \<Rightarrow> string" where
  "EncodeToString [] = []"
| "EncodeToString [a] = [b64_char (byte a div 4), b64_char (byte a mod 4 * 16), CHR ''='', CHR ''='']"
| "EncodeToString [a, b] = [b64_char (byte a div 4), b64_char (byte a mod 4 * 16 + byte b div 16), b64_char (byte b mod 16 * 4), CHR ''='']"
| "EncodeToString (a # b # c # s) =
     b64_char (byte a div 4) # b64_char (byte a mod 4 * 16 + byte b div 16) # b64_char (byte b mod 16 * 4 + byte c div 64) # b64_char (byte c mod 64) #
     EncodeToString s"

fun decode_quads :: "string \<Rightarrow> string option" where
  "decode_quads [] = Some []"
| "decode_quads (p # q # r # s # rest) =
     (case (b64_value p, b64_value q) of
        (Some a, Some b) \<Rightarrow>
          (case b64_value r of
             None \<Rightarrow> if r = CHR ''='' \<and> s = CHR ''='' \<and> rest = [] then Some [char_of (a * 4 + b div 16)] else None
           | Some c \<Rightarrow>
               (case b64_value s of
                  None \<Rightarrow> if s = CHR ''='' \<and> rest = [] then Some [char_of (a * 4 + b div 16), char_of (b mod 16 * 16 + c div 4)] else None
                | Some d \<Rightarrow> map_option (\<lambda>bs. char_of (a * 4 + b div 16) # char_of (b mod 16 * 16 + c div 4) # char_of (c mod 4 * 64 + d) # bs) (decode_quads rest)))
      | _ \<Rightarrow> None)"
| "decode_quads _ = None"

definition DecodeString :: "string \<Rightarrow> string option" where
  "DecodeString s = decode_quads (filter (\<lambda>c. c \<noteq> CHR 0x0A \<and> c \<noteq> CHR 0x0D) s)"

section \<open>Reading back\<close>

lemma b64_value_char: "n < 64 \<Longrightarrow> b64_value (b64_char n) = Some n"
proof -
  have "list_all (\<lambda>n. b64_value (b64_char n) = Some n) [0..<64]" by code_simp
  then show "n < 64 \<Longrightarrow> b64_value (b64_char n) = Some n" by (simp add: list_all_iff)
qed

lemma b64_value_pad: "b64_value CHR ''='' = None"
  by code_simp

lemma byte_less: "byte c < 256"
  unfolding byte_def by (metis mod_less_divisor of_char_mod_256 zero_less_numeral)

lemma char_of_byte: "char_of (byte c) = c"
  by (simp add: byte_def)

lemma digit_split: "y < k \<Longrightarrow> (x * k + y) div k = x" "y < k \<Longrightarrow> (x * k + y) mod k = y" for x y k :: nat
  by simp_all

lemma split_bytes:
  assumes "a < 256" and "b < 256" and "c < (256::nat)"
  shows "a div 4 < 64" "a mod 4 * 16 + b div 16 < 64" "a mod 4 * 16 < 64" "b mod 16 * 4 < 64" "b mod 16 * 4 + c div 64 < 64"
    "a div 4 * 4 + (a mod 4 * 16 + b div 16) div 16 = a" "a div 4 * 4 + (a mod 4 * 16) div 16 = a"
    "(a mod 4 * 16 + b div 16) mod 16 * 16 + (b mod 16 * 4 + c div 64) div 4 = b" "(a mod 4 * 16 + b div 16) mod 16 * 16 + (b mod 16 * 4) div 4 = b"
    "(b mod 16 * 4 + c div 64) mod 4 * 64 + c mod 64 = c"
proof -
  have small: "a div 4 < 64" "b div 16 < 16" "c div 64 < 4" "a mod 4 < 4" "b mod 16 < 16" using assms by auto
  then show "a div 4 < 64" "a mod 4 * 16 + b div 16 < 64" "a mod 4 * 16 < 64" "b mod 16 * 4 < 64" "b mod 16 * 4 + c div 64 < 64" by linarith+
  show "a div 4 * 4 + (a mod 4 * 16 + b div 16) div 16 = a" "(a mod 4 * 16 + b div 16) mod 16 * 16 + (b mod 16 * 4 + c div 64) div 4 = b"
    "(b mod 16 * 4 + c div 64) mod 4 * 64 + c mod 64 = c" "(a mod 4 * 16 + b div 16) mod 16 * 16 + (b mod 16 * 4) div 4 = b"
    unfolding digit_split [OF small(2)] digit_split [OF small(3)] by simp_all
  show "a div 4 * 4 + (a mod 4 * 16) div 16 = a" by simp
qed

lemma byte_parts:
  "byte c div 16 div 16 = 0" "byte c div 16 mod 16 = byte c div 16" "byte c div 64 div 4 = 0" "byte c div 64 mod 4 = byte c div 64"
  using byte_less [of c] by auto

lemma decode_encode: "decode_quads (EncodeToString bs) = Some bs"
  by (induction bs rule: EncodeToString.induct)
    (simp_all add: b64_value_char b64_value_pad split_bytes [OF byte_less byte_less byte_less] byte_parts char_of_byte)

lemma EncodeToString_chars: "set (EncodeToString bs) \<subseteq> set b64_alphabet \<union> {CHR ''=''}"
proof -
  have "b64_char n \<in> set b64_alphabet" for n
    unfolding b64_char_def by (rule nth_mem) (simp add: b64_alphabet_def)
  then show ?thesis by (induction bs rule: EncodeToString.induct) auto
qed

lemma encoded_char:
  assumes "c \<in> set (EncodeToString bs)"
  shows "c \<noteq> CHR 0x0A \<and> c \<noteq> CHR 0x0D \<and> c \<notin> hd ` set spaces \<and> c \<notin> hd ` set (map rev spaces)"
proof -
  have "list_all (\<lambda>c. c \<noteq> CHR 0x0A \<and> c \<noteq> CHR 0x0D \<and> c \<notin> set (map hd spaces) \<and> c \<notin> set (map hd (map rev spaces))) (b64_alphabet @ ''='')"
    by code_simp
  moreover have "c \<in> set (b64_alphabet @ ''='')"
    using subsetD [OF EncodeToString_chars assms] by (simp only: set_append list.set Un_iff)
  ultimately show ?thesis
    unfolding list_all_iff set_map [of hd] by (rule bspec)
qed

theorem base64_roundtrip: "DecodeString (EncodeToString bs) = Some bs"
proof -
  have "filter (\<lambda>c. c \<noteq> CHR 0x0A \<and> c \<noteq> CHR 0x0D) (EncodeToString bs) = EncodeToString bs"
    using encoded_char by (auto simp: filter_id_conv)
  then show ?thesis by (simp only: DecodeString_def decode_encode)
qed

lemma trim_front_none: "c \<notin> hd ` set ws \<Longrightarrow> trim_front ws (c # s) = c # s"
proof -
  assume c: "c \<notin> hd ` set ws"
  have "find (\<lambda>w. w \<noteq> [] \<and> HasPrefix (c # s) w) ws = None"
    unfolding find_None_iff
  proof
    assume "\<exists>w. w \<in> set ws \<and> w \<noteq> [] \<and> HasPrefix (c # s) w"
    then obtain w where "w \<in> set ws" "w \<noteq> []" "HasPrefix (c # s) w" by blast
    moreover from this(2) obtain d ds where "w = d # ds" by (cases w) simp
    ultimately have "hd w = c" by (simp add: HasPrefix_def)
    with c \<open>w \<in> set ws\<close> show False by blast
  qed
  then show ?thesis by (subst trim_front.simps) simp
qed

text \<open>A text file with one line of such characters.\<close>

lemma TrimSpace_line:
  assumes "s \<noteq> []" and "hd s \<notin> hd ` set spaces" and "List.last s \<notin> hd ` set (map rev spaces)"
  shows "TrimSpace (s @ [CHR 0x0A]) = s"
proof -
  obtain a as where s: "s = a # as" using assms(1) by (cases s) auto
  obtain c cs where rv: "rev s = c # cs" using assms(1) by (cases "rev s") auto
  then have c: "c \<notin> hd ` set (map rev spaces)" using assms(3) by (metis hd_rev list.sel(1))
  have nl: "find (\<lambda>w. w \<noteq> [] \<and> HasPrefix (CHR 0x0A # t) w) (map rev spaces) = Some [CHR 0x0A]" for t
    by (simp add: spaces_def HasPrefix_def)
  have drop: "trim_front (map rev spaces) (CHR 0x0A # t) = trim_front (map rev spaces) t" for t
    by (subst trim_front.simps) (simp add: nl)
  have "trim_front spaces (s @ [CHR 0x0A]) = s @ [CHR 0x0A]" using assms(2) by (simp add: s trim_front_none)
  moreover have "rev (s @ [CHR 0x0A]) = CHR 0x0A # c # cs" using rv by simp
  ultimately have "TrimSpace (s @ [CHR 0x0A]) = rev (c # cs)"
    unfolding TrimSpace_def by (simp only: drop trim_front_none [OF c])
  also have "\<dots> = s" by (metis rev_rev_ident rv)
  finally show ?thesis .
qed

lemma TrimSpace_encoded: "TrimSpace (EncodeToString bs @ [CHR 0x0A]) = EncodeToString bs"
proof (cases "bs = []")
  case True
  have "TrimSpace [CHR 0x0A] = []" by code_simp
  with True show ?thesis by simp
next
  case False
  then have "EncodeToString bs \<noteq> []" by (cases bs rule: EncodeToString.cases) auto
  with encoded_char [OF hd_in_set] encoded_char [OF last_in_set] show ?thesis by (intro TrimSpace_line) auto
qed

end
