(* ===== verification/AgentUpdate.thy ===== *)
theory AgentUpdate
  imports GoBase64 AgentTasks
begin

text \<open>
  How an agent replaces itself: internal/update, agent/update.go, the ping of agent/main.go that carries the request, and tools/sign, which makes the key and
  the signatures. ed25519 and the network are parameters. Files are a map from paths to contents; every call on them can go through or break, as the list
  \<open>mc_will\<close> of outcomes to come says, and a broken write can leave part of a file. Modes and directories are left out.
\<close>

section \<open>Signatures\<close>

text \<open>A private key is its seed.\<close>

record ed25519 =
  ed_public :: "string \<Rightarrow> string"
  ed_sign :: "string \<Rightarrow> string \<Rightarrow> string"
  ed_verify :: "string \<Rightarrow> string \<Rightarrow> string \<Rightarrow> bool"

definition ErrNoKey :: error where
  "ErrNoKey = err_text ''this agent was built without an update key, update it with the install command''"

definition Verify :: "ed25519 \<Rightarrow> string \<Rightarrow> string \<Rightarrow> string \<Rightarrow> unit result" where
  "Verify ed PublicKey build signature =
     (if PublicKey = [] then Inl ErrNoKey
      else case DecodeString PublicKey of
        None \<Rightarrow> Inl (err_text ''this agent's update key is broken'')
      | Some key \<Rightarrow>
          if length key \<noteq> 32 then Inl (err_text ''this agent's update key is broken'')
          else (case DecodeString (TrimSpace signature) of
            None \<Rightarrow> Inl (err_text ''the signature file is not a signature'')
          | Some sig \<Rightarrow>
              if length sig \<noteq> 64 then Inl (err_text ''the signature file is not a signature'')
              else if \<not> ed_verify ed key build sig then Inl (err_text ''the build is not signed with this agent's update key'')
              else Inr ()))"

text \<open>\<open>seed\<close> is what the random source gave.\<close>

definition NewKey :: "ed25519 \<Rightarrow> string result \<Rightarrow> (string \<times> string) result" where
  "NewKey ed seed = (case seed of Inl e \<Rightarrow> Inl e | Inr k \<Rightarrow> Inr (EncodeToString k, EncodeToString (ed_public ed k)))"

definition ParsePrivateKey :: "string \<Rightarrow> string result" where
  "ParsePrivateKey content = (case DecodeString (TrimSpace content) of
     None \<Rightarrow> Inl (err_text ''not a SyMon signing key'')
   | Some seed \<Rightarrow> if length seed \<noteq> 32 then Inl (err_text ''not a SyMon signing key'') else Inr seed)"

definition Sign :: "ed25519 \<Rightarrow> string \<Rightarrow> string \<Rightarrow> string" where
  "Sign ed key build = EncodeToString (ed_sign ed key build) @ [CHR 0x0A]"

definition PublicKeyOf :: "ed25519 \<Rightarrow> string \<Rightarrow> string" where
  "PublicKeyOf ed key = EncodeToString (ed_public ed key)"

section \<open>Files\<close>

datatype fs_outcome = Went | Broke "string option"

record machine =
  mc_files :: "string \<rightharpoonup> string"
  mc_will :: "fs_outcome list"

definition fs_call ::
  "((string \<rightharpoonup> string) \<Rightarrow> 'a result \<times> (string \<rightharpoonup> string)) \<Rightarrow> (string option \<Rightarrow> (string \<rightharpoonup> string) \<Rightarrow> (string \<rightharpoonup> string)) \<Rightarrow> ('a, machine) act" where
  "fs_call f broken m =
     (let go = (\<lambda>m. case f (mc_files m) of (r, fs) \<Rightarrow> (r, m\<lparr>mc_files := fs\<rparr>)) in
      case mc_will m of
        [] \<Rightarrow> go m
      | Went # rest \<Rightarrow> go (m\<lparr>mc_will := rest\<rparr>)
      | Broke left # rest \<Rightarrow> (Inl (err_text ''input/output error''), m\<lparr>mc_files := broken left (mc_files m), mc_will := rest\<rparr>))"

definition missing :: error where
  "missing = err_text ''no such file or directory''"

definition os_ReadFile :: "string \<Rightarrow> (string, machine) act" where
  "os_ReadFile path = fs_call (\<lambda>fs. (case fs path of None \<Rightarrow> Inl missing | Some d \<Rightarrow> Inr d, fs)) (\<lambda>_ fs. fs)"

definition os_WriteFile :: "string \<Rightarrow> string \<Rightarrow> (unit, machine) act" where
  "os_WriteFile path data = fs_call (\<lambda>fs. (Inr (), fs(path \<mapsto> data))) (\<lambda>left fs. case left of None \<Rightarrow> fs | Some d \<Rightarrow> fs(path \<mapsto> d))"

definition os_Chmod :: "string \<Rightarrow> (unit, machine) act" where
  "os_Chmod path = fs_call (\<lambda>fs. (if fs path = None then Inl missing else Inr (), fs)) (\<lambda>_ fs. fs)"

definition os_Remove :: "string \<Rightarrow> (unit, machine) act" where
  "os_Remove path = fs_call (\<lambda>fs. if fs path = None then (Inl missing, fs) else (Inr (), fs(path := None))) (\<lambda>_ fs. fs)"

definition os_Rename :: "string \<Rightarrow> string \<Rightarrow> (unit, machine) act" where
  "os_Rename a b = fs_call (\<lambda>fs. if fs a = None then (Inl missing, fs) else (Inr (), fs(b := fs a, a := None))) (\<lambda>_ fs. fs)"

text \<open>What a program prints; \<open>run\<close> is what the program at hand does with \<open>-version\<close>.\<close>

definition exec_version :: "(string \<Rightarrow> string result) \<Rightarrow> string \<Rightarrow> (string, machine) act" where
  "exec_version run path = fs_call (\<lambda>fs. (case fs path of None \<Rightarrow> Inl missing | Some program \<Rightarrow> run program, fs)) (\<lambda>_ fs. fs)"

definition give_up :: "string \<Rightarrow> error \<Rightarrow> ('a, machine) act" where
  "give_up path e m = (Inl e, snd (os_Remove path m))"

definition or_give_up :: "string \<Rightarrow> (error \<Rightarrow> error) \<Rightarrow> ('a, machine) act \<Rightarrow> ('a \<Rightarrow> ('b, machine) act) \<Rightarrow> ('b, machine) act" where
  "or_give_up path f op k m = (case op m of (Inl e, m') \<Rightarrow> give_up path (f e) m' | (Inr a, m') \<Rightarrow> k a m')"

section \<open>Installing a build\<close>

definition installBuild :: "ed25519 \<Rightarrow> string \<Rightarrow> (string \<Rightarrow> string result) \<Rightarrow> string \<Rightarrow> string \<Rightarrow> string \<Rightarrow> string \<Rightarrow> (unit, machine) act" where
  "installBuild ed PublicKey run exe build signature want =
     bindE (of_result (Verify ed PublicKey build signature)) (\<lambda>_.
     let next = exe @ ''.new'' in
     bindE (os_WriteFile next build) (\<lambda>_.
     or_give_up next (\<lambda>e. e) (os_Chmod next) (\<lambda>_.
     or_give_up next (ErrWrap ''the new build does not run here: %w'' []) (exec_version run next) (\<lambda>out.
     let got = TrimSpace out in
     if got \<noteq> ''SyMon agent '' @ want then give_up next (ErrText ''the new build says %q, not %s'' [got, want])
     else or_give_up next (\<lambda>e. e) (os_Rename next exe) (\<lambda>_. ret ())))))"

definition maxBuildSize :: nat where
  "maxBuildSize = 200 * 2 ^ 20"

text \<open>An answer: the status code, the status line, the body as far as it came, and the error it ended with.\<close>

type_synonym http_get = "string \<Rightarrow> (int \<times> string \<times> string \<times> error option) result"

definition download :: "http_get \<Rightarrow> string \<Rightarrow> string result" where
  "download http url = (case http url of
     Inl e \<Rightarrow> Inl e
   | Inr (code, status, body, err) \<Rightarrow>
       if code \<noteq> 200 then Inl (ErrText ''%s answered %s'' [url, status])
       else if length body > maxBuildSize then Inl (ErrText ''%s is too big for an agent build'' [url])
       else (case err of Some e \<Rightarrow> Inl e | None \<Rightarrow> Inr body))"

definition fetchBuild :: "http_get \<Rightarrow> string \<Rightarrow> string \<Rightarrow> (string \<times> string) result" where
  "fetchBuild http GOARCH dashboard =
     (let url = TrimRight dashboard CHR ''/'' @ ''/downloads/agent-linux-'' @ GOARCH in
      case download http url of
        Inl e \<Rightarrow> Inl e
      | Inr build \<Rightarrow> (case download http (url @ ''.sig'') of Inl e \<Rightarrow> Inl e | Inr signature \<Rightarrow> Inr (build, signature)))"

text \<open>The parts of the world an agent's update touches: where its program is, the network, what a program prints as its version, and whether starting
  the new program fails.\<close>

record world =
  wl_ed :: ed25519
  wl_PublicKey :: string
  wl_exe :: "string result"
  wl_http :: http_get
  wl_GOARCH :: string
  wl_run :: "string \<Rightarrow> string result"
  wl_exec :: "error option"

text \<open>A request: version, download address and time. \<open>Inr ()\<close> stands for a process that was replaced.\<close>

type_synonym request = "string \<times> string \<times> int"

definition selfUpdate :: "world \<Rightarrow> request \<Rightarrow> (unit, machine) act" where
  "selfUpdate w request = (case request of (version, url, _) \<Rightarrow>
     bindE (of_result (wl_exe w)) (\<lambda>exe.
     bindE (of_result (fetchBuild (wl_http w) (wl_GOARCH w) url)) (\<lambda>(build, signature).
     bindE (installBuild (wl_ed w) (wl_PublicKey w) (wl_run w) exe build signature version) (\<lambda>_.
     of_result (case wl_exec w of None \<Rightarrow> Inr () | Some e \<Rightarrow> Inl e)))))"

section \<open>Requests\<close>

record updater =
  up_tried :: int
  up_lastError :: string

definition newUpdater :: updater where
  "newUpdater = \<lparr>up_tried = 0, up_lastError = []\<rparr>"

text \<open>\<open>own\<close> is \<open>version.String()\<close>, \<open>Error\<close> the text of an error. The first component says that the process was replaced.\<close>

definition handle_update ::
  "string \<Rightarrow> (error \<Rightarrow> string) \<Rightarrow> (request \<Rightarrow> (unit, machine) act) \<Rightarrow> request option \<Rightarrow> updater \<times> machine \<Rightarrow> bool \<times> updater \<times> machine" where
  "handle_update own Error install request s = (case s of (u, m) \<Rightarrow>
     (case request of
        None \<Rightarrow> (False, u, m)
      | Some (version, url, requestedAt) \<Rightarrow>
          if version = own \<or> requestedAt = up_tried u then (False, u, m)
          else (let u = u\<lparr>up_tried := requestedAt\<rparr> in
            case install (version, url, requestedAt) m of
              (Inr _, m') \<Rightarrow> (True, u, m')
            | (Inl e, m') \<Rightarrow> (False, u\<lparr>up_lastError := Error e\<rparr>, m'))))"

definition update_err :: "updater \<Rightarrow> string" where
  "update_err u = up_lastError u"

text \<open>\<open>sendPing\<close>, on the runner of tasks beside the updater: \<open>ping\<close> is the collector's answer, \<open>file\<close> what the tasks file holds.\<close>

definition sendPing ::
  "string \<Rightarrow> string \<Rightarrow> (error \<Rightarrow> string) \<Rightarrow> (request \<Rightarrow> (unit, machine) act) \<Rightarrow> (ServerInfo \<Rightarrow> (request option, 's) act) \<Rightarrow> string \<Rightarrow> Task list result \<Rightarrow>
     's taskRunner \<times> updater \<times> machine \<Rightarrow> bool \<times> 's taskRunner \<times> updater \<times> machine" where
  "sendPing own GOARCH Error install ping ServerId file s = (case s of (r, u, m) \<Rightarrow>
     (case list_tasks file r of (tasks, r1) \<Rightarrow>
     (case on_collector (ping \<lparr>si_ServerName = ServerId, si_AgentVersion = own, si_Arch = GOARCH, si_UpdateError = update_err u, si_Tasks = tasks\<rparr>) r1 of
        (Inl e, r2) \<Rightarrow> (False, r2, u, m)
      | (Inr request, r2) \<Rightarrow>
          if tk_working r2 then (False, r2, u, m)
          else (case handle_update own Error install request (u, m) of (gone, u', m') \<Rightarrow> (gone, r2, u', m')))))"

section \<open>The signing tool\<close>

definition keygen :: "ed25519 \<Rightarrow> string result \<Rightarrow> string \<Rightarrow> (unit, machine) act" where
  "keygen ed seed path m =
     (if mc_files m path \<noteq> None then (Inr (), m)
      else bindE (of_result (NewKey ed seed)) (\<lambda>(private_key, public_key).
        bindE (os_WriteFile path (private_key @ [CHR 0x0A])) (\<lambda>_.
        os_WriteFile (path @ ''.pub'') (public_key @ [CHR 0x0A]))) m)"

definition sign_builds :: "ed25519 \<Rightarrow> string \<Rightarrow> string list \<Rightarrow> (unit, machine) act" where
  "sign_builds ed path builds =
     bindE (os_ReadFile path) (\<lambda>content.
     bindE (of_result (ParsePrivateKey content)) (\<lambda>key.
     for_each (\<lambda>build. bindE (os_ReadFile build) (\<lambda>data. os_WriteFile (build @ ''.sig'') (Sign ed key data))) builds))"

section \<open>Only signed builds\<close>

text \<open>What a program has to be to take the place of the agent.\<close>

definition good_build :: "world \<Rightarrow> string \<Rightarrow> string \<Rightarrow> bool" where
  "good_build w version build \<longleftrightarrow> length build \<le> maxBuildSize \<and>
     (\<exists>key sig. DecodeString (wl_PublicKey w) = Some key \<and> length key = 32 \<and> length sig = 64 \<and> ed_verify (wl_ed w) key build sig) \<and>
     (\<exists>out. wl_run w build = Inr out \<and> TrimSpace out = ''SyMon agent '' @ version)"

lemma Verify_ok: "Verify ed pub build signature = Inr u \<Longrightarrow>
    \<exists>key sig. DecodeString pub = Some key \<and> length key = 32 \<and> DecodeString (TrimSpace signature) = Some sig \<and> length sig = 64 \<and> ed_verify ed key build sig"
  by (auto simp: Verify_def split: if_splits option.splits)

text \<open>Everything up to the rename leaves all files but the new one alone.\<close>

definition leaves :: "string \<Rightarrow> ('a, machine) act \<Rightarrow> bool" where
  "leaves path op \<longleftrightarrow> (\<forall>m p. p \<noteq> path \<longrightarrow> mc_files (snd (op m)) p = mc_files m p)"

lemma fs_call_leaves:
  assumes "\<And>fs p. p \<noteq> path \<Longrightarrow> snd (f fs) p = fs p" and "\<And>left fs p. p \<noteq> path \<Longrightarrow> broken left fs p = fs p"
  shows "leaves path (fs_call f broken)"
  unfolding leaves_def fs_call_def Let_def
  using assms by (auto split: list.split fs_outcome.split prod.split) (metis snd_conv)+

lemma os_leaves: "leaves path (os_WriteFile path data)" "leaves path (os_Chmod path)" "leaves path (os_Remove path)" "leaves path (exec_version run path)"
  unfolding os_WriteFile_def os_Chmod_def os_Remove_def exec_version_def
  by (rule fs_call_leaves; auto split: option.split)+

lemma give_up_leaves: "leaves path (give_up path e)"
  using os_leaves(3) by (auto simp: leaves_def give_up_def)

lemma op_cases:
  assumes "leaves path op" and "op m = (r, m')"
  shows "p \<noteq> path \<Longrightarrow> mc_files m' p = mc_files m p"
  using assms by (auto simp: leaves_def) (metis snd_conv)

lemma or_give_up_cases:
  assumes "or_give_up path f op k m = (r, m')"
  obtains (gave_up) e m1 where "op m = (Inl e, m1)" "r = Inl (f e)" "m' = snd (os_Remove path m1)"
    | (went) a m1 where "op m = (Inr a, m1)" "k a m1 = (r, m')"
  using assms by (auto simp: or_give_up_def give_up_def split: prod.splits sum.splits)

lemma write_cases:
  assumes "os_WriteFile path data m = (r, m')"
  shows "(\<exists>e. r = Inl e) \<or> mc_files m' = (mc_files m)(path \<mapsto> data)"
  using assms by (auto simp: os_WriteFile_def fs_call_def Let_def split: list.splits fs_outcome.splits)

lemma chmod_files: "os_Chmod path m = (r, m') \<Longrightarrow> mc_files m' = mc_files m"
  by (auto simp: os_Chmod_def fs_call_def Let_def split: list.splits fs_outcome.splits)

lemma exec_cases_ok:
  assumes "exec_version run path m = (Inr out, m')"
  shows "mc_files m' = mc_files m \<and> (\<exists>program. mc_files m path = Some program \<and> run program = Inr out)"
  using assms by (auto simp: exec_version_def fs_call_def Let_def split: list.splits fs_outcome.splits option.splits)

lemma rename_cases:
  assumes "os_Rename a b m = (r, m')"
  shows "(\<exists>e. r = Inl e) \<and> mc_files m' = mc_files m \<or> r = Inr () \<and> mc_files m' = (mc_files m)(b := mc_files m a, a := None)"
  using assms by (auto simp: os_Rename_def fs_call_def Let_def split: list.splits fs_outcome.splits if_splits)

lemma installBuild_effect:
  assumes "installBuild ed pub run exe build signature want m = (r, m')"
  shows "(\<forall>p. p \<noteq> exe \<and> p \<noteq> exe @ ''.new'' \<longrightarrow> mc_files m' p = mc_files m p) \<and>
    ((\<exists>e. r = Inl e) \<and> mc_files m' exe = mc_files m exe \<or>
     r = Inr () \<and> mc_files m' exe = Some build \<and> Verify ed pub build signature = Inr () \<and> (\<exists>out. run build = Inr out \<and> TrimSpace out = ''SyMon agent '' @ want))"
proof (cases "Verify ed pub build signature")
  case (Inl e)
  with assms have "r = Inl e" "m' = m" by (auto simp: installBuild_def of_result_def bindE_def)
  then show ?thesis by simp
next
  case verified: (Inr u)
  let ?next = "exe @ ''.new''"
  have ne: "exe \<noteq> ?next" by simp
  let ?rename = "or_give_up ?next (\<lambda>e. e) (os_Rename ?next exe) (\<lambda>_. ret ())"
  let ?check = "\<lambda>out. if TrimSpace out \<noteq> ''SyMon agent '' @ want then give_up ?next (ErrText ''the new build says %q, not %s'' [TrimSpace out, want]) else ?rename"
  let ?rest = "\<lambda>_. or_give_up ?next (\<lambda>e. e) (os_Chmod ?next) (\<lambda>_. or_give_up ?next (ErrWrap ''the new build does not run here: %w'' []) (exec_version run ?next) ?check)"
  have same: "(\<forall>p. p \<noteq> exe \<and> p \<noteq> ?next \<longrightarrow> mc_files m2 p = mc_files m p) \<and> mc_files m2 exe = mc_files m exe"
    if "\<And>p. p \<noteq> ?next \<Longrightarrow> mc_files m1 p = mc_files m p" "m2 = snd (os_Remove ?next m1) \<or> m2 = m1" for m1 m2
    using that op_cases [OF os_leaves(3) prod.collapse [symmetric], of _ ?next m1] ne by auto
  from assms verified have "bindE (os_WriteFile ?next build) ?rest m = (r, m')"
    by (simp add: installBuild_def of_result_def bindE_def Let_def)
  then show ?thesis
  proof (cases rule: bindE_cases)
    case (err e)
    with same [of m' m'] op_cases [OF os_leaves(1) err(1)] show ?thesis by auto
  next
    case (ok u1 m1)
    from write_cases [OF ok(1)] have w: "mc_files m1 = (mc_files m)(?next \<mapsto> build)" by auto
    from ok(2) show ?thesis
    proof (cases rule: or_give_up_cases)
      case (gave_up e m2)
      with same [of m2 m'] chmod_files [OF gave_up(1)] w show ?thesis by auto
    next
      case ch: (went u2 m2)
      have m2: "mc_files m2 = (mc_files m)(?next \<mapsto> build)" using chmod_files [OF ch(1)] w by simp
      from ch(2) show ?thesis
      proof (cases rule: or_give_up_cases)
        case (gave_up e m3)
        with same [of m3 m'] op_cases [OF os_leaves(4) gave_up(1)] m2 show ?thesis by auto
      next
        case ex: (went out m3)
        from exec_cases_ok [OF ex(1)] m2 have m3: "mc_files m3 = (mc_files m)(?next \<mapsto> build)" and out: "run build = Inr out" by auto
        show ?thesis
        proof (cases "TrimSpace out = ''SyMon agent '' @ want")
          case False
          with ex(2) have "r = Inl (ErrText ''the new build says %q, not %s'' [TrimSpace out, want])" "m' = snd (os_Remove ?next m3)"
            by (auto simp: give_up_def)
          with same [of m3 m'] m3 show ?thesis by auto
        next
          case True
          with ex(2) have "?rename m3 = (r, m')" by simp
          then show ?thesis
          proof (cases rule: or_give_up_cases)
            case (gave_up e m4)
            with same [of m4 m'] rename_cases [OF gave_up(1)] m3 show ?thesis by auto
          next
            case (went u4 m4)
            with rename_cases [OF went(1)] m3 ne have "mc_files m' = (mc_files m)(exe \<mapsto> build, ?next := None)" "r = Inr ()" by auto
            with verified out True ne show ?thesis by auto
          qed
        qed
      qed
    qed
  qed
qed

lemma download_size: "download http url = Inr data \<Longrightarrow> length data \<le> maxBuildSize"
  by (auto simp: download_def split: sum.splits prod.splits if_splits option.splits)

lemma fetchBuild_size: "fetchBuild http arch url = Inr (build, signature) \<Longrightarrow> length build \<le> maxBuildSize"
  by (auto simp: fetchBuild_def Let_def split: sum.splits dest: download_size)

lemma selfUpdate_effect:
  assumes "wl_exe w = Inr exe" and "selfUpdate w (version, url, at_time) m = (r, m')"
  shows "(\<forall>p. p \<noteq> exe \<and> p \<noteq> exe @ ''.new'' \<longrightarrow> mc_files m' p = mc_files m p) \<and>
    ((\<exists>e. r = Inl e) \<and> mc_files m' exe = mc_files m exe \<or> (\<exists>build. mc_files m' exe = Some build \<and> good_build w version build))"
proof (cases "fetchBuild (wl_http w) (wl_GOARCH w) url")
  case (Inl e)
  with assms have "r = Inl e" "m' = m" by (auto simp: selfUpdate_def of_result_def bindE_def)
  then show ?thesis by simp
next
  case (Inr f)
  obtain build signature where f: "f = (build, signature)" by fastforce
  let ?install = "installBuild (wl_ed w) (wl_PublicKey w) (wl_run w) exe build signature version"
  from assms Inr have "bindE ?install (\<lambda>_. of_result (case wl_exec w of None \<Rightarrow> Inr () | Some e \<Rightarrow> Inl e)) m = (r, m')"
    by (simp add: selfUpdate_def of_result_def bindE_def f)
  then show ?thesis
  proof (cases rule: bindE_cases)
    case (err e)
    with installBuild_effect [OF err(1)] show ?thesis by auto
  next
    case (ok u m1)
    then have "m' = m1" by (simp add: of_result_def)
    moreover have "good_build w version build" if "Verify (wl_ed w) (wl_PublicKey w) build signature = Inr ()"
        "\<exists>out. wl_run w build = Inr out \<and> TrimSpace out = ''SyMon agent '' @ version"
      using that Verify_ok [OF that(1)] fetchBuild_size Inr f unfolding good_build_def by blast
    ultimately show ?thesis using installBuild_effect [OF ok(1)] by auto
  qed
qed

text \<open>The answers to an agent's pings, one after the other while no task runs, until the process is replaced; and the requests it tried.\<close>

fun handle_all :: "string \<Rightarrow> (error \<Rightarrow> string) \<Rightarrow> (request \<Rightarrow> (unit, machine) act) \<Rightarrow> request option list \<Rightarrow> updater \<times> machine \<Rightarrow> request list \<times> updater \<times> machine" where
  "handle_all own Error install [] s = ([], s)"
| "handle_all own Error install (q # qs) s = (case handle_update own Error install q s of (gone, s') \<Rightarrow>
     (let tried = (if up_tried (fst s') = up_tried (fst s) then [] else [the q]) in
      if gone then (tried, s') else case handle_all own Error install qs s' of (more_tried, s'') \<Rightarrow> (tried @ more_tried, s'')))"

definition request_time :: "request \<Rightarrow> int" where
  "request_time q = snd (snd q)"

lemma handle_update_cases:
  assumes "handle_update own Error install q (u, m) = (gone, u', m')"
  obtains (not_now) "\<not> gone" "u' = u" "m' = m"
    | (tried) r where "q \<noteq> None" "fst (the q) \<noteq> own" "request_time (the q) \<noteq> up_tried u" "up_tried u' = request_time (the q)" "install (the q) m = (r, m')" "gone = (\<exists>a. r = Inr a)"
  using assms
  by (auto simp: handle_update_def Let_def request_time_def split: option.splits if_splits prod.splits sum.splits)

lemma handle_all_effect:
  assumes "wl_exe w = Inr exe" and "handle_all own Error (selfUpdate w) qs (u, m) = (tried, u', m')"
  shows "(mc_files m' exe = mc_files m exe \<or> (\<exists>q build. q \<in> set tried \<and> mc_files m' exe = Some build \<and> good_build w (fst q) build)) \<and>
    (\<forall>p. p \<noteq> exe \<and> p \<noteq> exe @ ''.new'' \<longrightarrow> mc_files m' p = mc_files m p) \<and>
    Some ` set tried \<subseteq> set qs \<and> list_all (\<lambda>q. fst q \<noteq> own) tried \<and> distinct_adj (up_tried u # map request_time tried)"
  using assms(2)
proof (induction qs arbitrary: u m tried)
  case (Cons q qs)
  obtain gone u1 m1 where h: "handle_update own Error (selfUpdate w) q (u, m) = (gone, u1, m1)" by (cases "handle_update own Error (selfUpdate w) q (u, m)") auto
  from h show ?case
  proof (cases rule: handle_update_cases)
    case not_now
    with Cons.prems h obtain rest where "handle_all own Error (selfUpdate w) qs (u, m) = (tried, u', m')"
      by (auto simp: Let_def split: prod.splits)
    from Cons.IH [OF this] show ?thesis by auto
  next
    case (tried r)
    obtain x where q: "q = Some x" using tried(1) by auto
    have "selfUpdate w (fst x, fst (snd x), snd (snd x)) m = (r, m1)" using tried(5) q by simp
    note step = selfUpdate_effect [OF assms(1) this]
    show ?thesis
    proof (cases gone)
      case True
      with Cons.prems h tried(3,4) q have "tried = [x]" "u' = u1" "m' = m1" by (auto simp: Let_def)
      with step tried(2,3) q show ?thesis by auto
    next
      case False
      obtain rest where rest: "handle_all own Error (selfUpdate w) qs (u1, m1) = (rest, u', m')" "tried = x # rest"
        using Cons.prems h tried(3,4) q False by (auto simp: Let_def split: prod.splits)
      note later = Cons.IH [OF rest(1)]
      have "mc_files m1 exe = mc_files m exe \<or> (\<exists>build. mc_files m1 exe = Some build \<and> good_build w (fst x) build)"
        using step by blast
      then have "mc_files m' exe = mc_files m exe \<or> (\<exists>q build. q \<in> set (x # rest) \<and> mc_files m' exe = Some build \<and> good_build w (fst q) build)"
        using later unfolding list.set insert_iff by metis
      moreover have "\<forall>p. p \<noteq> exe \<and> p \<noteq> exe @ ''.new'' \<longrightarrow> mc_files m' p = mc_files m p"
        using later step by metis
      moreover have "distinct_adj (up_tried u # map request_time (x # rest))"
        using later tried(3,4) q by (auto simp: distinct_adj_Cons)
      ultimately show ?thesis
        using later tried(2) q unfolding rest(2) by (simp add: subset_insertI2)
    qed
  qed
qed auto

text \<open>C6. Whatever the collector, the dashboard and the disk do, the program an agent is started from is the one it was or a build that is signed with the key built
  into the agent, runs on this machine, says it is the version that was asked for, and is not too big. No other file changes but the one the
  build is written to first. The agent tries only requests it was given, none for the version it is, and no request twice in a row.\<close>

theorem agent_installs_only_signed:
  assumes "wl_exe w = Inr exe" and "handle_all own Error (selfUpdate w) qs (u, m) = (tried, u', m')"
  shows "(mc_files m' exe = mc_files m exe \<or> (\<exists>q build. q \<in> set tried \<and> mc_files m' exe = Some build \<and> good_build w (fst q) build)) \<and>
    (\<forall>p. p \<noteq> exe \<and> p \<noteq> exe @ ''.new'' \<longrightarrow> mc_files m' p = mc_files m p) \<and>
    Some ` set tried \<subseteq> set qs \<and> list_all (\<lambda>q. fst q \<noteq> own) tried \<and> distinct_adj (up_tried u # map request_time tried)"
  using assms by (rule handle_all_effect)

section \<open>Signed builds are installed\<close>

text \<open>What is used of ed25519: the sizes, and that a signature checks out with the public key.\<close>

definition ed_laws :: "ed25519 \<Rightarrow> string \<Rightarrow> bool" where
  "ed_laws ed seed \<longleftrightarrow> length (ed_public ed seed) = 32 \<and>
     (\<forall>message. length (ed_sign ed seed message) = 64 \<and> ed_verify ed (ed_public ed seed) message (ed_sign ed seed message))"

lemma Verify_signed:
  assumes "ed_laws ed seed"
  shows "Verify ed (PublicKeyOf ed seed) build (Sign ed seed build) = Inr ()"
proof -
  have "EncodeToString k \<noteq> []" if "length k = 32" for k
    using that by (cases k rule: EncodeToString.cases) auto
  with assms show ?thesis
    by (simp add: Verify_def PublicKeyOf_def Sign_def ed_laws_def base64_roundtrip TrimSpace_encoded)
qed

lemma keygen_writes:
  assumes "keygen ed (Inr seed) path m = (Inr u, m')" and "mc_files m path = None"
  shows "mc_files m' (path @ ''.pub'') = Some (PublicKeyOf ed seed @ [CHR 0x0A]) \<and> mc_files m' path = Some (EncodeToString seed @ [CHR 0x0A])"
proof -
  from assms obtain u1 m1 where w1: "os_WriteFile path (EncodeToString seed @ [CHR 0x0A]) m = (Inr u1, m1)"
      and w2: "os_WriteFile (path @ ''.pub'') (EncodeToString (ed_public ed seed) @ [CHR 0x0A]) m1 = (Inr u, m')"
    by (auto simp: keygen_def NewKey_def of_result_def bindE_def split: prod.splits sum.splits)
  from write_cases [OF w1] write_cases [OF w2] show ?thesis by (auto simp: PublicKeyOf_def)
qed

lemma read_cases: "os_ReadFile path m = (Inr d, m') \<Longrightarrow> mc_files m path = Some d \<and> mc_files m' = mc_files m"
  by (auto simp: os_ReadFile_def fs_call_def Let_def split: list.splits fs_outcome.splits option.splits)

lemma sign_writes:
  assumes "sign_builds ed path [name] m = (Inr u, m')" and "mc_files m path = Some (EncodeToString seed @ [CHR 0x0A])" and "length seed = 32"
    and "mc_files m name = Some build"
  shows "mc_files m' (name @ ''.sig'') = Some (Sign ed seed build)"
proof -
  have parse: "ParsePrivateKey (EncodeToString seed @ [CHR 0x0A]) = Inr seed"
    by (simp add: ParsePrivateKey_def TrimSpace_encoded base64_roundtrip assms(3))
  from assms(1) obtain content m1 key m2 data m3 where r1: "os_ReadFile path m = (Inr content, m1)"
      and key: "of_result (ParsePrivateKey content) m1 = (Inr key, m2)" and r2: "os_ReadFile name m2 = (Inr data, m3)"
      and w: "os_WriteFile (name @ ''.sig'') (Sign ed key data) m3 = (Inr (), m')"
    unfolding sign_builds_def by (auto elim!: bindE_InrE)
  have "key = seed" "m2 = m1" using read_cases [OF r1] assms(2) key parse by (auto simp: of_result_def)
  moreover from this have "data = build" using read_cases [OF r1] read_cases [OF r2] assms(4) by simp
  ultimately show ?thesis using write_cases [OF w] by simp
qed

lemma installs_when_up:
  assumes "mc_will m = []" and "Verify ed pub build signature = Inr ()" and "run build = Inr out" and "TrimSpace out = ''SyMon agent '' @ want"
  shows "\<exists>m'. installBuild ed pub run exe build signature want m = (Inr (), m') \<and> mc_files m' = (mc_files m)(exe \<mapsto> build, exe @ ''.new'' := None)"
  using assms
  by (simp add: installBuild_def of_result_def bindE_def Let_def os_WriteFile_def or_give_up_def os_Chmod_def exec_version_def os_Rename_def fs_call_def fun_upd_twist)

text \<open>C34. A build that tools/sign signed with a key that tools/sign made passes the check of every agent that was built with that key's public key file; and when
  such an agent is asked for that version, the dashboard hands out the build and its signature, and the disk works, the build takes the agent's place.\<close>

theorem signed_build_installs:
  assumes "ed_laws ed seed" and "length seed = 32" and "mc_files m0 path = None" and "keygen ed (Inr seed) path m0 = (Inr u0, m1)"
    and "mc_files m1 name = Some build" and "sign_builds ed path [name] m1 = (Inr u1, m2)"
    and "PublicKey = TrimSpace (the (mc_files m1 (path @ ''.pub'')))" and "signature = the (mc_files m2 (name @ ''.sig''))"
    and "fetchBuild (wl_http w) (wl_GOARCH w) url = Inr (build, signature)" and "wl_ed w = ed" and "wl_PublicKey w = PublicKey" and "wl_exe w = Inr exe"
    and "wl_run w build = Inr out" and "TrimSpace out = ''SyMon agent '' @ version" and "wl_exec w = None" and "mc_will m = []"
  shows "\<exists>m'. selfUpdate w (version, url, at_time) m = (Inr (), m') \<and> mc_files m' = (mc_files m)(exe \<mapsto> build, exe @ ''.new'' := None)"
proof -
  have pub: "PublicKey = PublicKeyOf ed seed"
    using keygen_writes [OF assms(4,3)] assms(7) by (simp add: PublicKeyOf_def TrimSpace_encoded)
  have sig: "signature = Sign ed seed build"
    using keygen_writes [OF assms(4,3)] sign_writes [OF assms(6) _ assms(2,5)] assms(8) by simp
  have "Verify (wl_ed w) (wl_PublicKey w) build signature = Inr ()"
    using Verify_signed [OF assms(1)] pub sig assms(10,11) by simp
  from installs_when_up [of m "wl_ed w" "wl_PublicKey w" build signature "wl_run w" out version exe, OF assms(16) this assms(13,14)] assms(9,12,15) show ?thesis
    by (auto simp: selfUpdate_def of_result_def bindE_def)
qed

section \<open>Examples\<close>

text \<open>A stand-in for ed25519 with the laws: keys are their own public keys and a signature is the key twice. The dashboard hands out a build ''b''.\<close>

definition example_ed :: ed25519 where
  "example_ed = \<lparr>ed_public = (\<lambda>k. k), ed_sign = (\<lambda>k msg. k @ k), ed_verify = (\<lambda>k msg sig. sig = k @ k)\<rparr>"

definition example_seed :: string where
  "example_seed = replicate 32 CHR ''k''"

definition example_tools :: machine where
  "example_tools = \<lparr>mc_files = [''agent'' \<mapsto> ''b''], mc_will = []\<rparr>"

definition example_keys :: machine where
  "example_keys = snd (keygen example_ed (Inr example_seed) ''key'' example_tools)"

definition example_signed :: machine where
  "example_signed = snd (sign_builds example_ed ''key'' [''agent''] example_keys)"

definition example_world :: world where
  "example_world = \<lparr>wl_ed = example_ed, wl_PublicKey = TrimSpace (the (mc_files example_keys ''key.pub'')), wl_exe = Inr ''/usr/bin/agent'',
     wl_http = (\<lambda>url. Inr (200, ''200 OK'', if url = ''http://symon/downloads/agent-linux-amd64'' then ''b'' else the (mc_files example_signed ''agent.sig''), None)),
     wl_GOARCH = ''amd64'', wl_run = (\<lambda>program. Inr ''SyMon agent v2''), wl_exec = None\<rparr>"

definition example_machine :: machine where
  "example_machine = \<lparr>mc_files = [''/usr/bin/agent'' \<mapsto> ''a''], mc_will = []\<rparr>"

lemma example_files:
  "mc_files example_keys = [''agent'' \<mapsto> ''b'', ''key'' \<mapsto> EncodeToString example_seed @ [CHR 0x0A], ''key.pub'' \<mapsto> EncodeToString example_seed @ [CHR 0x0A]]"
  "mc_will example_keys = []"
  "keygen example_ed (Inr example_seed) ''key'' example_tools = (Inr (), example_keys)"
  by (simp_all add: example_keys_def keygen_def NewKey_def of_result_def bindE_def os_WriteFile_def fs_call_def example_tools_def example_ed_def)

lemma example_sign: "sign_builds example_ed ''key'' [''agent''] example_keys = (Inr (), example_signed)"
    "mc_files example_signed ''agent.sig'' = Some (Sign example_ed example_seed ''b'')"
proof -
  have parse: "ParsePrivateKey (EncodeToString example_seed @ [CHR 0x0A]) = Inr example_seed"
    by (simp add: ParsePrivateKey_def TrimSpace_encoded base64_roundtrip example_seed_def)
  show sign: "sign_builds example_ed ''key'' [''agent''] example_keys = (Inr (), example_signed)"
    by (simp add: example_signed_def sign_builds_def os_ReadFile_def os_WriteFile_def fs_call_def Let_def bindE_def of_result_def parse example_files)
  show "mc_files example_signed ''agent.sig'' = Some (Sign example_ed example_seed ''b'')"
    using sign_writes [OF sign] by (simp add: example_files example_seed_def)
qed

lemma example_fetch: "fetchBuild (wl_http example_world) (wl_GOARCH example_world) ''http://symon/'' = Inr (''b'', the (mc_files example_signed ''agent.sig''))"
proof -
  have "length (Sign example_ed example_seed ''b'') = 89" by code_simp
  then show ?thesis
    by (simp add: fetchBuild_def example_world_def download_def TrimRight_def maxBuildSize_def example_sign(2))
qed

theorem signed_build_installs_witness:
  "\<exists>m'. selfUpdate example_world (''v2'', ''http://symon/'', 7) example_machine = (Inr (), m') \<and> mc_files m' ''/usr/bin/agent'' = Some ''b''"
proof -
  have laws: "ed_laws example_ed example_seed" by (simp add: ed_laws_def example_ed_def example_seed_def)
  have "TrimSpace ''SyMon agent v2'' = ''SyMon agent '' @ ''v2''" by code_simp
  moreover have "mc_files example_keys ''agent'' = Some ''b''" "mc_files example_tools ''key'' = None"
    by (simp_all add: example_files example_tools_def)
  ultimately have "\<exists>m'. selfUpdate example_world (''v2'', ''http://symon/'', 7) example_machine = (Inr (), m') \<and>
      mc_files m' = (mc_files example_machine)(''/usr/bin/agent'' \<mapsto> ''b'', ''/usr/bin/agent'' @ ''.new'' := None)"
    by (intro signed_build_installs [OF laws _ _ example_files(3) _ example_sign(1), where PublicKey = "wl_PublicKey example_world"
          and signature = "the (mc_files example_signed ''agent.sig'')" and build = "''b''" and out = "''SyMon agent v2''"] example_fetch)
      (simp_all add: example_world_def example_seed_def example_machine_def)
  then show ?thesis by auto
qed

theorem agent_installs_only_signed_witness:
  "\<exists>tried u m'. handle_all ''v1'' (\<lambda>_. ''failed'') (selfUpdate example_world) [None, Some (''v2'', ''http://symon/'', 7)] (newUpdater, example_machine) = (tried, u, m') \<and>
    (mc_files m' ''/usr/bin/agent'' = Some ''a'' \<or> (\<exists>q build. q \<in> set tried \<and> mc_files m' ''/usr/bin/agent'' = Some build \<and> good_build example_world (fst q) build))"
proof -
  obtain tried u m' where h: "handle_all ''v1'' (\<lambda>_. ''failed'') (selfUpdate example_world) [None, Some (''v2'', ''http://symon/'', 7)] (newUpdater, example_machine) = (tried, u, m')"
    by (metis prod.exhaust)
  have "wl_exe example_world = Inr ''/usr/bin/agent''" by (simp add: example_world_def)
  from agent_installs_only_signed [OF this h] h show ?thesis by (auto simp: example_machine_def)
qed

end
