(* ===== verification/Settings.thy ===== *)
theory Settings
  imports AgentCollect SeriesQuery
begin

text \<open>
  How the three programs are set up: internal/config and what collector/main.go and collector/tasks.go make of the settings. The environment is a map;
  the settings file is what opening and reading it gave, lines as bufio.Scanner has them.
\<close>

section \<open>The settings file\<close>

type_synonym environ = "string \<rightharpoonup> string"

definition Getenv :: "environ \<Rightarrow> string \<Rightarrow> string" where
  "Getenv env key = (case env key of None \<Rightarrow> [] | Some v \<Rightarrow> v)"

text \<open>\<open>os.Setenv\<close> refuses a key that is empty or has an equals sign in it, and a NUL in either.\<close>

definition Setenv :: "string \<Rightarrow> string \<Rightarrow> environ \<Rightarrow> unit result \<times> environ" where
  "Setenv key v env =
     (if key = [] \<or> CHR ''='' \<in> set key \<or> CHR 0x00 \<in> set key \<or> CHR 0x00 \<in> set v then (Inl (err_text ''invalid argument''), env)
      else (Inr (), env(key \<mapsto> v)))"

fun file_lines :: "string \<Rightarrow> string list" where
  "file_lines [] = []"
| "file_lines (c # cs) = (if c = CHR 0x0A then [] # file_lines cs else (case file_lines cs of [] \<Rightarrow> [[c]] | l # ls \<Rightarrow> (c # l) # ls))"

text \<open>A Scanner stops at a line that does not fit its buffer of 64 KiB.\<close>

definition fits :: "string \<Rightarrow> bool" where
  "fits line \<longleftrightarrow> length line < 65536"

definition drop_return :: "string \<Rightarrow> string" where
  "drop_return line = TrimSuffix line [CHR 0x0D]"

definition scan_lines :: "string \<Rightarrow> string list \<times> error option" where
  "scan_lines content =
     (map drop_return (takeWhile fits (file_lines content)),
      if list_all fits (file_lines content) then None else Some (err_text ''bufio.Scanner: token too long''))"

definition DefaultEnvFile :: "string \<Rightarrow> string" where
  "DefaultEnvFile component = ''/etc/symon/'' @ component @ ''.env''"

definition unquote :: "string \<Rightarrow> string" where
  "unquote v = (if length v \<ge> 2 \<and> (hd v = CHR 0x22 \<or> hd v = CHR 0x27) \<and> List.last v = hd v then butlast (tl v) else v)"

text \<open>A line: nothing to set, a key and its value, or neither.\<close>

datatype env_line = Skipped | Assigned string string | BadLine

definition parse_env_line :: "string \<Rightarrow> env_line" where
  "parse_env_line raw =
     (let line = TrimSpace raw in
      if line = [] \<or> HasPrefix line ''#'' then Skipped
      else (case Cut (TrimPrefix line ''export '') ''='' of
        None \<Rightarrow> BadLine
      | Some (key, v) \<Rightarrow> if TrimSpace key = [] then BadLine else Assigned (TrimSpace key) (unquote (TrimSpace v))))"

fun load_lines :: "string \<Rightarrow> int \<Rightarrow> string list \<Rightarrow> environ \<Rightarrow> unit result \<times> environ" where
  "load_lines path lineNo [] env = (Inr (), env)"
| "load_lines path lineNo (raw # rest) env = (case parse_env_line raw of
     Skipped \<Rightarrow> load_lines path (lineNo + 1) rest env
   | BadLine \<Rightarrow> (Inl (ErrText ''%s line %d: expected KEY=value'' [path, Itoa lineNo]), env)
   | Assigned key v \<Rightarrow>
       if env key \<noteq> None then load_lines path (lineNo + 1) rest env
       else (case Setenv key v env of
         (Inl e, env') \<Rightarrow> (Inl e, env')
       | (Inr _, env') \<Rightarrow> load_lines path (lineNo + 1) rest env'))"

datatype env_file = NoFile | CannotOpen error | Contents string

definition LoadEnvFile :: "string \<Rightarrow> env_file \<Rightarrow> environ \<Rightarrow> unit result \<times> environ" where
  "LoadEnvFile path file env = (case file of
     NoFile \<Rightarrow> (Inr (), env)
   | CannotOpen e \<Rightarrow> (Inl e, env)
   | Contents content \<Rightarrow> (case scan_lines content of (lines, err) \<Rightarrow>
       (case load_lines path 1 lines env of
          (Inl e, env') \<Rightarrow> (Inl e, env')
        | (Inr _, env') \<Rightarrow> (case err of None \<Rightarrow> (Inr (), env') | Some e \<Rightarrow> (Inl e, env')))))"

section \<open>Settings\<close>

definition positiveInt :: "string \<Rightarrow> int" where
  "positiveInt v = (case ParseInt (TrimSpace v) of (converted, ok) \<Rightarrow> if \<not> ok \<or> converted < 0 then 0 else converted)"

definition splitList :: "string \<Rightarrow> string list" where
  "splitList v = filter (\<lambda>item. item \<noteq> []) (map (\<lambda>item. ToLower (TrimSpace item)) (Split_char CHR '','' v))"

text \<open>A number of seconds: what \<open>Atoi\<close> made of the text, error or not, when it is positive.\<close>

definition interval_setting :: "int \<Rightarrow> string \<Rightarrow> int" where
  "interval_setting preset v = (if v \<noteq> [] \<and> fst (ParseInt v) > 0 then fst (ParseInt v) else preset)"

definition or_default :: "string \<Rightarrow> string \<Rightarrow> string" where
  "or_default v preset = (if v = [] then preset else v)"

definition is_TRUE :: "string \<Rightarrow> bool" where
  "is_TRUE v \<longleftrightarrow> ToUpper v = ''TRUE''"

definition not_FALSE :: "string \<Rightarrow> bool" where
  "not_FALSE v \<longleftrightarrow> ToUpper v \<noteq> ''FALSE''"

definition DEFAULT_INTERVAL_SECS :: int where "DEFAULT_INTERVAL_SECS = 30"
definition DEFAULT_ENDPOINT_CHECK_INTERVAL :: int where "DEFAULT_ENDPOINT_CHECK_INTERVAL = 60"
definition DEFAULT_REFRESH_SECS :: int where "DEFAULT_REFRESH_SECS = 15"

record config_Agent =
  ca_MonitorIntervalSeconds :: int
  ca_LogFileEnabled :: bool
  ca_CollectorEndpoint :: string
  ca_CollectorEndpointCACertPath :: string
  ca_LogFilePath :: string
  ca_monitor :: AgentConfig
  ca_AgentKeyPath :: string
  ca_KubeCluster :: string
  ca_KubeAPIURL :: string
  ca_KubeCAPath :: string
  ca_KubeTokenPath :: string
  ca_TasksPath :: string

text \<open>The file with the list of services, as reading it and decoding its JSON went.\<close>

definition GetServicesToMonitor :: "(string \<Rightarrow> string result) \<Rightarrow> (string \<Rightarrow> ServiceToMonitor list result) \<Rightarrow> string \<Rightarrow> ServiceToMonitor list" where
  "GetServicesToMonitor read decode path =
     (if path = [] then []
      else case read path of Inl _ \<Rightarrow> [] | Inr file \<Rightarrow> (case decode file of Inl _ \<Rightarrow> [] | Inr services \<Rightarrow> services))"

text \<open>\<open>hostname\<close> is what \<open>os.Hostname\<close> gives, empty after an error. \<open>ca_monitor\<close> has the fields the collector of measurements reads.\<close>

definition GetAgent :: "(string \<Rightarrow> string result) \<Rightarrow> (string \<Rightarrow> ServiceToMonitor list result) \<Rightarrow> string \<Rightarrow> environ \<Rightarrow> config_Agent" where
  "GetAgent read decode hostname env =
     (let get = Getenv env in
      \<lparr>ca_MonitorIntervalSeconds = interval_setting DEFAULT_INTERVAL_SECS (get ''SYMON_MONITOR_INTERVAL_SECONDS''),
       ca_LogFileEnabled = is_TRUE (get ''SYMON_AGENT_LOG_FILE_ENABLED''), ca_CollectorEndpoint = get ''SYMON_COLLECTOR_ENDPOINT'',
       ca_CollectorEndpointCACertPath = get ''SYMON_COLLECTOR_ENDPOINT_CERT_PATH'', ca_LogFilePath = get ''SYMON_AGENT_LOG_FILE_PATH'',
       ca_monitor = \<lparr>ag_ServerId = or_default (get ''SYMON_SERVER_ID'') hostname, ag_DisksToIgnore = get ''SYMON_DISKS_TO_IGNORE'',
         ag_Services = GetServicesToMonitor read decode (get ''SYMON_SERVICE_LIST_PATH''), ag_DisabledCollectors = splitList (get ''SYMON_DISABLED_COLLECTORS''),
         ag_ContainerAware = is_TRUE (get ''SYMON_CONTAINER_AWARE''), ag_ContainerSocket = get ''SYMON_CONTAINER_SOCKET'',
         ag_ContainerLayerSize = is_TRUE (get ''SYMON_CONTAINER_LAYER_SIZE''), ag_CRISocket = or_default (get ''SYMON_CRI_SOCKET'') ''/run/containerd/containerd.sock''\<rparr>,
       ca_AgentKeyPath = or_default (get ''SYMON_AGENT_KEY_PATH'') ''/etc/symon/agent.key'', ca_KubeCluster = TrimSpace (get ''SYMON_KUBE_CLUSTER''),
       ca_KubeAPIURL = get ''SYMON_KUBE_API_URL'', ca_KubeCAPath = or_default (get ''SYMON_KUBE_CA_PATH'') ''/etc/kubernetes/pki/ca.crt'',
       ca_KubeTokenPath = or_default (get ''SYMON_KUBE_TOKEN_PATH'') ''/etc/symon/kube.token'',
       ca_TasksPath = or_default (get ''SYMON_TASKS_PATH'') ''/etc/symon/tasks.json''\<rparr>)"

record config_Collector =
  cc_TLSEnabled :: bool
  cc_LogFileEnabled :: bool
  cc_EndpointCheckInterval :: int
  cc_EndpointMonitoringEnabled :: bool
  cc_DatabaseURL :: string
  cc_DashboardURL :: string
  cc_RetentionRawDays :: int
  cc_RetentionMinuteDays :: int
  cc_RetentionHourDays :: int
  cc_TaskHistoryDays :: int
  cc_Port :: string
  cc_CertPath :: string
  cc_KeyPath :: string
  cc_LogFilePath :: string
  cc_AlertsFilePath :: string

definition GetCollector :: "environ \<Rightarrow> config_Collector" where
  "GetCollector env =
     (let get = Getenv env in
      \<lparr>cc_TLSEnabled = is_TRUE (get ''SYMON_TLS_ENABLED''), cc_LogFileEnabled = is_TRUE (get ''SYMON_LOG_FILE_ENABLED''),
       cc_EndpointCheckInterval = interval_setting DEFAULT_ENDPOINT_CHECK_INTERVAL (get ''SYMON_ENDPOINT_CHECK_INTERVAL''),
       cc_EndpointMonitoringEnabled = not_FALSE (get ''SYMON_ENABLE_ENDPOINT_MONITORING''), cc_DatabaseURL = get ''SYMON_DATABASE_URL'',
       cc_DashboardURL = get ''SYMON_DASHBOARD_URL'', cc_RetentionRawDays = positiveInt (get ''SYMON_RETENTION_RAW_DAYS''),
       cc_RetentionMinuteDays = positiveInt (get ''SYMON_RETENTION_MINUTE_DAYS''), cc_RetentionHourDays = positiveInt (get ''SYMON_RETENTION_HOUR_DAYS''),
       cc_TaskHistoryDays = positiveInt (get ''SYMON_TASK_HISTORY_DAYS''), cc_Port = get ''SYMON_PORT'', cc_CertPath = get ''SYMON_TLS_CERT_PATH'',
       cc_KeyPath = get ''SYMON_TLS_KEY_PATH'', cc_LogFilePath = get ''SYMON_LOG_FILE_PATH'', cc_AlertsFilePath = get ''SYMON_ALERTS_CONFIG_PATH''\<rparr>)"

record config_Client =
  ct_LogFileEnabled :: bool
  ct_Port :: string
  ct_CollectorEndpoint :: string
  ct_CollectorEndpointCACertPath :: string
  ct_LogFilePath :: string
  ct_RefreshSeconds :: int
  ct_DownloadsDir :: string
  ct_AgentCollectorEndpoint :: string
  ct_MetricsEnabled :: bool
  ct_MetricsAuth :: bool

definition GetClient :: "environ \<Rightarrow> config_Client" where
  "GetClient env =
     (let get = Getenv env; refreshSeconds = positiveInt (get ''SYMON_CLIENT_REFRESH_SECONDS'') in
      \<lparr>ct_LogFileEnabled = is_TRUE (get ''SYMON_CLIENT_LOG_FILE_ENABLED''), ct_Port = get ''SYMON_CLIENT_PORT'',
       ct_CollectorEndpoint = get ''SYMON_CLIENT_COLLECTOR_ENDPOINT'', ct_CollectorEndpointCACertPath = get ''SYMON_CLIENT_COLLECTOR_ENDPOINT_CA_CERT_PATH'',
       ct_LogFilePath = get ''SYMON_CLIENT_LOG_FILE_PATH'', ct_RefreshSeconds = (if refreshSeconds = 0 then DEFAULT_REFRESH_SECS else refreshSeconds),
       ct_DownloadsDir = or_default (get ''SYMON_CLIENT_DOWNLOADS_DIR'') ''downloads'', ct_AgentCollectorEndpoint = get ''SYMON_CLIENT_AGENT_COLLECTOR_ENDPOINT'',
       ct_MetricsEnabled = not_FALSE (get ''SYMON_CLIENT_METRICS_ENABLED''), ct_MetricsAuth = is_TRUE (get ''SYMON_CLIENT_METRICS_AUTH'')\<rparr>)"

section \<open>What the collector makes of them\<close>

definition days :: "int \<Rightarrow> duration" where
  "days n = dur_mul (wrap64 (n * 24)) Hour"

text \<open>The part of \<open>openStore\<close> before the database is opened.\<close>

definition store_retention :: "config_Collector \<Rightarrow> Retention result" where
  "store_retention config =
     (if cc_DatabaseURL config = [] then Inl (err_text ''SYMON_DATABASE_URL is not set'')
      else let keep = (\<lambda>n preset. if n > 0 then days n else preset);
               retention = \<lparr>rt_Raw = keep (cc_RetentionRawDays config) (rt_Raw DefaultRetention),
                 rt_Minute = keep (cc_RetentionMinuteDays config) (rt_Minute DefaultRetention), rt_Hour = keep (cc_RetentionHourDays config) (rt_Hour DefaultRetention)\<rparr>
           in if rt_Minute retention < days 3 then Inl (err_text ''SYMON_RETENTION_MINUTE_DAYS must be at least 3'') else Inr retention)"

definition taskHistory :: "config_Collector \<Rightarrow> duration" where
  "taskHistory config = (if cc_TaskHistoryDays config > 0 then days (cc_TaskHistoryDays config) else days 90)"

definition dashboardURL :: "string result \<Rightarrow> config_Collector \<Rightarrow> string" where
  "dashboardURL hostname config =
     (if cc_DashboardURL config \<noteq> [] then TrimRight (cc_DashboardURL config) CHR ''/''
      else ''http://'' @ (case hostname of Inl _ \<Rightarrow> ''localhost'' | Inr h \<Rightarrow> h) @ '':8080'')"

section \<open>Properties\<close>

text \<open>The assignments of a settings file, in its order.\<close>

definition assignments :: "string list \<Rightarrow> (string \<times> string) list" where
  "assignments lines = concat (map (\<lambda>l. case parse_env_line l of Assigned k v \<Rightarrow> [(k, v)] | _ \<Rightarrow> []) lines)"

lemma load_lines_effect:
  assumes "load_lines path n lines env = (r, env')"
  shows "env \<subseteq>\<^sub>m env' \<and> (r = Inr () \<longrightarrow> env' = map_of (assignments lines) ++ env)"
  using assms
proof (induction lines arbitrary: n env)
  case (Cons l lines)
  show ?case
  proof (cases "parse_env_line l")
    case Skipped
    with Cons.prems Cons.IH [of "n + 1" env] show ?thesis by (simp add: assignments_def)
  next
    case BadLine
    with Cons.prems show ?thesis by auto
  next
    case (Assigned k v)
    show ?thesis
    proof (cases "env k")
      case None
      show ?thesis
      proof (cases "Setenv k v env")
        case (Pair e env1)
        show ?thesis
        proof (cases e)
          case (Inl x)
          with Pair None Assigned Cons.prems show ?thesis by (auto simp: Setenv_def split: if_splits)
        next
          case (Inr u)
          with Pair have env1: "env1 = env(k \<mapsto> v)" by (auto simp: Setenv_def split: if_splits)
          from Inr Pair None Assigned Cons.prems have "load_lines path (n + 1) lines env1 = (r, env')" by simp
          note later = Cons.IH [OF this]
          have "env \<subseteq>\<^sub>m env1" using None env1 by (auto simp: map_le_def)
          with later have "env \<subseteq>\<^sub>m env'" by (blast intro: map_le_trans)
          moreover have "map_of (assignments lines) ++ env1 = map_of (assignments (l # lines)) ++ env"
            using None Assigned env1 by (auto simp: assignments_def map_add_def fun_eq_iff split: option.splits)
          ultimately show ?thesis using later by simp
        qed
      qed
    next
      case (Some w)
      with Assigned Cons.prems have "load_lines path (n + 1) lines env = (r, env')" by simp
      from Cons.IH [OF this] Some Assigned show ?thesis
        by (auto simp: assignments_def map_add_def fun_eq_iff split: option.splits)
    qed
  qed
qed (simp add: assignments_def)

text \<open>A settings file never changes a variable that is set. When it loads, every other variable has the value of the first line that sets it.\<close>

theorem settings_file_fills_in:
  assumes "LoadEnvFile path (Contents content) env = (r, env')"
  shows "env \<subseteq>\<^sub>m env' \<and> (r = Inr () \<longrightarrow> env' = map_of (assignments (map drop_return (file_lines content))) ++ env)"
proof -
  obtain lines err where scan: "scan_lines content = (lines, err)" by fastforce
  obtain r1 env1 where load: "load_lines path 1 lines env = (r1, env1)" by fastforce
  have env1: "env' = env1" using assms scan load by (auto simp: LoadEnvFile_def split: sum.splits option.splits)
  have "r1 = Inr () \<and> err = None" if "r = Inr ()"
    using that assms scan load by (auto simp: LoadEnvFile_def split: sum.splits option.splits)
  moreover have "lines = map drop_return (file_lines content)" if "err = None"
  proof -
    have "takeWhile fits (file_lines content) = file_lines content"
      using scan that by (auto simp: scan_lines_def takeWhile_eq_all_conv list_all_iff split: if_splits)
    with scan show ?thesis by (simp add: scan_lines_def)
  qed
  ultimately show ?thesis
    using load_lines_effect [OF load] env1 by auto
qed

text \<open>Whatever is set, intervals are positive; whether they fit a time.Duration is another matter.\<close>

theorem intervals_positive:
  "0 < ca_MonitorIntervalSeconds (GetAgent read decode hostname env) \<and> 0 < cc_EndpointCheckInterval (GetCollector env) \<and> 0 < ct_RefreshSeconds (GetClient env)"
proof -
  have "0 \<le> positiveInt v" for v by (simp add: positiveInt_def split: prod.split)
  then have "positiveInt v \<noteq> 0 \<Longrightarrow> 0 < positiveInt v" for v by (metis order_le_imp_less_or_eq)
  then show ?thesis
    by (simp add: GetAgent_def GetCollector_def GetClient_def Let_def interval_setting_def DEFAULT_INTERVAL_SECS_def DEFAULT_ENDPOINT_CHECK_INTERVAL_def DEFAULT_REFRESH_SECS_def)
qed

lemma days_exact: "0 \<le> n \<Longrightarrow> n \<le> 106751 \<Longrightarrow> days n = n * (24 * Hour)"
  by (simp add: days_def dur_mul_def wrap64_id int64_def Hour_def Minute_def Second_def)

text \<open>Up to 106751 days the times to keep data are what was asked for. From 106752 days on the multiplication overflows: with that many days of hourly data
  the time to keep it is negative.\<close>

theorem retention_as_set:
  assumes "store_retention config = Inr retention" and "cc_RetentionRawDays config \<le> 106751" and "cc_RetentionMinuteDays config \<le> 106751"
    and "cc_RetentionHourDays config \<le> 106751"
  shows "0 < rt_Raw retention \<and> days 3 \<le> rt_Minute retention \<and> 0 < rt_Hour retention \<and>
    (0 < cc_RetentionHourDays config \<longrightarrow> rt_Hour retention = cc_RetentionHourDays config * (24 * Hour))"
proof -
  have pos: "0 < n \<Longrightarrow> n \<le> 106751 \<Longrightarrow> 0 < days n" for n by (simp add: days_exact Hour_def Minute_def Second_def)
  have preset: "0 < rt_Raw DefaultRetention" "0 < rt_Hour DefaultRetention" by (simp_all add: DefaultRetention_def Hour_def Minute_def Second_def)
  let ?keep = "\<lambda>n preset. if n > 0 then days n else preset"
  have r: "rt_Raw retention = ?keep (cc_RetentionRawDays config) (rt_Raw DefaultRetention)" "rt_Hour retention = ?keep (cc_RetentionHourDays config) (rt_Hour DefaultRetention)"
      "days 3 \<le> rt_Minute retention"
    using assms(1) by (auto simp: store_retention_def Let_def simp del: if_split split: if_splits)
  show ?thesis
    using assms(2,4) pos preset days_exact [of "cc_RetentionHourDays config"] r(3) by (simp add: r(1,2) Hour_def Minute_def Second_def)
qed

definition example_collector :: config_Collector where
  "example_collector = (GetCollector [''SYMON_DATABASE_URL'' \<mapsto> ''postgres://db'', ''SYMON_RETENTION_HOUR_DAYS'' \<mapsto> ''400''])"

theorem retention_as_set_witness: "\<exists>retention. store_retention example_collector = Inr retention \<and> rt_Hour retention = 400 * (24 * Hour)"
proof -
  have c: "cc_RetentionRawDays example_collector = 0" "cc_RetentionMinuteDays example_collector = 0" "cc_RetentionHourDays example_collector = 400"
    by code_simp+
  obtain r where r: "store_retention example_collector = Inr r"
  proof -
    have "case_sum (\<lambda>_. False) (\<lambda>_. True) (store_retention example_collector)" by code_simp
    with that show thesis by (cases "store_retention example_collector") auto
  qed
  from retention_as_set [OF r] r c show ?thesis by simp
qed

lemma retention_overflows: "days 106752 < 0"
  by code_simp

end
