(* ===== verification/Programs.thy ===== *)
theory Programs
  imports AgentUpdate Settings Enrollment Accounts FleetApi
begin

text \<open>
  The programs around the parts: the commands of collector/main.go and users.go, the rounds of purge.go and tasks.go, and of agent/main.go and agent/kube.go enrolling,
  the credentials of calls and reporting a cluster. A command is what it prints (to stdout or stderr, without what it logs) and its exit code, with the state after it. Migrations are SQL the database
  runs; whether they failed is an argument. So are texts of errors and of times in the local zone.
\<close>

section \<open>Commands of the collector\<close>

record cli =
  cli_Error :: "error \<Rightarrow> string"
  cli_when :: "time \<Rightarrow> string"
  cli_day :: "time \<Rightarrow> string"
  cli_minute :: "time \<Rightarrow> string"
  cli_migrate :: "error option"
  cli_hostname :: "string result"

type_synonym output_and_code = "string \<times> int"

definition line :: "string \<Rightarrow> string" where
  "line s = s @ [CHR 0x0A]"

definition exit_with :: "string \<Rightarrow> 's \<Rightarrow> output_and_code \<times> 's" where
  "exit_with message s = ((line message, 1), s)"

definition after_migrating :: "cli \<Rightarrow> (db \<Rightarrow> output_and_code \<times> db) \<Rightarrow> db \<Rightarrow> output_and_code \<times> db" where
  "after_migrating w command s = (case cli_migrate w of
     Some e \<Rightarrow> exit_with (''cannot update database schema: '' @ cli_Error w e) s
   | None \<Rightarrow> command s)"

definition usable_text :: "string \<Rightarrow> int \<Rightarrow> string" where
  "usable_text host uses = (if uses > 1 then ''by '' @ Itoa uses @ '' hosts'' else ''once'') @ (if host \<noteq> [] then '' by '' @ host else [])"

definition printEnrollmentToken :: "cli \<Rightarrow> hash \<Rightarrow> string result \<Rightarrow> time \<Rightarrow> config_Collector \<Rightarrow> string \<Rightarrow> int \<Rightarrow> duration \<Rightarrow> db \<Rightarrow> output_and_code \<times> db" where
  "printEnrollmentToken w hash secret now config host uses ttl =
     after_migrating w (\<lambda>s. case CreateEnrollmentToken hash secret now host uses ttl s of
       (Inl e, s') \<Rightarrow> exit_with (''cannot create token: '' @ cli_Error w e) s'
     | (Inr (token, expires), s') \<Rightarrow>
         ((line (''Token usable '' @ usable_text host uses @ '' until '' @ cli_when w expires @ ''. On the new host run:'') @ line [] @
           line (''  curl -fsSL --connect-timeout 10 '' @ dashboardURL (cli_hostname w) config @ ''/install.sh | sudo sh -s -- --token '' @ token) @ line [] @
           line ''The host downloads the agent from the dashboard, then sends its data to the collector.'' @
           line ''Run the same command again later to upgrade the agent.'', 0), s'))"

definition removeAgent :: "cli \<Rightarrow> string \<Rightarrow> db \<Rightarrow> output_and_code \<times> db" where
  "removeAgent w name s =
     (let start = line (''Removing agent '' @ name) in
      case RemoveHost name s of
        (Inr _, s') \<Rightarrow> ((start, 0), s')
      | (Inl e, s') \<Rightarrow> ((start @ (if errors_Is e ErrNotFound then line (''Agent ID '' @ name @ '' doesn't exist'') else line (cli_Error w e)), 0), s'))"

section \<open>Users on the command line\<close>

definition roleWords :: "string \<Rightarrow> string" where
  "roleWords role = (if role = RoleViewer then ''a viewer, who can look but not change alert rules'' else ''an admin, who can change alert rules'')"

definition printPassword :: "string \<Rightarrow> string" where
  "printPassword password = line [] @ line ''Password, shown only this once:'' @ line [] @ line (''  '' @ password) @ line []"

text \<open>Where a password comes from: made up, or what reading the first line of the input gave, with the error it ended with.\<close>

datatype password_source = MadeUp "string result" | Stdin string "error option"

definition from_stdin :: "password_source \<Rightarrow> bool" where
  "from_stdin p = (case p of MadeUp _ \<Rightarrow> False | Stdin _ _ \<Rightarrow> True)"

definition trim_line_end :: "string \<Rightarrow> string" where
  "trim_line_end l = rev (dropWhile (\<lambda>c. c = CHR 0x0D \<or> c = CHR 0x0A) (rev l))"

definition newPassword :: "password_source \<Rightarrow> (string \<times> error) + string" where
  "newPassword source = (case source of
     MadeUp (Inl e) \<Rightarrow> Inl (''cannot make a password: '', e)
   | MadeUp (Inr p) \<Rightarrow> Inr p
   | Stdin l (Some e) \<Rightarrow> if l = [] then Inl (''cannot read a password from stdin: '', e) else Inr (trim_line_end l)
   | Stdin l None \<Rightarrow> Inr (trim_line_end l))"

definition with_password :: "cli \<Rightarrow> password_source \<Rightarrow> (string \<Rightarrow> db \<Rightarrow> output_and_code \<times> db) \<Rightarrow> db \<Rightarrow> output_and_code \<times> db" where
  "with_password w source command s = (case newPassword source of
     Inl (prefix, e) \<Rightarrow> exit_with (prefix @ cli_Error w e) s
   | Inr password \<Rightarrow> command password s)"

definition addUser :: "cli \<Rightarrow> kdf \<Rightarrow> error option \<Rightarrow> string result \<Rightarrow> time \<Rightarrow> config_Collector \<Rightarrow> string \<Rightarrow> string \<Rightarrow> password_source \<Rightarrow> db \<Rightarrow> output_and_code \<times> db" where
  "addUser w kdf slot salt now config name role source =
     after_migrating w (with_password w source (\<lambda>password s. case AddUser kdf slot salt now name password role s of
       (Inl e, s') \<Rightarrow> exit_with (if errors_Is e ErrUserExists then ''User '' @ name @ '' already exists. Use -reset-password to give it a new password.''
                                 else ''cannot add the user: '' @ cli_Error w e) s'
     | (Inr _, s') \<Rightarrow> ((line (''Created user '' @ name @ '', '' @ roleWords role @ ''.'') @ (if from_stdin source then [] else printPassword password) @
                        line (''Log in at '' @ dashboardURL (cli_hostname w) config), 0), s')))"

definition or_no_user :: "cli \<Rightarrow> string \<Rightarrow> string \<Rightarrow> string \<Rightarrow> unit result \<times> db \<Rightarrow> output_and_code \<times> db" where
  "or_no_user w name what success x = (case x of
     (Inl e, s') \<Rightarrow> exit_with (if errors_Is e ErrNotFound then ''There is no user '' @ name @ ''.'' else what @ cli_Error w e) s'
   | (Inr _, s') \<Rightarrow> ((success, 0), s'))"

definition resetPassword :: "cli \<Rightarrow> kdf \<Rightarrow> error option \<Rightarrow> string result \<Rightarrow> string \<Rightarrow> password_source \<Rightarrow> db \<Rightarrow> output_and_code \<times> db" where
  "resetPassword w kdf slot salt name source =
     after_migrating w (with_password w source (\<lambda>password s.
       or_no_user w name ''cannot set the password: ''
         (line (''Set a new password for '' @ name @ '' and logged them out everywhere.'') @ (if from_stdin source then [] else printPassword password))
         (SetPassword kdf slot salt name password s)))"

definition setRole :: "cli \<Rightarrow> string \<Rightarrow> string \<Rightarrow> db \<Rightarrow> output_and_code \<times> db" where
  "setRole w name role =
     after_migrating w (\<lambda>s. or_no_user w name ''cannot set the role: ''
       (line (name @ '' is now '' @ roleWords role @ ''. The dashboard picks it up within a minute.'')) (SetRole name role s))"

definition removeUser :: "cli \<Rightarrow> string \<Rightarrow> db \<Rightarrow> output_and_code \<times> db" where
  "removeUser w name =
     after_migrating w (\<lambda>s. or_no_user w name ''cannot remove the user: '' (line (''Removed user '' @ name @ '' and logged them out everywhere.'')) (RemoveUser name s))"

text \<open>The rows of the table; how text/tabwriter pads them is left out.\<close>

definition user_line :: "cli \<Rightarrow> User \<Rightarrow> string list" where
  "user_line w u = [us_Name u, us_Role u, cli_day w (us_CreatedAt u), if us_LastLogin u = zero_time then ''never'' else cli_minute w (us_LastLogin u)]"

definition listUsers :: "cli \<Rightarrow> db \<Rightarrow> (output_and_code + string list list) \<times> db" where
  "listUsers w s = (case cli_migrate w of
     Some e \<Rightarrow> (Inl (line (''cannot update database schema: '' @ cli_Error w e), 1), s)
   | None \<Rightarrow> (case Users s of
       (Inl e, s') \<Rightarrow> (Inl (line (''cannot list users: '' @ cli_Error w e), 1), s')
     | (Inr users, s') \<Rightarrow>
         (if users = [] then Inl (line ''No users yet, so the dashboard is locked. Add one with -add-user <name>.'', 0)
          else Inr ([''USER'', ''ROLE'', ''CREATED'', ''LAST LOGIN''] # map (user_line w) users), s')))"

section \<open>Rounds of the collector\<close>

text \<open>A day's purge, with the times the four statements are made. A failed purge of alerts ends the round.\<close>

definition purge_round :: "time list \<Rightarrow> duration \<Rightarrow> duration \<Rightarrow> db \<Rightarrow> db" where
  "purge_round moments retentionHour keep s = (case PurgeResolvedAlerts (moments ! 0) retentionHour s of
     (Inl _, s1) \<Rightarrow> s1
   | (Inr _, s1) \<Rightarrow> snd (PurgeTaskRuns (moments ! 3) keep (snd (PurgeSessions (moments ! 2) (snd (PurgeEnrollmentTokens (moments ! 1) s1))))))"

definition sweep_round :: "time \<Rightarrow> time \<Rightarrow> db \<Rightarrow> db" where
  "sweep_round now later s = snd (SweepTaskRuns now later s)"

section \<open>Commands of the agent\<close>

datatype credentials = AgentKey string | SharedKey

definition agent_credentials :: "string \<Rightarrow> machine \<Rightarrow> credentials \<times> machine" where
  "agent_credentials path m = (case os_ReadFile path m of
     (Inr key, m') \<Rightarrow> (if TrimSpace key \<noteq> [] then AgentKey (TrimSpace key) else SharedKey, m')
   | (Inl _, m') \<Rightarrow> (SharedKey, m'))"

text \<open>\<open>GetRequestMetadata\<close> of the two; \<open>jwt\<close> is what making a token gave.\<close>

definition call_metadata :: "string result \<Rightarrow> credentials \<Rightarrow> metadata result" where
  "call_metadata jwt c = (case c of
     AgentKey key \<Rightarrow> Inr \<lparr>md_agent_key = [key], md_jwt = []\<rparr>
   | SharedKey \<Rightarrow> (case jwt of Inl e \<Rightarrow> Inl (ErrWrap ''cannot generate token: %w'' [] e) | Inr token \<Rightarrow> Inr \<lparr>md_agent_key = [], md_jwt = [token]\<rparr>))"

definition os_MkdirAll :: "(unit, machine) act" where
  "os_MkdirAll = fs_call (\<lambda>fs. (Inr (), fs)) (\<lambda>_ fs. fs)"

text \<open>\<open>call\<close> is the collector's Enroll, \<open>dial\<close> the error of making a connection, \<open>Message\<close> the text of a status.\<close>

definition agent_enroll ::
  "(error \<Rightarrow> string) \<Rightarrow> (error \<Rightarrow> string) \<Rightarrow> error option \<Rightarrow> (string \<Rightarrow> string \<Rightarrow> string \<Rightarrow> (string \<times> string, 's) act) \<Rightarrow> string \<Rightarrow> config_Agent \<Rightarrow> string \<Rightarrow>
     's \<times> machine \<Rightarrow> output_and_code \<times> 's \<times> machine" where
  "agent_enroll Error Message dial call timezone config token sm = (case sm of (s, m) \<Rightarrow>
     if token = [] then exit_with ''-enroll needs -token, get one with collector -enroll-token'' (s, m)
     else case dial of
       Some e \<Rightarrow> exit_with (''cannot create collector client: '' @ Error e) (s, m)
     | None \<Rightarrow> (case call token (ag_ServerId (ca_monitor config)) timezone s of
         (Inl e, s') \<Rightarrow> exit_with (''cannot enroll: '' @ Message e) (s', m)
       | (Inr (hostName, key), s') \<Rightarrow>
           (case bindE os_MkdirAll (\<lambda>_. os_WriteFile (ca_AgentKeyPath config) (key @ [CHR 0x0A])) m of
              (Inl e, m') \<Rightarrow> exit_with (''cannot save agent key: '' @ Error e) (s', m')
            | (Inr _, m') \<Rightarrow> ((line (''Enrolled as '' @ hostName @ '', key saved to '' @ ca_AgentKeyPath config), 0), s', m'))))"

definition initAgent :: "(string \<Rightarrow> string \<Rightarrow> (string, 's) act) \<Rightarrow> string \<Rightarrow> config_Agent \<Rightarrow> 's \<Rightarrow> output_and_code \<times> 's" where
  "initAgent call timezone config s = (case call (ag_ServerId (ca_monitor config)) timezone s of
     (Inl e, s') \<Rightarrow> (([], 1), s')
   | (Inr body, s') \<Rightarrow> ((line (body @ '' ''), 0), s'))"

text \<open>Errors of the loop that sends snapshots are logged; the command that sends a custom metric ends with one.\<close>

definition sendMonitorData :: "(string \<Rightarrow> (string, 's) act) \<Rightarrow> string \<Rightarrow> 's \<Rightarrow> 's" where
  "sendMonitorData call json s = snd (call json s)"

definition sendCustomMetric :: "(error \<Rightarrow> string) \<Rightarrow> (CustomMetric \<Rightarrow> string result) \<Rightarrow> (string \<Rightarrow> (string, 's) act) \<Rightarrow> time \<Rightarrow> string \<Rightarrow> string \<Rightarrow> string \<Rightarrow> config_Agent \<Rightarrow> 's \<Rightarrow> output_and_code \<times> 's" where
  "sendCustomMetric Error marshal call now name unit' v config s =
     (case marshal \<lparr>cu_Name = name, cu_Unit = unit', cu_Value = v, cu_ServerId = ag_ServerId (ca_monitor config), cu_Time = Itoa (time_toUnix now)\<rparr> of
        Inl e \<Rightarrow> ((line (Error e), 0), s)
      | Inr json \<Rightarrow> (case call json s of
          (Inl e, s') \<Rightarrow> (([], 1), s')
        | (Inr _, s') \<Rightarrow> (([], 0), s')))"

section \<open>Reporting a cluster\<close>

record clusterReader =
  rd_cluster :: string
  rd_host :: string
  rd_lastError :: string

definition kubeOldCollector :: duration where
  "kubeOldCollector = 10 * Minute"

text \<open>\<open>step\<close>: \<open>state\<close> is what reading the API gave, \<open>report\<close> the collector's call. The result is how long to wait.\<close>

definition cluster_step ::
  "(ClusterState \<Rightarrow> string result) \<Rightarrow> (string \<Rightarrow> string \<Rightarrow> (string, 's) act) \<Rightarrow> ClusterState \<Rightarrow> clusterReader \<times> 's \<Rightarrow> duration \<times> clusterReader \<times> 's" where
  "cluster_step marshal call state rs = (case rs of (r, s) \<Rightarrow>
     (let r' = r\<lparr>rd_lastError := cs_Error state\<rparr> in
      case marshal state of
        Inl _ \<Rightarrow> (ReportInterval, r', s)
      | Inr json \<Rightarrow> (case call (rd_host r) json s of (res, s') \<Rightarrow>
          (if status_Code res \<in> {Unimplemented, PermissionDenied} then kubeOldCollector else ReportInterval, r', s'))))"

section \<open>Secrets\<close>

text \<open>\<open>base64.RawURLEncoding\<close>: no padding, and two other characters.\<close>

definition url_char :: "char \<Rightarrow> char" where
  "url_char c = (if c = CHR ''+'' then CHR ''-'' else if c = CHR ''/'' then CHR 0x5F else c)"

definition RawURL_EncodeToString :: "string \<Rightarrow> string" where
  "RawURL_EncodeToString bs = map url_char (filter (\<lambda>c. c \<noteq> CHR ''='') (EncodeToString bs))"

text \<open>\<open>random\<close> is what the random source gave, 32 bytes.\<close>

definition newSecret :: "string result \<Rightarrow> string result" where
  "newSecret random = (case random of Inl e \<Rightarrow> Inl e | Inr bytes \<Rightarrow> Inr (RawURL_EncodeToString bytes))"

text \<open>\<open>auth.GetKey\<close> and \<open>keyGen\<close>: \<open>random\<close> is 64 bytes. A key that was made up stays in the environment of the process.\<close>

definition keyGen :: "string \<Rightarrow> string" where
  "keyGen random = EncodeToString random"

definition GetKey :: "string \<Rightarrow> bool \<Rightarrow> environ \<Rightarrow> string \<times> environ" where
  "GetKey random generateIfNotFound env =
     (let key = Getenv env ''SYMON_KEY'' in
      if key \<noteq> [] then (key, env)
      else if \<not> generateIfNotFound then ([], env)
      else (keyGen random, snd (Setenv ''SYMON_KEY'' (keyGen random) env)))"

definition initCollector :: "cli \<Rightarrow> string \<Rightarrow> environ \<Rightarrow> output_and_code \<times> environ" where
  "initCollector w random env = (case cli_migrate w of
     Some e \<Rightarrow> exit_with (''cannot create database schema: '' @ cli_Error w e) env
   | None \<Rightarrow> (let (key, env') = GetKey random True env in ((line ''---'' @ line (''SYMON_KEY: '' @ key) @ line ''---'', 0), env')))"

section \<open>An enrolled agent is known\<close>

lemma secret_char:
  assumes "c \<in> set (RawURL_EncodeToString bs)"
  shows "c \<notin> hd ` set spaces \<and> c \<notin> hd ` set (map rev spaces)"
proof -
  obtain d where d: "d \<in> set (EncodeToString bs)" "c = url_char d" using assms by (auto simp: RawURL_EncodeToString_def)
  have "CHR ''-'' \<notin> set (map hd spaces @ map hd (map rev spaces))" "CHR 0x5F \<notin> set (map hd spaces @ map hd (map rev spaces))" by code_simp+
  with encoded_char [OF d(1)] show ?thesis by (auto simp: d(2) url_char_def)
qed

lemma secret_nonempty:
  assumes "bs \<noteq> []"
  shows "RawURL_EncodeToString bs \<noteq> []"
proof -
  have "b64_value (b64_char n) \<noteq> None" for n
  proof -
    have "b64_char n = b64_char (n mod 64)" by (simp add: b64_char_def)
    then show ?thesis using b64_value_char [of "n mod 64"] by simp
  qed
  then have "b64_char n \<noteq> CHR ''=''" for n using b64_value_pad by metis
  with assms show ?thesis by (cases bs rule: EncodeToString.cases) (auto simp: RawURL_EncodeToString_def)
qed

lemma agent_enroll_cases:
  assumes "agent_enroll Error Message dial call timezone config token (s, m) = ((out, 0), s', m')"
  obtains hostName key m1 where "call token (ag_ServerId (ca_monitor config)) timezone s = (Inr (hostName, key), s')"
    and "os_WriteFile (ca_AgentKeyPath config) (key @ [CHR 0x0A]) m1 = (Inr (), m')"
  using assms that by (auto simp: agent_enroll_def exit_with_def bindE_def split: if_splits option.splits prod.splits sum.splits)

lemma read_after_write:
  assumes "os_WriteFile path data m = (Inr (), m')" and "mc_will m' = []"
  shows "os_ReadFile path m' = (Inr data, m')"
  using assms write_cases [OF assms(1)] by (simp add: os_ReadFile_def fs_call_def)

lemma api_Enroll_cases:
  assumes "api_Enroll hash secret now token hostName timezone s = (Inr (n, key), s')"
  shows "n = hostName" and "Enroll hash secret now token hostName timezone s = (Inr key, s')"
  using assms by (auto simp: api_Enroll_def bindE_def map_err_def split: if_splits prod.splits sum.splits)

lemma Enroll_key_known:
  assumes "Enroll hash secret now token host timezone s = (Inr key, s')" and "tab_inv host_inv s" and "db_net s' = []"
  shows "HostForCredential hash key s' = (Inr host, s')" and "secret = Inr key"
proof -
  from Enroll_effect [OF assms(1)] obtain k where k: "secret = Inr key" "k \<in> set (db_tokens (tabs s))" "token_for now (hash token) host k"
    "enrolled (hash key) k host timezone (tabs s) (db_seq s) (tabs s') (db_seq s')" by auto
  have inv: "host_inv (tabs s) (db_seq s)" using assms(2) by (simp add: tab_inv_def)
  have pos: "0 < k_uses_left k" using k(3) by (simp add: token_for_def usable_token_def)
  show "HostForCredential hash key s' = (Inr host, s')" by (simp add: HostForCredential_quiet [OF assms(3)] enrolled_key_host(1) [OF inv k(4,2) pos])
  show "secret = Inr key" by (rule k(1))
qed

text \<open>C31. An agent that enrolled is known: after \<open>agent -enroll\<close> ends with exit code 0, the agent's calls carry the key it saved, and the collector takes
  every call of an agent as coming from the host it enrolled as.\<close>

theorem enrolled_agent_is_known:
  assumes "agent_enroll Error Message dial (api_Enroll hash (newSecret (Inr bytes)) now) timezone config token (s, m) = ((out, 0), s', m')"
    and "length bytes = 32" and "tab_inv host_inv s" and "db_net s' = []" and "mc_will m' = []" and "agentMethods call"
  shows "case call_metadata jwt (fst (agent_credentials (ca_AgentKeyPath config) m')) of
      Inl e \<Rightarrow> False
    | Inr meta \<Rightarrow> AuthInterceptor valid (HostForCredential hash) (Some meta) call handler s' = handler (Some (ag_ServerId (ca_monitor config))) s'"
proof -
  let ?host = "ag_ServerId (ca_monitor config)" and ?path = "ca_AgentKeyPath config"
  from agent_enroll_cases [OF assms(1)] obtain name key m1
    where e: "api_Enroll hash (newSecret (Inr bytes)) now token ?host timezone s = (Inr (name, key), s')"
      and w: "os_WriteFile ?path (key @ [CHR 0x0A]) m1 = (Inr (), m')" .
  note known = Enroll_key_known [OF api_Enroll_cases(2) [OF e] assms(3,4)]
  then have key: "key = RawURL_EncodeToString bytes" by (simp add: newSecret_def)
  have "key \<noteq> []" unfolding key by (rule secret_nonempty) (use assms(2) in auto)
  with secret_char [of _ bytes] have "TrimSpace (key @ [CHR 0x0A]) = key" by (intro TrimSpace_line) (auto simp: key)
  with \<open>key \<noteq> []\<close> read_after_write [OF w assms(5)] have "agent_credentials ?path m' = (AgentKey key, m')" by (simp add: agent_credentials_def)
  moreover have "call \<noteq> M_Enroll" using assms(6) by (auto simp: agentMethods_def)
  ultimately show ?thesis using known(1) assms(6) by (simp add: call_metadata_def AuthInterceptor_def)
qed

definition example_fresh_agent :: config_Agent where
  "example_fresh_agent = GetAgent (\<lambda>_. Inl missing) (\<lambda>_. Inl missing) ''web'' (\<lambda>_. None)"

definition example_enroll_run :: "output_and_code \<times> db \<times> machine" where
  "example_enroll_run = agent_enroll (\<lambda>_. []) (\<lambda>_. []) None (api_Enroll (\<lambda>x. ''h-'' @ x) (newSecret (Inr (replicate 32 CHR ''a''))) Minute) ''UTC'' example_fresh_agent ''tok''
     (example_token_db, \<lparr>mc_files = (\<lambda>_. None), mc_will = []\<rparr>)"

text \<open>A host that enrolls and then sends a ping is taken as the host it said it is.\<close>

theorem enrolled_agent_is_known_witness:
  "case call_metadata (Inl missing) (fst (agent_credentials ''/etc/symon/agent.key'' (snd (snd example_enroll_run)))) of
      Inl e \<Rightarrow> False
    | Inr meta \<Rightarrow> AuthInterceptor (\<lambda>_. False) (HostForCredential (\<lambda>x. ''h-'' @ x)) (Some meta) M_HandlePing (\<lambda>host. ret host) (fst (snd example_enroll_run)) =
        (Inr (Some ''web''), fst (snd example_enroll_run))"
proof -
  have settings: "ca_AgentKeyPath example_fresh_agent = ''/etc/symon/agent.key''" "ag_ServerId (ca_monitor example_fresh_agent) = ''web''" by code_simp+
  have "snd (fst example_enroll_run) = 0" "db_net (fst (snd example_enroll_run)) = []" "mc_will (snd (snd example_enroll_run)) = []" by code_simp+
  then obtain out s' m' where run: "example_enroll_run = ((out, 0), s', m')" "db_net s' = []" "mc_will m' = []" by (metis prod.collapse)
  have call: "agentMethods M_HandlePing" by (simp add: agentMethods_def)
  show ?thesis
    using enrolled_agent_is_known [OF run(1) [unfolded example_enroll_run_def] _ example_token_inv run(2,3) call,
        where jwt = "Inl missing" and valid = "\<lambda>_. False" and handler = "\<lambda>host. ret host"]
    by (simp add: settings run(1) ret_def split: sum.splits del: append.simps)
qed

end
