(* ===== verification/ClusterRounds.thy ===== *)
theory ClusterRounds
  imports KubeClient Programs
begin

text \<open>
  A round of an agent that reads a cluster, with the collector behind it: client.go, agent/kube.go, \<open>ReportCluster\<close> of internal/api and internal/store/kube.go
  together.
\<close>

lemma update_cluster_named:
  assumes "cluster_named t name = Some c" and "\<And>r. kc_name (f r) = kc_name r"
  shows "cluster_named (t\<lparr>db_clusters := update_where (\<lambda>r. kc_id r = kc_id c) f (db_clusters t)\<rparr>) name = Some (f c)"
  using assms by (auto simp: cluster_named_def find_update_where)

lemma find_appended: "find P xs = None \<Longrightarrow> find P (xs @ [x]) = (if P x then Some x else None)"
  by (induction xs) (auto split: if_splits)

lemmas statements = query_def exec_def insert_into_def dbcall_def in_tx_def bindE_def Let_def ret_def

definition own_cluster :: "int \<Rightarrow> tables \<Rightarrow> string \<Rightarrow> bool" where
  "own_cluster hid t name \<longleftrightarrow> (case cluster_named t name of None \<Rightarrow> True | Some c \<Rightarrow> kc_host_id c = None \<or> kc_host_id c = Some hid)"

definition last_state :: "tables \<Rightarrow> string \<Rightarrow> ClusterState option" where
  "last_state t name = map_option kc_state (cluster_named t name)"

lemma report_tx_seen:
  assumes "db_net s = []" and "own_cluster hid (tabs s) (cs_Cluster state)" and "cs_Error state = []"
    and "case last_state (tabs s) (cs_Cluster state) of None \<Rightarrow> True | Some old \<Rightarrow> cs_Time old < cs_Time state"
  shows "\<exists>s' c. report_tx hid state s = (Inr (), s') \<and> db_net s' = [] \<and> cluster_named (tabs s') (cs_Cluster state) = Some c \<and> kc_state c = state \<and> kc_error c = [] \<and>
    kc_reported_at c = time_Unix (cs_Time state) \<and>
    db_restarts (tabs s') = db_restarts (tabs s) @ map (\<lambda>r. \<lparr>kr_time = time_Unix (cs_Time state), kr_cluster_id = kc_id c, kr_restart = r\<rparr>)
      (case last_state (tabs s) (cs_Cluster state) of None \<Rightarrow> [] | Some old \<Rightarrow> Restarts old state)"
proof (cases "cluster_named (tabs s) (cs_Cluster state)")
  case None
  then show ?thesis
    using assms by (auto simp: report_tx_def insert_cluster_def saveClusterMetrics_def statements last_state_def cluster_named_def find_appended)
next
  case (Some c)
  let ?f = "\<lambda>c. c\<lparr>kc_host_id := Some hid, kc_state := state, kc_error := [], kc_reported_at := time_Unix (cs_Time state)\<rparr>"
  from Some assms have own: "kc_host_id c = None \<or> kc_host_id c = Some hid" "\<not> cs_Time state \<le> cs_Time (kc_state c)"
    by (auto simp: own_cluster_def last_state_def)
  have upd: "cluster_named ((tabs s)\<lparr>db_clusters := update_where (\<lambda>r. kc_id r = kc_id c) ?f (db_clusters (tabs s))\<rparr>) (cs_Cluster state) = Some (?f c)"
    by (rule update_cluster_named [OF Some]) simp
  then have "find (\<lambda>r. kc_name r = cs_Cluster state) (update_where (\<lambda>r. kc_id r = kc_id c) ?f (db_clusters (tabs s))) = Some (?f c)" by (simp add: cluster_named_def)
  with Some own assms(1,3) show ?thesis
    by (auto simp: report_tx_def update_cluster_def saveClusterMetrics_def statements last_state_def cluster_named_def)
qed

lemma report_tx_failed_read:
  assumes "db_net s = []" and "own_cluster hid (tabs s) (cs_Cluster state)" and "cs_Error state \<noteq> []" and "cluster_named (tabs s) (cs_Cluster state) = Some c"
  shows "\<exists>s'. report_tx hid state s = (Inr (), s') \<and> db_net s' = [] \<and> db_restarts (tabs s') = db_restarts (tabs s) \<and>
    cluster_named (tabs s') (cs_Cluster state) =
      Some (c\<lparr>kc_host_id := Some hid, kc_error := cs_Error state, kc_reported_at := time_Unix (cs_Time state)\<rparr>)"
proof -
  let ?f = "\<lambda>c. c\<lparr>kc_host_id := Some hid, kc_error := cs_Error state, kc_reported_at := time_Unix (cs_Time state)\<rparr>"
  have "cluster_named ((tabs s)\<lparr>db_clusters := update_where (\<lambda>r. kc_id r = kc_id c) ?f (db_clusters (tabs s))\<rparr>) (cs_Cluster state) = Some (?f c)"
    by (rule update_cluster_named [OF assms(4)]) simp
  with assms show ?thesis
    by (auto simp: report_tx_def update_cluster_def statements own_cluster_def cluster_named_def)
qed

lemma ReportCluster_quiet:
  assumes "db_net s = []" and "unmarshal json = Inr state" and "host_named (tabs s) host = Some h"
    and "TrimSpace (cs_Cluster state) \<noteq> []" and "length (cs_Cluster state) \<le> 100" and "report_tx (h_id h) state s = (Inr (), s')" and "db_net s' = []"
  shows "ReportCluster unmarshal (Some host) name json s = (Inr ''ok'', s')"
  using assms by (simp add: ReportCluster_def SaveClusterReport_def hostID_def call_host_def map_err_def statements)

lemma Cluster_read_quiet:
  assumes "db_net s = []" and "cluster_named (tabs s) name = Some c"
  shows "Cluster_read name s = (Inr (cluster_of_row (tabs s) c), s)"
  using assms by (simp add: Cluster_read_def statements)

text \<open>C12. A cluster is recorded as it is: when the API serves its lists, in pages of any size, and the collector answers, the round ends with the collector knowing
  every node, workload and pod of the cluster and no error, and with one row for each restart since the state it knew before, and the next round is due
  after the usual interval.\<close>

theorem cluster_round_recorded:
  assumes "serves_cluster api base (TrimSpace content) n continue objects a" and "TrimSpace content \<noteq> []" and "seen = cluster_seen parse cluster now objects"
    and "marshal seen = Inr json" and "unmarshal json = Inr seen"
    and "db_net s = []" and "host_named (tabs s) host = Some h" and "own_cluster (h_id h) (tabs s) cluster"
    and "TrimSpace cluster \<noteq> []" and "length cluster \<le> 100"
    and "case last_state (tabs s) cluster of None \<Rightarrow> True | Some old \<Rightarrow> cs_Time old < time_toUnix now"
  shows "\<exists>s' c i. kube_Read Error api parse base tokenPath (Inr content) cluster now a = Some (seen, a) \<and>
    cluster_step marshal (ReportCluster unmarshal (Some host)) seen (r, s) = (ReportInterval, r\<lparr>rd_lastError := []\<rparr>, s') \<and>
    Cluster_read cluster s' = (Inr c, s') \<and> cl_State c = seen \<and> cl_Error c = [] \<and> cl_ReportedAt c = time_Unix (time_toUnix now) \<and>
    db_restarts (tabs s') = db_restarts (tabs s) @ map (\<lambda>r. \<lparr>kr_time = time_Unix (time_toUnix now), kr_cluster_id = i, kr_restart = r\<rparr>)
      (case last_state (tabs s) cluster of None \<Rightarrow> [] | Some old \<Rightarrow> Restarts old seen)"
proof -
  have fields: "cs_Cluster seen = cluster" "cs_Error seen = []" "cs_Time seen = time_toUnix now" by (simp_all add: assms(3) cluster_seen_def)
  from report_tx_seen [of s "h_id h" seen, unfolded fields, OF assms(6,8) refl assms(11)] obtain s' c where
    tx: "report_tx (h_id h) seen s = (Inr (), s')" "db_net s' = []" and
    row: "cluster_named (tabs s') cluster = Some c" "kc_state c = seen" "kc_error c = []" "kc_reported_at c = time_Unix (time_toUnix now)" and
    restarts: "db_restarts (tabs s') = db_restarts (tabs s) @ map (\<lambda>r. \<lparr>kr_time = time_Unix (time_toUnix now), kr_cluster_id = kc_id c, kr_restart = r\<rparr>)
      (case last_state (tabs s) cluster of None \<Rightarrow> [] | Some old \<Rightarrow> Restarts old seen)"
    by blast
  have "ReportCluster unmarshal (Some host) (rd_host r) json s = (Inr ''ok'', s')"
    using assms(5,6,7,9,10) tx by (intro ReportCluster_quiet) (auto simp: fields)
  then have "cluster_step marshal (ReportCluster unmarshal (Some host)) seen (r, s) = (ReportInterval, r\<lparr>rd_lastError := []\<rparr>, s')"
    by (simp add: cluster_step_def assms(4) fields Let_def)
  moreover have "kube_Read Error api parse base tokenPath (Inr content) cluster now a = Some (seen, a)"
    unfolding assms(3) by (rule kube_Read_whole [OF assms(1,2)])
  ultimately show ?thesis using Cluster_read_quiet [OF tx(2) row(1)] row restarts by (auto simp: cluster_of_row_def)
qed

text \<open>A round in which the API could not be read keeps the state that was known, with the error beside it.\<close>

theorem cluster_round_failed:
  assumes "kube_Read Error api parse base tokenPath raw cluster now a = Some (state, a')" and "cs_Error state \<noteq> []"
    and "marshal state = Inr json" and "unmarshal json = Inr state"
    and "db_net s = []" and "host_named (tabs s) host = Some h" and "own_cluster (h_id h) (tabs s) cluster"
    and "TrimSpace cluster \<noteq> []" and "length cluster \<le> 100" and "last_state (tabs s) cluster = Some old"
  shows "\<exists>s' c. cluster_step marshal (ReportCluster unmarshal (Some host)) state (r, s) = (ReportInterval, r\<lparr>rd_lastError := cs_Error state\<rparr>, s') \<and>
    Cluster_read cluster s' = (Inr c, s') \<and> cl_State c = old \<and> cl_Error c = cs_Error state \<and> db_restarts (tabs s') = db_restarts (tabs s)"
proof -
  have name: "cs_Cluster state = cluster" using kube_Read_error [OF assms(1,2)] by (metis ClusterState.select_convs(1) ClusterState.surjective ClusterState.update_convs(1,2,3))
  from assms(10) obtain row where row: "cluster_named (tabs s) cluster = Some row" "old = kc_state row" by (auto simp: last_state_def)
  from report_tx_failed_read [of s "h_id h" state row] assms(2,5,7) row(1) name obtain s' where
    tx: "report_tx (h_id h) state s = (Inr (), s')" "db_net s' = []" "db_restarts (tabs s') = db_restarts (tabs s)" and
    named: "cluster_named (tabs s') cluster = Some (row\<lparr>kc_host_id := Some (h_id h), kc_error := cs_Error state, kc_reported_at := time_Unix (cs_Time state)\<rparr>)"
    by auto
  have "ReportCluster unmarshal (Some host) (rd_host r) json s = (Inr ''ok'', s')"
    using assms(4,5,6,8,9) tx by (intro ReportCluster_quiet) (auto simp: name)
  then have "cluster_step marshal (ReportCluster unmarshal (Some host)) state (r, s) = (ReportInterval, r\<lparr>rd_lastError := cs_Error state\<rparr>, s')"
    by (simp add: cluster_step_def assms(3) Let_def)
  then show ?thesis using Cluster_read_quiet [OF tx(2) named] tx(3) row(2) by (auto simp: cluster_of_row_def)
qed

section \<open>An example\<close>

text \<open>A cluster of two nodes, served one at a time; the body of an answer is the URL.\<close>

definition example_node :: "string \<Rightarrow> apiNode" where
  "example_node name = \<lparr>an_Metadata = \<lparr>meta_Name = name, meta_Namespace = [], meta_UID = name, meta_CreationTimestamp = 0, meta_Labels = [], meta_OwnerReferences = []\<rparr>,
     an_Unschedulable = False, an_Conditions = [], an_Allocatable = [], an_KubeletVersion = []\<rparr>"

definition example_continue :: "nat \<Rightarrow> string" where
  "example_continue k = replicate k CHR ''n''"

definition example_nodes :: "apiNode list" where
  "example_nodes = [example_node ''n1'', example_node ''n2'']"

definition example_objects :: cluster_objects where
  "example_objects = \<lparr>co_nodes = example_nodes, co_pods = [], co_deployments = [], co_statefulSets = [], co_daemonSets = [], co_events = []\<rparr>"

definition example_api :: "unit kubeAPI" where
  "example_api = \<lparr>ka_Do = (\<lambda>token url s. (Inr \<lparr>ap_StatusCode = 200, ap_Status = ''200 OK'', ap_Body = url\<rparr>, s)),
     ka_nodes = (\<lambda>url. if url = page_url ''/api/v1/nodes'' [] [] then Inr \<lparr>pg_Continue = example_continue 1, pg_Items = [example_node ''n1'']\<rparr>
       else if url = page_url ''/api/v1/nodes'' [] (example_continue 1) then Inr \<lparr>pg_Continue = [], pg_Items = [example_node ''n2'']\<rparr>
       else Inr \<lparr>pg_Continue = [], pg_Items = []\<rparr>),
     ka_pods = (\<lambda>_. Inr \<lparr>pg_Continue = [], pg_Items = []\<rparr>), ka_replicated = (\<lambda>_. Inr \<lparr>pg_Continue = [], pg_Items = []\<rparr>),
     ka_daemonSets = (\<lambda>_. Inr \<lparr>pg_Continue = [], pg_Items = []\<rparr>), ka_events = (\<lambda>_. Inr \<lparr>pg_Continue = [], pg_Items = []\<rparr>), ka_status = (\<lambda>_. Inr [])\<rparr>"

lemma example_pages: "page_url ''/api/v1/nodes'' [] [] = ''/api/v1/nodes?limit=500''" "page_url ''/api/v1/nodes'' [] ''n'' = ''/api/v1/nodes?continue=n&limit=500''"
    "page_url ''/api/v1/nodes'' [] ''nn'' = ''/api/v1/nodes?continue=nn&limit=500''"
  by code_simp+

lemma example_pages_served: "serves_cluster example_api [] ''tok'' 1 example_continue example_objects ()"
proof -
  have k: "k \<le> Suc (Suc 0) \<longleftrightarrow> k = 0 \<or> k = Suc 0 \<or> k = Suc (Suc 0)" for k by auto
  have "serves_list (kube_get (ka_Do example_api) (ka_status example_api) (ka_nodes example_api) [] ''tok'') ''/api/v1/nodes'' [] 1 example_continue example_nodes ()"
    by (auto simp: serves_list_def kube_get_def example_api_def example_nodes_def example_continue_def example_pages k)
  then show ?thesis
    by (simp add: serves_cluster_def example_objects_def) (simp add: serves_list_def kube_get_def example_api_def example_continue_def)
qed

definition example_cluster_db :: db where
  "example_cluster_db = \<lparr>db_net = [], db_seq = (\<lambda>_. 5), tabs = no_rows\<lparr>db_hosts := [new_host 1 ''web'' ''UTC'']\<rparr>\<rparr>"

theorem cluster_round_recorded_witness:
  "\<exists>s' c. cluster_step (\<lambda>_. Inr []) (ReportCluster (\<lambda>_. Inr (cluster_seen (\<lambda>_. None) ''prod'' 0 example_objects)) (Some ''web''))
      (cluster_seen (\<lambda>_. None) ''prod'' 0 example_objects) (\<lparr>rd_cluster = ''prod'', rd_host = ''web'', rd_lastError = ''down''\<rparr>, example_cluster_db) =
      (ReportInterval, \<lparr>rd_cluster = ''prod'', rd_host = ''web'', rd_lastError = []\<rparr>, s') \<and>
    Cluster_read ''prod'' s' = (Inr c, s') \<and> map node_Name (cs_Nodes (cl_State c)) = [''n1'', ''n2'']"
proof -
  have t: "TrimSpace ''tok'' = ''tok''" "TrimSpace ''prod'' \<noteq> []" by code_simp+
  have served: "serves_cluster example_api [] (TrimSpace ''tok'') 1 example_continue example_objects ()" by (simp only: t example_pages_served)
  have host: "host_named (tabs example_cluster_db) ''web'' = Some (new_host 1 ''web'' ''UTC'')" by (simp add: host_named_def example_cluster_db_def new_host_def)
  have none: "cluster_named (tabs example_cluster_db) ''prod'' = None" by (simp add: cluster_named_def example_cluster_db_def no_rows_def)
  have "map node_Name (cs_Nodes (cluster_seen (\<lambda>_. None) ''prod'' 0 example_objects)) = [''n1'', ''n2'']"
    by (simp add: cluster_seen_def example_objects_def example_nodes_def node_of_def example_node_def Let_def)
  with cluster_round_recorded [OF served _ refl, of "\<lambda>_. Inr []" "\<lambda>_. None" "''prod''" 0 "[]" "\<lambda>_. Inr (cluster_seen (\<lambda>_. None) ''prod'' 0 example_objects)"
      example_cluster_db "''web''" "new_host 1 ''web'' ''UTC''" "\<lambda>_. []" "[]" "\<lparr>rd_cluster = ''prod'', rd_host = ''web'', rd_lastError = ''down''\<rparr>"]
  show ?thesis using t host none by (auto simp: own_cluster_def last_state_def example_cluster_db_def)
qed

end
