(* ===== verification/Spec2Isabelle.thy ===== *)
theory Spec2Isabelle
  imports Alerts Kube Tasks StoreEndpoints StoreKube AlertSystem Delivery Channels TaskSystem TaskWaiting Access Enrollment Accounts Logins ApiRules WebCollector EndpointChecks ClusterRounds
begin

text \<open>
  SyMon watches hosts, web endpoints and Kubernetes clusters. Agents (agent/) run on the hosts and send pings, measurements
  and cluster states to one collector (collector/) over gRPC (internal/api). The collector keeps everything in PostgreSQL
  (internal/store), evaluates alert rules on a timer (collector/evaluator.go), queues notifications about alerts and
  delivers them (collector/notify.go, internal/notify). Admins ask for commands of a host's tasks file to be run
  (internal/tasks, agent/tasks.go) through the dashboard (client/), which only calls the collector.

  \<^bold>\<open>How code becomes definitions.\<close> A Go function that can fail or changes state is an action \<open>('a, 's) act\<close> (Prelude), a function from a
  state to an error or a value and the state after it; \<open>bindE\<close> is the early return on an error. int64 arithmetic wraps, float64
  is rounded (GoNumbers); strings are byte strings, with Go's UTF-8 decoding (GoStrings, GoUTF8). Times are nanoseconds. The
  database (Database) is a record of tables, each the list of its rows in order of insertion; every call to it can go through, fail
  without effect, or have its effect and lose the answer, as the list \<open>db_net\<close> of outcomes to come says. A theorem about every
  state is so a theorem about every pattern of failures. A transaction is all or nothing; identity columns never go back.

  \<^bold>\<open>Parts and theories.\<close>
  \<^item> Alerts: internal/alerts and internal/alertstatus, the rules and their validation. \<open>Validate_contract\<close> says which rules are
    accepted; \<open>ParseRules_contract\<close> that a file gives all its rules or none.
  \<^item> Kube: internal/kube, what a cluster state is made of and how restarts are found. \<open>restarts_telescope\<close> and \<open>Restarts_sound\<close> say that
    restarts are neither lost nor made up; \<open>warningEvents_newest\<close> and \<open>state_Counts_bounds\<close> are about what is kept and counted.
  \<^item> Tasks: internal/tasks, the tasks file and why it can be trusted (\<open>Load_trusted\<close>).
  \<^item> Database, TableOrder: tables, calls, transactions; the locale \<open>table_order\<close> carries a relation between two moments from single
    statements to whole operations. It is interpreted for the counters, the history of runs, the reach of a key and the tokens.
  \<^item> StoreHosts, StoreAlerts, StoreKube, StoreEndpoints, TaskRuns, and the first part of Notifications: the files of internal/store
    that hold hosts, agents, enrollment, alerts, clusters, endpoint checks, disk forecasts, task runs and notifications.
  \<^item> AlertText, Evaluator: collector/evaluator.go, alerts.go and kube.go. AlertMachine holds the abstract machine of one
    watched value (the specification), AlertSystem the refinement: \<open>check_implements_machine\<close>, \<open>run_follows_machine\<close>, and with them when
    alerts open, resolve and settle.
  \<^item> Channels: internal/notify, settings, secrets and what is sent. Notifications, Delivery: collector/notify.go on the queue in the
    database; order, retries, progress and bounds of the delivery.
  \<^item> TaskHistory: the invariant of runs and what can become of a run. Api: the collector's handlers for agents and tasks and their guard.
    TaskWaiting: agents that wait for a run. AgentTasks, TaskSystem: agent/tasks.go against the collector's own handlers, through the
    locale \<open>task_collector\<close>. Access: what an agent key can change. Enrollment: hosts, keys and tokens.
  \<^item> Users, Accounts: internal/store/users.go, the dashboard's users and sessions. Logins: internal/api/login.go and how fast a
    password can be guessed.
  \<^item> StoreRules, RuleBook: internal/store/rules.go and collector/rules.go, the rules in the database with the alerts that follow them, the
    one-time setup, import and export. ApiRules: internal/api/rules.go and notifications.go, what admins see and change.
  \<^item> WebAuth, WebPages: client/internal/server, the sessions the dashboard remembers, its guards, routes and handlers, over a record of calls to
    the collector. WebAccess: what a request can show and change, by who sent it. WebWalk: requests from other sites. WebInstall: the install
    script. WebCollector: the collector's service as that record of calls, and how long a withdrawn right lasts.
  \<^item> Snapshot, AgentCollect, AgentRates: internal/monitor, what a snapshot holds, how an agent takes one from systats and the container
    runtime, and that rates are never negative or of another counter. GoFloat: the printing of numbers that is needed for it.
  \<^item> Ingest: internal/store/ingest.go and the two calls that store data. StoreQueries, SeriesQuery: internal/store/query.go and series.go, what the
    store shows of hosts and its charts. FleetApi: the queries of internal/api with endpoints, clusters and their charts.
  \<^item> MetricsPage, MetricsRead: client/internal/server/metrics.go, the page for Prometheus, and a reader of that format which gets the samples
    back. Ingested: from a snapshot an agent sends to the rules and the page.
  \<^item> GoBase64, AgentUpdate: internal/update, agent/update.go and tools/sign, how a build is signed, fetched, checked and installed on a machine
    whose files can fail.
  \<^item> EndpointChecks: collector/endpoints.go, a round of requests and what the rules then see.
  \<^item> Settings: internal/config and the settings of collector/main.go. Programs: the commands of collector/ and agent/, enrolling an agent and
    the credentials of its calls.
  \<^item> KubeClient: internal/kube/client.go, reading a cluster in pages. ClusterRounds: from the API of a cluster to the collector's tables.

  \<^bold>\<open>Parameters.\<close> Code outside the repository is an argument: SHA-256, ed25519 and random secrets, jwt verification, the JSON decoder, the file
  system, HTTP and SMTP, what a started command does, systats and the container runtime, TimescaleDB's averages, the clock. Hypotheses on them are in
  the statements.

  \<^bold>\<open>Bounds.\<close> No definition uses fuel: loops over lists are structural, retries count down, and the loop around a running command ends
  with its list of events. Reading a list of a cluster in pages ends when the server says so; it is a partial function into an option, and
  \<open>list_from_whole\<close> (KubeClient) proves that it returns. The limits in the theorems (262144 bytes of output, two minutes to pick up a run, six
  attempts, 9223372036 seconds) are the code's own constants or the range of int64.

  \<^bold>\<open>Not modelled.\<close> Reading the command line, the tickers and goroutines of the three programs, the log, TLS and dialling, making and
  parsing tokens (golang-jwt), composing an email and the SMTP session, opening the database pool, migrations and retention policies (SQL the
  database runs), the generated gRPC code, the position in an error of a JSON file, internal/command, which nothing calls, and the pages of the
  dashboard (client/web), which are not Go. SQL is modelled by what each statement does to the tables, one statement at a time: the isolation of
  concurrent transactions is the database's.
\<close>

end
